(* ===== verification/Prelude.thy ===== *)
theory Prelude
  imports Main "HOL-Library.Multiset" "HOL-Library.Option_ord"
begin

text \<open>
  What every component theory shares: the exceptions the Python code raises, the result and
  state-passing types with their sequencing operators, the pieces of the string library the code
  uses, and the generic list lemmas.

  Conventions. An operation of the code that reads and writes a store is a function from the store
  to an outcome and the new store: the outcome is \<open>Inl e\<close> when the Python code raises \<open>e\<close> and
  \<open>Inr v\<close> when it returns \<open>v\<close>. Raising does not undo earlier writes, as in the code, so the
  store is returned in both cases. Reads of the wall clock, fresh identifiers and answers of
  external programs are arguments of the operation.
\<close>

named_theorems py_simps "equations that run the sequencing operators"

section \<open>Exceptions\<close>

text \<open>
  The exception classes the modelled code raises, with their message.
  \<open>TaskTransitionError\<close> is a subclass of \<open>ValueError\<close> and \<open>PhaseSkipError\<close> of
  \<open>WorkflowError\<close> (src/application/exceptions.py); \<open>InvalidStateError\<close> and
  \<open>UnsupportedSchemaError\<close> are the two subclasses of \<open>StateError\<close>
  (src/application/services/workflow/state.py); \<open>IntegrityError\<close> is sqlite3's, where a repository
  lets it through, \<open>OSError\<close> the file system's, \<open>GitError\<close> and \<open>WorkspaceError\<close> stand for the
  classes of src/application/services/workspace/exceptions.py, \<open>HookExecutionError\<close> is the one of the
  event hooks, \<open>PatternError\<close> is \<open>re.error\<close>, and \<open>CliExit\<close> is \<open>typer.Exit(1)\<close>.
\<close>

datatype exc =
    ValueError string
  | TypeError string
  | TaskTransitionError string
  | RepositoryError string
  | IntegrityError string
  | OSError string
  | KeyError string
  | AttributeError string
  | RuntimeError string
  | InvalidStateError string
  | UnsupportedSchemaError string
  | PhaseSkipError string
  | GitError string
  | WorkspaceError string
  | ObservationNotFoundError string
  | SessionNotFoundError string
  | ServiceError string
  | JSONDecodeError string
  | ZeroDivisionError string
  | OverflowError string
  | HookExecutionError string
  | PatternError string
  | CliExit

fun exc_message :: "exc \<Rightarrow> string" where
  "exc_message (ValueError m) = m"
| "exc_message (TypeError m) = m"
| "exc_message (TaskTransitionError m) = m"
| "exc_message (RepositoryError m) = m"
| "exc_message (IntegrityError m) = m"
| "exc_message (OSError m) = m"
| "exc_message (KeyError m) = m"
| "exc_message (AttributeError m) = m"
| "exc_message (RuntimeError m) = m"
| "exc_message (InvalidStateError m) = m"
| "exc_message (UnsupportedSchemaError m) = m"
| "exc_message (PhaseSkipError m) = m"
| "exc_message (GitError m) = m"
| "exc_message (WorkspaceError m) = m"
| "exc_message (ObservationNotFoundError m) = m"
| "exc_message (SessionNotFoundError m) = m"
| "exc_message (ServiceError m) = m"
| "exc_message (JSONDecodeError m) = m"
| "exc_message (ZeroDivisionError m) = m"
| "exc_message (OverflowError m) = m"
| "exc_message (HookExecutionError m) = m"
| "exc_message (PatternError m) = m"
| "exc_message CliExit = ''1''"

text \<open>What \<open>except ValueError\<close> catches: the class and its subclasses.\<close>

fun is_value_error :: "exc \<Rightarrow> bool" where
  "is_value_error (ValueError m) = True"
| "is_value_error (TaskTransitionError m) = True"
| "is_value_error (JSONDecodeError m) = True"
| "is_value_error e = False"

fun is_transition_error :: "exc \<Rightarrow> bool" where
  "is_transition_error (TaskTransitionError m) = True"
| "is_transition_error e = False"

text \<open>What \<open>except (ValueError, TypeError)\<close> catches.\<close>

fun is_value_or_type_error :: "exc \<Rightarrow> bool" where
  "is_value_or_type_error (TypeError m) = True"
| "is_value_or_type_error e = is_value_error e"

section \<open>Results and state passing\<close>

type_synonym 'a result = "exc + 'a"
type_synonym ('s, 'a) py = "'s \<Rightarrow> 'a result \<times> 's"

fun res_bind :: "'a result \<Rightarrow> ('a \<Rightarrow> 'b result) \<Rightarrow> 'b result" where
  "res_bind (Inl e) k = Inl e"
| "res_bind (Inr a) k = k a"

text \<open>Evaluation: the continuation is not touched before its argument is known.\<close>

lemma res_bind_case [code_unfold]: "res_bind r k = (case r of Inl e \<Rightarrow> Inl e | Inr a \<Rightarrow> k a)"
  by (cases r) simp_all

text \<open>A list comprehension whose element expression may raise: the first exception wins.\<close>

fun traverse :: "('a \<Rightarrow> 'b result) \<Rightarrow> 'a list \<Rightarrow> 'b list result" where
  "traverse f [] = Inr []"
| "traverse f (x # xs) = res_bind (f x) (\<lambda>y. res_bind (traverse f xs) (\<lambda>ys. Inr (y # ys)))"

lemma traverse_Inr: "(\<And>x. x \<in> set xs \<Longrightarrow> f x = Inr (g x)) \<Longrightarrow> traverse f xs = Inr (map g xs)"
  by (induction xs) auto

lemma traverse_length: "traverse f xs = Inr ys \<Longrightarrow> length ys = length xs"
proof (induction xs arbitrary: ys)
  case (Cons x xs)
  then show ?case by (cases "f x"; cases "traverse f xs") auto
qed simp

text \<open>The same with the element skipped when it raises what \<open>p\<close> names.\<close>

fun traverse_skip :: "(exc \<Rightarrow> bool) \<Rightarrow> ('a \<Rightarrow> 'b result) \<Rightarrow> 'a list \<Rightarrow> 'b list result" where
  "traverse_skip p f [] = Inr []"
| "traverse_skip p f (x # xs) =
     (case f x of
        Inl e \<Rightarrow> (if p e then traverse_skip p f xs else Inl e)
      | Inr y \<Rightarrow> res_bind (traverse_skip p f xs) (\<lambda>ys. Inr (y # ys)))"

lemma traverse_skip_Inr:
  "(\<And>x. x \<in> set xs \<Longrightarrow> f x = Inr (g x)) \<Longrightarrow> traverse_skip p f xs = Inr (map g xs)"
  by (induction xs) auto

lemma traverse_skip_total:
  "(\<And>r e. r \<in> set rs \<Longrightarrow> f r = Inl e \<Longrightarrow> p e) \<Longrightarrow>
     \<exists>xs. traverse_skip p f rs = Inr xs \<and> (\<forall>x \<in> set xs. \<exists>r \<in> set rs. f r = Inr x)"
proof (induction rs)
  case (Cons r rs)
  then obtain xs where xs: "traverse_skip p f rs = Inr xs" "\<forall>x \<in> set xs. \<exists>r \<in> set rs. f r = Inr x"
    by force
  show ?case
  proof (cases "f r")
    case (Inl e)
    with Cons.prems [of r e] have "p e" by simp
    with Inl xs show ?thesis by auto
  next
    case (Inr y)
    with xs show ?thesis by auto
  qed
qed simp

lemma res_bind_Inr_iff: "res_bind r k = Inr b \<longleftrightarrow> (\<exists>a. r = Inr a \<and> k a = Inr b)"
  by (cases r) auto

lemma traverse_skip_from:
  "traverse_skip p f xs = Inr ys \<Longrightarrow> y \<in> set ys \<Longrightarrow> \<exists>x \<in> set xs. f x = Inr y"
  by (induction xs arbitrary: ys) (auto simp: res_bind_Inr_iff split: sum.splits if_splits)

definition py_return :: "'a \<Rightarrow> ('s, 'a) py" where
  "py_return a s = (Inr a, s)"

definition py_raise :: "exc \<Rightarrow> ('s, 'a) py" where
  "py_raise e s = (Inl e, s)"

definition py_bind :: "('s, 'a) py \<Rightarrow> ('a \<Rightarrow> ('s, 'b) py) \<Rightarrow> ('s, 'b) py" where
  "py_bind m k s = (case m s of (Inl e, s') \<Rightarrow> (Inl e, s') | (Inr a, s') \<Rightarrow> k a s')"

text \<open>A read that may raise but writes nothing.\<close>

definition py_read :: "('s \<Rightarrow> 'a result) \<Rightarrow> ('s, 'a) py" where
  "py_read f s = (f s, s)"

text \<open>A check that may raise and uses nothing of the store.\<close>

definition py_lift :: "'a result \<Rightarrow> ('s, 'a) py" where
  "py_lift r s = (r, s)"

text \<open>\<open>with contextlib.suppress(...)\<close>: the writes made before the exception stay.\<close>

definition py_suppress :: "(exc \<Rightarrow> bool) \<Rightarrow> ('s, 'a) py \<Rightarrow> ('s, unit) py" where
  "py_suppress p m s =
     (case m s of
        (Inl e, s') \<Rightarrow> (if p e then (Inr (), s') else (Inl e, s'))
      | (Inr a, s') \<Rightarrow> (Inr (), s'))"

text \<open>\<open>try: m except e if p: h e\<close>.\<close>

definition py_catch :: "(exc \<Rightarrow> bool) \<Rightarrow> ('s, 'a) py \<Rightarrow> (exc \<Rightarrow> ('s, 'a) py) \<Rightarrow> ('s, 'a) py" where
  "py_catch p m h s =
     (case m s of
        (Inl e, s') \<Rightarrow> (if p e then h e s' else (Inl e, s'))
      | (Inr a, s') \<Rightarrow> (Inr a, s'))"

text \<open>\<open>try: m finally: f\<close>, where \<open>f\<close> only changes the state.\<close>

definition py_finally :: "('s, 'a) py \<Rightarrow> ('s \<Rightarrow> 's) \<Rightarrow> ('s, 'a) py" where
  "py_finally m f s = (let (r, s') = m s in (r, f s'))"

lemma py_return_run [py_simps]: "py_return a s = (Inr a, s)"
  by (simp add: py_return_def)

lemma py_raise_run [py_simps]: "py_raise e s = (Inl e, s)"
  by (simp add: py_raise_def)

lemma py_read_run [py_simps]: "py_read f s = (f s, s)"
  by (simp add: py_read_def)

lemma py_lift_run [py_simps]: "py_lift r s = (r, s)"
  by (simp add: py_lift_def)

lemma py_bind_run [py_simps]:
  "m s = (Inr a, s') \<Longrightarrow> py_bind m k s = k a s'"
  "m s = (Inl e, s') \<Longrightarrow> py_bind m k s = (Inl e, s')"
  by (simp_all add: py_bind_def)

lemma py_bind_Inr_iff:
  "py_bind m k s = (Inr b, s'') \<longleftrightarrow> (\<exists>a s'. m s = (Inr a, s') \<and> k a s' = (Inr b, s''))"
  by (auto simp: py_bind_def split: prod.splits sum.splits)

lemma py_bind_cong_first: "m s = m' s \<Longrightarrow> py_bind m k s = py_bind m' k s"
  by (simp add: py_bind_def)

lemma py_bind_return_left [py_simps]: "py_bind (py_return a) k s = k a s"
  by (simp add: py_bind_def py_return_def)

lemma py_bind_read [py_simps]:
  "py_bind (py_read f) k s = (case f s of Inl e \<Rightarrow> (Inl e, s) | Inr a \<Rightarrow> k a s)"
  by (simp add: py_bind_def py_read_def split: sum.splits)

lemma py_bind_lift [py_simps]:
  "py_bind (py_lift r) k s = (case r of Inl e \<Rightarrow> (Inl e, s) | Inr a \<Rightarrow> k a s)"
  by (simp add: py_bind_def py_lift_def split: sum.splits)

lemma py_bind_return_fun: "py_bind (py_return a) k = k a"
  by (rule ext) (simp add: py_simps)

lemma py_bind_assoc: "py_bind (py_bind m k) h = py_bind m (\<lambda>a. py_bind (k a) h)"
  by (rule ext) (simp add: py_bind_def split: prod.splits sum.splits)

text \<open>
  The store an operation leaves, whatever its outcome. Invariants are stated on it, so that they
  also hold after an exception.
\<close>

definition preserves :: "('s \<Rightarrow> bool) \<Rightarrow> ('s, 'a) py \<Rightarrow> bool" where
  "preserves P m \<longleftrightarrow> (\<forall>s. P s \<longrightarrow> P (snd (m s)))"

named_theorems preserves_rules "an operator preserves what its parts preserve"

lemma preservesI [intro?]: "(\<And>s. P s \<Longrightarrow> P (snd (m s))) \<Longrightarrow> preserves P m"
  by (simp add: preserves_def)

lemma preservesD: "preserves P m \<Longrightarrow> P s \<Longrightarrow> P (snd (m s))"
  by (simp add: preserves_def)

lemma preserves_run: "preserves P m \<Longrightarrow> P s \<Longrightarrow> m s = (r, s') \<Longrightarrow> P s'"
  using preservesD by fastforce

lemma preserves_return [preserves_rules]: "preserves P (py_return a)"
  by (simp add: preserves_def py_simps)

lemma preserves_raise [preserves_rules]: "preserves P (py_raise e)"
  by (simp add: preserves_def py_simps)

lemma preserves_read [preserves_rules]: "preserves P (py_read f)"
  by (simp add: preserves_def py_simps)

lemma preserves_lift [preserves_rules]: "preserves P (py_lift r)"
  by (simp add: preserves_def py_simps)

lemma preserves_bind [preserves_rules]:
  assumes "preserves P m" and "\<And>a. preserves P (k a)"
  shows "preserves P (py_bind m k)"
proof
  fix s assume s: "P s"
  obtain r s' where m: "m s = (r, s')" by (cases "m s")
  with s assms(1) have "P s'" by (metis preserves_run)
  with m assms(2) show "P (snd (py_bind m k s))"
    by (cases r) (auto simp: py_simps intro: preservesD)
qed

lemma preserves_suppress [preserves_rules]:
  assumes "preserves P m"
  shows "preserves P (py_suppress p m)"
proof
  fix s assume "P s"
  with assms have "P (snd (m s))" by (rule preservesD)
  then show "P (snd (py_suppress p m s))"
    by (auto simp: py_suppress_def split: prod.splits sum.splits)
qed

lemma preserves_catch [preserves_rules]:
  assumes "preserves P m" and "\<And>e. preserves P (h e)"
  shows "preserves P (py_catch p m h)"
proof
  fix s assume "P s"
  with assms(1) have "P (snd (m s))" by (rule preservesD)
  with assms(2) show "P (snd (py_catch p m h s))"
    by (auto simp: py_catch_def preserves_def split: prod.splits sum.splits)
qed

lemma preserves_if [preserves_rules]:
  "preserves P m \<Longrightarrow> preserves P n \<Longrightarrow> preserves P (if b then m else n)"
  by simp

lemma preserves_option [preserves_rules]:
  "preserves P m \<Longrightarrow> (\<And>a. preserves P (k a)) \<Longrightarrow>
     preserves P (case x of None \<Rightarrow> m | Some a \<Rightarrow> k a)"
  by (cases x) simp_all

section \<open>Strings\<close>

text \<open>
  Python strings are \<open>string\<close>, one \<open>char\<close> per Latin-1 character. \<open>quoted\<close> is the
  f-string fragment \<open>'{s}'\<close>; \<open>show_int\<close> is \<open>str(n)\<close>.
\<close>

definition quoted :: "string \<Rightarrow> string" where
  "quoted s = CHR 0x27 # s @ [CHR 0x27]"

definition digit_char :: "nat \<Rightarrow> char" where
  "digit_char d = char_of (48 + d)"

fun show_nat :: "nat \<Rightarrow> string" where
  "show_nat n = (if n < 10 then [digit_char n] else show_nat (n div 10) @ [digit_char (n mod 10)])"

declare show_nat.simps [simp del]

definition show_int :: "int \<Rightarrow> string" where
  "show_int i = (if i < 0 then CHR 0x2D # show_nat (nat (- i)) else show_nat (nat i))"

definition show_opt_int :: "int option \<Rightarrow> string" where
  "show_opt_int x = (case x of None \<Rightarrow> ''None'' | Some i \<Rightarrow> show_int i)"

text \<open>\<open>', '.join(xs)\<close> with an arbitrary separator.\<close>

fun join :: "string \<Rightarrow> string list \<Rightarrow> string" where
  "join sep [] = []"
| "join sep [x] = x"
| "join sep (x # y # ys) = x @ sep @ join sep (y # ys)"

text \<open>The white space \<open>str.strip\<close> removes and \<open>\s\<close> matches, among the Latin-1 characters.\<close>

definition is_space :: "char \<Rightarrow> bool" where
  "is_space c \<longleftrightarrow> (of_char c :: nat) \<in> {9, 10, 11, 12, 13, 28, 29, 30, 31, 32, 133, 160}"

definition py_strip :: "string \<Rightarrow> string" where
  "py_strip s = rev (dropWhile is_space (rev (dropWhile is_space s)))"

lemma dropWhile_hd_false: "dropWhile P xs = y # ys \<Longrightarrow> \<not> P y"
  by (metis hd_dropWhile list.distinct(1) list.sel(1))

lemma dropWhile_rev_Nil_iff: "dropWhile P (rev xs) = [] \<longleftrightarrow> (\<forall>x \<in> set xs. P x)"
  by (simp add: dropWhile_eq_Nil_conv)

lemma py_strip_Nil_iff: "py_strip s = [] \<longleftrightarrow> (\<forall>c \<in> set s. is_space c)"
proof
  assume "py_strip s = []"
  then have "\<forall>c \<in> set (dropWhile is_space s). is_space c"
    by (simp add: py_strip_def dropWhile_rev_Nil_iff)
  then have "dropWhile is_space s = []"
    by (metis dropWhile_hd_false list.set_intros(1) neq_Nil_conv)
  then show "\<forall>c \<in> set s. is_space c" by (simp add: dropWhile_eq_Nil_conv)
next
  assume "\<forall>c \<in> set s. is_space c"
  then have "dropWhile is_space s = []" by (simp add: dropWhile_eq_Nil_conv)
  then show "py_strip s = []" by (simp only: py_strip_def rev.simps dropWhile.simps)
qed

lemma set_py_strip: "set (py_strip s) \<subseteq> set s"
  by (auto simp: py_strip_def dest!: set_dropWhileD)

text \<open>\<open>str.splitlines\<close> on the characters below 256.\<close>

definition is_line_break :: "char \<Rightarrow> bool" where
  "is_line_break c \<longleftrightarrow> (of_char c :: nat) \<in> {10, 11, 12, 13, 28, 29, 30, 133}"

fun splitlines_from :: "string \<Rightarrow> string \<Rightarrow> string list" where
  "splitlines_from acc [] = (if acc = [] then [] else [rev acc])"
| "splitlines_from acc [c] = (if is_line_break c then [rev acc] else [rev (c # acc)])"
| "splitlines_from acc (c # d # cs) =
     (if c = CHR 0x0D \<and> d = CHR 0x0A then rev acc # splitlines_from [] cs
      else if is_line_break c then rev acc # splitlines_from [] (d # cs)
      else splitlines_from (c # acc) (d # cs))"

definition py_splitlines :: "string \<Rightarrow> string list" where
  "py_splitlines s = splitlines_from [] s"

section \<open>Lists\<close>

lemma option_eqI: "(\<And>x. a = Some x \<longleftrightarrow> b = Some x) \<Longrightarrow> a = b"
  by (cases a; cases b) auto

lemma find_None_iff_notin: "find (\<lambda>r. key r = k) t = None \<longleftrightarrow> k \<notin> key ` set t"
  by (auto simp: find_None_iff)

lemma find_Some_set: "find P t = Some r \<Longrightarrow> r \<in> set t \<and> P r"
  by (induction t) (auto split: if_splits)

lemma find_distinct:
  "distinct (map key t) \<Longrightarrow> find (\<lambda>r. key r = k) t = Some r \<longleftrightarrow> r \<in> set t \<and> key r = k"
  by (induction t) (auto split: if_splits)

lemma distinct_filter_key: "distinct (map f xs) \<Longrightarrow> length (filter (\<lambda>x. f x = k) xs) \<le> 1"
proof (induction xs)
  case (Cons x xs)
  then show ?case by (cases "f x = k") (auto simp: filter_empty_conv image_iff)
qed simp

lemma find_append:
  "find P (xs @ ys) = (case find P xs of None \<Rightarrow> find P ys | Some x \<Rightarrow> Some x)"
  by (induction xs) auto

lemma find_map_key:
  assumes "\<And>r. key (f r) = key r"
  shows "find (\<lambda>r. key r = k) (map f t) = map_option f (find (\<lambda>r. key r = k) t)"
  using assms by (induction t) auto

lemma distinct_map_filter_key: "distinct (map key t) \<Longrightarrow> distinct (map key (filter P t))"
  by (induction t) auto

end
