(* ===== verification/Lifecycle.thy ===== *)
theory Lifecycle
  imports Prelude
begin

text \<open>
  The contract the status enumerations of the domain share: a table of permitted transitions, with
  some statuses terminal. Tasks, launches, poll runs and promise contracts each interpret it, launches
  and poll runs with a rank that bounds how many transitions one record can make.
\<close>

fun status_path :: "('s \<Rightarrow> 's set) \<Rightarrow> 's \<Rightarrow> 's list \<Rightarrow> bool" where
  "status_path tr a [] \<longleftrightarrow> True"
| "status_path tr a (b # bs) \<longleftrightarrow> b \<in> tr a \<and> status_path tr b bs"

lemma status_path_append:
  "status_path tr a (bs @ [c]) \<longleftrightarrow> status_path tr a bs \<and> c \<in> tr (last (a # bs))"
  by (induction bs arbitrary: a) auto

locale lifecycle =
  fixes trans :: "'s \<Rightarrow> 's set" and terminal :: "'s set"
  assumes terminal_stuck: "s \<in> terminal \<longleftrightarrow> trans s = {}"
begin

lemma terminal_path: "s \<in> terminal \<Longrightarrow> status_path trans s p \<longleftrightarrow> p = []"
  by (cases p) (auto simp: terminal_stuck)

lemma path_leaves_terminal_never:
  "status_path trans a (p @ b # q) \<Longrightarrow> b \<in> terminal \<Longrightarrow> q = []"
proof (induction p arbitrary: a)
  case Nil
  then show ?case by (simp add: terminal_path)
next
  case (Cons c p)
  from Cons.prems(1) have "status_path trans c (p @ b # q)" by simp
  from Cons.IH [OF this Cons.prems(2)] show ?case .
qed

end

locale ranked_lifecycle = lifecycle +
  fixes rank :: "'s \<Rightarrow> nat" and top :: nat
  assumes rank_step: "b \<in> trans a \<Longrightarrow> rank a < rank b" and rank_top: "rank a \<le> top"
begin

lemma no_self_step: "a \<notin> trans a"
  using rank_step by blast

lemma path_rank: "status_path trans a p \<Longrightarrow> rank a + length p \<le> rank (last (a # p))"
proof (induction p arbitrary: a)
  case Nil
  then show ?case by simp
next
  case (Cons b p)
  then have "rank b + length p \<le> rank (last (b # p))" and "rank a < rank b"
    by (auto dest: rank_step)
  then show ?case by simp
qed

lemma path_bounded: "status_path trans a p \<Longrightarrow> length p \<le> top - rank a"
  using path_rank rank_top by (metis add_leD1 diff_le_mono diff_add_inverse le_trans)

lemma path_acyclic:
  assumes "status_path trans a p" and "p \<noteq> []"
  shows "last p \<noteq> a"
proof
  assume "last p = a"
  with path_rank [OF assms(1)] assms(2) show False by (cases p) auto
qed

end

end
