(* ===== verification/Orchestration_Task.thy ===== *)
theory Orchestration_Task
  imports Lifecycle
begin

text \<open>
  The orchestration task entity (src/domain/entities/orchestration_task.py): its status
  enumeration and transition table, the checks the constructor makes, and the depth-first search
  for cycles of the \<open>blocked_by\<close> relation.
\<close>

section \<open>Statuses\<close>

datatype otask_status = PENDING | PLANNING | APPROVED | IN_PROGRESS | COMPLETED | DELETED

fun task_status_value :: "otask_status \<Rightarrow> string" where
  "task_status_value PENDING = ''PENDING''"
| "task_status_value PLANNING = ''PLANNING''"
| "task_status_value APPROVED = ''APPROVED''"
| "task_status_value IN_PROGRESS = ''IN_PROGRESS''"
| "task_status_value COMPLETED = ''COMPLETED''"
| "task_status_value DELETED = ''DELETED''"

fun task_transitions :: "otask_status \<Rightarrow> otask_status set" where
  "task_transitions PENDING = {PLANNING, DELETED}"
| "task_transitions PLANNING = {APPROVED, PENDING, DELETED}"
| "task_transitions APPROVED = {IN_PROGRESS, DELETED}"
| "task_transitions IN_PROGRESS = {COMPLETED, APPROVED, DELETED}"
| "task_transitions COMPLETED = {DELETED}"
| "task_transitions DELETED = {}"

text \<open>\<open>OrchestrationTaskStatus(s)\<close>: the member with this value, or nothing (a \<open>ValueError\<close>).\<close>

definition task_status_of :: "string \<Rightarrow> otask_status option" where
  "task_status_of s = find (\<lambda>st. task_status_value st = s)
     [PENDING, PLANNING, APPROVED, IN_PROGRESS, COMPLETED, DELETED]"

lemma task_status_value_inj [simp]: "task_status_value a = task_status_value b \<longleftrightarrow> a = b"
  by (cases a; cases b) simp_all

lemma task_status_of_value [simp]: "task_status_of (task_status_value s) = Some s"
  by (cases s) (simp_all add: task_status_of_def)

lemma task_status_of_Some: "task_status_of v = Some s \<longleftrightarrow> v = task_status_value s"
proof
  assume "task_status_of v = Some s"
  then have "task_status_value s = v"
    unfolding task_status_of_def by (rule find_Some_set [THEN conjunct2])
  then show "v = task_status_value s" by simp
qed simp

interpretation task_life: lifecycle task_transitions "{DELETED}"
proof
  fix s show "s \<in> {DELETED} \<longleftrightarrow> task_transitions s = {}" by (cases s) auto
qed

section \<open>The entity\<close>

text \<open>
  One record type for the entity and for its database row: the status is a member of the
  enumeration in the one and its text in the other, and the blockers are a tuple or the JSON text
  of the column.
\<close>

record ('st, 'bl) otask_fields =
  ot_id :: string
  ot_subject :: string
  ot_description :: "string option"
  ot_status :: 'st
  ot_owner :: "string option"
  ot_blocked_by :: 'bl
  ot_plan_text :: "string option"
  ot_created_at :: int
  ot_updated_at :: int
  ot_approved_by :: "string option"
  ot_approved_at :: "int option"
  ot_requested_by :: "string option"

type_synonym otask = "(otask_status, string list) otask_fields"

text \<open>
  \<open>__post_init__\<close>, which runs on construction and on every \<open>dataclasses.replace\<close>. The
  \<open>isinstance\<close> checks hold by typing; the others are made in the source's order.
\<close>

definition make_task :: "otask \<Rightarrow> otask result" where
  "make_task t =
     (if ot_id t = [] then Inl (ValueError ''id must not be empty'')
      else if ot_subject t = [] then Inl (ValueError ''subject must not be empty'')
      else if ot_id t \<in> set (ot_blocked_by t)
        then Inl (ValueError (''Task '' @ quoted (ot_id t) @ '' cannot block itself''))
      else if [] \<in> set (ot_blocked_by t)
        then Inl (ValueError ''blocked_by entries must not be empty'')
      else if ot_created_at t < 0 then Inl (ValueError ''created_at must be non-negative'')
      else if ot_updated_at t < 0 then Inl (ValueError ''updated_at must be non-negative'')
      else Inr t)"

definition valid_task :: "otask \<Rightarrow> bool" where
  "valid_task t \<longleftrightarrow> ot_id t \<noteq> [] \<and> ot_subject t \<noteq> [] \<and> ot_id t \<notin> set (ot_blocked_by t)
     \<and> [] \<notin> set (ot_blocked_by t) \<and> 0 \<le> ot_created_at t \<and> 0 \<le> ot_updated_at t"

definition task_can_transition_to :: "otask \<Rightarrow> otask_status \<Rightarrow> bool" where
  "task_can_transition_to t target \<longleftrightarrow> target \<in> task_transitions (ot_status t)"

definition task_is_blocked :: "otask \<Rightarrow> bool" where
  "task_is_blocked t \<longleftrightarrow> length (ot_blocked_by t) > 0"

lemma make_task_Inr_iff: "make_task t = Inr u \<longleftrightarrow> valid_task t \<and> u = t"
  by (auto simp: make_task_def valid_task_def split: if_splits)

lemma make_task_valid [simp]: "valid_task t \<Longrightarrow> make_task t = Inr t"
  by (simp add: make_task_Inr_iff)

lemma make_task_Inl: "make_task t = Inl e \<Longrightarrow> is_value_error e \<and> \<not> valid_task t"
  by (auto simp: make_task_def valid_task_def split: if_splits)

lemma make_task_err: "\<not> valid_task t \<Longrightarrow> \<exists>e. make_task t = Inl e"
  by (cases "make_task t") (auto simp: make_task_Inr_iff)

section \<open>Cycle detection\<close>

text \<open>
  \<open>index\<close>: the dictionary from id to task, where a later task with the same id wins.
\<close>

definition task_index :: "otask list \<Rightarrow> string \<Rightarrow> otask option" where
  "task_index ts = map_of (rev (map (\<lambda>t. (ot_id t, t)) ts))"

definition task_deps :: "otask list \<Rightarrow> string \<Rightarrow> string list" where
  "task_deps ts i = (case task_index ts i of None \<Rightarrow> [] | Some t \<Rightarrow> ot_blocked_by t)"

text \<open>
  \<open>_dfs\<close> over a list of ids: the \<open>for\<close> loop over the dependencies, and the \<open>any(...)\<close> over all
  tasks, which share the sets \<open>visited\<close> and \<open>stack\<close>. The result is the answer with both sets;
  as in the code an id leaves the stack only when its search found nothing. \<open>fuel\<close> is the
  recursion depth left, \<open>None\<close> that it ran out.
\<close>

fun dfs :: "nat \<Rightarrow> (string \<Rightarrow> string list) \<Rightarrow> string list \<Rightarrow> string set \<Rightarrow> string set
    \<Rightarrow> (bool \<times> string set \<times> string set) option" where
  "dfs fuel deps [] visited stack = Some (False, visited, stack)"
| "dfs fuel deps (i # is) visited stack =
     (if i \<in> stack then Some (True, visited, stack)
      else if i \<in> visited then dfs fuel deps is visited stack
      else (case fuel of
              0 \<Rightarrow> None
            | Suc fuel' \<Rightarrow>
                (case dfs fuel' deps (deps i) (insert i visited) (insert i stack) of
                   None \<Rightarrow> None
                 | Some (True, visited', stack') \<Rightarrow> Some (True, visited', stack')
                 | Some (False, visited', stack') \<Rightarrow>
                     dfs fuel deps is visited' (stack' - {i}))))"

definition detect_cycle :: "otask list \<Rightarrow> bool option" where
  "detect_cycle ts =
     map_option fst (dfs (length ts + 1) (task_deps ts) (map ot_id ts) {} {})"


declare dfs.simps [simp del]

lemma dfs_Nil [simp]: "dfs fuel deps [] vis stk = Some (False, vis, stk)"
  by (simp add: dfs.simps)

text \<open>A search that finds nothing returns the stack as it got it.\<close>

lemma dfs_stack:
  "dfs fuel deps is vis stk = Some (False, vis', stk') \<Longrightarrow> stk' = stk"
proof (induction fuel deps "is" vis stk arbitrary: vis' stk' rule: dfs.induct)
  case (1 fuel deps vis stk)
  then show ?case by simp
next
  case (2 fuel deps i "is" vis stk)
  show ?case
  proof (cases "i \<in> stk \<or> i \<in> vis")
    case True
    with "2.IH"(1) "2.prems" show ?thesis by (auto simp: dfs.simps(2) split: if_splits)
  next
    case False
    with "2.prems" obtain f v s where f: "fuel = Suc f"
      and inner: "dfs f deps (deps i) (insert i vis) (insert i stk) = Some (False, v, s)"
      and rest: "dfs fuel deps is v (s - {i}) = Some (False, vis', stk')"
      by (auto simp: dfs.simps(2) split: nat.splits option.splits bool.splits)
    from False f inner have "s = insert i stk" by (intro "2.IH"(2)) auto
    moreover from False f inner rest have "stk' = s - {i}" by (intro "2.IH"(3)) auto
    ultimately show ?thesis using False by auto
  qed
qed

definition dep_edges :: "(string \<Rightarrow> string list) \<Rightarrow> (string \<times> string) set" where
  "dep_edges deps = {(x, d). d \<in> set (deps x)}"

text \<open>One step of the search from an id that is neither on the stack nor visited.\<close>

lemma dfs_step:
  assumes "i \<notin> stk" "i \<notin> vis" "dfs fuel deps (i # is) vis stk = Some (b, vis', stk')"
  obtains (found) f where "fuel = Suc f" "b"
      "dfs f deps (deps i) (insert i vis) (insert i stk) = Some (True, vis', stk')"
  | (none) f v where "fuel = Suc f"
      "dfs f deps (deps i) (insert i vis) (insert i stk) = Some (False, v, insert i stk)"
      "dfs fuel deps is v stk = Some (b, vis', stk')"
proof (cases fuel)
  case 0
  with assms show ?thesis by (simp add: dfs.simps(2))
next
  case (Suc f)
  with assms obtain c v s where
    inner: "dfs f deps (deps i) (insert i vis) (insert i stk) = Some (c, v, s)"
    by (auto simp: dfs.simps(2) split: option.splits)
  show ?thesis
  proof (cases c)
    case True
    with assms inner Suc show ?thesis by (intro found) (auto simp: dfs.simps(2))
  next
    case False
    with inner have s: "s = insert i stk" by (intro dfs_stack) auto
    with assms inner Suc False show ?thesis
      by (intro none) (auto simp: dfs.simps(2) Diff_insert_absorb)
  qed
qed

lemma dfs_True_cycle:
  assumes "dfs fuel deps is vis stk = Some (True, vis', stk')"
    and "\<forall>s \<in> stk. \<forall>i \<in> set is. (s, i) \<in> (dep_edges deps)\<^sup>+"
  shows "\<exists>x. (x, x) \<in> (dep_edges deps)\<^sup>+"
  using assms
proof (induction fuel arbitrary: "is" vis stk)
  case 0
  then show ?case
  proof (induction "is" arbitrary: vis)
    case (Cons i "is")
    then show ?case by (auto simp: dfs.simps(2) split: if_splits)
  qed simp
next
  case (Suc f)
  note outer = Suc.IH
  from Suc.prems show ?case
  proof (induction "is" arbitrary: vis)
    case Nil
    then show ?case by simp
  next
    case (Cons i "is")
    consider "i \<in> stk" | "i \<notin> stk" "i \<in> vis" | "i \<notin> stk" "i \<notin> vis" by blast
    then show ?case
    proof cases
      case 1
      with Cons.prems(2) show ?thesis by auto
    next
      case 2
      with Cons show ?thesis by (auto simp: dfs.simps(2))
    next
      case 3
      from 3 Cons.prems(1) show ?thesis
      proof (cases rule: dfs_step)
        case (found f')
        have "(s, d) \<in> (dep_edges deps)\<^sup>+" if "s \<in> insert i stk" "d \<in> set (deps i)" for s d
        proof -
          from that have e: "(i, d) \<in> dep_edges deps" by (simp add: dep_edges_def)
          with that Cons.prems(2) show ?thesis by (auto intro: trancl_into_trancl)
        qed
        with found outer [of "deps i" "insert i vis" "insert i stk"] show ?thesis by auto
      next
        case (none f' v)
        with Cons.IH [of v] Cons.prems(2) show ?thesis by auto
      qed
    qed
  qed
qed

text \<open>The ids the search has finished with: they point to one another only, without a cycle.\<close>

definition finished :: "(string \<Rightarrow> string list) \<Rightarrow> string set \<Rightarrow> bool" where
  "finished deps D \<longleftrightarrow> (\<forall>x \<in> D. set (deps x) \<subseteq> D \<and> (x, x) \<notin> (dep_edges deps)\<^sup>+)"

lemma closed_reach:
  assumes "(x, y) \<in> (dep_edges deps)\<^sup>*" "x \<in> D" "finished deps D"
  shows "y \<in> D"
  using assms by (induction rule: rtrancl_induct) (auto simp: dep_edges_def finished_def)

lemma finished_insert:
  assumes D: "finished deps D" and deps: "set (deps i) \<subseteq> D" and i: "i \<notin> D"
  shows "finished deps (insert i D)"
proof -
  have "(i, i) \<notin> (dep_edges deps)\<^sup>+"
  proof
    assume "(i, i) \<in> (dep_edges deps)\<^sup>+"
    then obtain d where "(i, d) \<in> dep_edges deps" "(d, i) \<in> (dep_edges deps)\<^sup>*"
      by (meson tranclD)
    with deps D have "i \<in> D" by (auto simp: dep_edges_def intro: closed_reach)
    with i show False by simp
  qed
  with D deps show ?thesis by (auto simp: finished_def)
qed

lemma dfs_False_finished:
  assumes "dfs fuel deps is vis stk = Some (False, vis', stk')" "finished deps (vis - stk)"
  shows "finished deps (vis' - stk) \<and> vis \<subseteq> vis' \<and> set is \<subseteq> vis' - stk"
  using assms
proof (induction fuel arbitrary: "is" vis stk vis' stk')
  case 0
  then show ?case
  proof (induction "is" arbitrary: vis)
    case (Cons i "is")
    then have "i \<notin> stk" "i \<in> vis" "dfs 0 deps is vis stk = Some (False, vis', stk')"
      by (auto simp: dfs.simps(2) split: if_splits)
    with Cons.IH [of vis] Cons.prems show ?case by auto
  qed simp
next
  case (Suc f)
  note outer = Suc.IH
  from Suc.prems show ?case
  proof (induction "is" arbitrary: vis)
    case Nil
    then show ?case by simp
  next
    case (Cons i "is")
    consider "i \<in> stk" | "i \<notin> stk" "i \<in> vis" | "i \<notin> stk" "i \<notin> vis" by blast
    then show ?case
    proof cases
      case 1
      with Cons.prems(1) show ?thesis by (simp add: dfs.simps(2))
    next
      case 2
      with Cons.prems(1) have "dfs (Suc f) deps is vis stk = Some (False, vis', stk')"
        by (simp add: dfs.simps(2))
      with Cons.IH [of vis] Cons.prems(2) 2 show ?thesis by auto
    next
      case 3
      from 3 Cons.prems(1) show ?thesis
      proof (cases rule: dfs_step)
        case (none f' v)
        have "insert i vis - insert i stk = vis - stk" using 3 by auto
        with none Cons.prems(2) outer [of "deps i" "insert i vis" "insert i stk" v]
        have inner: "finished deps (v - insert i stk)" "insert i vis \<subseteq> v"
          "set (deps i) \<subseteq> v - insert i stk" by auto
        have "insert i (v - insert i stk) = v - stk" using 3 inner by auto
        with finished_insert [OF inner(1,3)] have "finished deps (v - stk)" by simp
        with none Cons.IH [of v] inner 3 show ?thesis by auto
      qed simp
    qed
  qed
qed

text \<open>Enough fuel: one level per id that has dependencies, and one for a leaf.\<close>

lemma dfs_enough_fuel:
  assumes "finite ids" "\<forall>x. x \<notin> ids \<longrightarrow> deps x = []" "card (ids - vis) < fuel"
  shows "\<exists>b vis' stk'. dfs fuel deps is vis stk = Some (b, vis', stk') \<and> vis \<subseteq> vis'"
  using assms(3)
proof (induction fuel arbitrary: "is" vis stk)
  case 0
  then show ?case by simp
next
  case (Suc f)
  note outer = Suc.IH
  from Suc.prems show ?case
  proof (induction "is" arbitrary: vis stk)
    case Nil
    show ?case by (intro exI [of _ False] exI [of _ vis] exI [of _ stk]) simp
  next
    case (Cons i "is")
    consider "i \<in> stk" | "i \<notin> stk" "i \<in> vis" | "i \<notin> stk" "i \<notin> vis" by blast
    then show ?case
    proof cases
      case 1
      then show ?thesis
        by (intro exI [of _ True] exI [of _ vis] exI [of _ stk]) (simp add: dfs.simps(2))
    next
      case 2
      with Cons show ?thesis by (simp add: dfs.simps(2))
    next
      case 3
      have "\<exists>b v s. dfs f deps (deps i) (insert i vis) (insert i stk) = Some (b, v, s)
              \<and> insert i vis \<subseteq> v"
      proof (cases "i \<in> ids")
        case True
        with 3 assms(1) have "card (ids - insert i vis) < card (ids - vis)"
          by (intro psubset_card_mono) auto
        with Cons.prems have "card (ids - insert i vis) < f" by simp
        then show ?thesis by (rule outer)
      next
        case False
        with assms(2) have "deps i = []" by simp
        then show ?thesis
          by (intro exI [of _ False] exI [of _ "insert i vis"] exI [of _ "insert i stk"]) simp
      qed
      then obtain b v s where
        inner: "dfs f deps (deps i) (insert i vis) (insert i stk) = Some (b, v, s)"
        and sub: "insert i vis \<subseteq> v" by blast
      have "card (ids - v) \<le> card (ids - vis)" using sub assms(1) by (intro card_mono) auto
      with Cons.prems have "card (ids - v) < Suc f" by simp
      from Cons.IH [OF this, of "s - {i}"] show ?thesis
        using 3 inner sub by (cases b) (auto simp: dfs.simps(2))
    qed
  qed
qed

definition blocked_by_edges :: "otask list \<Rightarrow> (string \<times> string) set" where
  "blocked_by_edges ts = dep_edges (task_deps ts)"

lemma task_deps_outside: "i \<notin> ot_id ` set ts \<Longrightarrow> task_deps ts i = []"
  by (auto simp: task_deps_def task_index_def split: option.splits dest!: map_of_SomeD)

lemma blocked_by_edges_iff:
  "(x, d) \<in> blocked_by_edges ts \<longleftrightarrow> (\<exists>t. task_index ts x = Some t \<and> d \<in> set (ot_blocked_by t))"
  by (cases "task_index ts x") (simp_all add: blocked_by_edges_def dep_edges_def task_deps_def)

theorem detect_cycle_total: "\<exists>b. detect_cycle ts = Some b"
proof -
  have "card (ot_id ` set ts) \<le> length ts"
    using card_length [of "map ot_id ts"] by simp
  then have "card (ot_id ` set ts - {}) < length ts + 1" by simp
  from dfs_enough_fuel [OF _ _ this, of "task_deps ts" "map ot_id ts" "{}"] show ?thesis
    by (auto simp: detect_cycle_def task_deps_outside)
qed

theorem detect_cycle_iff:
  "detect_cycle ts = Some (\<exists>x. (x, x) \<in> (blocked_by_edges ts)\<^sup>+)"
proof -
  obtain b where b: "detect_cycle ts = Some b" using detect_cycle_total by blast
  then obtain v s where run: "dfs (length ts + 1) (task_deps ts) (map ot_id ts) {} {} = Some (b, v, s)"
    by (auto simp: detect_cycle_def)
  have "b = (\<exists>x. (x, x) \<in> (blocked_by_edges ts)\<^sup>+)"
  proof (cases b)
    case True
    with dfs_True_cycle run show ?thesis by (fastforce simp: blocked_by_edges_def)
  next
    case False
    with dfs_False_finished run have fin: "finished (task_deps ts) v" "ot_id ` set ts \<subseteq> v"
      by (fastforce simp: finished_def)+
    have "(x, x) \<notin> (blocked_by_edges ts)\<^sup>+" for x
    proof
      assume c: "(x, x) \<in> (blocked_by_edges ts)\<^sup>+"
      then obtain d where "(x, d) \<in> blocked_by_edges ts" by (meson tranclD)
      then have "task_deps ts x \<noteq> []" by (auto simp: blocked_by_edges_def dep_edges_def)
      with task_deps_outside fin(2) have "x \<in> v" by blast
      with c fin(1) show False by (auto simp: finished_def blocked_by_edges_def)
    qed
    with False show ?thesis by simp
  qed
  with b show ?thesis by simp
qed

end
