(* ===== verification/Sql_Table.thy ===== *)
theory Sql_Table
  imports Prelude
begin

text \<open>
  The SQLite statements the repositories use, on a table seen as the list of its rows in insertion
  order: lookup by primary key, conditional update with its row count, insert, insert-or-replace,
  delete and \<open>ORDER BY ... DESC\<close>. SQL leaves the order of rows with equal sort keys open; the
  model keeps them in insertion order, and no lemma below depends on that choice.

  The locale \<open>cas_store\<close> is the contract of a compare-and-set update, the operation the task
  board, the launch registry and the poll-run table are built on.
\<close>

section \<open>Statements\<close>

definition lookup_row :: "('r \<Rightarrow> 'k) \<Rightarrow> 'k \<Rightarrow> 'r list \<Rightarrow> 'r option" where
  "lookup_row key k t = find (\<lambda>r. key r = k) t"

definition update_where :: "('r \<Rightarrow> bool) \<Rightarrow> ('r \<Rightarrow> 'r) \<Rightarrow> 'r list \<Rightarrow> 'r list" where
  "update_where p f t = map (\<lambda>r. if p r then f r else r) t"

text \<open>\<open>cursor.rowcount > 0\<close> after an \<open>UPDATE\<close> or \<open>DELETE\<close> with this condition.\<close>

definition rows_hit :: "('r \<Rightarrow> bool) \<Rightarrow> 'r list \<Rightarrow> bool" where
  "rows_hit p t = list_ex p t"

definition insert_or_replace :: "('r \<Rightarrow> 'k) \<Rightarrow> 'r \<Rightarrow> 'r list \<Rightarrow> 'r list" where
  "insert_or_replace key r t = filter (\<lambda>x. key x \<noteq> key r) t @ [r]"

definition delete_where :: "('r \<Rightarrow> bool) \<Rightarrow> 'r list \<Rightarrow> 'r list" where
  "delete_where p t = filter (\<lambda>x. \<not> p x) t"

definition order_desc :: "('r \<Rightarrow> 'o::linorder) \<Rightarrow> 'r list \<Rightarrow> 'r list" where
  "order_desc f t = rev (sort_key f (rev t))"

definition order_asc :: "('r \<Rightarrow> 'o::linorder) \<Rightarrow> 'r list \<Rightarrow> 'r list" where
  "order_asc f t = sort_key f t"

text \<open>\<open>LIMIT n\<close>: a negative number is no limit.\<close>

definition sql_limit :: "int \<Rightarrow> 'a list \<Rightarrow> 'a list" where
  "sql_limit n xs = (if n < 0 then xs else take (nat n) xs)"

definition pk_ok :: "('r \<Rightarrow> 'k) \<Rightarrow> 'r list \<Rightarrow> bool" where
  "pk_ok key t \<longleftrightarrow> distinct (map key t)"

section \<open>Laws of the statements\<close>

lemma set_order_desc [simp]: "set (order_desc f t) = set t"
  by (simp add: order_desc_def)

lemma mset_order_desc [simp]: "mset (order_desc f t) = mset t"
  by (simp add: order_desc_def)

lemma length_order_desc [simp]: "length (order_desc f t) = length t"
  by (simp add: order_desc_def)

lemma mset_order_asc [simp]: "mset (order_asc f t) = mset t"
  by (simp add: order_asc_def)

lemma distinct_order_asc [simp]: "distinct (map key (order_asc f t)) = distinct (map key t)"
  by (metis mset_map mset_order_asc mset_eq_imp_distinct_iff)

lemma sorted_order_desc: "sorted (rev (map f (order_desc f t)))"
  by (simp add: order_desc_def rev_map)

lemma distinct_order_desc [simp]: "distinct (map key (order_desc f t)) = distinct (map key t)"
  by (metis mset_map mset_order_desc mset_eq_imp_distinct_iff)

lemma order_desc_Nil_iff [simp]: "order_desc f t = [] \<longleftrightarrow> t = []"
  by (metis length_0_conv length_order_desc)

lemma set_order_asc [simp]: "set (order_asc f t) = set t"
  by (simp add: order_asc_def)

lemma set_insert_or_replace:
  "set (insert_or_replace key r t) = insert r {x \<in> set t. key x \<noteq> key r}"
  by (auto simp: insert_or_replace_def)

lemma set_update_where:
  "set (update_where p f t) = {f r |r. r \<in> set t \<and> p r} \<union> {r \<in> set t. \<not> p r}"
  by (auto simp: update_where_def)

lemma rows_hit_iff: "rows_hit p t \<longleftrightarrow> (\<exists>r \<in> set t. p r)"
  by (simp add: rows_hit_def list_ex_iff)

lemma update_where_miss: "\<not> rows_hit p t \<Longrightarrow> update_where p f t = t"
  by (auto simp: rows_hit_iff update_where_def intro!: map_idI)

lemma lookup_row_Some: "lookup_row key k t = Some r \<Longrightarrow> r \<in> set t \<and> key r = k"
  unfolding lookup_row_def by (drule find_Some_set) simp

lemma lookup_row_None: "lookup_row key k t = None \<longleftrightarrow> k \<notin> key ` set t"
  by (simp add: lookup_row_def find_None_iff_notin)

lemma lookup_row_iff:
  "pk_ok key t \<Longrightarrow> lookup_row key k t = Some r \<longleftrightarrow> r \<in> set t \<and> key r = k"
  by (simp add: lookup_row_def pk_ok_def find_distinct)

lemma lookup_update_where:
  assumes "\<And>r. key (f r) = key r"
  shows "lookup_row key k (update_where p f t)
           = map_option (\<lambda>r. if p r then f r else r) (lookup_row key k t)"
  using assms by (simp add: lookup_row_def update_where_def find_map_key)

lemma lookup_insert_or_replace:
  "lookup_row key k (insert_or_replace key r t) = (if k = key r then Some r else lookup_row key k t)"
  by (induction t) (auto simp: lookup_row_def insert_or_replace_def find_append split: option.splits)

lemma pk_ok_update_where:
  assumes "\<And>r. key (f r) = key r"
  shows "pk_ok key (update_where p f t) = pk_ok key t"
proof -
  have "map key (update_where p f t) = map key t"
    using assms by (simp add: update_where_def)
  then show ?thesis by (simp add: pk_ok_def)
qed

lemma pk_ok_insert_or_replace: "pk_ok key t \<Longrightarrow> pk_ok key (insert_or_replace key r t)"
  by (auto simp: pk_ok_def insert_or_replace_def distinct_map_filter_key)

lemma pk_ok_delete_where: "pk_ok key t \<Longrightarrow> pk_ok key (delete_where p t)"
  by (simp add: pk_ok_def delete_where_def distinct_map_filter_key)

lemma pk_ok_append1: "pk_ok key t \<Longrightarrow> key r \<notin> key ` set t \<Longrightarrow> pk_ok key (t @ [r])"
  by (simp add: pk_ok_def)

lemma lookup_append1:
  "lookup_row key k (t @ [r]) = (case lookup_row key k t of None \<Rightarrow>
      (if key r = k then Some r else None) | Some x \<Rightarrow> Some x)"
  by (auto simp: lookup_row_def find_append split: option.splits)

lemma pk_unique: "pk_ok key t \<Longrightarrow> r \<in> set t \<Longrightarrow> x \<in> set t \<Longrightarrow> key r = key x \<Longrightarrow> r = x"
  by (auto simp: pk_ok_def distinct_map inj_on_def)

text \<open>An update guarded by the primary key hits exactly the row the lookup finds.\<close>

lemma rows_hit_pk:
  assumes "pk_ok key t"
  shows "rows_hit (\<lambda>r. key r = k \<and> q r) t
           \<longleftrightarrow> (case lookup_row key k t of None \<Rightarrow> False | Some r \<Rightarrow> q r)"
  using assms
  by (auto simp: rows_hit_iff lookup_row_None lookup_row_iff split: option.splits
      dest: pk_unique [OF assms])

lemma lookup_update_pk:
  assumes "\<And>r. key (f r) = key r"
  shows "lookup_row key j (update_where (\<lambda>r. key r = k \<and> q r) f t)
           = (case lookup_row key j t of None \<Rightarrow> None
              | Some r \<Rightarrow> Some (if j = k \<and> q r then f r else r))"
  using assms lookup_row_Some[of key j t]
  by (auto simp: lookup_update_where split: option.splits)

section \<open>Compare-and-set\<close>

text \<open>
  A store of rows with a status, and an update that succeeds only when the row's status is the
  expected one. \<open>allowed\<close> is the condition under which the database accepts the new row (no
  uniqueness constraint is violated), and \<open>change u\<close> is the row the update \<open>u\<close> leaves.
\<close>

locale cas_store =
  fixes lookup :: "'t \<Rightarrow> 'k \<Rightarrow> 'r option"
    and status :: "'r \<Rightarrow> 's"
    and change :: "'u \<Rightarrow> 'r \<Rightarrow> 'r"
    and allowed :: "'k \<Rightarrow> 's \<Rightarrow> 'u \<Rightarrow> 't \<Rightarrow> bool"
    and cas :: "'k \<Rightarrow> 's \<Rightarrow> 'u \<Rightarrow> ('t, bool) py"
    and inv :: "'t \<Rightarrow> bool"
  assumes cas_hit:
      "inv t \<Longrightarrow> lookup t k = Some r \<Longrightarrow> status r = s \<Longrightarrow> allowed k s u t \<Longrightarrow>
         \<exists>t'. cas k s u t = (Inr True, t') \<and> inv t' \<and> lookup t' = (lookup t)(k \<mapsto> change u r)"
    and cas_miss:
      "inv t \<Longrightarrow> \<forall>r. lookup t k = Some r \<longrightarrow> status r \<noteq> s \<Longrightarrow> cas k s u t = (Inr False, t)"
begin

lemma cas_success:
  assumes "inv t" "allowed k s u t" "cas k s u t = (Inr True, t')"
  shows "\<exists>r. lookup t k = Some r \<and> status r = s \<and> inv t' \<and> lookup t' = (lookup t)(k \<mapsto> change u r)"
proof (cases "\<exists>r. lookup t k = Some r \<and> status r = s")
  case True
  then obtain r where r: "lookup t k = Some r" "status r = s" by blast
  from cas_hit [OF assms(1) this assms(2)] assms(3) r show ?thesis by auto
next
  case False
  with cas_miss [OF assms(1)] assms(3) show ?thesis by auto
qed

lemma cas_failure_frame:
  "inv t \<Longrightarrow> allowed k s u t \<Longrightarrow> cas k s u t = (Inr False, t') \<Longrightarrow> t' = t"
  using cas_hit cas_miss by (metis Inr_inject prod.inject)

text \<open>
  Two writers that read the same status: when the first one's update changes the status, the
  second one fails and writes nothing. This is the optimistic-locking guarantee.
\<close>

lemma cas_race:
  assumes inv: "inv t" and first: "cas k s u t = (Inr True, t1)" and ok: "allowed k s u t"
    and moves: "\<And>r. status r = s \<Longrightarrow> status (change u r) \<noteq> s"
  shows "cas k s u' t1 = (Inr False, t1)"
proof -
  from cas_success [OF inv ok first] obtain r where
    "status r = s" "inv t1" "lookup t1 = (lookup t)(k \<mapsto> change u r)" by blast
  with moves show ?thesis by (intro cas_miss) auto
qed

lemma cas_other_key:
  assumes "inv t" "allowed k s u t" "cas k s u t = (Inr b, t')" "j \<noteq> k"
  shows "lookup t' j = lookup t j"
proof (cases b)
  case True
  with cas_success assms show ?thesis by fastforce
next
  case False
  with cas_failure_frame [OF assms(1,2)] assms(3) show ?thesis by auto
qed

end

end
