(* ===== verification/Task_Repository.thy ===== *)
theory Task_Repository
  imports Orchestration_Task Sql_Table
begin

text \<open>
  SqliteOrchestrationTaskRepository
  (src/infrastructure/persistence/repositories/orchestration_task_repository.py) on the table
  \<open>orchestration_tasks\<close>: its reads, its insert-or-replace, its compare-and-set update, and the
  conversion of a row to an entity. Errors of SQLite itself (a locked or missing database) are
  not modelled.
\<close>

section \<open>Rows\<close>

text \<open>
  The \<open>blocked_by\<close> column, as \<open>json.loads\<close> sees it: no value, text that is not JSON, JSON that
  is not an array, or an array of strings. \<open>json.dumps(list(xs))\<close> is \<open>JsonStrings xs\<close>, and the
  literal \<open>'[]'\<close> is \<open>JsonStrings []\<close>.
\<close>

datatype json_text = JsonNull | JsonMalformed | JsonOther | JsonStrings "string list"

type_synonym otask_row = "(string, json_text) otask_fields"
type_synonym task_table = "otask_row list"

fun deserialize_blocked_by :: "json_text \<Rightarrow> string list" where
  "deserialize_blocked_by JsonNull = []"
| "deserialize_blocked_by (JsonStrings xs) = xs"
| "deserialize_blocked_by JsonMalformed = []"
| "deserialize_blocked_by JsonOther = []"

definition row_to_task :: "otask_row \<Rightarrow> otask result" where
  "row_to_task r =
     (case task_status_of (ot_status r) of
        None \<Rightarrow> Inl (RepositoryError (''Invalid status '' @ quoted (ot_status r)
                  @ '' in database for task '' @ quoted (ot_id r)))
      | Some st \<Rightarrow> make_task
          \<lparr>ot_id = ot_id r, ot_subject = ot_subject r, ot_description = ot_description r,
           ot_status = st, ot_owner = ot_owner r,
           ot_blocked_by = deserialize_blocked_by (ot_blocked_by r),
           ot_plan_text = ot_plan_text r, ot_created_at = ot_created_at r,
           ot_updated_at = ot_updated_at r, ot_approved_by = ot_approved_by r,
           ot_approved_at = ot_approved_at r, ot_requested_by = ot_requested_by r\<rparr>)"

text \<open>The column values \<open>save\<close> and \<open>cas_save\<close> bind.\<close>

definition task_row :: "otask \<Rightarrow> otask_row" where
  "task_row t =
     \<lparr>ot_id = ot_id t, ot_subject = ot_subject t, ot_description = ot_description t,
      ot_status = task_status_value (ot_status t), ot_owner = ot_owner t,
      ot_blocked_by = JsonStrings (ot_blocked_by t), ot_plan_text = ot_plan_text t,
      ot_created_at = ot_created_at t, ot_updated_at = ot_updated_at t,
      ot_approved_by = ot_approved_by t, ot_approved_at = ot_approved_at t,
      ot_requested_by = ot_requested_by t\<rparr>"

section \<open>Operations\<close>

definition save_task :: "otask \<Rightarrow> (task_table, unit) py" where
  "save_task task t = (Inr (), insert_or_replace ot_id (task_row task) t)"

definition cas_save :: "otask \<Rightarrow> otask_status \<Rightarrow> (task_table, bool) py" where
  "cas_save task expected t =
     (let p = (\<lambda>r. ot_id r = ot_id task \<and> ot_status r = task_status_value expected)
      in (Inr (rows_hit p t), update_where p (\<lambda>r. (task_row task)\<lparr>ot_id := ot_id r\<rparr>) t))"

definition get_task_by_id :: "string \<Rightarrow> task_table \<Rightarrow> otask option result" where
  "get_task_by_id i t =
     (case lookup_row ot_id i t of
        None \<Rightarrow> Inr None
      | Some r \<Rightarrow> res_bind (row_to_task r) (\<lambda>x. Inr (Some x)))"

definition get_tasks_by_ids :: "string list \<Rightarrow> task_table \<Rightarrow> otask list result" where
  "get_tasks_by_ids ids t =
     (if ids = [] then Inr []
      else traverse row_to_task (filter (\<lambda>r. ot_id r \<in> set ids) t))"

definition list_tasks_by_status :: "otask_status \<Rightarrow> task_table \<Rightarrow> otask list result" where
  "list_tasks_by_status st t =
     traverse row_to_task
       (order_desc ot_created_at (filter (\<lambda>r. ot_status r = task_status_value st) t))"

definition list_tasks_by_owner :: "string \<Rightarrow> task_table \<Rightarrow> otask list result" where
  "list_tasks_by_owner own t =
     traverse row_to_task (order_desc ot_created_at (filter (\<lambda>r. ot_owner r = Some own) t))"

definition list_all_tasks :: "task_table \<Rightarrow> otask list result" where
  "list_all_tasks t = traverse row_to_task (order_desc ot_created_at t)"

text \<open>\<open>WHERE blocked_by != '[]'\<close>: a NULL column compares as NULL and is left out.\<close>

definition blocked_column :: "json_text \<Rightarrow> bool" where
  "blocked_column c \<longleftrightarrow> c \<noteq> JsonNull \<and> c \<noteq> JsonStrings []"

definition list_blocked_tasks :: "task_table \<Rightarrow> otask list result" where
  "list_blocked_tasks t =
     traverse row_to_task
       (order_desc ot_created_at (filter (\<lambda>r. blocked_column (ot_blocked_by r)) t))"

definition remove_task :: "string \<Rightarrow> (task_table, unit) py" where
  "remove_task i t =
     (if rows_hit (\<lambda>r. ot_id r = i) t
      then (Inr (), delete_where (\<lambda>r. ot_id r = i) t)
      else (Inl (RepositoryError (''OrchestrationTask '' @ quoted i @ '' not found'')), t))"

section \<open>The table as a map from ids to tasks\<close>

text \<open>
  The invariant of a table only the repository has written: ids are unique and every row is the
  row of a valid entity. Its abstraction \<open>board\<close> is the map from id to entity, and each operation
  is described by what it does to \<open>board\<close>.
\<close>

definition tasks_ok :: "task_table \<Rightarrow> bool" where
  "tasks_ok t \<longleftrightarrow> pk_ok ot_id t \<and> (\<forall>r \<in> set t. \<exists>x. valid_task x \<and> r = task_row x)"

definition board :: "task_table \<Rightarrow> string \<Rightarrow> otask option" where
  "board t i = (case get_task_by_id i t of Inr (Some x) \<Rightarrow> Some x | _ \<Rightarrow> None)"

lemma task_row_fields [simp]:
  "ot_id (task_row x) = ot_id x"
  "ot_status (task_row x) = task_status_value (ot_status x)"
  "ot_owner (task_row x) = ot_owner x"
  "ot_created_at (task_row x) = ot_created_at x"
  "ot_blocked_by (task_row x) = JsonStrings (ot_blocked_by x)"
  by (simp_all add: task_row_def)

lemma task_row_with_id [simp]: "(task_row x)\<lparr>ot_id := i\<rparr> = task_row (x\<lparr>ot_id := i\<rparr>)"
  by (simp add: task_row_def)

lemma row_to_task_row [simp]: "valid_task x \<Longrightarrow> row_to_task (task_row x) = Inr x"
  by (cases x) (simp add: row_to_task_def task_row_def)

lemma tasks_ok_Nil [simp]: "tasks_ok []"
  by (simp add: tasks_ok_def pk_ok_def)

lemma tasks_okD: "tasks_ok t \<Longrightarrow> r \<in> set t \<Longrightarrow> \<exists>x. valid_task x \<and> r = task_row x"
  by (simp add: tasks_ok_def)

lemma get_task_board: "tasks_ok t \<Longrightarrow> get_task_by_id i t = Inr (board t i)"
  by (auto simp: board_def get_task_by_id_def split: option.splits
      dest!: lookup_row_Some tasks_okD)

lemma board_Some_iff:
  assumes "tasks_ok t"
  shows "board t i = Some x \<longleftrightarrow> valid_task x \<and> ot_id x = i \<and> task_row x \<in> set t"
proof
  assume "board t i = Some x"
  with assms get_task_board [OF assms, of i] obtain r where
    r: "lookup_row ot_id i t = Some r" "row_to_task r = Inr x"
    by (auto simp: get_task_by_id_def res_bind_Inr_iff split: option.splits)
  then have "r \<in> set t" "ot_id r = i" by (auto dest: lookup_row_Some)
  with tasks_okD [OF assms] r(2) show "valid_task x \<and> ot_id x = i \<and> task_row x \<in> set t" by fastforce
next
  assume x: "valid_task x \<and> ot_id x = i \<and> task_row x \<in> set t"
  with assms have "lookup_row ot_id i t = Some (task_row x)"
    by (simp add: lookup_row_iff tasks_ok_def)
  with x show "board t i = Some x" by (simp add: board_def get_task_by_id_def)
qed

lemma board_SomeD:
  assumes "tasks_ok t" "board t i = Some x"
  shows "valid_task x" "ot_id x = i"
  using assms by (auto simp: board_Some_iff)

lemma row_to_task_Inr: "tasks_ok t \<Longrightarrow> r \<in> set t \<Longrightarrow> row_to_task r = Inr (the (board t (ot_id r)))"
proof -
  assume ok: "tasks_ok t" and r: "r \<in> set t"
  then obtain x where x: "valid_task x" "r = task_row x" using tasks_okD by blast
  with ok r have "board t (ot_id r) = Some x" by (simp add: board_Some_iff)
  with x show ?thesis by simp
qed

lemma save_task_board:
  assumes "tasks_ok t" "valid_task x" "save_task x t = (r, t')"
  shows "r = Inr () \<and> tasks_ok t' \<and> board t' = (board t)(ot_id x \<mapsto> x)"
proof -
  from assms(3) have t': "t' = insert_or_replace ot_id (task_row x) t" and r: "r = Inr ()"
    by (simp_all add: save_task_def)
  have "pk_ok ot_id t'"
    using assms(1) by (simp add: t' tasks_ok_def pk_ok_insert_or_replace)
  moreover have "\<forall>r \<in> set t'. \<exists>y. valid_task y \<and> r = task_row y"
    using assms(1,2) by (auto simp: t' set_insert_or_replace tasks_ok_def)
  ultimately have ok: "tasks_ok t'" by (simp add: tasks_ok_def)
  have "board t' i = ((board t)(ot_id x \<mapsto> x)) i" for i
    using assms(2) by (simp add: board_def get_task_by_id_def t' lookup_insert_or_replace)
  with ok r show ?thesis by auto
qed

text \<open>The compare-and-set update, on the map.\<close>

lemma cas_save_hit:
  assumes "tasks_ok t" "valid_task x" "board t (ot_id x) = Some y" "ot_status y = s"
  shows "\<exists>t'. cas_save x s t = (Inr True, t') \<and> tasks_ok t' \<and> board t' = (board t)(ot_id x \<mapsto> x)"
proof -
  let ?p = "\<lambda>r. ot_id r = ot_id x \<and> ot_status r = task_status_value s"
  let ?t = "update_where ?p (\<lambda>r. (task_row x)\<lparr>ot_id := ot_id r\<rparr>) t"
  from assms(1,3) have y: "ot_id y = ot_id x" "task_row y \<in> set t"
    by (auto simp: board_Some_iff)
  with assms(4) have hit: "rows_hit ?p t"
    by (auto simp: rows_hit_iff intro!: bexI [of _ "task_row y"])
  have pk: "pk_ok ot_id ?t"
    using assms(1) by (simp add: pk_ok_update_where tasks_ok_def)
  have new: "(task_row x)\<lparr>ot_id := ot_id x\<rparr> = task_row x" by simp
  have rows: "\<forall>r \<in> set ?t. \<exists>z. valid_task z \<and> r = task_row z"
    using assms(1,2) new by (auto simp: set_update_where tasks_ok_def)
  from pk rows have ok: "tasks_ok ?t" by (simp add: tasks_ok_def)
  have look: "lookup_row ot_id (ot_id x) t = Some (task_row y)"
    using assms(1) y by (simp add: lookup_row_iff tasks_ok_def)
  have "board ?t i = ((board t)(ot_id x \<mapsto> x)) i" for i
  proof (cases "i = ot_id x")
    case True
    with look y assms(2,4) show ?thesis
      by (simp add: board_def get_task_by_id_def lookup_update_pk)
  next
    case False
    then show ?thesis
      by (simp add: board_def get_task_by_id_def lookup_update_pk split: option.splits)
  qed
  with hit ok show ?thesis by (auto simp: cas_save_def Let_def)
qed

lemma cas_save_miss:
  assumes "tasks_ok t" "\<forall>y. board t (ot_id x) = Some y \<longrightarrow> ot_status y \<noteq> s"
  shows "cas_save x s t = (Inr False, t)"
proof -
  let ?p = "\<lambda>r. ot_id r = ot_id x \<and> ot_status r = task_status_value s"
  have "\<not> rows_hit ?p t"
  proof
    assume "rows_hit ?p t"
    then obtain r where r: "r \<in> set t" "ot_id r = ot_id x" "ot_status r = task_status_value s"
      by (auto simp: rows_hit_iff)
    with tasks_okD [OF assms(1)] obtain y where "valid_task y" "r = task_row y" by blast
    with r assms show False by (auto simp: board_Some_iff)
  qed
  then show ?thesis by (simp add: cas_save_def Let_def update_where_miss)
qed

interpretation task_cas: cas_store board ot_status "\<lambda>u r. u\<lparr>ot_id := ot_id r\<rparr>"
    "\<lambda>k s u t. valid_task (u\<lparr>ot_id := k\<rparr>)" "\<lambda>k s u. cas_save (u\<lparr>ot_id := k\<rparr>) s" tasks_ok
proof
  fix t k r s and u :: otask
  assume t: "tasks_ok t" and r: "board t k = Some r" and s: "ot_status r = s"
    and ok: "valid_task (u\<lparr>ot_id := k\<rparr>)"
  from board_SomeD [OF t r] have "ot_id r = k" by simp
  with cas_save_hit [OF t ok] r s
  show "\<exists>t'. cas_save (u\<lparr>ot_id := k\<rparr>) s t = (Inr True, t') \<and> tasks_ok t' \<and>
          board t' = (board t)(k \<mapsto> u\<lparr>ot_id := ot_id r\<rparr>)" by auto
next
  fix t k s and u :: otask
  assume "tasks_ok t" "\<forall>r. board t k = Some r \<longrightarrow> ot_status r \<noteq> s"
  then show "cas_save (u\<lparr>ot_id := k\<rparr>) s t = (Inr False, t)" by (intro cas_save_miss) auto
qed

lemma remove_task_board:
  assumes "tasks_ok t" "remove_task i t = (Inr (), t')"
  shows "tasks_ok t' \<and> board t' = (board t)(i := None)"
proof -
  from assms(2) have t': "t' = delete_where (\<lambda>r. ot_id r = i) t"
    by (simp add: remove_task_def split: if_splits)
  with assms(1) have ok: "tasks_ok t'"
    by (auto simp: tasks_ok_def pk_ok_delete_where) (auto simp: delete_where_def)
  have "board t' j = ((board t)(i := None)) j" for j
  proof (cases "board t' j")
    case None
    with ok assms(1) show ?thesis
      by (cases "board t j") (auto simp: board_Some_iff t' delete_where_def dest: board_Some_iff [THEN iffD2])
  next
    case (Some x)
    with ok assms(1) have "board t j = Some x \<and> j \<noteq> i"
      by (auto simp: board_Some_iff t' delete_where_def)
    with Some show ?thesis by simp
  qed
  with ok show ?thesis by auto
qed

lemma list_blocked_board:
  assumes "tasks_ok t"
  shows "\<exists>xs. list_blocked_tasks t = Inr xs \<and> distinct (map ot_id xs)
           \<and> (\<forall>x. x \<in> set xs \<longleftrightarrow> board t (ot_id x) = Some x \<and> ot_blocked_by x \<noteq> [])"
proof -
  let ?rs = "order_desc ot_created_at (filter (\<lambda>r. blocked_column (ot_blocked_by r)) t)"
  let ?g = "\<lambda>r. the (board t (ot_id r))"
  have list: "list_blocked_tasks t = Inr (map ?g ?rs)"
    unfolding list_blocked_tasks_def by (rule traverse_Inr) (auto intro: row_to_task_Inr assms)
  have id: "ot_id (?g r) = ot_id r" "task_row (?g r) = r" if "r \<in> set t" for r
    using tasks_okD [OF assms that] row_to_task_Inr [OF assms that] by auto
  have "distinct (map ot_id ?rs)"
    using assms by (simp add: tasks_ok_def pk_ok_def distinct_map_filter_key)
  moreover have "map ot_id (map ?g ?rs) = map ot_id ?rs" using id(1) by auto
  ultimately have "distinct (map ot_id (map ?g ?rs))" by (simp only:)
  moreover note list
  moreover have "x \<in> set (map ?g ?rs) \<longleftrightarrow> board t (ot_id x) = Some x \<and> ot_blocked_by x \<noteq> []" for x
  proof
    assume "x \<in> set (map ?g ?rs)"
    then obtain r where r: "r \<in> set t" "x = ?g r" "blocked_column (ot_blocked_by r)" by auto
    obtain y where y: "valid_task y" "r = task_row y" using tasks_okD [OF assms r(1)] by blast
    with assms r(1) have "board t (ot_id r) = Some y" by (simp add: board_Some_iff)
    with r y show "board t (ot_id x) = Some x \<and> ot_blocked_by x \<noteq> []"
      by (auto simp: blocked_column_def)
  next
    assume x: "board t (ot_id x) = Some x \<and> ot_blocked_by x \<noteq> []"
    with assms have "task_row x \<in> set t" by (simp add: board_Some_iff)
    with x show "x \<in> set (map ?g ?rs)"
      by (auto simp: blocked_column_def intro!: image_eqI [of _ _ "task_row x"])
  qed
  ultimately show ?thesis by blast
qed

end
