(* ===== verification/Fpel.thy ===== *)
theory Fpel
  imports Orchestration_Task
begin

text \<open>
  The entities of the Frozen Proposal Evidence Loop (src/domain/entities/fpel.py) and the content
  hashes of src/domain/services/fpel_content_hash.py. The JSON library and SHA-256 enter as
  the functions of a \<open>hasher\<close>, on which nothing is assumed unless a lemma says so.
\<close>

section \<open>Enumerations\<close>

datatype seal_failure_reason =
    HASH_MISMATCH | MISSING_REPORTS | TERMINAL_FAIL_REASON | POST_FREEZE_CHANGE | NO_FROZEN_PROPOSAL

datatype fpel_status =
    NOT_FROZEN | FROZEN | CHECK_PASSED | CHECK_FAILED | NEEDS_HUMAN_DECISION | SEALED_PASS
  | TERMINAL_FAIL | NOT_EVALUATED

fun fpel_status_value :: "fpel_status \<Rightarrow> string" where
  "fpel_status_value NOT_FROZEN = ''NOT_FROZEN''"
| "fpel_status_value FROZEN = ''FROZEN''"
| "fpel_status_value CHECK_PASSED = ''CHECK_PASSED''"
| "fpel_status_value CHECK_FAILED = ''CHECK_FAILED''"
| "fpel_status_value NEEDS_HUMAN_DECISION = ''NEEDS_HUMAN_DECISION''"
| "fpel_status_value SEALED_PASS = ''SEALED_PASS''"
| "fpel_status_value TERMINAL_FAIL = ''TERMINAL_FAIL''"
| "fpel_status_value NOT_EVALUATED = ''NOT_EVALUATED''"

definition fpel_is_terminal :: "fpel_status \<Rightarrow> bool" where
  "fpel_is_terminal s \<longleftrightarrow> s = TERMINAL_FAIL"

datatype proposal_lifecycle = ACTIVE_PROPOSAL | SUPERSEDED

section \<open>Content hashes\<close>

text \<open>
  \<open>reserialise c\<close> is \<open>json.dumps(json.loads(c), sort_keys=True, separators=(",", ":"))\<close>, or
  \<open>None\<close> when \<open>c\<close> is not JSON; \<open>sha256_hex\<close> is the hexadecimal digest of the UTF-8 bytes;
  \<open>dump_tasks\<close> is \<open>json.dumps\<close> of a list of task dictionaries with sorted keys, and
  \<open>dump_task\<close> of one.
\<close>

record hasher =
  reserialise :: "string \<Rightarrow> string option"
  sha256_hex :: "string \<Rightarrow> string"
  dump_tasks :: "(string \<times> string \<times> string) list \<Rightarrow> string"
  dump_task :: "string \<times> string \<times> string \<Rightarrow> string"

definition canonicalize :: "hasher \<Rightarrow> string \<Rightarrow> string" where
  "canonicalize H content = (case reserialise H content of None \<Rightarrow> content | Some c \<Rightarrow> c)"

definition compute_content_hash :: "hasher \<Rightarrow> string \<Rightarrow> string" where
  "compute_content_hash H content = sha256_hex H (canonicalize H content)"

definition detect_scope_change :: "string \<Rightarrow> string \<Rightarrow> bool" where
  "detect_scope_change frozen_hash current_hash \<longleftrightarrow> frozen_hash \<noteq> current_hash"

text \<open>The text a task is hashed by: its plan, or its subject and description.\<close>

definition task_content :: "string option \<Rightarrow> string \<Rightarrow> string option \<Rightarrow> string" where
  "task_content plan subject description =
     (case plan of
        Some c \<Rightarrow> c
      | None \<Rightarrow>
          (let parts = [subject]
                 @ (case description of None \<Rightarrow> [] | Some d \<Rightarrow> (if d = [] then [] else [d]))
           in join [CHR 0x0A] parts))"

definition compute_task_hash :: "hasher \<Rightarrow> otask \<Rightarrow> string" where
  "compute_task_hash H task =
     compute_content_hash H (task_content (ot_plan_text task) (ot_subject task) (ot_description task))"

definition compute_plan_task_hash :: "hasher \<Rightarrow> string \<Rightarrow> string \<Rightarrow> string \<Rightarrow> string" where
  "compute_plan_task_hash H task_id slug description =
     compute_content_hash H (dump_task H (task_id, slug, description))"

text \<open>A plan's tasks as (id, slug, description) triples.\<close>

definition compute_plan_hash_from_tasks :: "hasher \<Rightarrow> (string \<times> string \<times> string) list \<Rightarrow> string" where
  "compute_plan_hash_from_tasks H tasks = compute_content_hash H (dump_tasks H tasks)"

section \<open>Entities\<close>

record frozen_proposal =
  fp_id :: string
  fp_target :: string
  fp_hash :: string
  fp_content :: string
  fp_lifecycle :: proposal_lifecycle

definition make_frozen_proposal :: "hasher \<Rightarrow> frozen_proposal \<Rightarrow> frozen_proposal result" where
  "make_frozen_proposal H p =
     (if fp_id p = [] then Inl (ValueError ''frozen_proposal_id must be a non-empty string'')
      else if fp_target p = [] then Inl (ValueError ''target_id must be a non-empty string'')
      else if fp_hash p = [] then Inl (ValueError ''content_hash must be a non-empty string'')
      else if fp_hash p \<noteq> compute_content_hash H (fp_content p)
        then Inl (ValueError ''content_hash must match canonical hash of content'')
      else Inr p)"

definition valid_proposal :: "hasher \<Rightarrow> frozen_proposal \<Rightarrow> bool" where
  "valid_proposal H p \<longleftrightarrow> fp_id p \<noteq> [] \<and> fp_target p \<noteq> [] \<and> fp_hash p \<noteq> []
     \<and> fp_hash p = compute_content_hash H (fp_content p)"

definition proposal_is_active :: "frozen_proposal \<Rightarrow> bool" where
  "proposal_is_active p \<longleftrightarrow> fp_lifecycle p = ACTIVE_PROPOSAL"

record sealed_verdict =
  sv_id :: string
  sv_verdict :: string
  sv_sealed_at :: int
  sv_hash :: string
  sv_source :: "string option"

definition valid_sources :: "string list" where
  "valid_sources = [''LEGACY_APPROVED'', ''MANUAL_OVERRIDE'', ''AUTO_SEAL'']"

definition make_sealed_verdict :: "sealed_verdict \<Rightarrow> sealed_verdict result" where
  "make_sealed_verdict v =
     (if sv_id v = [] then Inl (ValueError ''frozen_proposal_id must be a non-empty string'')
      else if sv_verdict v \<noteq> ''SEALED_PASS''
        then Inl (ValueError (''verdict must be SEALED_PASS, got '' @ quoted (sv_verdict v)))
      else if sv_hash v = [] then Inl (ValueError ''content_hash must be a non-empty string'')
      else (case sv_source v of
              None \<Rightarrow> Inr v
            | Some s \<Rightarrow> (if s \<in> set valid_sources then Inr v
                else Inl (ValueError (''SealedVerdict.source must be a valid source or None, got ''
                       @ quoted s)))))"

definition valid_verdict :: "sealed_verdict \<Rightarrow> bool" where
  "valid_verdict v \<longleftrightarrow> sv_id v \<noteq> [] \<and> sv_verdict v = ''SEALED_PASS'' \<and> sv_hash v \<noteq> []
     \<and> (\<forall>s. sv_source v = Some s \<longrightarrow> s \<in> set valid_sources)"

record auth_decision =
  ad_allowed :: bool
  ad_status :: fpel_status
  ad_frozen_id :: "string option"
  ad_hash :: "string option"
  ad_reason :: "seal_failure_reason option"
  ad_seal_id :: "string option"
  ad_sealed_at :: "int option"

lemma make_frozen_proposal_Inr: "make_frozen_proposal H p = Inr q \<longleftrightarrow> valid_proposal H p \<and> q = p"
  by (auto simp: valid_proposal_def make_frozen_proposal_def split: if_splits)

lemma make_frozen_proposal_valid [simp]: "valid_proposal H p \<Longrightarrow> make_frozen_proposal H p = Inr p"
  by (simp add: make_frozen_proposal_Inr)

lemma make_sealed_verdict_valid [simp]: "valid_verdict v \<Longrightarrow> make_sealed_verdict v = Inr v"
  by (auto simp: valid_verdict_def make_sealed_verdict_def split: option.splits)

lemma make_sealed_verdict_Inr: "make_sealed_verdict v = Inr w \<longleftrightarrow> valid_verdict v \<and> w = v"
  by (auto simp: valid_verdict_def make_sealed_verdict_def split: option.splits if_splits)

end
