(* ===== verification/Task_Board.thy ===== *)
theory Task_Board
  imports Task_Repository Fpel
begin

text \<open>
  TaskBoardService (src/application/services/task_board_service.py): the operations of the task
  board, each a read of the task, the guard of its transition, the new entity and one
  compare-and-set write. The gate is the optional FPEL authorization port with the hash functions;
  \<open>now\<close> is the clock reading of the call in milliseconds.
\<close>

section \<open>Operations\<close>

type_synonym fpel_port = "string \<Rightarrow> string option \<Rightarrow> auth_decision result"

text \<open>An argument with the sentinel default \<open>_UNSET\<close>.\<close>

datatype 'a arg = Unset | Given 'a

definition require_task :: "string \<Rightarrow> task_table \<Rightarrow> otask result" where
  "require_task i t =
     res_bind (get_task_by_id i t) (\<lambda>x. case x of
         None \<Rightarrow> Inl (ValueError (''Task '' @ quoted i @ '' not found''))
       | Some task \<Rightarrow> Inr task)"

definition validate_transition :: "otask \<Rightarrow> otask_status \<Rightarrow> unit result" where
  "validate_transition task target =
     (if \<not> task_can_transition_to task target
      then Inl (TaskTransitionError (''Cannot transition task '' @ quoted (ot_id task) @ '' from ''
                  @ task_status_value (ot_status task) @ '' to '' @ task_status_value target))
      else Inr ())"

text \<open>
  The tail every mutation shares: \<open>replace\<close> (which validates the new entity), the compare-and-set
  on the status that was read, and the error when it fails.
\<close>

definition replace_and_save :: "string \<Rightarrow> otask \<Rightarrow> otask_status \<Rightarrow> (task_table, otask) py" where
  "replace_and_save conflict new expected =
     py_bind (py_lift (make_task new)) (\<lambda>updated.
     py_bind (cas_save updated expected) (\<lambda>saved.
       if \<not> saved then py_raise (ValueError conflict) else py_return updated))"

definition create_task ::
  "string \<Rightarrow> string \<Rightarrow> string option \<Rightarrow> string option \<Rightarrow> int \<Rightarrow> (task_table, otask) py" where
  "create_task uid subject description owner now =
     py_bind (py_lift (make_task
         \<lparr>ot_id = uid, ot_subject = subject, ot_description = description, ot_status = PENDING,
          ot_owner = owner, ot_blocked_by = [], ot_plan_text = None, ot_created_at = now,
          ot_updated_at = now, ot_approved_by = None, ot_approved_at = None,
          ot_requested_by = None\<rparr>)) (\<lambda>task.
     py_bind (save_task task) (\<lambda>_. py_return task))"

definition list_tasks ::
  "otask_status option \<Rightarrow> string option \<Rightarrow> bool \<Rightarrow> task_table \<Rightarrow> otask list result" where
  "list_tasks status owner include_deleted t =
     (case (status, owner) of
        (Some st, Some own) \<Rightarrow>
          res_bind (list_tasks_by_status st t) (\<lambda>xs. Inr (filter (\<lambda>x. ot_owner x = Some own) xs))
      | (Some st, None) \<Rightarrow> list_tasks_by_status st t
      | (None, Some own) \<Rightarrow> list_tasks_by_owner own t
      | (None, None) \<Rightarrow>
          res_bind (list_all_tasks t) (\<lambda>xs.
            Inr (if \<not> include_deleted then filter (\<lambda>x. ot_status x \<noteq> DELETED) xs else xs)))"

definition concurrent_msg :: string where
  "concurrent_msg = ''Task was modified concurrently''"

text \<open>
  \<open>update\<close>: passing \<open>None\<close> as the subject reaches the entity's type check.
\<close>

definition update_task ::
  "string \<Rightarrow> string option arg \<Rightarrow> string option arg \<Rightarrow> string option arg \<Rightarrow> int
     \<Rightarrow> (task_table, otask) py" where
  "update_task i subject description owner now =
     py_bind (py_read (require_task i)) (\<lambda>task.
       if ot_status task = DELETED
       then py_raise (ValueError (''Cannot update deleted task '' @ quoted i))
       else (case subject of
           Given None \<Rightarrow> py_raise (TypeError ''subject must be a string'')
         | _ \<Rightarrow>
             replace_and_save concurrent_msg
               (task\<lparr>ot_updated_at := now,
                 ot_subject := (case subject of Given (Some s) \<Rightarrow> s | _ \<Rightarrow> ot_subject task),
                 ot_description := (case description of Given d \<Rightarrow> d | Unset \<Rightarrow> ot_description task),
                 ot_owner := (case owner of Given ow \<Rightarrow> ow | Unset \<Rightarrow> ot_owner task)\<rparr>)
               (ot_status task)))"

definition submit_plan :: "string \<Rightarrow> string \<Rightarrow> string option \<Rightarrow> int \<Rightarrow> (task_table, otask) py" where
  "submit_plan i plan_text requested_by now =
     py_bind (py_read (require_task i)) (\<lambda>task.
     py_bind (py_lift (validate_transition task PLANNING)) (\<lambda>_.
       replace_and_save concurrent_msg
         (task\<lparr>ot_status := PLANNING, ot_plan_text := Some plan_text, ot_updated_at := now,
               ot_requested_by := requested_by\<rparr>) (ot_status task)))"

definition approve :: "string \<Rightarrow> string \<Rightarrow> string option \<Rightarrow> int \<Rightarrow> (task_table, otask) py" where
  "approve i approved_by requested_by now =
     py_bind (py_read (require_task i)) (\<lambda>task.
     py_bind (py_lift (validate_transition task APPROVED)) (\<lambda>_.
       replace_and_save concurrent_msg
         (task\<lparr>ot_status := APPROVED, ot_approved_by := Some approved_by,
               ot_approved_at := Some now, ot_updated_at := now,
               ot_requested_by := requested_by\<rparr>) (ot_status task)))"

definition reject :: "string \<Rightarrow> string option \<Rightarrow> int \<Rightarrow> (task_table, otask) py" where
  "reject i requested_by now =
     py_bind (py_read (require_task i)) (\<lambda>task.
     py_bind (py_lift (validate_transition task PENDING)) (\<lambda>_.
       replace_and_save concurrent_msg
         (task\<lparr>ot_status := PENDING, ot_plan_text := None, ot_updated_at := now,
               ot_requested_by := requested_by\<rparr>) (ot_status task)))"

definition fpel_gate :: "hasher \<Rightarrow> fpel_port option \<Rightarrow> string \<Rightarrow> otask \<Rightarrow> unit result" where
  "fpel_gate H port i task =
     (case port of
        None \<Rightarrow> Inr ()
      | Some check_sealed \<Rightarrow>
          res_bind (check_sealed i (Some (compute_task_hash H task))) (\<lambda>decision.
            if \<not> ad_allowed decision
            then Inl (TaskTransitionError (''Task '' @ quoted i @ '' requires sealed PASS to start. ''
                        @ ''Status: '' @ fpel_status_value (ad_status decision)))
            else Inr ()))"

definition start_task ::
  "hasher \<Rightarrow> fpel_port option \<Rightarrow> string \<Rightarrow> string \<Rightarrow> string option \<Rightarrow> int \<Rightarrow> (task_table, otask) py" where
  "start_task H port i owner requested_by now =
     py_bind (py_read (require_task i)) (\<lambda>task.
       if task_is_blocked task
       then py_raise (ValueError (''Task '' @ quoted i @ '' is blocked by: ''
                        @ join '', '' (ot_blocked_by task)))
       else
         py_bind (py_lift (validate_transition task IN_PROGRESS)) (\<lambda>_.
         py_bind (py_lift (fpel_gate H port i task)) (\<lambda>_.
           replace_and_save concurrent_msg
             (task\<lparr>ot_status := IN_PROGRESS, ot_owner := Some owner, ot_updated_at := now,
                   ot_requested_by := requested_by\<rparr>) (ot_status task))))"

text \<open>\<open>resolve_blockers\<close>: the loop over the candidates, one batch read per candidate.\<close>

definition blocker_resolved :: "otask list \<Rightarrow> string \<Rightarrow> bool" where
  "blocker_resolved blockers b =
     (case map_of (rev (map (\<lambda>x. (ot_id x, x)) blockers)) b of
        None \<Rightarrow> True
      | Some x \<Rightarrow> ot_status x \<in> {COMPLETED, DELETED})"

fun resolve_loop :: "string \<Rightarrow> task_table \<Rightarrow> otask list \<Rightarrow> string list result" where
  "resolve_loop i t [] = Inr []"
| "resolve_loop i t (c # cs) =
     (if i \<notin> set (ot_blocked_by c) then resolve_loop i t cs
      else res_bind (get_tasks_by_ids (ot_blocked_by c) t) (\<lambda>blockers.
           res_bind (resolve_loop i t cs) (\<lambda>rest.
             Inr (if list_all (blocker_resolved blockers) (ot_blocked_by c)
                  then ot_id c # rest else rest))))"

definition resolve_blockers :: "string \<Rightarrow> task_table \<Rightarrow> string list result" where
  "resolve_blockers i t = res_bind (list_blocked_tasks t) (resolve_loop i t)"

definition complete_task :: "string \<Rightarrow> string option \<Rightarrow> int \<Rightarrow> (task_table, otask) py" where
  "complete_task i requested_by now =
     py_bind (py_read (require_task i)) (\<lambda>task.
     py_bind (py_lift (validate_transition task COMPLETED)) (\<lambda>_.
     py_bind (replace_and_save concurrent_msg
         (task\<lparr>ot_status := COMPLETED, ot_updated_at := now, ot_requested_by := requested_by\<rparr>)
         (ot_status task)) (\<lambda>updated.
     py_bind (py_read (resolve_blockers i)) (\<lambda>_. py_return updated))))"

definition retry_task :: "string \<Rightarrow> (task_table, otask) py" where
  "retry_task i =
     py_bind (py_read (require_task i)) (\<lambda>task.
       if \<not> task_can_transition_to task APPROVED
       then py_raise (TaskTransitionError (''Cannot retry task '' @ quoted i @ '' in status ''
                        @ task_status_value (ot_status task)))
       else replace_and_save ''Task was modified concurrently during retry''
              (task\<lparr>ot_status := APPROVED\<rparr>) (ot_status task))"

definition delete_task :: "string \<Rightarrow> string option \<Rightarrow> int \<Rightarrow> (task_table, otask) py" where
  "delete_task i requested_by now =
     py_bind (py_read (require_task i)) (\<lambda>task.
     py_bind (py_lift (validate_transition task DELETED)) (\<lambda>_.
       replace_and_save concurrent_msg
         (task\<lparr>ot_status := DELETED, ot_updated_at := now, ot_requested_by := requested_by\<rparr>)
         (ot_status task)))"

section \<open>Runs of the service\<close>

text \<open>
  One call of a mutating operation, with its arguments and the clock reading; and any sequence of
  calls, each of which may raise. \<open>Create\<close> carries the fresh identifier.
\<close>

datatype task_call =
    Create string string "string option" "string option" int
  | Update string "string option arg" "string option arg" "string option arg" int
  | SubmitPlan string string "string option" int
  | Approve string string "string option" int
  | Reject string "string option" int
  | Start string string "string option" int
  | Complete string "string option" int
  | Retry string
  | Delete string "string option" int

fun run_call :: "hasher \<Rightarrow> fpel_port option \<Rightarrow> task_call \<Rightarrow> (task_table, otask) py" where
  "run_call H port (Create uid s d ow n) = create_task uid s d ow n"
| "run_call H port (Update i s d ow n) = update_task i s d ow n"
| "run_call H port (SubmitPlan i p rb n) = submit_plan i p rb n"
| "run_call H port (Approve i ab rb n) = approve i ab rb n"
| "run_call H port (Reject i rb n) = reject i rb n"
| "run_call H port (Start i ow rb n) = start_task H port i ow rb n"
| "run_call H port (Complete i rb n) = complete_task i rb n"
| "run_call H port (Retry i) = retry_task i"
| "run_call H port (Delete i rb n) = delete_task i rb n"

fun run_calls :: "hasher \<Rightarrow> fpel_port option \<Rightarrow> task_call list \<Rightarrow> task_table \<Rightarrow> task_table" where
  "run_calls H port [] t = t"
| "run_calls H port (c # cs) t = run_calls H port cs (snd (run_call H port c t))"

section \<open>What one call does to the board\<close>

text \<open>
  The abstract board is the map from ids to tasks. A call that returns makes the labelled step
  below; the last map is the board after the call and the task is the one returned. Every field of
  that task is fixed. The steps are those the docstrings name, with two more that the code also
  makes: \<open>step_approve_again\<close> approves a task in progress, \<open>step_retry_plan\<close> retries a plan.
\<close>

definition given :: "'a arg \<Rightarrow> 'a \<Rightarrow> 'a" where
  "given a old = (case a of Unset \<Rightarrow> old | Given v \<Rightarrow> v)"

type_synonym task_map = "string \<Rightarrow> otask option"

inductive task_step ::
  "hasher \<Rightarrow> fpel_port option \<Rightarrow> task_call \<Rightarrow> task_map \<Rightarrow> otask \<Rightarrow> task_map \<Rightarrow> bool"
  for H :: hasher and port :: "fpel_port option" where
  step_create:
    "x = \<lparr>ot_id = uid, ot_subject = s, ot_description = d, ot_status = PENDING, ot_owner = ow,
          ot_blocked_by = [], ot_plan_text = None, ot_created_at = n, ot_updated_at = n,
          ot_approved_by = None, ot_approved_at = None, ot_requested_by = None\<rparr> \<Longrightarrow> valid_task x \<Longrightarrow>
     task_step H port (Create uid s d ow n) b x (b(uid \<mapsto> x))"
| step_update: "b i = Some x \<Longrightarrow> ot_status x \<noteq> DELETED \<Longrightarrow> s \<noteq> Given None \<Longrightarrow>
     y = \<lparr>ot_id = i, ot_subject = the (given s (Some (ot_subject x))),
          ot_description = given d (ot_description x), ot_status = ot_status x,
          ot_owner = given ow (ot_owner x), ot_blocked_by = ot_blocked_by x,
          ot_plan_text = ot_plan_text x, ot_created_at = ot_created_at x, ot_updated_at = n,
          ot_approved_by = ot_approved_by x, ot_approved_at = ot_approved_at x,
          ot_requested_by = ot_requested_by x\<rparr> \<Longrightarrow> valid_task y \<Longrightarrow>
     task_step H port (Update i s d ow n) b y (b(i \<mapsto> y))"
| step_plan: "b i = Some x \<Longrightarrow> ot_status x = PENDING \<Longrightarrow>
     y = x\<lparr>ot_status := PLANNING, ot_plan_text := Some p, ot_updated_at := n,
           ot_requested_by := rb\<rparr> \<Longrightarrow> valid_task y \<Longrightarrow>
     task_step H port (SubmitPlan i p rb n) b y (b(i \<mapsto> y))"
| step_approve: "b i = Some x \<Longrightarrow> ot_status x = PLANNING \<Longrightarrow>
     y = x\<lparr>ot_status := APPROVED, ot_approved_by := Some ab, ot_approved_at := Some n,
           ot_updated_at := n, ot_requested_by := rb\<rparr> \<Longrightarrow> valid_task y \<Longrightarrow>
     task_step H port (Approve i ab rb n) b y (b(i \<mapsto> y))"
| step_approve_again: "b i = Some x \<Longrightarrow> ot_status x = IN_PROGRESS \<Longrightarrow>
     y = x\<lparr>ot_status := APPROVED, ot_approved_by := Some ab, ot_approved_at := Some n,
           ot_updated_at := n, ot_requested_by := rb\<rparr> \<Longrightarrow> valid_task y \<Longrightarrow>
     task_step H port (Approve i ab rb n) b y (b(i \<mapsto> y))"
| step_reject: "b i = Some x \<Longrightarrow> ot_status x = PLANNING \<Longrightarrow>
     y = x\<lparr>ot_status := PENDING, ot_plan_text := None, ot_updated_at := n,
           ot_requested_by := rb\<rparr> \<Longrightarrow> valid_task y \<Longrightarrow>
     task_step H port (Reject i rb n) b y (b(i \<mapsto> y))"
| step_start: "b i = Some x \<Longrightarrow> ot_status x = APPROVED \<Longrightarrow> ot_blocked_by x = [] \<Longrightarrow>
     fpel_gate H port i x = Inr () \<Longrightarrow>
     y = x\<lparr>ot_status := IN_PROGRESS, ot_owner := Some ow, ot_updated_at := n,
           ot_requested_by := rb\<rparr> \<Longrightarrow> valid_task y \<Longrightarrow>
     task_step H port (Start i ow rb n) b y (b(i \<mapsto> y))"
| step_complete: "b i = Some x \<Longrightarrow> ot_status x = IN_PROGRESS \<Longrightarrow>
     y = x\<lparr>ot_status := COMPLETED, ot_updated_at := n, ot_requested_by := rb\<rparr> \<Longrightarrow> valid_task y \<Longrightarrow>
     task_step H port (Complete i rb n) b y (b(i \<mapsto> y))"
| step_retry: "b i = Some x \<Longrightarrow> ot_status x = IN_PROGRESS \<Longrightarrow>
     y = x\<lparr>ot_status := APPROVED\<rparr> \<Longrightarrow> valid_task y \<Longrightarrow>
     task_step H port (Retry i) b y (b(i \<mapsto> y))"
| step_retry_plan: "b i = Some x \<Longrightarrow> ot_status x = PLANNING \<Longrightarrow>
     y = x\<lparr>ot_status := APPROVED\<rparr> \<Longrightarrow> valid_task y \<Longrightarrow>
     task_step H port (Retry i) b y (b(i \<mapsto> y))"
| step_delete: "b i = Some x \<Longrightarrow> ot_status x \<noteq> DELETED \<Longrightarrow>
     y = x\<lparr>ot_status := DELETED, ot_updated_at := n, ot_requested_by := rb\<rparr> \<Longrightarrow> valid_task y \<Longrightarrow>
     task_step H port (Delete i rb n) b y (b(i \<mapsto> y))"

inductive_cases task_stepE: "task_step H port c b x b'"
inductive_simps task_step_simps:
  "task_step H port (Create uid s d ow n) b x b'"
  "task_step H port (Update i s d ow n) b x b'"
  "task_step H port (SubmitPlan i p rb n) b x b'"
  "task_step H port (Approve i ab rb n) b x b'"
  "task_step H port (Reject i rb n) b x b'"
  "task_step H port (Start i ow rb n) b x b'"
  "task_step H port (Complete i rb n) b x b'"
  "task_step H port (Retry i) b x b'"
  "task_step H port (Delete i rb n) b x b'"

lemma valid_task_fields:
  "valid_task x \<Longrightarrow> ot_id x \<noteq> []"
  by (simp add: valid_task_def)

lemma require_task_board:
  "tasks_ok t \<Longrightarrow> require_task i t =
     (case board t i of None \<Rightarrow> Inl (ValueError (''Task '' @ quoted i @ '' not found''))
      | Some x \<Rightarrow> Inr x)"
  by (simp add: require_task_def get_task_board)

lemma validate_transition_Inr:
  "validate_transition x s = Inr u \<longleftrightarrow> s \<in> task_transitions (ot_status x)"
  by (auto simp: validate_transition_def task_can_transition_to_def)

lemma not_validated: "isl (validate_transition x s) \<longleftrightarrow> s \<notin> task_transitions (ot_status x)"
  by (auto simp: validate_transition_def task_can_transition_to_def)

lemma transitions_into:
  "PLANNING \<in> task_transitions s \<longleftrightarrow> s = PENDING"
  "APPROVED \<in> task_transitions s \<longleftrightarrow> s = PLANNING \<or> s = IN_PROGRESS"
  "PENDING \<in> task_transitions s \<longleftrightarrow> s = PLANNING"
  "IN_PROGRESS \<in> task_transitions s \<longleftrightarrow> s = APPROVED"
  "COMPLETED \<in> task_transitions s \<longleftrightarrow> s = IN_PROGRESS"
  "DELETED \<in> task_transitions s \<longleftrightarrow> s \<noteq> DELETED"
  by (cases s; simp)+

text \<open>
  The shared tail, once the task has been read: it returns exactly when the new entity is valid,
  the compare-and-set then succeeds, and an exception leaves the table alone.
\<close>

lemma replace_and_save_result:
  assumes "tasks_ok t" "board t (ot_id new) = Some x" "ot_status x = s"
    and run: "replace_and_save msg new s t = (r, t')"
  shows "(valid_task new \<and> r = Inr new \<and> tasks_ok t' \<and> board t' = (board t)(ot_id new \<mapsto> new))
       \<or> (\<not> valid_task new \<and> isl r \<and> t' = t)"
proof (cases "valid_task new")
  case True
  with cas_save_hit [OF assms(1) _ assms(2,3)] run show ?thesis
    by (auto simp: replace_and_save_def py_simps)
next
  case False
  with make_task_err obtain e where "make_task new = Inl e" by blast
  with run have "r = Inl e" "t' = t" by (auto simp: replace_and_save_def py_simps)
  with False show ?thesis by simp
qed

text \<open>The common form of a transition: read, guard, new entity.\<close>

lemma transition_result:
  assumes t: "tasks_ok t"
    and run: "py_bind (py_read (require_task i)) (\<lambda>task.
         py_bind (py_lift (G task)) (\<lambda>_. replace_and_save msg (f task) (ot_status task))) t = (r, t')"
    and idf: "\<And>x. ot_id (f x) = ot_id x"
  shows "(\<exists>x. board t i = Some x \<and> ot_id x = i \<and> G x = Inr () \<and> valid_task (f x) \<and> r = Inr (f x)
              \<and> tasks_ok t' \<and> board t' = (board t)(i \<mapsto> f x))
       \<or> (isl r \<and> t' = t \<and>
            (\<forall>x. board t i = Some x \<longrightarrow> isl (G x) \<or> \<not> valid_task (f x)))"
proof (cases "board t i")
  case None
  with t run have "isl r" "t' = t" by (auto simp: py_simps require_task_board)
  with None show ?thesis by simp
next
  case (Some x)
  with t have id: "ot_id x = i" by (auto simp: board_Some_iff)
  show ?thesis
  proof (cases "G x")
    case (Inl e)
    with t run Some have "isl r" "t' = t" by (auto simp: py_simps require_task_board)
    with Inl Some show ?thesis by simp
  next
    case (Inr u)
    with t run Some have "replace_and_save msg (f x) (ot_status x) t = (r, t')"
      by (simp add: py_simps require_task_board)
    from replace_and_save_result [OF t _ refl this] Some id idf [of x] Inr show ?thesis by auto
  qed
qed

lemma transition_success_iff:
  assumes t: "tasks_ok t" and idf: "\<And>x. ot_id (f x) = ot_id x"
    and m: "m = py_bind (py_read (require_task i)) (\<lambda>task.
         py_bind (py_lift (G task)) (\<lambda>_. replace_and_save msg (f task) (ot_status task)))"
  shows "(\<exists>y. fst (m t) = Inr y) \<longleftrightarrow> (\<exists>x. board t i = Some x \<and> G x = Inr () \<and> valid_task (f x))"
proof -
  obtain r t' where run: "m t = (r, t')" by (cases "m t")
  from transition_result [OF t run [unfolded m] idf] run show ?thesis
    by (elim disjE exE conjE) (auto simp: isl_def)
qed

lemma resolve_loop_total:
  "tasks_ok t \<Longrightarrow> \<exists>ids. resolve_loop i t cs = Inr ids"
proof (induction cs)
  case Nil
  then show ?case by simp
next
  case (Cons c cs)
  have "get_tasks_by_ids (ot_blocked_by c) t = Inr (if ot_blocked_by c = [] then []
          else map (\<lambda>r. the (board t (ot_id r))) (filter (\<lambda>r. ot_id r \<in> set (ot_blocked_by c)) t))"
    using Cons.prems by (auto simp: get_tasks_by_ids_def intro!: traverse_Inr row_to_task_Inr)
  with Cons show ?case by auto
qed

lemma resolve_blockers_total: "tasks_ok t \<Longrightarrow> \<exists>ids. resolve_blockers i t = Inr ids"
  using list_blocked_board resolve_loop_total by (fastforce simp: resolve_blockers_def)


text \<open>A call's effect, operation by operation; the summary is \<open>run_call_refines\<close>.\<close>

abbreviation refines_at ::
  "hasher \<Rightarrow> fpel_port option \<Rightarrow> task_call \<Rightarrow> task_table \<Rightarrow> otask result \<Rightarrow> task_table \<Rightarrow> bool" where
  "refines_at H port c t r t' \<equiv>
     (\<exists>y. r = Inr y \<and> tasks_ok t' \<and> task_step H port c (board t) y (board t'))
   \<or> (isl r \<and> t' = t \<and> (\<forall>y b'. \<not> task_step H port c (board t) y b'))"

named_theorems op_refines "what each task board operation does to the board"

lemma create_refines [op_refines]:
  assumes "tasks_ok t" "create_task uid s d ow n t = (r, t')"
  shows "refines_at H port (Create uid s d ow n) t r t'"
proof -
  define x :: otask where "x =
    \<lparr>ot_id = uid, ot_subject = s, ot_description = d, ot_status = PENDING, ot_owner = ow,
     ot_blocked_by = [], ot_plan_text = None, ot_created_at = n, ot_updated_at = n,
     ot_approved_by = None, ot_approved_at = None, ot_requested_by = None\<rparr>"
  have c: "create_task uid s d ow n = py_bind (py_lift (make_task x)) (\<lambda>task.
     py_bind (save_task task) (\<lambda>_. py_return task))"
    by (simp add: create_task_def x_def)
  show ?thesis
  proof (cases "valid_task x")
    case True
    with assms(2) c have "r = Inr x" "t' = snd (save_task x t)"
      by (auto simp: py_simps save_task_def py_bind_def)
    with save_task_board [OF assms(1) True, of "Inr ()" t'] assms(2) c True
    have "tasks_ok t'" "board t' = (board t)(uid \<mapsto> x)"
      by (auto simp: save_task_def x_def)
    with True \<open>r = Inr x\<close> show ?thesis by (auto simp: x_def task_step_simps)
  next
    case False
    with make_task_err obtain e where e: "make_task x = Inl e" by blast
    from assms(2) have "(Inl e, t) = (r, t')" unfolding c by (simp add: e py_simps)
    with False show ?thesis by (auto simp: task_step_simps x_def)
  qed
qed

lemma update_refines [op_refines]:
  assumes t: "tasks_ok t" and run: "update_task i s d ow n t = (r, t')"
  shows "refines_at H port (Update i s d ow n) t r t'"
proof (cases "board t i")
  case None
  with t run show ?thesis by (auto simp: py_simps require_task_board update_task_def task_step_simps)
next
  case (Some x)
  show ?thesis
  proof (cases "ot_status x = DELETED \<or> s = Given None")
    case True
    with Some t run show ?thesis
      by (auto simp: py_simps require_task_board update_task_def task_step_simps split: if_splits)
  next
    case False
    define y where "y = x\<lparr>ot_updated_at := n,
                 ot_subject := (case s of Given (Some u) \<Rightarrow> u | _ \<Rightarrow> ot_subject x),
                 ot_description := (case d of Given u \<Rightarrow> u | Unset \<Rightarrow> ot_description x),
                 ot_owner := (case ow of Given u \<Rightarrow> u | Unset \<Rightarrow> ot_owner x)\<rparr>"
    have y: "ot_id y = i" "y = \<lparr>ot_id = i, ot_subject = the (given s (Some (ot_subject x))),
          ot_description = given d (ot_description x), ot_status = ot_status x,
          ot_owner = given ow (ot_owner x), ot_blocked_by = ot_blocked_by x,
          ot_plan_text = ot_plan_text x, ot_created_at = ot_created_at x, ot_updated_at = n,
          ot_approved_by = ot_approved_by x, ot_approved_at = ot_approved_at x,
          ot_requested_by = ot_requested_by x\<rparr>"
      using board_SomeD [OF t Some] False by (simp_all add: y_def given_def split: arg.splits option.splits)
    from False Some t run have "replace_and_save concurrent_msg y (ot_status x) t = (r, t')"
      by (auto simp: py_simps require_task_board update_task_def y_def
          split: arg.splits option.splits)
    moreover have "task_step H port (Update i s d ow n) (board t) z b'
        \<longleftrightarrow> valid_task y \<and> z = y \<and> b' = (board t)(i \<mapsto> y)" for z b'
      using Some False by (auto simp: task_step_simps y(2))
    ultimately show ?thesis
      using replace_and_save_result [OF t _ refl] y(1) Some by blast
  qed
qed

lemma submit_plan_refines [op_refines]:
  assumes "tasks_ok t" "submit_plan i p rb n t = (r, t')"
  shows "refines_at H port (SubmitPlan i p rb n) t r t'"
  using transition_result [OF assms(1) assms(2) [unfolded submit_plan_def]]
  by (auto simp: validate_transition_Inr not_validated transitions_into task_step_simps)

lemma approve_refines [op_refines]:
  assumes "tasks_ok t" "approve i ab rb n t = (r, t')"
  shows "refines_at H port (Approve i ab rb n) t r t'"
  using transition_result [OF assms(1) assms(2) [unfolded approve_def]]
  by (auto simp: validate_transition_Inr not_validated transitions_into task_step_simps)

lemma reject_refines [op_refines]:
  assumes "tasks_ok t" "reject i rb n t = (r, t')"
  shows "refines_at H port (Reject i rb n) t r t'"
  using transition_result [OF assms(1) assms(2) [unfolded reject_def]]
  by (auto simp: validate_transition_Inr not_validated transitions_into task_step_simps)

lemma delete_refines [op_refines]:
  assumes "tasks_ok t" "delete_task i rb n t = (r, t')"
  shows "refines_at H port (Delete i rb n) t r t'"
  using transition_result [OF assms(1) assms(2) [unfolded delete_task_def]]
  by (auto simp: validate_transition_Inr not_validated transitions_into task_step_simps)

text \<open>\<open>retry\<close> and \<open>start\<close> brought to the common form.\<close>

lemma retry_task_form:
  "retry_task i = py_bind (py_read (require_task i)) (\<lambda>task.
     py_bind (py_lift (if task_can_transition_to task APPROVED then Inr ()
        else Inl (TaskTransitionError (''Cannot retry task '' @ quoted i @ '' in status ''
                    @ task_status_value (ot_status task))))) (\<lambda>_.
       replace_and_save ''Task was modified concurrently during retry''
         (task\<lparr>ot_status := APPROVED\<rparr>) (ot_status task)))"
  unfolding retry_task_def
  by (intro ext) (auto simp: py_bind_def py_read_def py_lift_def py_raise_def split: sum.splits prod.splits)

lemma retry_refines [op_refines]:
  assumes "tasks_ok t" "retry_task i t = (r, t')"
  shows "refines_at H port (Retry i) t r t'"
  using transition_result [OF assms(1) assms(2) [unfolded retry_task_form]]
  by (auto simp: task_can_transition_to_def transitions_into task_step_simps split: if_splits)

definition start_guard :: "hasher \<Rightarrow> fpel_port option \<Rightarrow> string \<Rightarrow> otask \<Rightarrow> unit result" where
  "start_guard H port i task =
     (if task_is_blocked task
      then Inl (ValueError (''Task '' @ quoted i @ '' is blocked by: ''
                  @ join '', '' (ot_blocked_by task)))
      else res_bind (validate_transition task IN_PROGRESS) (\<lambda>_. fpel_gate H port i task))"

lemma start_task_form:
  "start_task H port i ow rb n = py_bind (py_read (require_task i)) (\<lambda>task.
     py_bind (py_lift (start_guard H port i task)) (\<lambda>_.
       replace_and_save concurrent_msg
         (task\<lparr>ot_status := IN_PROGRESS, ot_owner := Some ow, ot_updated_at := n,
               ot_requested_by := rb\<rparr>) (ot_status task)))"
  unfolding start_task_def start_guard_def
  by (intro ext) (auto simp: py_bind_def py_read_def py_lift_def py_raise_def split: sum.splits prod.splits)

lemma start_guard_Inr:
  "start_guard H port i x = Inr () \<longleftrightarrow>
     ot_blocked_by x = [] \<and> ot_status x = APPROVED \<and> fpel_gate H port i x = Inr ()"
  by (auto simp: start_guard_def task_is_blocked_def res_bind_Inr_iff validate_transition_Inr
      transitions_into)

lemma not_start_guard: "isl (start_guard H port i x) \<longleftrightarrow> start_guard H port i x \<noteq> Inr ()"
  by (cases "start_guard H port i x") auto

lemma start_refines [op_refines]:
  assumes "tasks_ok t" "start_task H port i ow rb n t = (r, t')"
  shows "refines_at H port (Start i ow rb n) t r t'"
  using transition_result [OF assms(1) assms(2) [unfolded start_task_form]]
  by (auto simp: start_guard_Inr not_start_guard task_step_simps)

lemma complete_refines [op_refines]:
  assumes t: "tasks_ok t" and run: "complete_task i rb n t = (r, t')"
  shows "refines_at H port (Complete i rb n) t r t'"
proof -
  let ?f = "\<lambda>x. x\<lparr>ot_status := COMPLETED, ot_updated_at := n, ot_requested_by := rb\<rparr>"
  define m where "m = py_bind (py_read (require_task i)) (\<lambda>task.
     py_bind (py_lift (validate_transition task COMPLETED)) (\<lambda>_.
       replace_and_save concurrent_msg (?f task) (ot_status task)))"
  have form: "complete_task i rb n t
      = py_bind m (\<lambda>updated. py_bind (py_read (resolve_blockers i)) (\<lambda>_. py_return updated)) t"
    by (simp add: complete_task_def py_bind_assoc m_def)
  obtain r1 t1 where m: "m t = (r1, t1)" by (cases "m t")
  have "ot_id (?f x) = ot_id x" for x :: otask by simp
  from transition_result [OF t m [unfolded m_def] this] show ?thesis
  proof (elim disjE exE conjE)
    fix x assume x: "board t i = Some x" "validate_transition x COMPLETED = Inr ()"
      "valid_task (?f x)" "r1 = Inr (?f x)" "tasks_ok t1" "board t1 = (board t)(i \<mapsto> ?f x)"
    obtain ids where "resolve_blockers i t1 = Inr ids"
      using resolve_blockers_total [OF x(5)] by blast
    with m run form x(4) have "r = Inr (?f x)" "t' = t1" by (auto simp: py_simps)
    with x show ?thesis
      by (auto simp: validate_transition_Inr transitions_into intro!: step_complete)
  next
    assume "isl r1" "t1 = t"
      and no: "\<forall>x. board t i = Some x \<longrightarrow> isl (validate_transition x COMPLETED) \<or> \<not> valid_task (?f x)"
    then obtain e where "m t = (Inl e, t)" using m by (cases r1) auto
    with run form have "(Inl e, t) = (r, t')" by (simp add: py_simps)
    with no show ?thesis by (auto simp: task_step_simps not_validated transitions_into)
  qed
qed

lemma complete_task_hit:
  assumes t: "tasks_ok t" and x: "board t i = Some x" "ot_status x = IN_PROGRESS"
    and v: "valid_task (x\<lparr>ot_status := COMPLETED, ot_updated_at := n, ot_requested_by := rb\<rparr>)"
  shows "\<exists>y t'. complete_task i rb n t = (Inr y, t') \<and> tasks_ok t'
    \<and> y = x\<lparr>ot_status := COMPLETED, ot_updated_at := n, ot_requested_by := rb\<rparr>
    \<and> board t' = (board t)(i \<mapsto> y)"
proof -
  let ?f = "\<lambda>x. x\<lparr>ot_status := COMPLETED, ot_updated_at := n, ot_requested_by := rb\<rparr>"
  define m where "m = py_bind (py_read (require_task i)) (\<lambda>task.
     py_bind (py_lift (validate_transition task COMPLETED)) (\<lambda>_.
       replace_and_save concurrent_msg (?f task) (ot_status task)))"
  have form: "complete_task i rb n t
      = py_bind m (\<lambda>updated. py_bind (py_read (resolve_blockers i)) (\<lambda>_. py_return updated)) t"
    by (simp only: complete_task_def m_def py_bind_assoc)
  obtain r t1 where run: "m t = (r, t1)" by fastforce
  have ok: "validate_transition x COMPLETED = Inr ()"
    using x(2) by (simp add: validate_transition_Inr)
  from transition_result [OF t run [unfolded m_def]] x(1) ok v
  have r: "r = Inr (?f x)" "tasks_ok t1" "board t1 = (board t)(i \<mapsto> ?f x)" by auto
  from resolve_blockers_total [OF r(2)] obtain ids where "resolve_blockers i t1 = Inr ids" by blast
  with run r show ?thesis by (simp add: form py_simps)
qed

lemma run_call_step:
  "tasks_ok t \<Longrightarrow> run_call H port c t = (r, t') \<Longrightarrow> refines_at H port c t r t'"
  by (cases c; simp only: run_call.simps; erule (1) op_refines)

lemma run_call_ok: "tasks_ok t \<Longrightarrow> tasks_ok (snd (run_call H port c t))"
  using run_call_step by (metis prod.collapse)

lemma run_calls_ok: "tasks_ok t \<Longrightarrow> tasks_ok (run_calls H port cs t)"
  by (induction cs arbitrary: t) (auto simp: run_call_ok)

text \<open>
  Induction over a run: what every step keeps of the board, for the calls \<open>A\<close> allows, holds after
  any sequence of such calls.
\<close>

lemma run_calls_board_induct:
  assumes step: "\<And>c b x b'. A c \<Longrightarrow> task_step H port c b x b' \<Longrightarrow> P b \<Longrightarrow> P b'"
    and "tasks_ok t" "P (board t)" "\<forall>c \<in> set cs. A c"
  shows "P (board (run_calls H port cs t))"
  using assms(2-)
proof (induction cs arbitrary: t)
  case Nil
  then show ?case by simp
next
  case (Cons c cs)
  obtain r t' where run: "run_call H port c t = (r, t')" by (cases "run_call H port c t")
  with run_call_step [OF Cons.prems(1)] have "refines_at H port c t r t'" by blast
  with step Cons.prems(2,3) have "P (board t')" by auto
  moreover have "tasks_ok t'" using run_call_ok [OF Cons.prems(1)] run by (metis snd_conv)
  ultimately show ?case using Cons.IH [of t'] Cons.prems(3) run by auto
qed

end
