(* ===== verification/Task_Board_Properties.thy ===== *)
theory Task_Board_Properties
  imports Task_Board
begin

text \<open>
  The properties of the task entity and the task board, each with a concrete instance of its
  hypotheses: the cycle search, the refinement of every operation, the guards of \<open>start\<close>, the
  life of one task over any sequence of calls, blockers, approval, and concurrent writers.
\<close>

section \<open>A sample board\<close>

definition sample_hasher :: hasher where
  "sample_hasher = \<lparr>reserialise = (\<lambda>c. None), sha256_hex = (\<lambda>c. ''sha:'' @ c),
                    dump_tasks = (\<lambda>ts. join '';'' (map fst ts)), dump_task = fst\<rparr>"

definition sample_task :: "string \<Rightarrow> otask_status \<Rightarrow> string list \<Rightarrow> otask" where
  "sample_task i st deps =
     \<lparr>ot_id = i, ot_subject = ''subject'', ot_description = None, ot_status = st, ot_owner = None,
      ot_blocked_by = deps, ot_plan_text = Some ''plan'', ot_created_at = 1, ot_updated_at = 1,
      ot_approved_by = None, ot_approved_at = None, ot_requested_by = None\<rparr>"

lemma sample_task_fields [simp]:
  "ot_id (sample_task i st deps) = i" "ot_status (sample_task i st deps) = st"
  "ot_blocked_by (sample_task i st deps) = deps"
  "ot_approved_by (sample_task i st deps) = None"
  by (simp_all add: sample_task_def)

lemma sample_task_valid [simp]:
  "i \<noteq> [] \<Longrightarrow> i \<notin> set deps \<Longrightarrow> [] \<notin> set deps \<Longrightarrow> valid_task (sample_task i st deps)"
  by (simp add: sample_task_def valid_task_def)

lemma sample_rows:
  assumes "list_all valid_task xs" "distinct (map ot_id xs)"
  shows "tasks_ok (map task_row xs)" "x \<in> set xs \<Longrightarrow> board (map task_row xs) (ot_id x) = Some x"
proof -
  have "map ot_id (map task_row xs) = map ot_id xs" by simp
  with assms show ok: "tasks_ok (map task_row xs)"
    by (auto simp: tasks_ok_def pk_ok_def list_all_iff comp_def)
  assume "x \<in> set xs"
  with assms(1) show "board (map task_row xs) (ot_id x) = Some x"
    by (auto simp: board_Some_iff [OF ok] list_all_iff)
qed

lemma single_row_ok:
  assumes "valid_task x"
  shows "tasks_ok [task_row x]" "board [task_row x] (ot_id x) = Some x"
  using sample_rows [of "[x]"] assms by simp_all

section \<open>Cycles\<close>

text \<open>
  C23: the search for dependency cycles always ends, with the recursion depth bounded by the number
  of tasks, and answers true exactly when some task id reaches itself through \<open>blocked_by\<close>.
\<close>

theorem detect_cycle_correct:
  "detect_cycle ts = Some (\<exists>x. (x, x) \<in> (blocked_by_edges ts)\<^sup>+)"
  by (rule detect_cycle_iff)

section \<open>Refinement\<close>

text \<open>
  C1: every operation of the task board refines its abstract step, which fixes all fields of the task it
  writes. On a table the repository has written, a call that returns a task makes that call's step of
  the board, keeping the table well-formed; a call that raises has left the table as it was, and raises
  only when the call has no step. As in the code, approval also has a step from IN_PROGRESS and a retry
  one from PLANNING, which their docstrings do not name.
\<close>

theorem task_call_refines:
  assumes "tasks_ok t" "run_call H port c t = (r, t')"
  shows "tasks_ok t'
    \<and> (case r of Inr y \<Rightarrow> task_step H port c (board t) y (board t')
        | Inl e \<Rightarrow> t' = t \<and> (\<nexists>y b'. task_step H port c (board t) y b'))"
proof -
  from run_call_step [OF assms] have "refines_at H port c t r t'" .
  then show ?thesis using assms(1) by (cases r) auto
qed

theorem task_call_refines_witness:
  "\<exists>y. fst (run_call sample_hasher None (Update ''t1'' (Given (Some ''new'')) Unset (Given None) 5)
              [task_row (sample_task ''t1'' PLANNING [])]) = Inr y
     \<and> ot_subject y = ''new'' \<and> ot_owner y = None \<and> ot_plan_text y = Some ''plan''"
proof -
  let ?x = "sample_task ''t1'' PLANNING []" and ?c = "Update ''t1'' (Given (Some ''new'')) Unset (Given None) 5"
  have v: "valid_task ?x" by simp
  have b: "board [task_row ?x] ''t1'' = Some ?x" using single_row_ok(2) [OF v] by simp
  obtain r t' where run: "run_call sample_hasher None ?c [task_row ?x] = (r, t')"
    by (cases "run_call sample_hasher None ?c [task_row ?x]")
  have "\<exists>y b'. task_step sample_hasher None ?c (board [task_row ?x]) y b'"
    using b by (simp add: task_step_simps given_def sample_task_def valid_task_def)
  with task_call_refines [OF single_row_ok(1) [OF v] run] obtain y where
    y: "r = Inr y" "task_step sample_hasher None ?c (board [task_row ?x]) y (board t')" by (cases r) auto
  then show ?thesis using b run by (auto simp: task_step_simps given_def sample_task_def)
qed

text \<open>
  C9: \<open>start\<close> succeeds exactly when the task exists, is APPROVED, has an empty \<open>blocked_by\<close>
  and passes the FPEL gate (with a port: \<open>check_sealed\<close> allows it for the task's current content
  hash).
\<close>

theorem start_task_iff:
  assumes "tasks_ok t" "0 \<le> now"
  shows "(\<exists>y. fst (start_task H port i owner rb now t) = Inr y) \<longleftrightarrow>
    (\<exists>x. board t i = Some x \<and> ot_status x = APPROVED \<and> ot_blocked_by x = []
       \<and> (\<forall>check. port = Some check \<longrightarrow>
            (\<exists>d. check i (Some (compute_task_hash H x)) = Inr d \<and> ad_allowed d)))"
proof -
  have gate: "fpel_gate H port i x = Inr () \<longleftrightarrow> (\<forall>check. port = Some check \<longrightarrow>
            (\<exists>d. check i (Some (compute_task_hash H x)) = Inr d \<and> ad_allowed d))" for x
    by (auto simp: fpel_gate_def res_bind_Inr_iff split: option.splits)
  have valid: "board t i = Some x \<Longrightarrow> valid_task
       (x\<lparr>ot_status := IN_PROGRESS, ot_owner := Some owner, ot_updated_at := now,
          ot_requested_by := rb\<rparr>)" for x
    using board_SomeD(1) [OF assms(1)] assms(2) by (auto simp: valid_task_def)
  have same_id: "ot_id (x\<lparr>ot_status := IN_PROGRESS, ot_owner := Some owner, ot_updated_at := now,
          ot_requested_by := rb\<rparr>) = ot_id x" for x :: otask by simp
  from transition_success_iff [OF assms(1) same_id start_task_form] valid show ?thesis
    unfolding gate [symmetric] start_guard_Inr by blast
qed

theorem start_task_iff_witness:
  "\<exists>y. fst (start_task sample_hasher None ''t1'' ''me'' None 7
             [task_row (sample_task ''t1'' APPROVED [])]) = Inr y"
proof -
  have v: "valid_task (sample_task ''t1'' APPROVED [])" by simp
  from start_task_iff [OF single_row_ok(1) [OF v], of 7 sample_hasher None "''t1''" "''me''" None]
  show ?thesis using single_row_ok(2) [OF v] by simp
qed

section \<open>The life of a task\<close>

fun creates :: "string \<Rightarrow> task_call \<Rightarrow> bool" where
  "creates i (Create uid s d ow n) \<longleftrightarrow> uid = i"
| "creates i c \<longleftrightarrow> False"

lemma task_step_same_task:
  assumes "task_step H port c b y b'" "\<not> creates i c" "b i = Some x"
  shows "\<exists>z. b' i = Some z \<and> ot_blocked_by z = ot_blocked_by x
     \<and> (z = x \<or> (ot_status z = ot_status x \<and> ot_status x \<noteq> DELETED)
              \<or> ot_status z \<in> task_transitions (ot_status x))"
  using assms(1)
  by cases (use assms(2,3) in \<open>auto simp: transitions_into\<close>)

text \<open>
  Between any two moments of a task's life its status is either the same or has moved along
  the transition table, whatever operation ran on the board, and a task never disappears.
\<close>

theorem task_status_moves:
  assumes "tasks_ok t" "board t i = Some x" "\<not> creates i c"
  shows "\<exists>z. board (snd (run_call H port c t)) i = Some z
     \<and> (ot_status z = ot_status x \<or> ot_status z \<in> task_transitions (ot_status x))"
proof -
  obtain r t' where run: "run_call H port c t = (r, t')" by (cases "run_call H port c t")
  from run_call_step [OF assms(1) run] assms(2,3) task_step_same_task show ?thesis
    unfolding run by fastforce
qed

theorem task_status_moves_witness:
  "\<exists>z. board (snd (run_call sample_hasher None (Delete ''t1'' None 9)
           [task_row (sample_task ''t1'' PLANNING [])])) ''t1'' = Some z
     \<and> (ot_status z = PLANNING \<or> ot_status z \<in> task_transitions PLANNING)"
proof -
  have v: "valid_task (sample_task ''t1'' PLANNING [])" by simp
  have b: "board [task_row (sample_task ''t1'' PLANNING [])] ''t1'' = Some (sample_task ''t1'' PLANNING [])"
    using single_row_ok(2) [OF v] by simp
  from task_status_moves [OF single_row_ok(1) [OF v] b, of "Delete ''t1'' None 9" sample_hasher None]
  show ?thesis by simp
qed

text \<open>
  A deleted task stays exactly as it is: no later sequence of calls changes any of its fields.
\<close>

theorem deleted_task_frozen:
  assumes "tasks_ok t" "board t i = Some x" "ot_status x = DELETED" "\<forall>c \<in> set cs. \<not> creates i c"
  shows "board (run_calls H port cs t) i = Some x"
proof (rule run_calls_board_induct [where A = "\<lambda>c. \<not> creates i c" and P = "\<lambda>b. b i = Some x"])
  fix c b y b' assume "\<not> creates i c" "task_step H port c b y b'" "b i = Some x"
  with task_step_same_task [OF this(2,1,3)] assms(3) show "b' i = Some x" by auto
qed (use assms in auto)

theorem deleted_task_frozen_witness:
  "board (run_calls sample_hasher None [Retry ''t1'', Update ''t1'' (Given (Some ''x'')) Unset Unset 3]
      [task_row (sample_task ''t1'' DELETED [])]) ''t1'' = Some (sample_task ''t1'' DELETED [])"
proof -
  have v: "valid_task (sample_task ''t1'' DELETED [])" by simp
  show ?thesis
    by (rule deleted_task_frozen [OF single_row_ok(1) [OF v]])
      (use single_row_ok(2) [OF v] in simp_all)
qed

text \<open>
  No operation of the service writes \<open>blocked_by\<close>, and \<open>start\<close> refuses every task whose
  \<open>blocked_by\<close> is not empty, so a blocked task is never started, even after \<open>complete\<close> has
  completed all its blockers.
\<close>

theorem blocked_task_never_starts:
  assumes "tasks_ok t" "board t i = Some x" "ot_blocked_by x \<noteq> []"
    and "ot_status x \<noteq> IN_PROGRESS" "ot_status x \<noteq> COMPLETED" "\<forall>c \<in> set cs. \<not> creates i c"
  shows "\<exists>z. board (run_calls H port cs t) i = Some z \<and> ot_blocked_by z = ot_blocked_by x
     \<and> ot_status z \<noteq> IN_PROGRESS \<and> ot_status z \<noteq> COMPLETED"
proof (rule run_calls_board_induct [where A = "\<lambda>c. \<not> creates i c" and
    P = "\<lambda>b. \<exists>z. b i = Some z \<and> ot_blocked_by z = ot_blocked_by x
     \<and> ot_status z \<noteq> IN_PROGRESS \<and> ot_status z \<noteq> COMPLETED"])
  fix c b y b' assume nc: "\<not> creates i c" and st: "task_step H port c b y b'"
    and "\<exists>z. b i = Some z \<and> ot_blocked_by z = ot_blocked_by x
     \<and> ot_status z \<noteq> IN_PROGRESS \<and> ot_status z \<noteq> COMPLETED"
  then obtain z where z: "b i = Some z" "ot_blocked_by z = ot_blocked_by x"
    "ot_status z \<noteq> IN_PROGRESS" "ot_status z \<noteq> COMPLETED" by blast
  from st show "\<exists>z. b' i = Some z \<and> ot_blocked_by z = ot_blocked_by x
     \<and> ot_status z \<noteq> IN_PROGRESS \<and> ot_status z \<noteq> COMPLETED"
    by cases (use nc z assms(3) in auto)
qed (use assms in auto)

theorem blocked_task_never_starts_witness:
  "\<exists>z. board (run_calls sample_hasher None
          [Complete ''t1'' None 3, Start ''t2'' ''me'' None 4]
          [task_row (sample_task ''t1'' IN_PROGRESS []), task_row (sample_task ''t2'' APPROVED [''t1''])])
          ''t2'' = Some z
     \<and> ot_blocked_by z = [''t1''] \<and> ot_status z \<noteq> IN_PROGRESS \<and> ot_status z \<noteq> COMPLETED"
proof -
  let ?x = "sample_task ''t2'' APPROVED [''t1'']"
  let ?t = "[task_row (sample_task ''t1'' IN_PROGRESS []), task_row ?x]"
  have v: "valid_task ?x" "valid_task (sample_task ''t1'' IN_PROGRESS [])" by simp_all
  have ok: "tasks_ok ?t" and b: "board ?t ''t2'' = Some ?x"
    using sample_rows(1) [of "[sample_task ''t1'' IN_PROGRESS [], ?x]"]
      sample_rows(2) [of "[sample_task ''t1'' IN_PROGRESS [], ?x]" ?x] v by simp_all
  from blocked_task_never_starts [OF ok b,
      where cs = "[Complete ''t1'' None 3, Start ''t2'' ''me'' None 4]"
        and H = sample_hasher and port = None]
  show ?thesis by (simp del: run_calls.simps)
qed

section \<open>Approval\<close>

definition approvals_recorded :: "task_map \<Rightarrow> bool" where
  "approvals_recorded b \<longleftrightarrow> (\<forall>i x. b i = Some x \<longrightarrow>
     ot_status x \<in> {APPROVED, IN_PROGRESS, COMPLETED} \<longrightarrow> ot_approved_by x \<noteq> None)"

text \<open>
  As long as \<open>retry\<close> is not called, a task that is APPROVED, IN_PROGRESS or COMPLETED has an
  approver on record.
\<close>

theorem approvals_stay_recorded:
  assumes "tasks_ok t" "approvals_recorded (board t)" "\<forall>c \<in> set cs. \<forall>i. c \<noteq> Retry i"
  shows "approvals_recorded (board (run_calls H port cs t))"
proof (rule run_calls_board_induct [where A = "\<lambda>c. \<forall>i. c \<noteq> Retry i"])
  fix c b y b' assume nr: "\<forall>i. c \<noteq> Retry i" and st: "task_step H port c b y b'"
    and P: "approvals_recorded b"
  from st show "approvals_recorded b'"
    by cases (use nr P in \<open>auto simp: approvals_recorded_def\<close>)
qed (use assms in auto)

theorem approvals_stay_recorded_witness:
  "approvals_recorded (board (run_calls sample_hasher None
     [Approve ''t1'' ''boss'' None 3, Start ''t1'' ''me'' None 4]
     [task_row (sample_task ''t1'' PLANNING [])]))"
proof -
  have v: "valid_task (sample_task ''t1'' PLANNING [])" by simp
  have "approvals_recorded (board [task_row (sample_task ''t1'' PLANNING [])])"
    using single_row_ok(1) [OF v] by (auto simp: approvals_recorded_def board_Some_iff
        dest!: arg_cong [where f = ot_status])
  then show ?thesis by (rule approvals_stay_recorded [OF single_row_ok(1) [OF v]]) simp
qed

text \<open>
  \<open>retry\<close> is not limited to tasks in progress: the transition table lets it move a task that
  is still PLANNING to APPROVED, and it records no approver.
\<close>

theorem retry_approves_planning_task:
  assumes "tasks_ok t" "board t i = Some x" "ot_status x = PLANNING"
  shows "fst (retry_task i t) = Inr (x\<lparr>ot_status := APPROVED\<rparr>)"
proof -
  obtain r t' where run: "retry_task i t = (r, t')" by (cases "retry_task i t")
  have "valid_task (x\<lparr>ot_status := APPROVED\<rparr>)"
    using board_SomeD(1) [OF assms(1,2)] by (simp add: valid_task_def)
  with transition_result [OF assms(1) run [unfolded retry_task_form]] assms(2,3) run show ?thesis
    by (auto simp: task_can_transition_to_def)
qed

theorem retry_approves_planning_task_witness:
  "\<exists>y. fst (retry_task ''t1'' [task_row (sample_task ''t1'' PLANNING [])]) = Inr y
     \<and> ot_status y = APPROVED \<and> ot_approved_by y = None"
proof -
  have v: "valid_task (sample_task ''t1'' PLANNING [])" by simp
  from retry_approves_planning_task [OF single_row_ok(1) [OF v], of "''t1''"] single_row_ok(2) [OF v]
  show ?thesis by simp
qed

section \<open>Blockers\<close>

lemma blocker_resolved_board:
  assumes t: "tasks_ok t" and get: "get_tasks_by_ids ids t = Inr xs" and b: "b \<in> set ids"
  shows "blocker_resolved xs b
     \<longleftrightarrow> (\<forall>x. board t b = Some x \<longrightarrow> ot_status x \<in> {COMPLETED, DELETED})"
proof -
  let ?g = "\<lambda>r. the (board t (ot_id r))"
  let ?rs = "filter (\<lambda>r. ot_id r \<in> set ids) t"
  have xs: "xs = map ?g ?rs"
    using get b t traverse_Inr [of ?rs row_to_task ?g]
    by (auto simp: get_tasks_by_ids_def row_to_task_Inr split: if_splits)
  have g: "ot_id (?g r) = ot_id r" "board t (ot_id r) = Some (?g r)" if "r \<in> set t" for r
    using tasks_okD [OF t that] that by (auto simp: board_Some_iff [OF t])
      (metis board_Some_iff option.sel t that task_row_fields(1))+
  have "distinct (map ot_id xs)"
  proof -
    have "map ot_id xs = map ot_id ?rs" using g(1) by (auto simp: xs)
    then show ?thesis using t by (simp add: tasks_ok_def pk_ok_def distinct_map_filter_key)
  qed
  then have look: "map_of (rev (map (\<lambda>x. (ot_id x, x)) xs)) b = Some x \<longleftrightarrow> x \<in> set xs \<and> ot_id x = b" for x
    by (subst map_of_eq_Some_iff) (auto simp: rev_map [symmetric] comp_def)
  have mem: "x \<in> set xs \<and> ot_id x = b \<longleftrightarrow> board t b = Some x" for x
  proof
    assume "x \<in> set xs \<and> ot_id x = b"
    then show "board t b = Some x" using g by (auto simp: xs)
  next
    assume x: "board t b = Some x"
    then have "task_row x \<in> set t" "ot_id x = b" by (auto simp: board_Some_iff [OF t])
    with x b show "x \<in> set xs \<and> ot_id x = b"
      by (auto simp: xs intro!: image_eqI [of _ _ "task_row x"])
  qed
  have "map_of (rev (map (\<lambda>x. (ot_id x, x)) xs)) b = board t b"
    by (rule option_eqI) (simp add: look mem)
  then show ?thesis by (simp add: blocker_resolved_def split: option.splits)
qed

lemma resolve_loop_set:
  assumes t: "tasks_ok t"
  shows "resolve_loop i t cs = Inr ids \<Longrightarrow> distinct (map ot_id cs) \<Longrightarrow>
     distinct ids \<and> set ids = ot_id ` {c \<in> set cs. i \<in> set (ot_blocked_by c) \<and>
       (\<forall>b \<in> set (ot_blocked_by c). \<forall>x. board t b = Some x \<longrightarrow> ot_status x \<in> {COMPLETED, DELETED})}"
proof (induction cs arbitrary: ids)
  case Nil
  then show ?case by simp
next
  case (Cons c cs)
  show ?case
  proof (cases "i \<in> set (ot_blocked_by c)")
    case False
    with Cons show ?thesis by auto
  next
    case True
    with Cons.prems(1) obtain xs rest where
      xs: "get_tasks_by_ids (ot_blocked_by c) t = Inr xs" and rest: "resolve_loop i t cs = Inr rest"
      and ids: "ids = (if list_all (blocker_resolved xs) (ot_blocked_by c) then ot_id c # rest else rest)"
      by (auto simp: res_bind_Inr_iff)
    have "list_all (blocker_resolved xs) (ot_blocked_by c) \<longleftrightarrow>
       (\<forall>b \<in> set (ot_blocked_by c). \<forall>x. board t b = Some x \<longrightarrow> ot_status x \<in> {COMPLETED, DELETED})"
      using blocker_resolved_board [OF t xs] by (auto simp: list_all_iff)
    with Cons.IH [OF rest] Cons.prems(2) True ids show ?thesis by auto
  qed
qed

text \<open>
  \<open>resolve_blockers\<close> always returns, and its result lists, once each, exactly the tasks that
  name the given task among their blockers and all of whose existing blockers are COMPLETED or
  DELETED.
\<close>

theorem resolve_blockers_correct:
  assumes "tasks_ok t"
  shows "\<exists>ids. resolve_blockers i t = Inr ids \<and> distinct ids \<and>
     set ids = {j. \<exists>c. board t j = Some c \<and> i \<in> set (ot_blocked_by c) \<and>
       (\<forall>b \<in> set (ot_blocked_by c). \<forall>x. board t b = Some x \<longrightarrow> ot_status x \<in> {COMPLETED, DELETED})}"
proof -
  obtain cs where cs: "list_blocked_tasks t = Inr cs" "distinct (map ot_id cs)"
    "\<And>x. x \<in> set cs \<longleftrightarrow> board t (ot_id x) = Some x \<and> ot_blocked_by x \<noteq> []"
    using list_blocked_board [OF assms] by blast
  obtain ids where ids: "resolve_loop i t cs = Inr ids" using resolve_loop_total [OF assms] by blast
  let ?ok = "\<lambda>c. i \<in> set (ot_blocked_by c) \<and> (\<forall>b \<in> set (ot_blocked_by c). \<forall>x. board t b = Some x \<longrightarrow>
      ot_status x \<in> {COMPLETED, DELETED})"
  have mem: "(\<exists>c \<in> set cs. ?ok c \<and> j = ot_id c) \<longleftrightarrow> (\<exists>c. board t j = Some c \<and> ?ok c)" for j
  proof
    assume "\<exists>c \<in> set cs. ?ok c \<and> j = ot_id c"
    with cs(3) show "\<exists>c. board t j = Some c \<and> ?ok c" by blast
  next
    assume "\<exists>c. board t j = Some c \<and> ?ok c"
    then obtain c where c: "board t j = Some c" "?ok c" by blast
    with board_SomeD(2) [OF assms c(1)] have "c \<in> set cs" by (auto simp: cs(3))
    with c board_SomeD(2) [OF assms c(1)] show "\<exists>c \<in> set cs. ?ok c \<and> j = ot_id c" by blast
  qed
  have "set ids = {j. \<exists>c. board t j = Some c \<and> ?ok c}"
    using resolve_loop_set [OF assms ids cs(2)] mem by blast
  with resolve_loop_set [OF assms ids cs(2)] cs(1) ids show ?thesis
    by (simp add: resolve_blockers_def)
qed

theorem resolve_blockers_correct_witness:
  "\<exists>ids. resolve_blockers ''t1''
      [task_row (sample_task ''t1'' COMPLETED []), task_row (sample_task ''t2'' APPROVED [''t1''])]
      = Inr ids \<and> ''t2'' \<in> set ids"
proof -
  let ?x = "sample_task ''t1'' COMPLETED []" and ?y = "sample_task ''t2'' APPROVED [''t1'']"
  have v: "valid_task ?x" "valid_task ?y" by simp_all
  have ok: "tasks_ok [task_row ?x, task_row ?y]"
    and b: "board [task_row ?x, task_row ?y] ''t1'' = Some ?x"
      "board [task_row ?x, task_row ?y] ''t2'' = Some ?y"
    using v sample_rows(1) [of "[?x, ?y]"] sample_rows(2) [of "[?x, ?y]" ?x]
      sample_rows(2) [of "[?x, ?y]" ?y] by simp_all
  from resolve_blockers_correct [OF ok, of "''t1''"] b show ?thesis by auto
qed

section \<open>Concurrent writers\<close>

text \<open>
  Two writers that read the same version of a task: when the first one's write has changed
  the status, the second one's compare-and-set fails and writes nothing, so of two concurrent
  transitions at most one takes effect.
\<close>

theorem concurrent_transition_loses:
  assumes "tasks_ok t" "valid_task u" "ot_status u \<noteq> s" "ot_id v = ot_id u"
    and "cas_save u s t = (Inr True, t1)"
  shows "cas_save v s t1 = (Inr False, t1)"
proof -
  have "cas_save (u\<lparr>ot_id := ot_id u\<rparr>) s t = (Inr True, t1)" using assms(5) by simp
  from task_cas.cas_race [OF assms(1) this] assms(2-4)
  have "cas_save (v\<lparr>ot_id := ot_id u\<rparr>) s t1 = (Inr False, t1)" by simp
  with assms(4) show ?thesis by (metis otask_fields.surjective otask_fields.update_convs(1))
qed

theorem concurrent_transition_loses_witness:
  "\<exists>t1. cas_save (sample_task ''t1'' APPROVED []) PLANNING [task_row (sample_task ''t1'' PLANNING [])]
          = (Inr True, t1)
      \<and> cas_save (sample_task ''t1'' PENDING []) PLANNING t1 = (Inr False, t1)"
proof -
  let ?x = "sample_task ''t1'' PLANNING []" and ?u = "sample_task ''t1'' APPROVED []"
  have v: "valid_task ?x" "valid_task ?u" by simp_all
  from cas_save_hit [OF single_row_ok(1) [OF v(1)] v(2), of ?x PLANNING] single_row_ok(2) [OF v(1)]
  obtain t1 where t1: "cas_save ?u PLANNING [task_row ?x] = (Inr True, t1)" by auto
  from concurrent_transition_loses [OF single_row_ok(1) [OF v(1)] v(2) _ _ t1] t1 show ?thesis
    by auto
qed

text \<open>
  The guard only compares the status, so two concurrent writes that keep the status (two
  calls of \<open>update\<close>) both succeed, and the first one's fields are lost although the service
  reports concurrent modification as an error.
\<close>

theorem concurrent_updates_lose_first:
  assumes "tasks_ok t" "board t i = Some x" "ot_status x = s"
    and "valid_task u" "valid_task v" "ot_id u = i" "ot_id v = i" "ot_status u = s"
  shows "\<exists>t1 t2. cas_save u s t = (Inr True, t1) \<and> cas_save v s t1 = (Inr True, t2)
     \<and> board t2 = (board t)(i \<mapsto> v)"
proof -
  from cas_save_hit [OF assms(1,4)] assms(2,3,6) obtain t1 where
    t1: "cas_save u s t = (Inr True, t1)" "tasks_ok t1" "board t1 = (board t)(i \<mapsto> u)" by auto
  from cas_save_hit [OF t1(2) assms(5), of u s] assms t1(3) obtain t2 where
    "cas_save v s t1 = (Inr True, t2)" "board t2 = (board t1)(i \<mapsto> v)" by auto
  with t1 show ?thesis by auto
qed

theorem concurrent_updates_lose_first_witness:
  "\<exists>t1 t2. cas_save (sample_task ''t1'' PENDING [''a'']) PENDING [task_row (sample_task ''t1'' PENDING [])]
             = (Inr True, t1)
     \<and> cas_save (sample_task ''t1'' PENDING [''b'']) PENDING t1 = (Inr True, t2)
     \<and> board t2 ''t1'' = Some (sample_task ''t1'' PENDING [''b''])"
proof -
  let ?x = "sample_task ''t1'' PENDING []"
  have v: "valid_task ?x" "valid_task (sample_task ''t1'' PENDING [''a''])"
    "valid_task (sample_task ''t1'' PENDING [''b''])" by simp_all
  from concurrent_updates_lose_first [OF single_row_ok(1) [OF v(1)] _ _ v(2,3), of "''t1''" ?x PENDING]
    single_row_ok(2) [OF v(1)]
  show ?thesis by fastforce
qed

end
