(* ===== verification/Agent_Launch.thy ===== *)
theory Agent_Launch
  imports Lifecycle
begin

text \<open>
  Launch keys (src/domain/services/canonical_key.py) and the agent launch entity
  (src/domain/entities/agent_launch.py): the statuses with their transition table, the checks of
  the constructor and the derived properties.
\<close>

section \<open>Canonical keys\<close>

text \<open>\<open>re.sub(r"\s+", "-", s)\<close>: every run of white space becomes one hyphen.\<close>

fun collapse_spaces :: "string \<Rightarrow> string" where
  "collapse_spaces [] = []"
| "collapse_spaces (c # cs) =
     (if is_space c
      then (case cs of
              [] \<Rightarrow> [CHR 0x2D]
            | d # _ \<Rightarrow> (if is_space d then collapse_spaces cs else CHR 0x2D # collapse_spaces cs))
      else c # collapse_spaces cs)"

definition sanitize :: "string \<Rightarrow> nat \<Rightarrow> string" where
  "sanitize value max_length = take max_length (collapse_spaces (py_strip value))"

definition build_api_key :: "(string \<Rightarrow> string) \<Rightarrow> string \<Rightarrow> string option \<Rightarrow> string" where
  "build_api_key sha256 agent_type task =
     (let sanitized_type = sanitize agent_type 64;
          normalized_task = sanitize (case task of None \<Rightarrow> [] | Some s \<Rightarrow> s) 4096;
          task_hash = (if normalized_task \<noteq> [] then take 12 (sha256 normalized_task) else ''untitled'')
      in ''api:'' @ sanitized_type @ '':'' @ task_hash)"

definition build_task_key :: "string \<Rightarrow> string" where
  "build_task_key task_id = ''task:'' @ sanitize task_id 128"

definition build_manager_key :: "string \<Rightarrow> string" where
  "build_manager_key agent_name = ''manager:'' @ sanitize agent_name 128"

definition build_workflow_key :: "string \<Rightarrow> string" where
  "build_workflow_key task_id = ''workflow:'' @ sanitize task_id 128"

lemma hyphen_not_space [simp]: "\<not> is_space (CHR 0x2D)"
  by (simp add: is_space_def)

lemma collapse_spaces_no_space: "c \<in> set (collapse_spaces s) \<Longrightarrow> \<not> is_space c"
proof (induction s rule: collapse_spaces.induct)
  case (2 d ds)
  then show ?case by (cases ds) (auto split: if_splits)
qed simp

lemma collapse_spaces_chars: "c \<in> set (collapse_spaces s) \<Longrightarrow> c = CHR 0x2D \<or> c \<in> set s"
proof (induction s rule: collapse_spaces.induct)
  case (2 d ds)
  show ?case
  proof (cases ds)
    case Nil
    with 2 show ?thesis by (auto split: if_splits)
  next
    case (Cons e es)
    with "2.prems" have "c = CHR 0x2D \<or> c = d \<or> c \<in> set (collapse_spaces ds)"
      by (auto split: if_splits simp del: collapse_spaces.simps simp: collapse_spaces.simps(2) [of d])
    with "2.IH" Cons show ?thesis by (cases "is_space d"; cases "is_space e") auto
  qed
qed simp

lemma set_collapse_spaces: "set (collapse_spaces s) \<subseteq> insert (CHR 0x2D) (set s)"
  using collapse_spaces_chars by auto

lemma length_collapse_spaces: "length (collapse_spaces s) \<le> length s"
proof (induction s rule: collapse_spaces.induct)
  case (2 c cs)
  then show ?case by (cases cs) (auto split: if_splits)
qed simp

text \<open>
  \<open>re.match\<close> with the pattern \<open>^[a-zA-Z0-9._:/-]{1,256}$\<close>. The anchor \<open>$\<close> also matches in
  front of a newline that ends the string.
\<close>

definition key_char :: "char \<Rightarrow> bool" where
  "key_char c \<longleftrightarrow>
     (let n = (of_char c :: nat)
      in (97 \<le> n \<and> n \<le> 122) \<or> (65 \<le> n \<and> n \<le> 90) \<or> (48 \<le> n \<and> n \<le> 57) \<or> c \<in> set ''._:/-'')"

definition canonical_key_matches :: "string \<Rightarrow> bool" where
  "canonical_key_matches s =
     (let core = (if s \<noteq> [] \<and> last s = CHR 0x0A then butlast s else s)
      in 1 \<le> length core \<and> length core \<le> 256 \<and> list_all key_char core)"

section \<open>Statuses\<close>

datatype launch_status =
    RESERVED | SPAWNING | ACTIVE | TERMINATING | TERMINATED | FAILED | SUPPRESSED_DUPLICATE
  | QUARANTINED

fun launch_status_value :: "launch_status \<Rightarrow> string" where
  "launch_status_value RESERVED = ''RESERVED''"
| "launch_status_value SPAWNING = ''SPAWNING''"
| "launch_status_value ACTIVE = ''ACTIVE''"
| "launch_status_value TERMINATING = ''TERMINATING''"
| "launch_status_value TERMINATED = ''TERMINATED''"
| "launch_status_value FAILED = ''FAILED''"
| "launch_status_value SUPPRESSED_DUPLICATE = ''SUPPRESSED_DUPLICATE''"
| "launch_status_value QUARANTINED = ''QUARANTINED''"

definition blocking_statuses :: "launch_status set" where
  "blocking_statuses = {RESERVED, SPAWNING, ACTIVE, TERMINATING, QUARANTINED}"

definition terminal_statuses :: "launch_status set" where
  "terminal_statuses = {TERMINATED, FAILED, SUPPRESSED_DUPLICATE}"

fun launch_transitions :: "launch_status \<Rightarrow> launch_status set" where
  "launch_transitions RESERVED = {SPAWNING, FAILED, QUARANTINED}"
| "launch_transitions SPAWNING = {ACTIVE, FAILED, QUARANTINED}"
| "launch_transitions ACTIVE = {TERMINATING, FAILED, QUARANTINED}"
| "launch_transitions TERMINATING = {TERMINATED, FAILED}"
| "launch_transitions QUARANTINED = {FAILED, TERMINATED}"
| "launch_transitions TERMINATED = {}"
| "launch_transitions FAILED = {}"
| "launch_transitions SUPPRESSED_DUPLICATE = {}"

definition launch_status_of :: "string \<Rightarrow> launch_status option" where
  "launch_status_of s = find (\<lambda>st. launch_status_value st = s)
     [RESERVED, SPAWNING, ACTIVE, TERMINATING, TERMINATED, FAILED, SUPPRESSED_DUPLICATE, QUARANTINED]"

lemma launch_status_value_inj [simp]: "launch_status_value a = launch_status_value b \<longleftrightarrow> a = b"
  by (cases a; cases b) simp_all

lemma launch_status_of_value [simp]: "launch_status_of (launch_status_value s) = Some s"
  by (cases s) (simp_all add: launch_status_of_def)

text \<open>How far a launch is from its end: every transition raises it.\<close>

fun launch_rank :: "launch_status \<Rightarrow> nat" where
  "launch_rank RESERVED = 0"
| "launch_rank SPAWNING = 1"
| "launch_rank ACTIVE = 2"
| "launch_rank TERMINATING = 3"
| "launch_rank QUARANTINED = 3"
| "launch_rank TERMINATED = 4"
| "launch_rank FAILED = 4"
| "launch_rank SUPPRESSED_DUPLICATE = 4"

interpretation launch_life: ranked_lifecycle launch_transitions terminal_statuses launch_rank 4
proof
  fix s show "s \<in> terminal_statuses \<longleftrightarrow> launch_transitions s = {}"
    by (cases s) (auto simp: terminal_statuses_def)
next
  fix a b show "b \<in> launch_transitions a \<Longrightarrow> launch_rank a < launch_rank b" by (cases a) auto
next
  fix a show "launch_rank a \<le> 4" by (cases a) auto
qed

section \<open>The entity\<close>

record 'st launch_fields =
  al_id :: string
  al_key :: string
  al_surface :: string
  al_owner_type :: string
  al_owner_id :: string
  al_status :: 'st
  al_backend :: "string option"
  al_created_at :: "int option"
  al_reserved_at :: "int option"
  al_spawn_started_at :: "int option"
  al_spawn_confirmed_at :: "int option"
  al_ended_at :: "int option"
  al_lease_expires_at :: "int option"
  al_handle_type :: "string option"
  al_handle_value :: "string option"
  al_pid :: "int option"
  al_pgid :: "int option"
  al_tmux_session :: "string option"
  al_tmux_pane_id :: "string option"
  al_prompt_digest :: "string option"
  al_fingerprint :: "string option"
  al_last_error :: "string option"
  al_quarantine_reason :: "string option"
  al_parent :: "string option"
  al_role :: "string option"
  al_model :: "string option"
  al_output_artifact :: "string option"

type_synonym agent_launch = "launch_status launch_fields"

definition valid_owner_types :: "string list" where
  "valid_owner_types = [''agent'', ''session'', ''task'', ''run'', ''batch'']"

definition max_owner_id_length :: nat where
  "max_owner_id_length = 1024"

definition blank_when_given :: "string option \<Rightarrow> bool" where
  "blank_when_given x = (case x of None \<Rightarrow> False | Some s \<Rightarrow> py_strip s = [])"

text \<open>\<open>__post_init__\<close>: every failed check raises \<open>ValueError\<close>, in this order.\<close>

definition make_launch :: "agent_launch \<Rightarrow> agent_launch result" where
  "make_launch x =
     (if al_id x = [] then Inl (ValueError ''launch_id must be a non-empty string'')
      else if al_key x = [] then Inl (ValueError ''canonical_key must be a non-empty string'')
      else if \<not> canonical_key_matches (al_key x)
        then Inl (ValueError (''canonical_key must match the pattern (got '' @ quoted (al_key x) @ '')''))
      else if al_owner_id x = [] then Inl (ValueError ''owner_id must be a non-empty string'')
      else if length (al_owner_id x) > max_owner_id_length
        then Inl (ValueError ''owner_id must be <= 1024 chars'')
      else if al_owner_type x \<notin> set valid_owner_types
        then Inl (ValueError (''owner_type must be one of the valid types (got ''
                    @ quoted (al_owner_type x) @ '')''))
      else if blank_when_given (al_parent x)
        then Inl (ValueError ''parent_launch_id must be non-empty when provided'')
      else if al_parent x = Some (al_id x)
        then Inl (ValueError ''parent_launch_id cannot equal launch_id (self-cycle)'')
      else if blank_when_given (al_role x)
        then Inl (ValueError ''role must be non-empty when provided'')
      else if blank_when_given (al_model x)
        then Inl (ValueError ''model must be non-empty when provided'')
      else if blank_when_given (al_output_artifact x)
        then Inl (ValueError ''output_artifact must be non-empty when provided'')
      else Inr x)"

definition valid_launch :: "agent_launch \<Rightarrow> bool" where
  "valid_launch x \<longleftrightarrow> al_id x \<noteq> [] \<and> al_key x \<noteq> [] \<and> canonical_key_matches (al_key x)
     \<and> al_owner_id x \<noteq> [] \<and> length (al_owner_id x) \<le> max_owner_id_length
     \<and> al_owner_type x \<in> set valid_owner_types \<and> \<not> blank_when_given (al_parent x)
     \<and> al_parent x \<noteq> Some (al_id x) \<and> \<not> blank_when_given (al_role x)
     \<and> \<not> blank_when_given (al_model x) \<and> \<not> blank_when_given (al_output_artifact x)"

definition display_name :: "agent_launch \<Rightarrow> string" where
  "display_name x =
     (let role_part = (case al_role x of None \<Rightarrow> ''unknown'' | Some r \<Rightarrow> (if r = [] then ''unknown'' else r))
      in role_part @ '':'' @ take 8 (al_id x))"

definition launch_can_transition_to :: "agent_launch \<Rightarrow> launch_status \<Rightarrow> bool" where
  "launch_can_transition_to x target \<longleftrightarrow> target \<in> launch_transitions (al_status x)"

definition is_blocking :: "agent_launch \<Rightarrow> bool" where
  "is_blocking x \<longleftrightarrow> al_status x \<in> blocking_statuses"

definition is_terminal :: "agent_launch \<Rightarrow> bool" where
  "is_terminal x \<longleftrightarrow> al_status x \<in> terminal_statuses"

definition lease_is_valid :: "int \<Rightarrow> agent_launch \<Rightarrow> bool" where
  "lease_is_valid now x = (case al_lease_expires_at x of None \<Rightarrow> True | Some e \<Rightarrow> now < e)"

definition termination_handle :: "agent_launch \<Rightarrow> (string \<times> string option) list" where
  "termination_handle x = [(''type'', al_handle_type x), (''value'', al_handle_value x)]"

lemma make_launch_Inr: "make_launch x = Inr y \<longleftrightarrow> valid_launch x \<and> y = x"
  by (auto simp: make_launch_def valid_launch_def split: if_splits)

lemma make_launch_valid [simp]: "valid_launch x \<Longrightarrow> make_launch x = Inr x"
  by (simp add: make_launch_Inr)

lemma make_launch_err: "\<not> valid_launch x \<Longrightarrow> \<exists>m. make_launch x = Inl (ValueError m)"
  by (auto simp: make_launch_def valid_launch_def not_le split: if_splits)

lemma terminal_or_blocking: "is_terminal x \<longleftrightarrow> \<not> is_blocking x"
  by (cases "al_status x") (auto simp: is_terminal_def is_blocking_def terminal_statuses_def
      blocking_statuses_def)

section \<open>Keys the builders make\<close>

lemma sanitize_length: "length (sanitize s n) \<le> n"
  by (simp add: sanitize_def)

lemma sanitize_no_space: "c \<in> set (sanitize s n) \<Longrightarrow> \<not> is_space c"
  unfolding sanitize_def by (meson collapse_spaces_no_space in_set_takeD)

lemma sanitize_chars: "set (sanitize s n) \<subseteq> insert (CHR 0x2D) (set s)"
  unfolding sanitize_def using set_collapse_spaces set_py_strip
  by (meson insert_mono order_trans set_take_subset)

end
