(* ===== verification/Launch_Repository.thy ===== *)
theory Launch_Repository
  imports Agent_Launch Sql_Table
begin

text \<open>
  SqliteAgentLaunchRepository
  (src/infrastructure/persistence/repositories/agent_launch_repository.py) on the table
  \<open>agent_launch_registry\<close> with the constraints of its migrations: the primary key, the check
  \<open>canonical_key != ''''\<close>, the partial unique index that allows one row per key in the statuses
  RESERVED, SPAWNING, ACTIVE and TERMINATING (QUARANTINED is not among them), and the foreign key
  of \<open>parent_launch_id\<close>. Errors of SQLite other than violated constraints are not modelled.
\<close>

section \<open>Rows and constraints\<close>

type_synonym launch_row = "string launch_fields"
type_synonym launch_table = "launch_row list"

definition row_to_launch :: "launch_row \<Rightarrow> agent_launch result" where
  "row_to_launch r =
     (case launch_status_of (al_status r) of
        None \<Rightarrow> Inl (RepositoryError (''Invalid status '' @ quoted (al_status r)
                  @ '' for launch '' @ quoted (al_id r)))
      | Some st \<Rightarrow> make_launch
          \<lparr>al_id = al_id r, al_key = al_key r, al_surface = al_surface r,
           al_owner_type = al_owner_type r, al_owner_id = al_owner_id r, al_status = st,
           al_backend = al_backend r, al_created_at = al_created_at r,
           al_reserved_at = al_reserved_at r, al_spawn_started_at = al_spawn_started_at r,
           al_spawn_confirmed_at = al_spawn_confirmed_at r, al_ended_at = al_ended_at r,
           al_lease_expires_at = al_lease_expires_at r, al_handle_type = al_handle_type r,
           al_handle_value = al_handle_value r, al_pid = al_pid r, al_pgid = al_pgid r,
           al_tmux_session = al_tmux_session r, al_tmux_pane_id = al_tmux_pane_id r,
           al_prompt_digest = al_prompt_digest r, al_fingerprint = al_fingerprint r,
           al_last_error = al_last_error r, al_quarantine_reason = al_quarantine_reason r,
           al_parent = al_parent r, al_role = al_role r, al_model = al_model r,
           al_output_artifact = al_output_artifact r\<rparr>)"

definition launch_row :: "agent_launch \<Rightarrow> launch_row" where
  "launch_row x =
     \<lparr>al_id = al_id x, al_key = al_key x, al_surface = al_surface x,
      al_owner_type = al_owner_type x, al_owner_id = al_owner_id x,
      al_status = launch_status_value (al_status x),
      al_backend = al_backend x, al_created_at = al_created_at x,
      al_reserved_at = al_reserved_at x, al_spawn_started_at = al_spawn_started_at x,
      al_spawn_confirmed_at = al_spawn_confirmed_at x, al_ended_at = al_ended_at x,
      al_lease_expires_at = al_lease_expires_at x, al_handle_type = al_handle_type x,
      al_handle_value = al_handle_value x, al_pid = al_pid x, al_pgid = al_pgid x,
      al_tmux_session = al_tmux_session x, al_tmux_pane_id = al_tmux_pane_id x,
      al_prompt_digest = al_prompt_digest x, al_fingerprint = al_fingerprint x,
      al_last_error = al_last_error x, al_quarantine_reason = al_quarantine_reason x,
      al_parent = al_parent x, al_role = al_role x, al_model = al_model x,
      al_output_artifact = al_output_artifact x\<rparr>"

text \<open>\<open>idx_one_active_launch_per_key\<close> and its \<open>WHERE\<close> clause.\<close>

definition indexed :: "launch_row \<Rightarrow> bool" where
  "indexed r \<longleftrightarrow> al_status r \<in> {''RESERVED'', ''SPAWNING'', ''ACTIVE'', ''TERMINATING''}"

definition index_ok :: "launch_table \<Rightarrow> bool" where
  "index_ok t \<longleftrightarrow> distinct (map al_key (filter indexed t))"

section \<open>Operations\<close>

definition get_by_launch_id :: "string \<Rightarrow> launch_table \<Rightarrow> agent_launch option result" where
  "get_by_launch_id i t =
     (case lookup_row al_id i t of
        None \<Rightarrow> Inr None
      | Some r \<Rightarrow> res_bind (row_to_launch r) (\<lambda>x. Inr (Some x)))"

text \<open>The \<open>IN\<close> list of \<open>find_active_by_canonical_key\<close>, which has QUARANTINED.\<close>

definition blocks_key :: "string \<Rightarrow> launch_row \<Rightarrow> bool" where
  "blocks_key key r \<longleftrightarrow> al_key r = key \<and>
     al_status r \<in> {''RESERVED'', ''SPAWNING'', ''ACTIVE'', ''TERMINATING'', ''QUARANTINED''}"

definition find_active_by_canonical_key :: "string \<Rightarrow> launch_table \<Rightarrow> agent_launch option result" where
  "find_active_by_canonical_key key t =
     (case order_desc al_created_at (filter (blocks_key key) t) of
        [] \<Rightarrow> Inr None
      | r # _ \<Rightarrow> res_bind (row_to_launch r) (\<lambda>x. Inr (Some x)))"

text \<open>The row that \<open>claim\<close> inserts.\<close>

definition claimed_row ::
  "int \<Rightarrow> string \<Rightarrow> string \<Rightarrow> string \<Rightarrow> string \<Rightarrow> string \<Rightarrow> int \<Rightarrow> string option \<Rightarrow> string option
     \<Rightarrow> string option \<Rightarrow> launch_row" where
  "claimed_row now lid key surface owner_type owner_id lease role parent model =
     \<lparr>al_id = lid, al_key = key, al_surface = surface, al_owner_type = owner_type,
      al_owner_id = owner_id, al_status = ''RESERVED'', al_backend = None,
      al_created_at = Some now, al_reserved_at = Some now, al_spawn_started_at = None,
      al_spawn_confirmed_at = None, al_ended_at = None,
      al_lease_expires_at = Some lease, al_handle_type = None, al_handle_value = None,
      al_pid = None, al_pgid = None, al_tmux_session = None, al_tmux_pane_id = None,
      al_prompt_digest = None, al_fingerprint = None, al_last_error = None,
      al_quarantine_reason = None, al_parent = parent, al_role = role,
      al_model = model, al_output_artifact = None\<rparr>"

text \<open>
  \<open>claim\<close>: a \<open>UNIQUE\<close> violation (primary key or index) answers \<open>None\<close>, any other violated
  constraint raises, and after a successful insert the row is read back, which may raise when its
  values do not make an entity; the insert is committed by then.
\<close>

definition claim ::
  "int \<Rightarrow> string \<Rightarrow> string \<Rightarrow> string \<Rightarrow> string \<Rightarrow> string \<Rightarrow> int \<Rightarrow> string option \<Rightarrow> string option
     \<Rightarrow> string option \<Rightarrow> (launch_table, agent_launch option) py" where
  "claim now lid key surface owner_type owner_id lease role parent model t =
     (let t' = t @ [claimed_row now lid key surface owner_type owner_id lease role parent model]
      in if key = []
         then (Inl (RepositoryError ''Unexpected IntegrityError during claim: CHECK constraint failed''), t)
         else if rows_hit (\<lambda>r. al_id r = lid) t \<or> \<not> index_ok t' then (Inr None, t)
         else if (case parent of None \<Rightarrow> False | Some p \<Rightarrow> \<not> rows_hit (\<lambda>r. al_id r = p) t')
         then (Inl (RepositoryError ''Unexpected IntegrityError during claim: FOREIGN KEY constraint failed''), t)
         else (get_by_launch_id lid t', t'))"

text \<open>The optional columns of \<open>cas_update_status\<close>.\<close>

record launch_update =
  up_error :: "string option"
  up_quarantine_reason :: "string option"
  up_backend :: "string option"
  up_handle_type :: "string option"
  up_handle_value :: "string option"
  up_pid :: "int option"
  up_pgid :: "int option"
  up_tmux_session :: "string option"
  up_tmux_pane_id :: "string option"
  up_output_artifact :: "string option"
  up_clear_lease :: bool

definition no_update :: launch_update where
  "no_update = \<lparr>up_error = None, up_quarantine_reason = None, up_backend = None,
     up_handle_type = None, up_handle_value = None, up_pid = None, up_pgid = None,
     up_tmux_session = None, up_tmux_pane_id = None, up_output_artifact = None,
     up_clear_lease = False\<rparr>"

definition coalesce :: "'a option \<Rightarrow> 'a option \<Rightarrow> 'a option" where
  "coalesce a b = (case a of None \<Rightarrow> b | Some x \<Rightarrow> Some x)"

text \<open>The \<open>SET\<close> clause, given the value of the status column.\<close>

definition set_clause ::
  "int \<Rightarrow> launch_status \<Rightarrow> 'st \<Rightarrow> launch_update \<Rightarrow> 'st launch_fields \<Rightarrow> 'st launch_fields" where
  "set_clause now new v u r =
     (let ended = (if new \<in> {TERMINATED, FAILED, SUPPRESSED_DUPLICATE} then Some now else None);
          started = (if new = SPAWNING then Some now else None);
          confirmed = (if new = ACTIVE then Some now else None);
          r' = r\<lparr>al_status := v,
              al_ended_at := coalesce ended (al_ended_at r),
              al_spawn_started_at := coalesce started (al_spawn_started_at r),
              al_spawn_confirmed_at := coalesce confirmed (al_spawn_confirmed_at r),
              al_last_error := coalesce (up_error u) (al_last_error r),
              al_quarantine_reason := coalesce (up_quarantine_reason u) (al_quarantine_reason r),
              al_backend := coalesce (up_backend u) (al_backend r),
              al_handle_type := coalesce (up_handle_type u) (al_handle_type r),
              al_handle_value := coalesce (up_handle_value u) (al_handle_value r),
              al_pid := coalesce (up_pid u) (al_pid r),
              al_pgid := coalesce (up_pgid u) (al_pgid r),
              al_tmux_session := coalesce (up_tmux_session u) (al_tmux_session r),
              al_tmux_pane_id := coalesce (up_tmux_pane_id u) (al_tmux_pane_id r),
              al_output_artifact := coalesce (up_output_artifact u) (al_output_artifact r)\<rparr>
      in if up_clear_lease u then r'\<lparr>al_lease_expires_at := None\<rparr> else r')"

definition cas_update_status ::
  "int \<Rightarrow> string \<Rightarrow> launch_status \<Rightarrow> launch_status \<Rightarrow> launch_update \<Rightarrow> (launch_table, bool) py" where
  "cas_update_status now lid expected new u t =
     (let p = (\<lambda>r. al_id r = lid \<and> al_status r = launch_status_value expected);
          t' = update_where p (set_clause now new (launch_status_value new) u) t
      in if index_ok t' then (Inr (rows_hit p t), t')
         else (Inl (RepositoryError ''Failed to CAS update launch: UNIQUE constraint failed''), t))"

definition list_launches_by_status :: "launch_status \<Rightarrow> launch_table \<Rightarrow> agent_launch list result" where
  "list_launches_by_status st t =
     traverse_skip is_value_or_type_error row_to_launch
       (order_desc al_created_at (filter (\<lambda>r. al_status r = launch_status_value st) t))"

definition lease_expired :: "int \<Rightarrow> launch_row \<Rightarrow> bool" where
  "lease_expired now r \<longleftrightarrow> al_status r \<in> {''RESERVED'', ''SPAWNING''}
     \<and> (case al_lease_expires_at r of None \<Rightarrow> False | Some e \<Rightarrow> e \<le> now)"

definition list_expired_leases :: "int \<Rightarrow> launch_table \<Rightarrow> agent_launch list result" where
  "list_expired_leases now t =
     traverse_skip is_value_or_type_error row_to_launch
       (order_asc al_lease_expires_at (filter (lease_expired now) t))"

definition count_launches_by_status :: "launch_table \<Rightarrow> (string \<times> nat) list" where
  "count_launches_by_status t =
     map (\<lambda>s. (s, length (filter (\<lambda>r. al_status r = s) t))) (remdups (map al_status t))"

section \<open>The registry as a map from ids to launches\<close>

text \<open>
  \<open>registry_ok\<close> is what the database enforces. \<open>launches_ok\<close> adds that every row makes an
  entity; \<open>registry\<close> is then the map the operations are described on.
\<close>

definition registry_ok :: "launch_table \<Rightarrow> bool" where
  "registry_ok t \<longleftrightarrow> pk_ok al_id t \<and> index_ok t \<and> (\<forall>r \<in> set t. al_key r \<noteq> [])"

definition launches_ok :: "launch_table \<Rightarrow> bool" where
  "launches_ok t \<longleftrightarrow> registry_ok t \<and> (\<forall>r \<in> set t. \<exists>x. valid_launch x \<and> r = launch_row x)"

definition registry :: "launch_table \<Rightarrow> string \<Rightarrow> agent_launch option" where
  "registry t i = (case get_by_launch_id i t of Inr (Some x) \<Rightarrow> Some x | _ \<Rightarrow> None)"

definition in_flight :: "agent_launch \<Rightarrow> bool" where
  "in_flight x \<longleftrightarrow> al_status x \<in> {RESERVED, SPAWNING, ACTIVE, TERMINATING}"

lemma launch_row_fields [simp]:
  "al_id (launch_row x) = al_id x" "al_key (launch_row x) = al_key x"
  "al_status (launch_row x) = launch_status_value (al_status x)"
  "al_created_at (launch_row x) = al_created_at x"
  "al_lease_expires_at (launch_row x) = al_lease_expires_at x"
  "al_parent (launch_row x) = al_parent x"
  by (simp_all add: launch_row_def)

lemma launch_row_inj [simp]: "launch_row x = launch_row y \<longleftrightarrow> x = y"
  by (cases x; cases y) (simp add: launch_row_def)

lemma row_to_launch_make: "row_to_launch (launch_row x) = make_launch x"
  by (cases x) (simp add: row_to_launch_def launch_row_def)

lemma row_to_launch_row [simp]: "valid_launch x \<Longrightarrow> row_to_launch (launch_row x) = Inr x"
  by (cases x) (simp add: row_to_launch_def launch_row_def)

lemma indexed_row [simp]: "indexed (launch_row x) \<longleftrightarrow> in_flight x"
  by (cases "al_status x") (simp_all add: indexed_def in_flight_def)

lemma blocks_key_row [simp]: "blocks_key key (launch_row x) \<longleftrightarrow> al_key x = key \<and> is_blocking x"
  by (cases "al_status x") (simp_all add: blocks_key_def is_blocking_def blocking_statuses_def)

lemma lease_expired_row [simp]:
  "lease_expired now (launch_row x) \<longleftrightarrow>
     al_status x \<in> {RESERVED, SPAWNING} \<and> \<not> lease_is_valid now x"
  by (cases "al_status x")
    (auto simp: lease_expired_def lease_is_valid_def split: option.splits)

lemma set_clause_row:
  "set_clause now new (launch_status_value new) u (launch_row x)
     = launch_row (set_clause now new new u x)"
  by (simp add: set_clause_def launch_row_def Let_def)

lemma set_clause_fields [simp]:
  "al_id (set_clause now new v u x) = al_id x"
  "al_key (set_clause now new v u x) = al_key x"
  "al_status (set_clause now new v u x) = v"
  "al_parent (set_clause now new v u x) = al_parent x"
  "al_created_at (set_clause now new v u x) = al_created_at x"
  "al_owner_id (set_clause now new v u x) = al_owner_id x"
  "al_owner_type (set_clause now new v u x) = al_owner_type x"
  "al_role (set_clause now new v u x) = al_role x"
  "al_model (set_clause now new v u x) = al_model x"
  "al_output_artifact (set_clause now new v u x) = coalesce (up_output_artifact u) (al_output_artifact x)"
  "al_lease_expires_at (set_clause now new v u x)
     = (if up_clear_lease u then None else al_lease_expires_at x)"
  by (simp_all add: set_clause_def Let_def)

lemma set_clause_valid:
  "valid_launch x \<Longrightarrow> up_output_artifact u = None \<Longrightarrow> valid_launch (set_clause now new new u x)"
  by (simp add: valid_launch_def coalesce_def)

lemma launches_okD: "launches_ok t \<Longrightarrow> r \<in> set t \<Longrightarrow> \<exists>x. valid_launch x \<and> r = launch_row x"
  by (simp add: launches_ok_def)

lemma launches_ok_pk: "launches_ok t \<Longrightarrow> pk_ok al_id t"
  by (simp add: launches_ok_def registry_ok_def)

lemma launches_ok_Nil [simp]: "launches_ok []"
  by (simp add: launches_ok_def registry_ok_def pk_ok_def index_ok_def)

lemma get_launch_registry: "launches_ok t \<Longrightarrow> get_by_launch_id i t = Inr (registry t i)"
  by (auto simp: registry_def get_by_launch_id_def split: option.splits
      dest!: lookup_row_Some launches_okD)

lemma registry_Some_iff:
  assumes "launches_ok t"
  shows "registry t i = Some x \<longleftrightarrow> valid_launch x \<and> al_id x = i \<and> launch_row x \<in> set t"
proof
  assume "registry t i = Some x"
  with assms get_launch_registry [OF assms, of i] obtain r where
    r: "lookup_row al_id i t = Some r" "row_to_launch r = Inr x"
    by (auto simp: get_by_launch_id_def res_bind_Inr_iff split: option.splits)
  then have "r \<in> set t" "al_id r = i" by (auto dest: lookup_row_Some)
  with launches_okD [OF assms] r(2)
  show "valid_launch x \<and> al_id x = i \<and> launch_row x \<in> set t" by fastforce
next
  assume x: "valid_launch x \<and> al_id x = i \<and> launch_row x \<in> set t"
  with assms have "lookup_row al_id i t = Some (launch_row x)"
    by (simp add: lookup_row_iff launches_ok_pk)
  with x show "registry t i = Some x" by (simp add: registry_def get_by_launch_id_def)
qed

lemma registry_SomeD:
  assumes "launches_ok t" "registry t i = Some x"
  shows "valid_launch x" "al_id x = i" "launch_row x \<in> set t"
  using assms by (auto simp: registry_Some_iff)

lemma row_registry:
  "launches_ok t \<Longrightarrow> valid_launch x \<Longrightarrow> launch_row x \<in> set t \<Longrightarrow> registry t (al_id x) = Some x"
  by (simp add: registry_Some_iff)

lemma rows_hit_registry:
  assumes "launches_ok t"
  shows "rows_hit (\<lambda>r. al_id r = i) t \<longleftrightarrow> registry t i \<noteq> None"
proof
  assume "rows_hit (\<lambda>r. al_id r = i) t"
  then obtain r where r: "r \<in> set t" "al_id r = i" by (auto simp: rows_hit_iff)
  obtain x where "valid_launch x" "r = launch_row x" using launches_okD [OF assms r(1)] by blast
  with r row_registry [OF assms] show "registry t i \<noteq> None" by fastforce
next
  assume "registry t i \<noteq> None"
  then obtain x where "registry t i = Some x" by blast
  from registry_SomeD [OF assms this] show "rows_hit (\<lambda>r. al_id r = i) t"
    by (auto simp: rows_hit_iff intro!: bexI [of _ "launch_row x"])
qed

lemma registry_fresh:
  "launches_ok t \<Longrightarrow> registry t i = None \<longleftrightarrow> i \<notin> al_id ` set t"
  using rows_hit_registry [of t i] by (auto simp: rows_hit_iff)

text \<open>The index, on the map: at most one launch in flight per key.\<close>

lemma index_ok_iff:
  assumes "pk_ok al_id t"
  shows "index_ok t \<longleftrightarrow> (\<forall>r \<in> set t. \<forall>q \<in> set t. indexed r \<longrightarrow> indexed q \<longrightarrow> al_key r = al_key q \<longrightarrow>
           al_id r = al_id q)"
proof -
  have d: "distinct t" using assms by (auto simp: pk_ok_def distinct_map)
  have inj: "r \<in> set t \<Longrightarrow> q \<in> set t \<Longrightarrow> al_id r = al_id q \<Longrightarrow> r = q" for r q
    using pk_unique [OF assms] by blast
  show ?thesis using d inj by (auto simp: index_ok_def distinct_map inj_on_def)
qed

lemma one_in_flight:
  assumes "launches_ok t" "registry t i = Some x" "registry t j = Some y"
    and "in_flight x" "in_flight y" "al_key x = al_key y"
  shows "i = j"
proof -
  have "index_ok t" "pk_ok al_id t" using assms(1) by (auto simp: launches_ok_def registry_ok_def)
  with registry_SomeD [OF assms(1,2)] registry_SomeD [OF assms(1,3)] assms(4-6) show ?thesis
    by (fastforce simp: index_ok_iff)
qed


section \<open>The operations on the map\<close>

lemma image_replace: "a \<in> S \<Longrightarrow> (\<lambda>r. if r = a then b else r) ` S = insert b (S - {a})"
  by auto

lemma launch_pk_map: "map al_id (update_where p (set_clause now new v u) t) = map al_id t"
  by (simp add: update_where_def)

text \<open>
  When the database accepts an update: the row was already in flight, the new status is not one
  the index covers, or no other launch of the key is in flight.
\<close>

definition index_allows :: "string \<Rightarrow> launch_status \<Rightarrow> launch_table \<Rightarrow> bool" where
  "index_allows k new t \<longleftrightarrow> (\<forall>x. registry t k = Some x \<longrightarrow>
     in_flight x \<or> new \<notin> {RESERVED, SPAWNING, ACTIVE, TERMINATING} \<or>
     (\<forall>y. registry t (al_id y) = Some y \<longrightarrow> in_flight y \<longrightarrow> al_key y \<noteq> al_key x))"

lemma cas_update_hit:
  assumes t: "launches_ok t" and k: "registry t k = Some x" and s: "al_status x = s"
    and u: "up_output_artifact u = None" and idx: "index_allows k new t"
  shows "\<exists>t'. cas_update_status now k s new u t = (Inr True, t') \<and> launches_ok t'
           \<and> registry t' = (registry t)(k \<mapsto> set_clause now new new u x)"
proof -
  let ?p = "\<lambda>r. al_id r = k \<and> al_status r = launch_status_value s"
  let ?f = "set_clause now new (launch_status_value new) u"
  let ?t = "update_where ?p ?f t"
  let ?y = "set_clause now new new u x"
  note x = registry_SomeD [OF t k]
  have hit: "rows_hit ?p t" using x s by (auto simp: rows_hit_iff intro!: bexI [of _ "launch_row x"])
  have only: "r = launch_row x" if "r \<in> set t" "?p r" for r
    using pk_unique [OF launches_ok_pk [OF t] that(1) x(3)] that x(2) by simp
  have set: "set ?t = insert (launch_row ?y) (set t - {launch_row x})"
  proof -
    have "set ?t = (\<lambda>r. if ?p r then ?f r else r) ` set t" by (simp add: update_where_def)
    also have "\<dots> = (\<lambda>r. if r = launch_row x then launch_row ?y else r) ` set t"
    proof (rule image_cong [OF refl])
      fix r assume r: "r \<in> set t"
      show "(if ?p r then ?f r else r) = (if r = launch_row x then launch_row ?y else r)"
      proof (cases "?p r")
        case True
        with only [OF r True] show ?thesis by (simp add: set_clause_row)
      next
        case False
        with x(2) s have "r \<noteq> launch_row x" by auto
        with False show ?thesis by (simp only: if_False)
      qed
    qed
    also have "\<dots> = insert (launch_row ?y) (set t - {launch_row x})"
      by (rule image_replace [OF x(3)])
    finally show ?thesis .
  qed
  have pk: "pk_ok al_id ?t" using launches_ok_pk [OF t] by (simp add: pk_ok_def launch_pk_map)
  have oldidx: "index_ok t" using t by (simp add: launches_ok_def registry_ok_def)
  have clash: "al_id r = k" if r: "r \<in> set t" "indexed r" "al_key r = al_key x" and y: "in_flight ?y" for r
  proof (rule ccontr)
    assume other: "al_id r \<noteq> k"
    obtain z where z: "valid_launch z" "r = launch_row z" using launches_okD [OF t r(1)] by blast
    with r row_registry [OF t] have reg: "registry t (al_id z) = Some z" "in_flight z" "al_key z = al_key x"
      by auto
    with idx k y have "in_flight x"
      by (auto simp: index_allows_def in_flight_def)
    with one_in_flight [OF t reg(1) k reg(2)] reg(3) z(2) other show False by simp
  qed
  have idx': "index_ok ?t"
    unfolding index_ok_iff [OF pk]
  proof (intro ballI impI)
    fix r q assume r: "r \<in> set ?t" "indexed r" and q: "q \<in> set ?t" "indexed q" and eq: "al_key r = al_key q"
    have rq: "r = launch_row ?y \<or> r \<in> set t" "q = launch_row ?y \<or> q \<in> set t"
      using r(1) q(1) by (auto simp: set)
    have y: "al_id (launch_row ?y) = k" "al_key (launch_row ?y) = al_key x"
      "indexed (launch_row ?y) = in_flight ?y" using x(2) by simp_all
    show "al_id r = al_id q"
      using rq
    proof (elim disjE)
      assume a: "r \<in> set t" "q \<in> set t"
      from oldidx [unfolded index_ok_iff [OF launches_ok_pk [OF t]], rule_format, OF a r(2) q(2) eq]
      show ?thesis .
    next
      assume a: "r = launch_row ?y" "q \<in> set t"
      from clash [OF a(2) q(2)] eq r(2) y show ?thesis unfolding a(1) by metis
    next
      assume a: "r \<in> set t" "q = launch_row ?y"
      from clash [OF a(1) r(2)] eq q(2) y show ?thesis unfolding a(2) by metis
    next
      assume "r = launch_row ?y" "q = launch_row ?y"
      then show ?thesis by metis
    qed
  qed
  have keys: "\<forall>r \<in> set ?t. al_key r \<noteq> []"
    unfolding set using t x by (auto simp: launches_ok_def registry_ok_def)
  have rows: "\<forall>r \<in> set ?t. \<exists>z. valid_launch z \<and> r = launch_row z"
    unfolding set using launches_okD [OF t] set_clause_valid [OF x(1) u] by auto
  from pk idx' keys rows have ok: "launches_ok ?t" by (simp add: launches_ok_def registry_ok_def)
  have "registry ?t i = ((registry t)(k \<mapsto> ?y)) i" for i
  proof (rule option_eqI)
    fix z show "registry ?t i = Some z \<longleftrightarrow> ((registry t)(k \<mapsto> ?y)) i = Some z"
    proof (cases "i = k")
      case True
      have "registry ?t k = Some ?y"
        using row_registry [OF ok set_clause_valid [OF x(1) u]] x(2) by (simp add: set)
      with True show ?thesis by simp
    next
      case False
      with x(2) show ?thesis by (auto simp: registry_Some_iff [OF ok] registry_Some_iff [OF t] set)
    qed
  qed
  with hit ok idx' show ?thesis by (auto simp: cas_update_status_def Let_def)
qed

lemma cas_update_miss:
  assumes t: "launches_ok t" and miss: "\<forall>x. registry t k = Some x \<longrightarrow> al_status x \<noteq> s"
  shows "cas_update_status now k s new u t = (Inr False, t)"
proof -
  let ?p = "\<lambda>r. al_id r = k \<and> al_status r = launch_status_value s"
  have "\<not> rows_hit ?p t"
  proof
    assume "rows_hit ?p t"
    then obtain r where r: "r \<in> set t" "?p r" by (auto simp: rows_hit_iff)
    obtain x where "valid_launch x" "r = launch_row x" using launches_okD [OF t r(1)] by blast
    with r miss row_registry [OF t] show False by auto
  qed
  moreover have "index_ok t" using t by (simp add: launches_ok_def registry_ok_def)
  ultimately show ?thesis by (simp add: cas_update_status_def Let_def update_where_miss)
qed

text \<open>The registry is a compare-and-set store; an update carries the clock and the new status.\<close>

interpretation launch_cas: cas_store registry al_status
    "\<lambda>(now, new, u) x. set_clause now new new u x"
    "\<lambda>k s (now, new, u) t. up_output_artifact u = None \<and> index_allows k new t"
    "\<lambda>k s (now, new, u). cas_update_status now k s new u" launches_ok
proof
  fix t k r s and w :: "int \<times> launch_status \<times> launch_update"
  assume "launches_ok t" "registry t k = Some r" "al_status r = s"
    "(case w of (now, new, u) \<Rightarrow> \<lambda>t. up_output_artifact u = None \<and> index_allows k new t) t"
  then show "\<exists>t'. (case w of (now, new, u) \<Rightarrow> cas_update_status now k s new u) t = (Inr True, t')
      \<and> launches_ok t' \<and> registry t' = (registry t)(k \<mapsto> (case w of (now, new, u) \<Rightarrow> set_clause now new new u) r)"
    by (cases w) (auto intro!: cas_update_hit)
next
  fix t k s and w :: "int \<times> launch_status \<times> launch_update"
  assume "launches_ok t" "\<forall>r. registry t k = Some r \<longrightarrow> al_status r \<noteq> s"
  then show "(case w of (now, new, u) \<Rightarrow> cas_update_status now k s new u) t = (Inr False, t)"
    by (cases w) (auto intro!: cas_update_miss)
qed

text \<open>The entity a successful claim creates.\<close>

definition claimed_launch ::
  "int \<Rightarrow> string \<Rightarrow> string \<Rightarrow> string \<Rightarrow> string \<Rightarrow> string \<Rightarrow> int \<Rightarrow> string option \<Rightarrow> string option
     \<Rightarrow> string option \<Rightarrow> agent_launch" where
  "claimed_launch now lid key surface owner_type owner_id lease role parent model =
     \<lparr>al_id = lid, al_key = key, al_surface = surface, al_owner_type = owner_type,
      al_owner_id = owner_id, al_status = RESERVED, al_backend = None,
      al_created_at = Some now, al_reserved_at = Some now, al_spawn_started_at = None,
      al_spawn_confirmed_at = None, al_ended_at = None,
      al_lease_expires_at = Some lease, al_handle_type = None, al_handle_value = None,
      al_pid = None, al_pgid = None, al_tmux_session = None, al_tmux_pane_id = None,
      al_prompt_digest = None, al_fingerprint = None, al_last_error = None,
      al_quarantine_reason = None, al_parent = parent, al_role = role,
      al_model = model, al_output_artifact = None\<rparr>"

lemma claimed_launch_fields [simp]:
  "al_id (claimed_launch n lid key su ot oi le ro pa mo) = lid"
  "al_key (claimed_launch n lid key su ot oi le ro pa mo) = key"
  "al_status (claimed_launch n lid key su ot oi le ro pa mo) = RESERVED"
  "al_created_at (claimed_launch n lid key su ot oi le ro pa mo) = Some n"
  "al_lease_expires_at (claimed_launch n lid key su ot oi le ro pa mo) = Some le"
  "al_parent (claimed_launch n lid key su ot oi le ro pa mo) = pa"
  by (simp_all add: claimed_launch_def)

lemma claimed_row_launch [simp]:
  "claimed_row n lid key su ot oi le ro pa mo
     = launch_row (claimed_launch n lid key su ot oi le ro pa mo)"
  by (simp add: claimed_row_def claimed_launch_def launch_row_def)

lemmas claim_row = claim_def [unfolded claimed_row_launch]

definition key_in_flight :: "string \<Rightarrow> launch_table \<Rightarrow> bool" where
  "key_in_flight key t \<longleftrightarrow> (\<exists>i x. registry t i = Some x \<and> in_flight x \<and> al_key x = key)"

lemma index_ok_append:
  assumes t: "launches_ok t" and x: "in_flight x"
  shows "index_ok (t @ [launch_row x]) \<longleftrightarrow> \<not> key_in_flight (al_key x) t"
proof -
  have pk: "pk_ok al_id t" and idx: "index_ok t" using t by (auto simp: launches_ok_def registry_ok_def)
  have "index_ok (t @ [launch_row x]) \<longleftrightarrow> (\<forall>r \<in> set t. indexed r \<longrightarrow> al_key r \<noteq> al_key x)"
    using idx x by (auto simp: index_ok_def image_iff)
  also have "\<dots> \<longleftrightarrow> \<not> key_in_flight (al_key x) t"
  proof -
    have "(\<exists>r \<in> set t. indexed r \<and> al_key r = al_key x) \<longleftrightarrow> key_in_flight (al_key x) t"
      unfolding key_in_flight_def
      using launches_okD [OF t] row_registry [OF t] registry_SomeD(3) [OF t]
      by (metis indexed_row launch_row_fields(2))
    then show ?thesis by blast
  qed
  finally show ?thesis .
qed

lemma launches_ok_append:
  assumes t: "launches_ok t" and x: "valid_launch x" and new: "registry t (al_id x) = None"
    and free: "in_flight x \<Longrightarrow> \<not> key_in_flight (al_key x) t"
  shows "launches_ok (t @ [launch_row x]) \<and>
    registry (t @ [launch_row x]) = (registry t)(al_id x \<mapsto> x)"
proof -
  have fresh: "al_id x \<notin> al_id ` set t" using new registry_fresh [OF t] by blast
  have "pk_ok al_id (t @ [launch_row x])"
    using launches_ok_pk [OF t] fresh by (intro pk_ok_append1) auto
  moreover have "index_ok (t @ [launch_row x])"
    using index_ok_append [OF t] free t
    by (cases "in_flight x") (auto simp: index_ok_def launches_ok_def registry_ok_def)
  moreover have "\<forall>r \<in> set (t @ [launch_row x]). al_key r \<noteq> []"
    using t x by (auto simp: launches_ok_def registry_ok_def valid_launch_def)
  moreover have "\<forall>r \<in> set (t @ [launch_row x]). \<exists>z. valid_launch z \<and> r = launch_row z"
    using launches_okD [OF t] x by auto
  ultimately have ok: "launches_ok (t @ [launch_row x])"
    by (simp add: launches_ok_def registry_ok_def)
  have "registry (t @ [launch_row x]) i = ((registry t)(al_id x \<mapsto> x)) i" for i
  proof (rule option_eqI)
    fix z show "registry (t @ [launch_row x]) i = Some z \<longleftrightarrow> ((registry t)(al_id x \<mapsto> x)) i = Some z"
    proof (cases "i = al_id x")
      case True
      have "registry (t @ [launch_row x]) (al_id x) = Some x" using row_registry [OF ok x] by simp
      with True show ?thesis by simp
    next
      case False
      then show ?thesis
        by (auto simp: registry_Some_iff [OF ok] registry_Some_iff [OF t]
            dest: arg_cong [where f = al_id])
    qed
  qed
  with ok show ?thesis by auto
qed

text \<open>A claim with values that make an entity.\<close>

lemma claim_result:
  assumes t: "launches_ok t" and v: "valid_launch x"
    and x: "x = claimed_launch now lid key su ot oi le ro pa mo"
    and parent: "\<forall>p. pa = Some p \<longrightarrow> registry t p \<noteq> None"
    and run: "claim now lid key su ot oi le ro pa mo t = (r, t')"
  shows "(r = Inr (Some x) \<and> launches_ok t' \<and> registry t' = (registry t)(lid \<mapsto> x)
            \<and> registry t lid = None \<and> \<not> key_in_flight key t)
       \<or> (r = Inr None \<and> t' = t \<and> (registry t lid \<noteq> None \<or> key_in_flight key t))"
proof -
  let ?t = "t @ [launch_row x]"
  have key: "key \<noteq> []" using v x by (auto simp: valid_launch_def)
  have inf: "in_flight x" by (simp add: x in_flight_def)
  note hit = rows_hit_registry [OF t]
  have more: "rows_hit p t \<Longrightarrow> rows_hit p ?t" for p by (auto simp: rows_hit_iff)
  have fk: "\<not> (case pa of None \<Rightarrow> False | Some p \<Rightarrow> \<not> rows_hit (\<lambda>r. al_id r = p) ?t)"
    using parent hit more by (simp split: option.splits)
  show ?thesis
  proof (cases "registry t lid = None \<and> \<not> key_in_flight key t")
    case True
    with launches_ok_append [OF t v] x have ok: "launches_ok ?t" "registry ?t = (registry t)(lid \<mapsto> x)"
      by auto
    then have "get_by_launch_id lid ?t = Inr (Some x)" by (simp add: get_launch_registry)
    with True ok run key fk hit index_ok_append [OF t inf] x show ?thesis
      by (auto simp: claim_row Let_def)
  next
    case False
    with run key hit index_ok_append [OF t inf] x have "r = Inr None" "t' = t"
      by (auto simp: claim_row Let_def split: if_splits)
    with False show ?thesis by auto
  qed
qed

text \<open>The lookup by key: a launch of the key that blocks, when there is one.\<close>

lemma find_active_result:
  assumes t: "launches_ok t"
  shows "(\<exists>x. find_active_by_canonical_key key t = Inr (Some x) \<and> registry t (al_id x) = Some x
              \<and> al_key x = key \<and> is_blocking x)
       \<or> (find_active_by_canonical_key key t = Inr None
              \<and> (\<forall>i x. registry t i = Some x \<longrightarrow> al_key x = key \<longrightarrow> \<not> is_blocking x))"
proof (cases "order_desc al_created_at (filter (blocks_key key) t)")
  case Nil
  then have none: "filter (blocks_key key) t = []" by simp
  have "\<not> is_blocking x" if "registry t i = Some x" "al_key x = key" for i x
    using registry_SomeD(3) [OF t that(1)] none that(2) by (auto simp: filter_empty_conv)
  with none show ?thesis by (simp add: find_active_by_canonical_key_def order_desc_def)
next
  case (Cons r rs)
  then have "r \<in> set (order_desc al_created_at (filter (blocks_key key) t))" by simp
  then have r: "r \<in> set t" "blocks_key key r" by auto
  obtain x where x: "valid_launch x" "r = launch_row x" using launches_okD [OF t r(1)] by blast
  with r Cons row_registry [OF t] show ?thesis by (auto simp: find_active_by_canonical_key_def)
qed

end
