(* ===== verification/Launch_Lifecycle.thy ===== *)
theory Launch_Lifecycle
  imports Launch_Repository
begin

text \<open>
  AgentLaunchLifecycleService (src/application/services/agent_launch_lifecycle_service.py), the one
  owner of spawn decisions: the request that claims a canonical key, the confirmations, failure,
  termination and quarantine of a launch, the two reconcilers, the queries and the check of the
  delegation lineage. Log calls are left out. Fresh ids (\<open>uuid4\<close>) and clock readings are
  arguments.
\<close>

section \<open>Requests and attempts\<close>

definition default_lease_duration_ms :: int where
  "default_lease_duration_ms = 300000"

definition max_lineage_depth :: nat where
  "max_lineage_depth = 16"

definition default_role :: string where
  "default_role = ''agent''"

definition surface_role_defaults :: "string \<Rightarrow> string option" where
  "surface_role_defaults = map_of
     [(''polling'', ''poll-agent''), (''workflow'', ''workflow-agent''), (''api'', ''api-agent''),
      (''manager'', ''manager-agent''), (''bug_hunt'', ''hunter-agent'')]"

datatype launch_decision = Claimed | Suppressed | Error

record launch_attempt =
  la_launch :: "agent_launch option"
  la_decision :: launch_decision
  la_existing :: "agent_launch option"
  la_reason :: "string option"

text \<open>The arguments of \<open>request_launch\<close>.\<close>

record launch_request =
  rq_key :: string
  rq_surface :: string
  rq_owner_type :: string
  rq_owner_id :: string
  rq_role :: "string option"
  rq_parent :: "string option"
  rq_model :: "string option"

text \<open>
  The clock readings of one request: the lease check, the write of the quarantine, the base of the
  new lease and the write of the claim.
\<close>

record request_clock =
  rc_check :: int
  rc_quarantine :: int
  rc_lease :: int
  rc_claim :: int

section \<open>Quarantine\<close>

definition quarantine :: "int \<Rightarrow> string \<Rightarrow> string \<Rightarrow> (launch_table, bool) py" where
  "quarantine now i reason =
     py_bind (py_read (get_by_launch_id i)) (\<lambda>launch.
       case launch of
         None \<Rightarrow> py_return False
       | Some x \<Rightarrow>
           if is_terminal x then py_return False
           else if \<not> launch_can_transition_to x QUARANTINED then py_return False
           else cas_update_status now i (al_status x) QUARANTINED
                  (no_update\<lparr>up_quarantine_reason := Some reason\<rparr>))"

definition lease_expired_reason :: "agent_launch \<Rightarrow> string" where
  "lease_expired_reason x = ''Lease expired at '' @ show_opt_int (al_lease_expires_at x)"

definition quarantine_expired :: "int \<Rightarrow> agent_launch \<Rightarrow> (launch_table, bool) py" where
  "quarantine_expired now x = quarantine now (al_id x) (lease_expired_reason x)"

section \<open>The lineage of a delegated launch\<close>

text \<open>
  The walk up the ancestors. \<open>depth\<close> grows with every step and the walk stops at the maximum, so
  it ends on every table, cyclic or not.
\<close>

function lineage_walk ::
  "launch_table \<Rightarrow> string list \<Rightarrow> string option \<Rightarrow> nat \<Rightarrow> (bool \<times> string) result" where
  "lineage_walk t visited None depth = Inr (True, [])"
| "lineage_walk t visited (Some cur) depth =
     (let d = depth + 1
      in if max_lineage_depth \<le> d
         then Inr (False, ''Lineage exceeds max depth '' @ show_nat max_lineage_depth)
         else if cur \<in> set visited
         then Inr (False, ''Cycle detected: '' @ cur @ '' revisited in ancestry chain'')
         else res_bind (get_by_launch_id cur t) (\<lambda>ancestor. case ancestor of
             None \<Rightarrow> Inr (True, [])
           | Some a \<Rightarrow> lineage_walk t (cur # visited) (al_parent a) d))"
  by pat_completeness auto
termination
  by (relation "measure (\<lambda>(t, v, c, d). max_lineage_depth - d)") auto

definition validate_parent_launch_id ::
  "string \<Rightarrow> string \<Rightarrow> launch_table \<Rightarrow> (bool \<times> string) result" where
  "validate_parent_launch_id parent proposed t =
     (if parent = proposed
      then Inr (False, ''Self-referential parent_launch_id: '' @ parent)
      else res_bind (get_by_launch_id parent t) (\<lambda>p. case p of
          None \<Rightarrow> Inr (False, ''parent_launch_id not found: '' @ parent)
        | Some x \<Rightarrow> lineage_walk t [parent, proposed] (al_parent x) 1))"

section \<open>Requesting a launch\<close>

definition effective_role :: "launch_request \<Rightarrow> string" where
  "effective_role rq =
     (case rq_role rq of
        Some r \<Rightarrow> r
      | None \<Rightarrow> (case surface_role_defaults (rq_surface rq) of Some r \<Rightarrow> r | None \<Rightarrow> default_role))"

definition attempt_claim ::
  "int \<Rightarrow> request_clock \<Rightarrow> string \<Rightarrow> launch_request \<Rightarrow> (launch_table, launch_attempt) py" where
  "attempt_claim duration clk uid rq =
     py_bind (claim (rc_claim clk) uid (rq_key rq) (rq_surface rq) (rq_owner_type rq)
         (rq_owner_id rq) (rc_lease clk + duration) (Some (effective_role rq)) (rq_parent rq)
         (rq_model rq)) (\<lambda>claimed.
       case claimed of
         None \<Rightarrow>
           py_bind (py_read (find_active_by_canonical_key (rq_key rq))) (\<lambda>winner.
             py_return \<lparr>la_launch = None, la_decision = Suppressed, la_existing = winner,
               la_reason = Some ''Concurrent claim won by another request''\<rparr>)
       | Some x \<Rightarrow>
           py_return \<lparr>la_launch = Some x, la_decision = Claimed, la_existing = None,
             la_reason = None\<rparr>)"

definition validate_and_claim ::
  "int \<Rightarrow> request_clock \<Rightarrow> string \<Rightarrow> launch_request \<Rightarrow> (launch_table, launch_attempt) py" where
  "validate_and_claim duration clk uid rq =
     (case rq_parent rq of
        None \<Rightarrow> attempt_claim duration clk uid rq
      | Some parent \<Rightarrow>
          py_bind (py_read (validate_parent_launch_id parent uid)) (\<lambda>(valid, reason).
            if \<not> valid
            then py_return \<lparr>la_launch = None, la_decision = Error, la_existing = None,
                   la_reason = Some reason\<rparr>
            else attempt_claim duration clk uid rq))"

definition request_body ::
  "int \<Rightarrow> request_clock \<Rightarrow> string \<Rightarrow> launch_request \<Rightarrow> (launch_table, launch_attempt) py" where
  "request_body duration clk uid rq =
     py_bind (py_read (find_active_by_canonical_key (rq_key rq))) (\<lambda>existing.
       case existing of
         None \<Rightarrow> validate_and_claim duration clk uid rq
       | Some x \<Rightarrow>
           if lease_is_valid (rc_check clk) x
           then py_return \<lparr>la_launch = None, la_decision = Suppressed, la_existing = Some x,
                  la_reason = Some (''Active launch '' @ al_id x @ '' in status ''
                                 @ launch_status_value (al_status x))\<rparr>
           else if al_status x \<in> {RESERVED, SPAWNING}
           then py_bind (quarantine_expired (rc_quarantine clk) x)
                  (\<lambda>_. validate_and_claim duration clk uid rq)
           else validate_and_claim duration clk uid rq)"

text \<open>Every exception inside the body is caught: the service fails closed.\<close>

definition request_launch ::
  "int \<Rightarrow> request_clock \<Rightarrow> string \<Rightarrow> launch_request \<Rightarrow> (launch_table, launch_attempt) py" where
  "request_launch duration clk uid rq =
     py_catch (\<lambda>e. True) (request_body duration clk uid rq)
       (\<lambda>e. py_return \<lparr>la_launch = None, la_decision = Error, la_existing = None,
              la_reason = Some (''Registry error: '' @ exc_message e)\<rparr>)"

section \<open>The rest of the life of a launch\<close>

definition confirm_spawning :: "int \<Rightarrow> string \<Rightarrow> (launch_table, bool) py" where
  "confirm_spawning now i = cas_update_status now i RESERVED SPAWNING no_update"

definition confirm_active ::
  "int \<Rightarrow> string \<Rightarrow> string \<Rightarrow> string \<Rightarrow> string \<Rightarrow> string option \<Rightarrow> string option
     \<Rightarrow> int option \<Rightarrow> int option \<Rightarrow> (launch_table, bool) py" where
  "confirm_active now i backend handle_type handle_value pane session pid pgid =
     cas_update_status now i SPAWNING ACTIVE
       (no_update\<lparr>up_backend := Some backend, up_handle_type := Some handle_type,
          up_handle_value := Some handle_value, up_tmux_pane_id := pane,
          up_tmux_session := session, up_pid := pid, up_pgid := pgid, up_clear_lease := True\<rparr>)"

definition mark_failed :: "int \<Rightarrow> string \<Rightarrow> string \<Rightarrow> (launch_table, bool) py" where
  "mark_failed now i error =
     py_bind (py_read (get_by_launch_id i)) (\<lambda>launch.
       case launch of
         None \<Rightarrow> py_return False
       | Some x \<Rightarrow>
           if is_terminal x then py_return False
           else if \<not> launch_can_transition_to x FAILED then py_return False
           else cas_update_status now i (al_status x) FAILED (no_update\<lparr>up_error := Some error\<rparr>))"

definition begin_termination :: "int \<Rightarrow> string \<Rightarrow> (launch_table, bool) py" where
  "begin_termination now i =
     py_bind (py_read (get_by_launch_id i)) (\<lambda>launch.
       case launch of
         None \<Rightarrow> py_return False
       | Some x \<Rightarrow>
           if \<not> launch_can_transition_to x TERMINATING then py_return False
           else cas_update_status now i (al_status x) TERMINATING no_update)"

definition confirm_terminated :: "int \<Rightarrow> string \<Rightarrow> (launch_table, bool) py" where
  "confirm_terminated now i = cas_update_status now i TERMINATING TERMINATED no_update"

section \<open>Reconcilers and queries\<close>

text \<open>The loop of both reconcilers: the launches it could quarantine, in order.\<close>

fun quarantine_each ::
  "int \<Rightarrow> (agent_launch \<Rightarrow> string) \<Rightarrow> agent_launch list \<Rightarrow> (launch_table, agent_launch list) py" where
  "quarantine_each now reason [] = py_return []"
| "quarantine_each now reason (x # xs) =
     py_bind (quarantine now (al_id x) (reason x)) (\<lambda>ok.
     py_bind (quarantine_each now reason xs) (\<lambda>rest.
       py_return (if ok then x # rest else rest)))"

text \<open>What \<open>tmux list-panes\<close> did, and the set of panes the service reads from it.\<close>

datatype tmux_run = NotInstalled | TimedOut | Exited int string

definition get_alive_tmux_panes :: "tmux_run \<Rightarrow> string list option" where
  "get_alive_tmux_panes r =
     (case r of
        NotInstalled \<Rightarrow> None
      | TimedOut \<Rightarrow> None
      | Exited code out \<Rightarrow>
          (if code \<noteq> 0 then Some []
           else Some (filter (\<lambda>l. l \<noteq> []) (map py_strip (py_splitlines (py_strip out))))))"

definition reconcile_lost_panes :: "int \<Rightarrow> tmux_run \<Rightarrow> (launch_table, agent_launch list) py" where
  "reconcile_lost_panes now tmux =
     py_bind (py_read (list_launches_by_status ACTIVE)) (\<lambda>active.
       let candidates = filter (\<lambda>x. al_tmux_pane_id x \<noteq> None) active
       in if candidates = [] then py_return []
          else (case get_alive_tmux_panes tmux of
              None \<Rightarrow> py_return []
            | Some alive \<Rightarrow>
                quarantine_each now (\<lambda>_. ''pane_lost'')
                  (filter (\<lambda>x. al_tmux_pane_id x \<notin> Some ` set alive) candidates)))"

definition reconcile_expired_leases :: "int \<Rightarrow> int \<Rightarrow> (launch_table, agent_launch list) py" where
  "reconcile_expired_leases now_ms now =
     py_bind (py_read (list_expired_leases now_ms)) (\<lambda>expired.
       quarantine_each now lease_expired_reason expired)"

definition list_active_launches :: "launch_table \<Rightarrow> agent_launch list result" where
  "list_active_launches t =
     res_bind (traverse (\<lambda>st. list_launches_by_status st t) [RESERVED, SPAWNING, ACTIVE, TERMINATING])
       (\<lambda>xss. Inr (order_desc (\<lambda>x. case al_created_at x of None \<Rightarrow> 0 | Some c \<Rightarrow> c) (concat xss)))"

definition list_quarantined_launches :: "launch_table \<Rightarrow> agent_launch list result" where
  "list_quarantined_launches = list_launches_by_status QUARANTINED"

section \<open>The operations on the map\<close>

text \<open>No transition of the table can violate the index.\<close>

lemma transition_index_allows:
  assumes "registry t k = Some x" and "new \<in> launch_transitions (al_status x)"
  shows "index_allows k new t"
  unfolding index_allows_def using assms by (cases "al_status x") (auto simp: in_flight_def)

lemma cas_step:
  assumes t: "launches_ok t" and u: "up_output_artifact u = None" and new: "new \<in> launch_transitions s"
    and run: "cas_update_status now k s new u t = (r, t')"
  shows "(\<exists>x. r = Inr True \<and> launches_ok t' \<and> registry t k = Some x \<and> al_status x = s
            \<and> registry t' = (registry t)(k \<mapsto> set_clause now new new u x))
       \<or> (r = Inr False \<and> t' = t \<and> (\<forall>x. registry t k = Some x \<longrightarrow> al_status x \<noteq> s))"
proof (cases "\<exists>x. registry t k = Some x \<and> al_status x = s")
  case True
  then obtain x where x: "registry t k = Some x" "al_status x = s" by blast
  have "index_allows k new t" using transition_index_allows [OF x(1)] new x(2) by simp
  from cas_update_hit [OF t x u this, of now] run x show ?thesis by auto
next
  case False
  then have "\<forall>x. registry t k = Some x \<longrightarrow> al_status x \<noteq> s" by blast
  with cas_update_miss [OF t this] run show ?thesis by simp
qed

lemma no_update_artifact [simp]: "up_output_artifact no_update = None"
  by (simp add: no_update_def)

lemma no_update_clear [simp]: "up_clear_lease no_update = False"
  by (simp add: no_update_def)

text \<open>
  A read of the launch, a guard and a compare-and-set from the status that was read: on a registry
  without interference it succeeds exactly when the transition is in the table.
\<close>

definition guarded_move ::
  "int \<Rightarrow> string \<Rightarrow> launch_status \<Rightarrow> launch_update \<Rightarrow> launch_table \<Rightarrow> bool result \<times> launch_table \<Rightarrow> bool"
where
  "guarded_move now i new u t out \<longleftrightarrow>
     (\<exists>x. fst out = Inr True \<and> launches_ok (snd out) \<and> registry t i = Some x
          \<and> new \<in> launch_transitions (al_status x)
          \<and> registry (snd out) = (registry t)(i \<mapsto> set_clause now new new u x))
   \<or> (out = (Inr False, t) \<and> (\<forall>x. registry t i = Some x \<longrightarrow> new \<notin> launch_transitions (al_status x)))"

lemma guarded_move_cas:
  assumes t: "launches_ok t" and x: "registry t i = Some x" and u: "up_output_artifact u = None"
    and new: "new \<in> launch_transitions (al_status x)"
  shows "guarded_move now i new u t (cas_update_status now i (al_status x) new u t)"
proof -
  from cas_update_hit [OF t x refl u transition_index_allows [OF x new], of now]
  obtain t' where "cas_update_status now i (al_status x) new u t = (Inr True, t')"
    "launches_ok t'" "registry t' = (registry t)(i \<mapsto> set_clause now new new u x)" by blast
  with x new show ?thesis by (simp add: guarded_move_def)
qed

lemma guarded_move_ok: "launches_ok t \<Longrightarrow> guarded_move now i new u t out \<Longrightarrow> launches_ok (snd out)"
  by (auto simp: guarded_move_def)

lemma terminal_no_transition: "is_terminal x \<Longrightarrow> new \<notin> launch_transitions (al_status x)"
  by (cases "al_status x") (auto simp: is_terminal_def terminal_statuses_def)

lemma quarantine_move:
  assumes "launches_ok t"
  shows "guarded_move now i QUARANTINED (no_update\<lparr>up_quarantine_reason := Some reason\<rparr>) t
           (quarantine now i reason t)"
  using assms terminal_no_transition
  by (cases "registry t i")
    (auto simp: quarantine_def py_simps get_launch_registry launch_can_transition_to_def
      intro!: guarded_move_cas, auto simp: guarded_move_def)

lemma mark_failed_move:
  assumes "launches_ok t"
  shows "guarded_move now i FAILED (no_update\<lparr>up_error := Some e\<rparr>) t (mark_failed now i e t)"
  using assms terminal_no_transition
  by (cases "registry t i")
    (auto simp: mark_failed_def py_simps get_launch_registry launch_can_transition_to_def
      intro!: guarded_move_cas, auto simp: guarded_move_def)

lemma begin_termination_move:
  assumes "launches_ok t"
  shows "guarded_move now i TERMINATING no_update t (begin_termination now i t)"
  using assms
  by (cases "registry t i")
    (auto simp: begin_termination_def py_simps get_launch_registry launch_can_transition_to_def
      intro!: guarded_move_cas, auto simp: guarded_move_def)

lemma quarantine_allowed_iff:
  "QUARANTINED \<in> launch_transitions s \<longleftrightarrow> s \<in> {RESERVED, SPAWNING, ACTIVE}"
  by (cases s) auto

section \<open>The lineage check on the map\<close>

text \<open>The first \<open>n\<close> ids of the chain of ancestors that starts at \<open>c\<close>.\<close>

fun lineage :: "nat \<Rightarrow> (string \<Rightarrow> agent_launch option) \<Rightarrow> string option \<Rightarrow> string list" where
  "lineage 0 R c = []"
| "lineage (Suc n) R None = []"
| "lineage (Suc n) R (Some i) =
     i # lineage n R (case R i of None \<Rightarrow> None | Some x \<Rightarrow> al_parent x)"

lemma length_lineage: "length (lineage n R c) \<le> n"
  by (induction n R c rule: lineage.induct) auto

text \<open>With the fuel \<open>16 - depth\<close> the walk accepts a chain that ends before the fuel does.\<close>

lemma lineage_walk_iff:
  assumes "launches_ok t" and "d < max_lineage_depth"
  shows "\<exists>v m. lineage_walk t visited c d = Inr (v, m) \<and>
    (v \<longleftrightarrow> length (lineage (max_lineage_depth - d) (registry t) c) < max_lineage_depth - d
        \<and> distinct (lineage (max_lineage_depth - d) (registry t) c)
        \<and> set (lineage (max_lineage_depth - d) (registry t) c) \<inter> set visited = {})"
  using assms
proof (induction t visited c d rule: lineage_walk.induct)
  case (1 t visited depth)
  then show ?case by (cases "max_lineage_depth - depth") auto
next
  case (2 t visited cur depth)
  obtain n where n: "max_lineage_depth - depth = Suc n" "max_lineage_depth - (depth + 1) = n"
    using "2.prems"(2) by (cases "max_lineage_depth - depth") auto
  show ?case
  proof (cases "max_lineage_depth \<le> depth + 1")
    case True
    with n have "n = 0" by simp
    with True n show ?thesis by (auto intro!: exI [of _ False])
  next
    case deep: False
    show ?thesis
    proof (cases "cur \<in> set visited")
      case True
      with deep n show ?thesis by (auto simp: Let_def intro!: exI [of _ False])
    next
      case new: False
      show ?thesis
      proof (cases "registry t cur")
        case None
        with deep new n "2.prems"(1) show ?thesis
          by (cases n) (auto simp: Let_def get_launch_registry)
      next
        case (Some a)
        have "depth + 1 < max_lineage_depth" using deep by simp
        from "2.IH" [OF refl deep new "2.prems"(1) this, of a] obtain v m where
          w: "lineage_walk t (cur # visited) (al_parent a) (depth + 1) = Inr (v, m)"
          and v: "v \<longleftrightarrow> length (lineage n (registry t) (al_parent a)) < n
            \<and> distinct (lineage n (registry t) (al_parent a))
            \<and> set (lineage n (registry t) (al_parent a)) \<inter> set (cur # visited) = {}"
          unfolding n(2) by blast
        from w Some deep new "2.prems"(1) have "lineage_walk t visited (Some cur) depth = Inr (v, m)"
          by (simp add: Let_def get_launch_registry)
        moreover have "v \<longleftrightarrow> length (lineage (Suc n) (registry t) (Some cur)) < Suc n
            \<and> distinct (lineage (Suc n) (registry t) (Some cur))
            \<and> set (lineage (Suc n) (registry t) (Some cur)) \<inter> set visited = {}"
          unfolding v using Some new by auto
        ultimately show ?thesis unfolding n(1) by blast
      qed
    qed
  qed
qed

lemma validate_parent_iff:
  assumes t: "launches_ok t"
  shows "\<exists>v m. validate_parent_launch_id p q t = Inr (v, m) \<and>
    (v \<longleftrightarrow> registry t p \<noteq> None \<and> length (lineage max_lineage_depth (registry t) (Some p)) < max_lineage_depth
        \<and> distinct (q # lineage max_lineage_depth (registry t) (Some p)))"
proof -
  have depth: "lineage max_lineage_depth R (Some i)
      = i # lineage (max_lineage_depth - 1) R (case R i of None \<Rightarrow> None | Some x \<Rightarrow> al_parent x)" for R i
    by (simp add: max_lineage_depth_def eval_nat_numeral)
  have less: "Suc n < max_lineage_depth \<longleftrightarrow> n < max_lineage_depth - 1" for n
    by (auto simp: max_lineage_depth_def)
  show ?thesis
  proof (cases "p = q \<or> registry t p = None")
    case True
    then show ?thesis
      by (auto simp: validate_parent_launch_id_def get_launch_registry [OF t] depth
          intro!: exI [of _ False])
  next
    case False
    then obtain x where x: "registry t p = Some x" "p \<noteq> q" by auto
    have "1 < max_lineage_depth" by (simp add: max_lineage_depth_def)
    from lineage_walk_iff [OF t this, of "[p, q]" "al_parent x"] obtain v m where
      w: "lineage_walk t [p, q] (al_parent x) 1 = Inr (v, m)"
      and v: "v \<longleftrightarrow> length (lineage (max_lineage_depth - 1) (registry t) (al_parent x)) < max_lineage_depth - 1
        \<and> distinct (lineage (max_lineage_depth - 1) (registry t) (al_parent x))
        \<and> set (lineage (max_lineage_depth - 1) (registry t) (al_parent x)) \<inter> set [p, q] = {}"
      by blast
    from w x have "validate_parent_launch_id p q t = Inr (v, m)"
      by (simp add: validate_parent_launch_id_def get_launch_registry [OF t])
    moreover have "v \<longleftrightarrow> registry t p \<noteq> None
        \<and> length (lineage max_lineage_depth (registry t) (Some p)) < max_lineage_depth
        \<and> distinct (q # lineage max_lineage_depth (registry t) (Some p))"
      unfolding v depth using x by (auto simp: less)
    ultimately show ?thesis by blast
  qed
qed

section \<open>Requests on the map\<close>

text \<open>The entity that a request creates when its claim goes through.\<close>

definition requested_launch :: "int \<Rightarrow> request_clock \<Rightarrow> string \<Rightarrow> launch_request \<Rightarrow> agent_launch" where
  "requested_launch duration clk uid rq =
     claimed_launch (rc_claim clk) uid (rq_key rq) (rq_surface rq) (rq_owner_type rq)
       (rq_owner_id rq) (rc_lease clk + duration) (Some (effective_role rq)) (rq_parent rq)
       (rq_model rq)"

lemma requested_launch_fields [simp]:
  "al_id (requested_launch d clk uid rq) = uid"
  "al_key (requested_launch d clk uid rq) = rq_key rq"
  "al_status (requested_launch d clk uid rq) = RESERVED"
  "al_lease_expires_at (requested_launch d clk uid rq) = Some (rc_lease clk + d)"
  "al_parent (requested_launch d clk uid rq) = rq_parent rq"
  by (simp_all add: requested_launch_def)

abbreviation claim_granted ::
  "launch_attempt result \<times> launch_table \<Rightarrow> launch_table \<Rightarrow> string \<Rightarrow> agent_launch \<Rightarrow> bool" where
  "claim_granted out t uid x \<equiv>
     fst out = Inr \<lparr>la_launch = Some x, la_decision = Claimed, la_existing = None, la_reason = None\<rparr>
     \<and> launches_ok (snd out) \<and> registry (snd out) = (registry t)(uid \<mapsto> x)
     \<and> registry t uid = None \<and> \<not> key_in_flight (al_key x) t"

abbreviation not_granted :: "launch_attempt result \<times> launch_table \<Rightarrow> launch_table \<Rightarrow> bool" where
  "not_granted out t \<equiv>
     (\<exists>a. fst out = Inr a \<and> la_launch a = None \<and> la_decision a \<noteq> Claimed) \<and> snd out = t"

lemma attempt_claim_result:
  assumes t: "launches_ok t" and v: "valid_launch (requested_launch d clk uid rq)"
    and parent: "\<forall>p. rq_parent rq = Some p \<longrightarrow> registry t p \<noteq> None"
  shows "claim_granted (attempt_claim d clk uid rq t) t uid (requested_launch d clk uid rq)
       \<or> (not_granted (attempt_claim d clk uid rq t) t \<and> (registry t uid \<noteq> None \<or> key_in_flight (rq_key rq) t))"
proof -
  obtain r t' where run: "claim (rc_claim clk) uid (rq_key rq) (rq_surface rq) (rq_owner_type rq)
       (rq_owner_id rq) (rc_lease clk + d) (Some (effective_role rq)) (rq_parent rq) (rq_model rq) t
     = (r, t')" by fastforce
  from claim_result [OF t v requested_launch_def parent run] find_active_result [OF t, of "rq_key rq"]
  show ?thesis
    using run by (elim disjE) (auto simp: attempt_claim_def py_simps)
qed

lemma validate_and_claim_result:
  assumes t: "launches_ok t" and v: "valid_launch (requested_launch d clk uid rq)"
  shows "claim_granted (validate_and_claim d clk uid rq t) t uid (requested_launch d clk uid rq)
       \<or> not_granted (validate_and_claim d clk uid rq t) t"
proof (cases "rq_parent rq")
  case None
  with attempt_claim_result [OF t v] show ?thesis by (auto simp: validate_and_claim_def)
next
  case (Some p)
  obtain ok m where ok: "validate_parent_launch_id p uid t = Inr (ok, m)"
    "ok \<Longrightarrow> registry t p \<noteq> None"
    using validate_parent_iff [OF t, of p uid] by blast
  show ?thesis
  proof (cases ok)
    case True
    with ok Some have "validate_and_claim d clk uid rq t = attempt_claim d clk uid rq t"
      by (simp add: validate_and_claim_def py_simps)
    moreover have "\<forall>p. rq_parent rq = Some p \<longrightarrow> registry t p \<noteq> None" using True ok Some by simp
    ultimately show ?thesis using attempt_claim_result [OF t v] by auto
  next
    case False
    with ok Some show ?thesis by (simp add: validate_and_claim_def py_simps)
  qed
qed

text \<open>
  The states a request passes through: first the launch that holds the key, when its lease is over,
  is quarantined; then the claim. \<open>quarantined_first\<close> relates the two tables.
\<close>

definition quarantined_first :: "request_clock \<Rightarrow> string \<Rightarrow> launch_table \<Rightarrow> launch_table \<Rightarrow> bool" where
  "quarantined_first clk key t t1 \<longleftrightarrow>
     (\<exists>x. registry t (al_id x) = Some x \<and> al_key x = key \<and> al_status x \<in> {RESERVED, SPAWNING}
        \<and> \<not> lease_is_valid (rc_check clk) x
        \<and> registry t1 = (registry t)(al_id x \<mapsto> set_clause (rc_quarantine clk) QUARANTINED QUARANTINED
             (no_update\<lparr>up_quarantine_reason := Some (lease_expired_reason x)\<rparr>) x))"

lemma quarantine_expired_result:
  assumes t: "launches_ok t" and x: "registry t (al_id x) = Some x" "al_status x \<in> {RESERVED, SPAWNING}"
  shows "\<exists>t1. quarantine_expired now x t = (Inr True, t1) \<and> launches_ok t1
    \<and> registry t1 = (registry t)(al_id x \<mapsto> set_clause now QUARANTINED QUARANTINED
         (no_update\<lparr>up_quarantine_reason := Some (lease_expired_reason x)\<rparr>) x)"
  using quarantine_move [OF t, of now "al_id x" "lease_expired_reason x"] x
  by (cases "quarantine_expired now x t")
    (auto simp: guarded_move_def quarantine_expired_def quarantine_allowed_iff)

lemma request_result:
  assumes t: "launches_ok t" and v: "valid_launch (requested_launch d clk uid rq)"
  shows "\<exists>t1. launches_ok t1 \<and> (t1 = t \<or> quarantined_first clk (rq_key rq) t t1)
    \<and> (claim_granted (request_launch d clk uid rq t) t1 uid (requested_launch d clk uid rq)
       \<or> not_granted (request_launch d clk uid rq t) t1)"
proof -
  have catch: "request_launch d clk uid rq t = request_body d clk uid rq t"
    if "\<exists>a. fst (request_body d clk uid rq t) = Inr a"
    using that by (auto simp: request_launch_def py_catch_def split: prod.splits)
  have tail: "(\<exists>a. fst (validate_and_claim d clk uid rq t1) = Inr a) \<and>
     (claim_granted (validate_and_claim d clk uid rq t1) t1 uid (requested_launch d clk uid rq)
       \<or> not_granted (validate_and_claim d clk uid rq t1) t1)" if "launches_ok t1" for t1
    using validate_and_claim_result [OF that v] by auto
  from find_active_result [OF t, of "rq_key rq"] show ?thesis
  proof (elim disjE exE conjE)
    assume none: "find_active_by_canonical_key (rq_key rq) t = Inr None"
    then have body: "request_body d clk uid rq t = validate_and_claim d clk uid rq t"
      by (simp add: request_body_def py_simps)
    with tail [OF t] catch show ?thesis by (intro exI [of _ t]) (simp add: t)
  next
    fix x assume x: "find_active_by_canonical_key (rq_key rq) t = Inr (Some x)"
      "registry t (al_id x) = Some x" "al_key x = rq_key rq"
    show ?thesis
    proof (cases "lease_is_valid (rc_check clk) x")
      case True
      with x catch t show ?thesis
        by (intro exI [of _ t]) (simp add: request_body_def py_simps)
    next
      case expired: False
      show ?thesis
      proof (cases "al_status x \<in> {RESERVED, SPAWNING}")
        case True
        obtain t1 where t1: "quarantine_expired (rc_quarantine clk) x t = (Inr True, t1)" "launches_ok t1"
          "registry t1 = (registry t)(al_id x \<mapsto> set_clause (rc_quarantine clk) QUARANTINED QUARANTINED
             (no_update\<lparr>up_quarantine_reason := Some (lease_expired_reason x)\<rparr>) x)"
          using quarantine_expired_result [OF t x(2) True] by blast
        then have body: "request_body d clk uid rq t = validate_and_claim d clk uid rq t1"
          using x(1) expired True by (simp add: request_body_def py_simps)
        have "quarantined_first clk (rq_key rq) t t1"
          unfolding quarantined_first_def using x expired True t1(3) by blast
        with body tail [OF t1(2)] catch t1(2) show ?thesis by (intro exI [of _ t1]) simp
      next
        case False
        with x(1) expired have body: "request_body d clk uid rq t = validate_and_claim d clk uid rq t"
          by (simp add: request_body_def py_simps)
        with tail [OF t] catch show ?thesis by (intro exI [of _ t]) (simp add: t)
      qed
    qed
  qed
qed

section \<open>The reconcilers on the map\<close>

lemma rows_as_launches:
  assumes t: "launches_ok t" and rs: "set rs \<subseteq> set t" "distinct (map al_id rs)"
  shows "\<exists>xs. traverse_skip is_value_or_type_error row_to_launch rs = Inr xs \<and> rs = map launch_row xs
    \<and> distinct (map al_id xs) \<and> (\<forall>x \<in> set xs. registry t (al_id x) = Some x)"
proof -
  have "\<forall>r \<in> set rs. \<exists>x. valid_launch x \<and> r = launch_row x" using rs(1) launches_okD [OF t] by blast
  then obtain f where f: "\<forall>r \<in> set rs. valid_launch (f r) \<and> r = launch_row (f r)" by metis
  let ?xs = "map f rs"
  have valid: "valid_launch (f r)" and row: "launch_row (f r) = r" if "r \<in> set rs" for r
    using f that by simp_all
  have ids: "al_id (f r) = al_id r" if "r \<in> set rs" for r
    using row [OF that] launch_row_fields(1) [of "f r"] by simp
  have "traverse_skip is_value_or_type_error row_to_launch rs = Inr ?xs"
    using valid row row_to_launch_row by (intro traverse_skip_Inr) metis
  moreover have "rs = map launch_row ?xs" using row by (simp add: map_idI)
  moreover have "map al_id ?xs = map al_id rs" using ids by simp
  moreover have "registry t (al_id (f r)) = Some (f r)" if "r \<in> set rs" for r
    using row_registry [OF t valid [OF that]] row [OF that] rs(1) that by auto
  then have "\<forall>x \<in> set ?xs. registry t (al_id x) = Some x" by auto
  ultimately show ?thesis using rs(2) by metis
qed

lemma list_expired_result:
  assumes t: "launches_ok t"
  shows "\<exists>xs. list_expired_leases now t = Inr xs \<and> distinct (map al_id xs) \<and>
    (\<forall>x. x \<in> set xs \<longleftrightarrow> registry t (al_id x) = Some x \<and> al_status x \<in> {RESERVED, SPAWNING}
        \<and> \<not> lease_is_valid now x)"
proof -
  let ?rs = "order_asc al_lease_expires_at (filter (lease_expired now) t)"
  have pk: "distinct (map al_id t)" using launches_ok_pk [OF t] by (simp add: pk_ok_def)
  then have "set ?rs \<subseteq> set t" "distinct (map al_id ?rs)" by (auto simp: distinct_map_filter)
  from rows_as_launches [OF t this] obtain xs where xs:
    "list_expired_leases now t = Inr xs" "?rs = map launch_row xs" "distinct (map al_id xs)"
    "\<forall>x \<in> set xs. registry t (al_id x) = Some x" by (auto simp: list_expired_leases_def)
  have "x \<in> set xs \<longleftrightarrow> launch_row x \<in> set ?rs" for x
    unfolding xs(2) by auto
  then have "x \<in> set xs \<longleftrightarrow> registry t (al_id x) = Some x \<and> al_status x \<in> {RESERVED, SPAWNING}
      \<and> \<not> lease_is_valid now x" for x
    using xs(4) registry_SomeD(3) [OF t] by auto
  with xs(1,3) show ?thesis by blast
qed

lemma list_by_status_result:
  assumes t: "launches_ok t"
  shows "\<exists>xs. list_launches_by_status st t = Inr xs \<and> distinct (map al_id xs) \<and>
    (\<forall>x. x \<in> set xs \<longleftrightarrow> registry t (al_id x) = Some x \<and> al_status x = st)"
proof -
  let ?rs = "order_desc al_created_at (filter (\<lambda>r. al_status r = launch_status_value st) t)"
  have pk: "distinct (map al_id t)" using launches_ok_pk [OF t] by (simp add: pk_ok_def)
  then have "set ?rs \<subseteq> set t" "distinct (map al_id ?rs)" by (auto simp: distinct_map_filter)
  from rows_as_launches [OF t this] obtain xs where xs:
    "list_launches_by_status st t = Inr xs" "?rs = map launch_row xs" "distinct (map al_id xs)"
    "\<forall>x \<in> set xs. registry t (al_id x) = Some x" by (auto simp: list_launches_by_status_def)
  have "x \<in> set xs \<longleftrightarrow> launch_row x \<in> set ?rs" for x
    unfolding xs(2) by auto
  then have "x \<in> set xs \<longleftrightarrow> registry t (al_id x) = Some x \<and> al_status x = st" for x
    using xs(4) registry_SomeD(3) [OF t] by auto
  with xs(1,3) show ?thesis by blast
qed

definition quarantined_now :: "int \<Rightarrow> (agent_launch \<Rightarrow> string) \<Rightarrow> agent_launch \<Rightarrow> agent_launch" where
  "quarantined_now now reason x =
     set_clause now QUARANTINED QUARANTINED (no_update\<lparr>up_quarantine_reason := Some (reason x)\<rparr>) x"

lemma quarantined_now_fields [simp]:
  "al_id (quarantined_now now reason x) = al_id x" "al_key (quarantined_now now reason x) = al_key x"
  "al_status (quarantined_now now reason x) = QUARANTINED"
  by (simp_all add: quarantined_now_def)

text \<open>Without interference the loop quarantines every launch of the list, and no other.\<close>

lemma quarantine_each_result:
  assumes "launches_ok t" and "distinct (map al_id xs)"
    and "\<forall>x \<in> set xs. registry t (al_id x) = Some x \<and> al_status x \<in> {RESERVED, SPAWNING, ACTIVE}"
  shows "\<exists>t'. quarantine_each now reason xs t = (Inr xs, t') \<and> launches_ok t' \<and>
    registry t' = (\<lambda>i. case registry t i of None \<Rightarrow> None
        | Some x \<Rightarrow> Some (if x \<in> set xs then quarantined_now now reason x else x))"
  using assms
proof (induction xs arbitrary: t)
  case Nil
  then show ?case by (auto simp: py_simps fun_eq_iff split: option.splits)
next
  case (Cons y ys)
  let ?y = "quarantined_now now reason y"
  obtain t1 where t1: "quarantine now (al_id y) (reason y) t = (Inr True, t1)" "launches_ok t1"
    "registry t1 = (registry t)(al_id y \<mapsto> ?y)"
    using quarantine_move [OF Cons.prems(1), of now "al_id y" "reason y"] Cons.prems(3)
    by (cases "quarantine now (al_id y) (reason y) t")
      (auto simp: guarded_move_def quarantine_allowed_iff quarantined_now_def)
  have "\<forall>x \<in> set ys. registry t1 (al_id x) = Some x \<and> al_status x \<in> {RESERVED, SPAWNING, ACTIVE}"
  proof
    fix x assume x: "x \<in> set ys"
    then have "al_id x \<in> set (map al_id ys)" by simp
    with Cons.prems(2) have "al_id x \<noteq> al_id y" by (metis distinct.simps(2) list.simps(9))
    with x Cons.prems(3) show "registry t1 (al_id x) = Some x \<and> al_status x \<in> {RESERVED, SPAWNING, ACTIVE}"
      by (simp add: t1(3))
  qed
  from Cons.IH [OF t1(2) _ this] Cons.prems(2) obtain t' where
    t': "quarantine_each now reason ys t1 = (Inr ys, t')" "launches_ok t'"
      "registry t' = (\<lambda>i. case registry t1 i of None \<Rightarrow> None
        | Some x \<Rightarrow> Some (if x \<in> set ys then quarantined_now now reason x else x))" by auto
  have fresh: "?y \<notin> set ys"
  proof
    assume "?y \<in> set ys"
    then have "al_id ?y \<in> al_id ` set ys" by (rule imageI)
    with Cons.prems(2) show False by simp
  qed
  have ids: "registry t i = Some x \<Longrightarrow> al_id x = i" for i x
    using registry_SomeD(2) [OF Cons.prems(1)] .
  have "registry t' i = (case registry t i of None \<Rightarrow> None
        | Some x \<Rightarrow> Some (if x \<in> set (y # ys) then quarantined_now now reason x else x))" for i
  proof (cases "registry t i")
    case None
    with Cons.prems(3) show ?thesis unfolding t'(3) t1(3) by auto
  next
    case (Some x)
    then have i: "al_id x = i" by (rule ids)
    show ?thesis
    proof (cases "x = y")
      case True
      with Some i fresh show ?thesis unfolding t'(3) t1(3) by simp
    next
      case False
      with Some i Cons.prems(3) have "al_id y \<noteq> i" by auto
      with Some False show ?thesis unfolding t'(3) t1(3) by simp
    qed
  qed
  with t' t1(1) show ?case by (auto simp: py_simps)
qed

end
