(* ===== verification/Launch_Runs.thy ===== *)
theory Launch_Runs
  imports Launch_Lifecycle
begin

text \<open>
  Runs of the launch lifecycle service, as sequences of its calls in the order the registry
  serialises them, the step relation on the map of launches that they refine.
\<close>

section \<open>Calls and runs\<close>

datatype launch_call =
    RequestLaunch int request_clock string launch_request
  | ConfirmSpawning int string
  | ConfirmActive int string string string string "string option" "string option" "int option" "int option"
  | MarkFailed int string string
  | BeginTermination int string
  | ConfirmTerminated int string
  | Quarantine int string string
  | ReconcilePanes int tmux_run
  | ReconcileLeases int int

definition py_void :: "('s, 'a) py \<Rightarrow> ('s, unit) py" where
  "py_void m = py_bind m (\<lambda>_. py_return ())"

lemma snd_void [simp]: "snd (py_void m t) = snd (m t)"
  by (auto simp: py_void_def py_bind_def py_return_def split: prod.splits sum.splits)

fun run_launch_call :: "launch_call \<Rightarrow> (launch_table, unit) py" where
  "run_launch_call (RequestLaunch d clk uid rq) = py_void (request_launch d clk uid rq)"
| "run_launch_call (ConfirmSpawning now i) = py_void (confirm_spawning now i)"
| "run_launch_call (ConfirmActive now i b ht hv pane ses pid pgid) =
     py_void (confirm_active now i b ht hv pane ses pid pgid)"
| "run_launch_call (MarkFailed now i e) = py_void (mark_failed now i e)"
| "run_launch_call (BeginTermination now i) = py_void (begin_termination now i)"
| "run_launch_call (ConfirmTerminated now i) = py_void (confirm_terminated now i)"
| "run_launch_call (Quarantine now i reason) = py_void (quarantine now i reason)"
| "run_launch_call (ReconcilePanes now tmux) = py_void (reconcile_lost_panes now tmux)"
| "run_launch_call (ReconcileLeases now_ms now) = py_void (reconcile_expired_leases now_ms now)"

text \<open>The table after a run; a call that raises leaves what it wrote and the run goes on.\<close>

fun run_launch_calls :: "launch_call list \<Rightarrow> launch_table \<Rightarrow> launch_table" where
  "run_launch_calls [] t = t"
| "run_launch_calls (c # cs) t = run_launch_calls cs (snd (run_launch_call c t))"

text \<open>Calls whose request makes an entity.\<close>

fun launch_call_ok :: "launch_call \<Rightarrow> bool" where
  "launch_call_ok (RequestLaunch d clk uid rq) = valid_launch (requested_launch d clk uid rq)"
| "launch_call_ok _ = True"

section \<open>What the database keeps, whatever the arguments\<close>

lemma index_keeps:
  "registry_ok t \<Longrightarrow> index_ok (update_where p (set_clause now new v u) t) \<Longrightarrow>
     registry_ok (update_where p (set_clause now new v u) t)"
  by (auto simp: registry_ok_def pk_ok_def launch_pk_map set_update_where)

lemma preserves_cas [preserves_rules]: "preserves registry_ok (cas_update_status now i s new u)"
  by (rule preservesI) (auto simp: cas_update_status_def Let_def intro!: index_keeps)

lemma preserves_claim [preserves_rules]:
  "preserves registry_ok (claim now lid key su ot oi le ro pa mo)"
  by (rule preservesI)
    (auto simp: claim_row Let_def registry_ok_def rows_hit_iff intro!: pk_ok_append1)

lemma preserves_quarantine [preserves_rules]: "preserves registry_ok (quarantine now i reason)"
  unfolding quarantine_def by (intro preserves_rules)

lemma preserves_quarantine_each [preserves_rules]:
  "preserves registry_ok (quarantine_each now reason xs)"
  by (induction xs) (auto intro!: preserves_rules)

lemma preserves_request [preserves_rules]: "preserves registry_ok (request_launch d clk uid rq)"
  unfolding request_launch_def request_body_def validate_and_claim_def attempt_claim_def
    quarantine_expired_def case_prod_beta
  by (intro preserves_rules)

lemma preserves_launch_call: "preserves registry_ok (run_launch_call c)"
  by (cases c)
    (simp_all add: py_void_def confirm_spawning_def confirm_active_def mark_failed_def
      begin_termination_def confirm_terminated_def reconcile_lost_panes_def
      reconcile_expired_leases_def Let_def preserves_rules)

lemma preserves_launch_calls: "registry_ok t \<Longrightarrow> registry_ok (run_launch_calls cs t)"
  by (induction cs arbitrary: t) (auto dest: preservesD [OF preserves_launch_call])

section \<open>Which rows a call may write\<close>

text \<open>
  For each call the rows its \<open>WHERE\<close> clauses and guards leave it to write, on the columns as the
  database has them. A request writes, apart from the row it inserts, only a launch of its key
  whose lease ran out before it became active.
\<close>

fun may_write :: "launch_call \<Rightarrow> launch_row \<Rightarrow> bool" where
  "may_write (RequestLaunch d clk uid rq) r \<longleftrightarrow> al_key r = rq_key rq \<and> lease_expired (rc_check clk) r"
| "may_write (ConfirmSpawning now i) r \<longleftrightarrow> al_id r = i \<and> al_status r = ''RESERVED''"
| "may_write (ConfirmActive now i b ht hv pane ses pid pgid) r \<longleftrightarrow> al_id r = i \<and> al_status r = ''SPAWNING''"
| "may_write (MarkFailed now i e) r \<longleftrightarrow> al_id r = i
     \<and> al_status r \<in> {''RESERVED'', ''SPAWNING'', ''ACTIVE'', ''TERMINATING'', ''QUARANTINED''}"
| "may_write (BeginTermination now i) r \<longleftrightarrow> al_id r = i \<and> al_status r = ''ACTIVE''"
| "may_write (ConfirmTerminated now i) r \<longleftrightarrow> al_id r = i \<and> al_status r = ''TERMINATING''"
| "may_write (Quarantine now i reason) r \<longleftrightarrow> al_id r = i \<and> al_status r \<in> {''RESERVED'', ''SPAWNING'', ''ACTIVE''}"
| "may_write (ReconcilePanes now tmux) r \<longleftrightarrow> al_status r = ''ACTIVE'' \<and> al_tmux_pane_id r \<noteq> None
     \<and> (\<exists>alive. get_alive_tmux_panes tmux = Some alive \<and> al_tmux_pane_id r \<notin> Some ` set alive)"
| "may_write (ReconcileLeases now_ms now) r \<longleftrightarrow> lease_expired now_ms r"

definition keeps_rows :: "launch_row set \<Rightarrow> launch_table \<Rightarrow> bool" where
  "keeps_rows R s \<longleftrightarrow> pk_ok al_id s \<and> R \<subseteq> set s"

lemma keeps_rows_cas:
  assumes "\<forall>r \<in> R. \<not> (al_id r = i \<and> al_status r = launch_status_value e)"
  shows "preserves (keeps_rows R) (cas_update_status now i e new u)"
proof (rule preservesI)
  fix s assume s: "keeps_rows R s"
  let ?t = "update_where (\<lambda>r. al_id r = i \<and> al_status r = launch_status_value e)
    (set_clause now new (launch_status_value new) u) s"
  have "pk_ok al_id ?t" using s by (simp add: keeps_rows_def pk_ok_def launch_pk_map)
  moreover have "R \<subseteq> set ?t" using s assms by (auto simp: keeps_rows_def set_update_where)
  ultimately show "keeps_rows R (snd (cas_update_status now i e new u s))"
    using s by (simp add: cas_update_status_def Let_def keeps_rows_def)
qed

text \<open>The rows a move to \<open>new\<close> cannot write.\<close>

definition safe_from :: "launch_status \<Rightarrow> string set \<Rightarrow> launch_row set \<Rightarrow> bool" where
  "safe_from new ids R \<longleftrightarrow>
     (\<forall>r \<in> R. al_id r \<in> ids \<longrightarrow> (\<forall>st. new \<in> launch_transitions st \<longrightarrow> al_status r \<noteq> launch_status_value st))"

lemma safe_from_cas: "safe_from new {i} R \<Longrightarrow> new \<in> launch_transitions e \<Longrightarrow>
    preserves (keeps_rows R) (cas_update_status now i e new u)"
  by (rule keeps_rows_cas) (auto simp: safe_from_def)

lemma keeps_rows_quarantine: "safe_from QUARANTINED {i} R \<Longrightarrow> preserves (keeps_rows R) (quarantine now i reason)"
  unfolding quarantine_def
  by (intro preserves_bind preserves_read preserves_option preserves_return)
    (auto simp: launch_can_transition_to_def intro: preserves_return safe_from_cas)

lemma keeps_rows_mark_failed: "safe_from FAILED {i} R \<Longrightarrow> preserves (keeps_rows R) (mark_failed now i e)"
  unfolding mark_failed_def
  by (intro preserves_bind preserves_read preserves_option preserves_return)
    (auto simp: launch_can_transition_to_def intro: preserves_return safe_from_cas)

lemma keeps_rows_begin: "safe_from TERMINATING {i} R \<Longrightarrow> preserves (keeps_rows R) (begin_termination now i)"
  unfolding begin_termination_def
  by (intro preserves_bind preserves_read preserves_option preserves_return)
    (auto simp: launch_can_transition_to_def intro: preserves_return safe_from_cas)

lemma keeps_rows_quarantine_each:
  "safe_from QUARANTINED (al_id ` set xs) R \<Longrightarrow> preserves (keeps_rows R) (quarantine_each now reason xs)"
proof (induction xs)
  case (Cons x xs)
  then have "safe_from QUARANTINED {al_id x} R" "safe_from QUARANTINED (al_id ` set xs) R"
    by (auto simp: safe_from_def)
  with Cons.IH show ?case by (auto intro!: preserves_rules keeps_rows_quarantine)
qed (simp add: preserves_return)

lemma keeps_rows_claim: "preserves (keeps_rows R) (claim now lid key su ot oi le ro pa mo)"
  by (rule preservesI)
    (auto simp: claim_row Let_def keeps_rows_def rows_hit_iff intro!: pk_ok_append1)

lemma keeps_rows_validate_and_claim: "preserves (keeps_rows R) (validate_and_claim d clk uid rq)"
  unfolding validate_and_claim_def attempt_claim_def case_prod_beta
  by (intro preserves_rules keeps_rows_claim)

lemma row_to_launch_fields:
  assumes "row_to_launch r = Inr x"
  shows "al_id x = al_id r" "al_key x = al_key r" "launch_status_value (al_status x) = al_status r"
    "al_lease_expires_at x = al_lease_expires_at r" "al_tmux_pane_id x = al_tmux_pane_id r"
  using assms
  by (auto simp: row_to_launch_def make_launch_def res_bind_Inr_iff launch_status_of_def find_Some_iff split: option.splits if_splits)

lemma safe_from_ids:
  assumes "pk_ok al_id t" "R \<subseteq> set t"
    and "\<And>i r. i \<in> ids \<Longrightarrow> r \<in> set t \<Longrightarrow> al_id r = i \<Longrightarrow> r \<notin> R"
  shows "safe_from new ids R"
  using assms by (auto simp: safe_from_def)

lemma keeps_rows_reconcile:
  assumes t: "keeps_rows R t"
    and xs: "\<And>x. x \<in> set xs \<Longrightarrow> \<exists>q \<in> set t. al_id q = al_id x \<and> q \<notin> R"
  shows "R \<subseteq> set (snd (quarantine_each now reason xs t))"
proof -
  have "safe_from QUARANTINED (al_id ` set xs) R"
    unfolding safe_from_def
  proof (intro ballI impI)
    fix r assume r: "r \<in> R" "al_id r \<in> al_id ` set xs"
    then obtain x where x: "x \<in> set xs" "al_id r = al_id x" by auto
    from xs [OF x(1)] obtain q where q: "q \<in> set t" "al_id q = al_id x" "q \<notin> R" by blast
    have "r = q" using pk_unique [of al_id t r q] t r(1) q x(2) by (auto simp: keeps_rows_def)
    with r(1) q(3) show "\<forall>st. QUARANTINED \<in> launch_transitions st \<longrightarrow> al_status r \<noteq> launch_status_value st" by simp
  qed
  from preservesD [OF keeps_rows_quarantine_each [OF this] t] show ?thesis by (simp add: keeps_rows_def)
qed

lemma keeps_rows_request:
  assumes t: "keeps_rows R t" and R: "\<forall>r \<in> R. \<not> (al_key r = rq_key rq \<and> lease_expired (rc_check clk) r)"
  shows "R \<subseteq> set (snd (request_launch d clk uid rq t))"
proof -
  have body: "keeps_rows R (snd (request_body d clk uid rq t))"
  proof (cases "find_active_by_canonical_key (rq_key rq) t")
    case (Inl e)
    with t show ?thesis by (simp add: request_body_def py_simps)
  next
    case (Inr found)
    note claim = preservesD [OF keeps_rows_validate_and_claim t]
    show ?thesis
    proof (cases found)
      case None
      with Inr claim show ?thesis by (simp add: request_body_def py_simps)
    next
      case (Some x)
      show ?thesis
      proof (cases "lease_is_valid (rc_check clk) x \<or> al_status x \<notin> {RESERVED, SPAWNING}")
        case True
        with Inr Some claim t show ?thesis by (auto simp: request_body_def py_simps)
      next
        case False
        from Inr Some obtain q where q: "q \<in> set t" "blocks_key (rq_key rq) q" "row_to_launch q = Inr x"
          using set_order_desc by (fastforce simp: find_active_by_canonical_key_def res_bind_Inr_iff split: list.splits
            dest: arg_cong [where f = set])
        have "lease_expired (rc_check clk) q"
          using False row_to_launch_fields [OF q(3)] by (auto simp: lease_expired_def lease_is_valid_def split: option.splits)
        with R q(2) have "q \<notin> R" by (auto simp: blocks_key_def)
        then have "safe_from QUARANTINED {al_id x} R"
          using pk_unique [of al_id t _ q] t q row_to_launch_fields(1) [OF q(3)]
          by (fastforce simp: safe_from_def keeps_rows_def)
        then have "preserves (keeps_rows R) (py_bind (quarantine_expired (rc_quarantine clk) x)
            (\<lambda>_. validate_and_claim d clk uid rq))"
          unfolding quarantine_expired_def
          by (intro preserves_bind keeps_rows_quarantine keeps_rows_validate_and_claim)
        from preservesD [OF this t] Inr Some False show ?thesis by (simp add: request_body_def py_simps)
      qed
    qed
  qed
  then show ?thesis
    by (auto simp: request_launch_def py_catch_def keeps_rows_def py_simps split: prod.splits sum.splits)
qed

lemma untouched_panes:
  assumes t: "keeps_rows {r} t" and r: "\<not> may_write (ReconcilePanes now tmux) r"
  shows "r \<in> set (snd (reconcile_lost_panes now tmux t))"
proof (cases "list_launches_by_status ACTIVE t")
  case (Inr xs)
  have "\<exists>q \<in> set t. al_id q = al_id x \<and> q \<notin> {r}" if "x \<in> set xs" "al_tmux_pane_id x \<noteq> None"
    "get_alive_tmux_panes tmux = Some alive" "al_tmux_pane_id x \<notin> Some ` set alive" for x alive
  proof -
    from traverse_skip_from [OF Inr [unfolded list_launches_by_status_def] that(1)] obtain q where
      q: "q \<in> set t" "al_status q = ''ACTIVE''" "row_to_launch q = Inr x" by auto
    with row_to_launch_fields [OF q(3)] that r show ?thesis by auto
  qed
  note from_row = this
  have "{r} \<subseteq> set (snd (quarantine_each now reason
      (filter (\<lambda>x. al_tmux_pane_id x \<notin> Some ` set alive) (filter (\<lambda>x. al_tmux_pane_id x \<noteq> None) xs)) t))"
    if "get_alive_tmux_panes tmux = Some alive" for alive reason
    by (rule keeps_rows_reconcile [OF t]) (use from_row that in auto)
  with Inr t show ?thesis
    by (simp add: reconcile_lost_panes_def py_simps Let_def keeps_rows_def del: filter_filter split: option.splits)
qed (use t in \<open>simp add: reconcile_lost_panes_def py_simps keeps_rows_def\<close>)

lemma untouched_leases:
  assumes t: "keeps_rows {r} t" and r: "\<not> may_write (ReconcileLeases now_ms now) r"
  shows "r \<in> set (snd (reconcile_expired_leases now_ms now t))"
proof (cases "list_expired_leases now_ms t")
  case (Inr xs)
  have "\<exists>q \<in> set t. al_id q = al_id x \<and> q \<notin> {r}" if "x \<in> set xs" for x
  proof -
    from traverse_skip_from [OF Inr [unfolded list_expired_leases_def] that(1)] obtain q where
      q: "q \<in> set t" "lease_expired now_ms q" "row_to_launch q = Inr x" by auto
    with row_to_launch_fields [OF q(3)] r show ?thesis by auto
  qed
  with Inr keeps_rows_reconcile [OF t] show ?thesis
    by (auto simp: reconcile_expired_leases_def py_simps)
qed (use t in \<open>simp add: reconcile_expired_leases_def py_simps keeps_rows_def\<close>)

lemma untouched_rows:
  assumes "pk_ok al_id t" and "r \<in> set t" "\<not> may_write c r"
  shows "r \<in> set (snd (run_launch_call c t))"
proof -
  have t: "keeps_rows {r} t" using assms by (simp add: keeps_rows_def)
  have after: "preserves (keeps_rows {r}) m \<Longrightarrow> r \<in> set (snd (m t))" for m :: "(launch_table, 'a) py"
    using preservesD [of "keeps_rows {r}" m t] t by (auto simp: keeps_rows_def)
  show ?thesis
  proof (cases c)
    case (RequestLaunch d clk uid rq)
    with assms(3) keeps_rows_request [OF t, of rq clk d uid] show ?thesis by simp
  next
    case (ConfirmSpawning now i)
    with assms(3) show ?thesis by (auto simp: confirm_spawning_def intro!: after keeps_rows_cas)
  next
    case (ConfirmActive now i b ht hv pane ses pid pgid)
    with assms(3) show ?thesis by (auto simp: confirm_active_def intro!: after keeps_rows_cas)
  next
    case (ConfirmTerminated now i)
    with assms(3) show ?thesis by (auto simp: confirm_terminated_def intro!: after keeps_rows_cas)
  next
    case (MarkFailed now i e)
    have "FAILED \<in> launch_transitions st \<Longrightarrow> launch_status_value st
        \<in> {''RESERVED'', ''SPAWNING'', ''ACTIVE'', ''TERMINATING'', ''QUARANTINED''}" for st by (cases st) auto
    with MarkFailed assms(3) have "safe_from FAILED {i} {r}" unfolding safe_from_def by fastforce
    with MarkFailed show ?thesis by (auto intro!: after keeps_rows_mark_failed)
  next
    case (BeginTermination now i)
    have "TERMINATING \<in> launch_transitions st \<Longrightarrow> launch_status_value st = ''ACTIVE''" for st by (cases st) auto
    with BeginTermination assms(3) have "safe_from TERMINATING {i} {r}" unfolding safe_from_def by fastforce
    with BeginTermination show ?thesis by (auto intro!: after keeps_rows_begin)
  next
    case (Quarantine now i reason)
    have "QUARANTINED \<in> launch_transitions st \<Longrightarrow> launch_status_value st \<in> {''RESERVED'', ''SPAWNING'', ''ACTIVE''}" for st
      by (cases st) auto
    with Quarantine assms(3) have "safe_from QUARANTINED {i} {r}" unfolding safe_from_def by fastforce
    with Quarantine show ?thesis by (auto intro!: after keeps_rows_quarantine)
  next
    case (ReconcilePanes now tmux)
    with assms(3) untouched_panes [OF t] show ?thesis by simp
  next
    case (ReconcileLeases now_ms now)
    with assms(3) untouched_leases [OF t] show ?thesis by simp
  qed
qed

section \<open>The step relation\<close>

text \<open>
  What one write does to the map of launches: a new launch in RESERVED for a key with nothing in
  flight, or a launch that takes a transition of the table.
\<close>

inductive launch_step ::
  "(string \<Rightarrow> agent_launch option) \<Rightarrow> (string \<Rightarrow> agent_launch option) \<Rightarrow> bool" where
  claims: "R (al_id x) = None \<Longrightarrow> al_status x = RESERVED \<Longrightarrow>
     \<forall>i y. R i = Some y \<longrightarrow> in_flight y \<longrightarrow> al_key y \<noteq> al_key x \<Longrightarrow>
     launch_step R (R(al_id x \<mapsto> x))"
| moves: "R i = Some x \<Longrightarrow> new \<in> launch_transitions (al_status x) \<Longrightarrow>
     launch_step R (R(i \<mapsto> set_clause now new new u x))"

definition launch_reaches :: "launch_table \<Rightarrow> launch_table \<Rightarrow> bool" where
  "launch_reaches t t' \<longleftrightarrow> launches_ok t' \<and> launch_step\<^sup>*\<^sup>* (registry t) (registry t')"

lemma reaches_refl: "launches_ok t \<Longrightarrow> launch_reaches t t"
  by (simp add: launch_reaches_def)

lemma reaches_trans: "launch_reaches t t1 \<Longrightarrow> launch_reaches t1 t2 \<Longrightarrow> launch_reaches t t2"
  by (auto simp: launch_reaches_def)

lemma reaches_move:
  assumes "launches_ok t'" "registry t i = Some x" "new \<in> launch_transitions (al_status x)"
    and "registry t' = (registry t)(i \<mapsto> set_clause now new new u x)"
  shows "launch_reaches t t'"
  using assms moves [of "registry t" i x new now u] by (auto simp: launch_reaches_def)

lemma reaches_guarded: "launches_ok t \<Longrightarrow> guarded_move now i new u t out \<Longrightarrow> launch_reaches t (snd out)"
  by (auto simp: guarded_move_def intro: reaches_move reaches_refl)

lemma reaches_cas:
  assumes "launches_ok t" "up_output_artifact u = None" "new \<in> launch_transitions s"
  shows "launch_reaches t (snd (cas_update_status now i s new u t))"
  using cas_step [OF assms, of now i] assms(3)
  by (cases "cas_update_status now i s new u t")
    (auto intro: reaches_move reaches_refl [OF assms(1)])

lemma reaches_quarantine_each: "launches_ok t \<Longrightarrow> launch_reaches t (snd (quarantine_each now reason xs t))"
proof (induction xs arbitrary: t)
  case Nil
  then show ?case by (simp add: py_simps reaches_refl)
next
  case (Cons x xs)
  obtain r t1 where q: "quarantine now (al_id x) (reason x) t = (r, t1)" by fastforce
  with reaches_guarded [OF Cons.prems quarantine_move [OF Cons.prems]] have
    t1: "launch_reaches t t1" by (metis snd_conv)
  from q quarantine_move [OF Cons.prems, of now "al_id x" "reason x"] obtain b where "r = Inr b"
    by (auto simp: guarded_move_def)
  with q have "snd (quarantine_each now reason (x # xs) t) = snd (quarantine_each now reason xs t1)"
    by (auto simp: py_simps py_bind_def split: prod.splits sum.splits)
  with t1 Cons.IH [of t1] show ?case by (auto simp: launch_reaches_def)
qed

lemma reaches_claim:
  assumes t: "launches_ok t" and g: "claim_granted out t (al_id x) x" and st: "al_status x = RESERVED"
  shows "launch_reaches t (snd out)"
proof -
  have "\<forall>i y. registry t i = Some y \<longrightarrow> in_flight y \<longrightarrow> al_key y \<noteq> al_key x"
    using g by (auto simp: key_in_flight_def)
  with g st claims [of "registry t" x] show ?thesis by (auto simp: launch_reaches_def)
qed

lemma reaches_quarantined_first:
  assumes "launches_ok t1" "quarantined_first clk key t t1"
  shows "launch_reaches t t1"
proof -
  from assms(2) obtain x where x: "registry t (al_id x) = Some x" "al_status x \<in> {RESERVED, SPAWNING}"
    and t1: "registry t1 = (registry t)(al_id x \<mapsto> set_clause (rc_quarantine clk) QUARANTINED QUARANTINED
        (no_update\<lparr>up_quarantine_reason := Some (lease_expired_reason x)\<rparr>) x)"
    unfolding quarantined_first_def by blast
  have "QUARANTINED \<in> launch_transitions (al_status x)" using x(2) by auto
  from reaches_move [OF assms(1) x(1) this t1] show ?thesis .
qed

lemma reaches_request:
  assumes t: "launches_ok t" and v: "valid_launch (requested_launch d clk uid rq)"
  shows "launch_reaches t (snd (request_launch d clk uid rq t))"
proof -
  from request_result [OF t v] obtain t1 where t1: "launches_ok t1"
    "t1 = t \<or> quarantined_first clk (rq_key rq) t t1"
    and out: "claim_granted (request_launch d clk uid rq t) t1 uid (requested_launch d clk uid rq)
       \<or> not_granted (request_launch d clk uid rq t) t1" by blast
  have "launch_reaches t t1" using t1 reaches_quarantined_first reaches_refl [OF t] by blast
  moreover have "launch_reaches t1 (snd (request_launch d clk uid rq t))"
    using out reaches_claim [OF t1(1), of _ "requested_launch d clk uid rq"] reaches_refl [OF t1(1)]
    by auto
  ultimately show ?thesis by (rule reaches_trans)
qed

lemma snd_read_bind:
  "snd (py_bind (py_read f) k t) = (case f t of Inl e \<Rightarrow> t | Inr a \<Rightarrow> snd (k a t))"
  by (simp add: py_simps split: sum.splits)

lemma launch_call_reaches:
  assumes t: "launches_ok t" and ok: "launch_call_ok c"
  shows "launch_reaches t (snd (run_launch_call c t))"
proof (cases c)
  case (RequestLaunch d clk uid rq)
  with ok reaches_request [OF t] show ?thesis by simp
next
  case (ConfirmSpawning now i)
  then show ?thesis by (auto simp: confirm_spawning_def intro!: reaches_cas [OF t])
next
  case (ConfirmActive now i b ht hv pane ses pid pgid)
  then show ?thesis
    by (auto simp: confirm_active_def no_update_def intro!: reaches_cas [OF t])
next
  case (MarkFailed now i e)
  with reaches_guarded [OF t mark_failed_move [OF t]] show ?thesis by simp
next
  case (BeginTermination now i)
  with reaches_guarded [OF t begin_termination_move [OF t]] show ?thesis by simp
next
  case (ConfirmTerminated now i)
  then show ?thesis by (auto simp: confirm_terminated_def intro!: reaches_cas [OF t])
next
  case (Quarantine now i reason)
  with reaches_guarded [OF t quarantine_move [OF t]] show ?thesis by simp
next
  case (ReconcilePanes now tmux)
  then show ?thesis
    by (auto simp: reconcile_lost_panes_def snd_read_bind Let_def py_simps reaches_refl [OF t]
        intro!: reaches_quarantine_each [OF t] split: sum.splits option.splits)
next
  case (ReconcileLeases now_ms now)
  then show ?thesis
    by (auto simp: reconcile_expired_leases_def snd_read_bind reaches_refl [OF t]
        intro!: reaches_quarantine_each [OF t] split: sum.splits)
qed

lemma launch_calls_reach:
  "launches_ok t \<Longrightarrow> list_all launch_call_ok cs \<Longrightarrow> launch_reaches t (run_launch_calls cs t)"
proof (induction cs arbitrary: t)
  case (Cons c cs)
  then have first: "launch_reaches t (snd (run_launch_call c t))" by (auto intro: launch_call_reaches)
  with Cons have "launch_reaches (snd (run_launch_call c t)) (run_launch_calls cs (snd (run_launch_call c t)))"
    by (auto simp: launch_reaches_def)
  with first show ?case using reaches_trans by simp
qed (simp add: reaches_refl)

text \<open>Along steps a launch keeps its identity and its status walks a path of the table.\<close>

definition continues :: "agent_launch \<Rightarrow> agent_launch \<Rightarrow> bool" where
  "continues x y \<longleftrightarrow> al_id y = al_id x \<and> al_key y = al_key x \<and> al_parent y = al_parent x \<and>
     (\<exists>p. status_path launch_transitions (al_status x) p \<and> al_status y = last (al_status x # p))"

lemma continues_refl: "continues x x"
  by (auto simp: continues_def intro!: exI [of _ "[]"])

lemma continues_move:
  assumes "continues x y" and "new \<in> launch_transitions (al_status y)"
  shows "continues x (set_clause now new new u y)"
proof -
  from assms(1) obtain p where "status_path launch_transitions (al_status x) p"
    "al_status y = last (al_status x # p)" by (auto simp: continues_def)
  with assms(2) have "status_path launch_transitions (al_status x) (p @ [new])"
    by (simp only: status_path_append)
  moreover have "new = last (al_status x # p @ [new])" by simp
  ultimately show ?thesis using assms(1) unfolding continues_def set_clause_fields by blast
qed

lemma step_continues:
  "launch_step R R' \<Longrightarrow> R i = Some y \<Longrightarrow> continues x y \<Longrightarrow> \<exists>z. R' i = Some z \<and> continues x z"
  by (induction rule: launch_step.induct) (auto intro: continues_move)

lemma steps_continue:
  "launch_step\<^sup>*\<^sup>* R R' \<Longrightarrow> R i = Some x \<Longrightarrow> \<exists>z. R' i = Some z \<and> continues x z"
proof (induction rule: rtranclp_induct)
  case base
  then show ?case by (auto intro: continues_refl)
next
  case (step R1 R2)
  then show ?case by (blast dest: step_continues)
qed

lemma quarantined_first_dom:
  "quarantined_first clk key t t1 \<Longrightarrow> registry t1 i = None \<longleftrightarrow> registry t i = None"
  by (auto simp: quarantined_first_def split: if_splits)

lemma quarantined_first_old:
  assumes "quarantined_first clk key t t1" and "registry t i = Some x"
  shows "registry t1 i = Some x \<or>
      (al_key x = key \<and> al_status x \<in> {RESERVED, SPAWNING} \<and> \<not> lease_is_valid (rc_check clk) x
       \<and> (\<exists>y. registry t1 i = Some y \<and> al_status y = QUARANTINED))"
proof -
  from assms(1) obtain z where z: "registry t (al_id z) = Some z" "al_key z = key"
      "al_status z \<in> {RESERVED, SPAWNING}" "\<not> lease_is_valid (rc_check clk) z"
    and t1: "registry t1 = (registry t)(al_id z \<mapsto> set_clause (rc_quarantine clk) QUARANTINED QUARANTINED
        (no_update\<lparr>up_quarantine_reason := Some (lease_expired_reason z)\<rparr>) z)"
    unfolding quarantined_first_def by blast
  show ?thesis
  proof (cases "i = al_id z")
    case True
    with z assms(2) have "x = z" by simp
    with True z t1 show ?thesis by simp
  next
    case False
    with assms(2) t1 show ?thesis by simp
  qed
qed

end
