(* ===== verification/Launch_Properties.thy ===== *)
theory Launch_Properties
  imports Launch_Runs
begin

text \<open>The properties of the launch lifecycle, with concrete registries as their witnesses.\<close>

section \<open>Sample data for the witnesses\<close>

definition sample_request :: launch_request where
  "sample_request = \<lparr>rq_key = ''task:t1'', rq_surface = ''api'', rq_owner_type = ''task'',
     rq_owner_id = ''t1'', rq_role = None, rq_parent = None, rq_model = None\<rparr>"

definition sample_clock :: "int \<Rightarrow> request_clock" where
  "sample_clock n = \<lparr>rc_check = n, rc_quarantine = n, rc_lease = n, rc_claim = n\<rparr>"

definition sample_launch :: "launch_status \<Rightarrow> agent_launch" where
  "sample_launch st = (claimed_launch 0 ''l1'' ''task:t1'' ''api'' ''task'' ''t1'' 100
     (Some ''api-agent'') None None)\<lparr>al_status := st\<rparr>"

lemma sample_launch_valid [simp]: "valid_launch (sample_launch st)"
  by (simp add: sample_launch_def claimed_launch_def valid_launch_def canonical_key_matches_def
      key_char_def valid_owner_types_def max_owner_id_length_def blank_when_given_def
      py_strip_def is_space_def)

lemma sample_launch_fields [simp]:
  "al_id (sample_launch st) = ''l1''" "al_key (sample_launch st) = ''task:t1''"
  "al_status (sample_launch st) = st" "al_lease_expires_at (sample_launch st) = Some 100"
  "al_parent (sample_launch st) = None"
  by (simp_all add: sample_launch_def claimed_launch_def)

lemma launches_ok_single: "valid_launch x \<Longrightarrow> launches_ok [launch_row x]"
  by (auto simp: launches_ok_def registry_ok_def pk_ok_def index_ok_def valid_launch_def)

lemma registry_single: "valid_launch x \<Longrightarrow> registry [launch_row x] i = (if i = al_id x then Some x else None)"
  by (simp add: registry_def get_by_launch_id_def lookup_row_def)

lemma sample_requested_valid [simp]: "valid_launch (requested_launch d clk ''l2'' sample_request)"
  by (simp add: requested_launch_def sample_request_def claimed_launch_def valid_launch_def
      canonical_key_matches_def key_char_def valid_owner_types_def max_owner_id_length_def
      blank_when_given_def py_strip_def is_space_def effective_role_def surface_role_defaults_def)

section \<open>Properties\<close>

text \<open>
  C2. The database never holds two launches of one canonical key in flight (RESERVED, SPAWNING,
  ACTIVE or TERMINATING), after any sequence of calls with any arguments, malformed ones included, and a
  call writes only rows it may: the launch it names in the status it expects, panes that are gone,
  leases that ran out, and for a request a launch of its key whose lease ran out.
\<close>

theorem one_launch_in_flight_per_key:
  assumes "registry_ok t"
  shows "length (filter (\<lambda>r. al_key r = k \<and> al_status r \<in> {''RESERVED'', ''SPAWNING'', ''ACTIVE'', ''TERMINATING''})
       (run_launch_calls cs t)) \<le> 1
    \<and> (\<forall>r \<in> set (run_launch_calls cs t). \<not> may_write c r \<longrightarrow>
         r \<in> set (snd (run_launch_call c (run_launch_calls cs t))))"
proof -
  have ok: "registry_ok (run_launch_calls cs t)" by (rule preserves_launch_calls [OF assms])
  then have "distinct (map al_key (filter indexed (run_launch_calls cs t)))"
    by (simp add: registry_ok_def index_ok_def)
  from distinct_filter_key [OF this, of k]
  have "length (filter (\<lambda>r. al_key r = k \<and> al_status r \<in> {''RESERVED'', ''SPAWNING'', ''ACTIVE'', ''TERMINATING''})
       (run_launch_calls cs t)) \<le> 1"
    by (simp add: indexed_def conj_commute)
  with ok untouched_rows show ?thesis unfolding registry_ok_def by blast
qed

theorem one_launch_in_flight_per_key_witness:
  "length (filter (\<lambda>r. al_key r = ''task:t1'' \<and> al_status r \<in> {''RESERVED'', ''SPAWNING'', ''ACTIVE'', ''TERMINATING''})
     (run_launch_calls [RequestLaunch 100 (sample_clock 500) ''l2'' sample_request,
        RequestLaunch 100 (sample_clock 550) ''l3'' sample_request] [launch_row (sample_launch SPAWNING)]))
   \<le> 1"
proof -
  have "registry_ok [launch_row (sample_launch SPAWNING)]"
    using launches_ok_single [of "sample_launch SPAWNING"] by (simp only: launches_ok_def sample_launch_valid)
  from one_launch_in_flight_per_key [OF this] show ?thesis by blast
qed

text \<open>
  C10. A granted request is exclusive: the new launch is RESERVED under the fresh id, it is the only
  launch of its key in flight, and every older launch is as it was, except that one whose lease was
  over before it became active may have been quarantined.
\<close>

theorem claimed_launch_is_exclusive:
  assumes t: "launches_ok t" and v: "valid_launch (requested_launch d clk uid rq)"
    and run: "request_launch d clk uid rq t = (Inr a, t')" and granted: "la_decision a = Claimed"
  shows "registry t uid = None \<and> registry t' uid = Some (requested_launch d clk uid rq)
    \<and> la_launch a = Some (requested_launch d clk uid rq)
    \<and> (\<forall>i x. registry t' i = Some x \<longrightarrow> in_flight x \<longrightarrow> al_key x = rq_key rq \<longrightarrow> i = uid)
    \<and> (\<forall>i x. registry t i = Some x \<longrightarrow> registry t' i = Some x \<or>
          (al_key x = rq_key rq \<and> al_status x \<in> {RESERVED, SPAWNING} \<and> \<not> lease_is_valid (rc_check clk) x
           \<and> (\<exists>y. registry t' i = Some y \<and> al_status y = QUARANTINED)))"
proof -
  from request_result [OF t v] run granted obtain t1 where
    t1: "launches_ok t1" "t1 = t \<or> quarantined_first clk (rq_key rq) t t1"
    and a: "la_launch a = Some (requested_launch d clk uid rq)"
    and t': "registry t' = (registry t1)(uid \<mapsto> requested_launch d clk uid rq)"
    and free: "registry t1 uid = None" "\<not> key_in_flight (rq_key rq) t1" by auto
  have same: "registry t i = None \<longleftrightarrow> registry t1 i = None" for i
    using t1(2) quarantined_first_dom by blast
  have old: "registry t1 i = Some x \<or>
      (al_key x = rq_key rq \<and> al_status x \<in> {RESERVED, SPAWNING} \<and> \<not> lease_is_valid (rc_check clk) x
       \<and> (\<exists>y. registry t1 i = Some y \<and> al_status y = QUARANTINED))" if "registry t i = Some x" for i x
    using t1(2) quarantined_first_old that by blast
  have new: "registry t uid = None \<and> registry t' uid = Some (requested_launch d clk uid rq)
      \<and> la_launch a = Some (requested_launch d clk uid rq)"
    using free(1) same a by (simp add: t')
  have only: "\<forall>i x. registry t' i = Some x \<longrightarrow> in_flight x \<longrightarrow> al_key x = rq_key rq \<longrightarrow> i = uid"
    using free(2) by (auto simp: t' key_in_flight_def)
  have kept: "registry t' i = registry t1 i" if "registry t i = Some x" for i x
    using that same [of i] free(1) by (auto simp: t')
  have rest: "\<forall>i x. registry t i = Some x \<longrightarrow> registry t' i = Some x \<or>
          (al_key x = rq_key rq \<and> al_status x \<in> {RESERVED, SPAWNING} \<and> \<not> lease_is_valid (rc_check clk) x
           \<and> (\<exists>y. registry t' i = Some y \<and> al_status y = QUARANTINED))"
    using old kept by (intro allI impI) (simp only:)
  from new only rest show ?thesis by (simp only: simp_thms)
qed

theorem claimed_launch_is_exclusive_witness:
  "\<exists>a t'. request_launch 100 (sample_clock 500) ''l2'' sample_request [launch_row (sample_launch SPAWNING)]
      = (Inr a, t')
    \<and> registry t' ''l2'' = Some (requested_launch 100 (sample_clock 500) ''l2'' sample_request)
    \<and> la_launch a = Some (requested_launch 100 (sample_clock 500) ''l2'' sample_request)"
proof -
  let ?out = "request_launch 100 (sample_clock 500) ''l2'' sample_request [launch_row (sample_launch SPAWNING)]"
  have "(case fst ?out of Inl e \<Rightarrow> False | Inr a \<Rightarrow> la_decision a = Claimed)" by code_simp
  then obtain a where a: "?out = (Inr a, snd ?out)" "la_decision a = Claimed"
    by (cases ?out) (auto split: sum.splits)
  from claimed_launch_is_exclusive [OF launches_ok_single [OF sample_launch_valid]
      sample_requested_valid a] a(1)
  show ?thesis by blast
qed

text \<open>
  A request for a key that a blocking launch holds with a valid lease is suppressed, answers
  such a launch and changes nothing, whatever its other arguments.
\<close>

theorem live_launch_suppresses:
  assumes t: "launches_ok t" and held: "registry t i = Some x" "al_key x = rq_key rq" "is_blocking x"
    and live: "\<And>j y. registry t j = Some y \<Longrightarrow> al_key y = rq_key rq \<Longrightarrow> is_blocking y \<Longrightarrow>
      lease_is_valid (rc_check clk) y"
  shows "\<exists>a y. request_launch d clk uid rq t = (Inr a, t) \<and> la_decision a = Suppressed
    \<and> la_launch a = None \<and> la_existing a = Some y \<and> al_key y = rq_key rq \<and> is_blocking y"
proof -
  from find_active_result [OF t, of "rq_key rq"] held obtain y where
    y: "find_active_by_canonical_key (rq_key rq) t = Inr (Some y)" "registry t (al_id y) = Some y"
    "al_key y = rq_key rq" "is_blocking y" by blast
  from live [OF y(2-4)] y show ?thesis
    by (simp add: request_launch_def py_catch_def request_body_def py_simps)
qed

theorem live_launch_suppresses_witness:
  "\<exists>a y. request_launch 100 (sample_clock 50) ''l2'' sample_request [launch_row (sample_launch ACTIVE)]
      = (Inr a, [launch_row (sample_launch ACTIVE)]) \<and> la_decision a = Suppressed
    \<and> la_launch a = None \<and> la_existing a = Some y \<and> al_key y = rq_key sample_request \<and> is_blocking y"
  by (rule live_launch_suppresses [where i = "''l1''" and x = "sample_launch ACTIVE"])
    (auto simp: launches_ok_single registry_single sample_request_def is_blocking_def
      blocking_statuses_def lease_is_valid_def sample_clock_def split: if_splits)

text \<open>
  A request is granted when every launch that blocks its key is QUARANTINED with a lease that
  is over, no launch at all among them: the fresh id is RESERVED. So the quarantine of a launch
  that never became active keeps its key only until the lease ends.
\<close>

theorem free_key_is_granted:
  assumes t: "launches_ok t" and v: "valid_launch (requested_launch d clk uid rq)"
    and fresh: "registry t uid = None" and root: "rq_parent rq = None"
    and free: "\<And>j y. registry t j = Some y \<Longrightarrow> al_key y = rq_key rq \<Longrightarrow> is_blocking y \<Longrightarrow>
      al_status y = QUARANTINED \<and> \<not> lease_is_valid (rc_check clk) y"
  shows "\<exists>a t'. request_launch d clk uid rq t = (Inr a, t') \<and> la_decision a = Claimed
    \<and> registry t' = (registry t)(uid \<mapsto> requested_launch d clk uid rq)"
proof -
  have nf: "\<not> key_in_flight (rq_key rq) t"
    using free by (fastforce simp: key_in_flight_def in_flight_def is_blocking_def blocking_statuses_def)
  have body: "request_body d clk uid rq t = attempt_claim d clk uid rq t"
    using find_active_result [OF t, of "rq_key rq"] free root
    by (auto simp: request_body_def validate_and_claim_def py_simps)
  from attempt_claim_result [OF t v] root fresh nf
  have "claim_granted (attempt_claim d clk uid rq t) t uid (requested_launch d clk uid rq)" by auto
  then show ?thesis
    by (cases "attempt_claim d clk uid rq t")
      (simp add: request_launch_def py_catch_def body)
qed

theorem free_key_is_granted_witness:
  "\<exists>a t'. request_launch 100 (sample_clock 500) ''l2'' sample_request [launch_row (sample_launch QUARANTINED)]
      = (Inr a, t') \<and> la_decision a = Claimed
    \<and> registry t' = (registry [launch_row (sample_launch QUARANTINED)])
        (''l2'' \<mapsto> requested_launch 100 (sample_clock 500) ''l2'' sample_request)"
  by (rule free_key_is_granted [OF launches_ok_single [OF sample_launch_valid] sample_requested_valid])
    (auto simp: registry_single lease_is_valid_def sample_clock_def
      sample_request_def split: if_splits)

text \<open>
  C26. Along any run a launch keeps its id, its key and its parent, and its status walks a path of
  the transition table of at most four steps; a launch in a terminal status never moves again.
\<close>

theorem launch_lives_are_paths:
  assumes "launches_ok t" and "list_all launch_call_ok cs" and "registry t i = Some x"
  shows "\<exists>y p. registry (run_launch_calls cs t) i = Some y \<and> al_id y = al_id x \<and> al_key y = al_key x
    \<and> al_parent y = al_parent x \<and> status_path launch_transitions (al_status x) p
    \<and> al_status y = last (al_status x # p) \<and> length p \<le> 4 - launch_rank (al_status x)
    \<and> (is_terminal x \<longrightarrow> p = [])"
proof -
  from launch_calls_reach [OF assms(1,2)]
    steps_continue [where R = "registry t" and i = i and x = x, OF _ assms(3)] obtain y where
    y: "registry (run_launch_calls cs t) i = Some y" "continues x y"
    unfolding launch_reaches_def by blast
  then obtain p where p: "status_path launch_transitions (al_status x) p"
    "al_status y = last (al_status x # p)" by (auto simp: continues_def)
  from p(1) have "length p \<le> 4 - launch_rank (al_status x)" by (rule launch_life.path_bounded)
  moreover have "is_terminal x \<longrightarrow> p = []"
    using launch_life.terminal_path p(1) by (auto simp: is_terminal_def)
  ultimately show ?thesis using y p by (auto simp: continues_def)
qed

theorem launch_lives_are_paths_witness:
  "\<exists>y p. registry (run_launch_calls [ConfirmSpawning 5 ''l1'', MarkFailed 9 ''l1'' ''boom'', BeginTermination 10 ''l1'']
      [launch_row (sample_launch RESERVED)]) ''l1'' = Some y
    \<and> al_id y = ''l1'' \<and> status_path launch_transitions RESERVED p
    \<and> al_status y = last (RESERVED # p) \<and> length p \<le> 4"
  using launch_lives_are_paths [OF launches_ok_single [OF sample_launch_valid], of
      "[ConfirmSpawning 5 ''l1'', MarkFailed 9 ''l1'' ''boom'', BeginTermination 10 ''l1'']" RESERVED "''l1''"
      "sample_launch RESERVED"]
  by (auto simp: registry_single simp del: run_launch_calls.simps run_launch_call.simps last.simps)

text \<open>
  \<open>mark_failed\<close> succeeds exactly on a launch that exists and is not terminal, from each such
  status; on success the launch is FAILED with the error, and nothing else changes.
\<close>

theorem mark_failed_correct:
  assumes t: "launches_ok t"
  shows "\<exists>b t'. mark_failed now i e t = (Inr b, t')
    \<and> (b \<longleftrightarrow> (\<exists>x. registry t i = Some x \<and> \<not> is_terminal x))
    \<and> registry t' = (if b then (registry t)(i \<mapsto> set_clause now FAILED FAILED
          (no_update\<lparr>up_error := Some e\<rparr>) (the (registry t i))) else registry t)"
proof -
  have iff: "FAILED \<in> launch_transitions (al_status x) \<longleftrightarrow> \<not> is_terminal x" for x
    by (cases "al_status x") (auto simp: is_terminal_def terminal_statuses_def)
  from mark_failed_move [OF t, of now i e] show ?thesis
    by (cases "mark_failed now i e t") (auto simp: guarded_move_def iff)
qed

theorem mark_failed_correct_witness:
  "\<exists>b t'. mark_failed 7 ''l1'' ''boom'' [launch_row (sample_launch QUARANTINED)] = (Inr b, t') \<and> b"
  using mark_failed_correct [OF launches_ok_single [OF sample_launch_valid], of 7 "''l1''" "''boom''" QUARANTINED]
  by (auto simp: registry_single is_terminal_def terminal_statuses_def)

text \<open>
  \<open>begin_termination\<close> succeeds exactly on an ACTIVE launch. The comment that says it also works
  from SPAWNING and RESERVED does not hold: the table has no such transition.
\<close>

theorem begin_termination_only_active:
  assumes t: "launches_ok t"
  shows "\<exists>b t'. begin_termination now i t = (Inr b, t')
    \<and> (b \<longleftrightarrow> (\<exists>x. registry t i = Some x \<and> al_status x = ACTIVE))
    \<and> registry t' = (if b then (registry t)(i \<mapsto> set_clause now TERMINATING TERMINATING no_update
          (the (registry t i))) else registry t)"
proof -
  have iff: "TERMINATING \<in> launch_transitions s \<longleftrightarrow> s = ACTIVE" for s by (cases s) auto
  from begin_termination_move [OF t, of now i] show ?thesis
    by (cases "begin_termination now i t") (auto simp: guarded_move_def iff)
qed

theorem begin_termination_only_active_witness:
  "\<exists>t'. begin_termination 7 ''l1'' [launch_row (sample_launch SPAWNING)] = (Inr False, t')"
  using begin_termination_only_active [OF launches_ok_single [OF sample_launch_valid], of 7 "''l1''" SPAWNING]
  by (auto simp: registry_single)

text \<open>
  \<open>reconcile_expired_leases\<close> answers and quarantines exactly the RESERVED and SPAWNING launches
  whose lease is over at the given time; no such launch is left, and no other changes.
\<close>

theorem reconcile_expired_correct:
  assumes t: "launches_ok t"
  shows "\<exists>xs t'. reconcile_expired_leases now_ms now t = (Inr xs, t')
    \<and> (\<forall>x. x \<in> set xs \<longleftrightarrow> registry t (al_id x) = Some x \<and> al_status x \<in> {RESERVED, SPAWNING}
          \<and> \<not> lease_is_valid now_ms x)
    \<and> registry t' = (\<lambda>i. case registry t i of None \<Rightarrow> None
          | Some x \<Rightarrow> Some (if x \<in> set xs then quarantined_now now lease_expired_reason x else x))
    \<and> list_expired_leases now_ms t' = Inr []"
proof -
  from list_expired_result [OF t, of now_ms] obtain xs where
    xs: "list_expired_leases now_ms t = Inr xs" "distinct (map al_id xs)"
    "\<forall>x. x \<in> set xs \<longleftrightarrow> registry t (al_id x) = Some x \<and> al_status x \<in> {RESERVED, SPAWNING}
          \<and> \<not> lease_is_valid now_ms x" by blast
  have "\<forall>x \<in> set xs. registry t (al_id x) = Some x \<and> al_status x \<in> {RESERVED, SPAWNING, ACTIVE}"
    using xs(3) by blast
  from quarantine_each_result [OF t xs(2) this, of now lease_expired_reason] obtain t' where
    t': "quarantine_each now lease_expired_reason xs t = (Inr xs, t')" "launches_ok t'"
      "registry t' = (\<lambda>i. case registry t i of None \<Rightarrow> None
        | Some x \<Rightarrow> Some (if x \<in> set xs then quarantined_now now lease_expired_reason x else x))" by blast
  from list_expired_result [OF t'(2), of now_ms] obtain ys where
    ys: "list_expired_leases now_ms t' = Inr ys"
    "\<forall>x. x \<in> set ys \<longleftrightarrow> registry t' (al_id x) = Some x \<and> al_status x \<in> {RESERVED, SPAWNING}
          \<and> \<not> lease_is_valid now_ms x" by blast
  have "x \<notin> set ys" for x
  proof
    assume x: "x \<in> set ys"
    then obtain z where z: "registry t (al_id x) = Some z"
      "x = (if z \<in> set xs then quarantined_now now lease_expired_reason z else z)"
      using ys(2) t'(3) by (auto split: option.splits)
    with x ys(2) have "x = z" "z \<notin> set xs" by (auto split: if_splits)
    with x z(1) ys(2) xs(3) show False by blast
  qed
  then have "ys = []" by (cases ys) auto
  with xs t' ys(1) show ?thesis by (auto simp: reconcile_expired_leases_def py_simps)
qed

theorem reconcile_expired_correct_witness:
  "\<exists>xs t'. reconcile_expired_leases 500 500 [launch_row (sample_launch SPAWNING)] = (Inr xs, t')
    \<and> sample_launch SPAWNING \<in> set xs \<and> list_expired_leases 500 t' = Inr []"
  using reconcile_expired_correct [OF launches_ok_single [OF sample_launch_valid], of 500 500 SPAWNING]
  by (auto simp: registry_single lease_is_valid_def)

text \<open>
  \<open>reconcile_lost_panes\<close> answers and quarantines exactly the ACTIVE launches whose pane tmux
  does not list; without tmux it does nothing.
\<close>

theorem reconcile_panes_correct:
  assumes t: "launches_ok t"
  shows "\<exists>xs t'. reconcile_lost_panes now tmux t = (Inr xs, t')
    \<and> (\<forall>x. x \<in> set xs \<longleftrightarrow> registry t (al_id x) = Some x \<and> al_status x = ACTIVE
          \<and> (\<exists>p alive. al_tmux_pane_id x = Some p \<and> get_alive_tmux_panes tmux = Some alive
                \<and> p \<notin> set alive))
    \<and> registry t' = (\<lambda>i. case registry t i of None \<Rightarrow> None
          | Some x \<Rightarrow> Some (if x \<in> set xs then quarantined_now now (\<lambda>_. ''pane_lost'') x else x))"
proof -
  from list_by_status_result [OF t, of ACTIVE] obtain ys where
    ys: "list_launches_by_status ACTIVE t = Inr ys" "distinct (map al_id ys)"
    "\<forall>x. x \<in> set ys \<longleftrightarrow> registry t (al_id x) = Some x \<and> al_status x = ACTIVE" by blast
  have same: "registry t = (\<lambda>i. case registry t i of None \<Rightarrow> None | Some x \<Rightarrow> Some x)"
    by (auto split: option.splits)
  let ?cs = "filter (\<lambda>x. al_tmux_pane_id x \<noteq> None) ys"
  show ?thesis
  proof (cases "?cs = [] \<or> get_alive_tmux_panes tmux = None")
    case True
    then have "reconcile_lost_panes now tmux t = (Inr [], t)"
      using ys(1) by (auto simp: reconcile_lost_panes_def py_simps Let_def)
    moreover have "\<not> (registry t (al_id x) = Some x \<and> al_status x = ACTIVE
          \<and> (\<exists>p alive. al_tmux_pane_id x = Some p \<and> get_alive_tmux_panes tmux = Some alive
                \<and> p \<notin> set alive))" for x
      using True ys(3) by (auto simp: filter_empty_conv)
    ultimately show ?thesis using same
      by (intro exI [where x = "[] :: agent_launch list"] exI [where x = "t :: launch_table"])
        (simp only: list.set empty_iff if_False simp_thms)
  next
    case False
    then obtain alive where alive: "get_alive_tmux_panes tmux = Some alive" by blast
    let ?xs = "filter (\<lambda>x. al_tmux_pane_id x \<notin> Some ` set alive) ?cs"
    have xs: "\<forall>x \<in> set ?xs. registry t (al_id x) = Some x \<and> al_status x \<in> {RESERVED, SPAWNING, ACTIVE}"
      using ys(3) by auto
    have dist: "distinct (map al_id ?xs)" using ys(2) by (simp add: distinct_map_filter)
    from quarantine_each_result [OF t dist xs, of now "\<lambda>_. ''pane_lost''"] obtain t' where
      t': "quarantine_each now (\<lambda>_. ''pane_lost'') ?xs t = (Inr ?xs, t')"
        "registry t' = (\<lambda>i. case registry t i of None \<Rightarrow> None
          | Some x \<Rightarrow> Some (if x \<in> set ?xs then quarantined_now now (\<lambda>_. ''pane_lost'') x else x))" by blast
    have "reconcile_lost_panes now tmux t = (Inr ?xs, t')"
      using False ys(1) alive t'(1) by (simp add: reconcile_lost_panes_def py_simps Let_def)
    moreover have "x \<in> set ?xs \<longleftrightarrow> registry t (al_id x) = Some x \<and> al_status x = ACTIVE
          \<and> (\<exists>p alive. al_tmux_pane_id x = Some p \<and> get_alive_tmux_panes tmux = Some alive
                \<and> p \<notin> set alive)" for x
      using alive ys(3) by (auto simp: image_iff)
    ultimately show ?thesis using t'(2) by blast
  qed
qed

theorem reconcile_panes_correct_witness:
  "\<exists>xs t'. reconcile_lost_panes 7 (Exited 0 ''%0'') [launch_row ((sample_launch ACTIVE)\<lparr>al_tmux_pane_id := Some ''%1''\<rparr>)]
      = (Inr xs, t') \<and> (sample_launch ACTIVE)\<lparr>al_tmux_pane_id := Some ''%1''\<rparr> \<in> set xs"
proof -
  let ?x = "(sample_launch ACTIVE)\<lparr>al_tmux_pane_id := Some ''%1''\<rparr>"
  have v: "valid_launch ?x" using sample_launch_valid [of ACTIVE] by (simp add: valid_launch_def)
  have alive: "get_alive_tmux_panes (Exited 0 ''%0'') = Some [''%0'']" by code_simp
  show ?thesis
    using reconcile_panes_correct [OF launches_ok_single [OF v], of 7 "Exited 0 ''%0''"] v
    by (auto simp: registry_single alive)
qed

text \<open>
  The lineage check accepts a parent exactly when it exists and the chain of ancestors that
  starts at it has fewer than sixteen launches, repeats none and has not the new id. It ends on
  every registry, one with a cycle included.
\<close>

theorem lineage_check_correct:
  assumes "launches_ok t"
  shows "\<exists>v m. validate_parent_launch_id p q t = Inr (v, m) \<and>
    (v \<longleftrightarrow> registry t p \<noteq> None \<and> length (lineage max_lineage_depth (registry t) (Some p)) < max_lineage_depth
        \<and> distinct (q # lineage max_lineage_depth (registry t) (Some p)))"
  using assms by (rule validate_parent_iff)

theorem lineage_check_correct_witness:
  "\<exists>m. validate_parent_launch_id ''l1'' ''l2'' [launch_row (sample_launch ACTIVE)] = Inr (True, m)"
  using lineage_check_correct [OF launches_ok_single [OF sample_launch_valid], of "''l1''" "''l2''" ACTIVE]
  by (auto simp: registry_single max_lineage_depth_def eval_nat_numeral)

text \<open>
  The claim checks the owner only when it reads the new row back, after the insert: a request
  with a valid key and an owner type outside the list answers an error, yet its row stays RESERVED,
  and from then on every request for the key answers an error and changes nothing. The row is
  invisible to \<open>reconcile_expired_leases\<close>, which skips rows that make no entity.
\<close>

theorem bad_owner_blocks_the_key:
  assumes t: "launches_ok t" and key: "canonical_key_matches (rq_key rq)"
    and owner: "rq_owner_type rq \<notin> set valid_owner_types"
    and fresh: "registry t uid = None" and root: "rq_parent rq = None"
    and free: "\<And>j y. registry t j = Some y \<Longrightarrow> al_key y = rq_key rq \<Longrightarrow> \<not> is_blocking y"
  shows "\<exists>a row. request_launch d clk uid rq t = (Inr a, t @ [row]) \<and> la_decision a = Error
    \<and> al_key row = rq_key rq \<and> indexed row
    \<and> (\<forall>d2 clk2 uid2 rq2. rq_key rq2 = rq_key rq \<longrightarrow>
        (\<exists>b. request_launch d2 clk2 uid2 rq2 (t @ [row]) = (Inr b, t @ [row]) \<and> la_decision b = Error))
    \<and> (\<exists>xs. list_expired_leases now (t @ [row]) = Inr xs \<and> uid \<notin> al_id ` set xs)"
proof -
  let ?x = "requested_launch d clk uid rq"
  let ?t = "t @ [launch_row ?x]"
  have bad: "\<not> valid_launch ?x"
    using owner by (simp add: valid_launch_def requested_launch_def claimed_launch_def)
  then obtain m where m: "row_to_launch (launch_row ?x) = Inl (ValueError m)"
    using make_launch_err row_to_launch_make by metis
  have fl: "in_flight ?x" by (simp add: in_flight_def)
  have ne: "rq_key rq \<noteq> []" using key by (auto simp: canonical_key_matches_def)
  have nf: "\<not> key_in_flight (rq_key rq) t"
    using free by (fastforce simp: key_in_flight_def in_flight_def is_blocking_def blocking_statuses_def)
  have none: "find_active_by_canonical_key (rq_key rq) t = Inr None"
    using find_active_result [OF t, of "rq_key rq"] free by blast
  have blank: "filter (blocks_key (rq_key rq)) t = []"
  proof (rule ccontr)
    assume "filter (blocks_key (rq_key rq)) t \<noteq> []"
    then obtain r where r: "r \<in> set t" "blocks_key (rq_key rq) r" by (auto simp: filter_empty_conv)
    obtain z where z: "valid_launch z" "r = launch_row z" using launches_okD [OF t r(1)] by blast
    with r free row_registry [OF t z(1)] show False by auto
  qed
  have idx: "index_ok ?t" using index_ok_append [OF t fl] nf by simp
  have hit: "\<not> rows_hit (\<lambda>r. al_id r = uid) t" using rows_hit_registry [OF t] fresh by simp
  have reread: "get_by_launch_id uid ?t = Inl (ValueError m)"
    using hit m by (auto simp: get_by_launch_id_def lookup_row_def find_append find_None_iff rows_hit_iff
        split: option.splits dest: find_Some_set)
  have first: "\<exists>a. request_launch d clk uid rq t = (Inr a, ?t) \<and> la_decision a = Error"
  proof -
    have "claim (rc_claim clk) uid (rq_key rq) (rq_surface rq) (rq_owner_type rq) (rq_owner_id rq)
        (rc_lease clk + d) (Some (effective_role rq)) (rq_parent rq) (rq_model rq) t
      = (Inl (ValueError m), ?t)"
      unfolding claim_row requested_launch_def [symmetric] Let_def using ne hit idx reread root by simp
    with none root show ?thesis
      by (simp add: request_launch_def py_catch_def request_body_def validate_and_claim_def
          attempt_claim_def py_simps)
  qed
  have "blocks_key (rq_key rq) (launch_row ?x)" by (simp add: is_blocking_def blocking_statuses_def)
  then have "filter (blocks_key (rq_key rq)) ?t = [launch_row ?x]" using blank by simp
  then have stuck: "find_active_by_canonical_key (rq_key rq) ?t = Inl (ValueError m)"
    using m by (simp add: find_active_by_canonical_key_def order_desc_def)
  have later: "\<exists>b. request_launch d2 clk2 uid2 rq2 ?t = (Inr b, ?t) \<and> la_decision b = Error"
    if "rq_key rq2 = rq_key rq" for d2 clk2 uid2 rq2
    using stuck that by (simp add: request_launch_def py_catch_def request_body_def py_simps)
  have skip: "is_value_or_type_error e" if "r \<in> set ?t" "row_to_launch r = Inl e" for r e
  proof (cases "r = launch_row ?x")
    case True
    with m that(2) show ?thesis by (auto)
  next
    case False
    with that(1) obtain z where "valid_launch z" "r = launch_row z" using launches_okD [OF t] by auto
    with that(2) show ?thesis by simp
  qed
  let ?rs = "order_asc al_lease_expires_at (filter (lease_expired now) ?t)"
  have sub: "set ?rs \<subseteq> set ?t" by (simp only: set_order_asc set_filter) blast
  have "\<exists>xs. list_expired_leases now ?t = Inr xs \<and> (\<forall>x \<in> set xs. \<exists>r \<in> set ?rs. row_to_launch r = Inr x)"
    unfolding list_expired_leases_def by (rule traverse_skip_total) (use skip sub in blast)
  with sub obtain xs where xs: "list_expired_leases now ?t = Inr xs"
    "\<forall>x \<in> set xs. \<exists>r \<in> set ?t. row_to_launch r = Inr x" by blast
  have "al_id x \<noteq> uid" if x: "x \<in> set xs" for x
  proof -
    from xs(2) x obtain r where r: "r \<in> set ?t" "row_to_launch r = Inr x" by blast
    with m have "r \<noteq> launch_row ?x" by auto
    with r obtain z where z: "valid_launch z" "r = launch_row z" "r \<in> set t"
      using launches_okD [OF t] by auto
    with r(2) have "z = x" by simp
    with z row_registry [OF t] fresh show ?thesis by auto
  qed
  then have "uid \<notin> al_id ` set xs" by blast
  moreover have "al_key (launch_row ?x) = rq_key rq" "indexed (launch_row ?x)" using fl by simp_all
  ultimately show ?thesis using first later xs(1) by blast
qed

theorem bad_owner_blocks_the_key_witness:
  "\<exists>a row. request_launch 100 (sample_clock 50) ''l2'' (sample_request\<lparr>rq_owner_type := ''pod''\<rparr>) []
      = (Inr a, [] @ [row]) \<and> la_decision a = Error \<and> indexed row"
proof -
  let ?rq = "sample_request\<lparr>rq_owner_type := ''pod''\<rparr>"
  have "canonical_key_matches (rq_key ?rq)" "rq_owner_type ?rq \<notin> set valid_owner_types"
    "registry [] ''l2'' = None" "rq_parent ?rq = None" by code_simp+
  from bad_owner_blocks_the_key [OF launches_ok_Nil this, of 100 "sample_clock 50" 500]
  show ?thesis by (auto simp: registry_def get_by_launch_id_def lookup_row_def simp del: append_Nil)
qed

end
