(* ===== verification/Poll_Run.thy ===== *)
theory Poll_Run
  imports Lifecycle
begin

text \<open>
  The poll run entity (src/domain/entities/poll_run.py): its statuses with their transition table,
  its checks and the transition test.
\<close>

datatype poll_status =
    Queued | Spawning | Running | Terminating | Quarantined | Completed | Failed | Cancelled

fun poll_status_value :: "poll_status \<Rightarrow> string" where
  "poll_status_value Queued = ''QUEUED''"
| "poll_status_value Spawning = ''SPAWNING''"
| "poll_status_value Running = ''RUNNING''"
| "poll_status_value Terminating = ''TERMINATING''"
| "poll_status_value Quarantined = ''QUARANTINED''"
| "poll_status_value Completed = ''COMPLETED''"
| "poll_status_value Failed = ''FAILED''"
| "poll_status_value Cancelled = ''CANCELLED''"

fun poll_transitions :: "poll_status \<Rightarrow> poll_status set" where
  "poll_transitions Queued = {Spawning, Cancelled, Quarantined}"
| "poll_transitions Spawning = {Running, Quarantined, Failed, Cancelled}"
| "poll_transitions Running = {Terminating, Completed, Failed, Cancelled}"
| "poll_transitions Terminating = {Completed, Failed, Cancelled}"
| "poll_transitions Quarantined = {Cancelled}"
| "poll_transitions Completed = {}"
| "poll_transitions Failed = {}"
| "poll_transitions Cancelled = {}"

definition poll_status_of :: "string \<Rightarrow> poll_status option" where
  "poll_status_of s = find (\<lambda>st. poll_status_value st = s)
     [Queued, Spawning, Running, Terminating, Quarantined, Completed, Failed, Cancelled]"

lemma poll_status_value_inj [simp]: "poll_status_value a = poll_status_value b \<longleftrightarrow> a = b"
  by (cases a; cases b) simp_all

lemma poll_status_of_value [simp]: "poll_status_of (poll_status_value s) = Some s"
  by (cases s) (simp_all add: poll_status_of_def)

definition poll_terminal :: "poll_status set" where
  "poll_terminal = {Completed, Failed, Cancelled}"

fun poll_rank :: "poll_status \<Rightarrow> nat" where
  "poll_rank Queued = 0"
| "poll_rank Spawning = 1"
| "poll_rank Running = 2"
| "poll_rank Terminating = 3"
| "poll_rank Quarantined = 3"
| "poll_rank Completed = 4"
| "poll_rank Failed = 4"
| "poll_rank Cancelled = 4"

interpretation poll_life: ranked_lifecycle poll_transitions poll_terminal poll_rank 4
proof
  fix s show "s \<in> poll_terminal \<longleftrightarrow> poll_transitions s = {}"
    by (cases s) (auto simp: poll_terminal_def)
next
  fix a b show "b \<in> poll_transitions a \<Longrightarrow> poll_rank a < poll_rank b" by (cases a) auto
next
  fix a show "poll_rank a \<le> 4" by (cases a) auto
qed

record 'st poll_fields =
  pr_id :: string
  pr_task_id :: string
  pr_agent_name :: string
  pr_status :: 'st
  pr_started_at :: "int option"
  pr_ended_at :: "int option"
  pr_run_dir :: "string option"
  pr_error :: "string option"
  pr_launch_method :: "string option"
  pr_launch_pane_id :: "string option"
  pr_launch_pid :: "int option"
  pr_launch_pgid :: "int option"
  pr_launch_recorded_at :: "int option"
  pr_canonical_key :: "string option"
  pr_launch_id :: "string option"

type_synonym poll_run = "poll_status poll_fields"

definition negative :: "int option \<Rightarrow> bool" where
  "negative x = (case x of None \<Rightarrow> False | Some i \<Rightarrow> i < 0)"

text \<open>\<open>__post_init__\<close>: the first failed check raises.\<close>

definition make_poll_run :: "poll_run \<Rightarrow> poll_run result" where
  "make_poll_run x =
     (if pr_id x = [] then Inl (ValueError ''id must be a non-empty string'')
      else if pr_task_id x = [] then Inl (ValueError ''task_id must be a non-empty string'')
      else if pr_agent_name x = [] then Inl (ValueError ''agent_name must be a non-empty string'')
      else if negative (pr_started_at x) then Inl (ValueError ''started_at must be non-negative'')
      else if negative (pr_ended_at x) then Inl (ValueError ''ended_at must be non-negative'')
      else if negative (pr_launch_pid x) then Inl (ValueError ''launch_pid must be non-negative'')
      else if negative (pr_launch_pgid x) then Inl (ValueError ''launch_pgid must be non-negative'')
      else if negative (pr_launch_recorded_at x)
        then Inl (ValueError ''launch_recorded_at must be non-negative'')
      else if (case pr_launch_id x of None \<Rightarrow> False | Some l \<Rightarrow> py_strip l = [])
        then Inl (ValueError ''launch_id must be a non-empty string when provided'')
      else Inr x)"

definition valid_poll_run :: "poll_run \<Rightarrow> bool" where
  "valid_poll_run x \<longleftrightarrow> pr_id x \<noteq> [] \<and> pr_task_id x \<noteq> [] \<and> pr_agent_name x \<noteq> []
     \<and> \<not> negative (pr_started_at x) \<and> \<not> negative (pr_ended_at x) \<and> \<not> negative (pr_launch_pid x)
     \<and> \<not> negative (pr_launch_pgid x) \<and> \<not> negative (pr_launch_recorded_at x)
     \<and> (\<forall>l. pr_launch_id x = Some l \<longrightarrow> py_strip l \<noteq> [])"

definition poll_can_transition_to :: "poll_run \<Rightarrow> poll_status \<Rightarrow> bool" where
  "poll_can_transition_to x target \<longleftrightarrow> target \<in> poll_transitions (pr_status x)"

lemma make_poll_run_Inr: "make_poll_run x = Inr y \<longleftrightarrow> valid_poll_run x \<and> y = x"
  by (auto simp: make_poll_run_def valid_poll_run_def split: if_splits option.splits)

lemma make_poll_run_valid [simp]: "valid_poll_run x \<Longrightarrow> make_poll_run x = Inr x"
  by (simp add: make_poll_run_Inr)

end
