(* ===== verification/Poll_Repository.thy ===== *)
theory Poll_Repository
  imports Poll_Run Sql_Table
begin

text \<open>
  SqlitePollRunRepository (src/infrastructure/persistence/repositories/poll_run_repository.py) on
  the table \<open>poll_runs\<close> with its primary key and the partial unique index of its migrations: one
  row per task in the statuses QUEUED and RUNNING. The reference of \<open>launch_id\<close> to the launch
  registry is not modelled; the service stores only ids the registry has just given it.
\<close>

section \<open>Rows and constraints\<close>

type_synonym poll_row = "string poll_fields"
type_synonym poll_table = "poll_row list"

definition row_to_run :: "poll_row \<Rightarrow> poll_run result" where
  "row_to_run r =
     (case poll_status_of (pr_status r) of
        None \<Rightarrow> Inl (RepositoryError (''Invalid status '' @ quoted (pr_status r)
                  @ '' for poll run '' @ quoted (pr_id r)))
      | Some st \<Rightarrow> make_poll_run
          \<lparr>pr_id = pr_id r, pr_task_id = pr_task_id r, pr_agent_name = pr_agent_name r,
           pr_status = st, pr_started_at = pr_started_at r, pr_ended_at = pr_ended_at r,
           pr_run_dir = pr_run_dir r, pr_error = pr_error r,
           pr_launch_method = pr_launch_method r, pr_launch_pane_id = pr_launch_pane_id r,
           pr_launch_pid = pr_launch_pid r, pr_launch_pgid = pr_launch_pgid r,
           pr_launch_recorded_at = pr_launch_recorded_at r,
           pr_canonical_key = pr_canonical_key r, pr_launch_id = pr_launch_id r\<rparr>)"

definition run_row :: "poll_run \<Rightarrow> poll_row" where
  "run_row x =
     \<lparr>pr_id = pr_id x, pr_task_id = pr_task_id x, pr_agent_name = pr_agent_name x,
      pr_status = poll_status_value (pr_status x), pr_started_at = pr_started_at x,
      pr_ended_at = pr_ended_at x, pr_run_dir = pr_run_dir x, pr_error = pr_error x,
      pr_launch_method = pr_launch_method x, pr_launch_pane_id = pr_launch_pane_id x,
      pr_launch_pid = pr_launch_pid x, pr_launch_pgid = pr_launch_pgid x,
      pr_launch_recorded_at = pr_launch_recorded_at x,
      pr_canonical_key = pr_canonical_key x, pr_launch_id = pr_launch_id x\<rparr>"

text \<open>\<open>idx_poll_runs_unique_active_task\<close> and its \<open>WHERE\<close> clause.\<close>

definition poll_indexed :: "poll_row \<Rightarrow> bool" where
  "poll_indexed r \<longleftrightarrow> pr_status r \<in> {''QUEUED'', ''RUNNING''}"

definition poll_index_ok :: "poll_table \<Rightarrow> bool" where
  "poll_index_ok t \<longleftrightarrow> distinct (map pr_task_id (filter poll_indexed t))"

section \<open>Operations\<close>

text \<open>
  \<open>INSERT OR REPLACE\<close> deletes every row that a unique constraint sets against the new one, by the
  primary key or by the index, before it inserts.
\<close>

definition replaced_by :: "poll_row \<Rightarrow> poll_row \<Rightarrow> bool" where
  "replaced_by new r \<longleftrightarrow> pr_id r = pr_id new
     \<or> (poll_indexed new \<and> poll_indexed r \<and> pr_task_id r = pr_task_id new)"

definition save_run :: "poll_run \<Rightarrow> (poll_table, unit) py" where
  "save_run x t = (Inr (), delete_where (replaced_by (run_row x)) t @ [run_row x])"

definition get_run :: "string \<Rightarrow> poll_table \<Rightarrow> poll_run option result" where
  "get_run i t =
     (case lookup_row pr_id i t of
        None \<Rightarrow> Inr None
      | Some r \<Rightarrow> res_bind (row_to_run r) (\<lambda>x. Inr (Some x)))"

definition list_runs :: "(poll_row \<Rightarrow> bool) \<Rightarrow> poll_table \<Rightarrow> poll_run list result" where
  "list_runs p t = traverse row_to_run (order_desc pr_started_at (filter p t))"

definition list_runs_by_status :: "poll_status \<Rightarrow> poll_table \<Rightarrow> poll_run list result" where
  "list_runs_by_status st = list_runs (\<lambda>r. pr_status r = poll_status_value st)"

definition active_row :: "poll_row \<Rightarrow> bool" where
  "active_row r \<longleftrightarrow> pr_status r \<in> {''QUEUED'', ''SPAWNING'', ''RUNNING'', ''TERMINATING''}"

definition list_active_runs :: "poll_table \<Rightarrow> poll_run list result" where
  "list_active_runs = list_runs active_row"

definition blocking_row :: "poll_row \<Rightarrow> bool" where
  "blocking_row r \<longleftrightarrow>
     pr_status r \<in> {''QUEUED'', ''SPAWNING'', ''RUNNING'', ''TERMINATING'', ''QUARANTINED''}"

definition list_launch_blocking :: "poll_table \<Rightarrow> poll_run list result" where
  "list_launch_blocking = list_runs blocking_row"

text \<open>The two \<open>UPDATE\<close> statements of \<open>update_status\<close>, given the value of the status column.\<close>

definition status_update :: "int \<Rightarrow> poll_status \<Rightarrow> 'st \<Rightarrow> string option \<Rightarrow> 'st poll_fields \<Rightarrow> 'st poll_fields" where
  "status_update now new v error r =
     (if new \<in> poll_terminal
      then r\<lparr>pr_status := v, pr_ended_at := Some now, pr_error := error\<rparr>
      else r\<lparr>pr_status := v, pr_started_at := Some now, pr_error := error\<rparr>)"

definition update_run_status ::
  "int \<Rightarrow> string \<Rightarrow> poll_status \<Rightarrow> string option \<Rightarrow> (poll_table, unit) py" where
  "update_run_status now i new error =
     py_bind (py_read (get_run i)) (\<lambda>current.
       if (case current of None \<Rightarrow> False | Some x \<Rightarrow> \<not> poll_can_transition_to x new)
       then py_raise (ValueError (''Invalid poll run transition: ''
              @ (case current of None \<Rightarrow> [] | Some x \<Rightarrow> poll_status_value (pr_status x))
              @ '' -> '' @ poll_status_value new @ '' for run '' @ i))
       else (\<lambda>t. let t' = update_where (\<lambda>r. pr_id r = i)
                            (status_update now new (poll_status_value new) error) t
                 in if poll_index_ok t' then (Inr (), t')
                    else (Inl (RepositoryError ''Failed to update poll run status: UNIQUE constraint failed''), t)))"

definition cas_status_update ::
  "int \<Rightarrow> poll_status \<Rightarrow> 'st \<Rightarrow> string option \<Rightarrow> int option \<Rightarrow> 'st poll_fields \<Rightarrow> 'st poll_fields" where
  "cas_status_update now new v error started r =
     (let s = (case started of Some a \<Rightarrow> a | None \<Rightarrow> now);
          kept = (case pr_started_at r of Some a \<Rightarrow> Some a | None \<Rightarrow> Some s)
      in if new \<in> poll_terminal
         then r\<lparr>pr_status := v, pr_ended_at := Some now, pr_error := error, pr_started_at := kept\<rparr>
         else r\<lparr>pr_status := v, pr_started_at := kept\<rparr>)"

definition cas_run_status ::
  "int \<Rightarrow> string \<Rightarrow> poll_status \<Rightarrow> poll_status \<Rightarrow> string option \<Rightarrow> int option \<Rightarrow> (poll_table, bool) py" where
  "cas_run_status now i expected new error started t =
     (let p = (\<lambda>r. pr_id r = i \<and> pr_status r = poll_status_value expected);
          t' = update_where p (cas_status_update now new (poll_status_value new) error started) t
      in if poll_index_ok t' then (Inr (rows_hit p t), t')
         else (Inl (RepositoryError ''Failed to CAS update poll run status: UNIQUE constraint failed''), t))"

definition count_runs_by_status :: "poll_table \<Rightarrow> (string \<times> nat) list" where
  "count_runs_by_status t =
     map (\<lambda>s. (s, length (filter (\<lambda>r. pr_status r = s) t))) (remdups (map pr_status t))"

definition record_launch_metadata ::
  "int \<Rightarrow> string \<Rightarrow> string \<Rightarrow> string option \<Rightarrow> int option \<Rightarrow> int option \<Rightarrow> string option
     \<Rightarrow> (poll_table, bool) py" where
  "record_launch_metadata now i launch_method pane pid pgid launch_id t =
     (Inr (rows_hit (\<lambda>r. pr_id r = i) t),
      update_where (\<lambda>r. pr_id r = i)
        (\<lambda>r. r\<lparr>pr_launch_method := Some launch_method, pr_launch_pane_id := pane,
              pr_launch_pid := pid, pr_launch_pgid := pgid, pr_launch_recorded_at := Some now,
              pr_launch_id := (case launch_id of None \<Rightarrow> pr_launch_id r | Some l \<Rightarrow> Some l)\<rparr>) t)"

definition remove_run :: "string \<Rightarrow> (poll_table, unit) py" where
  "remove_run i t = (Inr (), delete_where (\<lambda>r. pr_id r = i) t)"

section \<open>What the database keeps\<close>

definition polls_ok :: "poll_table \<Rightarrow> bool" where
  "polls_ok t \<longleftrightarrow> pk_ok pr_id t \<and> poll_index_ok t"

lemma status_update_fields [simp]:
  "pr_id (status_update now new v e r) = pr_id r" "pr_task_id (status_update now new v e r) = pr_task_id r"
  "pr_status (status_update now new v e r) = v"
  "pr_launch_id (status_update now new v e r) = pr_launch_id r"
  "pr_canonical_key (status_update now new v e r) = pr_canonical_key r"
  "pr_launch_method (status_update now new v e r) = pr_launch_method r"
  by (simp_all add: status_update_def)

lemma cas_status_update_fields [simp]:
  "pr_id (cas_status_update now new v e s r) = pr_id r"
  "pr_task_id (cas_status_update now new v e s r) = pr_task_id r"
  "pr_status (cas_status_update now new v e s r) = v"
  by (simp_all add: cas_status_update_def Let_def)

lemma polls_ok_Nil [simp]: "polls_ok []"
  by (simp add: polls_ok_def pk_ok_def poll_index_ok_def)

lemma distinct_key_delete:
  "distinct (map key (filter P t)) \<Longrightarrow> distinct (map key (filter P (delete_where q t)))"
  by (induction t) (auto simp: delete_where_def)

lemma preserves_save_run [preserves_rules]: "preserves polls_ok (save_run x)"
proof
  fix t assume ok: "polls_ok t"
  let ?d = "delete_where (replaced_by (run_row x)) t"
  have ids: "pr_id (run_row x) \<notin> pr_id ` set ?d" by (auto simp: delete_where_def replaced_by_def)
  have "pk_ok pr_id (?d @ [run_row x])"
    using ok ids by (intro pk_ok_append1 pk_ok_delete_where) (simp_all add: polls_ok_def)
  moreover have "distinct (map pr_task_id (filter poll_indexed ?d))"
    using ok distinct_key_delete by (auto simp: polls_ok_def poll_index_ok_def)
  then have "poll_index_ok (?d @ [run_row x])"
    by (auto simp: poll_index_ok_def delete_where_def replaced_by_def)
  ultimately show "polls_ok (snd (save_run x t))" by (simp add: save_run_def polls_ok_def)
qed

lemma preserves_update_run [preserves_rules]: "preserves polls_ok (update_run_status now i new e)"
  unfolding update_run_status_def
  by (intro preserves_rules, rule preservesI)
    (auto simp: polls_ok_def Let_def pk_ok_update_where)

lemma preserves_cas_run [preserves_rules]: "preserves polls_ok (cas_run_status now i s new e st)"
  by (rule preservesI) (auto simp: polls_ok_def cas_run_status_def Let_def pk_ok_update_where)

lemma poll_index_update:
  assumes "\<And>r. pr_task_id (f r) = pr_task_id r" and "\<And>r. pr_status (f r) = pr_status r"
  shows "poll_index_ok (update_where p f t) = poll_index_ok t"
proof -
  have "map pr_task_id (filter poll_indexed (update_where p f t)) = map pr_task_id (filter poll_indexed t)"
    using assms by (induction t) (auto simp: update_where_def poll_indexed_def)
  then show ?thesis by (simp add: poll_index_ok_def)
qed

lemma preserves_record_launch [preserves_rules]:
  "preserves polls_ok (record_launch_metadata now i m pane pid pgid l)"
  by (rule preservesI)
    (auto simp: polls_ok_def record_launch_metadata_def pk_ok_update_where poll_index_update)

lemma preserves_remove_run [preserves_rules]: "preserves polls_ok (remove_run i)"
  by (rule preservesI)
    (auto simp: polls_ok_def remove_run_def pk_ok_delete_where poll_index_ok_def distinct_key_delete)

section \<open>The table as a map from ids to runs\<close>

definition runs_ok :: "poll_table \<Rightarrow> bool" where
  "runs_ok t \<longleftrightarrow> polls_ok t \<and> (\<forall>r \<in> set t. \<exists>x. valid_poll_run x \<and> r = run_row x)"

definition run_map :: "poll_table \<Rightarrow> string \<Rightarrow> poll_run option" where
  "run_map t i = (case get_run i t of Inr (Some x) \<Rightarrow> Some x | _ \<Rightarrow> None)"

lemma run_row_fields [simp]:
  "pr_id (run_row x) = pr_id x" "pr_task_id (run_row x) = pr_task_id x"
  "pr_status (run_row x) = poll_status_value (pr_status x)"
  "pr_started_at (run_row x) = pr_started_at x"
  by (simp_all add: run_row_def)

lemma row_to_run_row [simp]: "valid_poll_run x \<Longrightarrow> row_to_run (run_row x) = Inr x"
  by (cases x) (simp add: row_to_run_def run_row_def)

lemma run_row_inj [simp]: "run_row x = run_row y \<longleftrightarrow> x = y"
  by (cases x; cases y) (simp add: run_row_def)

lemma poll_indexed_row [simp]: "poll_indexed (run_row x) \<longleftrightarrow> pr_status x \<in> {Queued, Running}"
  by (cases "pr_status x") (simp_all add: poll_indexed_def)

lemma blocking_row_row [simp]: "blocking_row (run_row x) \<longleftrightarrow> pr_status x \<notin> poll_terminal"
  by (cases "pr_status x") (simp_all add: blocking_row_def poll_terminal_def)

lemma status_update_row:
  "status_update now new (poll_status_value new) e (run_row x) = run_row (status_update now new new e x)"
  by (simp add: status_update_def run_row_def)

lemma cas_status_update_row:
  "cas_status_update now new (poll_status_value new) e st (run_row x)
     = run_row (cas_status_update now new new e st x)"
  by (simp add: cas_status_update_def run_row_def Let_def)

lemma status_update_valid: "valid_poll_run x \<Longrightarrow> 0 \<le> now \<Longrightarrow> valid_poll_run (status_update now new v e x)"
  by (simp add: valid_poll_run_def status_update_def negative_def)

lemma cas_status_update_valid:
  "valid_poll_run x \<Longrightarrow> 0 \<le> now \<Longrightarrow> \<not> negative st \<Longrightarrow> valid_poll_run (cas_status_update now new v e st x)"
  by (auto simp: valid_poll_run_def cas_status_update_def negative_def Let_def split: option.splits)

lemma runs_okD: "runs_ok t \<Longrightarrow> r \<in> set t \<Longrightarrow> \<exists>x. valid_poll_run x \<and> r = run_row x"
  by (simp add: runs_ok_def)

lemma runs_ok_pk: "runs_ok t \<Longrightarrow> pk_ok pr_id t"
  by (simp add: runs_ok_def polls_ok_def)

lemma get_run_map: "runs_ok t \<Longrightarrow> get_run i t = Inr (run_map t i)"
  by (auto simp: run_map_def get_run_def split: option.splits dest!: lookup_row_Some runs_okD)

lemma run_map_Some_iff:
  assumes "runs_ok t"
  shows "run_map t i = Some x \<longleftrightarrow> valid_poll_run x \<and> pr_id x = i \<and> run_row x \<in> set t"
proof
  assume "run_map t i = Some x"
  with assms get_run_map [OF assms, of i] obtain r where
    r: "lookup_row pr_id i t = Some r" "row_to_run r = Inr x"
    by (auto simp: get_run_def res_bind_Inr_iff split: option.splits)
  then have "r \<in> set t" "pr_id r = i" by (auto dest: lookup_row_Some)
  with runs_okD [OF assms] r(2)
  show "valid_poll_run x \<and> pr_id x = i \<and> run_row x \<in> set t" by fastforce
next
  assume x: "valid_poll_run x \<and> pr_id x = i \<and> run_row x \<in> set t"
  with assms have "lookup_row pr_id i t = Some (run_row x)"
    by (simp add: lookup_row_iff runs_ok_pk)
  with x show "run_map t i = Some x" by (simp add: run_map_def get_run_def)
qed

lemma save_run_result:
  assumes t: "runs_ok t" and x: "valid_poll_run x"
  shows "\<exists>t'. save_run x t = (Inr (), t') \<and> runs_ok t' \<and> run_map t' (pr_id x) = Some x"
proof -
  let ?t = "snd (save_run x t)"
  have "polls_ok ?t" using preservesD [OF preserves_save_run] t by (simp add: runs_ok_def)
  moreover have "\<forall>r \<in> set ?t. \<exists>z. valid_poll_run z \<and> r = run_row z"
    using runs_okD [OF t] x by (auto simp: save_run_def delete_where_def)
  ultimately have ok: "runs_ok ?t" by (simp add: runs_ok_def)
  have "run_map ?t (pr_id x) = Some x"
    using x by (simp add: run_map_Some_iff [OF ok]) (simp add: save_run_def)
  with ok show ?thesis by (simp add: save_run_def)
qed

text \<open>An update of one row by its primary key, when the index accepts the new table.\<close>

lemma update_one_run:
  assumes t: "runs_ok t" and x: "run_map t i = Some x"
    and p: "\<And>r. r \<in> set t \<Longrightarrow> p r \<longleftrightarrow> pr_id r = i"
    and f: "f (run_row x) = run_row y" and y: "valid_poll_run y" "pr_id y = i"
    and idx: "poll_index_ok (update_where p f t)"
  shows "runs_ok (update_where p f t) \<and> run_map (update_where p f t) = (run_map t)(i \<mapsto> y)"
proof -
  let ?t = "update_where p f t"
  have x': "valid_poll_run x" "pr_id x = i" "run_row x \<in> set t" using x run_map_Some_iff [OF t] by auto
  have rep: "(if p r then f r else r) = (if r = run_row x then run_row y else r)" if r: "r \<in> set t" for r
  proof (cases "pr_id r = i")
    case True
    with pk_unique [OF runs_ok_pk [OF t] r x'(3)] x'(2) have "r = run_row x" by simp
    with True p [OF r] f show ?thesis by simp
  next
    case False
    with p [OF r] x'(2) show ?thesis by auto
  qed
  then have map_eq: "?t = map (\<lambda>r. if r = run_row x then run_row y else r) t"
    by (simp add: update_where_def)
  have set: "set ?t = insert (run_row y) (set t - {run_row x})"
    unfolding map_eq using x'(3) by auto
  have "map pr_id ?t = map pr_id t" unfolding map_eq using x'(2) y(2) by simp
  then have "pk_ok pr_id ?t" using runs_ok_pk [OF t] by (simp add: pk_ok_def)
  with idx have "polls_ok ?t" by (simp add: polls_ok_def)
  moreover have "\<forall>r \<in> set ?t. \<exists>z. valid_poll_run z \<and> r = run_row z"
    unfolding set using runs_okD [OF t] y(1) by auto
  ultimately have ok: "runs_ok ?t" by (simp add: runs_ok_def)
  have "run_map ?t j = ((run_map t)(i \<mapsto> y)) j" for j
  proof (rule option_eqI)
    fix z show "run_map ?t j = Some z \<longleftrightarrow> ((run_map t)(i \<mapsto> y)) j = Some z"
    proof (cases "j = i")
      case True
      have "run_map ?t i = Some y" using y by (simp add: run_map_Some_iff [OF ok] set)
      with True show ?thesis by simp
    next
      case False
      with x'(2) y(2) show ?thesis by (auto simp: run_map_Some_iff [OF ok] run_map_Some_iff [OF t] set)
    qed
  qed
  with ok show ?thesis by auto
qed

text \<open>The index is no obstacle to a status it does not cover.\<close>

lemma index_after_update:
  assumes t: "poll_index_ok t" and out: "\<And>r. \<not> poll_indexed (f r)"
  shows "poll_index_ok (update_where p f t)"
proof -
  have "filter poll_indexed (update_where p f t) = filter poll_indexed (filter (\<lambda>r. \<not> p r) t)"
    using out by (induction t) (auto simp: update_where_def)
  then have "filter poll_indexed (update_where p f t) = filter (\<lambda>r. \<not> p r) (filter poll_indexed t)"
    by (simp add: conj_commute)
  moreover have "distinct (map pr_task_id (filter (\<lambda>r. \<not> p r) (filter poll_indexed t)))"
    using t unfolding poll_index_ok_def by (rule distinct_map_filter)
  ultimately show ?thesis unfolding poll_index_ok_def by (simp only:)
qed

lemma update_run_hit:
  assumes t: "runs_ok t" and x: "run_map t i = Some x" and tr: "new \<in> poll_transitions (pr_status x)"
    and now: "0 \<le> now"
    and idx: "poll_index_ok (update_where (\<lambda>r. pr_id r = i) (status_update now new (poll_status_value new) e) t)"
  shows "\<exists>t'. update_run_status now i new e t = (Inr (), t') \<and> runs_ok t'
           \<and> run_map t' = (run_map t)(i \<mapsto> status_update now new new e x)"
proof -
  have "valid_poll_run x" "pr_id x = i" using x run_map_Some_iff [OF t] by auto
  with update_one_run [OF t x _ status_update_row _ _ idx] now status_update_valid x tr idx
  show ?thesis
    by (simp add: update_run_status_def py_simps get_run_map [OF t] poll_can_transition_to_def Let_def)
qed

lemma update_run_leaves_index:
  assumes t: "runs_ok t" and x: "run_map t i = Some x" and tr: "new \<in> poll_transitions (pr_status x)"
    and now: "0 \<le> now" and new: "new \<notin> {Queued, Running}"
  shows "\<exists>t'. update_run_status now i new e t = (Inr (), t') \<and> runs_ok t'
           \<and> run_map t' = (run_map t)(i \<mapsto> status_update now new new e x)"
proof (rule update_run_hit [OF t x tr now])
  have "poll_index_ok t" using t by (simp add: runs_ok_def polls_ok_def)
  moreover have "\<not> poll_indexed (status_update now new (poll_status_value new) e r)" for r
    using new by (cases new) (auto simp: poll_indexed_def)
  ultimately show "poll_index_ok (update_where (\<lambda>r. pr_id r = i)
      (status_update now new (poll_status_value new) e) t)"
    by (rule index_after_update)
qed

lemma update_run_refused:
  assumes "runs_ok t" and "run_map t i = Some x" and "new \<notin> poll_transitions (pr_status x)"
  shows "\<exists>m. update_run_status now i new e t = (Inl (ValueError m), t)"
  using assms
  by (simp add: update_run_status_def py_simps get_run_map poll_can_transition_to_def)

text \<open>\<open>cas_update_status\<close> is a compare-and-set on this map.\<close>

interpretation run_cas: cas_store run_map pr_status
    "\<lambda>(now, new, e, st) x. cas_status_update now new new e st x"
    "\<lambda>k s (now, new, e, st) t. 0 \<le> now \<and> \<not> negative st \<and>
       poll_index_ok (update_where (\<lambda>r. pr_id r = k \<and> pr_status r = poll_status_value s)
         (cas_status_update now new (poll_status_value new) e st) t)"
    "\<lambda>k s (now, new, e, st). cas_run_status now k s new e st" runs_ok
proof
  fix t k x s and w :: "int \<times> poll_status \<times> string option \<times> int option"
  assume t: "runs_ok t" and k: "run_map t k = Some x" "pr_status x = s"
    and ok: "(case w of (now, new, e, st) \<Rightarrow> \<lambda>t. 0 \<le> now \<and> \<not> negative st \<and>
       poll_index_ok (update_where (\<lambda>r. pr_id r = k \<and> pr_status r = poll_status_value s)
         (cas_status_update now new (poll_status_value new) e st) t)) t"
  obtain now new e st where w: "w = (now, new, e, st)" by (cases w) auto
  have x: "valid_poll_run x" "pr_id x = k" "run_row x \<in> set t" using k run_map_Some_iff [OF t] by auto
  have p: "(pr_id r = k \<and> pr_status r = poll_status_value s) \<longleftrightarrow> pr_id r = k" if "r \<in> set t" for r
    using pk_unique [OF runs_ok_pk [OF t] that x(3)] x(2) k(2) by auto
  have hit: "rows_hit (\<lambda>r. pr_id r = k \<and> pr_status r = poll_status_value s) t"
    using x k(2) by (auto simp: rows_hit_iff intro!: bexI [of _ "run_row x"])
  from update_one_run [OF t k(1) p, where f = "cas_status_update now new (poll_status_value new) e st"
      and y = "cas_status_update now new new e st x", OF _ cas_status_update_row] ok x hit
    cas_status_update_valid [OF x(1)]
  show "\<exists>t'. (case w of (now, new, e, st) \<Rightarrow> cas_run_status now k s new e st) t = (Inr True, t')
      \<and> runs_ok t' \<and> run_map t' = (run_map t)(k \<mapsto> (case w of (now, new, e, st) \<Rightarrow>
          cas_status_update now new new e st) x)"
    by (simp add: w cas_run_status_def Let_def)
next
  fix t k s and w :: "int \<times> poll_status \<times> string option \<times> int option"
  assume t: "runs_ok t" and miss: "\<forall>x. run_map t k = Some x \<longrightarrow> pr_status x \<noteq> s"
  obtain now new e st where w: "w = (now, new, e, st)" by (cases w) auto
  have "\<not> rows_hit (\<lambda>r. pr_id r = k \<and> pr_status r = poll_status_value s) t"
  proof
    assume "rows_hit (\<lambda>r. pr_id r = k \<and> pr_status r = poll_status_value s) t"
    then obtain r where r: "r \<in> set t" "pr_id r = k" "pr_status r = poll_status_value s"
      by (auto simp: rows_hit_iff)
    obtain x where "valid_poll_run x" "r = run_row x" using runs_okD [OF t r(1)] by blast
    with r miss run_map_Some_iff [OF t] show False by auto
  qed
  moreover have "poll_index_ok t" using t by (simp add: runs_ok_def polls_ok_def)
  ultimately show "(case w of (now, new, e, st) \<Rightarrow> cas_run_status now k s new e st) t = (Inr False, t)"
    by (simp add: w cas_run_status_def Let_def update_where_miss)
qed

end
