(* ===== verification/Agent_Polling.thy ===== *)
theory Agent_Polling
  imports Poll_Repository Task_Board Launch_Lifecycle
begin

text \<open>
  AgentPollingService (src/application/services/agent_polling_service.py) over the three stores it
  coordinates: the poll runs, the task board and, when it is wired, the launch registry; with the
  run directories of src/infrastructure/polling/poll_run_directory.py as the part of the file
  system it uses. One clock reading serves a whole call. The outcome of starting a process and the
  status files that agents write are inputs; the signals that the service sends are recorded in
  order. The waiting loops between SIGTERM and SIGKILL are not modelled, nor is the PermissionError
  of a signal to a process of another user.
\<close>

section \<open>The state\<close>

record launch_handle =
  lh_method :: string
  lh_pane_id :: "string option"
  lh_pid :: "int option"
  lh_pgid :: "int option"

datatype json_atom = JStr string | JInt int

record run_event =
  ev_type :: string
  ev_fields :: "(string \<times> json_atom) list"

text \<open>The members of \<open>status.json\<close> the service reads: \<open>status\<close> and \<open>str(error)\<close>.\<close>

record status_json =
  sj_status :: "string option"
  sj_error :: "string option"

datatype kill = KillPane string | KillGroup int | KillPid int

record poll_world =
  pw_runs :: poll_table
  pw_tasks :: task_table
  pw_launches :: launch_table
  pw_dirs :: "string list"
  pw_status :: "string \<Rightarrow> status_json option"
  pw_events :: "(string \<times> run_event) list"
  pw_kills :: "kill list"

definition on_runs :: "(poll_table, 'a) py \<Rightarrow> (poll_world, 'a) py" where
  "on_runs m w = (case m (pw_runs w) of (r, t) \<Rightarrow> (r, w\<lparr>pw_runs := t\<rparr>))"

definition on_tasks :: "(task_table, 'a) py \<Rightarrow> (poll_world, 'a) py" where
  "on_tasks m w = (case m (pw_tasks w) of (r, t) \<Rightarrow> (r, w\<lparr>pw_tasks := t\<rparr>))"

definition on_launches :: "(launch_table, 'a) py \<Rightarrow> (poll_world, 'a) py" where
  "on_launches m w = (case m (pw_launches w) of (r, t) \<Rightarrow> (r, w\<lparr>pw_launches := t\<rparr>))"

text \<open>
  The configuration: the cap, the fallback flag, the lease duration of the lifecycle service when
  it is wired, the base directory, and the FPEL port of the task service with its hash functions.
\<close>

record poll_config =
  pc_max_concurrent :: int
  pc_fallback :: bool
  pc_lifecycle :: "int option"
  pc_base_dir :: string
  pc_hasher :: hasher
  pc_port :: "fpel_port option"

definition poll_agent_owner :: string where
  "poll_agent_owner = ''poll-agent''"

section \<open>Run directories\<close>

definition create_run_dir :: "string \<Rightarrow> string \<Rightarrow> (poll_world, string) py" where
  "create_run_dir base i w = (Inr (base @ ''/'' @ i), w\<lparr>pw_dirs := i # pw_dirs w\<rparr>)"

definition write_status :: "string \<Rightarrow> status_json \<Rightarrow> (poll_world, unit) py" where
  "write_status i s w = (Inr (), w\<lparr>pw_dirs := i # pw_dirs w, pw_status := (pw_status w)(i \<mapsto> s)\<rparr>)"

definition append_event :: "string \<Rightarrow> run_event \<Rightarrow> (poll_world, unit) py" where
  "append_event i e w =
     (if i \<in> set (pw_dirs w) then (Inr (), w\<lparr>pw_events := pw_events w @ [(i, e)]\<rparr>)
      else (Inl (OSError ''No such file or directory''), w))"

definition read_events :: "string \<Rightarrow> poll_world \<Rightarrow> run_event list" where
  "read_events i w = map snd (filter (\<lambda>(j, e). j = i) (pw_events w))"

section \<open>Ending a process\<close>

definition truthy :: "string option \<Rightarrow> bool" where
  "truthy x = (case x of None \<Rightarrow> False | Some s \<Rightarrow> s \<noteq> [])"

definition kill_actions :: "launch_handle \<Rightarrow> kill list" where
  "kill_actions h =
     (if lh_method h = ''tmux'' \<and> truthy (lh_pane_id h)
      then (case lh_pane_id h of None \<Rightarrow> [] | Some p \<Rightarrow> [KillPane p])
      else if lh_method h = ''subprocess''
      then (case lh_pgid h of
          Some g \<Rightarrow> [KillGroup g]
        | None \<Rightarrow> (case lh_pid h of Some p \<Rightarrow> [KillPid p] | None \<Rightarrow> []))
      else [])"

definition terminate_launch_handle :: "launch_handle \<Rightarrow> (poll_world, unit) py" where
  "terminate_launch_handle h w = (Inr (), w\<lparr>pw_kills := pw_kills w @ kill_actions h\<rparr>)"

definition launch_handle_from_run :: "poll_run \<Rightarrow> launch_handle option" where
  "launch_handle_from_run run =
     (if pr_launch_method run = Some ''tmux'' \<and> truthy (pr_launch_pane_id run)
      then Some \<lparr>lh_method = ''tmux'', lh_pane_id = pr_launch_pane_id run, lh_pid = None, lh_pgid = None\<rparr>
      else if pr_launch_method run = Some ''subprocess'' \<and> pr_launch_pid run \<noteq> None
      then Some \<lparr>lh_method = ''subprocess'', lh_pane_id = None, lh_pid = pr_launch_pid run,
                 lh_pgid = pr_launch_pgid run\<rparr>
      else None)"

text \<open>\<open>isdigit\<close> and \<open>int\<close> on the characters below 256: the superscript digits are digits
  to the one and not to the other.\<close>

definition ascii_digit :: "char \<Rightarrow> bool" where
  "ascii_digit c \<longleftrightarrow> 48 \<le> (of_char c :: nat) \<and> (of_char c :: nat) \<le> 57"

definition py_isdigit :: "string \<Rightarrow> bool" where
  "py_isdigit s \<longleftrightarrow> s \<noteq> [] \<and> list_all (\<lambda>c. ascii_digit c \<or> (of_char c :: nat) \<in> {178, 179, 185}) s"

definition py_int_digits :: "string \<Rightarrow> int result" where
  "py_int_digits s =
     (if list_all ascii_digit s then Inr (foldl (\<lambda>n c. 10 * n + (of_char c - 48)) 0 s)
      else Inl (ValueError ''invalid literal for int()''))"

text \<open>The handle that a legacy \<open>agent_spawned\<close> event names, if it names one.\<close>

definition handle_of_event :: "run_event \<Rightarrow> launch_handle option result" where
  "handle_of_event e =
     (let get = map_of (ev_fields e);
          sub = (\<lambda>p g. Some \<lparr>lh_method = ''subprocess'', lh_pane_id = None, lh_pid = Some p, lh_pgid = g\<rparr>)
      in case get ''pane_id'' of
           Some (JStr (c # cs)) \<Rightarrow>
             Inr (Some \<lparr>lh_method = ''tmux'', lh_pane_id = Some (c # cs), lh_pid = None, lh_pgid = None\<rparr>)
         | _ \<Rightarrow>
             (case get ''pid'' of
                Some (JInt p) \<Rightarrow>
                  Inr (sub p (case get ''pgid'' of Some (JInt g) \<Rightarrow> Some g | _ \<Rightarrow> None))
              | Some (JStr p) \<Rightarrow>
                  (if py_isdigit p
                   then res_bind (case get ''pgid'' of
                            Some (JStr g) \<Rightarrow> if py_isdigit g then res_bind (py_int_digits g) (\<lambda>n. Inr (Some n))
                                           else Inr None
                          | _ \<Rightarrow> Inr None) (\<lambda>g.
                        res_bind (py_int_digits p) (\<lambda>n. Inr (sub n g)))
                   else Inr None)
              | None \<Rightarrow> Inr None))"

definition terminate_from_events :: "string \<Rightarrow> (poll_world, unit) py" where
  "terminate_from_events i =
     py_bind (py_read (\<lambda>w. case find (\<lambda>e. ev_type e = ''agent_spawned'') (rev (read_events i w)) of
         None \<Rightarrow> Inr None
       | Some e \<Rightarrow> handle_of_event e)) (\<lambda>h.
       case h of None \<Rightarrow> py_return () | Some handle \<Rightarrow> terminate_launch_handle handle)"

text \<open>
  \<open>_terminate_spawned_agent\<close>: the status move comes before the kill and may raise. The handle is
  the one the run had when it was read.
\<close>

definition terminate_spawned_agent :: "int \<Rightarrow> string \<Rightarrow> (poll_world, unit) py" where
  "terminate_spawned_agent now i =
     py_bind (on_runs (py_read (get_run i))) (\<lambda>run.
       case run of
         None \<Rightarrow> terminate_from_events i
       | Some x \<Rightarrow>
           py_bind (if pr_status x \<in> {Running, Spawning}
                    then on_runs (update_run_status now i Terminating None)
                    else if pr_status x \<in> {Queued, Quarantined}
                    then on_runs (update_run_status now i Cancelled None)
                    else py_return ()) (\<lambda>_.
             case launch_handle_from_run x of
               Some h \<Rightarrow> terminate_launch_handle h
             | None \<Rightarrow> terminate_from_events i))"

section \<open>Ending a run\<close>

text \<open>
  \<open>_finalize_launch\<close>: the launch by the id of the run, else by its key; every exception is
  swallowed.
\<close>

definition finalize_launch :: "poll_config \<Rightarrow> int \<Rightarrow> poll_run \<Rightarrow> string option \<Rightarrow> (poll_world, unit) py" where
  "finalize_launch cfg now run failure =
     (if pc_lifecycle cfg = None then py_return ()
      else py_suppress (\<lambda>e. True) (
        py_bind (case pr_launch_id run of
            None \<Rightarrow> py_return None
          | Some l \<Rightarrow> on_launches (py_read (get_by_launch_id l))) (\<lambda>by_id.
        py_bind (case by_id of
            Some x \<Rightarrow> py_return (Some x)
          | None \<Rightarrow> (case pr_canonical_key run of
                None \<Rightarrow> py_return None
              | Some key \<Rightarrow> on_launches (py_read (find_active_by_canonical_key key)))) (\<lambda>launch.
          case launch of
            None \<Rightarrow> py_return ()
          | Some x \<Rightarrow> (case failure of
                Some err \<Rightarrow>
                  py_bind (on_launches (mark_failed now (al_id x) (if err = [] then ''run failed'' else err)))
                    (\<lambda>_. py_return ())
              | None \<Rightarrow>
                  py_bind (on_launches (begin_termination now (al_id x))) (\<lambda>_.
                  py_bind (on_launches (confirm_terminated now (al_id x))) (\<lambda>_. py_return ())))))))"

text \<open>The task call inside \<open>contextlib.suppress(ValueError, TaskTransitionError)\<close>.\<close>

definition complete_run :: "poll_config \<Rightarrow> int \<Rightarrow> string \<Rightarrow> string \<Rightarrow> (poll_world, unit) py" where
  "complete_run cfg now i task_id =
     py_bind (terminate_spawned_agent now i) (\<lambda>_.
     py_bind (py_suppress is_value_error (on_tasks (complete_task task_id None now))) (\<lambda>_.
     py_bind (on_runs (update_run_status now i Completed None)) (\<lambda>_.
     py_bind (on_runs (py_read (get_run i))) (\<lambda>run.
     py_bind (case run of None \<Rightarrow> py_return () | Some x \<Rightarrow> finalize_launch cfg now x None) (\<lambda>_.
       append_event i \<lparr>ev_type = ''completed'',
         ev_fields = [(''task_id'', JStr task_id), (''timestamp'', JInt now)]\<rparr>)))))"

definition retry_quietly :: "string \<Rightarrow> (poll_world, unit) py" where
  "retry_quietly task_id =
     (if task_id = [] then py_return ()
      else py_suppress is_value_error (on_tasks (retry_task task_id)))"

definition fail_run :: "poll_config \<Rightarrow> int \<Rightarrow> string \<Rightarrow> string \<Rightarrow> (poll_world, unit) py" where
  "fail_run cfg now i error =
     py_bind (on_runs (py_read (get_run i))) (\<lambda>run.
     py_bind (terminate_spawned_agent now i) (\<lambda>_.
     py_bind (on_runs (update_run_status now i Failed (Some error))) (\<lambda>_.
     py_bind (case run of None \<Rightarrow> py_return () | Some x \<Rightarrow> finalize_launch cfg now x (Some error)) (\<lambda>_.
     py_bind (append_event i \<lparr>ev_type = ''failed'',
         ev_fields = [(''error'', JStr error), (''timestamp'', JInt now)]\<rparr>) (\<lambda>_.
       case run of None \<Rightarrow> py_return () | Some x \<Rightarrow> retry_quietly (pr_task_id x))))))"

definition cancel_run :: "int \<Rightarrow> string \<Rightarrow> (poll_world, poll_run) py" where
  "cancel_run now i =
     py_bind (on_runs (py_read (get_run i))) (\<lambda>run.
       case run of
         None \<Rightarrow> py_raise (ValueError (''Poll run '' @ quoted i @ '' not found''))
       | Some x \<Rightarrow>
           if \<not> poll_can_transition_to x Cancelled
           then py_raise (ValueError (''Cannot cancel run '' @ quoted i @ '' in status ''
                            @ poll_status_value (pr_status x)))
           else
             py_bind (on_runs (update_run_status now i Cancelled None)) (\<lambda>_.
             py_bind (append_event i \<lparr>ev_type = ''cancelled'', ev_fields = [(''timestamp'', JInt now)]\<rparr>) (\<lambda>_.
             py_bind (terminate_spawned_agent now i) (\<lambda>_.
             py_bind (retry_quietly (pr_task_id x)) (\<lambda>_.
             py_bind (on_runs (py_read (get_run i))) (\<lambda>result.
               case result of
                 None \<Rightarrow> py_raise (ValueError (''Poll run '' @ quoted i @ '' disappeared after update''))
               | Some y \<Rightarrow> py_return y))))))"

section \<open>Starting a process\<close>

text \<open>
  What the environment answers: whether the directory exists, whether \<open>TMUX\<close> is set, the output of
  \<open>tmux split-window\<close> (\<open>None\<close> when it raised), the process id of the fallback (\<open>None\<close> for
  \<open>OSError\<close>) and its process group (\<open>None\<close> for \<open>ProcessLookupError\<close>).
\<close>

record spawn_env =
  se_dir_exists :: bool
  se_in_tmux :: bool
  se_tmux_stdout :: "string option"
  se_pid :: "int option"
  se_pgid :: "int option"

definition spawn_agent :: "bool \<Rightarrow> spawn_env \<Rightarrow> launch_handle option" where
  "spawn_agent fallback env =
     (if \<not> se_dir_exists env then None
      else
        let pane = (if se_in_tmux env
                    then (case se_tmux_stdout env of None \<Rightarrow> [] | Some out \<Rightarrow> py_strip out) else [])
        in if pane \<noteq> []
           then Some \<lparr>lh_method = ''tmux'', lh_pane_id = Some pane, lh_pid = None, lh_pgid = None\<rparr>
           else if \<not> fallback then None
           else (case se_pid env of
               None \<Rightarrow> None
             | Some pid \<Rightarrow> (case se_pgid env of
                 None \<Rightarrow> None
               | Some g \<Rightarrow> Some \<lparr>lh_method = ''subprocess'', lh_pane_id = None, lh_pid = Some pid,
                                lh_pgid = Some g\<rparr>)))"

section \<open>Spawning a run\<close>

text \<open>The fresh ids of one spawn and what the environment answers to it.\<close>

record spawn_input =
  si_run_id :: string
  si_launch_id :: string
  si_env :: spawn_env

definition clock_at :: "int \<Rightarrow> request_clock" where
  "clock_at now = \<lparr>rc_check = now, rc_quarantine = now, rc_lease = now, rc_claim = now\<rparr>"

fun launch_decision_value :: "launch_decision \<Rightarrow> string" where
  "launch_decision_value Claimed = ''claimed''"
| "launch_decision_value Suppressed = ''suppressed''"
| "launch_decision_value Error = ''error''"

definition reason_or_decision :: "launch_attempt \<Rightarrow> string" where
  "reason_or_decision a =
     (case la_reason a of
        Some (c # cs) \<Rightarrow> c # cs
      | _ \<Rightarrow> launch_decision_value (la_decision a))"

definition new_poll_run ::
  "string \<Rightarrow> string \<Rightarrow> poll_status \<Rightarrow> string option \<Rightarrow> string option \<Rightarrow> string option
     \<Rightarrow> string option \<Rightarrow> poll_run" where
  "new_poll_run i task_id st dir error key launch =
     \<lparr>pr_id = i, pr_task_id = task_id, pr_agent_name = poll_agent_owner, pr_status = st,
      pr_started_at = None, pr_ended_at = None, pr_run_dir = dir, pr_error = error,
      pr_launch_method = None, pr_launch_pane_id = None, pr_launch_pid = None,
      pr_launch_pgid = None, pr_launch_recorded_at = None, pr_canonical_key = key,
      pr_launch_id = launch\<rparr>"

text \<open>The read that ends every path of \<open>_spawn_run\<close>.\<close>

definition reread_run :: "string \<Rightarrow> string \<Rightarrow> (poll_world, poll_run) py" where
  "reread_run i tail =
     py_bind (on_runs (py_read (get_run i))) (\<lambda>result.
       case result of
         None \<Rightarrow> py_raise (ValueError (''Poll run '' @ quoted i @ '' disappeared'' @ tail))
       | Some y \<Rightarrow> py_return y)"

definition quarantine_event :: "string \<Rightarrow> int \<Rightarrow> string \<Rightarrow> run_event" where
  "quarantine_event task_id now reason =
     \<lparr>ev_type = ''launch_quarantined'',
      ev_fields = [(''task_id'', JStr task_id), (''timestamp'', JInt now), (''reason'', JStr reason)]\<rparr>"

text \<open>A call of the lifecycle service, made only when there is a launch.\<close>

definition with_launch :: "string option \<Rightarrow> (string \<Rightarrow> (launch_table, bool) py) \<Rightarrow> (poll_world, unit) py" where
  "with_launch launch f =
     (case launch of
        None \<Rightarrow> py_return ()
      | Some l \<Rightarrow> py_bind (on_launches (f l)) (\<lambda>_. py_return ()))"

definition handle_value :: "launch_handle \<Rightarrow> string" where
  "handle_value h =
     (case lh_pane_id h of
        Some (c # cs) \<Rightarrow> c # cs
      | _ \<Rightarrow> (case lh_pgid h of
          Some g \<Rightarrow> if g \<noteq> 0 then show_int g
                    else (case lh_pid h of Some p \<Rightarrow> if p \<noteq> 0 then show_int p else [] | None \<Rightarrow> [])
        | None \<Rightarrow> (case lh_pid h of Some p \<Rightarrow> if p \<noteq> 0 then show_int p else [] | None \<Rightarrow> [])))"

definition spawned_event :: "launch_handle \<Rightarrow> run_event" where
  "spawned_event h =
     \<lparr>ev_type = ''agent_spawned'',
      ev_fields = [(''method'', JStr (lh_method h))]
        @ (case lh_pane_id h of Some (c # cs) \<Rightarrow> [(''pane_id'', JStr (c # cs))] | _ \<Rightarrow> [])
        @ (case lh_pid h of Some p \<Rightarrow> [(''pid'', JInt p)] | None \<Rightarrow> [])
        @ (case lh_pgid h of Some g \<Rightarrow> [(''pgid'', JInt g)] | None \<Rightarrow> [])\<rparr>"

definition quarantine_spawn ::
  "int \<Rightarrow> string \<Rightarrow> string \<Rightarrow> string option \<Rightarrow> string \<Rightarrow> string \<Rightarrow> string \<Rightarrow> (poll_world, poll_run) py" where
  "quarantine_spawn now i task_id launch error launch_reason event_reason =
     py_bind (on_runs (update_run_status now i Quarantined (Some error))) (\<lambda>_.
     py_bind (with_launch launch (\<lambda>l. quarantine now l launch_reason)) (\<lambda>_.
     py_bind (append_event i (quarantine_event task_id now event_reason)) (\<lambda>_.
       reread_run i [])))"

text \<open>From the confirmed handle to RUNNING.\<close>

definition confirm_spawn ::
  "int \<Rightarrow> string \<Rightarrow> string \<Rightarrow> string option \<Rightarrow> launch_handle \<Rightarrow> (poll_world, poll_run) py" where
  "confirm_spawn now i task_id launch h =
     py_bind (append_event i (spawned_event h)) (\<lambda>_.
     py_bind (with_launch launch (\<lambda>l. confirm_active now l (lh_method h)
         (if lh_method h = ''tmux'' then ''tmux-pane'' else ''pgid'') (handle_value h)
         (lh_pane_id h) None (lh_pid h) (lh_pgid h))) (\<lambda>_.
     py_bind (on_runs (update_run_status now i Running None)) (\<lambda>_.
     py_bind (write_status i \<lparr>sj_status = Some ''RUNNING'', sj_error = None\<rparr>) (\<lambda>_.
     py_bind (append_event i \<lparr>ev_type = ''started'',
         ev_fields = [(''task_id'', JStr task_id), (''timestamp'', JInt now),
                      (''launch_method'', JStr (lh_method h))]\<rparr>) (\<lambda>_.
       reread_run i '' after spawn'')))))"

definition launch_agent ::
  "poll_config \<Rightarrow> int \<Rightarrow> spawn_input \<Rightarrow> string \<Rightarrow> string option \<Rightarrow> (poll_world, poll_run) py" where
  "launch_agent cfg now inp task_id launch =
     (let i = si_run_id inp in
      py_bind (on_runs (update_run_status now i Spawning None)) (\<lambda>_.
      py_bind (with_launch launch (confirm_spawning now)) (\<lambda>_.
      py_bind (on_runs (py_read (get_run i))) (\<lambda>current.
        case (case current of None \<Rightarrow> None | Some x \<Rightarrow> spawn_agent (pc_fallback cfg) (si_env inp)) of
          None \<Rightarrow>
            quarantine_spawn now i task_id launch
              ''Spawn unresolved: launch confirmation missing; blocking relaunch''
              ''spawn unresolved'' ''spawn_unresolved''
        | Some h \<Rightarrow>
            py_bind (on_runs (record_launch_metadata now i (lh_method h) (lh_pane_id h) (lh_pid h)
                (lh_pgid h) launch)) (\<lambda>saved.
              if \<not> saved
              then py_bind (terminate_launch_handle h) (\<lambda>_.
                   quarantine_spawn now i task_id launch
                     ''Spawn unresolved: failed to persist launch metadata''
                     ''metadata persist failed'' ''metadata_persist_failed'')
              else confirm_spawn now i task_id launch h)))))"

definition start_run ::
  "poll_config \<Rightarrow> int \<Rightarrow> spawn_input \<Rightarrow> string \<Rightarrow> string option \<Rightarrow> (poll_world, poll_run) py" where
  "start_run cfg now inp task_id launch =
     (let i = si_run_id inp in
      py_bind (create_run_dir (pc_base_dir cfg) i) (\<lambda>dir.
      py_bind (py_lift (make_poll_run (new_poll_run i task_id Queued (Some dir) None
          (Some (build_task_key task_id)) launch))) (\<lambda>run.
      py_bind (on_runs (save_run run)) (\<lambda>_.
      py_bind (py_catch is_transition_error
          (py_bind (on_tasks (start_task (pc_hasher cfg) (pc_port cfg) task_id poll_agent_owner None now))
             (\<lambda>_. py_return None))
          (\<lambda>e. py_return (Some (exc_message e)))) (\<lambda>refused.
        case refused of
          Some msg \<Rightarrow>
            py_bind (on_runs (update_run_status now i Failed (Some msg))) (\<lambda>_.
            py_bind (with_launch launch (\<lambda>l. mark_failed now l msg)) (\<lambda>_.
              reread_run i []))
        | None \<Rightarrow> launch_agent cfg now inp task_id launch)))))"

text \<open>\<open>_spawn_run\<close>.\<close>

definition spawn_run :: "poll_config \<Rightarrow> int \<Rightarrow> spawn_input \<Rightarrow> string \<Rightarrow> (poll_world, poll_run) py" where
  "spawn_run cfg now inp task_id =
     (case pc_lifecycle cfg of
        None \<Rightarrow> start_run cfg now inp task_id None
      | Some lease \<Rightarrow>
          py_bind (on_launches (request_launch lease (clock_at now) (si_launch_id inp)
              \<lparr>rq_key = build_task_key task_id, rq_surface = ''polling'', rq_owner_type = ''task'',
               rq_owner_id = task_id, rq_role = None, rq_parent = None, rq_model = None\<rparr>)) (\<lambda>attempt.
            if la_decision attempt \<noteq> Claimed
            then py_bind (py_lift (make_poll_run (new_poll_run (si_run_id inp) task_id Cancelled None
                     (Some (''Launch suppressed by lifecycle service: '' @ reason_or_decision attempt))
                     None None))) (\<lambda>run.
                 py_bind (on_runs (save_run run)) (\<lambda>_. py_return run))
            else start_run cfg now inp task_id (map_option al_id (la_launch attempt))))"

section \<open>One poll cycle\<close>

fun poll_candidates ::
  "bool \<Rightarrow> string list \<Rightarrow> launch_table \<Rightarrow> otask list \<Rightarrow> otask list result" where
  "poll_candidates wired blocking t [] = Inr []"
| "poll_candidates wired blocking t (x # xs) =
     (if ot_id x \<in> set blocking then poll_candidates wired blocking t xs
      else res_bind (if wired then find_active_by_canonical_key (build_task_key (ot_id x)) t
                     else Inr None) (\<lambda>active.
           res_bind (poll_candidates wired blocking t xs) (\<lambda>rest.
             Inr (if active = None then x # rest else rest))))"

fun spawn_each ::
  "poll_config \<Rightarrow> int \<Rightarrow> (nat \<Rightarrow> spawn_input) \<Rightarrow> nat \<Rightarrow> otask list \<Rightarrow> (poll_world, poll_run list) py" where
  "spawn_each cfg now inp n [] = py_return []"
| "spawn_each cfg now inp n (x # xs) =
     py_bind (spawn_run cfg now (inp n) (ot_id x)) (\<lambda>run.
     py_bind (spawn_each cfg now inp (Suc n) xs) (\<lambda>rest. py_return (run # rest)))"

text \<open>\<open>poll_once\<close>; \<open>inp n\<close> is what the environment gives to the spawn number \<open>n\<close> of the cycle.\<close>

definition poll_once :: "poll_config \<Rightarrow> int \<Rightarrow> (nat \<Rightarrow> spawn_input) \<Rightarrow> (poll_world, poll_run list) py" where
  "poll_once cfg now inp =
     py_bind (if pc_lifecycle cfg \<noteq> None
              then py_bind (on_launches (reconcile_expired_leases now now)) (\<lambda>_. py_return ())
              else py_return ()) (\<lambda>_.
     py_bind (on_runs (py_read list_launch_blocking)) (\<lambda>blocking.
       let available = pc_max_concurrent cfg - int (length blocking) in
       if available \<le> 0 then py_return []
       else
         py_bind (on_tasks (py_read (list_tasks (Some APPROVED) None False))) (\<lambda>approved.
         py_bind (on_launches (py_read (\<lambda>t. poll_candidates (pc_lifecycle cfg \<noteq> None)
             (map pr_task_id blocking) t approved))) (\<lambda>candidates.
           spawn_each cfg now inp 0 (take (nat available) candidates)))))"

section \<open>Checking the runs\<close>

definition queued_timeout_ms :: int where
  "queued_timeout_ms = 300 * 1000"

text \<open>The format \<open>.0f\<close> of a number of milliseconds divided by 1000: ties go to the even number.\<close>

definition round_seconds :: "int \<Rightarrow> int" where
  "round_seconds ms =
     (let q = ms div 1000; r = ms mod 1000
      in if r < 500 then q else if 500 < r then q + 1 else if even q then q else q + 1)"

definition elapsed_ms :: "int \<Rightarrow> poll_run \<Rightarrow> int" where
  "elapsed_ms now run = now - (case pr_started_at run of None \<Rightarrow> 0 | Some s \<Rightarrow> s)"

definition quarantine_unresolved :: "int \<Rightarrow> poll_run \<Rightarrow> string \<Rightarrow> (poll_world, unit) py" where
  "quarantine_unresolved now run reason =
     py_bind (on_runs (update_run_status now (pr_id run) Quarantined
         (Some (''Spawn unresolved timeout after '' @ show_int (round_seconds (elapsed_ms now run)) @ ''s'')))) (\<lambda>_.
       append_event (pr_id run) \<lparr>ev_type = ''launch_quarantined'',
         ev_fields = [(''timestamp'', JInt now), (''reason'', JStr reason)]\<rparr>)"

definition overdue :: "int \<Rightarrow> poll_run \<Rightarrow> bool" where
  "overdue now run \<longleftrightarrow> pr_status run \<in> {Queued, Spawning} \<and> queued_timeout_ms < elapsed_ms now run"

definition check_run :: "poll_config \<Rightarrow> int \<Rightarrow> poll_run \<Rightarrow> (poll_world, poll_run option list) py" where
  "check_run cfg now run =
     (let i = pr_id run;
          current = on_runs (py_read (get_run i));
          append_current = py_bind current (\<lambda>c. py_return (case c of None \<Rightarrow> [] | Some x \<Rightarrow> [Some x]))
      in py_bind (py_read (\<lambda>w. Inr (pw_status w i))) (\<lambda>status.
        case status of
          None \<Rightarrow>
            py_bind (if pr_status run \<in> {Queued, Spawning}
                     then (if overdue now run then quarantine_unresolved now run ''queued_timeout''
                           else py_return ())
                     else fail_run cfg now i ''Agent crashed: no status file written'') (\<lambda>_.
            py_bind current (\<lambda>c. py_return [c]))
        | Some s \<Rightarrow>
            if sj_status s = Some ''COMPLETED''
            then py_bind (complete_run cfg now i (pr_task_id run)) (\<lambda>_. append_current)
            else if sj_status s = Some ''FAILED''
            then py_bind (fail_run cfg now i (case sj_error s of None \<Rightarrow> ''Unknown error'' | Some e \<Rightarrow> e))
                   (\<lambda>_. append_current)
            else if overdue now run
            then py_bind (quarantine_unresolved now run ''status_timeout'') (\<lambda>_.
                 py_bind current (\<lambda>c. py_return [c]))
            else append_current))"

fun check_each :: "poll_config \<Rightarrow> int \<Rightarrow> poll_run list \<Rightarrow> (poll_world, poll_run option list) py" where
  "check_each cfg now [] = py_return []"
| "check_each cfg now (x # xs) =
     py_bind (check_run cfg now x) (\<lambda>out.
     py_bind (check_each cfg now xs) (\<lambda>rest. py_return (out @ rest)))"

definition check_runs :: "poll_config \<Rightarrow> int \<Rightarrow> (poll_world, poll_run option list) py" where
  "check_runs cfg now =
     py_bind (on_runs (py_read list_active_runs)) (\<lambda>active. check_each cfg now active)"

end
