(* ===== verification/Polling_Runs.thy ===== *)
theory Polling_Runs
  imports Agent_Polling
begin

text \<open>
  What the polling operations do to the table of runs: how many launch-blocking rows they can add
  and that they keep its constraints, on every path, exceptions included; and their results in a
  database whose rows all make entities.
\<close>

section \<open>Lifted calls\<close>

lemma on_runs_run [py_simps]: "on_runs m w = (fst (m (pw_runs w)), w\<lparr>pw_runs := snd (m (pw_runs w))\<rparr>)"
  by (simp add: on_runs_def split: prod.splits)

lemma on_tasks_run [py_simps]: "on_tasks m w = (fst (m (pw_tasks w)), w\<lparr>pw_tasks := snd (m (pw_tasks w))\<rparr>)"
  by (simp add: on_tasks_def split: prod.splits)

lemma on_launches_run [py_simps]:
  "on_launches m w = (fst (m (pw_launches w)), w\<lparr>pw_launches := snd (m (pw_launches w))\<rparr>)"
  by (simp add: on_launches_def split: prod.splits)

lemma on_runs_read [simp]: "on_runs (py_read f) = py_read (\<lambda>w. f (pw_runs w))"
  by (rule ext) (simp add: py_simps)

lemma on_tasks_read [simp]: "on_tasks (py_read f) = py_read (\<lambda>w. f (pw_tasks w))"
  by (rule ext) (simp add: py_simps)

lemma on_launches_read [simp]: "on_launches (py_read f) = py_read (\<lambda>w. f (pw_launches w))"
  by (rule ext) (simp add: py_simps)

section \<open>Counting the blocking runs\<close>

definition blocking_count :: "poll_world \<Rightarrow> nat" where
  "blocking_count w = length (filter blocking_row (pw_runs w))"

text \<open>\<open>adds k m\<close>: the operation keeps the constraints and adds at most \<open>k\<close> blocking runs.\<close>

definition adds :: "nat \<Rightarrow> (poll_world, 'a) py \<Rightarrow> bool" where
  "adds k m \<longleftrightarrow> (\<forall>w. polls_ok (pw_runs w) \<longrightarrow>
     polls_ok (pw_runs (snd (m w))) \<and> blocking_count (snd (m w)) \<le> blocking_count w + k)"

named_theorems adds_rules "operations that add no blocking run"

lemma addsI:
  "(\<And>w. polls_ok (pw_runs w) \<Longrightarrow>
     polls_ok (pw_runs (snd (m w))) \<and> blocking_count (snd (m w)) \<le> blocking_count w + k) \<Longrightarrow> adds k m"
  by (simp add: adds_def)

lemma addsD:
  assumes "adds k m" and "m w = (r, w')" and "polls_ok (pw_runs w)"
  shows "polls_ok (pw_runs w')" "blocking_count w' \<le> blocking_count w + k"
  using assms unfolding adds_def by (metis snd_conv)+

lemma adds_bind:
  assumes m: "adds k m" and f: "\<And>a. adds l (f a)"
  shows "adds (k + l) (py_bind m f)"
proof (rule addsI)
  fix w :: poll_world assume ok: "polls_ok (pw_runs w)"
  obtain r w1 where run: "m w = (r, w1)" by fastforce
  note m1 = addsD [OF m run ok]
  show "polls_ok (pw_runs (snd (py_bind m f w)))
      \<and> blocking_count (snd (py_bind m f w)) \<le> blocking_count w + (k + l)"
  proof (cases r)
    case (Inl e)
    with run m1 show ?thesis by (simp add: py_simps)
  next
    case (Inr a)
    obtain r2 w2 where "f a w1 = (r2, w2)" by fastforce
    with addsD [OF f this m1(1)] m1 run Inr show ?thesis by (simp add: py_simps)
  qed
qed

lemma adds_mono: "adds k m \<Longrightarrow> k \<le> l \<Longrightarrow> adds l m"
  by (fastforce simp: adds_def)

lemma adds_bind0 [adds_rules]: "adds 0 m \<Longrightarrow> (\<And>a. adds 0 (f a)) \<Longrightarrow> adds 0 (py_bind m f)"
  using adds_bind [of 0 m 0 f] by simp

lemma adds_bind_tail: "adds 0 m \<Longrightarrow> (\<And>a. adds k (f a)) \<Longrightarrow> adds k (py_bind m f)"
  using adds_bind [of 0 m k f] by simp

lemma adds_bind_head: "adds k m \<Longrightarrow> (\<And>a. adds 0 (f a)) \<Longrightarrow> adds k (py_bind m f)"
  using adds_bind [of k m 0 f] by simp

lemma adds_simple [adds_rules]:
  "adds 0 (py_return a)" "adds 0 (py_raise e)" "adds 0 (py_read g)" "adds 0 (py_lift r)"
  "adds 0 (on_tasks mt)" "adds 0 (on_launches ml)"
  "adds 0 (append_event i ev)" "adds 0 (write_status i st)" "adds 0 (create_run_dir b i)"
  "adds 0 (terminate_launch_handle h)"
  by (simp_all add: adds_def py_simps blocking_count_def append_event_def write_status_def
      create_run_dir_def terminate_launch_handle_def)

lemma adds_catch [adds_rules]:
  assumes m: "adds 0 m" and h: "\<And>e. adds 0 (h e)"
  shows "adds 0 (py_catch p m h)"
proof (rule addsI)
  fix w :: poll_world assume ok: "polls_ok (pw_runs w)"
  obtain r w1 where run: "m w = (r, w1)" by fastforce
  note m1 = addsD [OF m run ok]
  show "polls_ok (pw_runs (snd (py_catch p m h w)))
      \<and> blocking_count (snd (py_catch p m h w)) \<le> blocking_count w + 0"
  proof (cases "\<exists>e. r = Inl e \<and> p e")
    case True
    then obtain e where e: "r = Inl e" "p e" by blast
    obtain r2 w2 where "h e w1 = (r2, w2)" by fastforce
    with addsD [OF h this m1(1)] m1 run e show ?thesis by (simp add: py_catch_def)
  next
    case False
    with m1 run show ?thesis by (auto simp: py_catch_def split: sum.splits)
  qed
qed

lemma adds_suppress [adds_rules]:
  assumes "adds 0 m"
  shows "adds 0 (py_suppress p m)"
proof (rule addsI)
  fix w :: poll_world assume ok: "polls_ok (pw_runs w)"
  obtain r w1 where run: "m w = (r, w1)" by fastforce
  from addsD [OF assms run ok] run
  show "polls_ok (pw_runs (snd (py_suppress p m w)))
      \<and> blocking_count (snd (py_suppress p m w)) \<le> blocking_count w + 0"
    by (auto simp: py_suppress_def split: sum.splits)
qed

lemma adds_if [adds_rules]: "adds k m \<Longrightarrow> adds k n \<Longrightarrow> adds k (if b then m else n)"
  by simp

lemma adds_option [adds_rules]:
  "adds k m \<Longrightarrow> (\<And>a. adds k (f a)) \<Longrightarrow> adds k (case x of None \<Rightarrow> m | Some a \<Rightarrow> f a)"
  by (cases x) simp_all

lemma count_update_where:
  "\<forall>r \<in> set t. p r \<longrightarrow> b r \<Longrightarrow> length (filter b (update_where p f t)) \<le> length (filter b t)"
  by (induction t) (auto simp: update_where_def)

lemma poll_status_of_Some: "poll_status_of s = Some st \<Longrightarrow> s = poll_status_value st"
  by (auto simp: poll_status_of_def split: if_splits)

lemma row_to_run_status: "row_to_run r = Inr x \<Longrightarrow> pr_status r = poll_status_value (pr_status x)"
  by (auto simp: row_to_run_def make_poll_run_Inr dest: poll_status_of_Some split: option.splits)

lemma adds_update [adds_rules]: "adds 0 (on_runs (update_run_status now i new e))"
proof -
  have "length (filter blocking_row (snd (update_run_status now i new e t))) \<le> length (filter blocking_row t)"
    if ok: "polls_ok t" for t
  proof (cases "get_run i t")
    case (Inl err)
    then show ?thesis by (simp add: update_run_status_def py_simps)
  next
    case (Inr current)
    show ?thesis
    proof (cases "case current of None \<Rightarrow> False | Some x \<Rightarrow> \<not> poll_can_transition_to x new")
      case True
      with Inr show ?thesis by (simp add: update_run_status_def py_simps)
    next
      case False
      have "\<forall>r \<in> set t. pr_id r = i \<longrightarrow> blocking_row r"
      proof (intro ballI impI)
        fix r assume r: "r \<in> set t" "pr_id r = i"
        have pk: "pk_ok pr_id t" using ok by (simp add: polls_ok_def)
        with r have "lookup_row pr_id i t = Some r" by (simp add: lookup_row_iff)
        with Inr obtain x where x: "current = Some x" "row_to_run r = Inr x"
          by (auto simp: get_run_def res_bind_Inr_iff)
        with False have "poll_transitions (pr_status x) \<noteq> {}"
          by (auto simp: poll_can_transition_to_def)
        then have "pr_status x \<notin> poll_terminal" using poll_life.terminal_stuck by blast
        then show "blocking_row r" unfolding blocking_row_def row_to_run_status [OF x(2)]
          by (cases "pr_status x") (auto simp: poll_terminal_def)
      qed
      from count_update_where [OF this] Inr False show ?thesis
        by (simp add: update_run_status_def py_simps Let_def)
    qed
  qed
  with preservesD [OF preserves_update_run] show ?thesis
    by (simp add: adds_def py_simps blocking_count_def)
qed

lemma adds_record [adds_rules]: "adds 0 (on_runs (record_launch_metadata now i m pane pid pgid l))"
proof -
  have "length (filter blocking_row (snd (record_launch_metadata now i m pane pid pgid l t)))
      = length (filter blocking_row t)" for t
    by (induction t) (auto simp: record_launch_metadata_def update_where_def blocking_row_def)
  with preservesD [OF preserves_record_launch] show ?thesis
    by (simp add: adds_def py_simps blocking_count_def)
qed

lemma adds_save: "adds 1 (on_runs (save_run x))"
proof -
  have "length (filter blocking_row (delete_where p t)) \<le> length (filter blocking_row t)" for p t
    by (induction t) (auto simp: delete_where_def)
  then have "length (filter blocking_row (snd (save_run x t))) \<le> length (filter blocking_row t) + 1" for t
    by (auto simp: save_run_def intro: le_SucI)
  with preservesD [OF preserves_save_run] show ?thesis
    by (simp add: adds_def py_simps blocking_count_def)
qed

lemma adds_with_launch [adds_rules]: "adds 0 (with_launch l f)"
  unfolding with_launch_def by (intro adds_rules)

lemma adds_reread [adds_rules]: "adds 0 (reread_run i tail)"
  unfolding reread_run_def on_runs_read by (intro adds_rules)

lemma adds_quarantine_spawn [adds_rules]: "adds 0 (quarantine_spawn now i tid l e lr er)"
  unfolding quarantine_spawn_def by (intro adds_rules)

lemma adds_confirm_spawn [adds_rules]: "adds 0 (confirm_spawn now i tid l h)"
  unfolding confirm_spawn_def by (intro adds_rules)

lemma adds_launch_agent [adds_rules]: "adds 0 (launch_agent cfg now inp tid l)"
  unfolding launch_agent_def Let_def on_runs_read by (intro adds_rules)

lemma adds_start_run: "adds 1 (start_run cfg now inp tid l)"
  unfolding start_run_def Let_def
  by (rule adds_bind_tail, intro adds_rules, rule adds_bind_tail, intro adds_rules,
      rule adds_bind_head, rule adds_save, intro adds_rules)

lemma adds_spawn_run: "adds 1 (spawn_run cfg now inp tid)"
proof -
  have "adds 1 (if la_decision attempt \<noteq> Claimed
            then py_bind (py_lift (make_poll_run x)) (\<lambda>run. py_bind (on_runs (save_run run)) (\<lambda>_. py_return run))
            else start_run cfg now inp tid l)" for attempt x l
    by (rule adds_if, rule adds_bind_tail, intro adds_rules, rule adds_bind_head, rule adds_save,
        intro adds_rules, rule adds_start_run)
  then show ?thesis
    unfolding spawn_run_def
    by (intro adds_option adds_start_run adds_bind_tail) (rule adds_rules)
qed

lemma adds_spawn_each: "adds (length xs) (spawn_each cfg now inp n xs)"
proof (induction xs arbitrary: n)
  case Nil
  show ?case by (simp add: adds_rules)
next
  case (Cons x xs)
  have "adds (length xs) (py_bind (spawn_each cfg now inp (Suc n) xs) (\<lambda>rest. py_return (run # rest)))" for run
    by (rule adds_bind_head [OF Cons.IH]) (rule adds_rules)
  from adds_bind [OF adds_spawn_run this] show ?case by simp
qed

lemma adds_terminate [adds_rules]: "adds 0 (terminate_spawned_agent now i)"
  unfolding terminate_spawned_agent_def terminate_from_events_def on_runs_read
  by (intro adds_rules)

lemma adds_finalize [adds_rules]: "adds 0 (finalize_launch cfg now run failure)"
  unfolding finalize_launch_def by (intro adds_rules)

lemma adds_retry_quietly [adds_rules]: "adds 0 (retry_quietly tid)"
  unfolding retry_quietly_def by (intro adds_rules)

lemma adds_complete_run [adds_rules]: "adds 0 (complete_run cfg now i tid)"
  unfolding complete_run_def on_runs_read by (intro adds_rules)

lemma adds_fail_run [adds_rules]: "adds 0 (fail_run cfg now i e)"
  unfolding fail_run_def on_runs_read by (intro adds_rules)

lemma adds_cancel_run [adds_rules]: "adds 0 (cancel_run now i)"
  unfolding cancel_run_def on_runs_read by (intro adds_rules)

lemma adds_check_run [adds_rules]: "adds 0 (check_run cfg now run)"
  unfolding check_run_def Let_def on_runs_read quarantine_unresolved_def by (intro adds_rules)

lemma adds_check_each [adds_rules]: "adds 0 (check_each cfg now xs)"
  by (induction xs) (auto intro!: adds_rules)

lemma adds_check_runs: "adds 0 (check_runs cfg now)"
  unfolding check_runs_def on_runs_read by (intro adds_rules)

section \<open>The clean-up of a process\<close>

text \<open>What the clean-up leaves alone, once the status has moved.\<close>

definition same_stores :: "poll_world \<Rightarrow> poll_world \<Rightarrow> bool" where
  "same_stores w v \<longleftrightarrow> pw_runs v = pw_runs w \<and> pw_tasks v = pw_tasks w \<and> pw_launches v = pw_launches w
     \<and> pw_dirs v = pw_dirs w \<and> pw_status v = pw_status w \<and> pw_events v = pw_events w"

lemma kill_same_stores: "same_stores w (snd (terminate_launch_handle h w))"
  by (simp add: same_stores_def terminate_launch_handle_def)

lemma events_same_stores: "same_stores w (snd (terminate_from_events i w))"
  by (auto simp: terminate_from_events_def py_simps same_stores_def terminate_launch_handle_def
      split: sum.splits option.splits)

definition cleanup_target :: "poll_status \<Rightarrow> poll_status option" where
  "cleanup_target st = (if st \<in> {Running, Spawning} then Some Terminating
     else if st \<in> {Queued, Quarantined} then Some Cancelled else None)"

lemma terminate_moved:
  assumes t: "runs_ok (pw_runs w)" and x: "run_map (pw_runs w) i = Some x"
    and st: "cleanup_target (pr_status x) = Some st" and tr: "st \<in> poll_transitions (pr_status x)"
    and now: "0 \<le> now"
  shows "\<exists>t1. runs_ok t1 \<and> run_map t1 = (run_map (pw_runs w))(i \<mapsto> status_update now st st None x)
     \<and> same_stores (w\<lparr>pw_runs := t1\<rparr>) (snd (terminate_spawned_agent now i w))
     \<and> (\<forall>h. launch_handle_from_run x = Some h \<longrightarrow>
          terminate_spawned_agent now i w = (Inr (), w\<lparr>pw_runs := t1, pw_kills := pw_kills w @ kill_actions h\<rparr>))"
proof -
  have "st \<notin> {Queued, Running}" using st by (auto simp: cleanup_target_def split: if_splits)
  from update_run_leaves_index [OF t x tr now this] obtain t1 where
    t1: "update_run_status now i st None (pw_runs w) = (Inr (), t1)" "runs_ok t1"
    "run_map t1 = (run_map (pw_runs w))(i \<mapsto> status_update now st st None x)" by blast
  have run: "terminate_spawned_agent now i w = (case launch_handle_from_run x of
       Some h \<Rightarrow> terminate_launch_handle h (w\<lparr>pw_runs := t1\<rparr>)
     | None \<Rightarrow> terminate_from_events i (w\<lparr>pw_runs := t1\<rparr>))"
    using st t1(1) x
    by (auto simp: terminate_spawned_agent_def py_simps get_run_map [OF t] cleanup_target_def
        split: if_splits option.splits)
  have "same_stores (w\<lparr>pw_runs := t1\<rparr>) (snd (terminate_spawned_agent now i w))"
    unfolding run by (cases "launch_handle_from_run x") (simp_all add: kill_same_stores events_same_stores)
  with t1(2,3) show ?thesis
    by (intro exI [where x = t1]) (simp add: run terminate_launch_handle_def)
qed

lemma terminate_refused:
  assumes t: "runs_ok (pw_runs w)" and x: "run_map (pw_runs w) i = Some x" "pr_status x = Spawning"
  shows "\<exists>m. terminate_spawned_agent now i w = (Inl (ValueError m), w)"
  using update_run_refused [OF t x(1), of Terminating now None] x
  by (auto simp: terminate_spawned_agent_def py_simps get_run_map [OF t])

text \<open>Finalising the launch of a completed run: ACTIVE to TERMINATING to TERMINATED.\<close>

lemma finalize_active:
  assumes L: "launches_ok (pw_launches w)" and l: "registry (pw_launches w) l = Some x"
    and st: "al_status x = ACTIVE" and run: "pr_launch_id run = Some l" and cfg: "pc_lifecycle cfg \<noteq> None"
  shows "\<exists>t'. finalize_launch cfg now run None w = (Inr (), w\<lparr>pw_launches := t'\<rparr>)
    \<and> launches_ok t' \<and> (\<exists>y. registry t' l = Some y \<and> al_status y = TERMINATED)
    \<and> (\<forall>j. j \<noteq> l \<longrightarrow> registry t' j = registry (pw_launches w) j)"
proof -
  have id: "al_id x = l" using registry_SomeD(2) [OF L l] .
  let ?x1 = "set_clause now TERMINATING TERMINATING no_update x"
  let ?x2 = "set_clause now TERMINATED TERMINATED no_update ?x1"
  obtain t1 where t1: "begin_termination now l (pw_launches w) = (Inr True, t1)" "launches_ok t1"
    "registry t1 = (registry (pw_launches w))(l \<mapsto> ?x1)"
    using begin_termination_move [OF L, of now l] l st
    by (cases "begin_termination now l (pw_launches w)") (auto simp: guarded_move_def)
  have l1: "registry t1 l = Some ?x1" by (simp add: t1(3))
  have "TERMINATED \<in> launch_transitions (al_status ?x1)" by simp
  from cas_update_hit [OF t1(2) l1 refl no_update_artifact transition_index_allows [OF l1 this], of now]
  obtain t2 where t2: "confirm_terminated now l t1 = (Inr True, t2)" "launches_ok t2"
    "registry t2 = (registry t1)(l \<mapsto> ?x2)" by (auto simp: confirm_terminated_def)
  have "finalize_launch cfg now run None w = (Inr (), w\<lparr>pw_launches := t2\<rparr>)"
    using cfg run id t1(1) t2(1) l
    by (cases "pc_lifecycle cfg") (simp_all add: finalize_launch_def py_suppress_def py_simps get_launch_registry [OF L])
  with t1(3) t2(2,3) show ?thesis by (intro exI [where x = t2]) simp
qed

end
