(* ===== verification/Polling_Properties.thy ===== *)
theory Polling_Properties
  imports Polling_Runs Task_Board_Properties Launch_Properties
begin

text \<open>The properties of the polling service over its three stores.\<close>

section \<open>Runs of the service\<close>

datatype polling_call =
    PollOnce int "nat \<Rightarrow> spawn_input"
  | CheckRuns int
  | CancelRun int string

fun run_polling_call :: "poll_config \<Rightarrow> polling_call \<Rightarrow> poll_world \<Rightarrow> poll_world" where
  "run_polling_call cfg (PollOnce now inp) w = snd (poll_once cfg now inp w)"
| "run_polling_call cfg (CheckRuns now) w = snd (check_runs cfg now w)"
| "run_polling_call cfg (CancelRun now i) w = snd (cancel_run now i w)"

text \<open>The world after a sequence of calls, each of which may raise.\<close>

fun run_polling :: "poll_config \<Rightarrow> polling_call list \<Rightarrow> poll_world \<Rightarrow> poll_world" where
  "run_polling cfg [] w = w"
| "run_polling cfg (c # cs) w = run_polling cfg cs (run_polling_call cfg c w)"

lemma list_blocking_length:
  "list_launch_blocking t = Inr xs \<Longrightarrow> length xs = length (filter blocking_row t)"
  by (auto simp: list_launch_blocking_def list_runs_def dest: traverse_length)

lemma poll_once_bound:
  assumes ok: "polls_ok (pw_runs w)"
  shows "polls_ok (pw_runs (snd (poll_once cfg now inp w))) \<and>
    int (blocking_count (snd (poll_once cfg now inp w)))
      \<le> max (pc_max_concurrent cfg) (int (blocking_count w))"
proof -
  define first where "first = (if pc_lifecycle cfg \<noteq> None
      then py_bind (on_launches (reconcile_expired_leases now now)) (\<lambda>_. py_return ())
      else (py_return () :: (poll_world, unit) py))"
  define rest where "rest = py_bind (on_runs (py_read list_launch_blocking)) (\<lambda>blocking.
       let available = pc_max_concurrent cfg - int (length blocking) in
       if available \<le> 0 then py_return []
       else
         py_bind (on_tasks (py_read (list_tasks (Some APPROVED) None False))) (\<lambda>approved.
         py_bind (on_launches (py_read (\<lambda>t. poll_candidates (pc_lifecycle cfg \<noteq> None)
             (map pr_task_id blocking) t approved))) (\<lambda>candidates.
           spawn_each cfg now inp 0 (take (nat available) candidates))))"
  have poll: "poll_once cfg now inp = py_bind first (\<lambda>_. rest)"
    by (simp only: poll_once_def first_def rest_def)
  have first: "adds 0 first" unfolding first_def by (intro adds_rules)
  have rest: "polls_ok (pw_runs (snd (rest v))) \<and>
      int (blocking_count (snd (rest v))) \<le> max (pc_max_concurrent cfg) (int (blocking_count v))"
    if v: "polls_ok (pw_runs v)" for v
  proof (cases "list_launch_blocking (pw_runs v)")
    case (Inl e)
    with v show ?thesis by (simp add: rest_def py_simps)
  next
    case (Inr blocking)
    then have len: "length blocking = blocking_count v"
      by (simp add: blocking_count_def list_blocking_length)
    let ?k = "nat (pc_max_concurrent cfg - int (length blocking))"
    show ?thesis
    proof (cases "pc_max_concurrent cfg - int (length blocking) \<le> 0")
      case True
      with Inr v len show ?thesis by (simp add: rest_def py_simps)
    next
      case False
      define tail where "tail = py_bind (on_tasks (py_read (list_tasks (Some APPROVED) None False))) (\<lambda>approved.
         py_bind (on_launches (py_read (\<lambda>t. poll_candidates (pc_lifecycle cfg \<noteq> None)
             (map pr_task_id blocking) t approved))) (\<lambda>candidates.
           spawn_each cfg now inp 0 (take ?k candidates)))"
      have run: "rest v = tail v" using Inr False by (simp add: rest_def py_simps tail_def)
      have "adds ?k (spawn_each cfg now inp 0 (take ?k xs))" for xs
        by (rule adds_mono [OF adds_spawn_each]) simp
      then have "adds ?k tail"
        unfolding tail_def by (intro adds_bind_tail) (simp_all add: adds_rules)
      then have "polls_ok (pw_runs (snd (tail v))) \<and> blocking_count (snd (tail v)) \<le> blocking_count v + ?k"
        using v by (simp add: adds_def)
      with False len show ?thesis unfolding run by auto
    qed
  qed
  obtain r w1 where r: "first w = (r, w1)" by fastforce
  note w1 = addsD [OF first r ok]
  show ?thesis
  proof (cases r)
    case (Inl e)
    with r w1 show ?thesis by (simp add: poll py_simps)
  next
    case (Inr u)
    with r w1 rest [OF w1(1)] show ?thesis by (auto simp: poll py_simps max_def split: if_splits)
  qed
qed

lemma run_polling_ok: "polls_ok (pw_runs w) \<Longrightarrow> polls_ok (pw_runs (run_polling cfg cs w))"
proof (induction cs arbitrary: w)
  case (Cons c cs)
  have "polls_ok (pw_runs (run_polling_call cfg c w))"
    using Cons.prems poll_once_bound adds_check_runs adds_cancel_run
    by (cases c) (auto simp: adds_def)
  with Cons.IH show ?case by simp
qed simp

section \<open>Sample data for the witnesses\<close>

definition sample_world :: "poll_table \<Rightarrow> task_table \<Rightarrow> launch_table \<Rightarrow> poll_world" where
  "sample_world runs tasks launches =
     \<lparr>pw_runs = runs, pw_tasks = tasks, pw_launches = launches, pw_dirs = [''r1''],
      pw_status = (\<lambda>_. None), pw_events = [], pw_kills = []\<rparr>"

definition sample_run :: "poll_status \<Rightarrow> poll_run" where
  "sample_run st = new_poll_run ''r1'' ''t1'' st (Some ''/runs/r1'') None (Some ''task:t1'') (Some ''l1'')"

definition sample_config :: "hasher \<Rightarrow> poll_config" where
  "sample_config H = \<lparr>pc_max_concurrent = 2, pc_fallback = True, pc_lifecycle = Some 300000,
     pc_base_dir = ''/runs'', pc_hasher = H, pc_port = None\<rparr>"

definition sample_input :: spawn_input where
  "sample_input = \<lparr>si_run_id = ''r1'', si_launch_id = ''l1'',
     si_env = \<lparr>se_dir_exists = True, se_in_tmux = True, se_tmux_stdout = Some ''%7'',
       se_pid = None, se_pgid = None\<rparr>\<rparr>"

lemma sample_run_valid [simp]: "valid_poll_run (sample_run st)"
  by (simp add: sample_run_def new_poll_run_def valid_poll_run_def poll_agent_owner_def negative_def
      py_strip_def is_space_def)

lemma sample_run_fields [simp]:
  "pr_id (sample_run st) = ''r1''" "pr_status (sample_run st) = st" "pr_task_id (sample_run st) = ''t1''"
  "pr_started_at (sample_run st) = None" "pr_launch_id (sample_run st) = Some ''l1''"
  "pr_launch_method (sample_run st) = None"
  by (simp_all add: sample_run_def new_poll_run_def)

lemma runs_ok_single: "valid_poll_run x \<Longrightarrow> runs_ok [run_row x]"
  by (auto simp: runs_ok_def polls_ok_def pk_ok_def poll_index_ok_def)

lemma run_map_single: "valid_poll_run x \<Longrightarrow> run_map [run_row x] i = (if i = pr_id x then Some x else None)"
  by (simp add: run_map_def get_run_def lookup_row_def)

section \<open>Properties\<close>

text \<open>
  C19. A poll cycle never takes the number of launch-blocking runs above the concurrency cap: it
  ends with at most the cap, or with no more than it found, whatever the tasks, the registry and
  the environment are, and also when it raises half way.
\<close>

theorem poll_once_respects_cap:
  assumes "polls_ok (pw_runs w)"
  shows "int (blocking_count (snd (poll_once cfg now inp w)))
      \<le> max (pc_max_concurrent cfg) (int (blocking_count w))"
  using poll_once_bound [OF assms] by blast

theorem poll_once_respects_cap_witness:
  "int (blocking_count (snd (poll_once (sample_config sample_hasher) 9 (\<lambda>_. sample_input)
      (sample_world [] [task_row (sample_task ''t1'' APPROVED [])] [])))) \<le> max 2 0"
  using poll_once_respects_cap [of "sample_world [] [task_row (sample_task ''t1'' APPROVED [])] []"
      "sample_config sample_hasher" 9 "\<lambda>_. sample_input"]
  by (simp add: sample_world_def sample_config_def blocking_count_def)

text \<open>
  After any sequence of poll cycles, checks and cancellations the table holds at most one run
  of a task in QUEUED or RUNNING, and at most one row of an id.
\<close>

theorem one_open_run_per_task:
  assumes "polls_ok (pw_runs w)"
  shows "length (filter (\<lambda>r. poll_indexed r \<and> pr_task_id r = tid) (pw_runs (run_polling cfg cs w))) \<le> 1
    \<and> length (filter (\<lambda>r. pr_id r = i) (pw_runs (run_polling cfg cs w))) \<le> 1"
proof -
  have ok: "polls_ok (pw_runs (run_polling cfg cs w))" by (rule run_polling_ok [OF assms])
  have "length (filter (\<lambda>r. pr_task_id r = tid) (filter poll_indexed (pw_runs (run_polling cfg cs w)))) \<le> 1"
    using ok unfolding polls_ok_def poll_index_ok_def by (intro distinct_filter_key) simp
  moreover have "length (filter (\<lambda>r. pr_id r = i) (pw_runs (run_polling cfg cs w))) \<le> 1"
    using ok unfolding polls_ok_def pk_ok_def by (intro distinct_filter_key) simp
  ultimately show ?thesis by (simp add: conj_commute)
qed

theorem one_open_run_per_task_witness:
  "length (filter (\<lambda>r. poll_indexed r \<and> pr_task_id r = ''t1'')
      (pw_runs (run_polling (sample_config sample_hasher) [PollOnce 9 (\<lambda>_. sample_input), CheckRuns 20]
        (sample_world [] [task_row (sample_task ''t1'' APPROVED [])] [])))) \<le> 1"
  using one_open_run_per_task [of "sample_world [] [task_row (sample_task ''t1'' APPROVED [])] []" "''t1''"
      "sample_config sample_hasher" "[PollOnce 9 (\<lambda>_. sample_input), CheckRuns 20]"]
  by (simp add: sample_world_def del: run_polling.simps run_polling_call.simps)

lemma cancel_keeps_launches: "pw_launches (snd (cancel_run now i w)) = pw_launches w"
proof -
  have "preserves (\<lambda>v. pw_launches v = pw_launches w) (cancel_run now i)"
    unfolding cancel_run_def terminate_spawned_agent_def terminate_from_events_def retry_quietly_def
      on_runs_read
    by (intro preserves_rules; rule preservesI)
      (simp_all add: py_simps append_event_def terminate_launch_handle_def)
  from preservesD [OF this, of w] show ?thesis by simp
qed

lemma held_task_is_no_candidate:
  "find_active_by_canonical_key (build_task_key tid) t = Inr (Some x) \<Longrightarrow>
     poll_candidates True blocking t tasks = Inr xs \<Longrightarrow> tid \<notin> ot_id ` set xs"
proof (induction tasks arbitrary: xs)
  case (Cons y ys)
  show ?case
  proof (cases "ot_id y \<in> set blocking")
    case True
    with Cons show ?thesis by simp
  next
    case False
    with Cons.prems(2) obtain a rest where
      a: "find_active_by_canonical_key (build_task_key (ot_id y)) t = Inr a"
      and rest: "poll_candidates True blocking t ys = Inr rest"
      and xs: "xs = (if a = None then y # rest else rest)"
      by (auto simp: res_bind_Inr_iff)
    from Cons.IH [OF Cons.prems(1) rest] have "tid \<notin> ot_id ` set rest" .
    moreover have "a = None \<Longrightarrow> ot_id y \<noteq> tid" using a Cons.prems(1) by auto
    ultimately show ?thesis using xs by auto
  qed
qed simp

text \<open>
  Cancelling a run frees its task on the board but not its launch: when the launch of the run is
  ACTIVE in the registry, no later poll cycle offers the task again, whatever the cycle's lease
  reconciliation does first.
\<close>

theorem cancelled_task_is_not_polled_again:
  assumes L: "launches_ok (pw_launches w)" and x: "registry (pw_launches w) l = Some x"
    and st: "al_status x = ACTIVE" and key: "al_key x = build_task_key tid"
    and cand: "poll_candidates True blocking
      (snd (reconcile_expired_leases n n (pw_launches (snd (cancel_run now i w))))) tasks = Inr xs"
  shows "tid \<notin> ot_id ` set xs"
proof -
  let ?t = "snd (reconcile_expired_leases n n (pw_launches w))"
  have t: "launch_reaches (pw_launches w) ?t"
    using launch_call_reaches [OF L, of "ReconcileLeases n n"] by simp
  have ok: "launches_ok ?t" using t by (simp add: launch_reaches_def)
  obtain xs' where q: "list_expired_leases n (pw_launches w) = Inr xs'" "distinct (map al_id xs')"
    "\<forall>y. y \<in> set xs' \<longleftrightarrow> registry (pw_launches w) (al_id y) = Some y \<and> al_status y \<in> {RESERVED, SPAWNING}
        \<and> \<not> lease_is_valid n y" using list_expired_result [OF L] by blast
  have "\<forall>y \<in> set xs'. registry (pw_launches w) (al_id y) = Some y \<and> al_status y \<in> {RESERVED, SPAWNING, ACTIVE}"
    using q(3) by blast
  from quarantine_each_result [OF L q(2) this, of n lease_expired_reason] q(1)
  have "registry ?t = (\<lambda>i. case registry (pw_launches w) i of None \<Rightarrow> None
        | Some y \<Rightarrow> Some (if y \<in> set xs' then quarantined_now n lease_expired_reason y else y))"
    by (auto simp: reconcile_expired_leases_def py_simps)
  moreover have "x \<notin> set xs'" using q(3) st by auto
  ultimately have kept: "registry ?t l = Some x" using x by simp
  have "is_blocking x" using st by (simp add: is_blocking_def blocking_statuses_def)
  with find_active_result [OF ok, of "build_task_key tid"] kept key obtain y where
    "find_active_by_canonical_key (build_task_key tid) ?t = Inr (Some y)" by blast
  from held_task_is_no_candidate [OF this] cand show ?thesis by (simp add: cancel_keeps_launches)
qed

theorem cancelled_task_is_not_polled_again_witness:
  "\<exists>xs. poll_candidates True [] (snd (reconcile_expired_leases 200 200 (pw_launches (snd (cancel_run 9 ''r1''
        (sample_world [run_row (sample_run Running)] [task_row (sample_task ''t1'' IN_PROGRESS [])]
          [launch_row (sample_launch ACTIVE)]))))))
      [sample_task ''t1'' APPROVED []] = Inr xs \<and> ''t1'' \<notin> ot_id ` set xs"
proof -
  let ?w = "sample_world [run_row (sample_run Running)] [task_row (sample_task ''t1'' IN_PROGRESS [])]
      [launch_row (sample_launch ACTIVE)]"
  have w: "pw_launches ?w = [launch_row (sample_launch ACTIVE)]" by (simp add: sample_world_def)
  have L: "launches_ok (pw_launches ?w)" "registry (pw_launches ?w) ''l1'' = Some (sample_launch ACTIVE)"
    by (simp_all add: w launches_ok_single registry_single)
  have key: "al_key (sample_launch ACTIVE) = build_task_key ''t1''" by code_simp
  have cand: "poll_candidates True [] (snd (reconcile_expired_leases 200 200 (pw_launches (snd (cancel_run 9 ''r1'' ?w)))))
      [sample_task ''t1'' APPROVED []] = Inr []"
    unfolding cancel_keeps_launches w by code_simp
  from cancelled_task_is_not_polled_again [OF L _ key cand] cand show ?thesis by simp
qed

text \<open>
  When the task board refuses to start the task of a new run, because the task is blocked or in
  a wrong status, the attempt to fail the run is itself refused: QUEUED has no transition to FAILED.
  The spawn raises, the run stays QUEUED, and its launch is not marked as failed.
\<close>

theorem refused_start_leaves_run_queued:
  assumes t: "runs_ok (pw_runs w)" and v: "valid_poll_run (new_poll_run (si_run_id inp) tid Queued
      (Some (pc_base_dir cfg @ ''/'' @ si_run_id inp)) None (Some (build_task_key tid)) launch)"
    and refused: "start_task (pc_hasher cfg) (pc_port cfg) tid poll_agent_owner None now (pw_tasks w)
      = (Inl e, ts)" "is_value_error e"
  shows "\<exists>e' w'. start_run cfg now inp tid launch w = (Inl e', w') \<and> is_value_error e' \<and>
    (\<exists>x. run_map (pw_runs w') (si_run_id inp) = Some x \<and> pr_status x = Queued) \<and>
    pw_launches w' = pw_launches w"
proof -
  let ?i = "si_run_id inp" and ?dir = "pc_base_dir cfg @ ''/'' @ si_run_id inp"
  let ?x = "new_poll_run ?i tid Queued (Some ?dir) None (Some (build_task_key tid)) launch"
  have id: "pr_id ?x = ?i" "pr_status ?x = Queued" by (simp_all add: new_poll_run_def)
  obtain t1 where t1: "save_run ?x (pw_runs w) = (Inr (), t1)" "runs_ok t1" "run_map t1 ?i = Some ?x"
    using save_run_result [OF t v] id by auto
  have no: "Failed \<notin> poll_transitions (pr_status ?x)" by (simp add: new_poll_run_def)
  show ?thesis
  proof (cases "is_transition_error e")
    case True
    obtain m where m: "update_run_status now ?i Failed (Some (exc_message e)) t1 = (Inl (ValueError m), t1)"
      using update_run_refused [OF t1(2,3) no] by blast
    have "start_run cfg now inp tid launch w
        = (Inl (ValueError m), w\<lparr>pw_dirs := ?i # pw_dirs w, pw_runs := t1, pw_tasks := ts\<rparr>)"
      using refused True t1(1) v m id
      by (simp add: start_run_def Let_def py_simps create_run_dir_def py_catch_def py_bind_def)
    with t1(3) id(2) show ?thesis by simp
  next
    case False
    have "start_run cfg now inp tid launch w
        = (Inl e, w\<lparr>pw_dirs := ?i # pw_dirs w, pw_runs := t1, pw_tasks := ts\<rparr>)"
      using refused False t1(1) v id
      by (simp add: start_run_def Let_def py_simps create_run_dir_def py_catch_def py_bind_def)
    with t1(3) id(2) refused(2) show ?thesis by simp
  qed
qed

theorem refused_start_leaves_run_queued_witness:
  "\<exists>e' w'. start_run (sample_config sample_hasher) 9 sample_input ''t1'' (Some ''l1'')
      (sample_world [] [task_row (sample_task ''t1'' APPROVED [''t0''])] []) = (Inl e', w')
    \<and> (\<exists>x. run_map (pw_runs w') ''r1'' = Some x \<and> pr_status x = Queued)"
proof -
  let ?w = "sample_world [] [task_row (sample_task ''t1'' APPROVED [''t0''])] []"
  let ?r = "start_task sample_hasher None ''t1'' poll_agent_owner None 9 (pw_tasks ?w)"
  have "(case fst ?r of Inl e \<Rightarrow> is_value_error e | Inr x \<Rightarrow> False)" by code_simp
  then obtain e where e: "?r = (Inl e, snd ?r)" "is_value_error e"
    by (cases ?r) (auto split: sum.splits)
  have v: "valid_poll_run (new_poll_run (si_run_id sample_input) ''t1'' Queued
      (Some (pc_base_dir (sample_config sample_hasher) @ ''/'' @ si_run_id sample_input)) None
      (Some (build_task_key ''t1'')) (Some ''l1''))"
    by (simp add: new_poll_run_def valid_poll_run_def poll_agent_owner_def negative_def
        py_strip_def is_space_def sample_input_def)
  have t: "runs_ok (pw_runs ?w)" by (simp add: runs_ok_def sample_world_def)
  have c: "pc_hasher (sample_config sample_hasher) = sample_hasher"
    "pc_port (sample_config sample_hasher) = None" by (simp_all add: sample_config_def)
  from refused_start_leaves_run_queued [OF t v, unfolded c, OF e] show ?thesis
    by (auto simp: sample_input_def)
qed

lemma cancelled_run_cannot_end:
  assumes "runs_ok (pw_runs w)" and "run_map (pw_runs w) i = Some x" and "pr_status x = Cancelled"
  shows "\<exists>m. on_runs (update_run_status now i new e) w = (Inl (ValueError m), w)"
  using update_run_refused [OF assms(1,2), of new now e] assms(3) by (auto simp: py_simps)

lemma bind_raised:
  assumes "isl (fst (m w))"
  shows "isl (fst (py_bind m k w))" "snd (py_bind m k w) = snd (m w)"
  using assms by (cases "m w"; auto simp: py_bind_def split: sum.splits)+

text \<open>The two endings, as the clean-up followed by the refused status.\<close>

lemma ending_refused:
  assumes t: "runs_ok (pw_runs w)" and x: "run_map (pw_runs w) i = Some x"
    and st: "pr_status x \<in> {Queued, Spawning}" and now: "0 \<le> now"
    and mid: "\<And>v. pw_runs (snd (mid v)) = pw_runs v"
  shows "isl (fst (py_bind (terminate_spawned_agent now i) (\<lambda>_. py_bind mid (\<lambda>_.
            py_bind (on_runs (update_run_status now i new e)) k)) w))
    \<and> (\<exists>y. run_map (pw_runs (snd (py_bind (terminate_spawned_agent now i) (\<lambda>_. py_bind mid (\<lambda>_.
            py_bind (on_runs (update_run_status now i new e)) k)) w))) i = Some y
          \<and> pr_status y \<in> {Spawning, Cancelled})"
proof (cases "pr_status x = Spawning")
  case True
  from terminate_refused [OF t x True, of now] obtain m where
    "terminate_spawned_agent now i w = (Inl (ValueError m), w)" by blast
  with x True show ?thesis by (simp add: py_simps)
next
  case False
  with st have q: "pr_status x = Queued" by simp
  obtain t1 where t1: "runs_ok t1"
    "run_map t1 = (run_map (pw_runs w))(i \<mapsto> status_update now Cancelled Cancelled None x)"
    "same_stores (w\<lparr>pw_runs := t1\<rparr>) (snd (terminate_spawned_agent now i w))"
    using terminate_moved [OF t x _ _ now, of Cancelled] q by (auto simp: cleanup_target_def)
  obtain r w1 where r: "terminate_spawned_agent now i w = (r, w1)" by fastforce
  with t1(3) have runs1: "pw_runs w1 = t1" by (simp add: same_stores_def)
  obtain r2 w2 where r2: "mid w1 = (r2, w2)" by fastforce
  with mid [of w1] runs1 have runs2: "pw_runs w2 = t1" by simp
  have y: "run_map t1 i = Some (status_update now Cancelled Cancelled None x)" by (simp add: t1(2))
  obtain m where m: "on_runs (update_run_status now i new e) w2 = (Inl (ValueError m), w2)"
    using cancelled_run_cannot_end [of w2 i "status_update now Cancelled Cancelled None x" now new e]
      t1(1) y runs2 by auto
  show ?thesis
  proof (cases r)
    case (Inl err)
    with r y runs1 show ?thesis by (simp add: py_simps)
  next
    case first: (Inr u)
    show ?thesis
    proof (cases r2)
      case (Inl err)
      with r r2 first y runs2 show ?thesis by (simp add: py_simps)
    next
      case (Inr v)
      with r r2 first m y runs2 show ?thesis by (simp add: py_simps)
    qed
  qed
qed

text \<open>
  A run that is still QUEUED or SPAWNING when its agent reports COMPLETED or FAILED cannot be
  finished: ending it raises. From SPAWNING the move to TERMINATING is not a transition, and
  from QUEUED the clean-up cancels the run first and the final status is refused. Either way the
  exception leaves \<open>check_runs\<close>, and the task keeps its status.
\<close>

theorem unstarted_run_cannot_finish:
  assumes t: "runs_ok (pw_runs w)" and x: "run_map (pw_runs w) (pr_id x) = Some x"
    and st: "pr_status x \<in> {Queued, Spawning}" and now: "0 \<le> now"
    and report: "pw_status w (pr_id x) = Some s" "sj_status s \<in> {Some ''COMPLETED'', Some ''FAILED''}"
  shows "isl (fst (check_run cfg now x w))
    \<and> (\<exists>y. run_map (pw_runs (snd (check_run cfg now x w))) (pr_id x) = Some y
          \<and> pr_status y \<in> {Spawning, Cancelled})"
proof (cases "sj_status s = Some ''COMPLETED''")
  case True
  have mid: "pw_runs (snd (py_suppress is_value_error (on_tasks (complete_task tid None now)) v)) = pw_runs v" for tid v
    by (auto simp: py_suppress_def py_simps split: sum.splits)
  have "isl (fst (complete_run cfg now (pr_id x) (pr_task_id x) w))
    \<and> (\<exists>y. run_map (pw_runs (snd (complete_run cfg now (pr_id x) (pr_task_id x) w))) (pr_id x) = Some y
          \<and> pr_status y \<in> {Spawning, Cancelled})"
    unfolding complete_run_def by (rule ending_refused [OF t x st now mid])
  with report True show ?thesis
    by (simp add: check_run_def Let_def py_simps bind_raised)
next
  case False
  let ?err = "case sj_error s of None \<Rightarrow> ''Unknown error'' | Some e \<Rightarrow> e"
  have eq: "fail_run cfg now (pr_id x) ?err w = py_bind (terminate_spawned_agent now (pr_id x)) (\<lambda>_.
     py_bind (py_return ()) (\<lambda>_. py_bind (on_runs (update_run_status now (pr_id x) Failed (Some ?err))) (\<lambda>_.
     py_bind (finalize_launch cfg now x (Some ?err)) (\<lambda>_.
     py_bind (append_event (pr_id x) \<lparr>ev_type = ''failed'',
         ev_fields = [(''error'', JStr ?err), (''timestamp'', JInt now)]\<rparr>) (\<lambda>_. retry_quietly (pr_task_id x)))))) w"
    by (simp add: fail_run_def py_bind_read get_run_map [OF t] x py_bind_return_fun)
  have "isl (fst (fail_run cfg now (pr_id x) ?err w))
    \<and> (\<exists>y. run_map (pw_runs (snd (fail_run cfg now (pr_id x) ?err w))) (pr_id x) = Some y
          \<and> pr_status y \<in> {Spawning, Cancelled})"
    unfolding eq by (rule ending_refused [OF t x st now]) (simp add: py_return_def)
  with report False show ?thesis
    by (simp add: check_run_def Let_def py_simps bind_raised)
qed

theorem unstarted_run_cannot_finish_witness:
  "isl (fst (check_run (sample_config sample_hasher) 9 (sample_run Spawning)
     ((sample_world [run_row (sample_run Spawning)] [] [])
        \<lparr>pw_status := (\<lambda>_. Some \<lparr>sj_status = Some ''COMPLETED'', sj_error = None\<rparr>)\<rparr>)))"
  using unstarted_run_cannot_finish [of "(sample_world [run_row (sample_run Spawning)] [] [])
        \<lparr>pw_status := (\<lambda>_. Some \<lparr>sj_status = Some ''COMPLETED'', sj_error = None\<rparr>)\<rparr>" "sample_run Spawning" 9
      "\<lparr>sj_status = Some ''COMPLETED'', sj_error = None\<rparr>" "sample_config sample_hasher"]
  by (simp add: sample_world_def runs_ok_single run_map_single)

text \<open>
  A run is stored as QUEUED without a start time, and \<open>check_runs\<close> takes a missing time for zero:
  a QUEUED run is quarantined at the first check after it was stored, not after five minutes.
\<close>

theorem queued_run_is_quarantined_at_once:
  assumes t: "runs_ok (pw_runs w)" and x: "run_map (pw_runs w) (pr_id x) = Some x"
    and st: "pr_status x = Queued" "pr_started_at x = None" and quiet: "pw_status w (pr_id x) = None"
    and dir: "pr_id x \<in> set (pw_dirs w)" and now: "300000 < now"
  shows "\<exists>y w'. check_run cfg now x w = (Inr [Some y], w') \<and> pr_status y = Quarantined"
proof -
  have over: "overdue now x" using st now by (simp add: overdue_def elapsed_ms_def queued_timeout_ms_def)
  let ?e = "Some (''Spawn unresolved timeout after '' @ show_int (round_seconds (elapsed_ms now x)) @ ''s'')"
  have "Quarantined \<in> poll_transitions (pr_status x)" by (simp add: st)
  from update_run_leaves_index [OF t x this, of now ?e] now obtain t1 where
    t1: "update_run_status now (pr_id x) Quarantined ?e (pw_runs w) = (Inr (), t1)" "runs_ok t1"
    "run_map t1 = (run_map (pw_runs w))(pr_id x \<mapsto> status_update now Quarantined Quarantined ?e x)" by auto
  have "get_run (pr_id x) t1 = Inr (Some (status_update now Quarantined Quarantined ?e x))"
    using t1(3) by (simp add: get_run_map [OF t1(2)])
  with st quiet over dir t1(1) show ?thesis
    by (simp add: check_run_def Let_def py_simps quarantine_unresolved_def append_event_def)
qed

theorem queued_run_is_quarantined_at_once_witness:
  "\<exists>y w'. check_run (sample_config sample_hasher) 300001 (sample_run Queued)
      (sample_world [run_row (sample_run Queued)] [] []) = (Inr [Some y], w') \<and> pr_status y = Quarantined"
  by (rule queued_run_is_quarantined_at_once)
    (simp_all add: sample_world_def runs_ok_single run_map_single)

text \<open>
  C20. Completing a RUNNING run ends all three records and its process: the process of the run's
  handle is killed, the task is COMPLETED, the run COMPLETED and its launch TERMINATED.
\<close>

theorem complete_run_correct:
  assumes t: "runs_ok (pw_runs w)" and x: "run_map (pw_runs w) i = Some x" "pr_status x = Running"
    and h: "launch_handle_from_run x = Some h"
    and T: "tasks_ok (pw_tasks w)" and task: "board (pw_tasks w) tid = Some y" "ot_status y = IN_PROGRESS"
    and valid: "valid_task (y\<lparr>ot_status := COMPLETED, ot_updated_at := now, ot_requested_by := None\<rparr>)"
    and L: "launches_ok (pw_launches w)" and l: "pr_launch_id x = Some l" "registry (pw_launches w) l = Some z"
      "al_status z = ACTIVE"
    and cfg: "pc_lifecycle cfg \<noteq> None" and dir: "i \<in> set (pw_dirs w)" and now: "0 \<le> now"
  shows "\<exists>w'. complete_run cfg now i tid w = (Inr (), w')
    \<and> (\<exists>x'. run_map (pw_runs w') i = Some x' \<and> pr_status x' = Completed)
    \<and> (\<exists>y'. board (pw_tasks w') tid = Some y' \<and> ot_status y' = COMPLETED)
    \<and> (\<exists>z'. registry (pw_launches w') l = Some z' \<and> al_status z' = TERMINATED)
    \<and> pw_kills w' = pw_kills w @ kill_actions h"
proof -
  let ?x1 = "status_update now Terminating Terminating None x"
  let ?x2 = "status_update now Completed Completed None ?x1"
  have "cleanup_target (pr_status x) = Some Terminating" "Terminating \<in> poll_transitions (pr_status x)"
    using x(2) by (simp_all add: cleanup_target_def)
  from terminate_moved [OF t x(1) this now] h obtain t1 where
    t1: "runs_ok t1" "run_map t1 = (run_map (pw_runs w))(i \<mapsto> ?x1)"
    "terminate_spawned_agent now i w = (Inr (), w\<lparr>pw_runs := t1, pw_kills := pw_kills w @ kill_actions h\<rparr>)"
    by blast
  from complete_task_hit [OF T task valid] obtain y' ts where
    ts: "complete_task tid None now (pw_tasks w) = (Inr y', ts)" "board ts tid = Some y'"
    "ot_status y' = COMPLETED" by auto
  have x1: "run_map t1 i = Some ?x1" by (simp add: t1(2))
  have "Completed \<in> poll_transitions (pr_status ?x1)" by simp
  from update_run_leaves_index [OF t1(1) x1 this now, of None] obtain t2 where
    t2: "update_run_status now i Completed None t1 = (Inr (), t2)" "runs_ok t2"
    "run_map t2 = (run_map t1)(i \<mapsto> ?x2)" by auto
  have g: "get_run i t2 = Inr (Some ?x2)" using t2(3) by (simp add: get_run_map [OF t2(2)])
  let ?w = "w\<lparr>pw_kills := pw_kills w @ kill_actions h, pw_tasks := ts, pw_runs := t2\<rparr>"
  have "pr_launch_id ?x2 = Some l" using l(1) by simp
  from finalize_active [of ?w l z ?x2 cfg now] L l this cfg obtain ls where
    ls: "finalize_launch cfg now ?x2 None ?w = (Inr (), ?w\<lparr>pw_launches := ls\<rparr>)"
    "\<exists>z'. registry ls l = Some z' \<and> al_status z' = TERMINATED" by auto
  have "complete_run cfg now i tid w = (Inr (), (?w\<lparr>pw_launches := ls\<rparr>)
      \<lparr>pw_events := pw_events w @ [(i, \<lparr>ev_type = ''completed'',
         ev_fields = [(''task_id'', JStr tid), (''timestamp'', JInt now)]\<rparr>)]\<rparr>)"
    using t1(3) ts(1) t2(1) g ls(1) dir
    by (simp add: complete_run_def py_simps py_suppress_def append_event_def)
  with ts t2(3) ls(2) show ?thesis by simp
qed

theorem complete_run_correct_witness:
  "\<exists>w'. complete_run (sample_config sample_hasher) 9 ''r1'' ''t1''
      (sample_world [run_row ((sample_run Running)\<lparr>pr_launch_method := Some ''tmux'', pr_launch_pane_id := Some ''%7''\<rparr>)]
        [task_row (sample_task ''t1'' IN_PROGRESS [])] [launch_row (sample_launch ACTIVE)]) = (Inr (), w')
    \<and> pw_kills w' = [KillPane ''%7'']"
proof -
  let ?x = "(sample_run Running)\<lparr>pr_launch_method := Some ''tmux'', pr_launch_pane_id := Some ''%7''\<rparr>"
  let ?y = "sample_task ''t1'' IN_PROGRESS []"
  let ?w = "sample_world [run_row ?x] [task_row ?y] [launch_row (sample_launch ACTIVE)]"
  let ?h = "\<lparr>lh_method = ''tmux'', lh_pane_id = Some ''%7'', lh_pid = None, lh_pgid = None\<rparr>"
  have vx: "valid_poll_run ?x" using sample_run_valid [of Running] by (simp add: valid_poll_run_def)
  have vy: "valid_task ?y" by simp
  have vy': "valid_task (?y\<lparr>ot_status := COMPLETED, ot_updated_at := 9, ot_requested_by := None\<rparr>)"
    by (simp add: sample_task_def valid_task_def)
  have b: "board [task_row ?y] ''t1'' = Some ?y" using single_row_ok(2) [OF vy] by simp
  have h: "launch_handle_from_run ?x = Some ?h" by (simp add: launch_handle_from_run_def truthy_def)
  have "\<exists>w'. complete_run (sample_config sample_hasher) 9 ''r1'' ''t1'' ?w = (Inr (), w')
    \<and> (\<exists>x'. run_map (pw_runs w') ''r1'' = Some x' \<and> pr_status x' = Completed)
    \<and> (\<exists>y'. board (pw_tasks w') ''t1'' = Some y' \<and> ot_status y' = COMPLETED)
    \<and> (\<exists>z'. registry (pw_launches w') ''l1'' = Some z' \<and> al_status z' = TERMINATED)
    \<and> pw_kills w' = pw_kills ?w @ kill_actions ?h"
    by (rule complete_run_correct [where z = "sample_launch ACTIVE", OF _ _ _ h _ _ _ vy'])
      (simp_all add: sample_world_def runs_ok_single run_map_single vx single_row_ok(1) [OF vy] b
        launches_ok_single registry_single sample_config_def)
  then show ?thesis by (auto simp: sample_world_def kill_actions_def truthy_def)
qed

end
