(* ===== verification/Fpel_Repository.thy ===== *)
theory Fpel_Repository
  imports Fpel Sql_Table
begin

text \<open>
  SqliteFPELRepository (src/infrastructure/persistence/repositories/fpel_repository.py) on its five
  tables, with the primary keys, the partial unique index (one ACTIVE proposal per target) and the
  foreign keys of its migrations. Proposals are listed in the order they were created, so that
  \<open>ORDER BY created_at DESC\<close> is the reverse list. A violated constraint raises sqlite3's
  \<open>IntegrityError\<close> and the transaction leaves the tables as they were.
\<close>

record checker_report =
  cr_proposal :: string
  cr_checker :: string
  cr_verdict :: string
  cr_content :: "string option"
  cr_created :: int

record fpel_store =
  fs_proposals :: "frozen_proposal list"
  fs_verdicts :: "sealed_verdict list"
  fs_status :: "string \<Rightarrow> string option"
  fs_reports :: "checker_report list"
  fs_failures :: "(string \<times> string option) list"

section \<open>Reads\<close>

definition active_for :: "string \<Rightarrow> frozen_proposal \<Rightarrow> bool" where
  "active_for target p \<longleftrightarrow> fp_target p = target \<and> fp_lifecycle p = ACTIVE_PROPOSAL"

text \<open>A row becomes an entity through the constructor, which checks its hash.\<close>

definition get_active_frozen_proposal ::
  "hasher \<Rightarrow> string \<Rightarrow> fpel_store \<Rightarrow> frozen_proposal option result" where
  "get_active_frozen_proposal H target s =
     (case find (active_for target) (rev (fs_proposals s)) of
        None \<Rightarrow> Inr None
      | Some p \<Rightarrow> res_bind (make_frozen_proposal H p) (\<lambda>q. Inr (Some q)))"

definition get_all_frozen_proposals ::
  "hasher \<Rightarrow> string \<Rightarrow> fpel_store \<Rightarrow> frozen_proposal list result" where
  "get_all_frozen_proposals H target s =
     traverse (make_frozen_proposal H) (filter (\<lambda>p. fp_target p = target) (rev (fs_proposals s)))"

definition get_sealed_verdict :: "string \<Rightarrow> fpel_store \<Rightarrow> sealed_verdict option result" where
  "get_sealed_verdict i s =
     (case lookup_row sv_id i (fs_verdicts s) of
        None \<Rightarrow> Inr None
      | Some v \<Rightarrow> res_bind (make_sealed_verdict v) (\<lambda>w. Inr (Some w)))"

definition get_checkers_for :: "string \<Rightarrow> fpel_store \<Rightarrow> string list" where
  "get_checkers_for target s =
     remdups (map cr_checker (filter (\<lambda>r. list_ex (\<lambda>p. fp_id p = cr_proposal r \<and> active_for target p)
       (fs_proposals s)) (fs_reports s)))"

definition get_reports_for :: "string \<Rightarrow> fpel_store \<Rightarrow> checker_report list" where
  "get_reports_for i s = filter (\<lambda>r. cr_proposal r = i) (fs_reports s)"

definition get_candidate_verdict :: "string \<Rightarrow> fpel_store \<Rightarrow> string option" where
  "get_candidate_verdict i s =
     (case order_desc cr_created (get_reports_for i s) of [] \<Rightarrow> None | r # _ \<Rightarrow> Some (cr_verdict r))"

definition get_current_content_hash :: "string \<Rightarrow> fpel_store \<Rightarrow> string option" where
  "get_current_content_hash target s =
     map_option fp_hash (find (active_for target) (rev (fs_proposals s)))"

definition get_fpel_status :: "string \<Rightarrow> fpel_store \<Rightarrow> string option" where
  "get_fpel_status target s = fs_status s target"

definition is_failed :: "string \<Rightarrow> fpel_store \<Rightarrow> bool" where
  "is_failed i s \<longleftrightarrow> list_ex (\<lambda>(j, r). j = i) (fs_failures s)"

section \<open>Writes\<close>

definition supersede :: "string list \<Rightarrow> frozen_proposal list \<Rightarrow> frozen_proposal list" where
  "supersede ids ps =
     update_where (\<lambda>p. fp_id p \<in> set ids) (\<lambda>p. p\<lparr>fp_lifecycle := SUPERSEDED\<rparr>) ps"

text \<open>Whether the table accepts the new row: its key is new and, if it is ACTIVE, its target free.\<close>

definition proposal_fits :: "frozen_proposal \<Rightarrow> frozen_proposal list \<Rightarrow> bool" where
  "proposal_fits p ps \<longleftrightarrow> \<not> list_ex (\<lambda>q. fp_id q = fp_id p) ps
     \<and> \<not> (proposal_is_active p \<and> list_ex (active_for (fp_target p)) ps)"

definition unique_failed :: exc where
  "unique_failed = IntegrityError ''UNIQUE constraint failed''"

definition save_frozen_proposal :: "frozen_proposal \<Rightarrow> string list \<Rightarrow> (fpel_store, unit) py" where
  "save_frozen_proposal p ids s =
     (let ps = supersede ids (fs_proposals s)
      in if proposal_fits p ps then (Inr (), s\<lparr>fs_proposals := ps @ [p]\<rparr>)
         else (Inl unique_failed, s))"

definition mark_superseded :: "string \<Rightarrow> (fpel_store, unit) py" where
  "mark_superseded i s = (Inr (), s\<lparr>fs_proposals := supersede [i] (fs_proposals s)\<rparr>)"

text \<open>A verdict row needs a new key that refers to a proposal.\<close>

definition verdict_error :: "sealed_verdict \<Rightarrow> frozen_proposal list \<Rightarrow> sealed_verdict list \<Rightarrow> exc option" where
  "verdict_error v ps vs =
     (if rows_hit (\<lambda>w. sv_id w = sv_id v) vs then Some unique_failed
      else if \<not> list_ex (\<lambda>p. fp_id p = sv_id v) ps
      then Some (IntegrityError ''FOREIGN KEY constraint failed'')
      else None)"

definition save_sealed_verdict :: "sealed_verdict \<Rightarrow> (fpel_store, unit) py" where
  "save_sealed_verdict v s =
     (case verdict_error v (fs_proposals s) (fs_verdicts s) of
        Some e \<Rightarrow> (Inl e, s)
      | None \<Rightarrow> (Inr (), s\<lparr>fs_verdicts := fs_verdicts s @ [v]\<rparr>))"

definition save_fpel_status :: "string \<Rightarrow> string \<Rightarrow> (fpel_store, unit) py" where
  "save_fpel_status target status s = (Inr (), s\<lparr>fs_status := (fs_status s)(target \<mapsto> status)\<rparr>)"

text \<open>\<open>INSERT OR IGNORE\<close> ignores a duplicate key but not a violated foreign key.\<close>

definition mark_proposal_failed :: "string \<Rightarrow> string option \<Rightarrow> (fpel_store, unit) py" where
  "mark_proposal_failed i reason s =
     (if is_failed i s then (Inr (), s)
      else if \<not> list_ex (\<lambda>p. fp_id p = i) (fs_proposals s)
      then (Inl (IntegrityError ''FOREIGN KEY constraint failed''), s)
      else (Inr (), s\<lparr>fs_failures := fs_failures s @ [(i, reason)]\<rparr>))"

definition save_frozen_with_sealed_verdict ::
  "frozen_proposal \<Rightarrow> sealed_verdict \<Rightarrow> string list \<Rightarrow> (fpel_store, unit) py" where
  "save_frozen_with_sealed_verdict p v ids s =
     (let ps = supersede ids (fs_proposals s)
      in if \<not> proposal_fits p ps then (Inl unique_failed, s)
         else (case verdict_error v (ps @ [p]) (fs_verdicts s) of
             Some e \<Rightarrow> (Inl e, s)
           | None \<Rightarrow> (Inr (), s\<lparr>fs_proposals := ps @ [p], fs_verdicts := fs_verdicts s @ [v]\<rparr>)))"

section \<open>What the database keeps\<close>

definition one_active :: "frozen_proposal list \<Rightarrow> bool" where
  "one_active ps \<longleftrightarrow> distinct (map fp_target (filter proposal_is_active ps))"

definition fpel_db_ok :: "fpel_store \<Rightarrow> bool" where
  "fpel_db_ok s \<longleftrightarrow> pk_ok fp_id (fs_proposals s) \<and> one_active (fs_proposals s)
     \<and> pk_ok sv_id (fs_verdicts s) \<and> (\<forall>v \<in> set (fs_verdicts s). sv_id v \<in> fp_id ` set (fs_proposals s))
     \<and> pk_ok (\<lambda>r. (cr_proposal r, cr_checker r)) (fs_reports s)
     \<and> (\<forall>f \<in> set (fs_failures s). fst f \<in> fp_id ` set (fs_proposals s))"

lemma supersede_ids [simp]: "map fp_id (supersede ids ps) = map fp_id ps"
  by (simp add: supersede_def update_where_def)

lemma supersede_id_image [simp]: "fp_id ` set (supersede ids ps) = fp_id ` set ps"
  using supersede_ids by (metis set_map)

lemma supersede_active:
  "filter proposal_is_active (supersede ids ps) = filter (\<lambda>p. proposal_is_active p \<and> fp_id p \<notin> set ids) ps"
  by (induction ps) (auto simp: supersede_def update_where_def proposal_is_active_def)

lemma one_active_supersede: "one_active ps \<Longrightarrow> one_active (supersede ids ps)"
proof -
  assume "one_active ps"
  then have "distinct (map fp_target (filter (\<lambda>p. fp_id p \<notin> set ids) (filter proposal_is_active ps)))"
    unfolding one_active_def by (rule distinct_map_filter)
  then show ?thesis by (simp add: one_active_def supersede_active conj_commute)
qed

lemma append_proposal_ok:
  assumes "pk_ok fp_id ps" "one_active ps" "proposal_fits p ps"
  shows "pk_ok fp_id (ps @ [p]) \<and> one_active (ps @ [p])"
proof -
  have "fp_id p \<notin> fp_id ` set ps" using assms(3) by (auto simp: proposal_fits_def list_ex_iff image_iff)
  moreover have "proposal_is_active p \<Longrightarrow> fp_target p \<notin> fp_target ` set (filter proposal_is_active ps)"
    using assms(3) by (auto simp: proposal_fits_def list_ex_iff active_for_def proposal_is_active_def)
  ultimately show ?thesis using assms(1,2) by (auto simp: pk_ok_def one_active_def)
qed

lemma preserves_save_frozen [preserves_rules]: "preserves fpel_db_ok (save_frozen_proposal p ids)"
proof
  fix s assume ok: "fpel_db_ok s"
  have pk: "pk_ok fp_id (supersede ids (fs_proposals s))"
    using ok by (simp add: fpel_db_ok_def pk_ok_def)
  from append_proposal_ok [OF pk one_active_supersede] ok
  show "fpel_db_ok (snd (save_frozen_proposal p ids s))"
    by (auto simp: save_frozen_proposal_def Let_def fpel_db_ok_def)
qed

lemma preserves_mark_superseded [preserves_rules]: "preserves fpel_db_ok (mark_superseded i)"
  by (rule preservesI) (auto simp: mark_superseded_def fpel_db_ok_def pk_ok_def one_active_supersede)

lemma verdict_error_None:
  "verdict_error v ps vs = None \<longleftrightarrow> sv_id v \<notin> sv_id ` set vs \<and> sv_id v \<in> fp_id ` set ps"
  by (auto simp: verdict_error_def rows_hit_iff list_ex_iff intro: rev_image_eqI)

lemma verdict_fits:
  "verdict_error v ps vs = None \<Longrightarrow> pk_ok sv_id vs \<Longrightarrow> \<forall>w \<in> set vs. sv_id w \<in> fp_id ` set ps \<Longrightarrow>
     pk_ok sv_id (vs @ [v]) \<and> (\<forall>w \<in> set (vs @ [v]). sv_id w \<in> fp_id ` set ps)"
  by (auto simp: verdict_error_def rows_hit_iff list_ex_iff pk_ok_def split: if_splits
      intro: rev_image_eqI)

lemma preserves_save_verdict [preserves_rules]: "preserves fpel_db_ok (save_sealed_verdict v)"
  by (rule preservesI)
    (auto simp: save_sealed_verdict_def fpel_db_ok_def dest: verdict_fits split: option.splits)

lemma preserves_save_status [preserves_rules]: "preserves fpel_db_ok (save_fpel_status target st)"
  by (rule preservesI) (simp add: save_fpel_status_def fpel_db_ok_def)

lemma preserves_mark_failed [preserves_rules]: "preserves fpel_db_ok (mark_proposal_failed i r)"
  by (rule preservesI)
    (auto simp: mark_proposal_failed_def fpel_db_ok_def list_ex_iff intro: rev_image_eqI)

lemma preserves_save_both [preserves_rules]: "preserves fpel_db_ok (save_frozen_with_sealed_verdict p v ids)"
proof
  fix s assume ok: "fpel_db_ok s"
  let ?ps = "supersede ids (fs_proposals s)"
  have pk: "pk_ok fp_id ?ps" using ok by (simp add: fpel_db_ok_def pk_ok_def)
  show "fpel_db_ok (snd (save_frozen_with_sealed_verdict p v ids s))"
  proof (cases "proposal_fits p ?ps \<and> verdict_error v (?ps @ [p]) (fs_verdicts s) = None")
    case True
    with append_proposal_ok [OF pk one_active_supersede] ok
    have "pk_ok fp_id (?ps @ [p])" "one_active (?ps @ [p])" by (auto simp: fpel_db_ok_def)
    moreover have "pk_ok sv_id (fs_verdicts s @ [v])
        \<and> (\<forall>w \<in> set (fs_verdicts s @ [v]). sv_id w \<in> fp_id ` set (?ps @ [p]))"
      using True ok by (intro verdict_fits) (auto simp: fpel_db_ok_def)
    ultimately show ?thesis using True ok
      by (simp add: save_frozen_with_sealed_verdict_def Let_def fpel_db_ok_def)
  next
    case False
    with ok show ?thesis by (auto simp: save_frozen_with_sealed_verdict_def Let_def split: option.splits)
  qed
qed

end
