(* ===== verification/Fpel_Authorization.thy ===== *)
theory Fpel_Authorization
  imports Fpel_Repository
begin

text \<open>
  FPELAuthorizationService (src/application/services/fpel_authorization_service.py): the gate
  \<open>check_sealed\<close>, the failure mark, freezing, checking, sealing and the legacy snapshots. Fresh
  ids and the clock are arguments; \<open>fp_key uid\<close> is the id made of the first twelve digits.
\<close>

definition denied ::
  "fpel_status \<Rightarrow> frozen_proposal option \<Rightarrow> string option \<Rightarrow> seal_failure_reason option \<Rightarrow> auth_decision" where
  "denied st p h reason =
     \<lparr>ad_allowed = False, ad_status = st, ad_frozen_id = map_option fp_id p, ad_hash = h,
      ad_reason = reason, ad_seal_id = None, ad_sealed_at = None\<rparr>"

section \<open>The gate\<close>

definition check_sealed ::
  "hasher \<Rightarrow> string \<Rightarrow> string option \<Rightarrow> fpel_store \<Rightarrow> auth_decision result" where
  "check_sealed H target current_hash s =
     res_bind (get_active_frozen_proposal H target s) (\<lambda>frozen.
       case frozen of
         None \<Rightarrow> Inr (denied NOT_FROZEN None None (Some NO_FROZEN_PROPOSAL))
       | Some p \<Rightarrow>
           if is_failed (fp_id p) s
           then Inr (denied TERMINAL_FAIL (Some p) (Some (fp_hash p)) (Some TERMINAL_FAIL_REASON))
           else res_bind (get_sealed_verdict (fp_id p) s) (\<lambda>sealed.
             case sealed of
               None \<Rightarrow>
                 Inr (denied (if get_candidate_verdict (fp_id p) s = Some ''PASS'' then CHECK_PASSED
                              else FROZEN)
                        (Some p) (Some (fp_hash p)) (Some MISSING_REPORTS))
             | Some v \<Rightarrow>
                 (let effective = (case current_hash of
                        Some h \<Rightarrow> Some h
                      | None \<Rightarrow> get_current_content_hash target s)
                  in if (case effective of None \<Rightarrow> False | Some h \<Rightarrow> detect_scope_change (sv_hash v) h)
                     then Inr (denied SEALED_PASS (Some p) current_hash (Some HASH_MISMATCH))
                     else Inr \<lparr>ad_allowed = True, ad_status = SEALED_PASS,
                            ad_frozen_id = Some (fp_id p), ad_hash = Some (fp_hash p),
                            ad_reason = None, ad_seal_id = Some (sv_id v),
                            ad_sealed_at = Some (sv_sealed_at v)\<rparr>)))"

section \<open>Failing and freezing\<close>

definition mark_fail :: "hasher \<Rightarrow> string \<Rightarrow> string option \<Rightarrow> (fpel_store, frozen_proposal) py" where
  "mark_fail H target reason =
     py_bind (py_read (get_active_frozen_proposal H target)) (\<lambda>frozen.
       case frozen of
         None \<Rightarrow> py_raise (ValueError (''No active frozen proposal for target '' @ quoted target))
       | Some p \<Rightarrow> py_bind (mark_proposal_failed (fp_id p) reason) (\<lambda>_. py_return p))"

definition fp_key :: "string \<Rightarrow> string" where
  "fp_key uid = ''fp-'' @ take 12 uid"

definition active_ids :: "frozen_proposal list \<Rightarrow> string list" where
  "active_ids ps = map fp_id (filter proposal_is_active ps)"

definition new_proposal :: "hasher \<Rightarrow> string \<Rightarrow> string \<Rightarrow> string \<Rightarrow> frozen_proposal" where
  "new_proposal H uid target content =
     \<lparr>fp_id = fp_key uid, fp_target = target, fp_hash = compute_content_hash H content,
      fp_content = content, fp_lifecycle = ACTIVE_PROPOSAL\<rparr>"

definition freeze :: "hasher \<Rightarrow> string \<Rightarrow> string \<Rightarrow> string \<Rightarrow> (fpel_store, frozen_proposal) py" where
  "freeze H uid target content =
     py_bind (py_read (get_all_frozen_proposals H target)) (\<lambda>existing.
     py_bind (py_lift (make_frozen_proposal H (new_proposal H uid target content))) (\<lambda>p.
     py_bind (save_frozen_proposal p (active_ids existing)) (\<lambda>_. py_return p)))"

definition freeze_task ::
  "hasher \<Rightarrow> string \<Rightarrow> string \<Rightarrow> string option \<Rightarrow> string \<Rightarrow> string option
     \<Rightarrow> (fpel_store, frozen_proposal) py" where
  "freeze_task H uid target plan subject description =
     freeze H uid target (task_content plan subject description)"

definition freeze_plan ::
  "hasher \<Rightarrow> string \<Rightarrow> string \<Rightarrow> (string \<times> string \<times> string) list \<Rightarrow> (fpel_store, frozen_proposal) py" where
  "freeze_plan H uid target tasks = freeze H uid target (dump_tasks H tasks)"

section \<open>Checking and sealing\<close>

text \<open>The dictionary from checkers to verdicts; a later report of a checker replaces an earlier one.\<close>

definition report_by_checker :: "checker_report list \<Rightarrow> string \<Rightarrow> string option" where
  "report_by_checker reports = map_of (rev (map (\<lambda>r. (cr_checker r, cr_verdict r)) reports))"

definition check :: "hasher \<Rightarrow> string \<Rightarrow> fpel_store \<Rightarrow> auth_decision result" where
  "check H target s =
     res_bind (get_active_frozen_proposal H target s) (\<lambda>frozen.
       if get_fpel_status target s = Some ''TERMINAL_FAIL''
       then Inr (denied TERMINAL_FAIL frozen (map_option fp_hash frozen) (Some TERMINAL_FAIL_REASON))
       else (case frozen of
           None \<Rightarrow> Inr (denied NOT_FROZEN None None (Some NO_FROZEN_PROPOSAL))
         | Some p \<Rightarrow>
             (let checkers = get_checkers_for target s;
                  verdict = report_by_checker (get_reports_for (fp_id p) s)
              in if checkers = [] then Inr (denied FROZEN (Some p) (Some (fp_hash p)) (Some MISSING_REPORTS))
                 else if list_ex (\<lambda>c. verdict c = Some ''FAIL'') checkers
                 then Inr (denied NEEDS_HUMAN_DECISION (Some p) (Some (fp_hash p)) (Some MISSING_REPORTS))
                 else if list_all (\<lambda>c. verdict c = Some ''PASS'') checkers
                 then Inr (denied CHECK_PASSED (Some p) (Some (fp_hash p)) None)
                 else Inr (denied FROZEN (Some p) (Some (fp_hash p)) (Some MISSING_REPORTS)))))"

definition new_verdict :: "frozen_proposal \<Rightarrow> int \<Rightarrow> string option \<Rightarrow> sealed_verdict" where
  "new_verdict p now source =
     \<lparr>sv_id = fp_id p, sv_verdict = ''SEALED_PASS'', sv_sealed_at = now, sv_hash = fp_hash p,
      sv_source = source\<rparr>"

text \<open>The answer of \<open>seal\<close>: a verdict or the reason of the refusal.\<close>

datatype seal_result = Sealed sealed_verdict | Refused seal_failure_reason

definition seal :: "hasher \<Rightarrow> int \<Rightarrow> string \<Rightarrow> (fpel_store, seal_result) py" where
  "seal H now target =
     py_bind (py_read (get_active_frozen_proposal H target)) (\<lambda>frozen.
       case frozen of
         None \<Rightarrow> py_return (Refused NO_FROZEN_PROPOSAL)
       | Some p \<Rightarrow>
           py_bind (py_read (\<lambda>s. Inr (is_failed (fp_id p) s))) (\<lambda>failed.
           if failed then py_return (Refused TERMINAL_FAIL_REASON)
           else
             py_bind (py_read (get_sealed_verdict (fp_id p))) (\<lambda>existing.
             case existing of
               Some v \<Rightarrow> py_return (Sealed v)
             | None \<Rightarrow>
                 py_bind (py_read (\<lambda>s. Inr (get_fpel_status target s))) (\<lambda>status.
                 if status = Some ''TERMINAL_FAIL'' then py_return (Refused TERMINAL_FAIL_REASON)
                 else
                   py_bind (py_read (\<lambda>s. Inr (get_current_content_hash target s))) (\<lambda>current.
                   if (case current of None \<Rightarrow> False | Some h \<Rightarrow> detect_scope_change (fp_hash p) h)
                   then py_return (Refused HASH_MISMATCH)
                   else
                     py_bind (py_read (\<lambda>s. Inr (get_checkers_for target s))) (\<lambda>checkers.
                     py_bind (py_read (\<lambda>s. Inr (get_reports_for (fp_id p) s))) (\<lambda>reports.
                     if checkers = [] then py_return (Refused MISSING_REPORTS)
                     else if \<not> list_all (\<lambda>c. report_by_checker reports c = Some ''PASS'') checkers
                     then py_return (Refused MISSING_REPORTS)
                     else
                       py_bind (py_lift (make_sealed_verdict (new_verdict p now None))) (\<lambda>v.
                       py_bind (save_sealed_verdict v) (\<lambda>_. py_return (Sealed v))))))))))"

section \<open>The legacy policy\<close>

definition actions_requiring_freeze :: "string list" where
  "actions_requiring_freeze = [''retry'', ''resume'', ''next_phase'', ''major_scope_change'']"

definition evaluate_legacy ::
  "string \<Rightarrow> string option \<Rightarrow> string option \<Rightarrow> bool \<Rightarrow> string option \<Rightarrow> (fpel_store, auth_decision) py" where
  "evaluate_legacy target approved_hash current_hash running action =
     (if running \<and> (case action of None \<Rightarrow> False | Some a \<Rightarrow> a \<in> set actions_requiring_freeze)
      then py_return (denied NOT_FROZEN None current_hash (Some NO_FROZEN_PROPOSAL))
      else if approved_hash = None
      then py_return (denied NEEDS_HUMAN_DECISION None current_hash (Some MISSING_REPORTS))
      else if current_hash \<noteq> approved_hash
      then py_return (denied NEEDS_HUMAN_DECISION None current_hash (Some MISSING_REPORTS))
      else py_bind (save_fpel_status target ''NOT_EVALUATED'') (\<lambda>_.
           py_return (denied NOT_EVALUATED None current_hash (Some MISSING_REPORTS))))"

definition snapshot_legacy_inner ::
  "hasher \<Rightarrow> string \<Rightarrow> int \<Rightarrow> string \<Rightarrow> string \<Rightarrow> (fpel_store, frozen_proposal \<times> sealed_verdict) py" where
  "snapshot_legacy_inner H uid now target content =
     py_bind (py_read (get_active_frozen_proposal H target)) (\<lambda>frozen.
       case frozen of
         Some p \<Rightarrow>
           py_bind (py_read (\<lambda>s. Inr (is_failed (fp_id p) s))) (\<lambda>failed.
           if failed
           then py_raise (ValueError (''Cannot snapshot legacy for target '' @ quoted target
                  @ '': proposal already failed''))
           else
             py_bind (py_read (get_sealed_verdict (fp_id p))) (\<lambda>sealed.
             case sealed of
               Some v \<Rightarrow> py_return (p, v)
             | None \<Rightarrow> py_raise (ValueError (''Cannot snapshot legacy for target '' @ quoted target
                  @ '': active unsealed proposal exists (run 'fpel fail' first)''))))
       | None \<Rightarrow>
           py_bind (py_read (get_all_frozen_proposals H target)) (\<lambda>existing.
           py_bind (py_lift (make_frozen_proposal H (new_proposal H uid target content))) (\<lambda>p.
           py_bind (py_lift (make_sealed_verdict (new_verdict p now (Some ''LEGACY_APPROVED'')))) (\<lambda>v.
           py_bind (save_frozen_with_sealed_verdict p v (active_ids existing)) (\<lambda>_.
             py_return (p, v))))))"

definition snapshot_legacy ::
  "hasher \<Rightarrow> string \<Rightarrow> int \<Rightarrow> string \<Rightarrow> string \<Rightarrow> (fpel_store, frozen_proposal \<times> sealed_verdict) py" where
  "snapshot_legacy H uid now target content = snapshot_legacy_inner H uid now target content"

definition snapshot_legacy_task ::
  "hasher \<Rightarrow> string \<Rightarrow> int \<Rightarrow> string \<Rightarrow> string option \<Rightarrow> string \<Rightarrow> string option
     \<Rightarrow> (fpel_store, frozen_proposal \<times> sealed_verdict) py" where
  "snapshot_legacy_task H uid now target plan subject description =
     snapshot_legacy_inner H uid now target (task_content plan subject description)"

definition snapshot_legacy_plan ::
  "hasher \<Rightarrow> string \<Rightarrow> int \<Rightarrow> string \<Rightarrow> (string \<times> string \<times> string) list
     \<Rightarrow> (fpel_store, frozen_proposal \<times> sealed_verdict) py" where
  "snapshot_legacy_plan H uid now target tasks =
     snapshot_legacy_inner H uid now target (dump_tasks H tasks)"

end
