(* ===== verification/Authorization_Gate.thy ===== *)
theory Authorization_Gate
  imports Task_Board
begin

text \<open>
  The contract of the authorization port (src/domain/ports/fpel_authorization_port.py) as the task board
  uses it: in a store that satisfies its invariant \<open>check_sealed\<close> always answers, and it allows a
  target with a given content hash exactly when that hash is the one authorised for the target.
\<close>

locale authorization_gate =
  fixes check :: "'s \<Rightarrow> string \<Rightarrow> string option \<Rightarrow> auth_decision result"
    and authorised :: "'s \<Rightarrow> string \<Rightarrow> string option"
    and inv :: "'s \<Rightarrow> bool"
  assumes gate_total: "inv s \<Longrightarrow> \<exists>d. check s target current = Inr d"
    and gate_allows: "inv s \<Longrightarrow> check s target (Some h) = Inr d \<Longrightarrow>
      ad_allowed d \<longleftrightarrow> authorised s target = Some h"
begin

lemma gate_iff:
  assumes "inv s"
  shows "fpel_gate H (Some (check s)) i task = Inr () \<longleftrightarrow> authorised s i = Some (compute_task_hash H task)"
proof -
  obtain d where d: "check s i (Some (compute_task_hash H task)) = Inr d" using gate_total [OF assms] by blast
  from gate_allows [OF assms d] d show ?thesis by (simp add: fpel_gate_def)
qed

text \<open>Behind a gate a task starts exactly when it is approved, unblocked and authorised as it is.\<close>

lemma gated_start:
  assumes "tasks_ok t" and "inv s"
  shows "(\<exists>y. fst (start_task H (Some (check s)) i ow rb n t) = Inr y) \<longleftrightarrow>
    (\<exists>x. board t i = Some x \<and> ot_status x = APPROVED \<and> ot_blocked_by x = []
       \<and> authorised s i = Some (compute_task_hash H x)
       \<and> valid_task (x\<lparr>ot_status := IN_PROGRESS, ot_owner := Some ow, ot_updated_at := n,
              ot_requested_by := rb\<rparr>))"
  unfolding transition_success_iff [OF assms(1) _ start_task_form, simplified] start_guard_Inr
    gate_iff [OF assms(2)]
  by blast

text \<open>A change of the content after the authorization closes the gate.\<close>

lemma drift_closes_gate:
  assumes "inv s" and "fpel_gate H (Some (check s)) i old = Inr ()"
    and "compute_task_hash H new \<noteq> compute_task_hash H old"
  shows "fpel_gate H (Some (check s)) i new \<noteq> Inr ()"
  using assms by (simp add: gate_iff)

end

end
