(* ===== verification/Fpel_Gate.thy ===== *)
theory Fpel_Gate
  imports Fpel_Authorization Authorization_Gate
begin

text \<open>
  The FPEL store as a provider of the authorization gate: what is authorised for a target, and the
  proof that \<open>check_sealed\<close> keeps the contract.
\<close>

definition store_ok :: "hasher \<Rightarrow> fpel_store \<Rightarrow> bool" where
  "store_ok H s \<longleftrightarrow> fpel_db_ok s \<and> (\<forall>p \<in> set (fs_proposals s). valid_proposal H p)
     \<and> (\<forall>v \<in> set (fs_verdicts s). valid_verdict v)"

definition active_proposal :: "fpel_store \<Rightarrow> string \<Rightarrow> frozen_proposal option" where
  "active_proposal s target = find (active_for target) (rev (fs_proposals s))"

definition verdict_of :: "fpel_store \<Rightarrow> string \<Rightarrow> sealed_verdict option" where
  "verdict_of s i = lookup_row sv_id i (fs_verdicts s)"

definition authorised_hash :: "fpel_store \<Rightarrow> string \<Rightarrow> string option" where
  "authorised_hash s target =
     (case active_proposal s target of
        None \<Rightarrow> None
      | Some p \<Rightarrow> if is_failed (fp_id p) s then None else map_option sv_hash (verdict_of s (fp_id p)))"

lemma one_active_unique:
  assumes "one_active ps" "p \<in> set ps" "q \<in> set ps" "active_for t p" "active_for t q"
  shows "p = q"
proof -
  from assms(1) have "inj_on fp_target (set (filter proposal_is_active ps))"
    by (simp add: one_active_def distinct_map)
  with assms(2-5) show ?thesis
    by (auto simp: inj_on_def active_for_def proposal_is_active_def)
qed

lemma find_unique:
  "(\<And>x y. x \<in> set xs \<Longrightarrow> y \<in> set xs \<Longrightarrow> P x \<Longrightarrow> P y \<Longrightarrow> x = y) \<Longrightarrow>
     find P xs = Some r \<longleftrightarrow> r \<in> set xs \<and> P r"
  by (induction xs) auto

lemma active_proposal_iff:
  assumes "store_ok H s"
  shows "active_proposal s t = Some p \<longleftrightarrow> p \<in> set (fs_proposals s) \<and> active_for t p"
proof -
  have "one_active (fs_proposals s)" using assms by (simp add: store_ok_def fpel_db_ok_def)
  then show ?thesis
    unfolding active_proposal_def by (subst find_unique) (auto dest: one_active_unique)
qed

lemma active_proposalD:
  assumes "store_ok H s" "active_proposal s t = Some p"
  shows "p \<in> set (fs_proposals s)" "fp_target p = t"
  using assms(2) active_proposal_iff [OF assms(1), of t p] by (simp_all add: active_for_def)

lemma active_proposals_differ:
  assumes s: "store_ok H s" and "active_proposal s u = Some q" "active_proposal s t = Some p" "u \<noteq> t"
  shows "fp_id q \<noteq> fp_id p"
proof
  assume "fp_id q = fp_id p"
  moreover have "pk_ok fp_id (fs_proposals s)" using s by (simp add: store_ok_def fpel_db_ok_def)
  ultimately have "q = p"
    using active_proposalD(1) [OF s assms(2)] active_proposalD(1) [OF s assms(3)] pk_unique by metis
  with assms(4) show False
    using active_proposalD(2) [OF s assms(2)] active_proposalD(2) [OF s assms(3)] by simp
qed

lemma get_active_result:
  assumes "store_ok H s"
  shows "get_active_frozen_proposal H t s = Inr (active_proposal s t)"
proof (cases "active_proposal s t")
  case None
  then show ?thesis
    by (simp add: get_active_frozen_proposal_def active_proposal_def)
next
  case (Some p)
  then have "valid_proposal H p" using active_proposal_iff [OF assms] assms by (auto simp: store_ok_def)
  with Some show ?thesis
    by (simp add: get_active_frozen_proposal_def active_proposal_def)
qed

lemma get_verdict_result: "store_ok H s \<Longrightarrow> get_sealed_verdict i s = Inr (verdict_of s i)"
  by (auto simp: get_sealed_verdict_def verdict_of_def store_ok_def split: option.splits
      dest!: lookup_row_Some)

lemma get_all_result:
  "store_ok H s \<Longrightarrow> get_all_frozen_proposals H t s = Inr (filter (\<lambda>p. fp_target p = t) (rev (fs_proposals s)))"
proof -
  assume "store_ok H s"
  then have "traverse (make_frozen_proposal H) xs = Inr (map (\<lambda>p. p) xs)" if "set xs \<subseteq> set (fs_proposals s)" for xs
    using that by (intro traverse_Inr) (auto simp: store_ok_def)
  then show ?thesis by (simp add: get_all_frozen_proposals_def)
qed

lemma current_hash_result: "get_current_content_hash t s = map_option fp_hash (active_proposal s t)"
  by (simp add: get_current_content_hash_def active_proposal_def)

lemma check_sealed_result:
  assumes "store_ok H s"
  shows "\<exists>d. check_sealed H t h s = Inr d \<and>
    (ad_allowed d \<longleftrightarrow> (\<exists>p v. active_proposal s t = Some p \<and> \<not> is_failed (fp_id p) s \<and> verdict_of s (fp_id p) = Some v
        \<and> (case h of Some x \<Rightarrow> x | None \<Rightarrow> fp_hash p) = sv_hash v))"
proof (cases "active_proposal s t")
  case None
  then show ?thesis by (simp add: check_sealed_def get_active_result [OF assms] denied_def)
next
  case (Some p)
  then show ?thesis
    by (cases "verdict_of s (fp_id p)"; cases h)
      (auto simp: check_sealed_def get_active_result [OF assms] get_verdict_result [OF assms]
        current_hash_result denied_def detect_scope_change_def Let_def)
qed

interpretation fpel: authorization_gate "\<lambda>s t h. check_sealed H t h s" authorised_hash "store_ok H" for H
proof
  fix s t h assume "store_ok H s"
  from check_sealed_result [OF this] show "\<exists>d. check_sealed H t h s = Inr d" by blast
next
  fix s t h d assume "store_ok H s" "check_sealed H t (Some h) s = Inr d"
  with check_sealed_result [of H s t "Some h"]
  have "ad_allowed d \<longleftrightarrow> (\<exists>p v. active_proposal s t = Some p \<and> \<not> is_failed (fp_id p) s
      \<and> verdict_of s (fp_id p) = Some v \<and> h = sv_hash v)" by simp
  then show "ad_allowed d \<longleftrightarrow> authorised_hash s t = Some h"
    by (cases "active_proposal s t") (auto simp: authorised_hash_def)
qed

section \<open>What the writing operations do\<close>

lemma valid_new_proposal:
  "t \<noteq> [] \<Longrightarrow> compute_content_hash H c \<noteq> [] \<Longrightarrow> valid_proposal H (new_proposal H uid t c)"
  by (simp add: valid_proposal_def new_proposal_def fp_key_def)

lemma supersede_mem:
  "p \<in> set (supersede ids ps) \<longleftrightarrow>
     (\<exists>q \<in> set ps. p = (if fp_id q \<in> set ids then q\<lparr>fp_lifecycle := SUPERSEDED\<rparr> else q))"
  by (auto simp: supersede_def update_where_def)

lemma valid_superseded [simp]: "valid_proposal H (p\<lparr>fp_lifecycle := l\<rparr>) = valid_proposal H p"
  by (simp add: valid_proposal_def)

text \<open>Superseding the active proposals of a target frees it and leaves the other targets alone.\<close>

lemma supersede_target:
  fixes t :: string and s :: fpel_store
  assumes s: "store_ok H s"
  defines "ids \<equiv> active_ids (filter (\<lambda>p. fp_target p = t) (rev (fs_proposals s)))"
  shows "p \<in> set (supersede ids (fs_proposals s)) \<and> active_for u p \<longleftrightarrow>
           p \<in> set (fs_proposals s) \<and> active_for u p \<and> u \<noteq> t"
proof -
  have pk: "pk_ok fp_id (fs_proposals s)" using s by (simp add: store_ok_def fpel_db_ok_def)
  have ids: "fp_id q \<in> set ids \<longleftrightarrow> active_for t q" if "q \<in> set (fs_proposals s)" for q
    using pk_unique [OF pk that] that
    by (auto simp: ids_def active_ids_def active_for_def proposal_is_active_def)
  show ?thesis
    unfolding supersede_mem using ids
    by (auto simp: active_for_def split: if_splits dest: arg_cong [where f = fp_lifecycle])
qed

lemma freeze_result:
  assumes s: "store_ok H s" and valid: "valid_proposal H (new_proposal H uid t content)"
    and fresh: "fp_key uid \<notin> fp_id ` set (fs_proposals s)"
  shows "\<exists>s'. freeze H uid t content s = (Inr (new_proposal H uid t content), s') \<and> store_ok H s'
    \<and> active_proposal s' t = Some (new_proposal H uid t content)
    \<and> (\<forall>u. u \<noteq> t \<longrightarrow> active_proposal s' u = active_proposal s u)
    \<and> fs_verdicts s' = fs_verdicts s \<and> fs_failures s' = fs_failures s"
proof -
  let ?p = "new_proposal H uid t content"
  let ?ids = "active_ids (filter (\<lambda>p. fp_target p = t) (rev (fs_proposals s)))"
  let ?ps = "supersede ?ids (fs_proposals s)"
  have p: "fp_id ?p = fp_key uid" "fp_target ?p = t" "active_for t ?p" "proposal_is_active ?p"
    by (simp_all add: new_proposal_def active_for_def proposal_is_active_def)
  have "\<not> list_ex (active_for t) ?ps" using supersede_target [OF s] by (auto simp: list_ex_iff)
  moreover have "fp_key uid \<notin> fp_id ` set ?ps" using fresh by simp
  then have "\<not> list_ex (\<lambda>q. fp_id q = fp_key uid) ?ps"
    by (auto simp: list_ex_iff) (metis image_eqI supersede_id_image)
  ultimately have fits: "proposal_fits ?p ?ps" using p by (simp add: proposal_fits_def)
  let ?s = "s\<lparr>fs_proposals := ?ps @ [?p]\<rparr>"
  have run: "freeze H uid t content s = (Inr ?p, ?s)"
    using valid fits by (simp add: freeze_def py_simps get_all_result [OF s] save_frozen_proposal_def Let_def)
  have "fpel_db_ok (snd (save_frozen_proposal ?p ?ids s))"
    using preservesD [OF preserves_save_frozen] s by (simp add: store_ok_def)
  then have "fpel_db_ok ?s" using fits by (simp add: save_frozen_proposal_def Let_def)
  moreover have "\<forall>q \<in> set (?ps @ [?p]). valid_proposal H q"
    using s valid by (auto simp: store_ok_def supersede_mem)
  ultimately have ok: "store_ok H ?s" using s by (simp add: store_ok_def)
  have act: "active_proposal ?s u = Some q \<longleftrightarrow>
      (q \<in> set (fs_proposals s) \<and> active_for u q \<and> u \<noteq> t) \<or> (q = ?p \<and> u = t)" for u q
    using active_proposal_iff [OF ok, of u q] supersede_target [OF s, of q t u] p
    by (auto simp: active_for_def)
  then have "active_proposal ?s t = Some ?p" by simp
  moreover have "active_proposal ?s u = active_proposal s u" if "u \<noteq> t" for u
    by (rule option_eqI) (use act that active_proposal_iff [OF s] in simp)
  ultimately show ?thesis using run ok by auto
qed

lemma mark_fail_result:
  assumes s: "store_ok H s" and p: "active_proposal s t = Some p"
  shows "\<exists>s'. mark_fail H t reason s = (Inr p, s') \<and> store_ok H s' \<and> is_failed (fp_id p) s'
    \<and> fs_proposals s' = fs_proposals s \<and> fs_verdicts s' = fs_verdicts s
    \<and> (\<forall>i. i \<noteq> fp_id p \<longrightarrow> is_failed i s' = is_failed i s)"
proof -
  have p_in: "p \<in> set (fs_proposals s)" using active_proposalD [OF s p] by simp
  then have "list_ex (\<lambda>q. fp_id q = fp_id p) (fs_proposals s)" by (auto simp: list_ex_iff)
  moreover have "fp_id p \<in> fp_id ` set (fs_proposals s)" using p_in by (rule imageI)
  ultimately show ?thesis using s p
    by (cases "is_failed (fp_id p) s")
      (auto simp: mark_fail_def py_simps get_active_result [OF s] mark_proposal_failed_def is_failed_def
        store_ok_def fpel_db_ok_def)
qed

section \<open>Sealing\<close>

lemma valid_new_verdict:
  assumes "valid_proposal H p" and "\<forall>x. src = Some x \<longrightarrow> x \<in> set valid_sources"
  shows "valid_verdict (new_verdict p now src)"
proof -
  from assms(1) have "fp_id p \<noteq> []" "fp_hash p \<noteq> []" unfolding valid_proposal_def by blast+
  with assms(2) show ?thesis by (simp add: valid_verdict_def new_verdict_def)
qed

text \<open>The registered checkers of a target are those that reported on its active proposal.\<close>

lemma checkers_of_active:
  assumes s: "store_ok H s" and p: "active_proposal s t = Some p"
  shows "set (get_checkers_for t s) = cr_checker ` set (get_reports_for (fp_id p) s)"
proof -
  have pk: "pk_ok fp_id (fs_proposals s)" using s by (simp add: store_ok_def fpel_db_ok_def)
  have mem: "p \<in> set (fs_proposals s)" "active_for t p" using active_proposal_iff [OF s] p by blast+
  have only: "q = p" if "q \<in> set (fs_proposals s)" "active_for t q" for q
    using active_proposal_iff [OF s, of t q] p that by auto
  have "list_ex (\<lambda>q. fp_id q = cr_proposal r \<and> active_for t q) (fs_proposals s) \<longleftrightarrow> cr_proposal r = fp_id p"
    for r :: checker_report
    unfolding list_ex_iff using mem only by metis
  then show ?thesis by (simp add: get_checkers_for_def get_reports_for_def)
qed

lemma report_by_checker_row:
  assumes s: "store_ok H s" and r: "r \<in> set (get_reports_for i s)"
  shows "report_by_checker (get_reports_for i s) (cr_checker r) = Some (cr_verdict r)"
proof -
  have "distinct (map (\<lambda>r. (cr_proposal r, cr_checker r)) (fs_reports s))"
    using s by (simp add: store_ok_def fpel_db_ok_def pk_ok_def)
  then have "inj_on (\<lambda>r. (cr_proposal r, cr_checker r)) (set (fs_reports s))" "distinct (fs_reports s)"
    by (simp_all add: distinct_map)
  then have "distinct (map cr_checker (get_reports_for i s))"
    by (auto simp: get_reports_for_def distinct_map inj_on_def)
  with r show ?thesis unfolding report_by_checker_def
    by (intro map_of_is_SomeI) (auto simp: comp_def rev_map [symmetric])
qed

lemma all_pass_iff:
  assumes s: "store_ok H s" and p: "active_proposal s t = Some p"
  shows "list_all (\<lambda>c. report_by_checker (get_reports_for (fp_id p) s) c = Some ''PASS'') (get_checkers_for t s)
    \<longleftrightarrow> (\<forall>r \<in> set (get_reports_for (fp_id p) s). cr_verdict r = ''PASS'')"
  using report_by_checker_row [OF s] by (auto simp: list_all_iff checkers_of_active [OF s p])

text \<open>Every outcome of \<open>seal\<close> on a store that is in order.\<close>

definition sealable :: "fpel_store \<Rightarrow> string \<Rightarrow> frozen_proposal \<Rightarrow> bool" where
  "sealable s t p \<longleftrightarrow> get_fpel_status t s \<noteq> Some ''TERMINAL_FAIL''
     \<and> get_reports_for (fp_id p) s \<noteq> []
     \<and> (\<forall>r \<in> set (get_reports_for (fp_id p) s). cr_verdict r = ''PASS'')"

lemma seal_outcome:
  assumes s: "store_ok H s"
  shows "seal H now t s =
    (case active_proposal s t of
       None \<Rightarrow> (Inr (Refused NO_FROZEN_PROPOSAL), s)
     | Some p \<Rightarrow>
         if is_failed (fp_id p) s then (Inr (Refused TERMINAL_FAIL_REASON), s)
         else (case verdict_of s (fp_id p) of
             Some v \<Rightarrow> (Inr (Sealed v), s)
           | None \<Rightarrow>
               if sealable s t p
               then (Inr (Sealed (new_verdict p now None)),
                     s\<lparr>fs_verdicts := fs_verdicts s @ [new_verdict p now None]\<rparr>)
               else (Inr (Refused (if get_fpel_status t s = Some ''TERMINAL_FAIL'' then TERMINAL_FAIL_REASON
                                   else MISSING_REPORTS)), s)))"
proof (cases "active_proposal s t")
  case None
  then show ?thesis by (simp add: seal_def py_simps get_active_result [OF s])
next
  case (Some p)
  have mem: "p \<in> set (fs_proposals s)" "valid_proposal H p"
    using active_proposal_iff [OF s] Some s by (auto simp: store_ok_def)
  have v: "make_sealed_verdict (new_verdict p now None) = Inr (new_verdict p now None)"
    using valid_new_verdict [OF mem(2), of None now] by simp
  have empty: "get_checkers_for t s = [] \<longleftrightarrow> get_reports_for (fp_id p) s = []"
    using checkers_of_active [OF s Some] by (metis image_is_empty set_empty)
  have save: "save_sealed_verdict (new_verdict p now None) s
      = (Inr (), s\<lparr>fs_verdicts := fs_verdicts s @ [new_verdict p now None]\<rparr>)" if "verdict_of s (fp_id p) = None"
  proof -
    have "fp_id p \<notin> sv_id ` set (fs_verdicts s)"
      using that by (simp add: verdict_of_def lookup_row_None)
    with mem(1) have "verdict_error (new_verdict p now None) (fs_proposals s) (fs_verdicts s) = None"
      by (simp add: verdict_error_None new_verdict_def)
    then show ?thesis by (simp add: save_sealed_verdict_def)
  qed
  show ?thesis
    using Some v empty save
    by (cases "verdict_of s (fp_id p)")
      (auto simp: seal_def py_simps get_active_result [OF s] get_verdict_result [OF s] current_hash_result
        detect_scope_change_def all_pass_iff [OF s Some] sealable_def)
qed

lemma seal_keeps_store:
  assumes "store_ok H s"
  shows "store_ok H (snd (seal H now t s))"
proof -
  have "preserves fpel_db_ok (seal H now t)"
    unfolding seal_def by (intro preserves_rules)
  then have "fpel_db_ok (snd (seal H now t s))" using assms by (auto simp: store_ok_def dest: preservesD)
  moreover have "valid_verdict (new_verdict p now None)" if "active_proposal s t = Some p" for p
    using that active_proposal_iff [OF assms] assms
    by (intro valid_new_verdict [of H]) (auto simp: store_ok_def)
  ultimately show ?thesis using assms unfolding seal_outcome [OF assms]
    by (auto simp: store_ok_def split: option.splits if_splits)
qed

section \<open>Legacy snapshots\<close>

lemma snapshot_result:
  assumes s: "store_ok H s" and none: "active_proposal s t = None"
    and valid: "valid_proposal H (new_proposal H uid t content)"
    and fresh: "fp_key uid \<notin> fp_id ` set (fs_proposals s)"
  shows "\<exists>s'. snapshot_legacy_inner H uid now t content s
        = (Inr (new_proposal H uid t content,
               new_verdict (new_proposal H uid t content) now (Some ''LEGACY_APPROVED'')), s')
    \<and> store_ok H s' \<and> active_proposal s' t = Some (new_proposal H uid t content)
    \<and> fs_failures s' = fs_failures s \<and> (\<forall>u. u \<noteq> t \<longrightarrow> active_proposal s' u = active_proposal s u)
    \<and> (\<forall>i. i \<noteq> fp_key uid \<longrightarrow> verdict_of s' i = verdict_of s i)
    \<and> verdict_of s' (fp_key uid) = Some (new_verdict (new_proposal H uid t content) now (Some ''LEGACY_APPROVED''))"
proof -
  let ?p = "new_proposal H uid t content"
  let ?v = "new_verdict ?p now (Some ''LEGACY_APPROVED'')"
  let ?ids = "active_ids (filter (\<lambda>p. fp_target p = t) (rev (fs_proposals s)))"
  let ?ps = "supersede ?ids (fs_proposals s)"
  have p: "fp_id ?p = fp_key uid" "fp_target ?p = t" "active_for t ?p" "proposal_is_active ?p"
    by (simp_all add: new_proposal_def active_for_def proposal_is_active_def)
  have "\<not> list_ex (active_for t) ?ps" using supersede_target [OF s] by (auto simp: list_ex_iff)
  moreover have "fp_key uid \<notin> fp_id ` set ?ps" using fresh by simp
  then have "\<not> list_ex (\<lambda>q. fp_id q = fp_key uid) ?ps"
    by (auto simp: list_ex_iff) (metis image_eqI supersede_id_image)
  ultimately have fits: "proposal_fits ?p ?ps" using p by (simp add: proposal_fits_def)
  have vv: "valid_verdict ?v"
    using valid by (intro valid_new_verdict [of H]) (simp_all add: valid_sources_def)
  have nov: "fp_key uid \<notin> sv_id ` set (fs_verdicts s)"
    using s fresh by (auto simp: store_ok_def fpel_db_ok_def)
  then have noerr: "verdict_error ?v (?ps @ [?p]) (fs_verdicts s) = None"
    using p by (simp add: verdict_error_None new_verdict_def)
  let ?s = "s\<lparr>fs_proposals := ?ps @ [?p], fs_verdicts := fs_verdicts s @ [?v]\<rparr>"
  have run: "snapshot_legacy_inner H uid now t content s = (Inr (?p, ?v), ?s)"
    using none valid vv fits noerr
    by (simp add: snapshot_legacy_inner_def py_simps get_active_result [OF s] get_all_result [OF s]
        save_frozen_with_sealed_verdict_def Let_def)
  have "fpel_db_ok (snd (save_frozen_with_sealed_verdict ?p ?v ?ids s))"
    using preservesD [OF preserves_save_both] s by (simp add: store_ok_def)
  then have "fpel_db_ok ?s" using fits noerr by (simp add: save_frozen_with_sealed_verdict_def Let_def)
  moreover have "\<forall>q \<in> set (?ps @ [?p]). valid_proposal H q"
    using s valid by (auto simp: store_ok_def supersede_mem)
  ultimately have ok: "store_ok H ?s" using s vv by (simp add: store_ok_def)
  have act: "active_proposal ?s u = Some q \<longleftrightarrow>
      (q \<in> set (fs_proposals s) \<and> active_for u q \<and> u \<noteq> t) \<or> (q = ?p \<and> u = t)" for u q
    using active_proposal_iff [OF ok, of u q] supersede_target [OF s, of q t u] p
    by (auto simp: active_for_def)
  then have "active_proposal ?s t = Some ?p" by simp
  moreover have "active_proposal ?s u = active_proposal s u" if "u \<noteq> t" for u
    by (rule option_eqI) (use act that active_proposal_iff [OF s] in simp)
  moreover have "verdict_of ?s i = verdict_of s i" if "i \<noteq> fp_key uid" for i
    using that p by (simp add: verdict_of_def lookup_append1 new_verdict_def split: option.splits)
  moreover have "verdict_of ?s (fp_key uid) = Some ?v"
    using lookup_row_None [THEN iffD2, OF nov] p
    by (simp add: verdict_of_def lookup_append1 new_verdict_def)
  ultimately show ?thesis using run ok by auto
qed

end
