(* ===== verification/Fpel_Runs.thy ===== *)
theory Fpel_Runs
  imports Fpel_Gate
begin

text \<open>
  Sequences of calls of the FPEL service, and what every one of them keeps: the database's own rules,
  the validity of its rows, and that a verdict carries the hash of the proposal it seals.
\<close>

datatype fpel_call =
    Freeze string string string
  | Freeze_Task string string "string option" string "string option"
  | Freeze_Plan string string "(string \<times> string \<times> string) list"
  | Mark_Fail string "string option"
  | Seal int string
  | Evaluate_Legacy string "string option" "string option" bool "string option"
  | Snapshot_Legacy string int string string
  | Snapshot_Legacy_Task string int string "string option" string "string option"
  | Snapshot_Legacy_Plan string int string "(string \<times> string \<times> string) list"

fun run_fpel_call :: "hasher \<Rightarrow> fpel_call \<Rightarrow> fpel_store \<Rightarrow> fpel_store" where
  "run_fpel_call H (Freeze uid t c) s = snd (freeze H uid t c s)"
| "run_fpel_call H (Freeze_Task uid t plan sub d) s = snd (freeze_task H uid t plan sub d s)"
| "run_fpel_call H (Freeze_Plan uid t tasks) s = snd (freeze_plan H uid t tasks s)"
| "run_fpel_call H (Mark_Fail t reason) s = snd (mark_fail H t reason s)"
| "run_fpel_call H (Seal now t) s = snd (seal H now t s)"
| "run_fpel_call H (Evaluate_Legacy t a c running action) s = snd (evaluate_legacy t a c running action s)"
| "run_fpel_call H (Snapshot_Legacy uid now t c) s = snd (snapshot_legacy H uid now t c s)"
| "run_fpel_call H (Snapshot_Legacy_Task uid now t plan sub d) s =
     snd (snapshot_legacy_task H uid now t plan sub d s)"
| "run_fpel_call H (Snapshot_Legacy_Plan uid now t tasks) s = snd (snapshot_legacy_plan H uid now t tasks s)"

definition run_fpel_calls :: "hasher \<Rightarrow> fpel_call list \<Rightarrow> fpel_store \<Rightarrow> fpel_store" where
  "run_fpel_calls H calls s = fold (run_fpel_call H) calls s"

definition empty_store :: fpel_store where
  "empty_store = \<lparr>fs_proposals = [], fs_verdicts = [], fs_status = (\<lambda>t. None), fs_reports = [],
                  fs_failures = []\<rparr>"

definition seals_match :: "fpel_store \<Rightarrow> bool" where
  "seals_match s \<longleftrightarrow> (\<forall>v \<in> set (fs_verdicts s). \<forall>p \<in> set (fs_proposals s).
     sv_id v = fp_id p \<longrightarrow> sv_hash v = fp_hash p)"

definition fpel_inv :: "hasher \<Rightarrow> fpel_store \<Rightarrow> bool" where
  "fpel_inv H s \<longleftrightarrow> store_ok H s \<and> seals_match s"

lemma fpel_inv_store: "fpel_inv H s \<Longrightarrow> store_ok H s"
  by (simp add: fpel_inv_def)

lemma fpel_inv_empty [simp]: "fpel_inv H empty_store"
  by (simp add: fpel_inv_def store_ok_def fpel_db_ok_def empty_store_def seals_match_def pk_ok_def one_active_def)

lemma snd_bind_return [simp]: "snd (py_bind m (\<lambda>_. py_return x) s) = snd (m s)"
  by (simp add: py_bind_def py_return_def split: prod.splits sum.splits)

lemma sealed_hash:
  assumes "fpel_inv H s" "active_proposal s i = Some p" "verdict_of s (fp_id p) = Some v"
  shows "sv_hash v = fp_hash p"
proof -
  have "p \<in> set (fs_proposals s)"
    using active_proposal_iff [OF fpel_inv_store [OF assms(1)]] assms(2) by blast
  moreover have "v \<in> set (fs_verdicts s)" "sv_id v = fp_id p"
    using assms(3) lookup_row_Some unfolding verdict_of_def by metis+
  ultimately show ?thesis using assms(1) unfolding fpel_inv_def seals_match_def by blast
qed

section \<open>Freezing\<close>

text \<open>Adding a valid proposal, with or without its verdict, after others are superseded.\<close>

lemma fpel_inv_status [simp]: "fpel_inv H (s\<lparr>fs_status := st\<rparr>) = fpel_inv H s"
  by (simp add: fpel_inv_def store_ok_def fpel_db_ok_def seals_match_def)

lemma verdicts_refer: "store_ok H s \<Longrightarrow> v \<in> set (fs_verdicts s) \<Longrightarrow> sv_id v \<in> fp_id ` set (fs_proposals s)"
  by (simp add: store_ok_def fpel_db_ok_def)

lemma superseded_match:
  assumes "seals_match s" "v \<in> set (fs_verdicts s)" "p \<in> set (supersede ids (fs_proposals s))" "sv_id v = fp_id p"
  shows "sv_hash v = fp_hash p"
  using assms by (auto simp: seals_match_def supersede_mem split: if_splits)

lemma new_proposal_absent:
  assumes "proposal_fits p (supersede ids (fs_proposals s))" "store_ok H s" "v \<in> set (fs_verdicts s)"
  shows "sv_id v \<noteq> fp_id p"
proof
  assume "sv_id v = fp_id p"
  with verdicts_refer [OF assms(2,3)] have "fp_id p \<in> fp_id ` set (supersede ids (fs_proposals s))"
    by (simp only: supersede_id_image)
  then obtain q where "q \<in> set (supersede ids (fs_proposals s))" "fp_id q = fp_id p" by (metis imageE)
  with assms(1) show False unfolding proposal_fits_def list_ex_iff by blast
qed

lemma save_frozen_inv:
  assumes inv: "fpel_inv H s" and p: "valid_proposal H p"
  shows "fpel_inv H (snd (save_frozen_proposal p ids s))"
proof (cases "proposal_fits p (supersede ids (fs_proposals s))")
  case True
  have m: "seals_match s" using inv by (simp add: fpel_inv_def)
  have "fpel_db_ok (snd (save_frozen_proposal p ids s))"
    using preservesD [OF preserves_save_frozen] inv by (simp add: fpel_inv_def store_ok_def)
  moreover have "seals_match (snd (save_frozen_proposal p ids s))"
    using new_proposal_absent [OF True fpel_inv_store [OF inv]] superseded_match [OF m] True
    by (auto simp: seals_match_def save_frozen_proposal_def Let_def)
  ultimately show ?thesis using inv p True
    by (auto simp: fpel_inv_def store_ok_def save_frozen_proposal_def Let_def supersede_mem)
qed (use inv in \<open>simp add: save_frozen_proposal_def Let_def\<close>)

lemma save_both_inv:
  assumes inv: "fpel_inv H s" and p: "valid_proposal H p" and v: "valid_verdict v"
    and match: "sv_id v = fp_id p" "sv_hash v = fp_hash p"
  shows "fpel_inv H (snd (save_frozen_with_sealed_verdict p v ids s))"
proof (cases "proposal_fits p (supersede ids (fs_proposals s))
    \<and> verdict_error v (supersede ids (fs_proposals s) @ [p]) (fs_verdicts s) = None")
  case True
  let ?ps = "supersede ids (fs_proposals s)"
  have m: "seals_match s" using inv by (simp add: fpel_inv_def)
  have fits: "proposal_fits p ?ps" using True ..
  have "fpel_db_ok (snd (save_frozen_with_sealed_verdict p v ids s))"
    using preservesD [OF preserves_save_both] inv by (simp add: fpel_inv_def store_ok_def)
  moreover have "fp_id p \<noteq> fp_id q" if "q \<in> set ?ps" for q :: frozen_proposal
    using True that match(1) unfolding proposal_fits_def list_ex_iff by metis
  then have "seals_match (s\<lparr>fs_proposals := ?ps @ [p], fs_verdicts := fs_verdicts s @ [v]\<rparr>)"
    using new_proposal_absent [OF fits fpel_inv_store [OF inv]] superseded_match [OF m] match
    by (auto simp: seals_match_def)
  ultimately show ?thesis using inv p v True
    by (auto simp: fpel_inv_def store_ok_def save_frozen_with_sealed_verdict_def Let_def supersede_mem)
qed (use inv in \<open>auto simp: save_frozen_with_sealed_verdict_def Let_def split: option.splits\<close>)

lemma freeze_inv:
  assumes "fpel_inv H s"
  shows "fpel_inv H (snd (freeze H uid t c s))"
  using assms save_frozen_inv [OF assms]
  by (cases "make_frozen_proposal H (new_proposal H uid t c)")
    (auto simp: freeze_def py_simps get_all_result [OF fpel_inv_store] make_frozen_proposal_Inr)

section \<open>The other calls\<close>

lemma mark_failed_inv:
  assumes "fpel_inv H s"
  shows "fpel_inv H (snd (mark_proposal_failed i r s))"
proof -
  have "fpel_db_ok (snd (mark_proposal_failed i r s))"
    using preservesD [OF preserves_mark_failed] assms by (simp add: fpel_inv_def store_ok_def)
  then show ?thesis using assms
    by (auto simp: fpel_inv_def store_ok_def seals_match_def mark_proposal_failed_def split: if_splits)
qed

lemma mark_fail_inv:
  assumes "fpel_inv H s"
  shows "fpel_inv H (snd (mark_fail H t reason s))"
  using assms mark_failed_inv [OF assms]
  by (cases "active_proposal s t") (simp_all add: mark_fail_def py_simps get_active_result [OF fpel_inv_store])

lemma failures_refer: "fpel_inv H s \<Longrightarrow> i \<notin> fp_id ` set (fs_proposals s) \<Longrightarrow> \<not> is_failed i s"
  by (auto simp: fpel_inv_def store_ok_def fpel_db_ok_def is_failed_def list_ex_iff)

lemma seal_inv:
  assumes inv: "fpel_inv H s"
  shows "fpel_inv H (snd (seal H now t s))"
proof -
  have s: "store_ok H s" using inv by (rule fpel_inv_store)
  have m: "seals_match s" using inv by (simp add: fpel_inv_def)
  have "seals_match (snd (seal H now t s))"
  proof (cases "snd (seal H now t s) = s")
    case False
    then obtain p where p: "active_proposal s t = Some p"
      and s': "snd (seal H now t s) = s\<lparr>fs_verdicts := fs_verdicts s @ [new_verdict p now None]\<rparr>"
      unfolding seal_outcome [OF s] by (auto split: option.splits if_splits)
    have p_in: "p \<in> set (fs_proposals s)" using p active_proposal_iff [OF s] by blast
    have pk: "pk_ok fp_id (fs_proposals s)" using s by (simp add: store_ok_def fpel_db_ok_def)
    have "fp_hash p = fp_hash q" if "q \<in> set (fs_proposals s)" "fp_id p = fp_id q" for q :: frozen_proposal
      using pk_unique [OF pk p_in that(1)] that(2) by simp
    with m show ?thesis unfolding s' by (auto simp: seals_match_def new_verdict_def)
  qed (use m in simp)
  then show ?thesis using seal_keeps_store [OF s] by (simp add: fpel_inv_def)
qed

lemma snapshot_inv:
  assumes inv: "fpel_inv H s"
  shows "fpel_inv H (snd (snapshot_legacy_inner H uid now t c s))"
proof -
  have s: "store_ok H s" using inv by (rule fpel_inv_store)
  show ?thesis
  proof (cases "active_proposal s t = None \<and> valid_proposal H (new_proposal H uid t c)")
    case True
    let ?p = "new_proposal H uid t c"
    let ?v = "new_verdict ?p now (Some ''LEGACY_APPROVED'')"
    have v: "valid_verdict ?v"
      using True by (intro valid_new_verdict [of H]) (simp_all add: valid_sources_def)
    have "fpel_inv H (snd (save_frozen_with_sealed_verdict ?p ?v ids s))" for ids
      using True v by (intro save_both_inv [OF inv]) (simp_all add: new_verdict_def)
    with True v show ?thesis
      by (simp add: snapshot_legacy_inner_def py_simps get_active_result [OF s] get_all_result [OF s])
  next
    case False
    with inv show ?thesis
      by (cases "active_proposal s t"; cases "make_frozen_proposal H (new_proposal H uid t c)")
        (auto simp: snapshot_legacy_inner_def py_simps get_active_result [OF s] get_all_result [OF s]
          get_verdict_result [OF s] make_frozen_proposal_Inr split: option.splits)
  qed
qed

lemma evaluate_legacy_inv: "fpel_inv H s \<Longrightarrow> fpel_inv H (snd (evaluate_legacy t a c running action s))"
  by (simp add: evaluate_legacy_def py_simps save_fpel_status_def)

lemma run_fpel_call_inv: "fpel_inv H s \<Longrightarrow> fpel_inv H (run_fpel_call H call s)"
  by (cases call)
    (simp_all add: freeze_inv mark_fail_inv seal_inv snapshot_inv evaluate_legacy_inv freeze_task_def
      freeze_plan_def snapshot_legacy_def snapshot_legacy_task_def snapshot_legacy_plan_def)

lemma run_fpel_calls_inv: "fpel_inv H s \<Longrightarrow> fpel_inv H (run_fpel_calls H calls s)"
  unfolding run_fpel_calls_def by (induction calls arbitrary: s) (simp_all add: run_fpel_call_inv)

section \<open>A frozen target without reports\<close>

definition frozen_unsealed :: "fpel_store \<Rightarrow> string \<Rightarrow> bool" where
  "frozen_unsealed s t \<longleftrightarrow> (\<exists>p. active_proposal s t = Some p \<and> verdict_of s (fp_id p) = None)"

definition stuck :: "hasher \<Rightarrow> string \<Rightarrow> fpel_store \<Rightarrow> bool" where
  "stuck H t s \<longleftrightarrow> fpel_inv H s \<and> fs_reports s = [] \<and> frozen_unsealed s t"

lemma stuckE:
  assumes "stuck H t s"
  obtains p where "fpel_inv H s" "store_ok H s" "active_proposal s t = Some p"
    "verdict_of s (fp_id p) = None" "p \<in> set (fs_proposals s)" "active_for t p"
  using assms active_proposal_iff [of H s t] by (auto simp: stuck_def frozen_unsealed_def fpel_inv_def)

lemma preserves_reports: "preserves (\<lambda>s. fs_reports s = rs) (save_frozen_proposal p ids)"
  "preserves (\<lambda>s. fs_reports s = rs) (save_frozen_with_sealed_verdict p v ids)"
  "preserves (\<lambda>s. fs_reports s = rs) (save_sealed_verdict v)"
  "preserves (\<lambda>s. fs_reports s = rs) (mark_proposal_failed i r)"
  "preserves (\<lambda>s. fs_reports s = rs) (save_fpel_status t st)"
  by (auto intro!: preservesI simp: save_frozen_proposal_def save_frozen_with_sealed_verdict_def
      save_sealed_verdict_def mark_proposal_failed_def save_fpel_status_def Let_def split: option.splits)

lemma run_fpel_call_reports: "fs_reports (run_fpel_call H call s) = fs_reports s"
proof -
  let ?I = "\<lambda>x. fs_reports x = fs_reports s"
  have f: "preserves ?I (freeze H uid t c)" for uid t c
    unfolding freeze_def by (intro preserves_rules preserves_reports)
  have m: "preserves ?I (mark_fail H t r)" for t r
    unfolding mark_fail_def by (intro preserves_rules preserves_reports)
  have l: "preserves ?I (seal H now t)" for now t
    unfolding seal_def by (intro preserves_rules preserves_reports)
  have n: "preserves ?I (snapshot_legacy_inner H uid now t c)" for uid now t c
    unfolding snapshot_legacy_inner_def by (intro preserves_rules preserves_reports)
  have e: "preserves ?I (evaluate_legacy t a c running action)" for t a c running action
    unfolding evaluate_legacy_def by (intro preserves_rules preserves_reports)
  show ?thesis
    by (cases call)
      (simp_all add: preservesD [OF f] preservesD [OF m] preservesD [OF l] preservesD [OF n] preservesD [OF e]
        freeze_task_def freeze_plan_def snapshot_legacy_def snapshot_legacy_task_def snapshot_legacy_plan_def)
qed

lemma freeze_refused:
  assumes s: "store_ok H s"
    and bad: "\<not> valid_proposal H (new_proposal H uid t c) \<or> fp_key uid \<in> fp_id ` set (fs_proposals s)"
  shows "snd (freeze H uid t c s) = s"
proof (cases "make_frozen_proposal H (new_proposal H uid t c)")
  case (Inr p)
  then have p: "p = new_proposal H uid t c" "valid_proposal H p" by (simp_all add: make_frozen_proposal_Inr)
  with bad have "fp_id p \<in> fp_id ` set (supersede ids (fs_proposals s))" for ids
    by (simp add: new_proposal_def)
  then have "\<not> proposal_fits p (supersede ids (fs_proposals s))" for ids
    unfolding proposal_fits_def list_ex_iff by (metis imageE)
  with Inr p show ?thesis
    by (simp add: freeze_def py_simps get_all_result [OF s] save_frozen_proposal_def Let_def)
qed (simp add: freeze_def py_simps get_all_result [OF s])

lemma snapshot_refused:
  assumes s: "store_ok H s"
    and bad: "\<not> valid_proposal H (new_proposal H uid t c) \<or> fp_key uid \<in> fp_id ` set (fs_proposals s)
      \<or> active_proposal s t \<noteq> None"
  shows "snd (snapshot_legacy_inner H uid now t c s) = s"
proof (cases "active_proposal s t")
  case (Some q)
  then show ?thesis
    by (cases "verdict_of s (fp_id q)")
      (simp_all add: snapshot_legacy_inner_def py_simps get_active_result [OF s] get_verdict_result [OF s])
next
  case None
  show ?thesis
  proof (cases "make_frozen_proposal H (new_proposal H uid t c)")
    case (Inr p)
    then have p: "p = new_proposal H uid t c" "valid_proposal H p" by (simp_all add: make_frozen_proposal_Inr)
    with bad None have "fp_id p \<in> fp_id ` set (supersede ids (fs_proposals s))" for ids
      by (simp add: new_proposal_def)
    then have "\<not> proposal_fits p (supersede ids (fs_proposals s))" for ids
      unfolding proposal_fits_def list_ex_iff by (metis imageE)
    moreover have "valid_verdict (new_verdict p now (Some ''LEGACY_APPROVED''))"
      using p(2) by (intro valid_new_verdict [of H]) (simp_all add: valid_sources_def)
    ultimately show ?thesis using Inr p None
      by (simp add: snapshot_legacy_inner_def py_simps get_active_result [OF s] get_all_result [OF s]
          save_frozen_with_sealed_verdict_def Let_def)
  qed (simp add: snapshot_legacy_inner_def py_simps get_active_result [OF s] get_all_result [OF s] None)
qed

lemma no_verdict_for_fresh:
  assumes "store_ok H s" "i \<notin> fp_id ` set (fs_proposals s)"
  shows "verdict_of s i = None"
  using verdicts_refer [OF assms(1)] assms(2) by (auto simp: verdict_of_def lookup_row_None)

lemma verdict_of_same: "fs_verdicts s' = fs_verdicts s \<Longrightarrow> verdict_of s' i = verdict_of s i"
  by (simp add: verdict_of_def)

lemma freeze_frozen_unsealed:
  assumes st: "stuck H t s"
  shows "frozen_unsealed (snd (freeze H uid u c s)) t"
proof -
  from st obtain p where p: "store_ok H s" "active_proposal s t = Some p" "verdict_of s (fp_id p) = None"
    by (rule stuckE)
  show ?thesis
  proof (cases "valid_proposal H (new_proposal H uid u c) \<and> fp_key uid \<notin> fp_id ` set (fs_proposals s)")
    case True
    then obtain s' where s': "snd (freeze H uid u c s) = s'"
      "active_proposal s' u = Some (new_proposal H uid u c)"
      "\<forall>x. x \<noteq> u \<longrightarrow> active_proposal s' x = active_proposal s x" "fs_verdicts s' = fs_verdicts s"
      using freeze_result [OF p(1), of uid u c] by auto
    moreover have "verdict_of s (fp_key uid) = None" using True no_verdict_for_fresh [OF p(1)] by blast
    ultimately show ?thesis using p verdict_of_same [OF s'(4)]
      by (cases "u = t") (simp_all add: frozen_unsealed_def new_proposal_def)
  next
    case False
    then show ?thesis using freeze_refused [OF p(1), of uid u c] p by (auto simp: frozen_unsealed_def)
  qed
qed

lemma snapshot_frozen_unsealed:
  assumes st: "stuck H t s"
  shows "frozen_unsealed (snd (snapshot_legacy_inner H uid now u c s)) t"
proof -
  from st obtain p where p: "store_ok H s" "active_proposal s t = Some p" "verdict_of s (fp_id p) = None"
      "p \<in> set (fs_proposals s)"
    by (rule stuckE)
  show ?thesis
  proof (cases "valid_proposal H (new_proposal H uid u c) \<and> fp_key uid \<notin> fp_id ` set (fs_proposals s)
      \<and> active_proposal s u = None")
    case True
    then obtain s' where s': "snd (snapshot_legacy_inner H uid now u c s) = s'"
      "\<forall>x. x \<noteq> u \<longrightarrow> active_proposal s' x = active_proposal s x"
      "\<forall>i. i \<noteq> fp_key uid \<longrightarrow> verdict_of s' i = verdict_of s i"
      using snapshot_result [OF p(1), of u uid c now] by auto
    moreover have "u \<noteq> t" using True p by auto
    moreover have "fp_id p \<noteq> fp_key uid" using True p(4) by (metis image_eqI)
    ultimately show ?thesis using p by (simp add: frozen_unsealed_def)
  next
    case False
    then show ?thesis using snapshot_refused [OF p(1), of uid u c now] p by (auto simp: frozen_unsealed_def)
  qed
qed

lemma seal_without_reports:
  assumes "store_ok H s" "fs_reports s = []"
  shows "snd (seal H now u s) = s"
  using assms(2) unfolding seal_outcome [OF assms(1)]
  by (auto simp: sealable_def get_reports_for_def split: option.splits)

lemma frozen_unsealed_updates [simp]:
  "frozen_unsealed (s\<lparr>fs_status := f\<rparr>) t = frozen_unsealed s t"
  "frozen_unsealed (s\<lparr>fs_failures := g\<rparr>) t = frozen_unsealed s t"
  by (simp_all add: frozen_unsealed_def active_proposal_def verdict_of_def)

lemma stuck_call:
  assumes st: "stuck H t s"
  shows "stuck H t (run_fpel_call H call s)"
proof -
  from st have inv: "fpel_inv H s" and s: "store_ok H s" and r: "fs_reports s = []" and fu: "frozen_unsealed s t"
    by (simp_all add: stuck_def fpel_inv_store)
  have m: "frozen_unsealed (snd (mark_fail H u reason s)) t" for u reason
    using fu by (cases "active_proposal s u")
      (simp_all add: mark_fail_def py_simps get_active_result [OF s] mark_proposal_failed_def)
  have e: "frozen_unsealed (snd (evaluate_legacy u a c running action s)) t" for u a c running action
    using fu by (simp add: evaluate_legacy_def py_simps save_fpel_status_def)
  have "frozen_unsealed (run_fpel_call H call s) t"
    using fu freeze_frozen_unsealed [OF st] snapshot_frozen_unsealed [OF st] m e
    by (cases call) (simp_all add: seal_without_reports [OF s r] freeze_task_def
        freeze_plan_def snapshot_legacy_def snapshot_legacy_task_def snapshot_legacy_plan_def)
  then show ?thesis using run_fpel_call_inv [OF inv] r by (simp add: stuck_def run_fpel_call_reports)
qed

lemma stuck_calls: "stuck H t s \<Longrightarrow> stuck H t (run_fpel_calls H calls s)"
  unfolding run_fpel_calls_def by (induction calls arbitrary: s) (simp_all add: stuck_call)

end
