(* ===== verification/Fpel_Properties.thy ===== *)
theory Fpel_Properties
  imports Fpel_Runs Task_Board_Properties
begin

text \<open>The properties of the FPEL service, each with a concrete case.\<close>

section \<open>Sample stores\<close>

definition frozen_store :: fpel_store where
  "frozen_store = run_fpel_calls sample_hasher [Freeze ''u1'' ''t1'' ''plan''] empty_store"

definition approved_store :: fpel_store where
  "approved_store = run_fpel_calls sample_hasher [Snapshot_Legacy_Task ''u1'' 5 ''t1'' (Some ''plan'') ''s'' None]
     empty_store"

lemma sample_stores_inv [simp]: "fpel_inv sample_hasher frozen_store" "fpel_inv sample_hasher approved_store"
  by (simp_all add: frozen_store_def approved_store_def run_fpel_calls_inv)

lemma frozen_store_active: "active_proposal frozen_store ''t1'' = Some (new_proposal sample_hasher ''u1'' ''t1'' ''plan'')"
  "verdict_of frozen_store (fp_key ''u1'') = None"
  by code_simp+

lemma approved_store_active:
  "active_proposal approved_store ''t1'' = Some (new_proposal sample_hasher ''u1'' ''t1'' ''plan'')"
  "verdict_of approved_store (fp_key ''u1'')
     = Some (new_verdict (new_proposal sample_hasher ''u1'' ''t1'' ''plan'') 5 (Some ''LEGACY_APPROVED''))"
  by code_simp+

section \<open>The gate\<close>

text \<open>
  C5: whatever calls of the service came before, the gate allows a target exactly when the target has
  an ACTIVE proposal that is not marked as failed and has a verdict, and the content hash the caller
  gives, if it gives one, is the hash of that frozen content.
\<close>

theorem gate_allows_sealed_content:
  assumes "fpel_inv H s0" and "s = run_fpel_calls H calls s0"
  shows "\<exists>d. check_sealed H t h s = Inr d \<and>
    (ad_allowed d \<longleftrightarrow> (\<exists>p \<in> set (fs_proposals s). \<exists>v \<in> set (fs_verdicts s).
        fp_target p = t \<and> fp_lifecycle p = ACTIVE_PROPOSAL \<and> \<not> is_failed (fp_id p) s \<and> sv_id v = fp_id p
        \<and> (case h of None \<Rightarrow> True | Some x \<Rightarrow> x = compute_content_hash H (fp_content p))))"
proof -
  have inv: "fpel_inv H s" using assms by (simp add: run_fpel_calls_inv)
  then have s: "store_ok H s" and m: "seals_match s" by (simp_all add: fpel_inv_def)
  have pkv: "pk_ok sv_id (fs_verdicts s)" using s by (simp add: store_ok_def fpel_db_ok_def)
  have v: "verdict_of s i = Some v \<longleftrightarrow> v \<in> set (fs_verdicts s) \<and> sv_id v = i" for i v
    unfolding verdict_of_def by (rule lookup_row_iff [OF pkv])
  have a: "active_proposal s t = Some p \<longleftrightarrow> p \<in> set (fs_proposals s) \<and> fp_target p = t
      \<and> fp_lifecycle p = ACTIVE_PROPOSAL" for p
    unfolding active_proposal_iff [OF s] active_for_def ..
  have hash: "fp_hash p = compute_content_hash H (fp_content p)" if "p \<in> set (fs_proposals s)" for p
    using s that unfolding store_ok_def valid_proposal_def by blast
  have seal: "sv_hash v = fp_hash p"
    if "p \<in> set (fs_proposals s)" "v \<in> set (fs_verdicts s)" "sv_id v = fp_id p" for p v
    using m that unfolding seals_match_def by blast
  have eff: "(case h of Some x \<Rightarrow> x | None \<Rightarrow> fp_hash p) = sv_hash v
      \<longleftrightarrow> (case h of None \<Rightarrow> True | Some x \<Rightarrow> x = compute_content_hash H (fp_content p))"
    if "p \<in> set (fs_proposals s)" "v \<in> set (fs_verdicts s)" "sv_id v = fp_id p" for p v
    using seal [OF that] hash [OF that(1)] by (cases h) simp_all
  show ?thesis
    using check_sealed_result [OF s, of t h] unfolding v a using eff by blast
qed

theorem gate_allows_sealed_content_witness:
  "\<exists>d. check_sealed sample_hasher ''t1'' (Some ''sha:plan'') approved_store = Inr d \<and> ad_allowed d"
proof -
  let ?p = "new_proposal sample_hasher ''u1'' ''t1'' ''plan''"
  from gate_allows_sealed_content [OF fpel_inv_empty approved_store_def [of], of "''t1''" "Some ''sha:plan''"]
  obtain d where d: "check_sealed sample_hasher ''t1'' (Some ''sha:plan'') approved_store = Inr d"
    "ad_allowed d \<longleftrightarrow> (\<exists>p \<in> set (fs_proposals approved_store). \<exists>v \<in> set (fs_verdicts approved_store).
        fp_target p = ''t1'' \<and> fp_lifecycle p = ACTIVE_PROPOSAL \<and> \<not> is_failed (fp_id p) approved_store
        \<and> sv_id v = fp_id p \<and> ''sha:plan'' = compute_content_hash sample_hasher (fp_content p))"
    by auto
  have "fs_proposals approved_store = [?p]"
    "fs_verdicts approved_store = [new_verdict ?p 5 (Some ''LEGACY_APPROVED'')]"
    "is_failed (fp_id ?p) approved_store = False"
    by code_simp+
  with d show ?thesis
    by (simp add: new_proposal_def new_verdict_def sample_hasher_def compute_content_hash_def canonicalize_def)
qed

text \<open>
  C4: behind the FPEL gate a task starts exactly when it is APPROVED and unblocked and the content it
  has at that moment is the content that was frozen and sealed for it.
\<close>

theorem task_starts_iff_sealed:
  assumes "tasks_ok tb" and "fpel_inv H s"
  shows "(\<exists>y. fst (start_task H (Some (\<lambda>t h. check_sealed H t h s)) i ow rb n tb) = Inr y) \<longleftrightarrow>
    (\<exists>x p. board tb i = Some x \<and> ot_status x = APPROVED \<and> ot_blocked_by x = []
       \<and> active_proposal s i = Some p \<and> \<not> is_failed (fp_id p) s \<and> verdict_of s (fp_id p) \<noteq> None
       \<and> compute_task_hash H x = fp_hash p
       \<and> valid_task (x\<lparr>ot_status := IN_PROGRESS, ot_owner := Some ow, ot_updated_at := n,
              ot_requested_by := rb\<rparr>))"
proof -
  have s: "store_ok H s" using assms(2) by (rule fpel_inv_store)
  have "authorised_hash s i = Some h \<longleftrightarrow> (\<exists>p. active_proposal s i = Some p \<and> \<not> is_failed (fp_id p) s
      \<and> verdict_of s (fp_id p) \<noteq> None \<and> h = fp_hash p)" for h
    using sealed_hash [OF assms(2), of i]
    by (cases "active_proposal s i"; cases "authorised_hash s i") (auto simp: authorised_hash_def split: if_splits)
  then show ?thesis using fpel.gated_start [OF assms(1) s] by auto
qed

theorem task_starts_iff_sealed_witness:
  "\<exists>y. fst (start_task sample_hasher (Some (\<lambda>t h. check_sealed sample_hasher t h approved_store)) ''t1'' ''me'' None 7
             [task_row (sample_task ''t1'' APPROVED [])]) = Inr y"
proof -
  have v: "valid_task (sample_task ''t1'' APPROVED [])" by simp
  have nf: "is_failed (fp_id (new_proposal sample_hasher ''u1'' ''t1'' ''plan'')) approved_store = False"
    by code_simp
  have h: "compute_task_hash sample_hasher (sample_task ''t1'' APPROVED [])
      = fp_hash (new_proposal sample_hasher ''u1'' ''t1'' ''plan'')" by code_simp
  have v': "valid_task ((sample_task ''t1'' APPROVED [])\<lparr>ot_status := IN_PROGRESS, ot_owner := Some ''me'',
      ot_updated_at := 7, ot_requested_by := None\<rparr>)" by (simp add: sample_task_def valid_task_def)
  from task_starts_iff_sealed [OF single_row_ok(1) [OF v] sample_stores_inv(2), of "''t1''" "''me''" None 7]
  show ?thesis using single_row_ok(2) [OF v] approved_store_active nf h v' by (simp add: new_proposal_def)
qed

text \<open>
  C22: freezing new content revokes the authorization of the target, whatever it was sealed for, until
  the new proposal is sealed; the decisions about every other target stay as they were.
\<close>

theorem freeze_revokes:
  assumes inv: "fpel_inv H s" and "t \<noteq> []" and "compute_content_hash H content \<noteq> []"
    and fresh: "fp_key uid \<notin> fp_id ` set (fs_proposals s)"
  shows "\<exists>s'. freeze H uid t content s = (Inr (new_proposal H uid t content), s')
    \<and> (\<exists>d. check_sealed H t h s' = Inr d \<and> \<not> ad_allowed d)
    \<and> (\<forall>u. u \<noteq> t \<longrightarrow> authorised_hash s' u = authorised_hash s u)"
proof -
  have s: "store_ok H s" using inv by (rule fpel_inv_store)
  from freeze_result [OF s valid_new_proposal [OF assms(2,3)] fresh]
  obtain s' where run: "freeze H uid t content s = (Inr (new_proposal H uid t content), s')"
    and s': "store_ok H s'" "active_proposal s' t = Some (new_proposal H uid t content)"
    "\<forall>u. u \<noteq> t \<longrightarrow> active_proposal s' u = active_proposal s u"
    "fs_verdicts s' = fs_verdicts s" "fs_failures s' = fs_failures s" by blast
  have "verdict_of s' (fp_key uid) = None"
    using no_verdict_for_fresh [OF s fresh] verdict_of_same [OF s'(4)] by simp
  then have "\<exists>d. check_sealed H t h s' = Inr d \<and> \<not> ad_allowed d"
    using check_sealed_result [OF s'(1), of t h] s'(2) by (auto simp: new_proposal_def)
  moreover have "is_failed i s' = is_failed i s" for i using s'(5) by (simp add: is_failed_def)
  then have "\<forall>u. u \<noteq> t \<longrightarrow> authorised_hash s' u = authorised_hash s u"
    using s'(3) verdict_of_same [OF s'(4)] by (simp add: authorised_hash_def split: option.splits)
  ultimately show ?thesis using run by blast
qed

theorem freeze_revokes_witness:
  "\<exists>d. check_sealed sample_hasher ''t1'' (Some ''sha:plan'')
         (snd (freeze sample_hasher ''u2'' ''t1'' ''new plan'' approved_store)) = Inr d \<and> \<not> ad_allowed d"
proof -
  have "fp_key ''u2'' \<notin> fp_id ` set (fs_proposals approved_store)" by code_simp
  from freeze_revokes [OF sample_stores_inv(2) _ _ this, of "''t1''" "''new plan''" "Some ''sha:plan''"]
  show ?thesis by (auto simp: sample_hasher_def compute_content_hash_def canonicalize_def)
qed

text \<open>
  The failure mark is an emergency stop: after it the gate denies the target with status
  TERMINAL_FAIL for every hash, sealing and legacy snapshots are refused and change nothing, and only
  the failed proposal is affected.
\<close>

theorem failed_target_is_denied:
  assumes "fpel_inv H s" and "active_proposal s t = Some p"
  shows "\<exists>s'. mark_fail H t reason s = (Inr p, s')
    \<and> (\<exists>d. check_sealed H t h s' = Inr d \<and> \<not> ad_allowed d \<and> ad_status d = TERMINAL_FAIL)
    \<and> seal H now t s' = (Inr (Refused TERMINAL_FAIL_REASON), s')
    \<and> (\<exists>e. snapshot_legacy H uid now t content s' = (Inl (ValueError e), s'))
    \<and> (\<forall>u. u \<noteq> t \<longrightarrow> authorised_hash s' u = authorised_hash s u)"
proof -
  have s: "store_ok H s" using assms(1) by (rule fpel_inv_store)
  from mark_fail_result [OF s assms(2), of reason] obtain s' where run: "mark_fail H t reason s = (Inr p, s')"
    and s': "store_ok H s'" "is_failed (fp_id p) s'" "fs_proposals s' = fs_proposals s"
    "fs_verdicts s' = fs_verdicts s" "\<forall>i. i \<noteq> fp_id p \<longrightarrow> is_failed i s' = is_failed i s" by blast
  have same: "active_proposal s' u = active_proposal s u" for u using s'(3) by (simp add: active_proposal_def)
  have "\<exists>d. check_sealed H t h s' = Inr d \<and> \<not> ad_allowed d \<and> ad_status d = TERMINAL_FAIL"
    using assms(2) s'(2) by (simp add: check_sealed_def get_active_result [OF s'(1)] same denied_def)
  moreover have "seal H now t s' = (Inr (Refused TERMINAL_FAIL_REASON), s')"
    using assms(2) s'(2) by (simp add: seal_outcome [OF s'(1)] same)
  moreover have "\<exists>e. snapshot_legacy H uid now t content s' = (Inl (ValueError e), s')"
    using assms(2) s'(2)
    by (simp add: snapshot_legacy_def snapshot_legacy_inner_def py_simps get_active_result [OF s'(1)] same)
  moreover have "fp_id q \<noteq> fp_id p" if "active_proposal s u = Some q" "u \<noteq> t" for u q
    using active_proposals_differ [OF s that(1) assms(2) that(2)] .
  then have "\<forall>u. u \<noteq> t \<longrightarrow> authorised_hash s' u = authorised_hash s u"
    using s'(5) verdict_of_same [OF s'(4)] same by (simp add: authorised_hash_def split: option.splits)
  ultimately show ?thesis using run by blast
qed

theorem failed_target_is_denied_witness:
  "fst (seal sample_hasher 9 ''t1'' (snd (mark_fail sample_hasher ''t1'' None approved_store)))
     = Inr (Refused TERMINAL_FAIL_REASON)"
proof -
  from failed_target_is_denied [OF sample_stores_inv(2) approved_store_active(1), of None None 9 "''u9''" "''c''"]
  show ?thesis by auto
qed

section \<open>Sealing and snapshots\<close>

lemma fpel_inv_reports:
  "fpel_inv H s \<Longrightarrow> pk_ok (\<lambda>r. (cr_proposal r, cr_checker r)) rs \<Longrightarrow> fpel_inv H (s\<lparr>fs_reports := rs\<rparr>)"
  by (simp add: fpel_inv_def store_ok_def fpel_db_ok_def seals_match_def)

definition reported_store :: fpel_store where
  "reported_store = frozen_store\<lparr>fs_reports :=
     [\<lparr>cr_proposal = fp_key ''u1'', cr_checker = ''lint'', cr_verdict = ''PASS'', cr_content = None, cr_created = 3\<rparr>]\<rparr>"

text \<open>
  C21: an active proposal that is neither failed nor sealed is sealed exactly when at least one checker
  has reported on it, every report is PASS, and the target's status is not TERMINAL_FAIL. The new
  verdict authorises exactly the frozen hash, touches no other target, and sealing again answers the
  same verdict and writes nothing. Otherwise the call answers a refusal and writes nothing.
\<close>

theorem seal_correct:
  assumes inv: "fpel_inv H s" and p: "active_proposal s t = Some p" "\<not> is_failed (fp_id p) s"
    and unsealed: "verdict_of s (fp_id p) = None"
  shows "if get_reports_for (fp_id p) s \<noteq> [] \<and> list_all (\<lambda>r. cr_verdict r = ''PASS'') (get_reports_for (fp_id p) s)
        \<and> get_fpel_status t s \<noteq> Some ''TERMINAL_FAIL''
    then \<exists>s'. seal H now t s = (Inr (Sealed (new_verdict p now None)), s')
       \<and> authorised_hash s' t = Some (fp_hash p)
       \<and> (\<forall>u. u \<noteq> t \<longrightarrow> authorised_hash s' u = authorised_hash s u)
       \<and> (\<forall>later. seal H later t s' = (Inr (Sealed (new_verdict p now None)), s'))
    else \<exists>why. seal H now t s = (Inr (Refused why), s)"
proof -
  have s: "store_ok H s" using inv by (rule fpel_inv_store)
  let ?v = "new_verdict p now None"
  let ?s = "s\<lparr>fs_verdicts := fs_verdicts s @ [?v]\<rparr>"
  have sealable: "sealable s t p \<longleftrightarrow> get_reports_for (fp_id p) s \<noteq> []
      \<and> list_all (\<lambda>r. cr_verdict r = ''PASS'') (get_reports_for (fp_id p) s)
      \<and> get_fpel_status t s \<noteq> Some ''TERMINAL_FAIL''"
    by (auto simp: sealable_def list_all_iff)
  show ?thesis
  proof (cases "sealable s t p")
    case False
    then have "\<exists>why. seal H now t s = (Inr (Refused why), s)" using p unsealed by (simp add: seal_outcome [OF s])
    with False show ?thesis using sealable by auto
  next
    case True
    then have run: "seal H now t s = (Inr (Sealed ?v), ?s)" using p unsealed by (simp add: seal_outcome [OF s])
    have ok: "store_ok H ?s" using seal_keeps_store [OF s, of now t] by (simp add: run)
    have same: "active_proposal ?s u = active_proposal s u" "is_failed i ?s = is_failed i s" for u i
      by (simp_all add: active_proposal_def is_failed_def)
    have v: "verdict_of ?s (fp_id p) = Some ?v"
      using unsealed by (simp add: verdict_of_def lookup_append1 new_verdict_def)
    have other: "fp_id q \<noteq> fp_id p" if "active_proposal s u = Some q" "u \<noteq> t" for u q
      using active_proposals_differ [OF s that(1) p(1) that(2)] .
    have "verdict_of ?s i = verdict_of s i" if "i \<noteq> fp_id p" for i
      using that by (simp add: verdict_of_def lookup_append1 new_verdict_def split: option.splits)
    then have "authorised_hash ?s u = authorised_hash s u" if "u \<noteq> t" for u
      using other [OF _ that] same by (simp add: authorised_hash_def split: option.splits)
    moreover have "authorised_hash ?s t = Some (fp_hash p)"
      using p same v by (simp add: authorised_hash_def new_verdict_def)
    moreover have "seal H later t ?s = (Inr (Sealed ?v), ?s)" for later
      using p same v by (simp add: seal_outcome [OF ok])
    ultimately show ?thesis using True run sealable by auto
  qed
qed

theorem seal_correct_witness:
  "\<exists>s'. fst (seal sample_hasher 9 ''t1'' reported_store)
       = Inr (Sealed (new_verdict (new_proposal sample_hasher ''u1'' ''t1'' ''plan'') 9 None))
     \<and> authorised_hash s' ''t1'' = Some ''sha:plan''"
proof -
  let ?p = "new_proposal sample_hasher ''u1'' ''t1'' ''plan''"
  have inv: "fpel_inv sample_hasher reported_store"
    unfolding reported_store_def by (rule fpel_inv_reports) (simp_all add: pk_ok_def)
  have a: "active_proposal reported_store ''t1'' = Some ?p" "\<not> is_failed (fp_id ?p) reported_store"
    "verdict_of reported_store (fp_id ?p) = None"
    "get_reports_for (fp_id ?p) reported_store \<noteq> []"
    "list_all (\<lambda>r. cr_verdict r = ''PASS'') (get_reports_for (fp_id ?p) reported_store)"
    "get_fpel_status ''t1'' reported_store \<noteq> Some ''TERMINAL_FAIL''"
    by code_simp+
  have h: "fp_hash ?p = ''sha:plan''" by code_simp
  from seal_correct [OF inv a(1-3), of 9] a(4-6) obtain s' where
    "seal sample_hasher 9 ''t1'' reported_store = (Inr (Sealed (new_verdict ?p 9 None)), s')"
    "authorised_hash s' ''t1'' = Some (fp_hash ?p)" by auto
  with h show ?thesis by auto
qed

text \<open>
  A legacy snapshot of a task without an active proposal opens the gate for exactly the contents
  that hash like the task as it was then: the task can start until its content changes.
\<close>

theorem snapshot_opens_the_gate:
  assumes inv: "fpel_inv H s" and none: "active_proposal s t = None" and "t \<noteq> []"
    and "compute_task_hash H x \<noteq> []" and fresh: "fp_key uid \<notin> fp_id ` set (fs_proposals s)"
  shows "\<exists>r s'. snapshot_legacy_task H uid now t (ot_plan_text x) (ot_subject x) (ot_description x) s = (Inr r, s')
    \<and> (\<forall>y. fpel_gate H (Some (\<lambda>t h. check_sealed H t h s')) t y = Inr ()
          \<longleftrightarrow> compute_task_hash H y = compute_task_hash H x)"
proof -
  have s: "store_ok H s" using inv by (rule fpel_inv_store)
  let ?c = "task_content (ot_plan_text x) (ot_subject x) (ot_description x)"
  have hash: "compute_task_hash H x = compute_content_hash H ?c" by (simp add: compute_task_hash_def)
  have valid: "valid_proposal H (new_proposal H uid t ?c)"
    by (rule valid_new_proposal) (use assms hash in simp_all)
  from snapshot_result [OF s none valid fresh, of now]
  obtain s' where run: "\<exists>r. snapshot_legacy_inner H uid now t ?c s = (Inr r, s')"
    and s': "store_ok H s'" "active_proposal s' t = Some (new_proposal H uid t ?c)"
      "fs_failures s' = fs_failures s"
      "verdict_of s' (fp_key uid) = Some (new_verdict (new_proposal H uid t ?c) now (Some ''LEGACY_APPROVED''))"
    by blast
  have "authorised_hash s' t = (if is_failed (fp_key uid) s' then None else Some (compute_task_hash H x))"
    using s' hash by (simp add: authorised_hash_def new_proposal_def new_verdict_def)
  moreover have "\<not> is_failed (fp_key uid) s'"
    using failures_refer [OF inv fresh] s'(3) by (simp add: is_failed_def)
  ultimately have "fpel_gate H (Some (\<lambda>t h. check_sealed H t h s')) t y = Inr ()
      \<longleftrightarrow> compute_task_hash H y = compute_task_hash H x" for y
    using fpel.gate_iff [OF s'(1), of H t y] by auto
  with run show ?thesis unfolding snapshot_legacy_task_def by blast
qed

theorem snapshot_opens_the_gate_witness:
  "\<exists>s'. fpel_gate sample_hasher (Some (\<lambda>t h. check_sealed sample_hasher t h s')) ''t1''
      (sample_task ''t1'' APPROVED []) = Inr ()"
proof -
  let ?x = "sample_task ''t1'' APPROVED []"
  have a: "active_proposal empty_store ''t1'' = None" "compute_task_hash sample_hasher ?x \<noteq> []"
    "fp_key ''u1'' \<notin> fp_id ` set (fs_proposals empty_store)" by code_simp+
  have ne: "''t1'' \<noteq> []" by simp
  from snapshot_opens_the_gate [OF fpel_inv_empty a(1) ne a(2,3), of 5] show ?thesis by blast
qed

section \<open>What the service cannot do\<close>

text \<open>
  Checker reports are only ever read: no call of the service, and no other code of the
  repository, writes one. So a target that is frozen and not sealed while there are no reports can never
  be authorised again, whatever calls follow: the gate denies it, sealing is refused, and a legacy
  snapshot raises, also after the failure mark that the snapshot's error message recommends.
\<close>

theorem frozen_target_stays_closed:
  assumes "fpel_inv H s0" and "fs_reports s0 = []" and "active_proposal s0 t = Some p"
    and "verdict_of s0 (fp_id p) = None" and "s = run_fpel_calls H calls s0"
  shows "(\<exists>d. check_sealed H t h s = Inr d \<and> \<not> ad_allowed d)
    \<and> (\<exists>why. seal H now t s = (Inr (Refused why), s))
    \<and> (\<exists>e. snapshot_legacy H uid now t content s = (Inl (ValueError e), s))"
proof -
  have "stuck H t s0" using assms by (simp add: stuck_def frozen_unsealed_def)
  then have "stuck H t s" unfolding assms(5) by (rule stuck_calls)
  then obtain q where q: "store_ok H s" "active_proposal s t = Some q" "verdict_of s (fp_id q) = None"
    by (rule stuckE)
  have "fs_reports s = []" using \<open>stuck H t s\<close> by (simp add: stuck_def)
  then have "\<not> sealable s t q" by (simp add: sealable_def get_reports_for_def)
  then have "\<exists>why. seal H now t s = (Inr (Refused why), s)" using q by (simp add: seal_outcome)
  moreover have "\<exists>d. check_sealed H t h s = Inr d \<and> \<not> ad_allowed d"
    using check_sealed_result [OF q(1), of t h] q(2,3) by auto
  moreover have "\<exists>e. snapshot_legacy H uid now t content s = (Inl (ValueError e), s)"
    using q(2,3) by (simp add: snapshot_legacy_def snapshot_legacy_inner_def py_simps get_active_result [OF q(1)]
        get_verdict_result [OF q(1)])
  ultimately show ?thesis by blast
qed

theorem frozen_target_stays_closed_witness:
  "\<exists>e. fst (snapshot_legacy sample_hasher ''u9'' 7 ''t1'' ''plan''
     (run_fpel_calls sample_hasher [Mark_Fail ''t1'' None, Freeze ''u2'' ''t1'' ''plan''] frozen_store)) = Inl (ValueError e)"
proof -
  let ?p = "new_proposal sample_hasher ''u1'' ''t1'' ''plan''"
  have r: "fs_reports frozen_store = []" "verdict_of frozen_store (fp_id ?p) = None" by code_simp+
  let ?calls = "[Mark_Fail ''t1'' None, Freeze ''u2'' ''t1'' ''plan'']"
  from frozen_target_stays_closed [OF sample_stores_inv(1) r(1) frozen_store_active(1) r(2) refl,
      where calls = "?calls" and now = 7 and uid = "''u9''" and content = "''plan''"]
  obtain e where "snapshot_legacy sample_hasher ''u9'' 7 ''t1'' ''plan'' (run_fpel_calls sample_hasher ?calls frozen_store)
      = (Inl (ValueError e), run_fpel_calls sample_hasher ?calls frozen_store)" by blast
  then show ?thesis by simp
qed

text \<open>
  The hash check of \<open>seal\<close> compares the stored hash of the active proposal with itself: it never
  answers HASH_MISMATCH, whatever the store and however the content of the target has drifted.
\<close>

theorem seal_never_sees_drift:
  "fst (seal H now t s) \<noteq> Inr (Refused HASH_MISMATCH)"
proof (cases "find (active_for t) (rev (fs_proposals s))")
  case None
  then show ?thesis by (simp add: seal_def py_simps get_active_frozen_proposal_def)
next
  case (Some p)
  show ?thesis
  proof (cases "make_frozen_proposal H p")
    case (Inr q)
    then have "q = p" by (simp add: make_frozen_proposal_Inr)
    with Some Inr show ?thesis
      by (auto simp: seal_def py_simps get_active_frozen_proposal_def get_current_content_hash_def
          detect_scope_change_def py_bind_def split: sum.splits option.splits prod.splits)
  qed (use Some in \<open>simp add: seal_def py_simps get_active_frozen_proposal_def\<close>)
qed

text \<open>
  \<open>check\<close> looks for the failure in the status table, which no code sets to TERMINAL_FAIL, and
  not at the failure mark: marking a target as failed leaves its answers as they were, while
  \<open>check_sealed\<close> on the same store answers TERMINAL_FAIL.
\<close>

theorem check_ignores_the_failure_mark:
  assumes "fpel_inv H s" and "active_proposal s t = Some p" and "s' = snd (mark_fail H t reason s)"
  shows "check H u s' = check H u s
    \<and> (\<exists>d. check_sealed H t h s' = Inr d \<and> ad_status d = TERMINAL_FAIL)"
proof -
  have s: "store_ok H s" using assms(1) by (rule fpel_inv_store)
  from mark_fail_result [OF s assms(2), of reason] have s': "store_ok H s'" "is_failed (fp_id p) s'"
    "fs_proposals s' = fs_proposals s" using assms(3) by auto
  have st: "fs_status s' = fs_status s" "fs_reports s' = fs_reports s"
    using assms(2) by (simp_all add: assms(3) mark_fail_def py_simps get_active_result [OF s] mark_proposal_failed_def)
  have "get_checkers_for u s' = get_checkers_for u s" "get_reports_for i s' = get_reports_for i s"
    "get_active_frozen_proposal H u s' = get_active_frozen_proposal H u s"
    "get_fpel_status u s' = get_fpel_status u s" for i
    using s'(3) st by (simp_all add: get_active_frozen_proposal_def get_fpel_status_def get_checkers_for_def
        get_reports_for_def)
  then have "check H u s' = check H u s" unfolding check_def by presburger
  moreover have "active_proposal s' t = Some p" using assms(2) s'(3) by (simp add: active_proposal_def)
  then have "\<exists>d. check_sealed H t h s' = Inr d \<and> ad_status d = TERMINAL_FAIL"
    using s'(2) by (simp add: check_sealed_def get_active_result [OF s'(1)] denied_def)
  ultimately show ?thesis by blast
qed

theorem check_ignores_the_failure_mark_witness:
  "\<exists>d. check sample_hasher ''t1'' (snd (mark_fail sample_hasher ''t1'' None frozen_store)) = Inr d
     \<and> ad_status d = FROZEN"
proof -
  have "check sample_hasher ''t1'' (snd (mark_fail sample_hasher ''t1'' None frozen_store))
      = check sample_hasher ''t1'' frozen_store"
    using check_ignores_the_failure_mark [OF sample_stores_inv(1) frozen_store_active(1) refl] by blast
  moreover have "check sample_hasher ''t1'' frozen_store = Inr (denied FROZEN
      (Some (new_proposal sample_hasher ''u1'' ''t1'' ''plan'')) (Some ''sha:plan'') (Some MISSING_REPORTS))"
    by code_simp
  then have "\<exists>d. check sample_hasher ''t1'' frozen_store = Inr d \<and> ad_status d = FROZEN" by (simp add: denied_def)
  ultimately show ?thesis by simp
qed

section \<open>What every run keeps\<close>

text \<open>
  C27: after any sequence of calls on an empty store no target has two ACTIVE proposals, no id is used
  twice, every stored proposal carries the hash of its own content, and every verdict seals a stored
  proposal with that proposal's hash.
\<close>

theorem fpel_store_in_order:
  assumes "s = run_fpel_calls H calls empty_store"
  shows "distinct (map fp_target (filter proposal_is_active (fs_proposals s)))
    \<and> distinct (map fp_id (fs_proposals s))
    \<and> (\<forall>p \<in> set (fs_proposals s). fp_hash p = compute_content_hash H (fp_content p))
    \<and> (\<forall>v \<in> set (fs_verdicts s). \<exists>p \<in> set (fs_proposals s). sv_id v = fp_id p \<and> sv_hash v = fp_hash p)"
proof -
  have inv: "fpel_inv H s" unfolding assms by (rule run_fpel_calls_inv [OF fpel_inv_empty])
  then have s: "store_ok H s" "seals_match s" by (simp_all add: fpel_inv_def)
  have "\<forall>p \<in> set (fs_proposals s). fp_hash p = compute_content_hash H (fp_content p)"
    using s(1) unfolding store_ok_def valid_proposal_def by blast
  moreover have "\<exists>p \<in> set (fs_proposals s). sv_id v = fp_id p \<and> sv_hash v = fp_hash p"
    if v: "v \<in> set (fs_verdicts s)" for v :: sealed_verdict
  proof -
    from verdicts_refer [OF s(1) v] obtain p where "p \<in> set (fs_proposals s)" "sv_id v = fp_id p" by (rule imageE)
    with s(2) v show ?thesis unfolding seals_match_def by blast
  qed
  ultimately show ?thesis using s(1) by (auto simp: store_ok_def fpel_db_ok_def one_active_def pk_ok_def)
qed

theorem fpel_store_in_order_witness:
  "distinct (map fp_target (filter proposal_is_active (fs_proposals
     (run_fpel_calls sample_hasher [Freeze ''u1'' ''t1'' ''a'', Freeze ''u2'' ''t1'' ''b''] empty_store))))"
  using fpel_store_in_order [OF refl] by blast

end
