(* ===== verification/Json.thy ===== *)
theory Json
  imports Prelude
begin

text \<open>
  JSON values as Python has them after \<open>json.load\<close>: a dictionary is the list of its entries in
  insertion order, with distinct keys. Numbers are integers. The operations are Python's on such
  values, with the exceptions they raise on a value of another type.
\<close>

datatype json =
    JNull
  | JBool bool
  | JNumber int
  | JString string
  | JArray "json list"
  | JObject "(string \<times> json) list"

fun json_type_name :: "json \<Rightarrow> string" where
  "json_type_name JNull = ''NoneType''"
| "json_type_name (JBool b) = ''bool''"
| "json_type_name (JNumber n) = ''int''"
| "json_type_name (JString s) = ''str''"
| "json_type_name (JArray xs) = ''list''"
| "json_type_name (JObject kvs) = ''dict''"

fun json_truthy :: "json \<Rightarrow> bool" where
  "json_truthy JNull = False"
| "json_truthy (JBool b) = b"
| "json_truthy (JNumber n) = (n \<noteq> 0)"
| "json_truthy (JString s) = (s \<noteq> [])"
| "json_truthy (JArray xs) = (xs \<noteq> [])"
| "json_truthy (JObject kvs) = (kvs \<noteq> [])"

text \<open>\<open>d[k]\<close> with a string \<open>k\<close>.\<close>

fun json_item :: "json \<Rightarrow> string \<Rightarrow> json result" where
  "json_item (JObject kvs) k = (case map_of kvs k of None \<Rightarrow> Inl (KeyError (quoted k)) | Some v \<Rightarrow> Inr v)"
| "json_item JNull k = Inl (TypeError ''object is not subscriptable'')"
| "json_item (JBool b) k = Inl (TypeError ''object is not subscriptable'')"
| "json_item (JNumber n) k = Inl (TypeError ''object is not subscriptable'')"
| "json_item (JString s) k = Inl (TypeError ''indices must be integers'')"
| "json_item (JArray xs) k = Inl (TypeError ''indices must be integers'')"

text \<open>\<open>d.get(k, default)\<close>.\<close>

definition json_get :: "json \<Rightarrow> string \<Rightarrow> json \<Rightarrow> json result" where
  "json_get d k v =
     (case d of
        JObject kvs \<Rightarrow> Inr (case map_of kvs k of None \<Rightarrow> v | Some x \<Rightarrow> x)
      | _ \<Rightarrow> Inl (AttributeError (quoted (json_type_name d) @ '' object has no attribute 'get'')))"

definition json_items :: "json \<Rightarrow> (string \<times> json) list result" where
  "json_items d =
     (case d of
        JObject kvs \<Rightarrow> Inr kvs
      | _ \<Rightarrow> Inl (AttributeError (quoted (json_type_name d) @ '' object has no attribute 'items'')))"

text \<open>What iterating over the value yields: \<open>for x in d\<close> and \<open>tuple(d)\<close>.\<close>

fun json_iter :: "json \<Rightarrow> json list result" where
  "json_iter (JArray xs) = Inr xs"
| "json_iter (JString s) = Inr (map (\<lambda>c. JString [c]) s)"
| "json_iter (JObject kvs) = Inr (map (\<lambda>(k, v). JString k) kvs)"
| "json_iter d = Inl (TypeError (quoted (json_type_name d) @ '' object is not iterable''))"

text \<open>Elements of a \<open>set\<close>: lists and dictionaries are not hashable, and \<open>True == 1\<close>.\<close>

fun json_hashable :: "json \<Rightarrow> bool" where
  "json_hashable (JArray xs) = False"
| "json_hashable (JObject kvs) = False"
| "json_hashable d = True"

fun json_hash_key :: "json \<Rightarrow> json" where
  "json_hash_key (JBool b) = JNumber (if b then 1 else 0)"
| "json_hash_key d = d"

definition json_of_option :: "int option \<Rightarrow> json" where
  "json_of_option x = (case x of None \<Rightarrow> JNull | Some n \<Rightarrow> JNumber n)"

text \<open>\<open>d[k] = v\<close> on a dictionary: a known key keeps its place.\<close>

fun dict_set :: "'k \<Rightarrow> 'v \<Rightarrow> ('k \<times> 'v) list \<Rightarrow> ('k \<times> 'v) list" where
  "dict_set k v [] = [(k, v)]"
| "dict_set k v ((k', v') # kvs) = (if k' = k then (k, v) # kvs else (k', v') # dict_set k v kvs)"

lemma json_item_object [simp]: "map_of kvs k = Some v \<Longrightarrow> json_item (JObject kvs) k = Inr v"
  by simp

lemma json_get_object [simp]:
  "json_get (JObject kvs) k v = Inr (case map_of kvs k of None \<Rightarrow> v | Some x \<Rightarrow> x)"
  by (simp add: json_get_def)

lemma json_items_object [simp]: "json_items (JObject kvs) = Inr kvs"
  by (simp add: json_items_def)

lemma map_of_dict_set: "map_of (dict_set k v kvs) = (map_of kvs)(k \<mapsto> v)"
  by (induction kvs rule: dict_set.induct) auto

lemma keys_dict_set: "set (map fst (dict_set k v kvs)) = insert k (set (map fst kvs))"
  by (induction kvs rule: dict_set.induct) auto

lemma distinct_dict_set: "distinct (map fst kvs) \<Longrightarrow> distinct (map fst (dict_set k v kvs))"
proof (induction kvs rule: dict_set.induct)
  case (2 k v k' v' kvs)
  then show ?case using keys_dict_set [of k v kvs] by auto
qed simp

text \<open>Decoding what was encoded, element by element.\<close>

lemma traverse_map: "traverse f (map g xs) = traverse (\<lambda>x. f (g x)) xs"
  by (induction xs) simp_all

lemma traverse_decode:
  "(\<And>x. x \<in> set xs \<Longrightarrow> f (g x) = Inr x) \<Longrightarrow> traverse f (map g xs) = Inr xs"
  by (induction xs) simp_all

text \<open>A file: absent, holding a text that is not JSON, or holding a JSON value.\<close>

datatype state_file = Absent | Malformed | Holds json

text \<open>How writing a file to the side and renaming it ends.\<close>

datatype write_outcome = Written | WriteFailed string

end
