(* ===== verification/Workflow_State.thy ===== *)
theory Workflow_State
  imports Json
begin

text \<open>
  The workflow's state files (src/application/services/workflow/state.py) with the entities they hold:
  Goal, DerivedRequirement and UserDecision (src/domain/entities/goal.py, derived_requirement.py,
  user_decision.py). Python does not check the types of a dataclass's fields, and the decoders store
  whatever the JSON file holds, so the unchecked fields are \<open>json\<close> values here, with \<open>JNull\<close>
  for \<open>None\<close>; the fields that the decoders convert have the type they are converted to.
\<close>

named_theorems state_codec "the encoders and decoders of the state files"

section \<open>Entities\<close>

datatype decision_status = LOCKED | DEFERRED | DISCRETION

fun decision_status_value :: "decision_status \<Rightarrow> string" where
  "decision_status_value LOCKED = ''locked''"
| "decision_status_value DEFERRED = ''deferred''"
| "decision_status_value DISCRETION = ''discretion''"

record user_decision =
  ud_key :: json
  ud_value :: json
  ud_status :: decision_status
  ud_rationale :: json

fun is_text :: "json \<Rightarrow> bool" where
  "is_text (JString s) = True"
| "is_text d = False"

definition make_user_decision :: "user_decision \<Rightarrow> user_decision result" where
  "make_user_decision d =
     (if \<not> is_text (ud_key d) then Inl (TypeError ''key debe ser un string'')
      else if ud_key d = JString [] then Inl (ValueError (''key no puede estar vac'' @ [CHR 0xED, CHR 0x6F]))
      else if \<not> is_text (ud_value d) then Inl (TypeError ''value debe ser un string'')
      else if ud_rationale d \<noteq> JNull \<and> \<not> is_text (ud_rationale d)
        then Inl (TypeError ''rationale debe ser un string o None'')
      else Inr d)"

definition with_status :: "user_decision \<Rightarrow> decision_status \<Rightarrow> user_decision result" where
  "with_status d st = make_user_decision (d\<lparr>ud_status := st\<rparr>)"

definition with_value :: "user_decision \<Rightarrow> json \<Rightarrow> user_decision result" where
  "with_value d v = make_user_decision (d\<lparr>ud_value := v\<rparr>)"

record goal =
  go_objective :: json
  go_must_haves :: "json list"
  go_nice_to_haves :: "json list"
  go_scope_in :: "json list"
  go_scope_out :: "json list"

definition scope_overlap :: "goal \<Rightarrow> bool" where
  "scope_overlap g \<longleftrightarrow>
     list_ex (\<lambda>x. json_hash_key x \<in> set (map json_hash_key (go_scope_out g))) (go_scope_in g)"

definition make_goal :: "goal \<Rightarrow> goal result" where
  "make_goal g =
     (case go_objective g of
        JString s \<Rightarrow>
          (if s = [] then Inl (ValueError ''objective cannot be empty'')
           else if length s > 10000 then Inl (ValueError ''objective must not exceed 10000 characters'')
           else if \<not> list_all json_hashable (go_scope_in g @ go_scope_out g)
             then Inl (TypeError ''unhashable type'')
           else if scope_overlap g then Inl (ValueError ''scope_in and scope_out must be disjoint'')
           else Inr g)
      | _ \<Rightarrow> Inl (TypeError ''objective must be a string''))"

datatype requirement_priority = MUST | NICE
datatype requirement_source = EXPLICIT | DERIVED

fun requirement_priority_value :: "requirement_priority \<Rightarrow> string" where
  "requirement_priority_value MUST = ''must''"
| "requirement_priority_value NICE = ''nice''"

fun requirement_source_value :: "requirement_source \<Rightarrow> string" where
  "requirement_source_value EXPLICIT = ''explicit''"
| "requirement_source_value DERIVED = ''derived''"

record derived_requirement =
  dr_id :: json
  dr_description :: json
  dr_source :: requirement_source
  dr_priority :: requirement_priority

definition make_requirement :: "derived_requirement \<Rightarrow> derived_requirement result" where
  "make_requirement r =
     (if \<not> is_text (dr_id r) then Inl (TypeError ''id must be a string'')
      else if dr_id r = JString [] then Inl (ValueError ''id cannot be empty'')
      else if \<not> is_text (dr_description r) then Inl (TypeError ''description must be a string'')
      else if dr_description r = JString [] then Inl (ValueError ''description cannot be empty'')
      else Inr r)"

datatype workflow_phase =
    PLANNING_PHASE | OUTLINED | EXECUTING | EXECUTED | VERIFYING | VERIFIED | SHIPPING | SHIPPED
  | HUNTING | HUNTED

fun workflow_phase_value :: "workflow_phase \<Rightarrow> string" where
  "workflow_phase_value PLANNING_PHASE = ''planning''"
| "workflow_phase_value OUTLINED = ''outlined''"
| "workflow_phase_value EXECUTING = ''executing''"
| "workflow_phase_value EXECUTED = ''executed''"
| "workflow_phase_value VERIFYING = ''verifying''"
| "workflow_phase_value VERIFIED = ''verified''"
| "workflow_phase_value SHIPPING = ''shipping''"
| "workflow_phase_value SHIPPED = ''shipped''"
| "workflow_phase_value HUNTING = ''hunting''"
| "workflow_phase_value HUNTED = ''hunted''"

text \<open>\<open>Enum(value)\<close>: the member with this value, or \<open>ValueError\<close>.\<close>

definition enum_member :: "string \<Rightarrow> ('a \<Rightarrow> string) \<Rightarrow> 'a list \<Rightarrow> json \<Rightarrow> 'a result" where
  "enum_member name val members d =
     (case find (\<lambda>m. d = JString (val m)) members of
        None \<Rightarrow> Inl (ValueError (''not a valid '' @ name))
      | Some m \<Rightarrow> Inr m)"

definition parse_phase :: "json \<Rightarrow> workflow_phase result" where
  "parse_phase = enum_member ''WorkflowPhase'' workflow_phase_value
     [PLANNING_PHASE, OUTLINED, EXECUTING, EXECUTED, VERIFYING, VERIFIED, SHIPPING, SHIPPED, HUNTING, HUNTED]"

definition parse_decision_status :: "json \<Rightarrow> decision_status result" where
  "parse_decision_status = enum_member ''DecisionStatus'' decision_status_value [LOCKED, DEFERRED, DISCRETION]"

definition parse_source :: "json \<Rightarrow> requirement_source result" where
  "parse_source = enum_member ''RequirementSource'' requirement_source_value [EXPLICIT, DERIVED]"

definition parse_priority :: "json \<Rightarrow> requirement_priority result" where
  "parse_priority = enum_member ''RequirementPriority'' requirement_priority_value [MUST, NICE]"

lemma parse_values [simp]:
  "parse_phase (JString (workflow_phase_value ph)) = Inr ph"
  "parse_decision_status (JString (decision_status_value st)) = Inr st"
  "parse_source (JString (requirement_source_value so)) = Inr so"
  "parse_priority (JString (requirement_priority_value pr)) = Inr pr"
  by (cases ph, simp_all add: parse_phase_def enum_member_def)
    ((cases st, simp_all add: parse_decision_status_def enum_member_def)[1],
     (cases so, simp_all add: parse_source_def enum_member_def)[1],
     (cases pr, simp_all add: parse_priority_def enum_member_def)[1])

section \<open>Tasks\<close>

record wf_task =
  wt_id :: json
  wt_slug :: json
  wt_description :: json
  wt_status :: json
  wt_branch :: json
  wt_worktree_path :: json
  wt_session_name :: json
  wt_agent_pid :: json
  wt_depends_on :: "json list"
  wt_requirement_ids :: "json list"

definition new_task :: "json \<Rightarrow> json \<Rightarrow> json \<Rightarrow> wf_task" where
  "new_task i slug description =
     \<lparr>wt_id = i, wt_slug = slug, wt_description = description, wt_status = JString ''pending'',
      wt_branch = JNull, wt_worktree_path = JNull, wt_session_name = JNull, wt_agent_pid = JNull,
      wt_depends_on = [], wt_requirement_ids = []\<rparr>"

definition task_to_json :: "wf_task \<Rightarrow> json" where
  "task_to_json t = JObject
     [(''id'', wt_id t), (''slug'', wt_slug t), (''description'', wt_description t),
      (''status'', wt_status t), (''branch'', wt_branch t), (''worktree_path'', wt_worktree_path t),
      (''session_name'', wt_session_name t), (''agent_pid'', wt_agent_pid t),
      (''depends_on'', JArray (wt_depends_on t)), (''requirement_ids'', JArray (wt_requirement_ids t))]"

definition task_from_json :: "json \<Rightarrow> wf_task result" where
  "task_from_json t =
     res_bind (json_item t ''id'') (\<lambda>i.
     res_bind (json_item t ''slug'') (\<lambda>slug.
     res_bind (json_item t ''description'') (\<lambda>description.
     res_bind (json_get t ''status'' (JString ''pending'')) (\<lambda>status.
     res_bind (json_get t ''branch'' JNull) (\<lambda>branch.
     res_bind (json_get t ''worktree_path'' JNull) (\<lambda>worktree.
     res_bind (json_get t ''session_name'' JNull) (\<lambda>session.
     res_bind (json_get t ''agent_pid'' JNull) (\<lambda>pid.
     res_bind (res_bind (json_get t ''depends_on'' (JArray [])) json_iter) (\<lambda>depends.
     res_bind (res_bind (json_get t ''requirement_ids'' (JArray [])) json_iter) (\<lambda>requirements.
       Inr \<lparr>wt_id = i, wt_slug = slug, wt_description = description, wt_status = status,
            wt_branch = branch, wt_worktree_path = worktree, wt_session_name = session,
            wt_agent_pid = pid, wt_depends_on = depends, wt_requirement_ids = requirements\<rparr>))))))))))"

lemma task_roundtrip [state_codec]: "task_from_json (task_to_json t) = Inr t"
  by (simp add: task_from_json_def task_to_json_def)

text \<open>The list comprehension over \<open>data.get("tasks", [])\<close>.\<close>

definition tasks_from_json :: "json \<Rightarrow> wf_task list result" where
  "tasks_from_json data =
     res_bind (res_bind (json_get data ''tasks'' (JArray [])) json_iter) (traverse task_from_json)"

section \<open>Decisions, goals and requirements in JSON\<close>

definition decision_to_json :: "user_decision \<Rightarrow> json" where
  "decision_to_json d = JObject
     [(''key'', ud_key d), (''value'', ud_value d),
      (''status'', JString (decision_status_value (ud_status d))), (''rationale'', ud_rationale d)]"

definition decision_from_json :: "json \<Rightarrow> user_decision result" where
  "decision_from_json d =
     res_bind (json_item d ''key'') (\<lambda>k.
     res_bind (json_item d ''value'') (\<lambda>v.
     res_bind (res_bind (json_item d ''status'') parse_decision_status) (\<lambda>st.
     res_bind (json_get d ''rationale'' JNull) (\<lambda>r.
       make_user_decision \<lparr>ud_key = k, ud_value = v, ud_status = st, ud_rationale = r\<rparr>))))"

definition decisions_from_json :: "json \<Rightarrow> (string \<times> user_decision) list result" where
  "decisions_from_json data =
     res_bind (res_bind (json_get data ''decisions'' (JObject [])) json_items)
       (traverse (\<lambda>(k, d). res_bind (decision_from_json d) (\<lambda>u. Inr (k, u))))"

definition goal_to_json :: "goal option \<Rightarrow> json" where
  "goal_to_json g =
     (case g of
        None \<Rightarrow> JNull
      | Some g \<Rightarrow> JObject
          [(''objective'', go_objective g), (''must_haves'', JArray (go_must_haves g)),
           (''nice_to_haves'', JArray (go_nice_to_haves g)), (''scope_in'', JArray (go_scope_in g)),
           (''scope_out'', JArray (go_scope_out g))])"

definition goal_from_json :: "json \<Rightarrow> goal option result" where
  "goal_from_json data =
     res_bind (json_get data ''goal'' JNull) (\<lambda>g.
       if \<not> json_truthy g then Inr None
       else
         res_bind (json_item g ''objective'') (\<lambda>objective.
         res_bind (res_bind (json_get g ''must_haves'' (JArray [])) json_iter) (\<lambda>must.
         res_bind (res_bind (json_get g ''nice_to_haves'' (JArray [])) json_iter) (\<lambda>nice.
         res_bind (res_bind (json_get g ''scope_in'' (JArray [])) json_iter) (\<lambda>inside.
         res_bind (res_bind (json_get g ''scope_out'' (JArray [])) json_iter) (\<lambda>outside.
         res_bind (make_goal \<lparr>go_objective = objective, go_must_haves = must, go_nice_to_haves = nice,
                              go_scope_in = inside, go_scope_out = outside\<rparr>) (\<lambda>x. Inr (Some x))))))))"

definition requirement_to_json :: "derived_requirement \<Rightarrow> json" where
  "requirement_to_json r = JObject
     [(''id'', dr_id r), (''description'', dr_description r),
      (''source'', JString (requirement_source_value (dr_source r))),
      (''priority'', JString (requirement_priority_value (dr_priority r)))]"

definition requirement_from_json :: "json \<Rightarrow> derived_requirement result" where
  "requirement_from_json r =
     res_bind (json_item r ''id'') (\<lambda>i.
     res_bind (json_item r ''description'') (\<lambda>description.
     res_bind (res_bind (json_item r ''source'') parse_source) (\<lambda>source.
     res_bind (res_bind (json_item r ''priority'') parse_priority) (\<lambda>priority.
       make_requirement \<lparr>dr_id = i, dr_description = description, dr_source = source,
                         dr_priority = priority\<rparr>))))"

definition requirements_from_json :: "json \<Rightarrow> derived_requirement list result" where
  "requirements_from_json data =
     res_bind (json_get data ''derived_requirements'' (JArray [])) (\<lambda>rs.
       if \<not> json_truthy rs then Inr []
       else res_bind (json_iter rs) (traverse requirement_from_json))"

lemma decision_roundtrip [state_codec]:
  "make_user_decision d = Inr d \<Longrightarrow> decision_from_json (decision_to_json d) = Inr d"
  by (cases d) (simp add: decision_from_json_def decision_to_json_def)

lemma requirement_roundtrip [state_codec]:
  "make_requirement r = Inr r \<Longrightarrow> requirement_from_json (requirement_to_json r) = Inr r"
  by (cases r) (simp add: requirement_from_json_def requirement_to_json_def)

section \<open>Schema versions\<close>

definition current_schema_version :: int where
  "current_schema_version = 4"

text \<open>A missing version and \<open>null\<close> count as version 0.\<close>

definition stored_schema :: "json \<Rightarrow> json result" where
  "stored_schema data =
     res_bind (json_get data ''schema_version'' JNull) (\<lambda>v. Inr (if v = JNull then JNumber 0 else v))"

text \<open>The version as a number in Python's comparisons, where \<open>True\<close> is 1.\<close>

fun json_number :: "json \<Rightarrow> int result" where
  "json_number (JNumber n) = Inr n"
| "json_number (JBool b) = Inr (if b then 1 else 0)"
| "json_number d = Inl (TypeError (''> not supported between instances of ''
     @ quoted (json_type_name d) @ '' and int''))"

text \<open>The version as stored and as a number, unless it is above the supported one.\<close>

definition check_schema :: "string \<Rightarrow> json \<Rightarrow> (json \<times> int) result" where
  "check_schema cls data =
     res_bind (stored_schema data) (\<lambda>v.
     res_bind (json_number v) (\<lambda>n.
       if n > current_schema_version
       then Inl (UnsupportedSchemaError (cls @ '' schema version '' @ show_int n @ '' is not supported. ''
              @ ''Maximum supported version is 4.''))
       else Inr (v, n)))"

section \<open>PlanState\<close>

record plan_state =
  ps_session_id :: json
  ps_status :: json
  ps_phase :: workflow_phase
  ps_started_at :: json
  ps_plan_file :: json
  ps_tasks :: "wf_task list"
  ps_decisions :: "(string \<times> user_decision) list"
  ps_goal :: "goal option"
  ps_requirements :: "derived_requirement list"
  ps_schema :: json
  ps_migrated_from :: "int option"
  ps_frozen_id :: json
  ps_frozen_hash :: json

definition plan_to_json :: "plan_state \<Rightarrow> json" where
  "plan_to_json p = JObject
     [(''session_id'', ps_session_id p), (''status'', ps_status p),
      (''phase'', JString (workflow_phase_value (ps_phase p))), (''started_at'', ps_started_at p),
      (''plan_file'', ps_plan_file p), (''schema_version'', ps_schema p),
      (''migrated_from'', json_of_option (ps_migrated_from p)),
      (''tasks'', JArray (map task_to_json (ps_tasks p))),
      (''decisions'', JObject (map (\<lambda>(k, d). (k, decision_to_json d)) (ps_decisions p))),
      (''goal'', goal_to_json (ps_goal p)),
      (''derived_requirements'', JArray (map requirement_to_json (ps_requirements p))),
      (''frozen_proposal_id'', ps_frozen_id p), (''frozen_content_hash'', ps_frozen_hash p)]"

text \<open>\<open>now\<close> is the default of \<open>started_at\<close>, the clock's ISO text.\<close>

definition plan_from_json :: "json \<Rightarrow> json \<Rightarrow> plan_state result" where
  "plan_from_json now data =
     res_bind (check_schema ''PlanState'' data) (\<lambda>(v, n).
     res_bind (tasks_from_json data) (\<lambda>tasks.
     res_bind (decisions_from_json data) (\<lambda>decisions.
     res_bind (goal_from_json data) (\<lambda>goal.
     res_bind (requirements_from_json data) (\<lambda>requirements.
     res_bind (json_item data ''session_id'') (\<lambda>session.
     res_bind (json_get data ''status'' (JString ''planning'')) (\<lambda>status.
     res_bind (res_bind (json_get data ''phase'' (JString ''planning'')) parse_phase) (\<lambda>phase.
     res_bind (json_get data ''started_at'' now) (\<lambda>started.
     res_bind (json_get data ''plan_file'' (JString ''.claude/plans/plan.md'')) (\<lambda>plan_file.
     res_bind (json_get data ''frozen_proposal_id'' JNull) (\<lambda>frozen.
     res_bind (json_get data ''frozen_content_hash'' JNull) (\<lambda>hash.
       Inr \<lparr>ps_session_id = session, ps_status = status, ps_phase = phase, ps_started_at = started,
            ps_plan_file = plan_file, ps_tasks = tasks, ps_decisions = decisions, ps_goal = goal,
            ps_requirements = requirements, ps_schema = JNumber 4,
            ps_migrated_from = (if n \<in> {0, 1, 2, 3} then Some n else None),
            ps_frozen_id = frozen, ps_frozen_hash = hash\<rparr>))))))))))))"

definition add_decision ::
  "string \<Rightarrow> json \<Rightarrow> decision_status \<Rightarrow> json \<Rightarrow> plan_state \<Rightarrow> plan_state result" where
  "add_decision k v st rationale p =
     res_bind (make_user_decision \<lparr>ud_key = JString k, ud_value = v, ud_status = st, ud_rationale = rationale\<rparr>)
       (\<lambda>d. Inr (p\<lparr>ps_decisions := dict_set k d (ps_decisions p)\<rparr>))"

definition get_decision :: "string \<Rightarrow> plan_state \<Rightarrow> user_decision option" where
  "get_decision k p = map_of (ps_decisions p) k"

section \<open>ExecuteState and VerifyState\<close>

record execute_state =
  es_session_id :: json
  es_status :: json
  es_phase :: workflow_phase
  es_started_at :: json
  es_tasks :: "wf_task list"
  es_current :: json
  es_schema :: json
  es_migrated_from :: "int option"

definition execute_to_json :: "execute_state \<Rightarrow> json" where
  "execute_to_json e = JObject
     [(''session_id'', es_session_id e), (''status'', es_status e),
      (''phase'', JString (workflow_phase_value (es_phase e))), (''started_at'', es_started_at e),
      (''schema_version'', es_schema e), (''migrated_from'', json_of_option (es_migrated_from e)),
      (''tasks'', JArray (map task_to_json (es_tasks e))), (''current_task_index'', es_current e)]"

text \<open>Only version 0 is migrated here; the versions between keep their number.\<close>

definition execute_from_json :: "json \<Rightarrow> json \<Rightarrow> execute_state result" where
  "execute_from_json now data =
     res_bind (check_schema ''ExecuteState'' data) (\<lambda>(v, n).
     res_bind (tasks_from_json data) (\<lambda>tasks.
     res_bind (json_item data ''session_id'') (\<lambda>session.
     res_bind (json_get data ''status'' (JString ''idle'')) (\<lambda>status.
     res_bind (res_bind (json_get data ''phase'' (JString ''planning'')) parse_phase) (\<lambda>phase.
     res_bind (json_get data ''started_at'' now) (\<lambda>started.
     res_bind (json_get data ''current_task_index'' (JNumber 0)) (\<lambda>current.
       Inr \<lparr>es_session_id = session, es_status = status, es_phase = phase, es_started_at = started,
            es_tasks = tasks, es_current = current, es_schema = (if n = 0 then JNumber 4 else v),
            es_migrated_from = (if n = 0 then Some 0 else None)\<rparr>)))))))"

record verify_state =
  vs_session_id :: json
  vs_status :: json
  vs_phase :: workflow_phase
  vs_started_at :: json
  vs_unlock_ship :: json
  vs_file_hashes :: json
  vs_evidence :: json
  vs_test_results :: json
  vs_schema :: json
  vs_migrated_from :: "int option"

definition verify_to_json :: "verify_state \<Rightarrow> json" where
  "verify_to_json v = JObject
     [(''session_id'', vs_session_id v), (''status'', vs_status v),
      (''phase'', JString (workflow_phase_value (vs_phase v))), (''started_at'', vs_started_at v),
      (''unlock_ship'', vs_unlock_ship v), (''file_hashes'', vs_file_hashes v),
      (''evidence'', vs_evidence v), (''test_results'', vs_test_results v),
      (''schema_version'', vs_schema v), (''migrated_from'', json_of_option (vs_migrated_from v))]"

definition verify_from_json :: "json \<Rightarrow> json \<Rightarrow> verify_state result" where
  "verify_from_json now data =
     res_bind (check_schema ''VerifyState'' data) (\<lambda>(v, n).
     res_bind (json_item data ''session_id'') (\<lambda>session.
     res_bind (json_get data ''status'' (JString ''pending'')) (\<lambda>status.
     res_bind (res_bind (json_get data ''phase'' (JString ''planning'')) parse_phase) (\<lambda>phase.
     res_bind (json_get data ''started_at'' now) (\<lambda>started.
     res_bind (json_get data ''unlock_ship'' (JBool False)) (\<lambda>unlock.
     res_bind (json_get data ''file_hashes'' (JObject [])) (\<lambda>hashes.
     res_bind (json_get data ''evidence'' (JArray [])) (\<lambda>evidence.
     res_bind (json_get data ''test_results'' (JObject [])) (\<lambda>results.
       Inr \<lparr>vs_session_id = session, vs_status = status, vs_phase = phase, vs_started_at = started,
            vs_unlock_ship = unlock, vs_file_hashes = hashes, vs_evidence = evidence,
            vs_test_results = results, vs_schema = (if n = 0 then JNumber 4 else v),
            vs_migrated_from = (if n = 0 then Some 0 else None)\<rparr>)))))))))"

section \<open>Files\<close>

text \<open>
  A state file is absent, holds a text that is not JSON, or holds a JSON value. \<open>save\<close> writes a
  temporary file and renames it over the old one: when writing fails the old file stays and the
  exception goes on.
\<close>

definition save_state :: "write_outcome \<Rightarrow> json \<Rightarrow> (state_file, unit) py" where
  "save_state out d f =
     (case out of Written \<Rightarrow> (Inr (), Holds d) | WriteFailed m \<Rightarrow> (Inl (OSError m), f))"

definition load_state :: "string \<Rightarrow> (json \<Rightarrow> 'a result) \<Rightarrow> state_file \<Rightarrow> 'a option result" where
  "load_state cls decode f =
     (case f of
        Absent \<Rightarrow> Inr None
      | Malformed \<Rightarrow> Inl (InvalidStateError (cls @ '': invalid JSON''))
      | Holds d \<Rightarrow>
          (case d of
             JObject kvs \<Rightarrow>
               (if map_of kvs ''session_id'' = None
                then Inl (InvalidStateError (cls @ '': missing required field '' @ quoted ''session_id''))
                else res_bind (decode d) (\<lambda>x. Inr (Some x)))
           | _ \<Rightarrow> Inl (InvalidStateError (cls @ '': expected dict, got '' @ json_type_name d))))"

definition plan_save :: "write_outcome \<Rightarrow> plan_state \<Rightarrow> (state_file, unit) py" where
  "plan_save out p = save_state out (plan_to_json p)"

definition plan_load :: "json \<Rightarrow> state_file \<Rightarrow> plan_state option result" where
  "plan_load now = load_state ''PlanState'' (plan_from_json now)"

definition execute_save :: "write_outcome \<Rightarrow> execute_state \<Rightarrow> (state_file, unit) py" where
  "execute_save out e = save_state out (execute_to_json e)"

definition execute_load :: "json \<Rightarrow> state_file \<Rightarrow> execute_state option result" where
  "execute_load now = load_state ''ExecuteState'' (execute_from_json now)"

definition verify_save :: "write_outcome \<Rightarrow> verify_state \<Rightarrow> (state_file, unit) py" where
  "verify_save out v = save_state out (verify_to_json v)"

definition verify_load :: "json \<Rightarrow> state_file \<Rightarrow> verify_state option result" where
  "verify_load now = load_state ''VerifyState'' (verify_from_json now)"

section \<open>Round trips\<close>

definition plan_ok :: "plan_state \<Rightarrow> bool" where
  "plan_ok p \<longleftrightarrow> (\<forall>(k, d) \<in> set (ps_decisions p). make_user_decision d = Inr d)
     \<and> (\<forall>g. ps_goal p = Some g \<longrightarrow> make_goal g = Inr g)
     \<and> (\<forall>r \<in> set (ps_requirements p). make_requirement r = Inr r)"

lemma decisions_roundtrip:
  "\<forall>(k, d) \<in> set ds. make_user_decision d = Inr d \<Longrightarrow>
     traverse (\<lambda>(k, d). res_bind (decision_from_json d) (\<lambda>u. Inr (k, u)))
       (map (\<lambda>(k, d). (k, decision_to_json d)) ds) = Inr ds"
  by (rule traverse_decode) (auto simp: decision_roundtrip)

lemma tasks_roundtrip [simp]: "traverse task_from_json (map task_to_json ts) = Inr ts"
  by (rule traverse_decode) (rule task_roundtrip)

lemma goal_roundtrip:
  assumes "map_of kvs ''goal'' = Some (goal_to_json g)" and "\<forall>x. g = Some x \<longrightarrow> make_goal x = Inr x"
  shows "goal_from_json (JObject kvs) = Inr g"
proof (cases g)
  case (Some x)
  with assms show ?thesis by (cases x) (simp add: goal_from_json_def goal_to_json_def)
qed (use assms in \<open>simp add: goal_from_json_def goal_to_json_def\<close>)

lemma requirements_roundtrip:
  assumes "map_of kvs ''derived_requirements'' = Some (JArray (map requirement_to_json rs))"
    and "\<forall>r \<in> set rs. make_requirement r = Inr r"
  shows "requirements_from_json (JObject kvs) = Inr rs"
proof -
  have "traverse requirement_from_json (map requirement_to_json rs) = Inr rs"
    by (rule traverse_decode) (simp add: requirement_roundtrip assms(2))
  with assms(1) show ?thesis by (simp add: requirements_from_json_def)
qed

lemma schema_roundtrip:
  assumes "map_of kvs ''schema_version'' = Some (JNumber n)" and "n \<le> 4"
  shows "check_schema cls (JObject kvs) = Inr (JNumber n, n)"
  using assms by (simp add: check_schema_def stored_schema_def current_schema_version_def)

lemma plan_roundtrip:
  assumes "plan_ok p" and "ps_schema p = JNumber k" and "k \<le> 4"
  shows "plan_from_json now (plan_to_json p) = Inr (p\<lparr>ps_schema := JNumber 4,
           ps_migrated_from := (if k \<in> {0, 1, 2, 3} then Some k else None)\<rparr>)"
proof -
  let ?d = "plan_to_json p"
  have s: "check_schema ''PlanState'' ?d = Inr (JNumber k, k)"
    unfolding plan_to_json_def by (rule schema_roundtrip) (simp_all add: assms(2,3))
  have t: "tasks_from_json ?d = Inr (ps_tasks p)"
    by (simp add: tasks_from_json_def plan_to_json_def)
  have d: "decisions_from_json ?d = Inr (ps_decisions p)"
    using decisions_roundtrip [of "ps_decisions p"] assms(1)
    by (simp add: decisions_from_json_def plan_to_json_def plan_ok_def)
  have g: "goal_from_json ?d = Inr (ps_goal p)"
    unfolding plan_to_json_def by (rule goal_roundtrip) (use assms(1) in \<open>simp_all add: plan_ok_def\<close>)
  have r: "requirements_from_json ?d = Inr (ps_requirements p)"
    unfolding plan_to_json_def by (rule requirements_roundtrip) (use assms(1) in \<open>simp_all add: plan_ok_def\<close>)
  show ?thesis
    unfolding plan_from_json_def s t d g r
    by (cases p) (simp add: plan_to_json_def)
qed

lemma execute_roundtrip:
  assumes "es_schema e = JNumber n" and "n \<le> 4"
  shows "execute_from_json now (execute_to_json e) = Inr (e\<lparr>es_schema := JNumber (if n = 0 then 4 else n),
           es_migrated_from := (if n = 0 then Some 0 else None)\<rparr>)"
proof -
  have s: "check_schema ''ExecuteState'' (execute_to_json e) = Inr (JNumber n, n)"
    unfolding execute_to_json_def by (rule schema_roundtrip) (simp_all add: assms)
  have t: "tasks_from_json (execute_to_json e) = Inr (es_tasks e)"
    by (simp add: tasks_from_json_def execute_to_json_def)
  show ?thesis
    using assms unfolding execute_from_json_def s t by (cases e) (simp add: execute_to_json_def)
qed

lemma verify_roundtrip:
  assumes "vs_schema v = JNumber n" and "n \<le> 4"
  shows "verify_from_json now (verify_to_json v) = Inr (v\<lparr>vs_schema := JNumber (if n = 0 then 4 else n),
           vs_migrated_from := (if n = 0 then Some 0 else None)\<rparr>)"
proof -
  have s: "check_schema ''VerifyState'' (verify_to_json v) = Inr (JNumber n, n)"
    unfolding verify_to_json_def by (rule schema_roundtrip) (simp_all add: assms)
  show ?thesis
    using assms unfolding verify_from_json_def s by (cases v) (simp add: verify_to_json_def)
qed

end
