(* ===== verification/Workspace.thy ===== *)
theory Workspace
  imports Py_Strings
begin

text \<open>
  Git worktrees: the command executor
  (src/infrastructure/platform/git/git_command_executor.py) and the WorkspaceManager with its layout
  resolver (src/application/services/workspace/workspace_manager.py).

  Git is not part of the program: it is a function from the arguments, the directory and the state
  of the repository to an answer and the new state, over any type of repository states. The world
  keeps the commands that were run, in order. The file system is read through the functions of
  \<open>file_system\<close>. A timeout is possible only where the code asks for one.
\<close>

section \<open>Paths\<close>

text \<open>\<open>pathlib\<close>: the parts of a path, without empty ones and \<open>.\<close>.\<close>

datatype path = Abs "string list" | Rel "string list"

definition path_of :: "string \<Rightarrow> path" where
  "path_of s =
     (let parts = filter (\<lambda>w. w \<noteq> [] \<and> w \<noteq> ''.'') (split_on (CHR ''/'') s)
      in if starts_with ''/'' s then Abs parts else Rel parts)"

fun path_text :: "path \<Rightarrow> string" where
  "path_text (Abs ws) = CHR ''/'' # join ''/'' ws"
| "path_text (Rel ws) = (if ws = [] then ''.'' else join ''/'' ws)"

fun path_join :: "path \<Rightarrow> path \<Rightarrow> path" where
  "path_join p (Abs ws) = Abs ws"
| "path_join (Abs us) (Rel ws) = Abs (us @ ws)"
| "path_join (Rel us) (Rel ws) = Rel (us @ ws)"

fun path_parent :: "path \<Rightarrow> path" where
  "path_parent (Abs ws) = Abs (butlast ws)"
| "path_parent (Rel ws) = Rel (butlast ws)"

fun path_parts :: "path \<Rightarrow> string list" where
  "path_parts (Abs ws) = ws"
| "path_parts (Rel ws) = ws"

definition path_name :: "path \<Rightarrow> string" where
  "path_name p = (if path_parts p = [] then [] else last (path_parts p))"

definition is_absolute :: "path \<Rightarrow> bool" where
  "is_absolute p \<longleftrightarrow> (case p of Abs ws \<Rightarrow> True | Rel ws \<Rightarrow> False)"

definition is_relative_to :: "path \<Rightarrow> path \<Rightarrow> bool" where
  "is_relative_to p q \<longleftrightarrow>
     is_absolute p = is_absolute q \<and> take (length (path_parts q)) (path_parts p) = path_parts q"

record file_system =
  fs_resolve :: "path \<Rightarrow> path"
  fs_exists :: "path \<Rightarrow> bool"
  fs_is_file :: "path \<Rightarrow> bool"
  fs_text :: "path \<Rightarrow> string"
  fs_cwd :: path

section \<open>Running git\<close>

record git_run =
  gr_code :: int
  gr_stdout :: string
  gr_stderr :: string
  gr_timed_out :: bool

type_synonym 'r git = "string list \<Rightarrow> path option \<Rightarrow> 'r \<Rightarrow> git_run \<times> 'r"

record 'r git_world =
  gw_repo :: 'r
  gw_log :: "string list list"

definition git_call :: "'r git \<Rightarrow> string list \<Rightarrow> path option \<Rightarrow> ('r git_world, git_run) py" where
  "git_call git args cwd w =
     (let (r, repo) = git args cwd (gw_repo w)
      in (Inr r, w\<lparr>gw_repo := repo, gw_log := gw_log w @ [args]\<rparr>))"

text \<open>\<open>_run_git_command\<close> with \<open>check=True\<close>.\<close>

definition run_git :: "'r git \<Rightarrow> string list \<Rightarrow> path option \<Rightarrow> ('r git_world, git_run) py" where
  "run_git git args cwd =
     py_bind (git_call git args cwd) (\<lambda>r.
       if gr_code r \<noteq> 0 then py_raise (GitError (''Git command failed: git '' @ join '' '' args))
       else py_return r)"

text \<open>The executor is made without a \<open>repo_path\<close>: its commands run in the current directory.\<close>

definition get_repo_root :: "file_system \<Rightarrow> 'r git \<Rightarrow> path option \<Rightarrow> ('r git_world, path) py" where
  "get_repo_root fs git at =
     py_bind (run_git git [''rev-parse'', ''--git-common-dir''] at) (\<lambda>r.
       let p = path_of (py_strip (gr_stdout r));
           dir = (if is_absolute p then p
                  else fs_resolve fs (path_join (case at of Some b \<Rightarrow> b | None \<Rightarrow> fs_cwd fs) p))
       in if fs_is_file fs dir
          then (let text = py_strip (fs_text fs dir)
                in py_return (path_join (path_parent dir)
                     (path_of (if starts_with ''./'' text then drop 2 text else text))))
          else py_return (path_parent dir))"

definition worktree_add :: "'r git \<Rightarrow> path \<Rightarrow> string \<Rightarrow> bool \<Rightarrow> ('r git_world, unit) py" where
  "worktree_add git p branch create_branch =
     py_bind (run_git git ([''worktree'', ''add''] @ (if create_branch then [''-b'', branch] else [branch])
                           @ [path_text p]) None) (\<lambda>_. py_return ())"

definition worktree_remove :: "'r git \<Rightarrow> path \<Rightarrow> bool \<Rightarrow> ('r git_world, unit) py" where
  "worktree_remove git p force =
     py_bind (run_git git ([''worktree'', ''remove''] @ (if force then [''--force''] else [])
                           @ [path_text p]) None) (\<lambda>_. py_return ())"

definition branch_delete :: "'r git \<Rightarrow> string \<Rightarrow> bool \<Rightarrow> ('r git_world, unit) py" where
  "branch_delete git branch force =
     py_bind (run_git git [''branch'', if force then ''-D'' else ''-d'', branch] None) (\<lambda>_. py_return ())"

definition is_clean :: "'r git \<Rightarrow> path \<Rightarrow> ('r git_world, bool) py" where
  "is_clean git p =
     py_bind (run_git git [''status'', ''--porcelain''] (Some p)) (\<lambda>r.
       py_return (py_strip (gr_stdout r) = []))"

text \<open>One block of \<open>git worktree list --porcelain\<close>, as the dictionary the parser builds.\<close>

record worktree =
  wk_path :: "string option"
  wk_branch :: "string option"
  wk_head :: "string option"

definition no_worktree :: worktree where
  "no_worktree = \<lparr>wk_path = None, wk_branch = None, wk_head = None\<rparr>"

fun parse_worktrees :: "worktree \<Rightarrow> string list \<Rightarrow> worktree list" where
  "parse_worktrees cur [] = (if cur = no_worktree then [] else [cur])"
| "parse_worktrees cur (raw # ls) =
     (let line = py_strip raw
      in if line = []
         then (if cur = no_worktree then [] else [cur]) @ parse_worktrees no_worktree ls
         else if starts_with ''worktree '' line
         then parse_worktrees (cur\<lparr>wk_path := Some (after_first (CHR '' '') line)\<rparr>) ls
         else if starts_with ''branch '' line
         then parse_worktrees (cur\<lparr>wk_branch := Some (after_first (CHR '' '') line)\<rparr>) ls
         else if starts_with ''HEAD '' line
         then parse_worktrees (cur\<lparr>wk_head := Some (after_first (CHR '' '') line)\<rparr>) ls
         else parse_worktrees cur ls)"

definition worktree_list :: "'r git \<Rightarrow> ('r git_world, worktree list) py" where
  "worktree_list git =
     py_bind (run_git git [''worktree'', ''list'', ''--porcelain''] None) (\<lambda>r.
       py_return (parse_worktrees no_worktree (py_splitlines (gr_stdout r))))"

text \<open>\<open>wt["path"]\<close>.\<close>

definition worktree_path :: "worktree \<Rightarrow> path result" where
  "worktree_path wt =
     (case wk_path wt of None \<Rightarrow> Inl (KeyError (quoted ''path'')) | Some p \<Rightarrow> Inr (path_of p))"

fun is_git_error :: "exc \<Rightarrow> bool" where
  "is_git_error (GitError m) = True"
| "is_git_error e = False"

fun find_worktree_at ::
  "file_system \<Rightarrow> 'r git \<Rightarrow> path \<Rightarrow> worktree list \<Rightarrow> ('r git_world, bool) py" where
  "find_worktree_at fs git p [] = py_return False"
| "find_worktree_at fs git p (wt # wts) =
     py_bind (py_lift (worktree_path wt)) (\<lambda>q.
       if fs_resolve fs q = p
       then py_bind (get_repo_root fs git None) (\<lambda>root. py_return (p \<noteq> fs_resolve fs root))
       else find_worktree_at fs git p wts)"

definition worktree_is_valid :: "file_system \<Rightarrow> 'r git \<Rightarrow> path \<Rightarrow> ('r git_world, bool) py" where
  "worktree_is_valid fs git p =
     (if \<not> fs_exists fs p then py_return False
      else py_catch is_git_error
             (py_bind (worktree_list git) (find_worktree_at fs git (fs_resolve fs p)))
             (\<lambda>e. py_return False))"

section \<open>The manager\<close>

datatype layout = NESTED | OUTER_NESTED | SIBLING

record workspace =
  ws_name :: string
  ws_path :: path
  ws_layout :: layout
  ws_repo_root :: path

fun resolve_path :: "layout \<Rightarrow> string \<Rightarrow> path \<Rightarrow> path" where
  "resolve_path NESTED name root = path_join (path_join root (Rel [''.worktrees''])) (path_of name)"
| "resolve_path OUTER_NESTED name root =
     path_join (path_join (path_parent root) (path_of (path_name root @ ''.worktrees''))) (path_of name)"
| "resolve_path SIBLING name root =
     path_join (path_parent root) (path_of (path_name root @ ''-'' @ name))"

definition detect_layout :: "file_system \<Rightarrow> path \<Rightarrow> path \<Rightarrow> layout" where
  "detect_layout fs p root =
     (let q = fs_resolve fs p; parent = path_parent root; name = path_name root
      in if is_relative_to q (fs_resolve fs (path_join root (Rel [''.worktrees'']))) then NESTED
         else if is_relative_to q (fs_resolve fs (path_join parent (path_of (name @ ''.worktrees''))))
         then OUTER_NESTED
         else if starts_with (path_text (fs_resolve fs (path_join parent (path_of (name @ ''-'')))))
                   (path_text q)
         then SIBLING
         else NESTED)"

text \<open>
  What the hook runner did: there is none, the script ended, it failed to run or timed out
  (\<open>HookExecutionError\<close>), or the runner refused a path (\<open>SecurityError\<close>, which the manager does not
  catch).
\<close>

datatype hook_run = NoRunner | HookEnded bool | HookBroke | HookRefused string

definition run_hook :: "hook_run \<Rightarrow> ('s, unit) py" where
  "run_hook h = (case h of HookRefused m \<Rightarrow> py_raise (WorkspaceError m) | _ \<Rightarrow> py_return ())"

definition create_workspace ::
  "file_system \<Rightarrow> 'r git \<Rightarrow> layout \<Rightarrow> hook_run \<Rightarrow> string \<Rightarrow> layout option \<Rightarrow> ('r git_world, workspace) py" where
  "create_workspace fs git default_layout hook name layout =
     py_bind (get_repo_root fs git None) (\<lambda>root.
       let p = resolve_path (case layout of None \<Rightarrow> default_layout | Some l \<Rightarrow> l) name root
       in py_bind (worktree_is_valid fs git p) (\<lambda>taken.
            if taken
            then py_raise (WorkspaceError (''Workspace '' @ quoted name @ '' already exists at '' @ path_text p))
            else py_bind (worktree_add git p name True) (\<lambda>_.
                 py_bind (run_hook hook) (\<lambda>_.
                   py_return \<lparr>ws_name = name, ws_path = p,
                     ws_layout = (case layout of None \<Rightarrow> default_layout | Some l \<Rightarrow> l),
                     ws_repo_root = root\<rparr>))))"

definition branch_short_name :: "worktree \<Rightarrow> string" where
  "branch_short_name wt =
     py_replace ''refs/heads/'' [] (case wk_branch wt of None \<Rightarrow> [] | Some b \<Rightarrow> b)"

fun find_workspace :: "file_system \<Rightarrow> path \<Rightarrow> string \<Rightarrow> worktree list \<Rightarrow> workspace result" where
  "find_workspace fs root name [] = Inl (WorkspaceError (''Workspace '' @ quoted name @ '' not found''))"
| "find_workspace fs root name (wt # wts) =
     res_bind (worktree_path wt) (\<lambda>p.
       if branch_short_name wt = name \<and> fs_resolve fs p \<noteq> fs_resolve fs root
       then Inr \<lparr>ws_name = name, ws_path = p, ws_layout = detect_layout fs p root, ws_repo_root = root\<rparr>
       else find_workspace fs root name wts)"

definition start_workspace :: "file_system \<Rightarrow> 'r git \<Rightarrow> string \<Rightarrow> ('r git_world, workspace) py" where
  "start_workspace fs git name =
     py_bind (worktree_list git) (\<lambda>wts.
     py_bind (get_repo_root fs git None) (\<lambda>root.
       py_lift (find_workspace fs root name wts)))"

fun workspaces_of :: "file_system \<Rightarrow> path \<Rightarrow> worktree list \<Rightarrow> workspace list result" where
  "workspaces_of fs root [] = Inr []"
| "workspaces_of fs root (wt # wts) =
     res_bind (worktree_path wt) (\<lambda>p.
       res_bind (workspaces_of fs root wts) (\<lambda>rest.
         if fs_resolve fs p = fs_resolve fs root then Inr rest
         else Inr (\<lparr>ws_name = branch_short_name wt, ws_path = p,
                    ws_layout = detect_layout fs p root, ws_repo_root = root\<rparr> # rest)))"

definition list_workspaces :: "file_system \<Rightarrow> 'r git \<Rightarrow> ('r git_world, workspace list) py" where
  "list_workspaces fs git =
     py_bind (worktree_list git) (\<lambda>wts.
     py_bind (get_repo_root fs git None) (\<lambda>root.
       py_lift (workspaces_of fs root wts)))"

definition remove_workspace ::
  "file_system \<Rightarrow> 'r git \<Rightarrow> hook_run \<Rightarrow> string \<Rightarrow> bool \<Rightarrow> ('r git_world, unit) py" where
  "remove_workspace fs git hook name force =
     py_bind (start_workspace fs git name) (\<lambda>ws.
     py_bind (run_hook hook) (\<lambda>_.
     py_bind (if force then py_return True else is_clean git (ws_path ws)) (\<lambda>ok.
       if \<not> ok
       then py_raise (WorkspaceError (''Workspace '' @ quoted name
              @ '' has uncommitted changes. Use force=True to remove anyway.''))
       else py_bind (worktree_remove git (ws_path ws) force) (\<lambda>_.
              branch_delete git name force))))"

text \<open>\<open>except GitError as e: raise GitError(prefix + str(e))\<close>.\<close>

definition rename_git_error :: "string \<Rightarrow> ('s, 'a) py \<Rightarrow> ('s, 'a) py" where
  "rename_git_error prefix m =
     py_catch is_git_error m (\<lambda>e. py_raise (GitError (prefix @ exc_message e)))"

definition merge_workspace ::
  "file_system \<Rightarrow> 'r git \<Rightarrow> string \<Rightarrow> string \<Rightarrow> bool \<Rightarrow> ('r git_world, unit) py" where
  "merge_workspace fs git name target delete_branch =
     py_bind (start_workspace fs git name) (\<lambda>ws.
     py_bind (rename_git_error (''Failed to checkout target branch '' @ quoted target @ '': '')
               (run_git git [''checkout'', target] (Some (ws_repo_root ws)))) (\<lambda>_.
     py_bind (rename_git_error (''Failed to merge branch '' @ quoted name @ '': '')
               (run_git git [''merge'', name, ''--no-edit''] (Some (ws_repo_root ws)))) (\<lambda>_.
       if delete_branch
       then rename_git_error (''Failed to delete branch '' @ quoted name @ '': '') (branch_delete git name False)
       else py_return ())))"

fun workspace_containing ::
  "file_system \<Rightarrow> path \<Rightarrow> path \<Rightarrow> worktree list \<Rightarrow> workspace option result" where
  "workspace_containing fs root target [] = Inr None"
| "workspace_containing fs root target (wt # wts) =
     res_bind (worktree_path wt) (\<lambda>q.
       let p = fs_resolve fs q
       in if p \<noteq> fs_resolve fs root \<and> (p = target \<or> is_relative_to target p)
          then Inr (Some \<lparr>ws_name = branch_short_name wt, ws_path = p,
                      ws_layout = detect_layout fs p root, ws_repo_root = root\<rparr>)
          else workspace_containing fs root target wts)"

definition detect_workspace ::
  "file_system \<Rightarrow> 'r git \<Rightarrow> path option \<Rightarrow> ('r git_world, workspace option) py" where
  "detect_workspace fs git at =
     (let target = fs_resolve fs (case at of None \<Rightarrow> fs_cwd fs | Some p \<Rightarrow> p)
      in if \<not> fs_exists fs target then py_return None
         else py_bind (py_catch is_git_error
                 (py_bind (get_repo_root fs git (Some target)) (\<lambda>root. py_return (Some root)))
                 (\<lambda>e. py_return None)) (\<lambda>r.
           case r of
             None \<Rightarrow> py_return None
           | Some root \<Rightarrow>
               if target = fs_resolve fs root then py_return None
               else py_bind (worktree_list git) (\<lambda>wts.
                      py_lift (workspace_containing fs root target wts))))"

end
