(* ===== verification/Tmux_Orchestrator.thy ===== *)
theory Tmux_Orchestrator
  imports Py_Strings Launch_Lifecycle
begin

text \<open>
  The tmux front end (src/infrastructure/tmux_orchestrator/__init__.py) and the two agent backends
  that build the command it types (src/infrastructure/agent_backends/). What \<open>tmux\<close> answered to a
  call is an argument; without tmux on the path \<open>subprocess.run\<close> raises \<open>FileNotFoundError\<close>, which
  none of these methods catches.

  \<open>shell_words\<close> is the specification the quoting is checked against: POSIX word splitting of a
  command made of plain characters and quotes, \<open>None\<close> when a character could mean something else to
  the shell.
\<close>

section \<open>Sanitising\<close>

definition ansi_param :: "char \<Rightarrow> bool" where
  "ansi_param c \<longleftrightarrow> is_digit c \<or> c = CHR '';''"

text \<open>What follows a match of \<open>ESC [ [0-9;]* [A-Za-z]\<close> at the start.\<close>

fun ansi_rest :: "string \<Rightarrow> string option" where
  "ansi_rest (e # b # cs) =
     (if e = CHR 0x1B \<and> b = CHR ''[''
      then (case dropWhile ansi_param cs of
              c # r \<Rightarrow> if is_letter c then Some r else None
            | [] \<Rightarrow> None)
      else None)"
| "ansi_rest s = None"

lemma ansi_rest_shorter: "ansi_rest s = Some r \<Longrightarrow> length r < length s"
proof (induction s rule: ansi_rest.induct)
  case (1 e b cs)
  have "length (dropWhile ansi_param cs) \<le> length cs" by (rule length_dropWhile_le)
  with 1 show ?case by (auto split: if_splits list.splits)
qed auto

function strip_ansi :: "string \<Rightarrow> string" where
  "strip_ansi [] = []"
| "strip_ansi (c # cs) =
     (case ansi_rest (c # cs) of Some r \<Rightarrow> strip_ansi r | None \<Rightarrow> c # strip_ansi cs)"
  by pat_completeness auto
termination
  by (relation "measure length") (auto dest: ansi_rest_shorter)

definition is_control :: "char \<Rightarrow> bool" where
  "is_control c \<longleftrightarrow>
     (let n = of_char c :: nat in n \<le> 8 \<or> (11 \<le> n \<and> n \<le> 31) \<or> n = 127)"

definition sanitize_tmux_text :: "string \<Rightarrow> string result" where
  "sanitize_tmux_text text =
     (let t1 = strip_ansi text;
          t2 = filter (\<lambda>c. \<not> is_control c) t1;
          t3 = py_replace [CHR 0x0D] '' '' (py_replace [CHR 0x0A] '' ''
                 (py_replace [CHR 0x0D, CHR 0x0A] '' '' t2));
          t4 = py_strip t3
      in if t4 = [] then Inl (ValueError ''sanitized tmux text is empty'') else Inr t4)"

section \<open>The orchestrator\<close>

record tmux_window =
  tw_session :: string
  tw_index :: int
  tw_name :: string
  tw_active :: bool

definition tmux_missing :: exc where
  "tmux_missing = OSError ''No such file or directory: tmux''"

text \<open>The lines of an answer: \<open>stdout.strip().split("\n")\<close> without the empty ones.\<close>

definition answer_lines :: "string \<Rightarrow> string list" where
  "answer_lines out = filter (\<lambda>l. l \<noteq> []) (split_on (CHR 0x0A) (py_strip out))"

definition parse_window :: "string \<Rightarrow> string \<Rightarrow> tmux_window list result" where
  "parse_window session line =
     (case split_on (CHR '':'') line of
        i # name # active # others \<Rightarrow>
          res_bind (py_int i) (\<lambda>n.
            Inr [\<lparr>tw_session = session, tw_index = n, tw_name = name, tw_active = (active = ''1'')\<rparr>])
      | _ \<Rightarrow> Inr [])"

definition get_windows :: "string \<Rightarrow> tmux_run \<Rightarrow> tmux_window list result" where
  "get_windows session answer =
     (case answer of
        NotInstalled \<Rightarrow> Inl tmux_missing
      | TimedOut \<Rightarrow> Inr []
      | Exited code out \<Rightarrow>
          (if code \<noteq> 0 then Inr []
           else res_bind (traverse (parse_window session) (answer_lines out)) (\<lambda>wss. Inr (concat wss))))"

text \<open>A call whose only result is whether tmux exited with 0.\<close>

definition tmux_succeeded :: "tmux_run \<Rightarrow> bool result" where
  "tmux_succeeded answer =
     (case answer of
        NotInstalled \<Rightarrow> Inl tmux_missing
      | TimedOut \<Rightarrow> Inr False
      | Exited code out \<Rightarrow> Inr (code = 0))"

definition create_session :: "tmux_run \<Rightarrow> bool result" where
  "create_session answer = tmux_succeeded answer"

definition kill_session :: "tmux_run \<Rightarrow> bool result" where
  "kill_session answer = tmux_succeeded answer"

text \<open>
  \<open>_send_keys\<close>: the text typed, if any, and the result. In safety mode nothing is typed and the
  result is \<open>True\<close>.
\<close>

definition send_keys :: "bool \<Rightarrow> tmux_run \<Rightarrow> tmux_run \<Rightarrow> string \<Rightarrow> (bool \<times> string option) result" where
  "send_keys safety_mode keys enter text =
     (case sanitize_tmux_text text of
        Inl e \<Rightarrow> Inr (False, None)
      | Inr sanitized \<Rightarrow>
          if safety_mode then Inr (True, None)
          else (case keys of
              NotInstalled \<Rightarrow> Inl tmux_missing
            | TimedOut \<Rightarrow> Inr (False, None)
            | Exited code out \<Rightarrow>
                if code \<noteq> 0 then Inr (False, None)
                else (case enter of
                    NotInstalled \<Rightarrow> Inl tmux_missing
                  | TimedOut \<Rightarrow> Inr (False, Some sanitized)
                  | Exited code' out' \<Rightarrow> Inr (code' = 0, Some sanitized))))"

definition target_window :: "int \<Rightarrow> tmux_window list \<Rightarrow> int" where
  "target_window wanted ws =
     (if wanted \<in> set (map tw_index ws) then wanted
      else (case find tw_active ws of
          Some w \<Rightarrow> tw_index w
        | None \<Rightarrow> tw_index (hd ws)))"

section \<open>Backends\<close>

text \<open>\<open>shlex.quote\<close>.\<close>

definition shell_safe :: "char \<Rightarrow> bool" where
  "shell_safe c \<longleftrightarrow> is_letter c \<or> is_digit c \<or> c \<in> set ''_@%+=:,./-''"

definition shell_quote :: "string \<Rightarrow> string" where
  "shell_quote s =
     (if s = [] then [CHR 0x27, CHR 0x27]
      else if list_all shell_safe s then s
      else CHR 0x27 # py_replace [CHR 0x27] [CHR 0x27, CHR 0x22, CHR 0x27, CHR 0x22, CHR 0x27] s @ [CHR 0x27])"

datatype agent_backend =
    Opencode "string option" string
  | Pi

text \<open>
  \<open>Opencode exe fallback\<close>: the executable that was resolved and the fallback model of the
  environment. \<open>get_launch_command\<close> of each backend.
\<close>

definition opencode_call :: "string \<Rightarrow> string \<Rightarrow> string \<Rightarrow> string" where
  "opencode_call executable model task =
     shell_quote executable @ '' run -m '' @ shell_quote model @ '' '' @ shell_quote task"

definition opencode_script :: "string \<Rightarrow> string \<Rightarrow> string \<Rightarrow> string \<Rightarrow> string" where
  "opencode_script executable fallback_model model task =
     opencode_call executable model task @ ''; rc=$?; if [ $rc -ne 0 ]; then echo ''
       @ shell_quote (''[fork-agent] primary model failed, retrying fallback model: '' @ fallback_model)
       @ '' >&2; '' @ opencode_call executable fallback_model task @ ''; fi''"

fun launch_command :: "agent_backend \<Rightarrow> string \<Rightarrow> string \<Rightarrow> string" where
  "launch_command (Opencode resolved fallback_model) task model =
     (let executable = (case resolved of None \<Rightarrow> ''opencode'' | Some e \<Rightarrow> e)
      in if fallback_model = model then opencode_call executable model task
         else ''bash -lc '' @ shell_quote (opencode_script executable fallback_model model task))"
| "launch_command Pi task model = ''pi '' @ shell_quote task"

text \<open>What tmux answers while an agent is launched, and the default model of the environment.\<close>

record launch_answers =
  ln_windows :: tmux_run
  ln_keys :: tmux_run
  ln_enter :: tmux_run
  ln_default_model :: string

definition launch_agent ::
  "bool \<Rightarrow> launch_answers \<Rightarrow> string \<Rightarrow> int \<Rightarrow> agent_backend \<Rightarrow> string \<Rightarrow> string option
     \<Rightarrow> (bool \<times> (int \<times> string) option) result" where
  "launch_agent safety_mode a session window backend task model =
     res_bind (get_windows session (ln_windows a)) (\<lambda>ws.
       if ws = [] then Inr (False, None)
       else res_bind (send_keys safety_mode (ln_keys a) (ln_enter a)
              (launch_command backend task
                 (case model of Some (c # cs) \<Rightarrow> c # cs | _ \<Rightarrow> ln_default_model a))) (\<lambda>(sent, typed).
         Inr (sent, map_option (\<lambda>text. (target_window window ws, text)) typed)))"

section \<open>The shell's view\<close>

fun shell_plain :: "string option \<Rightarrow> string \<Rightarrow> string list option"
  and shell_quoted :: "char \<Rightarrow> string \<Rightarrow> string \<Rightarrow> string list option" where
  "shell_plain w [] = Some (case w of None \<Rightarrow> [] | Some x \<Rightarrow> [rev x])"
| "shell_plain w (c # cs) =
     (if c = CHR '' '' \<or> c = CHR 0x09
      then map_option (\<lambda>ws. (case w of None \<Rightarrow> [] | Some x \<Rightarrow> [rev x]) @ ws) (shell_plain None cs)
      else if c = CHR 0x27 \<or> c = CHR 0x22
      then shell_quoted c (case w of None \<Rightarrow> [] | Some x \<Rightarrow> x) cs
      else if shell_safe c
      then shell_plain (Some (c # (case w of None \<Rightarrow> [] | Some x \<Rightarrow> x))) cs
      else None)"
| "shell_quoted q x [] = None"
| "shell_quoted q x (c # cs) =
     (if c = q then shell_plain (Some x) cs
      else if q = CHR 0x22 \<and> c \<in> {CHR ''$'', CHR 0x60, CHR 0x5C} then None
      else shell_quoted q (c # x) cs)"

definition shell_words :: "string \<Rightarrow> string list option" where
  "shell_words s = shell_plain None s"

section \<open>What is left after sanitising\<close>

text \<open>The first three steps, with the replacement of line ends seen as a map.\<close>

definition clean_text :: "string \<Rightarrow> string" where
  "clean_text s = map (\<lambda>c. if c = CHR 0x0A then CHR '' '' else c)
     (filter (\<lambda>c. \<not> is_control c) (strip_ansi s))"

lemma py_replace_char: "py_replace [d] new s = concat (map (\<lambda>c. if c = d then new else [c]) s)"
  by (induction s) (auto simp: starts_with_Cons starts_with_Nil)

lemma py_replace_absent: "d \<notin> set s \<Longrightarrow> py_replace (d # ds) new s = s"
  by (induction s) (auto simp: starts_with_Cons)

lemma py_replace_char1: "py_replace [d] [e] s = map (\<lambda>c. if c = d then e else c) s"
  by (induction s) (auto simp: starts_with_Cons starts_with_Nil)

lemma carriage_return_is_control [simp]: "is_control (CHR 0x0D)"
  by (simp add: is_control_def)

lemma sanitize_clean:
  "sanitize_tmux_text s =
     (if py_strip (clean_text s) = [] then Inl (ValueError ''sanitized tmux text is empty'')
      else Inr (py_strip (clean_text s)))"
proof -
  let ?t = "filter (\<lambda>c. \<not> is_control c) (strip_ansi s)"
  have cr: "CHR 0x0D \<notin> set ?t" by auto
  then have "py_replace [CHR 0x0D, CHR 0x0A] '' '' ?t = ?t" by (rule py_replace_absent)
  moreover have "py_replace [CHR 0x0A] '' '' ?t = clean_text s"
    by (simp only: py_replace_char1 clean_text_def)
  moreover have "CHR 0x0D \<notin> set (clean_text s)" by (auto simp: clean_text_def)
  then have "py_replace [CHR 0x0D] '' '' (clean_text s) = clean_text s" by (rule py_replace_absent)
  ultimately show ?thesis
    unfolding sanitize_tmux_text_def Let_def by (simp only:)
qed

definition harmless :: "char \<Rightarrow> bool" where
  "harmless c \<longleftrightarrow> \<not> is_control c \<and> c \<noteq> CHR 0x0A"

lemma clean_text_harmless: "c \<in> set (clean_text s) \<Longrightarrow> harmless c"
  by (auto simp: clean_text_def harmless_def is_control_def split: if_splits)

lemma escape_is_control [simp]: "is_control (CHR 0x1B)"
  by (simp add: is_control_def)

lemma ansi_rest_escape: "c \<noteq> CHR 0x1B \<Longrightarrow> ansi_rest (c # s) = None"
  by (cases s) auto

lemma strip_ansi_no_escape: "CHR 0x1B \<notin> set s \<Longrightarrow> strip_ansi s = s"
proof (induction s)
  case (Cons c s)
  then have "ansi_rest (c # s) = None" by (intro ansi_rest_escape) auto
  with Cons show ?case by simp
qed simp

lemma clean_text_id:
  assumes "\<And>c. c \<in> set s \<Longrightarrow> harmless c"
  shows "clean_text s = s"
proof -
  have "CHR 0x1B \<notin> set s" using assms [of "CHR 0x1B"] by (auto simp: harmless_def)
  moreover have "filter (\<lambda>c. \<not> is_control c) s = s" using assms by (auto simp: harmless_def filter_id_conv)
  moreover have "map (\<lambda>c. if c = CHR 0x0A then CHR '' '' else c) s = s"
    using assms by (intro map_idI) (auto simp: harmless_def)
  ultimately show ?thesis by (simp add: clean_text_def strip_ansi_no_escape)
qed

text \<open>
  A character that no escape sequence contains splits the text: what is before and after it is
  cleaned on its own.
\<close>

definition breaks_ansi :: "char \<Rightarrow> bool" where
  "breaks_ansi c \<longleftrightarrow> c \<noteq> CHR 0x1B \<and> c \<noteq> CHR ''['' \<and> \<not> ansi_param c \<and> \<not> is_letter c"

lemma ansi_rest_append:
  assumes "breaks_ansi d"
  shows "ansi_rest (u @ d # v) = (case ansi_rest u of Some r \<Rightarrow> Some (r @ d # v) | None \<Rightarrow> None)
           \<or> u = []"
proof (cases u rule: ansi_rest.cases)
  case (1 e b cs)
  have d: "\<not> ansi_param d" "\<not> is_letter d" using assms by (auto simp: breaks_ansi_def)
  show ?thesis
  proof (cases "dropWhile ansi_param cs")
    case Nil
    then have "dropWhile ansi_param (cs @ d # v) = d # v"
      using d by (simp add: dropWhile_append dropWhile_eq_Nil_conv)
    then have "ansi_rest (u @ d # v) = None" using 1 d by simp
    moreover have "ansi_rest u = None" using 1 by (simp add: Nil)
    ultimately show ?thesis by simp
  next
    case (Cons c r)
    then have "dropWhile ansi_param (cs @ d # v) = c # r @ d # v"
      by (simp add: dropWhile_append dropWhile_eq_Nil_conv [symmetric])
    then have "ansi_rest (u @ d # v) = map_option (\<lambda>r. r @ d # v) (ansi_rest u)"
      using 1 Cons by simp
    then show ?thesis by (cases "ansi_rest u") simp_all
  qed
qed (use assms in \<open>auto simp: breaks_ansi_def\<close>)

lemma strip_ansi_append:
  assumes "breaks_ansi d"
  shows "strip_ansi (u @ d # v) = strip_ansi u @ d # strip_ansi v"
proof (induction u rule: strip_ansi.induct)
  case 1
  have "ansi_rest (d # v) = None" using assms by (intro ansi_rest_escape) (auto simp: breaks_ansi_def)
  then show ?case by simp
next
  case (2 c cs)
  then show ?case
    using ansi_rest_append [OF assms, of "c # cs" v] by (auto split: option.splits)
qed

lemma clean_text_append:
  "breaks_ansi d \<Longrightarrow> harmless d \<Longrightarrow> clean_text (u @ d # v) = clean_text u @ d # clean_text v"
  by (simp add: clean_text_def strip_ansi_append harmless_def)

section \<open>The shell reads back what was quoted\<close>

lemma quotes_unsafe [simp]: "\<not> shell_safe (CHR 0x27)" "\<not> shell_safe (CHR 0x22)" "\<not> shell_safe (CHR '' '')"
    "\<not> shell_safe (CHR 0x09)"
  by (simp_all add: shell_safe_def is_letter_def is_digit_def)

lemma shell_plain_safe:
  "list_all shell_safe s \<Longrightarrow>
     shell_plain (Some x) (s @ r) = shell_plain (Some (rev s @ x)) r"
  by (induction s arbitrary: x) (auto simp: quotes_unsafe)

abbreviation single :: char where "single \<equiv> CHR 0x27"
abbreviation escaped_single :: string where
  "escaped_single \<equiv> [CHR 0x27, CHR 0x22, CHR 0x27, CHR 0x22, CHR 0x27]"

lemma shell_quoted_body:
  "shell_quoted single x (py_replace [single] escaped_single s @ single # r)
     = shell_plain (Some (rev s @ x)) r"
proof (induction s arbitrary: x)
  case (Cons c s)
  then show ?case by (cases "c = single") (simp_all add: starts_with_Cons)
qed simp

lemma shell_plain_quote:
  "shell_plain (Some x) (shell_quote s @ r) = shell_plain (Some (rev s @ x)) r"
  "shell_plain None (shell_quote s @ r) = shell_plain (Some (rev s)) r"
proof -
  show "shell_plain (Some x) (shell_quote s @ r) = shell_plain (Some (rev s @ x)) r"
    by (auto simp: shell_quote_def shell_plain_safe shell_quoted_body)
  show "shell_plain None (shell_quote s @ r) = shell_plain (Some (rev s)) r"
  proof (cases "s \<noteq> [] \<and> list_all shell_safe s")
    case True
    then obtain c cs where s: "s = c # cs" by (cases s) auto
    from True s have "c \<noteq> CHR '' ''" "c \<noteq> CHR 0x09" "c \<noteq> CHR 0x27" "c \<noteq> CHR 0x22" "shell_safe c"
      by auto
    with True s show ?thesis by (simp add: shell_quote_def shell_plain_safe)
  next
    case False
    then show ?thesis using shell_quoted_body [of "[]" s r] by (auto simp: shell_quote_def)
  qed
qed

lemma append_single: "(@) [x] = (#) x"
  by (rule ext) simp

lemma shell_words_quoted:
  "shell_words (join '' '' (map shell_quote ws)) = Some ws"
proof (induction ws rule: induct_list012)
  case (3 x y zs)
  have "shell_plain None (shell_quote x @ CHR '' '' # join '' '' (map shell_quote (y # zs)))
      = map_option (Cons x) (shell_plain None (join '' '' (map shell_quote (y # zs))))"
    by (simp add: shell_plain_quote append_single)
  moreover have "shell_plain None (join '' '' (map shell_quote (y # zs))) = Some (y # zs)"
    using 3(2) by (simp add: shell_words_def)
  ultimately show ?case by (simp add: shell_words_def)
next
  case (2 x)
  show ?case using shell_plain_quote(2) [of x "[]"] by (simp add: shell_words_def)
qed (simp add: shell_words_def)

text \<open>Cleaning a command cleans the words in it and leaves the quoting alone.\<close>

lemma single_breaks [simp]: "breaks_ansi single" "harmless single" "breaks_ansi (CHR 0x22)" "harmless (CHR 0x22)"
    "breaks_ansi (CHR '' '')" "harmless (CHR '' '')"
  by (simp_all add: breaks_ansi_def harmless_def ansi_param_def is_digit_def is_letter_def is_control_def)

lemma clean_text_Cons: "breaks_ansi d \<Longrightarrow> harmless d \<Longrightarrow> clean_text (d # v) = d # clean_text v"
  using clean_text_append [of d "[]" v] by (simp add: clean_text_def)

lemma clean_text_Nil [simp]: "clean_text [] = []"
  by (simp add: clean_text_def)

text \<open>The parts of a text between its single quotes.\<close>

lemma replace_as_join:
  "py_replace [d] new s = join new (split_on d s)"
proof (induction s)
  case (Cons c s)
  then show ?case
    by (cases "split_on d s" rule: remdups_adj.cases) (auto simp: starts_with_Cons starts_with_Nil)
qed simp

lemma clean_text_escape:
  "clean_text (u @ escaped_single @ v) = clean_text u @ escaped_single @ clean_text v"
  by (simp add: clean_text_append clean_text_Cons)

lemma clean_text_join:
  "clean_text (join escaped_single us @ single # v)
     = join escaped_single (map clean_text us) @ single # clean_text v"
proof (induction escaped_single us rule: join.induct)
  case (2 x)
  then show ?case by (simp add: clean_text_append)
next
  case (3 x y ys)
  then show ?case
    using clean_text_escape [of x "join escaped_single (y # ys) @ single # v"] by simp
qed (simp add: clean_text_Cons)

lemma ansi_rest_subset: "ansi_rest s = Some r \<Longrightarrow> set r \<subseteq> set s"
proof (induction s rule: ansi_rest.induct)
  case (1 e b cs)
  have "set (dropWhile ansi_param cs) \<subseteq> set cs" by (auto dest: set_dropWhileD)
  with 1 show ?case by (auto split: if_splits list.splits)
qed auto

lemma strip_ansi_subset: "set (strip_ansi s) \<subseteq> set s"
proof (induction s rule: strip_ansi.induct)
  case (2 c cs)
  show ?case
  proof (cases "ansi_rest (c # cs)")
    case None
    with 2(1) show ?thesis by auto
  next
    case (Some r)
    from ansi_rest_subset [OF Some] 2(2) [OF Some] Some show ?thesis by auto
  qed
qed simp

lemma clean_text_keeps_out: "d \<notin> set s \<Longrightarrow> d \<noteq> CHR '' '' \<Longrightarrow> d \<notin> set (clean_text s)"
  using strip_ansi_subset [of s] by (auto simp: clean_text_def)

lemma split_on_clean:
  assumes "breaks_ansi d" "harmless d" "d \<noteq> CHR '' ''"
  shows "split_on d (clean_text s) = map clean_text (split_on d s)"
proof (induction "length s" arbitrary: s rule: less_induct)
  case less
  show ?case
  proof (cases "d \<in> set s")
    case True
    then obtain u v where s: "s = u @ d # v" "d \<notin> set u" by (meson split_list_first)
    then have "d \<notin> set (clean_text u)" using assms(3) by (simp add: clean_text_keeps_out)
    then show ?thesis using s less assms by (simp add: clean_text_append split_on_append)
  next
    case False
    then show ?thesis using assms by (simp add: clean_text_keeps_out split_on_plain)
  qed
qed

lemma clean_text_replace:
  "clean_text (py_replace [single] escaped_single s @ single # v)
     = py_replace [single] escaped_single (clean_text s) @ single # clean_text v"
  by (simp add: replace_as_join clean_text_join split_on_clean)

lemma safe_harmless: "shell_safe c \<Longrightarrow> harmless c \<and> \<not> is_space c"
  by (auto simp: shell_safe_def is_letter_def is_digit_def harmless_def is_control_def is_space_def Let_def)

lemma clean_text_quote:
  "clean_text (shell_quote s) =
     (if s \<noteq> [] \<and> list_all shell_safe s then s
      else single # py_replace [single] escaped_single (clean_text s) @ [single])"
proof (cases "s \<noteq> [] \<and> list_all shell_safe s")
  case True
  then have "clean_text s = s" by (intro clean_text_id) (auto simp: list_all_iff dest: safe_harmless)
  with True show ?thesis by (simp add: shell_quote_def)
next
  case False
  then show ?thesis
    using clean_text_replace [of s "[]"] by (auto simp: shell_quote_def clean_text_Cons)
qed

lemma shell_plain_clean_quote:
  "shell_plain None (clean_text (shell_quote s) @ r) = shell_plain (Some (rev (clean_text s))) r"
proof (cases "s \<noteq> [] \<and> list_all shell_safe s")
  case True
  then have "clean_text s = s" by (intro clean_text_id) (auto simp: list_all_iff dest: safe_harmless)
  with True show ?thesis using shell_plain_quote(2) [of s r] by (simp add: clean_text_quote shell_quote_def)
next
  case False
  then show ?thesis using shell_quoted_body [of "[]" "clean_text s" r] by (auto simp: clean_text_quote)
qed

lemma clean_text_command:
  "clean_text (join '' '' (map shell_quote ws)) = join '' '' (map (\<lambda>w. clean_text (shell_quote w)) ws)"
proof (induction ws rule: induct_list012)
  case (3 x y zs)
  then show ?case by (simp add: clean_text_append)
qed simp_all

lemma shell_words_clean:
  "shell_words (clean_text (join '' '' (map shell_quote ws))) = Some (map clean_text ws)"
  unfolding clean_text_command
proof (induction ws rule: induct_list012)
  case (3 x y zs)
  let ?r = "join '' '' (map (\<lambda>w. clean_text (shell_quote w)) (y # zs))"
  have "shell_plain None (clean_text (shell_quote x) @ CHR '' '' # ?r)
      = map_option (Cons (clean_text x)) (shell_plain None ?r)"
    by (simp add: shell_plain_clean_quote append_single)
  moreover have "shell_plain None ?r = Some (map clean_text (y # zs))"
    using 3(2) by (simp add: shell_words_def)
  ultimately show ?case by (simp add: shell_words_def)
next
  case (2 x)
  show ?case using shell_plain_clean_quote [of x "[]"] by (simp add: shell_words_def)
qed (simp add: shell_words_def)

text \<open>A quoted word neither starts nor ends with white space.\<close>

lemma clean_quote_ends:
  "clean_text (shell_quote s) \<noteq> [] \<and> \<not> is_space (hd (clean_text (shell_quote s)))
     \<and> \<not> is_space (last (clean_text (shell_quote s)))"
proof (cases "s \<noteq> [] \<and> list_all shell_safe s")
  case True
  then have "shell_safe (hd s)" "shell_safe (last s)" by (auto simp: list_all_iff)
  with True show ?thesis by (auto simp: clean_text_quote dest: safe_harmless)
next
  case False
  then show ?thesis by (auto simp: clean_text_quote is_space_def)
qed

lemma join_ends:
  "ws \<noteq> [] \<Longrightarrow> (\<And>w. w \<in> set ws \<Longrightarrow> w \<noteq> [] \<and> \<not> is_space (hd w) \<and> \<not> is_space (last w)) \<Longrightarrow>
     join sep ws \<noteq> [] \<and> \<not> is_space (hd (join sep ws)) \<and> \<not> is_space (last (join sep ws))"
proof (induction sep ws rule: join.induct)
  case (3 sep x y ys)
  then have "join sep (y # ys) \<noteq> [] \<and> \<not> is_space (last (join sep (y # ys)))" by auto
  with 3(3) [of x] show ?case by simp
qed auto

lemma sanitize_command:
  assumes "ws \<noteq> []"
  shows "sanitize_tmux_text (join '' '' (map shell_quote ws))
           = Inr (clean_text (join '' '' (map shell_quote ws)))"
proof -
  let ?c = "clean_text (join '' '' (map shell_quote ws))"
  have "?c \<noteq> [] \<and> \<not> is_space (hd ?c) \<and> \<not> is_space (last ?c)"
    unfolding clean_text_command using assms clean_quote_ends by (intro join_ends) auto
  moreover from this have "py_strip ?c = ?c" by (intro py_strip_id) simp
  ultimately show ?thesis by (simp add: sanitize_clean)
qed

text \<open>The argument vector of the command a backend builds.\<close>

fun launch_words :: "agent_backend \<Rightarrow> string \<Rightarrow> string \<Rightarrow> string list" where
  "launch_words (Opencode resolved fallback_model) task model =
     (let executable = (case resolved of None \<Rightarrow> ''opencode'' | Some e \<Rightarrow> e)
      in if fallback_model = model then [executable, ''run'', ''-m'', model, task]
         else [''bash'', ''-lc'', opencode_script executable fallback_model model task])"
| "launch_words Pi task model = [''pi'', task]"

lemma quote_plain_words [simp]:
  "shell_quote ''pi'' = ''pi''" "shell_quote ''run'' = ''run''" "shell_quote ''-m'' = ''-m''"
  "shell_quote ''bash'' = ''bash''" "shell_quote ''-lc'' = ''-lc''"
  by code_simp+

lemma launch_command_join:
  "launch_command b task model = join '' '' (map shell_quote (launch_words b task model))"
  by (cases b) (auto simp: Let_def opencode_call_def)

lemma launch_words_not_Nil: "launch_words b task model \<noteq> []"
  by (cases b) (auto simp: Let_def)

end
