(* ===== verification/Store_Part.thy ===== *)
theory Store_Part
  imports Prelude
begin

text \<open>
  A store that is a part of a caller's world: \<open>run_in\<close> runs an operation of the part on the whole, and
  the locale \<open>store_part\<close> is the contract of such a part.
\<close>

definition run_in :: "('w \<Rightarrow> 's) \<Rightarrow> ('s \<Rightarrow> 'w \<Rightarrow> 'w) \<Rightarrow> ('s, 'a) py \<Rightarrow> ('w, 'a) py" where
  "run_in part put m w = (let (r, s) = m (part w) in (r, put s w))"

lemma run_in_eq: "m (part w) = (r, s) \<Longrightarrow> run_in part put m w = (r, put s w)"
  by (simp add: run_in_def)

lemma preserves_run_in_frame:
  "(\<And>s w. Q (put s w) = Q w) \<Longrightarrow> preserves Q (run_in part put m)"
  by (auto simp: preserves_def run_in_def split: prod.splits)

locale store_part =
  fixes part :: "'w \<Rightarrow> 's" and put :: "'s \<Rightarrow> 'w \<Rightarrow> 'w"
  assumes part_put: "part (put s w) = s"
    and put_part: "put (part w) w = w"
begin

lemma part_run_in: "part (snd (run_in part put m w)) = snd (m (part w))"
  by (simp add: run_in_def part_put split: prod.splits)

lemma fst_run_in: "fst (run_in part put m w) = fst (m (part w))"
  by (simp add: run_in_def split: prod.splits)

lemma preserves_run_in: "preserves P m \<Longrightarrow> preserves (\<lambda>w. P (part w)) (run_in part put m)"
  by (simp add: preserves_def part_run_in)

lemma run_in_read: "m (part w) = (r, part w) \<Longrightarrow> run_in part put m w = (r, w)"
  by (simp add: run_in_def put_part)

end

end
