(* ===== verification/Launch_Client.thy ===== *)
theory Launch_Client
  imports Launch_Lifecycle Store_Part
begin

text \<open>
  What the callers of the launch lifecycle service share. A caller keeps the registry as one part of
  its own world; the locale \<open>launch_client\<close> is the contract of that part: the moves of one launch from
  RESERVED on, as the caller sees them.
\<close>

text \<open>No launch holds the key; the launch \<open>i\<close> is the only one that does.\<close>

definition key_free :: "string \<Rightarrow> launch_table \<Rightarrow> bool" where
  "key_free key t \<longleftrightarrow> (\<forall>j x. registry t j = Some x \<longrightarrow> al_key x = key \<longrightarrow> \<not> is_blocking x)"

definition only_holder :: "string \<Rightarrow> string \<Rightarrow> launch_table \<Rightarrow> bool" where
  "only_holder key i t \<longleftrightarrow> (\<forall>j x. registry t j = Some x \<longrightarrow> al_key x = key \<longrightarrow> is_blocking x \<longrightarrow> j = i)"

lemma key_free_Nil [simp]: "key_free key []"
  by (simp add: key_free_def registry_def get_by_launch_id_def lookup_row_def)

locale launch_client = store_part part put
  for part :: "'w \<Rightarrow> launch_table" and put :: "launch_table \<Rightarrow> 'w \<Rightarrow> 'w"
begin

lemma move:
  assumes "launches_ok (part w)" and "up_output_artifact u = None" and "new \<in> launch_transitions s"
    and "registry (part w) i = Some x" and "al_status x = s"
  shows "\<exists>w'. run_in part put (cas_update_status now i s new u) w = (Inr True, w') \<and> launches_ok (part w')
           \<and> w' = put (part w') w
           \<and> registry (part w') = (registry (part w))(i \<mapsto> set_clause now new new u x)"
proof -
  obtain r t' where run: "cas_update_status now i s new u (part w) = (r, t')" by fastforce
  from cas_step [OF assms(1-3) run] assms(4,5) have "r = Inr True" "launches_ok t'"
    "registry t' = (registry (part w))(i \<mapsto> set_clause now new new u x)" by auto
  with run show ?thesis by (intro exI [of _ "put t' w"]) (simp add: run_in_def part_put)
qed

lemma spawning:
  assumes "launches_ok (part w)" and "registry (part w) i = Some x" and "al_status x = RESERVED"
  shows "\<exists>w'. run_in part put (confirm_spawning now i) w = (Inr True, w') \<and> launches_ok (part w')
           \<and> w' = put (part w') w
           \<and> registry (part w') = (registry (part w))(i \<mapsto> set_clause now SPAWNING SPAWNING no_update x)"
  unfolding confirm_spawning_def using assms by (intro move) simp_all

lemma active:
  assumes "launches_ok (part w)" and "registry (part w) i = Some x" and "al_status x = SPAWNING"
  shows "\<exists>w' u. run_in part put (confirm_active now i backend ht hv pane session pid pgid) w = (Inr True, w')
           \<and> launches_ok (part w') \<and> w' = put (part w') w \<and> up_tmux_session u = session \<and> up_clear_lease u
           \<and> registry (part w') = (registry (part w))(i \<mapsto> set_clause now ACTIVE ACTIVE u x)"
proof -
  let ?u = "no_update\<lparr>up_backend := Some backend, up_handle_type := Some ht, up_handle_value := Some hv,
    up_tmux_pane_id := pane, up_tmux_session := session, up_pid := pid, up_pgid := pgid, up_clear_lease := True\<rparr>"
  have "\<exists>w'. run_in part put (confirm_active now i backend ht hv pane session pid pgid) w = (Inr True, w')
           \<and> launches_ok (part w') \<and> w' = put (part w') w
           \<and> registry (part w') = (registry (part w))(i \<mapsto> set_clause now ACTIVE ACTIVE ?u x)"
    unfolding confirm_active_def using assms by (intro move) simp_all
  then obtain w' where w': "run_in part put (confirm_active now i backend ht hv pane session pid pgid) w
        = (Inr True, w')" "launches_ok (part w')" "w' = put (part w') w"
      "registry (part w') = (registry (part w))(i \<mapsto> set_clause now ACTIVE ACTIVE ?u x)" by blast
  have "up_tmux_session ?u = session" "up_clear_lease ?u" by simp_all
  with w' show ?thesis by blast
qed

lemma failed:
  assumes "launches_ok (part w)" and "registry (part w) i = Some x" and "FAILED \<in> launch_transitions (al_status x)"
  shows "\<exists>w'. run_in part put (mark_failed now i e) w = (Inr True, w') \<and> launches_ok (part w')
           \<and> w' = put (part w') w
           \<and> registry (part w') = (registry (part w))(i \<mapsto>
                set_clause now FAILED FAILED (no_update\<lparr>up_error := Some e\<rparr>) x)"
proof -
  obtain r t' where run: "mark_failed now i e (part w) = (r, t')" by fastforce
  from mark_failed_move [OF assms(1), of now i e] run assms(2,3) have "r = Inr True" "launches_ok t'"
    "registry t' = (registry (part w))(i \<mapsto> set_clause now FAILED FAILED (no_update\<lparr>up_error := Some e\<rparr>) x)"
    by (auto simp: guarded_move_def)
  with run show ?thesis by (intro exI [of _ "put t' w"]) (simp add: run_in_def part_put)
qed

text \<open>
  A request: granted, the registry then holds the new launch in RESERVED under a fresh id and no
  other launch of the key is in flight; or refused, the registry changed at most by the quarantine
  of an expired launch.
\<close>

lemma request:
  assumes ok: "launches_ok (part w)" and v: "valid_launch (requested_launch d clk uid rq)"
  shows "\<exists>a w' t1. run_in part put (request_launch d clk uid rq) w = (Inr a, w')
     \<and> w' = put (part w') w \<and> launches_ok (part w') \<and> launches_ok t1
     \<and> (t1 = part w \<or> quarantined_first clk (rq_key rq) (part w) t1)
     \<and> ((la_decision a = Claimed \<and> la_launch a = Some (requested_launch d clk uid rq)
           \<and> registry (part w') = (registry t1)(uid \<mapsto> requested_launch d clk uid rq)
           \<and> registry t1 uid = None \<and> \<not> key_in_flight (rq_key rq) t1)
        \<or> (la_decision a \<noteq> Claimed \<and> la_launch a = None \<and> part w' = t1))"
proof -
  obtain r t' where run: "request_launch d clk uid rq (part w) = (r, t')" by fastforce
  from request_result [OF ok v] obtain t1 where t1: "launches_ok t1"
      "t1 = part w \<or> quarantined_first clk (rq_key rq) (part w) t1"
      "claim_granted (r, t') t1 uid (requested_launch d clk uid rq) \<or> not_granted (r, t') t1"
    unfolding run by blast
  then show ?thesis
    using run
    by (elim disjE) (fastforce simp: run_in_def part_put intro!: exI [of _ "put t' w"] exI [of _ t1])+
qed

text \<open>A request without a parent for a key that nothing blocks is granted.\<close>

lemma granted:
  assumes ok: "launches_ok (part w)" and v: "valid_launch (requested_launch d clk uid rq)"
    and parent: "rq_parent rq = None" and fresh: "registry (part w) uid = None"
    and free: "key_free (rq_key rq) (part w)"
  shows "\<exists>w'. run_in part put (request_launch d clk uid rq) w =
       (Inr \<lparr>la_launch = Some (requested_launch d clk uid rq), la_decision = Claimed, la_existing = None,
             la_reason = None\<rparr>, w')
     \<and> w' = put (part w') w \<and> launches_ok (part w')
     \<and> registry (part w') = (registry (part w))(uid \<mapsto> requested_launch d clk uid rq)"
proof -
  have "find_active_by_canonical_key (rq_key rq) (part w) = Inr None"
    using find_active_result [OF ok, of "rq_key rq"] free by (auto simp: key_free_def)
  then have body: "request_body d clk uid rq (part w) = attempt_claim d clk uid rq (part w)"
    using parent by (simp add: request_body_def py_simps validate_and_claim_def)
  have "\<not> key_in_flight (rq_key rq) (part w)"
    using free by (auto simp: key_free_def key_in_flight_def in_flight_def is_blocking_def blocking_statuses_def)
  with attempt_claim_result [OF ok v] parent fresh
  have g: "claim_granted (attempt_claim d clk uid rq (part w)) (part w) uid (requested_launch d clk uid rq)"
    by auto
  then obtain t' where "request_launch d clk uid rq (part w) =
      (Inr \<lparr>la_launch = Some (requested_launch d clk uid rq), la_decision = Claimed, la_existing = None,
             la_reason = None\<rparr>, t')" "launches_ok t'"
      "registry t' = (registry (part w))(uid \<mapsto> requested_launch d clk uid rq)"
    using body by (cases "attempt_claim d clk uid rq (part w)") (auto simp: request_launch_def py_catch_def)
  then show ?thesis by (intro exI [of _ "put t' w"]) (simp add: run_in_def part_put)
qed

text \<open>A request for a key with a launch in flight whose lease is not over is refused.\<close>

lemma refused:
  assumes ok: "launches_ok (part w)" and v: "valid_launch (requested_launch d clk uid rq)"
    and x: "registry (part w) i = Some x" "al_key x = rq_key rq" "in_flight x"
    and live: "al_status x \<notin> {RESERVED, SPAWNING} \<or> lease_is_valid (rc_check clk) x"
  shows "\<exists>a w'. run_in part put (request_launch d clk uid rq) w = (Inr a, w')
     \<and> w' = put (part w') w \<and> launches_ok (part w') \<and> la_decision a \<noteq> Claimed
     \<and> registry (part w') i = Some x"
proof -
  from request [OF ok v] obtain a w' t1 where a: "run_in part put (request_launch d clk uid rq) w = (Inr a, w')"
      "w' = put (part w') w" "launches_ok (part w')" and t1: "launches_ok t1"
      "t1 = part w \<or> quarantined_first clk (rq_key rq) (part w) t1"
    and out: "(la_decision a = Claimed \<and> la_launch a = Some (requested_launch d clk uid rq)
           \<and> registry (part w') = (registry t1)(uid \<mapsto> requested_launch d clk uid rq)
           \<and> registry t1 uid = None \<and> \<not> key_in_flight (rq_key rq) t1)
        \<or> (la_decision a \<noteq> Claimed \<and> la_launch a = None \<and> part w' = t1)" by blast
  have "registry t1 i = Some x"
  proof (cases "t1 = part w")
    case False
    with t1(2) obtain z where z: "registry (part w) (al_id z) = Some z" "al_status z \<in> {RESERVED, SPAWNING}"
        "\<not> lease_is_valid (rc_check clk) z" and t1_upd: "registry t1 = (registry (part w))(al_id z \<mapsto>
           set_clause (rc_quarantine clk) QUARANTINED QUARANTINED
             (no_update\<lparr>up_quarantine_reason := Some (lease_expired_reason z)\<rparr>) z)"
      unfolding quarantined_first_def by blast
    have "al_id z \<noteq> i" using z x(1) live by auto
    with x(1) show ?thesis by (simp add: t1_upd)
  qed (simp add: x(1))
  with x(2,3) have "key_in_flight (rq_key rq) t1" by (auto simp: key_in_flight_def)
  with out have "la_decision a \<noteq> Claimed" "part w' = t1" by auto
  with a \<open>registry t1 i = Some x\<close> show ?thesis by auto
qed

end

end
