(* ===== verification/Workflow_Executor.thy ===== *)
theory Workflow_Executor
  imports Workflow_State Workspace Tmux_Orchestrator Launch_Client
begin

text \<open>
  WorkflowExecutor (src/application/services/workflow/executor.py) on top of the launch registry, the
  workspace manager and the tmux front end. The memory service and the hooks only receive: every
  exception they raise is swallowed, so they are the lists of the events handed to them. Fresh ids,
  clock readings and tmux's answers are arguments.

  A task whose id, slug or description is not a text raises where the code first uses the field as
  a text; lists and dictionaries in those fields are treated like the other non-texts.
\<close>

section \<open>World and configuration\<close>

datatype workflow_event_type =
    TASK_STARTED | AGENT_SPAWNED | TASK_COMPLETED | TASK_FAILED
  | SHIP_STARTED | SHIP_COMPLETED | SHIP_FAILED_RUNTIME

record workflow_event =
  we_type :: workflow_event_type
  we_content :: string
  we_run_id :: string
  we_task_id :: string
  we_agent_id :: string
  we_launch_id :: "string option"
  we_session :: string
  we_branch :: "string option"
  we_target :: "string option"
  we_worktree :: "string option"
  we_success :: "bool option"
  we_error :: "string option"

datatype hook_event =
    ExecuteStart json nat
  | ExecuteComplete json nat
  | WorktreeCreated string string
  | WorktreeMerged string string
  | WorktreeRemoved string
  | OutlineStart string string
  | OutlineComplete string string
  | VerifyStart json bool
  | VerifyComplete string
  | ShipStart json string
  | ShipComplete json string

record 'r exec_world =
  xw_launches :: launch_table
  xw_git :: "'r git_world"
  xw_sessions :: "string list"
  xw_typed :: "(string \<times> int \<times> string) list"
  xw_events :: "workflow_event list"
  xw_dispatched :: "hook_event list"

text \<open>\<open>xc_lifecycle\<close> is the lease duration of the wired lifecycle service, \<open>None\<close> without one.\<close>

record 'r exec_config =
  xc_lifecycle :: "int option"
  xc_git :: "'r git"
  xc_fs :: file_system
  xc_layout :: layout
  xc_safety_mode :: bool
  xc_debug :: bool

record task_input =
  ti_session_uid :: string
  ti_run_uid :: string
  ti_launch_uid :: string
  ti_suffix :: string
  ti_clock :: request_clock
  ti_now :: int
  ti_new_session :: tmux_run
  ti_backend :: "agent_backend option"
  ti_launch :: launch_answers
  ti_hook :: hook_run

record task_result =
  tr_task :: wf_task
  tr_session :: "string option"
  tr_worktree_path :: "string option"
  tr_worktree_name :: "string option"
  tr_error :: "string option"

abbreviation on_slots :: "(launch_table, 'a) py \<Rightarrow> ('r exec_world, 'a) py" where
  "on_slots \<equiv> run_in xw_launches (\<lambda>t w. w\<lparr>xw_launches := t\<rparr>)"

abbreviation on_git :: "('r git_world, 'a) py \<Rightarrow> ('r exec_world, 'a) py" where
  "on_git \<equiv> run_in xw_git (\<lambda>g w. w\<lparr>xw_git := g\<rparr>)"

definition dispatch :: "hook_event \<Rightarrow> ('r exec_world, unit) py" where
  "dispatch e w = (Inr (), w\<lparr>xw_dispatched := xw_dispatched w @ [e]\<rparr>)"

lemma redact_shorter: "length (dropWhile P (drop n (c # cs))) - Suc 0 < Suc (length cs)"
proof -
  have "length (dropWhile P (drop n (c # cs))) \<le> length (drop n (c # cs))"
    by (rule length_dropWhile_le)
  also have "\<dots> \<le> Suc (length cs)" by simp
  finally show ?thesis by simp
qed

text \<open>\<open>re.sub(prefix + "[^/]+/", "<redacted>/", s)\<close>.\<close>

function redact :: "string \<Rightarrow> string \<Rightarrow> string" where
  "redact prefix [] = []"
| "redact prefix (c # cs) =
     (let after = drop (length prefix) (c # cs);
          rest = dropWhile (\<lambda>x. x \<noteq> CHR ''/'') after
      in if starts_with prefix (c # cs) \<and> after \<noteq> [] \<and> hd after \<noteq> CHR ''/'' \<and> rest \<noteq> []
         then ''<redacted>/'' @ redact prefix (tl rest)
         else c # redact prefix cs)"
  by pat_completeness auto

termination
  by (relation "measure (\<lambda>(p, s). length s)") (auto intro: redact_shorter)

definition sanitize_error :: "bool \<Rightarrow> string \<Rightarrow> string" where
  "sanitize_error debug s = (if debug then s else redact ''/home/'' (redact ''/Users/'' s))"

definition emit_event :: "'r exec_config \<Rightarrow> workflow_event \<Rightarrow> ('r exec_world, unit) py" where
  "emit_event cfg e w =
     (Inr (), w\<lparr>xw_events := xw_events w
        @ [e\<lparr>we_error := map_option (sanitize_error (xc_debug cfg)) (we_error e)\<rparr>]\<rparr>)"

section \<open>One task\<close>

definition task_text :: "json \<Rightarrow> string result" where
  "task_text d =
     (case d of
        JString s \<Rightarrow> Inr s
      | _ \<Rightarrow> Inl (TypeError (quoted (json_type_name d) @ '' object is not a string'')))"

datatype slot = Refused "string option" string | Granted "string option"

definition reason_or :: "string \<Rightarrow> string option \<Rightarrow> string" where
  "reason_or d r = (case r of Some (c # cs) \<Rightarrow> c # cs | _ \<Rightarrow> d)"

definition slot_of_attempt :: "launch_attempt \<Rightarrow> slot" where
  "slot_of_attempt a =
     (case la_decision a of
        Suppressed \<Rightarrow>
          Refused (case la_existing a of None \<Rightarrow> None | Some x \<Rightarrow> al_tmux_session x)
            (''Launch suppressed: '' @ reason_or ''already active'' (la_reason a))
      | Error \<Rightarrow>
          Refused None (''Launch blocked by registry error: ''
            @ (case la_reason a of None \<Rightarrow> ''None'' | Some r \<Rightarrow> r))
      | Claimed \<Rightarrow> Granted (map_option al_id (la_launch a)))"

definition workflow_request :: "string \<Rightarrow> launch_request" where
  "workflow_request task_id =
     \<lparr>rq_key = build_workflow_key task_id, rq_surface = ''workflow'', rq_owner_type = ''task'',
      rq_owner_id = task_id, rq_role = None, rq_parent = None, rq_model = None\<rparr>"

definition claim_slot :: "'r exec_config \<Rightarrow> task_input \<Rightarrow> string \<Rightarrow> ('r exec_world, slot) py" where
  "claim_slot cfg inp task_id =
     (case xc_lifecycle cfg of
        None \<Rightarrow> py_return (Granted None)
      | Some duration \<Rightarrow>
          py_bind (on_slots (request_launch duration (ti_clock inp) (ti_launch_uid inp)
                     (workflow_request task_id))) (\<lambda>a.
            py_return (slot_of_attempt a)))"

text \<open>A call of the lifecycle service that is made when there is a launch; its answer is only logged.\<close>

definition when_launched :: "string option \<Rightarrow> (string \<Rightarrow> (launch_table, bool) py) \<Rightarrow> ('r exec_world, unit) py" where
  "when_launched launch m =
     (case launch of
        None \<Rightarrow> py_return ()
      | Some l \<Rightarrow> py_bind (on_slots (m l)) (\<lambda>_. py_return ()))"

definition note_session :: "string \<Rightarrow> ('r exec_world, unit) py" where
  "note_session s w = (Inr (), w\<lparr>xw_sessions := xw_sessions w @ [s]\<rparr>)"

definition note_typed :: "string \<Rightarrow> (int \<times> string) option \<Rightarrow> ('r exec_world, unit) py" where
  "note_typed s typed w =
     (case typed of
        None \<Rightarrow> (Inr (), w)
      | Some (window, text) \<Rightarrow> (Inr (), w\<lparr>xw_typed := xw_typed w @ [(s, window, text)]\<rparr>))"

definition spawned_workflow_event :: "string \<Rightarrow> string \<Rightarrow> string option \<Rightarrow> string \<Rightarrow> workflow_event" where
  "spawned_workflow_event run_id task_id launch session =
     \<lparr>we_type = AGENT_SPAWNED, we_content = ''Agent spawned in session '' @ session,
      we_run_id = run_id, we_task_id = task_id, we_agent_id = session @ '':0'', we_launch_id = launch,
      we_session = session, we_branch = None, we_target = None, we_worktree = None,
      we_success = None, we_error = None\<rparr>"

text \<open>The errors of the launch of an agent in a session that exists.\<close>

definition launch_in_session ::
  "'r exec_config \<Rightarrow> task_input \<Rightarrow> string \<Rightarrow> string \<Rightarrow> string option \<Rightarrow> string \<Rightarrow> string \<Rightarrow> string
     \<Rightarrow> ('r exec_world, string list) py" where
  "launch_in_session cfg inp run_id task_id launch description session model =
     (case ti_backend inp of
        None \<Rightarrow> py_return [''No available agent backend found (opencode/pi)'']
      | Some backend \<Rightarrow>
          py_bind (py_lift (launch_agent (xc_safety_mode cfg) (ti_launch inp) session 0 backend
                     (''Execute task: '' @ description) (Some model))) (\<lambda>(launched, typed).
          py_bind (note_typed session typed) (\<lambda>_.
            if \<not> launched then py_return [''Failed to launch agent in tmux session: '' @ session]
            else py_bind (when_launched launch (\<lambda>l. confirm_active (ti_now inp) l ''tmux''
                            ''tmux-session'' session None (Some session) None None)) (\<lambda>_.
                 py_bind (emit_event cfg (spawned_workflow_event run_id task_id launch session)) (\<lambda>_.
                   py_return [])))))"

text \<open>
  Step 1, with its \<open>except Exception\<close>: the session reported (set as soon as tmux created it) and the
  errors.
\<close>

definition start_session ::
  "'r exec_config \<Rightarrow> task_input \<Rightarrow> string \<Rightarrow> string \<Rightarrow> string option \<Rightarrow> string \<Rightarrow> string \<Rightarrow> string
     \<Rightarrow> ('r exec_world, string option \<times> string list) py" where
  "start_session cfg inp run_id task_id launch description session model =
     (case create_session (ti_new_session inp) of
        Inl e \<Rightarrow> py_return (None, [''Error creating tmux session: '' @ exc_message e])
      | Inr False \<Rightarrow> py_return (None, [''Failed to create tmux session: '' @ session])
      | Inr True \<Rightarrow>
          py_bind (note_session session) (\<lambda>_.
            py_catch (\<lambda>e. True)
              (py_bind (launch_in_session cfg inp run_id task_id launch description session model)
                 (\<lambda>errors. py_return (Some session, errors)))
              (\<lambda>e. py_return (Some session, [''Error creating tmux session: '' @ exc_message e]))))"

text \<open>Step 2: the worktree, under a second name when the first one exists.\<close>

definition open_workspace :: "'r exec_config \<Rightarrow> hook_run \<Rightarrow> string \<Rightarrow> ('r exec_world, workspace) py" where
  "open_workspace cfg hook name =
     on_git (create_workspace (xc_fs cfg) (xc_git cfg) (xc_layout cfg) hook name None)"

definition create_worktree ::
  "'r exec_config \<Rightarrow> task_input \<Rightarrow> string \<Rightarrow> ('r exec_world, string \<times> string) py" where
  "create_worktree cfg inp slug =
     (let base = ''task-'' @ take 30 slug;
          second = take 24 base @ ''-'' @ ti_suffix inp
      in py_bind (py_catch (\<lambda>e. contains_text ''already exists'' (py_lower (exc_message e)))
              (py_bind (open_workspace cfg (ti_hook inp) base) (\<lambda>ws. py_return (base, ws)))
              (\<lambda>e. py_bind (open_workspace cfg (ti_hook inp) second) (\<lambda>ws. py_return (second, ws))))
            (\<lambda>(name, ws).
              py_bind (dispatch (WorktreeCreated name (path_text (ws_path ws)))) (\<lambda>_.
                py_return (name, path_text (ws_path ws)))))"

definition worktree_step ::
  "'r exec_config \<Rightarrow> task_input \<Rightarrow> string \<Rightarrow> ('r exec_world, (string \<times> string) option \<times> string list) py" where
  "worktree_step cfg inp slug =
     py_catch (\<lambda>e. True)
       (py_bind (create_worktree cfg inp slug) (\<lambda>made. py_return (Some made, [])))
       (\<lambda>e. py_return (None, [''Failed to create worktree: '' @ exc_message e]))"

definition finished_event ::
  "string \<Rightarrow> string \<Rightarrow> string option \<Rightarrow> string \<Rightarrow> string \<Rightarrow> string option
     \<Rightarrow> (string \<times> string) option \<Rightarrow> string list \<Rightarrow> workflow_event" where
  "finished_event run_id task_id launch description session started made errors =
     \<lparr>we_type = (if errors = [] then TASK_COMPLETED else TASK_FAILED),
      we_content = (if errors = [] then ''Task completed: '' else ''Task failed: '') @ take 100 description,
      we_run_id = run_id, we_task_id = task_id, we_agent_id = reason_or ''unknown'' started,
      we_launch_id = launch, we_session = reason_or session started,
      we_branch = map_option fst made, we_target = None, we_worktree = map_option snd made,
      we_success = Some (errors = []),
      we_error = (if errors = [] then None else Some (join ''; '' errors))\<rparr>"

definition run_task ::
  "'r exec_config \<Rightarrow> task_input \<Rightarrow> string \<Rightarrow> string \<Rightarrow> string option \<Rightarrow> string \<Rightarrow> string \<Rightarrow> wf_task
     \<Rightarrow> ('r exec_world, task_result) py" where
  "run_task cfg inp run_id task_id launch session model t =
     py_bind (py_lift (task_text (wt_description t))) (\<lambda>description.
     py_bind (emit_event cfg \<lparr>we_type = TASK_STARTED,
         we_content = ''Task started: '' @ take 100 description, we_run_id = run_id, we_task_id = task_id,
         we_agent_id = ''pending'', we_launch_id = launch, we_session = session, we_branch = None,
         we_target = None, we_worktree = None, we_success = None, we_error = None\<rparr>) (\<lambda>_.
     py_bind (when_launched launch (confirm_spawning (ti_now inp))) (\<lambda>_.
     py_bind (start_session cfg inp run_id task_id launch description session model) (\<lambda>(started, errors).
     py_bind (if errors = [] then py_return ()
              else when_launched launch (\<lambda>l. mark_failed (ti_now inp) l (join ''; '' errors))) (\<lambda>_.
     py_bind (py_lift (task_text (wt_slug t))) (\<lambda>slug.
     py_bind (worktree_step cfg inp slug) (\<lambda>(made, errors').
     py_bind (emit_event cfg (finished_event run_id task_id launch description session started made
                (errors @ errors'))) (\<lambda>_.
       py_return \<lparr>tr_task = t, tr_session = started, tr_worktree_path = map_option snd made,
         tr_worktree_name = map_option fst made,
         tr_error = (if errors @ errors' = [] then None else Some (join ''; '' (errors @ errors')))\<rparr>))))))))"

definition execute_task ::
  "'r exec_config \<Rightarrow> task_input \<Rightarrow> string \<Rightarrow> string option \<Rightarrow> string option \<Rightarrow> wf_task
     \<Rightarrow> ('r exec_world, task_result) py" where
  "execute_task cfg inp model session_name run_id t =
     py_bind (case session_name of
         Some s \<Rightarrow> py_return s
       | None \<Rightarrow> py_bind (py_lift (task_text (wt_slug t))) (\<lambda>slug.
           py_return (''fork-'' @ take 20 slug @ ''-'' @ ti_session_uid inp))) (\<lambda>session.
     py_bind (py_lift (task_text (wt_id t))) (\<lambda>task_id.
     py_bind (claim_slot cfg inp task_id) (\<lambda>s. case s of
         Refused existing err \<Rightarrow>
           py_return \<lparr>tr_task = t, tr_session = existing, tr_worktree_path = None,
             tr_worktree_name = None, tr_error = Some err\<rparr>
       | Granted launch \<Rightarrow>
           run_task cfg inp (case run_id of None \<Rightarrow> ''run-'' @ ti_run_uid inp | Some r \<Rightarrow> r)
             task_id launch session model t)))"

section \<open>A plan\<close>

text \<open>\<open>x or y\<close> on the optional fields.\<close>

definition or_else :: "string option \<Rightarrow> json \<Rightarrow> json" where
  "or_else x d = (case x of Some (c # cs) \<Rightarrow> JString (c # cs) | _ \<Rightarrow> d)"

definition json_of_text :: "string option \<Rightarrow> json" where
  "json_of_text x = (case x of None \<Rightarrow> JNull | Some s \<Rightarrow> JString s)"

text \<open>\<open>depends_on\<close> and \<open>requirement_ids\<close> are not passed on: they take their defaults.\<close>

definition create_updated_task :: "task_result \<Rightarrow> wf_task" where
  "create_updated_task r =
     (new_task (wt_id (tr_task r)) (wt_slug (tr_task r)) (wt_description (tr_task r)))
       \<lparr>wt_status := (if reason_or [] (tr_session r) \<noteq> [] then JString ''executing'' else wt_status (tr_task r)),
        wt_branch := or_else (tr_worktree_name r) (wt_branch (tr_task r)),
        wt_worktree_path := or_else (tr_worktree_path r) (wt_worktree_path (tr_task r)),
        wt_session_name := json_of_text (tr_session r),
        wt_agent_pid := wt_agent_pid (tr_task r)\<rparr>"

record collected =
  cl_sessions :: "string list"
  cl_worktrees :: "string list"
  cl_errors :: "string list"
  cl_tasks :: "wf_task list"

definition append_text :: "string option \<Rightarrow> string list \<Rightarrow> string list" where
  "append_text x xs = (case x of Some (c # cs) \<Rightarrow> xs @ [c # cs] | _ \<Rightarrow> xs)"

definition collect_result_data :: "task_result \<Rightarrow> collected \<Rightarrow> collected" where
  "collect_result_data r c =
     c\<lparr>cl_sessions := append_text (tr_session r) (cl_sessions c),
       cl_worktrees := append_text (tr_worktree_name r) (cl_worktrees c),
       cl_errors := append_text (tr_error r) (cl_errors c),
       cl_tasks := cl_tasks c @ [create_updated_task r]\<rparr>"

definition nothing_collected :: collected where
  "nothing_collected = \<lparr>cl_sessions = [], cl_worktrees = [], cl_errors = [], cl_tasks = []\<rparr>"

text \<open>The two branches of \<open>execute_plan\<close>; the \<open>n\<close>-th task that runs gets the \<open>n\<close>-th input.\<close>

fun run_all ::
  "'r exec_config \<Rightarrow> (nat \<Rightarrow> task_input) \<Rightarrow> string \<Rightarrow> nat \<Rightarrow> wf_task list \<Rightarrow> ('r exec_world, task_result list) py"
where
  "run_all cfg inp model n [] = py_return []"
| "run_all cfg inp model n (t # ts) =
     py_bind (execute_task cfg (inp n) model None None t) (\<lambda>r.
     py_bind (run_all cfg inp model (Suc n) ts) (\<lambda>rs. py_return (r # rs)))"

fun run_each ::
  "'r exec_config \<Rightarrow> (nat \<Rightarrow> task_input) \<Rightarrow> string \<Rightarrow> nat \<Rightarrow> wf_task list \<Rightarrow> collected
     \<Rightarrow> ('r exec_world, collected) py"
where
  "run_each cfg inp model n [] c = py_return c"
| "run_each cfg inp model n (t # ts) c =
     py_bind (execute_task cfg (inp n) model None None t) (\<lambda>r.
       run_each cfg inp model (Suc n) ts (collect_result_data r c))"

definition tasks_to_execute :: "plan_state \<Rightarrow> string option \<Rightarrow> wf_task list" where
  "tasks_to_execute plan task_id =
     (case task_id of
        Some (c # cs) \<Rightarrow> filter (\<lambda>t. wt_id t = JString (c # cs)) (ps_tasks plan)
      | _ \<Rightarrow> ps_tasks plan)"

record execution_result =
  er_state :: execute_state
  er_sessions :: "string list"
  er_worktrees :: "string list"
  er_errors :: "string list"

definition execute_plan ::
  "'r exec_config \<Rightarrow> (nat \<Rightarrow> task_input) \<Rightarrow> string \<Rightarrow> json \<Rightarrow> plan_state \<Rightarrow> bool \<Rightarrow> string \<Rightarrow> string option
     \<Rightarrow> ('r exec_world, execution_result) py"
where
  "execute_plan cfg inp uid now plan parallel model task_id =
     py_bind (dispatch (ExecuteStart (ps_session_id plan) (length (ps_tasks plan)))) (\<lambda>_.
     py_bind (if parallel
              then py_bind (run_all cfg inp model 0 (tasks_to_execute plan task_id)) (\<lambda>rs.
                     py_return (fold collect_result_data rs nothing_collected))
              else run_each cfg inp model 0 (tasks_to_execute plan task_id) nothing_collected) (\<lambda>c.
     py_bind (dispatch (ExecuteComplete (ps_session_id plan) (length (cl_tasks c)))) (\<lambda>_.
       py_return \<lparr>er_state = \<lparr>es_session_id = JString (''exec-'' @ uid), es_status = JString ''executing'',
            es_phase = EXECUTED, es_started_at = now, es_tasks = cl_tasks c, es_current = JNumber 0,
            es_schema = JNumber 4, es_migrated_from = None\<rparr>,
          er_sessions = cl_sessions c, er_worktrees = cl_worktrees c, er_errors = cl_errors c\<rparr>)))"

section \<open>Cleaning up\<close>

record cleanup_result =
  cr_worktree_name :: string
  cr_merged :: bool
  cr_removed :: bool
  cr_error :: "string option"

text \<open>\<open>task.branch or f"task-{task.slug[:30]}"\<close>.\<close>

definition worktree_name_of :: "wf_task \<Rightarrow> string result" where
  "worktree_name_of t =
     (if json_truthy (wt_branch t) then task_text (wt_branch t)
      else res_bind (task_text (wt_slug t)) (\<lambda>slug. Inr (''task-'' @ take 30 slug)))"

text \<open>\<open>try: m except Exception: note the error\<close>, as the pair of success and the errors.\<close>

definition attempt :: "string \<Rightarrow> ('s, unit) py \<Rightarrow> ('s, bool \<times> string list) py" where
  "attempt prefix m =
     py_catch (\<lambda>e. True) (py_bind m (\<lambda>_. py_return (True, [])))
       (\<lambda>e. py_return (False, [prefix @ exc_message e]))"

definition merge_step :: "'r exec_config \<Rightarrow> string \<Rightarrow> string \<Rightarrow> ('r exec_world, unit) py" where
  "merge_step cfg name target =
     py_bind (on_git (merge_workspace (xc_fs cfg) (xc_git cfg) name target False)) (\<lambda>_.
       dispatch (WorktreeMerged name target))"

definition remove_step :: "'r exec_config \<Rightarrow> hook_run \<Rightarrow> string \<Rightarrow> ('r exec_world, unit) py" where
  "remove_step cfg hook name =
     py_bind (on_git (remove_workspace (xc_fs cfg) (xc_git cfg) hook name True)) (\<lambda>_.
       dispatch (WorktreeRemoved name))"

definition ship_event ::
  "workflow_event_type \<Rightarrow> string \<Rightarrow> wf_task \<Rightarrow> string \<Rightarrow> string \<Rightarrow> string \<Rightarrow> bool option \<Rightarrow> string option
     \<Rightarrow> workflow_event" where
  "ship_event ty content t run_id name target ok err =
     (let text = (\<lambda>d. case d of JString s \<Rightarrow> s | _ \<Rightarrow> []);
          session = reason_or ''unknown'' (Some (text (wt_session_name t)))
      in \<lparr>we_type = ty, we_content = content, we_run_id = run_id, we_task_id = text (wt_id t),
          we_agent_id = session, we_launch_id = None, we_session = session, we_branch = Some name,
          we_target = Some target, we_worktree = Some (text (wt_worktree_path t)),
          we_success = ok, we_error = err\<rparr>)"

definition cleanup_worktree ::
  "'r exec_config \<Rightarrow> string \<Rightarrow> hook_run \<Rightarrow> bool \<Rightarrow> string \<Rightarrow> string option \<Rightarrow> wf_task
     \<Rightarrow> ('r exec_world, cleanup_result) py" where
  "cleanup_worktree cfg uid hook merge target run_id t =
     py_bind (py_lift (worktree_name_of t)) (\<lambda>name.
       let run = (case run_id of None \<Rightarrow> ''ship-'' @ uid | Some r \<Rightarrow> r)
       in if \<not> json_truthy (wt_worktree_path t)
          then py_return \<lparr>cr_worktree_name = name, cr_merged = False, cr_removed = False,
                 cr_error = Some ''No worktree path found''\<rparr>
          else
            py_bind (emit_event cfg (ship_event SHIP_STARTED (''Ship started: merging '' @ name @ '' into '' @ target)
                       t run name target None None)) (\<lambda>_.
            py_bind (if merge then attempt ''Merge failed: '' (merge_step cfg name target)
                     else py_return (False, [])) (\<lambda>(merged, errors).
            py_bind (attempt ''Remove failed: '' (remove_step cfg hook name)) (\<lambda>(removed, errors').
            py_bind (emit_event cfg (if errors @ errors' \<noteq> []
                then ship_event SHIP_FAILED_RUNTIME (''Ship failed: '' @ name) t run name target
                       (Some False) (Some (join ''; '' (errors @ errors')))
                else ship_event SHIP_COMPLETED (''Ship completed: '' @ name @ '' merged into '' @ target)
                       t run name target (Some True) None)) (\<lambda>_.
              py_return \<lparr>cr_worktree_name = name, cr_merged = merged, cr_removed = removed,
                cr_error = (if errors @ errors' = [] then None else Some (join ''; '' (errors @ errors')))\<rparr>)))))"

fun cleanup_all_worktrees ::
  "'r exec_config \<Rightarrow> (nat \<Rightarrow> string) \<Rightarrow> hook_run \<Rightarrow> bool \<Rightarrow> string \<Rightarrow> nat \<Rightarrow> wf_task list
     \<Rightarrow> ('r exec_world, cleanup_result list) py" where
  "cleanup_all_worktrees cfg uid hook merge target n [] = py_return []"
| "cleanup_all_worktrees cfg uid hook merge target n (t # ts) =
     (if json_truthy (wt_worktree_path t)
      then py_bind (cleanup_worktree cfg (uid n) hook merge target None t) (\<lambda>r.
           py_bind (cleanup_all_worktrees cfg uid hook merge target (Suc n) ts) (\<lambda>rs.
             py_return (r # rs)))
      else cleanup_all_worktrees cfg uid hook merge target (Suc n) ts)"

section \<open>Lemmas\<close>

interpretation exec_slots: launch_client xw_launches "\<lambda>t w. w\<lparr>xw_launches := t\<rparr>"
  by unfold_locales simp_all

interpretation exec_git: store_part xw_git "\<lambda>g w. w\<lparr>xw_git := g\<rparr>"
  by unfold_locales simp_all

lemma preserves_logs [preserves_rules]:
  "preserves (\<lambda>w. P (xw_launches w) (xw_git w)) (dispatch e)"
  "preserves (\<lambda>w. P (xw_launches w) (xw_git w)) (emit_event cfg ev)"
  "preserves (\<lambda>w. P (xw_launches w) (xw_git w)) (note_session s)"
  "preserves (\<lambda>w. P (xw_launches w) (xw_git w)) (note_typed s typed)"
  by (auto simp: preserves_def dispatch_def emit_event_def note_session_def note_typed_def
      split: option.splits)

text \<open>The worktree step never raises and leaves the registry and the sessions alone.\<close>

lemma worktree_step_result:
  "\<exists>made errors w'. worktree_step cfg inp slug w = (Inr (made, errors), w') \<and>
     (errors = [] \<longleftrightarrow> made \<noteq> None) \<and> xw_launches w' = xw_launches w \<and> xw_sessions w' = xw_sessions w
     \<and> xw_typed w' = xw_typed w \<and> xw_events w' = xw_events w"
proof -
  let ?P = "\<lambda>v. xw_launches v = xw_launches w \<and> xw_sessions v = xw_sessions w
    \<and> xw_typed v = xw_typed w \<and> xw_events v = xw_events w"
  have "preserves ?P (on_git m)" for m :: "('a git_world, 'b) py"
    by (rule preserves_run_in_frame) simp
  moreover have "preserves ?P (dispatch e)" for e :: hook_event
    by (auto simp: preserves_def dispatch_def)
  ultimately have "preserves ?P (worktree_step cfg inp slug)"
    unfolding worktree_step_def create_worktree_def open_workspace_def Let_def case_prod_beta
    by (intro preserves_rules)
  then have "?P (snd (worktree_step cfg inp slug w))" by (auto dest: preservesD)
  moreover have "\<exists>made errors. fst (worktree_step cfg inp slug w) = Inr (made, errors)
      \<and> (errors = [] \<longleftrightarrow> made \<noteq> None)"
    by (auto simp: worktree_step_def py_catch_def py_bind_def py_simps split: prod.splits sum.splits)
  ultimately show ?thesis by (cases "worktree_step cfg inp slug w") auto
qed

text \<open>Whether tmux and the backend let an agent start in the session.\<close>

definition agent_started :: "'r exec_config \<Rightarrow> task_input \<Rightarrow> string \<Rightarrow> string \<Rightarrow> string \<Rightarrow> bool" where
  "agent_started cfg inp description session model \<longleftrightarrow>
     create_session (ti_new_session inp) = Inr True \<and>
     (case ti_backend inp of
        None \<Rightarrow> False
      | Some b \<Rightarrow> (case launch_agent (xc_safety_mode cfg) (ti_launch inp) session 0 b
                      (''Execute task: '' @ description) (Some model) of
            Inr (launched, typed) \<Rightarrow> launched
          | Inl e \<Rightarrow> False))"

lemma emit_launches [simp]:
  "xw_launches (snd (emit_event cfg e w)) = xw_launches w" "fst (emit_event cfg e w) = Inr ()"
  by (simp_all add: emit_event_def)

lemma note_run:
  "\<exists>w'. note_typed s typed w = (Inr (), w') \<and> xw_launches w' = xw_launches w"
  "\<exists>w'. note_session s w = (Inr (), w') \<and> xw_launches w' = xw_launches w
      \<and> xw_sessions w' = xw_sessions w @ [s]"
  by (auto simp: note_typed_def note_session_def split: option.splits)

lemma launch_in_session_result:
  assumes ok: "launches_ok (xw_launches w)" and x: "registry (xw_launches w) l = Some x" "al_status x = SPAWNING"
  shows "\<exists>r w'. launch_in_session cfg inp run_id task_id (Some l) description session model w = (r, w') \<and>
    (if (case ti_backend inp of None \<Rightarrow> False
         | Some b \<Rightarrow> (case launch_agent (xc_safety_mode cfg) (ti_launch inp) session 0 b
                (''Execute task: '' @ description) (Some model) of Inr (launched, typed) \<Rightarrow> launched | Inl e \<Rightarrow> False))
     then r = Inr [] \<and> launches_ok (xw_launches w') \<and> (\<exists>u. up_tmux_session u = Some session \<and> up_clear_lease u \<and>
            registry (xw_launches w') = (registry (xw_launches w))(l \<mapsto> set_clause (ti_now inp) ACTIVE ACTIVE u x))
     else r \<noteq> Inr [] \<and> xw_launches w' = xw_launches w)"
proof (cases "ti_backend inp")
  case None
  then show ?thesis by (simp add: launch_in_session_def py_simps)
next
  case (Some b)
  show ?thesis
  proof (cases "launch_agent (xc_safety_mode cfg) (ti_launch inp) session 0 b
                (''Execute task: '' @ description) (Some model)")
    case (Inl e)
    with Some show ?thesis by (simp add: launch_in_session_def py_simps)
  next
    case (Inr lt)
    obtain launched typed where lt: "lt = (launched, typed)" by (cases lt)
    obtain w1 where w1: "note_typed session typed w = (Inr (), w1)" "xw_launches w1 = xw_launches w"
      using note_run by blast
    show ?thesis
    proof (cases launched)
      case False
      with Some Inr lt w1 show ?thesis by (simp add: launch_in_session_def py_simps)
    next
      case True
      from exec_slots.active [of w1 l x "ti_now inp" "''tmux''" "''tmux-session''" session None "Some session" None None]
        ok x w1(2) obtain w2 u where w2:
        "on_slots (confirm_active (ti_now inp) l ''tmux'' ''tmux-session'' session None (Some session) None None) w1
           = (Inr True, w2)" "launches_ok (xw_launches w2)" "up_tmux_session u = Some session" "up_clear_lease u"
        "registry (xw_launches w2) = (registry (xw_launches w))(l \<mapsto> set_clause (ti_now inp) ACTIVE ACTIVE u x)"
        by auto
      obtain w3 where w3: "emit_event cfg (spawned_workflow_event run_id task_id (Some l) session) w2 = (Inr (), w3)"
        "xw_launches w3 = xw_launches w2" by (metis emit_launches prod.collapse)
      from Some Inr lt True w1 w2 w3 show ?thesis
        by (auto simp: launch_in_session_def py_simps when_launched_def intro!: exI [of _ u])
    qed
  qed
qed

lemma start_session_result:
  assumes ok: "launches_ok (xw_launches w)" and x: "registry (xw_launches w) l = Some x" "al_status x = SPAWNING"
  shows "\<exists>started errors w'.
    start_session cfg inp run_id task_id (Some l) description session model w = (Inr (started, errors), w') \<and>
    (if agent_started cfg inp description session model
     then started = Some session \<and> errors = [] \<and> launches_ok (xw_launches w')
       \<and> (\<exists>u. up_tmux_session u = Some session \<and> up_clear_lease u \<and>
            registry (xw_launches w') = (registry (xw_launches w))(l \<mapsto> set_clause (ti_now inp) ACTIVE ACTIVE u x))
     else errors \<noteq> [] \<and> xw_launches w' = xw_launches w)"
proof (cases "create_session (ti_new_session inp)")
  case (Inl e)
  then show ?thesis by (simp add: start_session_def py_simps agent_started_def)
next
  case (Inr made)
  show ?thesis
  proof (cases made)
    case False
    with Inr show ?thesis by (simp add: start_session_def py_simps agent_started_def)
  next
    case True
    obtain w1 where w1: "note_session session w = (Inr (), w1)" "xw_launches w1 = xw_launches w"
      using note_run by blast
    with ok x have ok1: "launches_ok (xw_launches w1)" "registry (xw_launches w1) l = Some x" by simp_all
    obtain r w2 where run: "launch_in_session cfg inp run_id task_id (Some l) description session model w1 = (r, w2)"
      by fastforce
    from launch_in_session_result [OF ok1 x(2), of cfg inp run_id task_id description session model]
    show ?thesis
      using Inr True w1 run
      by (cases r) (auto simp: start_session_def py_simps agent_started_def py_catch_def split: if_splits)
  qed
qed

lemma tmux_session_set_clause:
  "up_tmux_session u = Some s \<Longrightarrow> al_tmux_session (set_clause now new v u x) = Some s"
  by (simp add: set_clause_def Let_def coalesce_def)

text \<open>A task whose launch was granted: the launch ends ACTIVE with the session, or FAILED.\<close>

definition task_typed :: "wf_task \<Rightarrow> string \<Rightarrow> string \<Rightarrow> string \<Rightarrow> bool" where
  "task_typed t i slug description \<longleftrightarrow>
     wt_id t = JString i \<and> wt_slug t = JString slug \<and> wt_description t = JString description"

lemma run_task_result:
  assumes ok: "launches_ok (xw_launches w)" and x: "registry (xw_launches w) l = Some x" "al_status x = RESERVED"
    and t: "task_typed t i slug description"
  shows "\<exists>r w' y. run_task cfg inp run_id i (Some l) session model t w = (Inr r, w')
    \<and> launches_ok (xw_launches w') \<and> registry (xw_launches w') = (registry (xw_launches w))(l \<mapsto> y)
    \<and> al_id y = al_id x \<and> al_key y = al_key x
    \<and> (if agent_started cfg inp description session model
       then al_status y = ACTIVE \<and> al_tmux_session y = Some session \<and> tr_session r = Some session
       else al_status y = FAILED \<and> tr_error r \<noteq> None)
    \<and> (al_lease_expires_at y = None \<or> al_status y = FAILED)"
proof -
  from t have texts: "task_text (wt_description t) = Inr description" "task_text (wt_slug t) = Inr slug"
    by (simp_all add: task_typed_def task_text_def)
  let ?e = "\<lparr>we_type = TASK_STARTED, we_content = ''Task started: '' @ take 100 description, we_run_id = run_id,
    we_task_id = i, we_agent_id = ''pending'', we_launch_id = Some l, we_session = session, we_branch = None,
    we_target = None, we_worktree = None, we_success = None, we_error = None\<rparr>"
  obtain w1 where w1: "emit_event cfg ?e w = (Inr (), w1)" "xw_launches w1 = xw_launches w"
    by (metis emit_launches prod.collapse)
  from exec_slots.spawning [of w1 l x "ti_now inp"] ok x w1(2) obtain w2 where
    w2: "on_slots (confirm_spawning (ti_now inp) l) w1 = (Inr True, w2)" "launches_ok (xw_launches w2)"
      "registry (xw_launches w2) = (registry (xw_launches w))(l \<mapsto> set_clause (ti_now inp) SPAWNING SPAWNING no_update x)"
    by auto
  let ?x2 = "set_clause (ti_now inp) SPAWNING SPAWNING no_update x"
  have x2: "registry (xw_launches w2) l = Some ?x2" "al_status ?x2 = SPAWNING" using w2 by simp_all
  from start_session_result [OF w2(2) x2, of cfg inp run_id i description session model]
  obtain started errors w3 where
    w3: "start_session cfg inp run_id i (Some l) description session model w2 = (Inr (started, errors), w3)"
    and out: "if agent_started cfg inp description session model
     then started = Some session \<and> errors = [] \<and> launches_ok (xw_launches w3)
       \<and> (\<exists>u. up_tmux_session u = Some session \<and> up_clear_lease u \<and>
            registry (xw_launches w3) = (registry (xw_launches w2))(l \<mapsto> set_clause (ti_now inp) ACTIVE ACTIVE u ?x2))
     else errors \<noteq> [] \<and> xw_launches w3 = xw_launches w2" by blast
  have "\<exists>w4 y. (if errors = [] then py_return ()
           else when_launched (Some l) (\<lambda>l. mark_failed (ti_now inp) l (join ''; '' errors))) w3 = (Inr (), w4)
      \<and> launches_ok (xw_launches w4) \<and> registry (xw_launches w4) = (registry (xw_launches w2))(l \<mapsto> y)
      \<and> al_id y = al_id x \<and> al_key y = al_key x
      \<and> (if agent_started cfg inp description session model
         then al_status y = ACTIVE \<and> al_tmux_session y = Some session else al_status y = FAILED)
      \<and> (al_lease_expires_at y = None \<or> al_status y = FAILED)"
  proof (cases "agent_started cfg inp description session model")
    case True
    with out obtain u where u: "errors = []" "launches_ok (xw_launches w3)" "up_tmux_session u = Some session"
        "up_clear_lease u"
        "registry (xw_launches w3) = (registry (xw_launches w2))(l \<mapsto> set_clause (ti_now inp) ACTIVE ACTIVE u ?x2)"
      by auto
    with True show ?thesis
      by (intro exI [of _ w3] exI [of _ "set_clause (ti_now inp) ACTIVE ACTIVE u ?x2"])
        (simp add: py_simps tmux_session_set_clause)
  next
    case False
    with out have e: "errors \<noteq> []" "xw_launches w3 = xw_launches w2" by auto
    with exec_slots.failed [of w3 l ?x2 "ti_now inp" "join ''; '' errors"] w2(2) x2 obtain w4 where
      "on_slots (mark_failed (ti_now inp) l (join ''; '' errors)) w3 = (Inr True, w4)" "launches_ok (xw_launches w4)"
      "registry (xw_launches w4) = (registry (xw_launches w2))(l \<mapsto> set_clause (ti_now inp) FAILED FAILED
         (no_update\<lparr>up_error := Some (join ''; '' errors)\<rparr>) ?x2)" by auto
    with False e show ?thesis
      by (auto simp: when_launched_def py_simps intro!: exI [of _ w4])
  qed
  then obtain w4 y where w4: "(if errors = [] then py_return ()
           else when_launched (Some l) (\<lambda>l. mark_failed (ti_now inp) l (join ''; '' errors))) w3 = (Inr (), w4)"
      "launches_ok (xw_launches w4)" "registry (xw_launches w4) = (registry (xw_launches w2))(l \<mapsto> y)"
      "al_id y = al_id x" "al_key y = al_key x"
      "if agent_started cfg inp description session model
         then al_status y = ACTIVE \<and> al_tmux_session y = Some session else al_status y = FAILED"
      "al_lease_expires_at y = None \<or> al_status y = FAILED" by blast
  obtain made errors' w5 where w5: "worktree_step cfg inp slug w4 = (Inr (made, errors'), w5)"
      "xw_launches w5 = xw_launches w4" using worktree_step_result [of cfg inp slug w4] by blast
  let ?f = "finished_event run_id i (Some l) description session started made (errors @ errors')"
  obtain w6 where w6: "emit_event cfg ?f w5 = (Inr (), w6)" "xw_launches w6 = xw_launches w5"
    by (metis emit_launches prod.collapse)
  show ?thesis
    using texts w1 w2 w3 w4 w5 w6 out
    by (auto simp: run_task_def py_simps when_launched_def fun_upd_twist split: if_splits)
qed

text \<open>The session a task is given.\<close>

definition session_for :: "task_input \<Rightarrow> string option \<Rightarrow> string \<Rightarrow> string" where
  "session_for inp session_name slug =
     (case session_name of Some s \<Rightarrow> s | None \<Rightarrow> ''fork-'' @ take 20 slug @ ''-'' @ ti_session_uid inp)"

abbreviation workflow_launch :: "int \<Rightarrow> task_input \<Rightarrow> string \<Rightarrow> agent_launch" where
  "workflow_launch d inp i \<equiv> requested_launch d (ti_clock inp) (ti_launch_uid inp) (workflow_request i)"

lemma workflow_request_fields [simp]:
  "rq_key (workflow_request i) = build_workflow_key i" "rq_parent (workflow_request i) = None"
  by (simp_all add: workflow_request_def)

lemma execute_task_slot:
  assumes "task_typed t i slug description"
  shows "execute_task cfg inp model session_name run_id t w =
     py_bind (claim_slot cfg inp i) (\<lambda>s. case s of
         Refused existing err \<Rightarrow>
           py_return \<lparr>tr_task = t, tr_session = existing, tr_worktree_path = None,
             tr_worktree_name = None, tr_error = Some err\<rparr>
       | Granted launch \<Rightarrow>
           run_task cfg inp (case run_id of None \<Rightarrow> ''run-'' @ ti_run_uid inp | Some r \<Rightarrow> r)
             i launch (session_for inp session_name slug) model t) w"
  using assms
  by (cases session_name)
    (simp_all add: execute_task_def task_typed_def task_text_def py_simps session_for_def
      cong: slot.case_cong)

lemma execute_task_granted:
  assumes ok: "launches_ok (xw_launches w)" and t: "task_typed t i slug description"
    and wired: "xc_lifecycle cfg = Some d" and v: "valid_launch (workflow_launch d inp i)"
    and fresh: "registry (xw_launches w) (ti_launch_uid inp) = None"
    and free: "key_free (build_workflow_key i) (xw_launches w)"
    and session_def: "session = session_for inp session_name slug"
  shows "\<exists>r w' y. execute_task cfg inp model session_name run_id t w = (Inr r, w')
    \<and> launches_ok (xw_launches w')
    \<and> registry (xw_launches w') = (registry (xw_launches w))(ti_launch_uid inp \<mapsto> y)
    \<and> al_key y = build_workflow_key i
    \<and> (if agent_started cfg inp description session model
       then al_status y = ACTIVE \<and> al_tmux_session y = Some session \<and> al_lease_expires_at y = None
         \<and> tr_session r = Some session
       else al_status y = FAILED \<and> tr_error r \<noteq> None)"
proof -
  let ?x = "workflow_launch d inp i"
  from exec_slots.granted [OF ok v] fresh free obtain w1 where
    w1: "on_slots (request_launch d (ti_clock inp) (ti_launch_uid inp) (workflow_request i)) w =
       (Inr \<lparr>la_launch = Some ?x, la_decision = Claimed, la_existing = None, la_reason = None\<rparr>, w1)"
      "launches_ok (xw_launches w1)"
      "registry (xw_launches w1) = (registry (xw_launches w))(ti_launch_uid inp \<mapsto> ?x)" by auto
  have slot: "claim_slot cfg inp i w = (Inr (Granted (Some (ti_launch_uid inp))), w1)"
    using w1(1) wired by (simp add: claim_slot_def py_simps slot_of_attempt_def)
  have x: "registry (xw_launches w1) (ti_launch_uid inp) = Some ?x" "al_status ?x = RESERVED"
    using w1(3) by simp_all
  from run_task_result [OF w1(2) x t, of cfg inp
      "case run_id of None \<Rightarrow> ''run-'' @ ti_run_uid inp | Some r \<Rightarrow> r" session model]
  show ?thesis
    using slot w1(3) execute_task_slot [OF t, of cfg inp model session_name run_id w]
    by (auto simp: py_simps session_def split: if_splits)
qed

lemma execute_task_refused:
  assumes ok: "launches_ok (xw_launches w)" and t: "task_typed t i slug description"
    and wired: "xc_lifecycle cfg = Some d" and v: "valid_launch (workflow_launch d inp i)"
    and x: "registry (xw_launches w) j = Some x" "al_key x = build_workflow_key i" "in_flight x"
    and live: "al_status x \<notin> {RESERVED, SPAWNING} \<or> lease_is_valid (rc_check (ti_clock inp)) x"
  shows "\<exists>r w'. execute_task cfg inp model session_name run_id t w = (Inr r, w')
    \<and> w' = w\<lparr>xw_launches := xw_launches w'\<rparr> \<and> launches_ok (xw_launches w')
    \<and> registry (xw_launches w') j = Some x \<and> tr_error r \<noteq> None \<and> tr_worktree_name r = None"
proof -
  from exec_slots.refused [OF ok v x(1) _ x(3) live] x(2) obtain a w1 where
    w1: "on_slots (request_launch d (ti_clock inp) (ti_launch_uid inp) (workflow_request i)) w = (Inr a, w1)"
      "w1 = w\<lparr>xw_launches := xw_launches w1\<rparr>" "launches_ok (xw_launches w1)" "la_decision a \<noteq> Claimed"
      "registry (xw_launches w1) j = Some x" by auto
  obtain existing err where "slot_of_attempt a = Refused existing err"
    using w1(4) by (cases "la_decision a") (auto simp: slot_of_attempt_def)
  then have "claim_slot cfg inp i w = (Inr (Refused existing err), w1)"
    using w1(1) wired by (simp add: claim_slot_def py_simps)
  then show ?thesis
    using w1 execute_task_slot [OF t, of cfg inp model session_name run_id w]
    by (intro exI [of _ "\<lparr>tr_task = t, tr_session = existing, tr_worktree_path = None,
             tr_worktree_name = None, tr_error = Some err\<rparr>"] exI [of _ w1]) (simp add: py_simps)
qed

text \<open>Both branches of \<open>execute_plan\<close> do the same.\<close>

lemma run_each_as_all:
  "run_each cfg inp model n ts c w =
     py_bind (run_all cfg inp model n ts) (\<lambda>rs. py_return (fold collect_result_data rs c)) w"
proof (induction ts arbitrary: n c w)
  case (Cons t ts)
  then show ?case by (auto simp: py_bind_def py_simps split: prod.splits sum.splits)
qed (simp add: py_simps)

lemma fold_collect:
  "cl_tasks (fold collect_result_data rs c) = cl_tasks c @ map create_updated_task rs"
  by (induction rs arbitrary: c) (simp_all add: collect_result_data_def)

text \<open>The removal of a workspace ends with the deletion of its branch.\<close>

lemma git_call_log: "gw_log (snd (git_call git args cwd w)) = gw_log w @ [args]"
  by (simp add: git_call_def split: prod.splits)

lemma run_git_log: "gw_log (snd (run_git git args cwd w)) = gw_log w @ [args]"
  using git_call_log [of git args cwd w]
  by (auto simp: run_git_def py_bind_def py_simps split: prod.splits sum.splits)

lemma remove_workspace_log:
  assumes "remove_workspace fs git hook name force w = (Inr (), w')"
  shows "\<exists>l p. gw_log w' = l @ [[''worktree'', ''remove''] @ (if force then [''--force''] else []) @ [p],
                          [''branch'', if force then ''-D'' else ''-d'', name]]"
proof -
  from assms obtain ws :: workspace and w1 where
    "py_bind (worktree_remove git (ws_path ws) force) (\<lambda>_. branch_delete git name force) w1 = (Inr (), w')"
    by (auto simp: remove_workspace_def py_bind_Inr_iff py_simps split: if_splits) blast+
  then obtain w2 where w2: "worktree_remove git (ws_path ws) force w1 = (Inr (), w2)"
      "branch_delete git name force w2 = (Inr (), w')" by (auto simp: py_bind_Inr_iff)
  have "gw_log w2 = gw_log w1 @ [[''worktree'', ''remove''] @ (if force then [''--force''] else [])
          @ [path_text (ws_path ws)]]"
    using w2(1) run_git_log [of git _ None w1] by (auto simp: worktree_remove_def py_bind_Inr_iff py_simps) (metis snd_conv)+
  moreover have "gw_log w' = gw_log w2 @ [[''branch'', if force then ''-D'' else ''-d'', name]]"
    using w2(2) run_git_log [of git _ None w2] by (auto simp: branch_delete_def py_bind_Inr_iff py_simps) (metis snd_conv)+
  ultimately show ?thesis by auto
qed

end
