(* ===== verification/Workflow_Commands.thy ===== *)
theory Workflow_Commands
  imports Workflow_Executor Task_Board
begin

text \<open>
  The workflow commands (src/interfaces/cli/commands/workflow.py): outline, execute, verify, ship and
  status, with the gates between them, and the pytest runner of verify
  (src/application/services/workflow/verify_runner.py). The world of a command is the executor's,
  the three state files, the plan text that outline writes and the log of ship events. Messages,
  hooks and memory are best effort in the code (their exceptions are swallowed): the hooks are the
  executor's list, the messages and the memory entries other than ship's are left out, as is what is
  printed. \<open>typer.Exit(1)\<close> is \<open>CliExit\<close>.
\<close>

section \<open>World\<close>

record 'r cli_world =
  cw_exec :: "'r exec_world"
  cw_plan :: state_file
  cw_execute :: state_file
  cw_verify :: state_file
  cw_plan_text :: "(string \<times> string) option"
  cw_ship_log :: "(string \<times> json \<times> string \<times> bool) list"

abbreviation on_exec :: "('r exec_world, 'a) py \<Rightarrow> ('r cli_world, 'a) py" where
  "on_exec \<equiv> run_in cw_exec (\<lambda>e w. w\<lparr>cw_exec := e\<rparr>)"

abbreviation on_plan_file :: "(state_file, 'a) py \<Rightarrow> ('r cli_world, 'a) py" where
  "on_plan_file \<equiv> run_in cw_plan (\<lambda>f w. w\<lparr>cw_plan := f\<rparr>)"

abbreviation on_execute_file :: "(state_file, 'a) py \<Rightarrow> ('r cli_world, 'a) py" where
  "on_execute_file \<equiv> run_in cw_execute (\<lambda>f w. w\<lparr>cw_execute := f\<rparr>)"

abbreviation on_verify_file :: "(state_file, 'a) py \<Rightarrow> ('r cli_world, 'a) py" where
  "on_verify_file \<equiv> run_in cw_verify (\<lambda>f w. w\<lparr>cw_verify := f\<rparr>)"

text \<open>Fresh ids, the clock's text and how the writes of one command end.\<close>

record cli_input =
  ci_uid :: string
  ci_task_uid :: string
  ci_now :: json
  ci_state_write :: write_outcome
  ci_text_write :: write_outcome

section \<open>Gates\<close>

definition slugify_task :: "string \<Rightarrow> string" where
  "slugify_task text =
     (let normalized = map (\<lambda>c. if is_alnum c then lower_char c else CHR ''-'') (py_strip text);
          collapsed = join ''-'' (filter (\<lambda>p. p \<noteq> []) (split_on (CHR ''-'') normalized));
          cut = take 50 collapsed
      in if cut = [] then ''task'' else cut)"

definition validate_phase_transition ::
  "workflow_phase option \<Rightarrow> workflow_phase list \<Rightarrow> string \<Rightarrow> unit result" where
  "validate_phase_transition current allowed target =
     (case current of
        None \<Rightarrow>
          (if target = ''outline'' then Inr ()
           else Inl (PhaseSkipError (''Cannot run '' @ quoted target @ '' without completing previous phases.'')))
      | Some ph \<Rightarrow>
          (if ph \<in> set allowed then Inr ()
           else Inl (PhaseSkipError (''Cannot skip to '' @ quoted target @ ''. Current phase is ''
                  @ quoted (workflow_phase_value ph) @ ''. Required phases: ''
                  @ join '', '' (map workflow_phase_value allowed) @ ''.''))))"

text \<open>\<open>_check_plan_exists\<close>, \<open>_check_execute_exists\<close>, \<open>_check_verify_exists\<close>.\<close>

definition must_exist :: "'a option \<Rightarrow> 'a result" where
  "must_exist x = (case x of None \<Rightarrow> Inl CliExit | Some a \<Rightarrow> Inr a)"

definition check_plan_exists :: "json \<Rightarrow> ('r cli_world, plan_state) py" where
  "check_plan_exists now = py_read (\<lambda>w. res_bind (plan_load now (cw_plan w)) must_exist)"

definition check_execute_exists :: "json \<Rightarrow> ('r cli_world, execute_state) py" where
  "check_execute_exists now = py_read (\<lambda>w. res_bind (execute_load now (cw_execute w)) must_exist)"

definition check_verify_exists :: "json \<Rightarrow> ('r cli_world, verify_state) py" where
  "check_verify_exists now = py_read (\<lambda>w. res_bind (verify_load now (cw_verify w)) must_exist)"

section \<open>outline\<close>

definition outlined_plan :: "cli_input \<Rightarrow> string \<Rightarrow> string \<Rightarrow> plan_state" where
  "outlined_plan inp description plan_file =
     \<lparr>ps_session_id = JString (''plan-'' @ ci_uid inp), ps_status = JString ''outlined'', ps_phase = OUTLINED,
      ps_started_at = ci_now inp, ps_plan_file = JString plan_file,
      ps_tasks = [new_task (JString (''task-'' @ ci_task_uid inp)) (JString (slugify_task description))
                    (JString description)],
      ps_decisions = [], ps_goal = None, ps_requirements = [], ps_schema = JNumber 4,
      ps_migrated_from = None, ps_frozen_id = JNull, ps_frozen_hash = JNull\<rparr>"

definition plan_content :: "string \<Rightarrow> string \<Rightarrow> string" where
  "plan_content description session =
     ''# Plan: '' @ description @ [CHR 0x0A, CHR 0x0A] @ ''## Session: '' @ session @ [CHR 0x0A, CHR 0x0A]
       @ ''### Tasks'' @ [CHR 0x0A] @ ''- [ ] '' @ description @ [CHR 0x0A, CHR 0x0A] @ ''---'' @ [CHR 0x0A]
       @ ''Generated by fork_agent workflow'' @ [CHR 0x0A]"

definition write_plan_text :: "write_outcome \<Rightarrow> string \<Rightarrow> string \<Rightarrow> ('r cli_world, unit) py" where
  "write_plan_text out file content w =
     (case out of
        Written \<Rightarrow> (Inr (), w\<lparr>cw_plan_text := Some (file, content)\<rparr>)
      | WriteFailed m \<Rightarrow> (Inl (OSError m), w))"

definition outline :: "cli_input \<Rightarrow> string \<Rightarrow> string \<Rightarrow> ('r cli_world, unit) py" where
  "outline inp description plan_file =
     (let session = ''plan-'' @ ci_uid inp
      in py_bind (on_exec (dispatch (OutlineStart session description))) (\<lambda>_.
         py_bind (on_plan_file (plan_save (ci_state_write inp) (outlined_plan inp description plan_file))) (\<lambda>_.
         py_bind (write_plan_text (ci_text_write inp) plan_file (plan_content description session)) (\<lambda>_.
           on_exec (dispatch (OutlineComplete session plan_file))))))"

section \<open>execute\<close>

text \<open>The texts a task is hashed by; a field that is no text raises, as in the executor.\<close>

definition hashed_fields :: "wf_task \<Rightarrow> (string \<times> string \<times> string) result" where
  "hashed_fields t =
     res_bind (task_text (wt_id t)) (\<lambda>i.
     res_bind (task_text (wt_slug t)) (\<lambda>slug.
     res_bind (task_text (wt_description t)) (\<lambda>description. Inr (i, slug, description))))"

definition specific_task :: "string option \<Rightarrow> string option" where
  "specific_task task_id = (case task_id of Some (c # cs) \<Rightarrow> Some (c # cs) | _ \<Rightarrow> None)"

definition execute_target :: "hasher \<Rightarrow> plan_state \<Rightarrow> string option \<Rightarrow> (string \<times> string) result" where
  "execute_target H plan task_id =
     (case specific_task task_id of
        Some i \<Rightarrow>
          (case find (\<lambda>t. wt_id t = JString i) (ps_tasks plan) of
             None \<Rightarrow> Inl CliExit
           | Some t \<Rightarrow> res_bind (hashed_fields t) (\<lambda>(j, slug, description).
               Inr (i, compute_plan_task_hash H j slug description)))
      | None \<Rightarrow>
          res_bind (task_text (ps_session_id plan)) (\<lambda>session.
          res_bind (traverse hashed_fields (ps_tasks plan)) (\<lambda>fields.
            Inr (session, compute_plan_hash_from_tasks H fields))))"

definition workflow_gate :: "hasher \<Rightarrow> fpel_port option \<Rightarrow> plan_state \<Rightarrow> string option \<Rightarrow> unit result" where
  "workflow_gate H port plan task_id =
     (case port of
        None \<Rightarrow> Inr ()
      | Some check \<Rightarrow>
          res_bind (execute_target H plan task_id) (\<lambda>(target, hash).
          res_bind (check target (Some hash)) (\<lambda>decision.
            if ad_allowed decision then Inr () else Inl CliExit)))"

definition execute_command ::
  "'r exec_config \<Rightarrow> hasher \<Rightarrow> fpel_port option \<Rightarrow> cli_input \<Rightarrow> (nat \<Rightarrow> task_input) \<Rightarrow> string option
     \<Rightarrow> bool \<Rightarrow> string \<Rightarrow> ('r cli_world, execution_result) py" where
  "execute_command cfg H port inp tasks task_id parallel model =
     py_bind (check_plan_exists (ci_now inp)) (\<lambda>plan.
     py_bind (py_lift (validate_phase_transition (Some (ps_phase plan)) [OUTLINED, EXECUTED] ''execute'')) (\<lambda>_.
     py_bind (py_read (\<lambda>w. execute_load (ci_now inp) (cw_execute w))) (\<lambda>_.
     py_bind (py_lift (workflow_gate H port plan task_id)) (\<lambda>_.
     py_bind (on_exec (execute_plan cfg tasks (ci_uid inp) (ci_now inp) plan parallel model task_id)) (\<lambda>result.
     py_bind (on_execute_file (execute_save (ci_state_write inp) (er_state result))) (\<lambda>_.
       py_return result))))))"

section \<open>verify\<close>

text \<open>How the pytest process of \<open>VerifyRunner.run\<close> ended.\<close>

datatype pytest_run = PytestTimeout | PytestMissing | PytestEnded int string string

text \<open>\<open>parts[i - 1]\<close> of the words that are \<open>passed\<close> or \<open>failed\<close>.\<close>

fun counts_in_words :: "string \<Rightarrow> string \<Rightarrow> string list \<Rightarrow> int" where
  "counts_in_words label before [] = 0"
| "counts_in_words label before (p # ps) =
     (if rstrip_char (CHR '','') p = label
      then (case py_int (rstrip_char (CHR '','') before) of Inr n \<Rightarrow> n | Inl e \<Rightarrow> 0)
      else 0) + counts_in_words label p ps"

definition count_label :: "string \<Rightarrow> string \<Rightarrow> int" where
  "count_label label out =
     sum_list (map (\<lambda>line.
        if contains_text '' passed'' line \<or> contains_text '' failed'' line
        then (case py_split line of [] \<Rightarrow> 0 | w # ws \<Rightarrow> counts_in_words label w ws)
        else 0) (split_on (CHR 0x0A) out))"

definition last_chars :: "nat \<Rightarrow> string \<Rightarrow> string" where
  "last_chars n s = drop (length s - n) s"

definition runner_results :: "int \<Rightarrow> int \<Rightarrow> pytest_run \<Rightarrow> json" where
  "runner_results timeout duration r =
     (let broken = (\<lambda>err. JObject
            [(''passed'', JBool False), (''exit_code'', JNumber (- 1)), (''test_count'', JNumber 0),
             (''fail_count'', JNumber 0), (''duration_ms'', JNumber duration), (''error'', JString err)])
      in case r of
           PytestTimeout \<Rightarrow> broken (''Tests timed out after '' @ show_int timeout @ '' seconds'')
         | PytestMissing \<Rightarrow> broken ''pytest not found - ensure pytest is installed''
         | PytestEnded code out err \<Rightarrow>
             JObject ([(''passed'', JBool (code = 0)), (''exit_code'', JNumber code),
                (''test_count'', JNumber (count_label ''passed'' out + count_label ''passed'' err)),
                (''fail_count'', JNumber (count_label ''failed'' out + count_label ''failed'' err)),
                (''duration_ms'', JNumber duration)]
              @ (if code \<noteq> 0 \<and> err \<noteq> [] then [(''error'', JString (last_chars 500 err))] else [])))"

text \<open>
  The runner as \<open>verify\<close> sees it: results, or the exception that a missing project root or state
  directory raises.
\<close>

definition verify_results :: "bool \<Rightarrow> json result \<Rightarrow> json" where
  "verify_results run_tests outcome =
     (if \<not> run_tests then JObject []
      else (case outcome of
          Inr d \<Rightarrow> d
        | Inl e \<Rightarrow> JObject [(''passed'', JBool False), (''error'', JString (exc_message e))]))"

definition verified_state :: "string \<Rightarrow> string \<Rightarrow> json \<Rightarrow> json \<Rightarrow> verify_state" where
  "verified_state session status now results =
     \<lparr>vs_session_id = JString session, vs_status = JString status, vs_phase = VERIFIED, vs_started_at = now,
      vs_unlock_ship = JBool True, vs_file_hashes = JObject [], vs_evidence = JArray [],
      vs_test_results = results, vs_schema = JNumber 4, vs_migrated_from = None\<rparr>"

definition verify_command :: "cli_input \<Rightarrow> bool \<Rightarrow> json result \<Rightarrow> ('r cli_world, verify_state) py" where
  "verify_command inp run_tests outcome =
     py_bind (check_plan_exists (ci_now inp)) (\<lambda>plan.
     py_bind (check_execute_exists (ci_now inp)) (\<lambda>ex.
     py_bind (py_lift (validate_phase_transition (Some (es_phase ex)) [EXECUTED, VERIFIED] ''verify'')) (\<lambda>_.
     py_bind (on_exec (dispatch (VerifyStart (ps_session_id plan) run_tests))) (\<lambda>_.
       let v = verified_state (''verify-'' @ ci_uid inp) ''verified'' (ci_now inp) (verify_results run_tests outcome)
       in py_bind (on_verify_file (verify_save (ci_state_write inp) v)) (\<lambda>_.
          py_bind (on_exec (dispatch (VerifyComplete (''verify-'' @ ci_uid inp)))) (\<lambda>_.
            py_return v))))))"

section \<open>ship\<close>

text \<open>\<open>_git_output\<close>: the stripped output, \<open>None\<close> on failure or timeout.\<close>

abbreviation on_repo :: "('r git_world, 'a) py \<Rightarrow> ('r cli_world, 'a) py" where
  "on_repo m \<equiv> on_exec (on_git m)"

definition git_output :: "'r git \<Rightarrow> string list \<Rightarrow> ('r git_world, string option) py" where
  "git_output git args =
     py_bind (git_call git args None) (\<lambda>r.
       py_return (if gr_timed_out r \<or> gr_code r \<noteq> 0 then None else Some (py_strip (gr_stdout r))))"

definition get_current_branch :: "'r git \<Rightarrow> ('r git_world, string option) py" where
  "get_current_branch git = git_output git [''rev-parse'', ''--abbrev-ref'', ''HEAD'']"

definition dirty_entry :: "string \<Rightarrow> string" where
  "dirty_entry line =
     (let candidate = (if 4 \<le> length line then py_strip (drop 3 line) else py_strip line)
      in if contains_text '' -> '' candidate then after_text '' -> '' candidate else candidate)"

definition dirty_files_of :: "string option \<Rightarrow> string list" where
  "dirty_files_of output =
     (case output of
        None \<Rightarrow> []
      | Some out \<Rightarrow> filter (\<lambda>f. f \<noteq> []) (map dirty_entry (py_splitlines out)))"

definition get_dirty_files :: "'r git \<Rightarrow> ('r git_world, string list) py" where
  "get_dirty_files git =
     py_bind (git_output git [''status'', ''--porcelain'']) (\<lambda>out. py_return (dirty_files_of out))"

definition is_branch_checked_out :: "'r git \<Rightarrow> string \<Rightarrow> ('r git_world, bool) py" where
  "is_branch_checked_out git target =
     py_bind (git_output git [''worktree'', ''list'', ''--porcelain'']) (\<lambda>out.
       py_return (case out of
           None \<Rightarrow> False
         | Some text \<Rightarrow> list_ex (\<lambda>line. starts_with ''branch '' line
              \<and> after_first (CHR '' '') line = ''refs/heads/'' @ target) (py_splitlines text)))"

text \<open>\<open>_enforce_ship_checkout_preflight\<close>: the reason of the refusal, or \<open>None\<close>.\<close>

definition ship_preflight :: "'r git \<Rightarrow> string \<Rightarrow> bool \<Rightarrow> ('r git_world, string option) py" where
  "ship_preflight git target use_worktree =
     py_bind (get_current_branch git) (\<lambda>current.
       if current = None \<or> current = Some target then py_return None
       else py_bind (get_dirty_files git) (\<lambda>dirty.
         if dirty \<noteq> [] \<and> \<not> use_worktree then py_return (Some ''dirty_worktree_cross_branch'')
         else if \<not> use_worktree then py_return None
         else py_bind (is_branch_checked_out git target) (\<lambda>taken.
           py_return (if taken then Some ''target_branch_checked_out'' else None))))"

text \<open>\<open>subprocess.run\<close> with a timeout, outside the executor.\<close>

definition timed_git :: "'r git \<Rightarrow> string list \<Rightarrow> ('r git_world, git_run) py" where
  "timed_git git args =
     py_bind (git_call git args None) (\<lambda>r.
       if gr_timed_out r then py_raise (RuntimeError ''TimeoutExpired'') else py_return r)"

definition py_finally :: "('s, 'a) py \<Rightarrow> ('s, unit) py \<Rightarrow> ('s, 'a) py" where
  "py_finally m f s =
     (let (r, s1) = m s in case f s1 of (Inl e, s2) \<Rightarrow> (Inl e, s2) | (Inr u, s2) \<Rightarrow> (r, s2))"

definition failed_with :: "git_run \<Rightarrow> string \<Rightarrow> exc" where
  "failed_with r msg =
     RuntimeError (if py_strip (gr_stderr r) = [] then msg else py_strip (gr_stderr r))"

definition merge_via_temp_worktree ::
  "'r git \<Rightarrow> string \<Rightarrow> string \<Rightarrow> string \<Rightarrow> ('r git_world, unit) py" where
  "merge_via_temp_worktree git temp branch target =
     py_bind (git_output git [''rev-parse'', ''--show-toplevel'']) (\<lambda>root. case root of
         None \<Rightarrow> py_raise (RuntimeError ''Unable to detect git repository root'')
       | Some repo \<Rightarrow>
           py_finally
             (py_bind (timed_git git [''-C'', repo, ''worktree'', ''add'', temp, target]) (\<lambda>r.
                if gr_code r \<noteq> 0 then py_raise (failed_with r ''git worktree add failed'')
                else py_bind (timed_git git [''-C'', temp, ''merge'', branch, ''--no-edit'']) (\<lambda>m.
                  if gr_code m \<noteq> 0
                  then py_bind (timed_git git [''-C'', temp, ''merge'', ''--abort'']) (\<lambda>_.
                         py_raise (failed_with m ''git merge failed''))
                  else py_return ())))
             (py_bind (timed_git git [''-C'', repo, ''worktree'', ''remove'', temp, ''--force'']) (\<lambda>_.
                py_return ())))"

record ship_options =
  so_target :: string
  so_target_flag :: bool
  so_inplace :: bool
  so_cleanup :: bool
  so_use_worktree :: bool
  so_force :: bool
  so_reason :: string
  so_uid :: string
  so_now :: json
  so_temp :: "nat \<Rightarrow> string"
  so_hook :: hook_run
  so_manager_ok :: bool

text \<open>The exit gate on the test results: \<open>exit_code != 0\<close> with Python's equality.\<close>

definition json_zero :: "json \<Rightarrow> bool" where
  "json_zero d \<longleftrightarrow> d = JNumber 0 \<or> d = JBool False"

definition exit_gate :: "json \<Rightarrow> unit result" where
  "exit_gate results =
     (if \<not> json_truthy results then Inr ()
      else res_bind (json_get results ''passed'' (JBool False)) (\<lambda>passed.
           res_bind (json_get results ''exit_code'' (JNumber (- 1))) (\<lambda>code.
             if \<not> json_truthy passed \<and> \<not> json_zero code then Inl CliExit else Inr ())))"

definition ship_verify_state :: "ship_options \<Rightarrow> ('r cli_world, verify_state) py" where
  "ship_verify_state o1 =
     (if so_force o1
      then (if py_strip (so_reason o1) = [] then py_raise CliExit
            else py_return (verified_state (''forced-'' @ so_uid o1) ''pending'' (so_now o1) (JObject [])))
      else py_bind (check_verify_exists (so_now o1)) (\<lambda>v.
           py_bind (py_lift (exit_gate (vs_test_results v))) (\<lambda>_. py_return v)))"

definition record_ship_event :: "string \<Rightarrow> verify_state \<Rightarrow> string \<Rightarrow> bool \<Rightarrow> ('r cli_world, unit) py" where
  "record_ship_event name v target forced w =
     (Inr (), w\<lparr>cw_ship_log := cw_ship_log w @ [(name, vs_session_id v, target, forced)]\<rparr>)"

text \<open>The merge of one task's branch: the branch that is checked out is asked again each time.\<close>

definition ship_merge ::
  "'r exec_config \<Rightarrow> ship_options \<Rightarrow> string \<Rightarrow> string \<Rightarrow> string \<Rightarrow> ('r cli_world, unit) py" where
  "ship_merge cfg o1 temp target name =
     py_bind (on_repo (get_current_branch (xc_git cfg))) (\<lambda>branch.
     py_bind (if so_use_worktree o1 \<and> reason_or ''unknown'' branch \<noteq> target
              then on_repo (merge_via_temp_worktree (xc_git cfg) temp name target)
              else on_repo (merge_workspace (xc_fs cfg) (xc_git cfg) name target False)) (\<lambda>_.
       on_exec (dispatch (WorktreeMerged name target))))"

text \<open>\<open>except Exception: runtime_errors.append(note)\<close>.\<close>

definition noting :: "string \<Rightarrow> ('s, unit) py \<Rightarrow> ('s, string list) py" where
  "noting note m =
     py_catch (\<lambda>e. True) (py_bind m (\<lambda>_. py_return [])) (\<lambda>e. py_return [note])"

definition ship_task ::
  "'r exec_config \<Rightarrow> ship_options \<Rightarrow> string \<Rightarrow> nat \<Rightarrow> wf_task \<Rightarrow> ('r cli_world, string list) py" where
  "ship_task cfg o1 target n t =
     (if \<not> json_truthy (wt_worktree_path t) then py_return []
      else (case worktree_name_of t of
          Inl e \<Rightarrow> py_return [''cleanup:'' @ (case wt_id t of JString s \<Rightarrow> s | _ \<Rightarrow> [])]
        | Inr name \<Rightarrow>
            py_bind (noting (''merge:'' @ name) (ship_merge cfg o1 (so_temp o1 n) target name)) (\<lambda>errors.
            py_bind (noting (''remove:'' @ name) (on_exec (remove_step cfg (so_hook o1) name))) (\<lambda>errors'.
              py_return (errors @ errors')))))"

fun ship_tasks ::
  "'r exec_config \<Rightarrow> ship_options \<Rightarrow> string \<Rightarrow> nat \<Rightarrow> wf_task list \<Rightarrow> ('r cli_world, string list) py" where
  "ship_tasks cfg o1 target n [] = py_return []"
| "ship_tasks cfg o1 target n (t # ts) =
     py_bind (ship_task cfg o1 target n t) (\<lambda>errors.
     py_bind (ship_tasks cfg o1 target (Suc n) ts) (\<lambda>errors'. py_return (errors @ errors')))"

text \<open>From the checks on: what \<open>ship\<close> does once the gates are passed.\<close>

definition ship_run :: "'r exec_config \<Rightarrow> ship_options \<Rightarrow> string \<Rightarrow> verify_state \<Rightarrow> ('r cli_world, unit) py" where
  "ship_run cfg o1 target v =
     py_bind (on_repo (get_current_branch (xc_git cfg))) (\<lambda>_.
     py_bind (on_repo (get_dirty_files (xc_git cfg))) (\<lambda>_.
     py_bind (if so_force o1 then record_ship_event ''forced'' v target True else py_return ()) (\<lambda>_.
     py_bind (record_ship_event ''started'' v target (so_force o1)) (\<lambda>_.
     py_bind (on_exec (dispatch (ShipStart (vs_session_id v) target))) (\<lambda>_.
     py_bind (py_read (\<lambda>w. execute_load (so_now o1) (cw_execute w))) (\<lambda>ex.
     py_bind (case ex of
         None \<Rightarrow> py_return []
       | Some state \<Rightarrow>
           if \<not> so_cleanup o1 then py_return []
           else if \<not> so_manager_ok o1 then py_return [''cleanup:init'']
           else ship_tasks cfg o1 target 0 (es_tasks state)) (\<lambda>errors.
       if errors \<noteq> []
       then py_bind (record_ship_event ''failed_runtime'' v target (so_force o1)) (\<lambda>_. py_raise CliExit)
       else py_bind (on_exec (dispatch (ShipComplete (vs_session_id v) target))) (\<lambda>_.
              record_ship_event ''completed'' v target (so_force o1)))))))))"

definition ship_target :: "'r git \<Rightarrow> ship_options \<Rightarrow> ('r cli_world, string) py" where
  "ship_target git o1 =
     (if so_inplace o1 \<and> so_target_flag o1 then py_raise CliExit
      else if so_inplace o1
      then py_bind (on_repo (get_current_branch git)) (\<lambda>current. py_lift (must_exist current))
      else py_return (so_target o1))"

definition ship :: "'r exec_config \<Rightarrow> ship_options \<Rightarrow> ('r cli_world, unit) py" where
  "ship cfg o1 =
     py_bind (ship_target (xc_git cfg) o1) (\<lambda>target.
     py_bind (ship_verify_state o1) (\<lambda>v.
     py_bind (py_lift (validate_phase_transition (Some (vs_phase v)) [VERIFIED, SHIPPED] ''ship'')) (\<lambda>_.
       if \<not> json_truthy (vs_unlock_ship v) then py_raise CliExit
       else py_bind (on_repo (ship_preflight (xc_git cfg) target (so_use_worktree o1))) (\<lambda>refusal.
         case refusal of
           Some reason \<Rightarrow> py_bind (record_ship_event ''preflight_failed'' v target (so_force o1)) (\<lambda>_.
                            py_raise CliExit)
         | None \<Rightarrow> ship_run cfg o1 target v))))"

section \<open>status\<close>

record status_report =
  st_plan :: "(workflow_phase \<times> json) option"
  st_execute :: "(workflow_phase \<times> json) option"
  st_verify :: "(workflow_phase \<times> json \<times> json) option"

definition workflow_status :: "json \<Rightarrow> ('r cli_world, status_report) py" where
  "workflow_status now =
     py_read (\<lambda>w.
       res_bind (plan_load now (cw_plan w)) (\<lambda>p.
       res_bind (execute_load now (cw_execute w)) (\<lambda>e.
       res_bind (verify_load now (cw_verify w)) (\<lambda>v.
         Inr \<lparr>st_plan = map_option (\<lambda>s. (ps_phase s, ps_session_id s)) p,
              st_execute = map_option (\<lambda>s. (es_phase s, es_session_id s)) e,
              st_verify = map_option (\<lambda>s. (vs_phase s, vs_session_id s, vs_unlock_ship s)) v\<rparr>))))"

end
