(* ===== verification/Circuit_Breaker.thy ===== *)
theory Circuit_Breaker
  imports Prelude
begin

text \<open>
  The circuit breaker of the tmux layer (src/infrastructure/tmux_orchestrator/circuit_breaker.py and
  resilience_policy.py). Every operation holds the lock while it works, so an operation is one step;
  the clock is an argument, in an arbitrary integer unit.
\<close>

section \<open>Policies\<close>

record resilience_policy =
  failure_threshold :: int
  recovery_timeout :: int
  half_open_max_calls :: int

definition default_policy :: resilience_policy where
  "default_policy = \<lparr>failure_threshold = 3, recovery_timeout = 30, half_open_max_calls = 2\<rparr>"

definition create_policy :: "int option \<Rightarrow> int option \<Rightarrow> int option \<Rightarrow> resilience_policy" where
  "create_policy threshold timeout calls =
     \<lparr>failure_threshold = (case threshold of Some x \<Rightarrow> x | None \<Rightarrow> failure_threshold default_policy),
      recovery_timeout = (case timeout of Some x \<Rightarrow> x | None \<Rightarrow> recovery_timeout default_policy),
      half_open_max_calls = (case calls of Some x \<Rightarrow> x | None \<Rightarrow> half_open_max_calls default_policy)\<rparr>"

text \<open>The constructor: a policy wins over single values, and these over the default.\<close>

definition choose_policy ::
  "resilience_policy option \<Rightarrow> int option \<Rightarrow> int option \<Rightarrow> int option \<Rightarrow> resilience_policy" where
  "choose_policy p threshold timeout calls =
     (case p of
        Some q \<Rightarrow> q
      | None \<Rightarrow>
          (if threshold \<noteq> None \<or> timeout \<noteq> None \<or> calls \<noteq> None
           then create_policy threshold timeout calls else default_policy))"

section \<open>The breaker\<close>

datatype circuit_state = CLOSED | OPEN | HALF_OPEN

record breaker =
  cb_policy :: resilience_policy
  cb_state :: circuit_state
  cb_failures :: int
  cb_last_failure :: int
  cb_half_open_calls :: int

definition new_breaker :: "resilience_policy \<Rightarrow> breaker" where
  "new_breaker p = \<lparr>cb_policy = p, cb_state = CLOSED, cb_failures = 0, cb_last_failure = 0,
                    cb_half_open_calls = 0\<rparr>"

text \<open>Reading the state moves an OPEN breaker whose recovery time is over to HALF_OPEN.\<close>

definition breaker_state :: "int \<Rightarrow> breaker \<Rightarrow> circuit_state \<times> breaker" where
  "breaker_state now b =
     (let b' = (if cb_state b = OPEN \<and> now - cb_last_failure b \<ge> recovery_timeout (cb_policy b)
                then b\<lparr>cb_state := HALF_OPEN, cb_half_open_calls := 0\<rparr> else b)
      in (cb_state b', b'))"

definition record_success :: "breaker \<Rightarrow> breaker" where
  "record_success b = b\<lparr>cb_failures := 0, cb_state := CLOSED\<rparr>"

definition record_failure :: "int \<Rightarrow> breaker \<Rightarrow> breaker" where
  "record_failure now b =
     (let b' = b\<lparr>cb_failures := cb_failures b + 1, cb_last_failure := now\<rparr>
      in if cb_failures b' \<ge> failure_threshold (cb_policy b') then b'\<lparr>cb_state := OPEN\<rparr> else b')"

definition can_execute :: "int \<Rightarrow> breaker \<Rightarrow> bool \<times> breaker" where
  "can_execute now b =
     (let (st, b') = breaker_state now b
      in case st of
           CLOSED \<Rightarrow> (True, b')
         | OPEN \<Rightarrow> (False, b')
         | HALF_OPEN \<Rightarrow>
             (if cb_half_open_calls b' < half_open_max_calls (cb_policy b')
              then (True, b'\<lparr>cb_half_open_calls := cb_half_open_calls b' + 1\<rparr>)
              else (False, b')))"

definition breaker_reset :: "breaker \<Rightarrow> breaker" where
  "breaker_reset b = b\<lparr>cb_failures := 0, cb_state := CLOSED\<rparr>"

section \<open>Runs\<close>

datatype breaker_event = Ask int | Observe int | Success | Failure int | Reset

fun breaker_step :: "breaker_event \<Rightarrow> breaker \<Rightarrow> breaker" where
  "breaker_step (Ask now) b = snd (can_execute now b)"
| "breaker_step (Observe now) b = snd (breaker_state now b)"
| "breaker_step Success b = record_success b"
| "breaker_step (Failure now) b = record_failure now b"
| "breaker_step Reset b = breaker_reset b"

fun breaker_run :: "breaker_event list \<Rightarrow> breaker \<Rightarrow> breaker" where
  "breaker_run [] b = b"
| "breaker_run (e # es) b = breaker_run es (breaker_step e b)"

text \<open>The answers to the questions of a run.\<close>

fun breaker_grants :: "breaker_event list \<Rightarrow> breaker \<Rightarrow> nat" where
  "breaker_grants [] b = 0"
| "breaker_grants (e # es) b =
     (case e of Ask now \<Rightarrow> if fst (can_execute now b) then 1 else 0 | _ \<Rightarrow> 0)
     + breaker_grants es (breaker_step e b)"

lemmas breaker_defs = breaker_state_def can_execute_def record_success_def record_failure_def
  breaker_reset_def

definition is_outcome :: "breaker_event \<Rightarrow> bool" where
  "is_outcome e \<longleftrightarrow> (case e of Ask n \<Rightarrow> False | Observe n \<Rightarrow> False | _ \<Rightarrow> True)"

definition event_time :: "breaker_event \<Rightarrow> int option" where
  "event_time e = (case e of Ask n \<Rightarrow> Some n | Observe n \<Rightarrow> Some n | Failure n \<Rightarrow> Some n | _ \<Rightarrow> None)"

lemma breaker_step_policy [simp]: "cb_policy (breaker_step e b) = cb_policy b"
  by (cases e; cases "cb_state b") (auto simp: breaker_defs Let_def split: prod.splits circuit_state.splits)

text \<open>An open breaker grants nothing and stays open until its time or an outcome.\<close>

lemma open_step:
  assumes "cb_state b = OPEN" "\<not> is_outcome e"
    and "\<forall>n. event_time e = Some n \<longrightarrow> n - cb_last_failure b < recovery_timeout (cb_policy b)"
  shows "breaker_step e b = b"
  using assms by (cases e) (auto simp: is_outcome_def event_time_def breaker_defs)

lemma open_run:
  assumes "cb_state b = OPEN" "list_all (\<lambda>e. \<not> is_outcome e) es"
    and "list_all (\<lambda>e. \<forall>n. event_time e = Some n \<longrightarrow> n - cb_last_failure b < recovery_timeout (cb_policy b)) es"
  shows "breaker_grants es b = 0 \<and> breaker_run es b = b"
  using assms
proof (induction es)
  case (Cons e es)
  then have "breaker_step e b = b" by (intro open_step) simp_all
  moreover have "case e of Ask now \<Rightarrow> \<not> fst (can_execute now b) | _ \<Rightarrow> True"
    using Cons.prems by (auto simp: breaker_defs event_time_def split: breaker_event.splits)
  ultimately show ?case using Cons by (auto split: breaker_event.splits)
qed simp

text \<open>A half-open breaker grants what is left of its calls, and nothing more without an outcome.\<close>

lemma half_open_run:
  assumes "cb_state b = HALF_OPEN" "list_all (\<lambda>e. \<not> is_outcome e) es"
  shows "breaker_grants es b \<le> nat (half_open_max_calls (cb_policy b) - cb_half_open_calls b)
    \<and> cb_state (breaker_run es b) = HALF_OPEN
    \<and> cb_half_open_calls (breaker_run es b) = cb_half_open_calls b + int (breaker_grants es b)"
  using assms
proof (induction es arbitrary: b)
  case (Cons e es)
  from Cons.prems have no: "\<not> is_outcome e" "list_all (\<lambda>e. \<not> is_outcome e) es" by simp_all
  have st: "cb_state (breaker_step e b) = HALF_OPEN"
    using Cons.prems(1) no(1) by (cases e) (auto simp: is_outcome_def breaker_defs)
  show ?case
    using Cons.IH [OF st no(2)] Cons.prems(1) no(1)
    by (cases e) (auto simp: is_outcome_def breaker_defs)
qed simp

lemma half_open_steps:
  assumes "cb_state b = OPEN" "\<not> is_outcome e"
  shows "(breaker_step e b = b \<and> (case e of Ask n \<Rightarrow> \<not> fst (can_execute n b) | _ \<Rightarrow> True))
    \<or> (cb_state (breaker_step e b) = HALF_OPEN
       \<and> (case e of Ask n \<Rightarrow> if fst (can_execute n b) then 1 else 0 | _ \<Rightarrow> 0)
         = cb_half_open_calls (breaker_step e b)
       \<and> cb_half_open_calls (breaker_step e b) \<le> max 0 (half_open_max_calls (cb_policy b)))"
  using assms by (cases e) (auto simp: is_outcome_def breaker_defs)

text \<open>From the moment it opens until an outcome is recorded, a breaker grants at most its half-open calls.\<close>

lemma open_grants_bound:
  assumes "cb_state b = OPEN" "list_all (\<lambda>e. \<not> is_outcome e) es"
  shows "breaker_grants es b \<le> nat (half_open_max_calls (cb_policy b))"
  using assms
proof (induction es)
  case (Cons e es)
  from Cons.prems have no: "\<not> is_outcome e" "list_all (\<lambda>e. \<not> is_outcome e) es" by simp_all
  let ?g = "case e of Ask n \<Rightarrow> if fst (can_execute n b) then 1 else (0::nat) | _ \<Rightarrow> 0"
  from half_open_steps [OF Cons.prems(1) no(1)]
  consider "breaker_step e b = b" "?g = 0"
    | "cb_state (breaker_step e b) = HALF_OPEN" "int ?g = cb_half_open_calls (breaker_step e b)"
      "cb_half_open_calls (breaker_step e b) \<le> max 0 (half_open_max_calls (cb_policy b))"
    by (cases e) (auto split: if_splits)
  then show ?case
  proof cases
    case 1
    with Cons.IH [OF Cons.prems(1) no(2)] show ?thesis by simp
  next
    case 2
    with half_open_run [OF 2(1) no(2)] show ?thesis by (simp only: breaker_grants.simps breaker_step_policy) linarith
  qed
qed simp

lemma failures_open:
  assumes "cb_failures b + 1 \<ge> failure_threshold (cb_policy b)"
  shows "cb_state (record_failure now b) = OPEN" "cb_last_failure (record_failure now b) = now"
    "cb_policy (record_failure now b) = cb_policy b"
  using assms by (simp_all add: record_failure_def)

end
