(* ===== verification/Agent_Manager.thy ===== *)
theory Agent_Manager
  imports Launch_Client Circuit_Breaker Tmux_Orchestrator
begin

text \<open>
  AgentManager and TmuxAgent (src/application/services/agent/agent_manager.py). Every operation that
  changes the manager holds its lock, so it is one step. What tmux answers to each command is an
  argument, and \<open>mw_killed\<close> records the sessions the manager tried to kill. A Python set of
  names is a list without repetitions, in no particular order.
\<close>

section \<open>Agents\<close>

datatype agent_status =
    AG_PENDING | AG_STARTING | AG_HEALTHY | AG_UNHEALTHY | AG_TERMINATING | AG_TERMINATED | AG_FAILED

record tmux_agent =
  ag_name :: string
  ag_session :: string
  ag_status :: agent_status
  ag_breaker :: breaker
  ag_error_count :: int

text \<open>\<open>config.tmux_session or f"agent-{config.name}-{int(time.time())}"\<close>.\<close>

definition new_agent :: "int \<Rightarrow> string \<Rightarrow> string option \<Rightarrow> tmux_agent" where
  "new_agent now name session =
     \<lparr>ag_name = name,
      ag_session = (case session of
          Some (c # cs) \<Rightarrow> c # cs
        | _ \<Rightarrow> ''agent-'' @ name @ ''-'' @ show_int now),
      ag_status = AG_PENDING, ag_breaker = new_breaker default_policy, ag_error_count = 0\<rparr>"

definition agent_failed :: "int \<Rightarrow> tmux_agent \<Rightarrow> tmux_agent" where
  "agent_failed now a =
     a\<lparr>ag_status := AG_FAILED, ag_breaker := record_failure now (ag_breaker a),
       ag_error_count := ag_error_count a + 1\<rparr>"

text \<open>
  \<open>_wait_for_session\<close>, from the answers to \<open>has-session\<close> that come before the deadline. A command
  that times out or is missing raises.
\<close>

fun wait_for_session :: "tmux_run list \<Rightarrow> bool result" where
  "wait_for_session [] = Inr False"
| "wait_for_session (r # rs) =
     (case r of
        NotInstalled \<Rightarrow> Inl tmux_missing
      | TimedOut \<Rightarrow> Inl (RuntimeError ''timed out'')
      | Exited code out \<Rightarrow> (if code = 0 then Inr True else wait_for_session rs))"

text \<open>What tmux answers to a spawn: \<open>new-session\<close>, then \<open>has-session\<close> until it succeeds.\<close>

record spawn_answers =
  sn_new :: tmux_run
  sn_has :: "tmux_run list"
  sn_now :: int

text \<open>\<open>spawn\<close>: the result, the agent, and the session that was killed because it was not ready.\<close>

definition agent_spawn :: "spawn_answers \<Rightarrow> bool \<Rightarrow> tmux_agent \<Rightarrow> bool \<times> tmux_agent \<times> string list" where
  "agent_spawn r validate a =
     (let a1 = a\<lparr>ag_status := AG_STARTING\<rparr>;
          failed = agent_failed (sn_now r) a1;
          healthy = a1\<lparr>ag_status := AG_HEALTHY, ag_breaker := record_success (ag_breaker a1)\<rparr>
      in case sn_new r of
           NotInstalled \<Rightarrow> (False, failed, [])
         | TimedOut \<Rightarrow> (False, failed, [])
         | Exited code out \<Rightarrow>
             (if code \<noteq> 0 then (False, failed, [])
              else if \<not> validate then (True, healthy, [])
              else (case wait_for_session (sn_has r) of
                  Inl e \<Rightarrow> (False, failed, [])
                | Inr False \<Rightarrow> (False, failed, [ag_session a])
                | Inr True \<Rightarrow> (True, healthy, []))))"

text \<open>\<open>terminate\<close> looks only at exceptions: a \<open>kill-session\<close> that fails counts as a success.\<close>

definition agent_terminate :: "tmux_run \<Rightarrow> tmux_agent \<Rightarrow> bool \<times> tmux_agent" where
  "agent_terminate r a =
     (case r of
        Exited code out \<Rightarrow> (True, a\<lparr>ag_status := AG_TERMINATED\<rparr>)
      | _ \<Rightarrow> (False, a\<lparr>ag_status := AG_FAILED\<rparr>))"

definition get_pid :: "tmux_run \<Rightarrow> int option" where
  "get_pid r =
     (case r of
        Exited code out \<Rightarrow>
          (if code = 0 \<and> py_strip out \<noteq> []
           then (case py_int (hd (split_on (CHR 0x0A) (py_strip out))) of Inr p \<Rightarrow> Some p | Inl e \<Rightarrow> None)
           else None)
      | _ \<Rightarrow> None)"

text \<open>\<open>send_input\<close>: the result and what was typed.\<close>

definition send_input :: "tmux_run \<Rightarrow> string \<Rightarrow> bool \<times> string option" where
  "send_input r message =
     (case sanitize_tmux_text message of
        Inl e \<Rightarrow> (False, None)
      | Inr sanitized \<Rightarrow> (case r of Exited code out \<Rightarrow> (code = 0, Some sanitized) | _ \<Rightarrow> (False, None)))"

section \<open>The manager\<close>

record manager_world =
  mw_agents :: "(string \<times> tmux_agent) list"
  mw_launches :: launch_table
  mw_killed :: "string list"

abbreviation on_manager_launches :: "(launch_table, 'a) py \<Rightarrow> (manager_world, 'a) py" where
  "on_manager_launches \<equiv> run_in mw_launches (\<lambda>t w. w\<lparr>mw_launches := t\<rparr>)"

definition dict_del :: "'k \<Rightarrow> ('k \<times> 'v) list \<Rightarrow> ('k \<times> 'v) list" where
  "dict_del k kvs = filter (\<lambda>(k', v). k' \<noteq> k) kvs"

fun dict_put :: "'k \<Rightarrow> 'v \<Rightarrow> ('k \<times> 'v) list \<Rightarrow> ('k \<times> 'v) list" where
  "dict_put k v [] = [(k, v)]"
| "dict_put k v ((k', v') # kvs) = (if k' = k then (k, v) # kvs else (k', v') # dict_put k v kvs)"

record agent_config =
  ac_name :: string
  ac_tmux_session :: "string option"

record manager_input =
  mi_launch_uid :: string
  mi_clock :: request_clock
  mi_now :: int
  mi_spawn :: spawn_answers

definition manager_request :: "string \<Rightarrow> launch_request" where
  "manager_request name =
     \<lparr>rq_key = build_manager_key name, rq_surface = ''manager'', rq_owner_type = ''agent'',
      rq_owner_id = name, rq_role = None, rq_parent = None, rq_model = None\<rparr>"

text \<open>A lifecycle call whose answer is only logged, made when there is a launch.\<close>

definition tell_launch :: "string option \<Rightarrow> (string \<Rightarrow> (launch_table, bool) py) \<Rightarrow> (manager_world, unit) py" where
  "tell_launch launch m =
     (case launch of
        None \<Rightarrow> py_return ()
      | Some l \<Rightarrow> py_bind (on_manager_launches (m l)) (\<lambda>_. py_return ()))"

definition note_killed :: "string list \<Rightarrow> (manager_world, unit) py" where
  "note_killed ss w = (Inr (), w\<lparr>mw_killed := mw_killed w @ ss\<rparr>)"

definition register_agent :: "string \<Rightarrow> tmux_agent \<Rightarrow> (manager_world, unit) py" where
  "register_agent name a w = (Inr (), w\<lparr>mw_agents := dict_put name a (mw_agents w)\<rparr>)"

text \<open>From \<open>TmuxAgent(config)\<close> on.\<close>

definition spawn_claimed ::
  "manager_input \<Rightarrow> agent_config \<Rightarrow> string option \<Rightarrow> (manager_world, tmux_agent option) py" where
  "spawn_claimed inp config launch =
     (let agent = new_agent (mi_now inp) (ac_name config) (ac_tmux_session config);
          (ok, a, killed) = agent_spawn (mi_spawn inp) True agent
      in py_bind (tell_launch launch (confirm_spawning (mi_now inp))) (\<lambda>_.
         py_bind (note_killed killed) (\<lambda>_.
           if ok
           then py_bind (register_agent (ac_name config) a) (\<lambda>_.
                py_bind (tell_launch launch (\<lambda>l. confirm_active (mi_now inp) l ''tmux'' ''tmux-session''
                           (ag_session a) None (Some (ag_session a)) None None)) (\<lambda>_.
                  py_return (Some a)))
           else py_bind (tell_launch launch (\<lambda>l. mark_failed (mi_now inp) l ''tmux spawn failed'')) (\<lambda>_.
                  py_return None))))"

text \<open>The first argument is the lease duration of the wired lifecycle service.\<close>

definition manager_spawn_agent ::
  "int option \<Rightarrow> manager_input \<Rightarrow> agent_config \<Rightarrow> (manager_world, tmux_agent option) py" where
  "manager_spawn_agent lease inp config =
     py_bind (py_read (\<lambda>w. Inr (map_of (mw_agents w) (ac_name config)))) (\<lambda>existing.
       if existing \<noteq> None then py_return None
       else (case lease of
           None \<Rightarrow> spawn_claimed inp config None
         | Some duration \<Rightarrow>
             py_bind (on_manager_launches (request_launch duration (mi_clock inp) (mi_launch_uid inp)
                        (manager_request (ac_name config)))) (\<lambda>a.
               case la_decision a of
                 Suppressed \<Rightarrow> py_return None
               | Error \<Rightarrow> py_return None
               | Claimed \<Rightarrow> spawn_claimed inp config (map_option al_id (la_launch a)))))"

text \<open>A lifecycle call on the launch that holds the agent's key, if one does.\<close>

definition on_active_launch :: "string \<Rightarrow> (string \<Rightarrow> (launch_table, bool) py) \<Rightarrow> (manager_world, unit) py" where
  "on_active_launch name m =
     py_bind (on_manager_launches (py_read (find_active_by_canonical_key (build_manager_key name)))) (\<lambda>active.
       tell_launch (map_option al_id active) m)"

definition store_agent :: "string \<Rightarrow> tmux_agent \<Rightarrow> (manager_world, unit) py" where
  "store_agent name a w =
     (Inr (), w\<lparr>mw_agents := map (\<lambda>(k, v). (k, if k = name then a else v)) (mw_agents w)\<rparr>)"

definition drop_agent :: "string \<Rightarrow> (manager_world, unit) py" where
  "drop_agent name w = (Inr (), w\<lparr>mw_agents := dict_del name (mw_agents w)\<rparr>)"

definition manager_terminate_agent :: "bool \<Rightarrow> int \<Rightarrow> tmux_run \<Rightarrow> string \<Rightarrow> (manager_world, bool) py" where
  "manager_terminate_agent wired now r name =
     py_bind (py_read (\<lambda>w. Inr (map_of (mw_agents w) name))) (\<lambda>found.
       case found of
         None \<Rightarrow> py_return False
       | Some a \<Rightarrow>
           py_bind (if wired then on_active_launch name (begin_termination now) else py_return ()) (\<lambda>_.
             let (success, a') = agent_terminate r a
             in py_bind (note_killed [ag_session a]) (\<lambda>_.
                py_bind (store_agent name a') (\<lambda>_.
                  if success
                  then py_bind (if wired then on_active_launch name (confirm_terminated now) else py_return ()) (\<lambda>_.
                       py_bind (drop_agent name) (\<lambda>_. py_return True))
                  else py_return False))))"

definition check_agent :: "int \<Rightarrow> (string \<Rightarrow> tmux_run) \<Rightarrow> tmux_agent \<Rightarrow> tmux_agent" where
  "check_agent now pids a =
     (let (may, b) = can_execute now (ag_breaker a); a1 = a\<lparr>ag_breaker := b\<rparr>
      in if \<not> may then a1
         else if get_pid (pids (ag_session a)) = None \<and> ag_status a = AG_HEALTHY
         then a1\<lparr>ag_status := AG_UNHEALTHY\<rparr>
         else a1)"

definition check_agent_health :: "int \<Rightarrow> (string \<Rightarrow> tmux_run) \<Rightarrow> manager_world \<Rightarrow> manager_world" where
  "check_agent_health now pids w =
     w\<lparr>mw_agents := map (\<lambda>(k, a). (k, check_agent now pids a)) (mw_agents w)\<rparr>"

definition get_healthy_agents :: "manager_world \<Rightarrow> tmux_agent list" where
  "get_healthy_agents w = filter (\<lambda>a. ag_status a = AG_HEALTHY) (map snd (mw_agents w))"

section \<open>Sessions without an agent\<close>

definition managed_name :: "string \<Rightarrow> bool" where
  "managed_name s \<longleftrightarrow> starts_with ''fork-'' s \<or> starts_with ''agent-'' s"

definition list_runtime_sessions :: "tmux_run \<Rightarrow> string list" where
  "list_runtime_sessions r =
     (case r of
        Exited code out \<Rightarrow> (if code \<noteq> 0 then [] else remdups (filter managed_name (answer_lines out)))
      | _ \<Rightarrow> [])"

record reconcile_result =
  rr_registered :: "string list"
  rr_runtime :: "string list"
  rr_orphaned :: "string list"
  rr_missing :: "string list"
  rr_status :: string

definition reconcile_sessions :: "tmux_run \<Rightarrow> manager_world \<Rightarrow> reconcile_result" where
  "reconcile_sessions r w =
     (let runtime = list_runtime_sessions r;
          registered = remdups (map (\<lambda>(k, a). ag_session a) (mw_agents w));
          orphaned = filter (\<lambda>s. s \<notin> set registered) runtime;
          missing = filter (\<lambda>s. s \<notin> set runtime) registered
      in \<lparr>rr_registered = registered, rr_runtime = runtime, rr_orphaned = orphaned, rr_missing = missing,
          rr_status = (if orphaned = [] \<and> missing = [] then ''ok''
                       else if orphaned \<noteq> [] \<or> missing \<noteq> [] then ''warning'' else ''error'')\<rparr>)"

definition session_age :: "int \<Rightarrow> tmux_run \<Rightarrow> int" where
  "session_age now r =
     (case r of
        Exited code out \<Rightarrow>
          (if code = 0 \<and> py_strip out \<noteq> []
           then (case py_int (py_strip out) of Inr created \<Rightarrow> now - created | Inl e \<Rightarrow> 0)
           else 0)
      | _ \<Rightarrow> 0)"

definition kill_succeeded :: "tmux_run \<Rightarrow> bool" where
  "kill_succeeded r \<longleftrightarrow> (case r of Exited code out \<Rightarrow> code = 0 | _ \<Rightarrow> False)"

record orphan_cleanup =
  oc_cleaned :: "string list"
  oc_failed :: "string list"
  oc_dry_run :: bool

text \<open>The answers of tmux to the age and kill commands for each session.\<close>

record cleanup_answers =
  ca_sessions :: tmux_run
  ca_age :: "string \<Rightarrow> tmux_run"
  ca_kill :: "string \<Rightarrow> tmux_run"
  ca_now :: int

definition old_enough :: "cleanup_answers \<Rightarrow> int \<Rightarrow> string \<Rightarrow> bool" where
  "old_enough r min_age s \<longleftrightarrow> \<not> (min_age > 0 \<and> session_age (ca_now r) (ca_age r s) < min_age)"

definition cleanup_orphans ::
  "cleanup_answers \<Rightarrow> bool \<Rightarrow> int \<Rightarrow> (manager_world, orphan_cleanup) py" where
  "cleanup_orphans r dry_run min_age w =
     (let orphans = filter (old_enough r min_age) (rr_orphaned (reconcile_sessions (ca_sessions r) w))
      in (Inr \<lparr>oc_cleaned = filter (\<lambda>s. dry_run \<or> kill_succeeded (ca_kill r s)) orphans,
               oc_failed = filter (\<lambda>s. \<not> dry_run \<and> \<not> kill_succeeded (ca_kill r s)) orphans,
               oc_dry_run = dry_run\<rparr>,
          if dry_run then w else w\<lparr>mw_killed := mw_killed w @ orphans\<rparr>))"

section \<open>Lemmas\<close>

interpretation manager_slots: launch_client mw_launches "\<lambda>t w. w\<lparr>mw_launches := t\<rparr>"
  by unfold_locales simp_all

lemma agent_spawn_session [simp]: "ag_session (fst (snd (agent_spawn r v a))) = ag_session a"
  by (auto simp: agent_spawn_def agent_failed_def Let_def split: tmux_run.splits sum.splits bool.splits)

lemma agent_spawn_healthy: "fst (agent_spawn r v a) \<longleftrightarrow> ag_status (fst (snd (agent_spawn r v a))) = AG_HEALTHY"
  by (auto simp: agent_spawn_def agent_failed_def Let_def split: tmux_run.splits sum.splits bool.splits)

text \<open>Whether tmux lets the agent start.\<close>

definition manager_started :: "manager_input \<Rightarrow> agent_config \<Rightarrow> bool" where
  "manager_started inp config \<longleftrightarrow>
     fst (agent_spawn (mi_spawn inp) True (new_agent (mi_now inp) (ac_name config) (ac_tmux_session config)))"

definition agent_session :: "manager_input \<Rightarrow> agent_config \<Rightarrow> string" where
  "agent_session inp config = ag_session (new_agent (mi_now inp) (ac_name config) (ac_tmux_session config))"

lemma spawn_claimed_result:
  assumes ok: "launches_ok (mw_launches w)" and x: "registry (mw_launches w) l = Some x" "al_status x = RESERVED"
  shows "\<exists>r w' y. spawn_claimed inp config (Some l) w = (Inr r, w') \<and> launches_ok (mw_launches w')
    \<and> registry (mw_launches w') = (registry (mw_launches w))(l \<mapsto> y) \<and> al_key y = al_key x
    \<and> (if manager_started inp config
       then al_status y = ACTIVE \<and> al_tmux_session y = Some (agent_session inp config)
         \<and> (\<exists>a. r = Some a \<and> ag_session a = agent_session inp config \<and> ag_status a = AG_HEALTHY
              \<and> mw_agents w' = dict_put (ac_name config) a (mw_agents w))
       else al_status y = FAILED \<and> r = None \<and> mw_agents w' = mw_agents w)"
proof -
  let ?agent = "new_agent (mi_now inp) (ac_name config) (ac_tmux_session config)"
  obtain ok' a killed where sp: "agent_spawn (mi_spawn inp) True ?agent = (ok', a, killed)"
    by (cases "agent_spawn (mi_spawn inp) True ?agent") auto
  have a: "ag_session a = agent_session inp config" "ok' \<longleftrightarrow> ag_status a = AG_HEALTHY"
      "manager_started inp config \<longleftrightarrow> ok'"
    using agent_spawn_session [of "mi_spawn inp" True ?agent] agent_spawn_healthy [of "mi_spawn inp" True ?agent]
    by (simp_all add: sp agent_session_def manager_started_def)
  from manager_slots.spawning [OF ok x, of "mi_now inp"] obtain w1 where
    w1: "on_manager_launches (confirm_spawning (mi_now inp) l) w = (Inr True, w1)" "launches_ok (mw_launches w1)"
      "w1 = w\<lparr>mw_launches := mw_launches w1\<rparr>"
      "registry (mw_launches w1) = (registry (mw_launches w))(l \<mapsto> set_clause (mi_now inp) SPAWNING SPAWNING no_update x)"
    by auto
  let ?x1 = "set_clause (mi_now inp) SPAWNING SPAWNING no_update x"
  have agents: "mw_agents w1 = mw_agents w" by (subst w1(3)) simp
  define w2 where "w2 = w1\<lparr>mw_killed := mw_killed w1 @ killed\<rparr>"
  have w2: "note_killed killed w1 = (Inr (), w2)" "mw_launches w2 = mw_launches w1" "mw_agents w2 = mw_agents w"
    by (simp_all add: note_killed_def w2_def agents)
  show ?thesis
  proof (cases ok')
    case True
    define w3 where "w3 = w2\<lparr>mw_agents := dict_put (ac_name config) a (mw_agents w2)\<rparr>"
    have w3: "register_agent (ac_name config) a w2 = (Inr (), w3)" "mw_launches w3 = mw_launches w1"
        "mw_agents w3 = dict_put (ac_name config) a (mw_agents w)"
      by (simp_all add: register_agent_def w3_def w2)
    from manager_slots.active [of w3 l ?x1 "mi_now inp" "''tmux''" "''tmux-session''" "ag_session a" None
        "Some (ag_session a)" None None] w1 w3 obtain w4 u where
      w4: "on_manager_launches (confirm_active (mi_now inp) l ''tmux'' ''tmux-session'' (ag_session a) None
             (Some (ag_session a)) None None) w3 = (Inr True, w4)" "launches_ok (mw_launches w4)"
        "w4 = w3\<lparr>mw_launches := mw_launches w4\<rparr>" "up_tmux_session u = Some (ag_session a)"
        "registry (mw_launches w4) = (registry (mw_launches w))(l \<mapsto> set_clause (mi_now inp) ACTIVE ACTIVE u ?x1)"
      by auto
    have agents4: "mw_agents w4 = mw_agents w3" by (subst w4(3)) simp
    have "al_tmux_session (set_clause (mi_now inp) ACTIVE ACTIVE u ?x1) = Some (ag_session a)"
      using w4(4) by (simp add: set_clause_def Let_def coalesce_def)
    with sp True a w1 w2 w3 w4 agents4 show ?thesis
      by (intro exI [of _ "Some a"] exI [of _ w4] exI [of _ "set_clause (mi_now inp) ACTIVE ACTIVE u ?x1"])
        (simp add: spawn_claimed_def tell_launch_def py_simps Let_def)
  next
    case False
    from manager_slots.failed [of w2 l ?x1 "mi_now inp" "''tmux spawn failed''"] w1 w2 obtain w4 where
      w4: "on_manager_launches (mark_failed (mi_now inp) l ''tmux spawn failed'') w2 = (Inr True, w4)"
        "launches_ok (mw_launches w4)" "w4 = w2\<lparr>mw_launches := mw_launches w4\<rparr>"
        "registry (mw_launches w4) = (registry (mw_launches w))(l \<mapsto> set_clause (mi_now inp) FAILED FAILED
           (no_update\<lparr>up_error := Some ''tmux spawn failed''\<rparr>) ?x1)"
      by auto
    have agents4: "mw_agents w4 = mw_agents w2" by (subst w4(3)) simp
    with sp False a w1 w2 w4 show ?thesis
      by (intro exI [of _ None] exI [of _ w4] exI [of _ "set_clause (mi_now inp) FAILED FAILED
           (no_update\<lparr>up_error := Some ''tmux spawn failed''\<rparr>) ?x1"])
        (simp add: spawn_claimed_def tell_launch_def py_simps Let_def)
  qed
qed

end
