(* ===== verification/Execution_Properties.thy ===== *)
theory Execution_Properties
  imports Workflow_Executor Agent_Manager Launch_Properties
begin

text \<open>
  The properties of the workflow executor and the agent manager: what becomes of a task's launch and of
  an agent's launch, and which sessions the manager takes for orphans.
\<close>

section \<open>A sample repository and a sample tmux\<close>

definition sample_git :: "unit git" where
  "sample_git args cwd r =
     (\<lparr>gr_code = (if hd args = ''merge'' then 1 else 0),
       gr_stdout = (if args = [''worktree'', ''list'', ''--porcelain'']
                    then join [CHR 0x0A] [''worktree /r'', ''branch refs/heads/main'', [],
                           ''worktree /r-task-a'', ''branch refs/heads/task-a'', []]
                    else if args = [''rev-parse'', ''--git-common-dir''] then ''/r/.git'' else ''main''),
       gr_stderr = [], gr_timed_out = False\<rparr>, r)"

definition sample_fs :: file_system where
  "sample_fs = \<lparr>fs_resolve = (\<lambda>p. p), fs_exists = (\<lambda>p. False), fs_is_file = (\<lambda>p. False),
     fs_text = (\<lambda>p. []), fs_cwd = Abs [''r'']\<rparr>"

definition sample_config :: "unit exec_config" where
  "sample_config = \<lparr>xc_lifecycle = Some 60, xc_git = sample_git, xc_fs = sample_fs, xc_layout = SIBLING,
     xc_safety_mode = False, xc_debug = False\<rparr>"

definition sample_exec_world :: "unit exec_world" where
  "sample_exec_world = \<lparr>xw_launches = [], xw_git = \<lparr>gw_repo = (), gw_log = []\<rparr>, xw_sessions = [],
     xw_typed = [], xw_events = [], xw_dispatched = []\<rparr>"

definition sample_task_input :: "string \<Rightarrow> task_input" where
  "sample_task_input uid = \<lparr>ti_session_uid = ''0a1b'', ti_run_uid = ''r1'', ti_launch_uid = uid, ti_suffix = ''9f'',
     ti_clock = sample_clock 500, ti_now = 501, ti_new_session = Exited 0 [], ti_backend = Some Pi,
     ti_launch = \<lparr>ln_windows = Exited 0 ''0:pi:1'', ln_keys = Exited 0 [], ln_enter = Exited 0 [],
        ln_default_model = ''m''\<rparr>, ti_hook = NoRunner\<rparr>"

definition sample_wf_task :: wf_task where
  "sample_wf_task = new_task (JString ''plan'') (JString ''a'') (JString ''add it'')"

lemma sample_task_typed: "task_typed sample_wf_task ''plan'' ''a'' ''add it''"
  by (simp add: task_typed_def sample_wf_task_def new_task_def)

lemma sample_workflow_launch_valid:
  "valid_launch (workflow_launch 60 (sample_task_input ''l1'') ''plan'')"
  "valid_launch (workflow_launch 60 (sample_task_input ''l2'') ''plan'')"
  by code_simp+

lemma sample_launches:
  "launches_ok (xw_launches sample_exec_world)" "registry (xw_launches sample_exec_world) l = None"
  "key_free k (xw_launches sample_exec_world)"
  by (simp_all add: sample_exec_world_def launches_ok_def registry_ok_def pk_ok_def index_ok_def registry_def
      get_by_launch_id_def lookup_row_def)

lemma sample_agent_started:
  "agent_started sample_config (sample_task_input ''l1'') ''add it''
     (session_for (sample_task_input ''l1'') None ''a'') ''m''"
  by code_simp

section \<open>One task\<close>

text \<open>
  C16: a task whose slot nothing holds is granted a launch, and the launch does not stay between two
  states: it ends ACTIVE under the task's session and without a lease when tmux and the agent backend
  started the agent, and FAILED, with the errors reported, when they did not; no other launch changes,
  and no exception leaves the executor.
\<close>

theorem workflow_task_outcome:
  assumes ok: "launches_ok (xw_launches w)" and t: "task_typed t i slug description"
    and wired: "xc_lifecycle cfg = Some d" and v: "valid_launch (workflow_launch d inp i)"
    and fresh: "registry (xw_launches w) (ti_launch_uid inp) = None"
    and free: "key_free (build_workflow_key i) (xw_launches w)"
  shows "\<exists>r w' y. execute_task cfg inp model session_name run_id t w = (Inr r, w')
    \<and> launches_ok (xw_launches w')
    \<and> registry (xw_launches w') = (registry (xw_launches w))(ti_launch_uid inp \<mapsto> y)
    \<and> al_key y = build_workflow_key i
    \<and> (if agent_started cfg inp description (session_for inp session_name slug) model
       then al_status y = ACTIVE \<and> al_tmux_session y = Some (session_for inp session_name slug)
         \<and> al_lease_expires_at y = None \<and> tr_session r = Some (session_for inp session_name slug)
       else al_status y = FAILED \<and> tr_error r \<noteq> None)"
  using execute_task_granted [OF assms refl] .

theorem workflow_task_outcome_witness:
  "\<exists>r w' y. execute_task sample_config (sample_task_input ''l1'') ''m'' None None sample_wf_task sample_exec_world
       = (Inr r, w')
     \<and> registry (xw_launches w') ''l1'' = Some y \<and> al_status y = ACTIVE
     \<and> al_tmux_session y = Some ''fork-a-0a1b'' \<and> al_lease_expires_at y = None"
proof -
  have session: "session_for (sample_task_input ''l1'') None ''a'' = ''fork-a-0a1b''" by code_simp
  have c: "xc_lifecycle sample_config = Some 60" "ti_launch_uid (sample_task_input ''l1'') = ''l1''"
    by (simp_all add: sample_config_def sample_task_input_def)
  from workflow_task_outcome [OF sample_launches(1) sample_task_typed c(1) sample_workflow_launch_valid(1)
      sample_launches(2,3), where model = "''m''" and session_name = None and run_id = None]
  show ?thesis using sample_agent_started by (auto simp: c(2) session)
qed

text \<open>
  C7: a task that has been started is not started again: while its launch is ACTIVE, executing the task
  once more, in whatever run, at whatever time, with whatever session name and model, reports an
  error and changes nothing but the registry, where the launch stays as it is. No session, no worktree,
  no git command, no hook.
\<close>

theorem workflow_task_runs_once:
  assumes ok: "launches_ok (xw_launches w)" and t: "task_typed t i slug description"
    and wired: "xc_lifecycle cfg = Some d" and v: "valid_launch (workflow_launch d inp i)"
    and fresh: "registry (xw_launches w) (ti_launch_uid inp) = None"
    and free: "key_free (build_workflow_key i) (xw_launches w)"
    and started: "agent_started cfg inp description (session_for inp session_name slug) model"
    and first: "execute_task cfg inp model session_name run_id t w = (r, w1)"
    and v2: "valid_launch (workflow_launch d inp2 i)"
  shows "\<exists>r2 w2. execute_task cfg inp2 model' session' run' t w1 = (Inr r2, w2)
    \<and> w2 = w1\<lparr>xw_launches := xw_launches w2\<rparr> \<and> tr_error r2 \<noteq> None \<and> tr_worktree_name r2 = None
    \<and> registry (xw_launches w2) (ti_launch_uid inp) = registry (xw_launches w1) (ti_launch_uid inp)"
proof -
  from execute_task_granted [OF ok t wired v fresh free refl, where model = model and session_name = session_name and run_id = run_id] started first
  obtain y where y: "launches_ok (xw_launches w1)" "registry (xw_launches w1) (ti_launch_uid inp) = Some y"
      "al_key y = build_workflow_key i" "al_status y = ACTIVE" by auto
  have "in_flight y" "al_status y \<notin> {RESERVED, SPAWNING} \<or> lease_is_valid (rc_check (ti_clock inp2)) y"
    using y(4) by (simp_all add: in_flight_def)
  from execute_task_refused [OF y(1) t wired v2 y(2,3) this, where model = model' and session_name = session' and run_id = run'] y(2)
  show ?thesis by auto
qed

theorem workflow_task_runs_once_witness:
  "\<exists>r2 w2. execute_task sample_config (sample_task_input ''l2'') ''m'' (Some ''other'') None sample_wf_task
       (snd (execute_task sample_config (sample_task_input ''l1'') ''m'' None None sample_wf_task sample_exec_world))
     = (Inr r2, w2) \<and> tr_error r2 \<noteq> None"
proof -
  have c: "xc_lifecycle sample_config = Some 60" by (simp add: sample_config_def)
  from workflow_task_runs_once [OF sample_launches(1) sample_task_typed c sample_workflow_launch_valid(1)
      sample_launches(2,3) sample_agent_started prod.collapse [symmetric] sample_workflow_launch_valid(2),
      where session' = "Some ''other''" and model' = "''m''" and run' = None]
  show ?thesis by blast
qed

section \<open>A plan\<close>

text \<open>
  The parallel branch of the plan does exactly what the sequential one does, task by task and in the
  order of the plan.
\<close>

theorem parallel_is_sequential:
  "execute_plan cfg inp uid now plan True model task_id = execute_plan cfg inp uid now plan False model task_id"
proof -
  have each: "run_each cfg inp model n ts c
      = py_bind (run_all cfg inp model n ts) (\<lambda>rs. py_return (fold collect_result_data rs c))" for n ts c
    by (rule ext) (rule run_each_as_all)
  show ?thesis by (simp add: execute_plan_def each)
qed

section \<open>Agents of the manager\<close>

lemma manager_request_fields [simp]:
  "rq_key (manager_request n) = build_manager_key n" "rq_parent (manager_request n) = None"
  by (simp_all add: manager_request_def)

abbreviation manager_launch :: "int \<Rightarrow> manager_input \<Rightarrow> string \<Rightarrow> agent_launch" where
  "manager_launch d inp n \<equiv> requested_launch d (mi_clock inp) (mi_launch_uid inp) (manager_request n)"

text \<open>
  An agent that the manager does not know and whose key nothing holds ends in step with its launch:
  registered, HEALTHY and with an ACTIVE launch on its session, or neither registered nor holding the
  key, its launch FAILED.
\<close>

theorem manager_spawn_outcome:
  assumes ok: "launches_ok (mw_launches w)" and unknown: "map_of (mw_agents w) (ac_name config) = None"
    and v: "valid_launch (manager_launch d inp (ac_name config))"
    and fresh: "registry (mw_launches w) (mi_launch_uid inp) = None"
    and free: "key_free (build_manager_key (ac_name config)) (mw_launches w)"
  shows "\<exists>r w' y. manager_spawn_agent (Some d) inp config w = (Inr r, w') \<and> launches_ok (mw_launches w')
    \<and> registry (mw_launches w') = (registry (mw_launches w))(mi_launch_uid inp \<mapsto> y)
    \<and> al_key y = build_manager_key (ac_name config)
    \<and> (if manager_started inp config
       then al_status y = ACTIVE \<and> al_tmux_session y = Some (agent_session inp config)
         \<and> (\<exists>a. r = Some a \<and> ag_session a = agent_session inp config \<and> ag_status a = AG_HEALTHY
              \<and> mw_agents w' = dict_put (ac_name config) a (mw_agents w))
       else al_status y = FAILED \<and> r = None \<and> mw_agents w' = mw_agents w)"
proof -
  let ?x = "manager_launch d inp (ac_name config)"
  from manager_slots.granted [OF ok v] fresh free obtain w1 where
    w1: "on_manager_launches (request_launch d (mi_clock inp) (mi_launch_uid inp) (manager_request (ac_name config))) w =
       (Inr \<lparr>la_launch = Some ?x, la_decision = Claimed, la_existing = None, la_reason = None\<rparr>, w1)"
      "w1 = w\<lparr>mw_launches := mw_launches w1\<rparr>" "launches_ok (mw_launches w1)"
      "registry (mw_launches w1) = (registry (mw_launches w))(mi_launch_uid inp \<mapsto> ?x)" by auto
  have agents: "mw_agents w1 = mw_agents w" by (subst w1(2)) simp
  have run: "manager_spawn_agent (Some d) inp config w = spawn_claimed inp config (Some (mi_launch_uid inp)) w1"
    using unknown w1(1) by (simp add: manager_spawn_agent_def py_simps)
  have x: "registry (mw_launches w1) (mi_launch_uid inp) = Some ?x" "al_status ?x = RESERVED"
    using w1(4) by simp_all
  from spawn_claimed_result [OF w1(3) x, of inp config] show ?thesis
    unfolding run w1(4) agents by auto
qed

definition sample_manager :: manager_world where
  "sample_manager = \<lparr>mw_agents = [], mw_launches = [], mw_killed = []\<rparr>"

definition sample_manager_input :: manager_input where
  "sample_manager_input = \<lparr>mi_launch_uid = ''l1'', mi_clock = sample_clock 500, mi_now = 501,
     mi_spawn = \<lparr>sn_new = Exited 0 [], sn_has = [Exited 1 [], Exited 0 []], sn_now = 502\<rparr>\<rparr>"

theorem manager_spawn_outcome_witness:
  "\<exists>a w' y. manager_spawn_agent (Some 60) sample_manager_input \<lparr>ac_name = ''bob'', ac_tmux_session = None\<rparr> sample_manager
       = (Inr (Some a), w')
     \<and> registry (mw_launches w') ''l1'' = Some y \<and> al_status y = ACTIVE \<and> al_tmux_session y = Some ''agent-bob-501''"
proof -
  let ?c = "\<lparr>ac_name = ''bob'', ac_tmux_session = None\<rparr>"
  have a: "launches_ok (mw_launches sample_manager)" "map_of (mw_agents sample_manager) (ac_name ?c) = None"
    "registry (mw_launches sample_manager) (mi_launch_uid sample_manager_input) = None"
    "key_free k (mw_launches sample_manager)" for k
    by (simp_all add: sample_manager_def launches_ok_def registry_ok_def pk_ok_def index_ok_def registry_def
        get_by_launch_id_def lookup_row_def)
  have v: "valid_launch (manager_launch 60 sample_manager_input (ac_name ?c))"
    "manager_started sample_manager_input ?c" "agent_session sample_manager_input ?c = ''agent-bob-501''"
    by code_simp+
  have u: "mi_launch_uid sample_manager_input = ''l1''" by (simp add: sample_manager_input_def)
  from manager_spawn_outcome [OF a(1,2) v(1) a(3,4)] v(2,3) show ?thesis by (auto simp: u)
qed

lemma on_active_launch_run:
  assumes ok: "launches_ok (mw_launches w)" and x: "registry (mw_launches w) i = Some x"
    "al_key x = build_manager_key name" "is_blocking x"
    and only: "only_holder (build_manager_key name) i (mw_launches w)"
  shows "on_active_launch name m w = tell_launch (Some i) m w"
proof -
  from find_active_result [OF ok, of "build_manager_key name"] x obtain z where
    z: "find_active_by_canonical_key (build_manager_key name) (mw_launches w) = Inr (Some z)"
      "registry (mw_launches w) (al_id z) = Some z" "al_key z = build_manager_key name" "is_blocking z" by blast
  have "al_id z = i" using only z(2-4) by (auto simp: only_holder_def)
  with z(1) show ?thesis by (simp add: on_active_launch_def run_in_def py_simps)
qed

text \<open>The two steps of a termination, on the launch that alone holds the agent's key.\<close>

lemma holder_terminating:
  assumes ok: "launches_ok (mw_launches w)" and x: "registry (mw_launches w) i = Some x"
    "al_key x = build_manager_key name" "al_status x = ACTIVE"
    and only: "only_holder (build_manager_key name) i (mw_launches w)"
  shows "\<exists>t y. on_active_launch name (begin_termination now) w = (Inr (), w\<lparr>mw_launches := t\<rparr>)
    \<and> launches_ok t \<and> registry t = (registry (mw_launches w))(i \<mapsto> y) \<and> al_key y = build_manager_key name
    \<and> al_status y = TERMINATING \<and> only_holder (build_manager_key name) i t"
proof -
  have blocking: "is_blocking x" using x(3) by (simp add: is_blocking_def blocking_statuses_def)
  obtain r t where run: "begin_termination now i (mw_launches w) = (r, t)" by fastforce
  from begin_termination_move [OF ok, of now i] run x have t: "r = Inr True" "launches_ok t"
      "registry t = (registry (mw_launches w))(i \<mapsto> set_clause now TERMINATING TERMINATING no_update x)"
    by (auto simp: guarded_move_def)
  have "only_holder (build_manager_key name) i t"
    using only t(3) by (auto simp: only_holder_def split: if_splits)
  moreover have "on_active_launch name (begin_termination now) w = (Inr (), w\<lparr>mw_launches := t\<rparr>)"
    unfolding on_active_launch_run [OF ok x(1,2) blocking only]
    by (simp add: tell_launch_def run_in_def py_simps run t(1))
  ultimately show ?thesis
    using t x(2) by (intro exI [of _ t] exI [of _ "set_clause now TERMINATING TERMINATING no_update x"]) simp
qed

lemma holder_terminated:
  assumes ok: "launches_ok (mw_launches w)" and x: "registry (mw_launches w) i = Some x"
    "al_key x = build_manager_key name" "al_status x = TERMINATING"
    and only: "only_holder (build_manager_key name) i (mw_launches w)"
  shows "\<exists>t y. on_active_launch name (confirm_terminated now) w = (Inr (), w\<lparr>mw_launches := t\<rparr>)
    \<and> launches_ok t \<and> registry t = (registry (mw_launches w))(i \<mapsto> y) \<and> al_status y = TERMINATED"
proof -
  have blocking: "is_blocking x" using x(3) by (simp add: is_blocking_def blocking_statuses_def)
  obtain r t where run: "cas_update_status now i TERMINATING TERMINATED no_update (mw_launches w) = (r, t)"
    by fastforce
  from cas_step [OF ok _ _ run] x have t: "r = Inr True" "launches_ok t"
    "registry t = (registry (mw_launches w))(i \<mapsto> set_clause now TERMINATED TERMINATED no_update x)" by auto
  have "on_active_launch name (confirm_terminated now) w = (Inr (), w\<lparr>mw_launches := t\<rparr>)"
    unfolding on_active_launch_run [OF ok x(1,2) blocking only]
    by (simp add: tell_launch_def run_in_def py_simps confirm_terminated_def run t(1))
  with t show ?thesis
    by (intro exI [of _ t] exI [of _ "set_clause now TERMINATED TERMINATED no_update x"]) simp
qed

lemma map_of_stored: "map_of (map (\<lambda>(k, v). (k, if k = n then a else v)) kvs) n = map_option (\<lambda>_. a) (map_of kvs n)"
  by (induction kvs) auto

lemma map_of_dropped: "map_of (dict_del n kvs) n = None"
  unfolding dict_del_def by (induction kvs) auto

text \<open>
  Terminating an agent whose launch is ACTIVE and alone on its key ends both: the session is killed
  once, the agent leaves the manager and its launch is TERMINATED. When tmux cannot be called the agent
  stays, marked failed, and its launch stays TERMINATING and keeps the key.
\<close>

theorem manager_terminate_correct:
  assumes ok: "launches_ok (mw_launches w)" and a: "map_of (mw_agents w) name = Some a"
    and x: "registry (mw_launches w) i = Some x" "al_key x = build_manager_key name" "al_status x = ACTIVE"
    and only: "only_holder (build_manager_key name) i (mw_launches w)"
  shows "\<exists>w' y. manager_terminate_agent True now r name w = (Inr (fst (agent_terminate r a)), w')
    \<and> launches_ok (mw_launches w') \<and> registry (mw_launches w') = (registry (mw_launches w))(i \<mapsto> y)
    \<and> mw_killed w' = mw_killed w @ [ag_session a]
    \<and> (if fst (agent_terminate r a)
       then al_status y = TERMINATED \<and> map_of (mw_agents w') name = None
       else al_status y = TERMINATING \<and> map_of (mw_agents w') name = Some (a\<lparr>ag_status := AG_FAILED\<rparr>))"
proof -
  from holder_terminating [OF ok x only, of now] obtain t1 y1 where
    t1: "on_active_launch name (begin_termination now) w = (Inr (), w\<lparr>mw_launches := t1\<rparr>)" "launches_ok t1"
      "registry t1 = (registry (mw_launches w))(i \<mapsto> y1)" "al_key y1 = build_manager_key name"
      "al_status y1 = TERMINATING" "only_holder (build_manager_key name) i t1" by blast
  obtain s a' where s: "agent_terminate r a = (s, a')" by fastforce
  let ?w2 = "w\<lparr>mw_launches := t1, mw_killed := mw_killed w @ [ag_session a],
      mw_agents := map (\<lambda>(k, v). (k, if k = name then a' else v)) (mw_agents w)\<rparr>"
  have run: "manager_terminate_agent True now r name w =
      (if s then py_bind (on_active_launch name (confirm_terminated now)) (\<lambda>_.
                 py_bind (drop_agent name) (\<lambda>_. py_return True)) ?w2
       else (Inr False, ?w2))"
    by (simp add: manager_terminate_agent_def py_simps a t1(1) s Let_def note_killed_def store_agent_def)
  show ?thesis
  proof (cases s)
    case False
    with s have "a' = a\<lparr>ag_status := AG_FAILED\<rparr>" by (auto simp: agent_terminate_def split: tmux_run.splits)
    then show ?thesis
      using False s t1 a by (intro exI [of _ ?w2] exI [of _ y1]) (simp add: run map_of_stored)
  next
    case True
    from holder_terminated [of ?w2 i y1 name now] t1 obtain t2 y2 where
      t2: "on_active_launch name (confirm_terminated now) ?w2 = (Inr (), ?w2\<lparr>mw_launches := t2\<rparr>)" "launches_ok t2"
        "registry t2 = (registry t1)(i \<mapsto> y2)" "al_status y2 = TERMINATED" by auto
    let ?w3 = "?w2\<lparr>mw_launches := t2, mw_agents := dict_del name (mw_agents ?w2)\<rparr>"
    show ?thesis
      using True s t1(3) t2
      by (intro exI [of _ ?w3] exI [of _ y2]) (simp add: run py_simps drop_agent_def map_of_dropped)
  qed
qed

definition sample_managed :: manager_world where
  "sample_managed = \<lparr>mw_agents = [(''t1'', new_agent 5 ''t1'' None)],
     mw_launches = [launch_row ((sample_launch ACTIVE)\<lparr>al_key := build_manager_key ''t1''\<rparr>)], mw_killed = []\<rparr>"

theorem manager_terminate_correct_witness:
  "\<exists>w' y. manager_terminate_agent True 9 (Exited 0 []) ''t1'' sample_managed = (Inr True, w')
     \<and> registry (mw_launches w') ''l1'' = Some y \<and> al_status y = TERMINATED \<and> mw_killed w' = [''agent-t1-5'']"
proof -
  let ?x = "(sample_launch ACTIVE)\<lparr>al_key := build_manager_key ''t1''\<rparr>"
  have v: "valid_launch ?x" by code_simp
  have f: "al_id ?x = ''l1''" "al_status ?x = ACTIVE" "al_key ?x = build_manager_key ''t1''" by simp_all
  have l: "mw_launches sample_managed = [launch_row ?x]" by (simp add: sample_managed_def)
  have r: "registry (mw_launches sample_managed) i = (if i = ''l1'' then Some ?x else None)" for i
    unfolding l registry_single [OF v] by (simp add: sample_launch_def claimed_launch_def)
  have ok: "launches_ok (mw_launches sample_managed)" unfolding l by (rule launches_ok_single [OF v])
  have x: "registry (mw_launches sample_managed) ''l1'' = Some ?x" using r by simp
  have only: "only_holder (build_manager_key ''t1'') ''l1'' (mw_launches sample_managed)"
    by (simp add: only_holder_def r)
  have a: "map_of (mw_agents sample_managed) ''t1'' = Some (new_agent 5 ''t1'' None)" by (simp add: sample_managed_def)
  have s: "fst (agent_terminate (Exited 0 []) (new_agent 5 ''t1'' None))" by (simp add: agent_terminate_def)
  have k: "ag_session (new_agent 5 ''t1'' None) = ''agent-t1-5''" "mw_killed sample_managed = []"
    by (code_simp, simp add: sample_managed_def)
  from manager_terminate_correct [OF ok a x f(3,2) only, of 9 "Exited 0 []"] s show ?thesis
    by (auto simp: k)
qed

section \<open>Orphans\<close>

text \<open>
  The manager's sweep takes the sessions of the workflow for orphans. The session of a task, which
  the executor names fork-..., is killed by the sweep of any manager that has no agent on it, whatever
  the registry says about its launch: the sweep reads the registry nowhere.
\<close>

theorem orphan_sweep_kills_task_sessions:
  assumes "ca_sessions r = Exited 0 out" and "session_for inp None slug \<in> set (answer_lines out)"
    and "session_for inp None slug \<notin> (\<lambda>(k, a). ag_session a) ` set (mw_agents w)" and "min_age \<le> 0"
  shows "\<exists>o1 w'. cleanup_orphans r False min_age w = (Inr o1, w')
    \<and> session_for inp None slug \<in> set (mw_killed w') \<and> mw_launches w' = mw_launches w"
proof -
  have "managed_name (session_for inp None slug)" by (simp add: managed_name_def session_for_def starts_with_def)
  with assms show ?thesis
    by (auto simp: cleanup_orphans_def reconcile_sessions_def list_runtime_sessions_def old_enough_def Let_def)
qed

theorem orphan_sweep_kills_task_sessions_witness:
  "\<exists>o1 w'. cleanup_orphans \<lparr>ca_sessions = Exited 0 ''fork-a-0a1b'', ca_age = (\<lambda>s. TimedOut),
       ca_kill = (\<lambda>s. Exited 0 []), ca_now = 9\<rparr> False 0 sample_manager = (Inr o1, w')
     \<and> session_for (sample_task_input ''l1'') None ''a'' \<in> set (mw_killed w')"
proof -
  let ?r = "\<lparr>ca_sessions = Exited 0 ''fork-a-0a1b'', ca_age = (\<lambda>s. TimedOut), ca_kill = (\<lambda>s. Exited 0 []), ca_now = 9\<rparr>"
  have a: "ca_sessions ?r = Exited 0 ''fork-a-0a1b''" by simp
  have b: "session_for (sample_task_input ''l1'') None ''a'' \<in> set (answer_lines ''fork-a-0a1b'')" by code_simp
  have c: "session_for (sample_task_input ''l1'') None ''a'' \<notin> (\<lambda>(k, a). ag_session a) ` set (mw_agents sample_manager)"
    by (simp add: sample_manager_def)
  from orphan_sweep_kills_task_sessions [OF a b c, of 0] show ?thesis by auto
qed

end
