(* ===== verification/Workflow_Properties.thy ===== *)
theory Workflow_Properties
  imports Workflow_Commands Execution_Properties Fpel_Properties
begin

text \<open>
  The properties of the workflow: the gates between its commands, what happens to a task's launch,
  session, worktree and branch, and how the agent manager treats the sessions of the workflow.
\<close>

section \<open>Parts of the command world\<close>

interpretation cli_exec: store_part cw_exec "\<lambda>e w. w\<lparr>cw_exec := e\<rparr>"
  by unfold_locales simp_all

definition after_call :: "'r git \<Rightarrow> string list \<Rightarrow> path option \<Rightarrow> 'r git_world \<Rightarrow> 'r git_world" where
  "after_call git args cwd g =
     g\<lparr>gw_repo := snd (git args cwd (gw_repo g)), gw_log := gw_log g @ [args]\<rparr>"

lemma after_call_log [simp]: "gw_log (after_call git args cwd g) = gw_log g @ [args]"
  by (simp add: after_call_def)

lemma git_call_run:
  "git_call git args cwd g = (Inr (fst (git args cwd (gw_repo g))), after_call git args cwd g)"
  by (simp add: git_call_def after_call_def split: prod.splits)

lemma get_current_branch_run:
  "\<exists>b. get_current_branch git g = (Inr b, after_call git [''rev-parse'', ''--abbrev-ref'', ''HEAD''] None g)"
  by (simp add: get_current_branch_def git_output_def py_bind_def git_call_run py_simps)

section \<open>A sample state directory\<close>

definition sample_input :: cli_input where
  "sample_input = \<lparr>ci_uid = ''u1'', ci_task_uid = ''k1'', ci_now = JString ''now'',
     ci_state_write = Written, ci_text_write = Written\<rparr>"

definition sample_options :: ship_options where
  "sample_options = \<lparr>so_target = ''main'', so_target_flag = False, so_inplace = False, so_cleanup = True,
     so_use_worktree = False, so_force = False, so_reason = [], so_uid = ''u2'', so_now = JString ''now'',
     so_temp = (\<lambda>n. ''/tmp/ship''), so_hook = NoRunner, so_manager_ok = True\<rparr>"

text \<open>A plan with one task, executed and not verified.\<close>

definition sample_plan :: plan_state where
  "sample_plan = (outlined_plan sample_input ''add it'' ''plan.md'')
     \<lparr>ps_session_id := JString ''t1'', ps_tasks := [new_task (JString ''plan'') (JString ''a'') (JString ''add it'')]\<rparr>"

definition sample_execution :: execute_state where
  "sample_execution = \<lparr>es_session_id = JString ''exec-u1'', es_status = JString ''executing'',
     es_phase = EXECUTED, es_started_at = JString ''now'',
     es_tasks = [(new_task (JString ''plan'') (JString ''a'') (JString ''add it''))
                   \<lparr>wt_worktree_path := JString ''/r-task-a''\<rparr>],
     es_current = JNumber 0, es_schema = JNumber 4, es_migrated_from = None\<rparr>"

definition sample_world :: "unit cli_world" where
  "sample_world = \<lparr>cw_exec = sample_exec_world, cw_plan = Holds (plan_to_json sample_plan),
     cw_execute = Holds (execute_to_json sample_execution), cw_verify = Absent, cw_plan_text = None,
     cw_ship_log = []\<rparr>"

section \<open>The gate of ship\<close>

text \<open>What \<open>ship\<close> asks for before it touches anything.\<close>

definition ship_open :: "ship_options \<Rightarrow> 'r cli_world \<Rightarrow> bool" where
  "ship_open o1 w \<longleftrightarrow>
     (if so_force o1 then py_strip (so_reason o1) \<noteq> []
      else (\<exists>v. verify_load (so_now o1) (cw_verify w) = Inr (Some v) \<and> exit_gate (vs_test_results v) = Inr ()
              \<and> vs_phase v \<in> {VERIFIED, SHIPPED} \<and> json_truthy (vs_unlock_ship v)))"

lemma ship_target_frame:
  "\<exists>r g. ship_target git o1 w = (r, w\<lparr>cw_exec := (cw_exec w)\<lparr>xw_git := g\<rparr>\<rparr>) \<and>
     (g = xw_git (cw_exec w) \<or>
      gw_log g = gw_log (xw_git (cw_exec w)) @ [[''rev-parse'', ''--abbrev-ref'', ''HEAD'']])"
proof (cases "so_inplace o1 \<and> \<not> so_target_flag o1")
  case True
  let ?g = "after_call git [''rev-parse'', ''--abbrev-ref'', ''HEAD''] None (xw_git (cw_exec w))"
  obtain b where "get_current_branch git (xw_git (cw_exec w)) = (Inr b, ?g)"
    using get_current_branch_run by blast
  with True show ?thesis
    by (auto simp: ship_target_def run_in_def py_bind_def py_simps intro!: exI [of _ ?g])
next
  case False
  then show ?thesis
    by (auto simp: ship_target_def py_simps intro!: exI [of _ "xw_git (cw_exec w)"])
qed

lemma ship_open_cong:
  "cw_verify w1 = cw_verify w \<Longrightarrow> ship_open o1 w1 = ship_open o1 w"
  by (simp add: ship_open_def)

lemma ship_verify_state_run:
  "ship_verify_state o1 w =
     (if so_force o1
      then (if py_strip (so_reason o1) = [] then Inl CliExit
            else Inr (verified_state (''forced-'' @ so_uid o1) ''pending'' (so_now o1) (JObject [])))
      else res_bind (res_bind (verify_load (so_now o1) (cw_verify w)) must_exist) (\<lambda>v.
             res_bind (exit_gate (vs_test_results v)) (\<lambda>_. Inr v)), w)"
  by (auto simp: ship_verify_state_def check_verify_exists_def py_simps split: sum.splits)

lemma ship_verify_state_store: "snd (ship_verify_state o1 w) = w"
  by (simp add: ship_verify_state_run)

text \<open>
  C8: nothing ships through a closed gate. Without a stored verification in phase VERIFIED or SHIPPED
  that unlocks shipping and whose tests passed or were skipped (with --force: without a reason that is
  not blank), ship raises and changes neither the state files nor the log of ship events nor the
  sessions, launches and hooks, and the only command it may have given git is the question which
  branch is checked out.
\<close>

theorem ship_gate_closed:
  assumes "\<not> ship_open o1 w"
  shows "\<exists>e g. ship cfg o1 w = (Inl e, w\<lparr>cw_exec := (cw_exec w)\<lparr>xw_git := g\<rparr>\<rparr>) \<and>
     (g = xw_git (cw_exec w) \<or>
      gw_log g = gw_log (xw_git (cw_exec w)) @ [[''rev-parse'', ''--abbrev-ref'', ''HEAD'']])"
proof -
  obtain r g where t: "ship_target (xc_git cfg) o1 w = (r, w\<lparr>cw_exec := (cw_exec w)\<lparr>xw_git := g\<rparr>\<rparr>)"
    and g: "g = xw_git (cw_exec w) \<or>
      gw_log g = gw_log (xw_git (cw_exec w)) @ [[''rev-parse'', ''--abbrev-ref'', ''HEAD'']]"
    using ship_target_frame [of "xc_git cfg" o1 w] by blast
  let ?w1 = "w\<lparr>cw_exec := (cw_exec w)\<lparr>xw_git := g\<rparr>\<rparr>"
  have closed: "\<not> ship_open o1 ?w1" using assms ship_open_cong [of ?w1 w o1] by simp
  show ?thesis
  proof (cases r)
    case (Inl e)
    with t g show ?thesis by (auto simp: ship_def py_simps)
  next
    case (Inr target)
    show ?thesis
    proof (cases "fst (ship_verify_state o1 ?w1)")
      case (Inl e)
      then have "ship_verify_state o1 ?w1 = (Inl e, ?w1)"
        by (simp add: prod_eq_iff ship_verify_state_store)
      then have "ship cfg o1 w = (Inl e, ?w1)"
        unfolding ship_def by (simp add: py_bind_run(1) [where m = "ship_target (xc_git cfg) o1", OF t [unfolded Inr]] py_bind_run(2))
      with g show ?thesis by blast
    next
      case v: (Inr v)
      then have run: "ship_verify_state o1 ?w1 = (Inr v, ?w1)"
        by (simp add: prod_eq_iff ship_verify_state_store)
      have "vs_phase v \<notin> {VERIFIED, SHIPPED} \<or> \<not> json_truthy (vs_unlock_ship v)"
        using closed v by (auto simp: ship_verify_state_run ship_open_def res_bind_Inr_iff must_exist_def
            split: if_splits option.splits)
      then have "\<exists>e. py_bind (py_lift (validate_phase_transition (Some (vs_phase v)) [VERIFIED, SHIPPED] ''ship''))
          (\<lambda>_. if \<not> json_truthy (vs_unlock_ship v) then py_raise CliExit else k) ?w1 = (Inl e, ?w1)"
        for k :: "('a cli_world, unit) py"
        by (elim disjE) (simp_all add: py_simps validate_phase_transition_def)
      then have "\<exists>e. ship cfg o1 w = (Inl e, ?w1)"
        unfolding ship_def by (simp add: py_bind_run(1) [where m = "ship_target (xc_git cfg) o1", OF t [unfolded Inr]] py_bind_run(1) [where m = "ship_verify_state o1", OF run])
      with g show ?thesis by blast
    qed
  qed
qed

theorem ship_gate_closed_witness:
  "\<exists>e g. ship sample_config sample_options sample_world
     = (Inl e, sample_world\<lparr>cw_exec := sample_exec_world\<lparr>xw_git := g\<rparr>\<rparr>)"
proof -
  have "\<not> ship_open sample_options sample_world"
    by (simp add: ship_open_def sample_options_def sample_world_def verify_load_def load_state_def)
  from ship_gate_closed [OF this, of sample_config] show ?thesis by (auto simp: sample_world_def)
qed

section \<open>verify and ship\<close>

lemma save_state_Inr [simp]: "save_state out d f = (Inr u, f') \<longleftrightarrow> out = Written \<and> f' = Holds d"
  by (cases out) (auto simp: save_state_def)

lemma run_in_Inr: "run_in part put m w = (Inr a, w') \<longleftrightarrow> (\<exists>s. m (part w) = (Inr a, s) \<and> w' = put s w)"
  by (auto simp: run_in_def split: prod.splits)

lemma verified_state_fields [simp]:
  "vs_phase (verified_state s st t res) = VERIFIED" "vs_unlock_ship (verified_state s st t res) = JBool True"
  "vs_test_results (verified_state s st t res) = res"
  by (simp_all add: verified_state_def)

lemma verify_load_saved [simp]:
  "verify_load now (Holds (verify_to_json (verified_state s st t res))) = Inr (Some (verified_state s st t res))"
proof -
  have d: "verify_from_json now (verify_to_json (verified_state s st t res))
      = Inr (verified_state s st t res)"
    using verify_roundtrip [of "verified_state s st t res" 4 now] by (simp add: verified_state_def)
  have "\<exists>kvs. verify_to_json (verified_state s st t res) = JObject kvs \<and> map_of kvs ''session_id'' \<noteq> None"
    by (simp add: verify_to_json_def)
  then show ?thesis using d by (auto simp: verify_load_def load_state_def)
qed

lemma execute_load_saved:
  assumes "es_schema e = JNumber 4" and "es_migrated_from e = None"
  shows "execute_load now (Holds (execute_to_json e)) = Inr (Some e)"
proof -
  have d: "execute_from_json now (execute_to_json e) = Inr e"
    using execute_roundtrip [of e 4 now] assms by (cases e) simp
  have "\<exists>kvs. execute_to_json e = JObject kvs \<and> map_of kvs ''session_id'' \<noteq> None"
    by (simp add: execute_to_json_def)
  then show ?thesis using d by (auto simp: execute_load_def load_state_def)
qed

lemma verify_command_stores:
  assumes "verify_command inp run_tests outcome w = (Inr v, w')"
  shows "v = verified_state (''verify-'' @ ci_uid inp) ''verified'' (ci_now inp) (verify_results run_tests outcome)
    \<and> cw_verify w' = Holds (verify_to_json v)"
  using assms
  by (auto simp: verify_command_def Let_def py_bind_Inr_iff py_return_def py_lift_def verify_save_def
      run_in_Inr dispatch_def)

lemma sample_world_verifies:
  "\<not> isl (fst (verify_command sample_input True (Inr (runner_results 300 7 (PytestEnded 1 [] []))) sample_world))"
  by code_simp

text \<open>
  What verify writes opens ship's gate exactly when the tests were skipped or pytest ended with
  exit code 0; a run that failed, timed out or could not start leaves it closed, although the stored
  state says VERIFIED and unlocks shipping in every case.
\<close>

theorem verification_opens_ship:
  assumes "verify_command inp run_tests (Inr (runner_results tm d r)) w = (Inr v, w')" and "\<not> so_force o1"
  shows "vs_phase v = VERIFIED \<and> vs_unlock_ship v = JBool True \<and>
    (ship_open o1 w' \<longleftrightarrow> \<not> run_tests \<or> (\<exists>out err. r = PytestEnded 0 out err))"
  using verify_command_stores [OF assms(1)] assms(2)
  by (cases r; cases run_tests)
    (auto simp: ship_open_def verify_results_def runner_results_def Let_def exit_gate_def json_zero_def
      json_get_def)

theorem verification_opens_ship_witness:
  "\<exists>v w'. verify_command sample_input True (Inr (runner_results 300 7 (PytestEnded 1 [] []))) sample_world = (Inr v, w')
     \<and> vs_phase v = VERIFIED \<and> \<not> ship_open sample_options w'"
proof -
  obtain v w' where run:
    "verify_command sample_input True (Inr (runner_results 300 7 (PytestEnded 1 [] []))) sample_world = (Inr v, w')"
    using sample_world_verifies by (metis prod.collapse sum.collapse(2))
  from verification_opens_ship [OF run, of sample_options] have "vs_phase v = VERIFIED \<and> \<not> ship_open sample_options w'"
    by (auto simp: sample_options_def)
  with run show ?thesis by blast
qed

section \<open>A verification is never taken back\<close>

lemma keeps_verification [preserves_rules]:
  "preserves (\<lambda>w. cw_verify w = v) (on_exec m)"
  "preserves (\<lambda>w. cw_verify w = v) (on_plan_file m1)"
  "preserves (\<lambda>w. cw_verify w = v) (on_execute_file m1)"
  "preserves (\<lambda>w. cw_verify w = v) (write_plan_text out file content)"
  by (auto simp: preserves_def run_in_def write_plan_text_def split: prod.splits write_outcome.splits)

lemma outline_keeps_verification: "preserves (\<lambda>w. cw_verify w = v) (outline inp description file)"
  unfolding outline_def Let_def by (intro preserves_rules)

lemma execute_keeps_verification:
  "preserves (\<lambda>w. cw_verify w = v) (execute_command cfg H port inp tasks task_id parallel model)"
  unfolding execute_command_def check_plan_exists_def by (intro preserves_rules)

text \<open>
  Outlining a new plan and executing it leaves ship's gate as it was: a verification that opened it
  for the old plan goes on opening it for the new one, whatever the commands did or raised.
\<close>

theorem stale_verification:
  "ship_open o1 (snd (execute_command cfg H port inp tasks task_id parallel model (snd (outline inp' description file w))))
     \<longleftrightarrow> ship_open o1 w"
proof -
  have "cw_verify (snd (outline inp' description file w)) = cw_verify w"
    using outline_keeps_verification [of "cw_verify w" inp' description "file"] by (auto dest: preservesD)
  moreover have "cw_verify (snd (execute_command cfg H port inp tasks task_id parallel model w1)) = cw_verify w1" for w1
    using execute_keeps_verification [of "cw_verify w1" cfg H port inp tasks task_id parallel model]
    by (auto dest: preservesD)
  ultimately show ?thesis by (intro ship_open_cong) simp
qed

section \<open>execute behind the FPEL gate\<close>

context authorization_gate begin

lemma workflow_gate_iff:
  assumes "inv s" and "execute_target H plan task_id = Inr (target, h)"
  shows "workflow_gate H (Some (check s)) plan task_id
     = (if authorised s target = Some h then Inr () else Inl CliExit)"
proof -
  obtain d where d: "check s target (Some h) = Inr d" using gate_total [OF assms(1)] by blast
  from gate_allows [OF assms(1) d] d assms(2) show ?thesis by (simp add: workflow_gate_def)
qed

end

text \<open>
  C17: behind the FPEL gate execute runs the plan exactly when the plan is outlined or executed, the
  stored execution can be read and the hash the gate authorises for the target (the task asked for, or
  the whole plan) is the hash of the target as it is now; otherwise it raises and changes nothing.
\<close>

theorem workflow_execute_needs_seal:
  assumes inv: "fpel_inv H s" and plan: "plan_load (ci_now inp) (cw_plan w) = Inr (Some plan)"
    and target: "execute_target H plan task_id = Inr (target, h)"
  shows "if ps_phase plan \<in> {OUTLINED, EXECUTED} \<and> (\<exists>old. execute_load (ci_now inp) (cw_execute w) = Inr old)
        \<and> authorised_hash s target = Some h
    then execute_command cfg H (Some (\<lambda>t c. check_sealed H t c s)) inp tasks task_id parallel model w
       = py_bind (on_exec (execute_plan cfg tasks (ci_uid inp) (ci_now inp) plan parallel model task_id)) (\<lambda>result.
         py_bind (on_execute_file (execute_save (ci_state_write inp) (er_state result))) (\<lambda>_. py_return result)) w
    else \<exists>e. execute_command cfg H (Some (\<lambda>t c. check_sealed H t c s)) inp tasks task_id parallel model w = (Inl e, w)"
proof -
  have gate: "workflow_gate H (Some (\<lambda>t c. check_sealed H t c s)) plan task_id
      = (if authorised_hash s target = Some h then Inr () else Inl CliExit)"
    using fpel.workflow_gate_iff [OF fpel_inv_store [OF inv] target] .
  show ?thesis
    by (cases "execute_load (ci_now inp) (cw_execute w)")
      (simp_all add: execute_command_def check_plan_exists_def py_simps plan must_exist_def gate
        validate_phase_transition_def)
qed

theorem workflow_execute_needs_seal_witness:
  "\<exists>e. execute_command sample_config sample_hasher
       (Some (\<lambda>t c. check_sealed sample_hasher t c frozen_store)) sample_input (\<lambda>n. sample_task_input ''l1'') None False ''m'' sample_world
     = (Inl e, sample_world)"
proof -
  have a: "plan_load (ci_now sample_input) (cw_plan sample_world) = Inr (Some sample_plan)"
    "execute_target sample_hasher sample_plan None = Inr (''t1'', ''sha:plan'')"
    "authorised_hash frozen_store ''t1'' = None" by code_simp+
  from workflow_execute_needs_seal [OF sample_stores_inv(1) a(1,2), of sample_config "\<lambda>n. sample_task_input ''l1''" False "''m''"] a(3)
  show ?thesis by simp
qed

section \<open>A branch that could not be merged\<close>

lemma sample_merge_fails:
  "isl (fst (ship_merge sample_config sample_options (so_temp sample_options 0) ''main'' ''task-a'' sample_world))"
  by code_simp

lemma sample_remove_succeeds:
  "\<not> isl (fst (on_exec (remove_step sample_config (so_hook sample_options) ''task-a'')
       (snd (ship_merge sample_config sample_options (so_temp sample_options 0) ''main'' ''task-a'' sample_world))))"
  by code_simp

text \<open>
  When the merge of a task's branch fails, ship notes the failure and goes on to remove the
  worktree by force and to delete the branch by force, so the commits that were never merged are gone
  although ship reports the merge as failed.
\<close>

theorem unmerged_branch_is_deleted:
  assumes path: "json_truthy (wt_worktree_path t)" and name: "worktree_name_of t = Inr name"
    and merge: "ship_merge cfg o1 (so_temp o1 n) target name w = (Inl e, w1)"
    and remove: "on_exec (remove_step cfg (so_hook o1) name) w1 = (Inr (), w2)"
  shows "ship_task cfg o1 target n t w = (Inr [''merge:'' @ name], w2) \<and>
    (\<exists>l p. gw_log (xw_git (cw_exec w2)) =
       l @ [[''worktree'', ''remove'', ''--force'', p], [''branch'', ''-D'', name]])"
proof -
  have run: "ship_task cfg o1 target n t w = (Inr [''merge:'' @ name], w2)"
    using path name merge remove by (simp add: ship_task_def noting_def py_catch_def py_simps)
  from remove obtain g where "remove_workspace (xc_fs cfg) (xc_git cfg) (so_hook o1) name True
      (xw_git (cw_exec w1)) = (Inr (), g)" "xw_git (cw_exec w2) = g"
    by (auto simp: remove_step_def run_in_Inr py_bind_Inr_iff dispatch_def)
  with remove_workspace_log have "\<exists>l p. gw_log (xw_git (cw_exec w2)) =
       l @ [[''worktree'', ''remove''] @ [''--force''] @ [p], [''branch'', ''-D'', name]]"
    by fastforce
  with run show ?thesis by simp
qed

theorem unmerged_branch_is_deleted_witness:
  "\<exists>w2 l p. ship_task sample_config sample_options ''main'' 0 (hd (es_tasks sample_execution)) sample_world
       = (Inr [''merge:task-a''], w2)
     \<and> gw_log (xw_git (cw_exec w2)) = l @ [[''worktree'', ''remove'', ''--force'', p], [''branch'', ''-D'', ''task-a'']]"
proof -
  let ?t = "hd (es_tasks sample_execution)"
  have a: "json_truthy (wt_worktree_path ?t)" "worktree_name_of ?t = Inr ''task-a''" by code_simp+
  let ?m = "ship_merge sample_config sample_options (so_temp sample_options 0) ''main'' ''task-a'' sample_world"
  let ?r = "on_exec (remove_step sample_config (so_hook sample_options) ''task-a'') (snd ?m)"
  obtain e where "fst ?m = Inl e" using sample_merge_fails by (auto simp: isl_def)
  then have m: "?m = (Inl e, snd ?m)" by (simp only: prod_eq_iff fst_conv snd_conv)
  have "fst ?r = Inr ()" using sample_remove_succeeds by (cases "fst ?r") simp_all
  then have r: "?r = (Inr (), snd ?r)" by (simp only: prod_eq_iff fst_conv snd_conv)
  from unmerged_branch_is_deleted [OF a m r] show ?thesis by simp
qed

end
