(* ===== verification/Text_Properties.thy ===== *)
theory Text_Properties
  imports Tmux_Orchestrator Workspace
begin

text \<open>
  The properties of the texts that go to other programs and come back from them: what the shell in a
  tmux window makes of the command typed into it, what sanitising leaves of a text, and how the
  listing of git's worktrees is read.
\<close>

section \<open>What is typed into a window\<close>

text \<open>The three commands of the script with the fallback are quoted word by word.\<close>

lemma opencode_script_parts:
  "\<exists>first warning second. opencode_script executable fallback model task
       = first @ ''; rc=$?; if [ $rc -ne 0 ]; then '' @ warning @ '' >&2; '' @ second @ ''; fi''
     \<and> shell_words first = Some [executable, ''run'', ''-m'', model, task]
     \<and> shell_words warning = Some [''echo'',
         ''[fork-agent] primary model failed, retrying fallback model: '' @ fallback]
     \<and> shell_words second = Some [executable, ''run'', ''-m'', fallback, task]"
proof -
  let ?notice = "''[fork-agent] primary model failed, retrying fallback model: '' @ fallback"
  have call: "opencode_call executable m task = join '' '' (map shell_quote [executable, ''run'', ''-m'', m, task])" for m
    by (simp add: opencode_call_def)
  have "shell_quote ''echo'' = ''echo''" by code_simp
  then have warning: "''echo '' @ shell_quote ?notice = join '' '' (map shell_quote [''echo'', ?notice])" by simp
  have words: "shell_words (opencode_call executable m task) = Some [executable, ''run'', ''-m'', m, task]" for m
    unfolding call by (rule shell_words_quoted)
  have "shell_words (''echo '' @ shell_quote ?notice) = Some [''echo'', ?notice]"
    unfolding warning by (rule shell_words_quoted)
  with words show ?thesis
    by (intro exI [of _ "opencode_call executable model task"] exI [of _ "''echo '' @ shell_quote ?notice"]
          exI [of _ "opencode_call executable fallback task"] conjI) (simp_all only: opencode_script_def append.simps append_assoc)
qed

text \<open>
  C18: whatever the task text and the model name contain, the line the orchestrator types into a window
  is one simple command for the shell: it splits into exactly the words of the backend's argument
  vector, each without escape sequences and control characters and with line ends as spaces. Where one of
  the words is a script, the script with the fallback model, the three commands in it split into exactly
  their words in turn.
\<close>

theorem typed_command_words:
  assumes "launch_agent safety_mode a session window b task model = Inr (launched, Some (win, typed))"
  shows "shell_words typed = Some (map clean_text (launch_words b task
           (case model of Some (c # cs) \<Rightarrow> c # cs | _ \<Rightarrow> ln_default_model a)))
    \<and> (\<exists>first warning second. opencode_script executable fallback m task
           = first @ ''; rc=$?; if [ $rc -ne 0 ]; then '' @ warning @ '' >&2; '' @ second @ ''; fi''
         \<and> shell_words first = Some [executable, ''run'', ''-m'', m, task]
         \<and> shell_words warning = Some [''echo'',
             ''[fork-agent] primary model failed, retrying fallback model: '' @ fallback]
         \<and> shell_words second = Some [executable, ''run'', ''-m'', fallback, task])"
proof -
  let ?m = "case model of Some (c # cs) \<Rightarrow> c # cs | _ \<Rightarrow> ln_default_model a"
  have "send_keys safety_mode k e (launch_command b task ?m) = Inr (sent, Some t) \<Longrightarrow>
      t = clean_text (launch_command b task ?m)" for k e sent t
    using sanitize_command [OF launch_words_not_Nil, of b task ?m]
    by (auto simp: send_keys_def launch_command_join split: if_splits tmux_run.splits)
  then have "typed = clean_text (launch_command b task ?m)"
    using assms by (auto simp: launch_agent_def res_bind_Inr_iff split: if_splits)
  then show ?thesis
    by (intro conjI opencode_script_parts) (simp add: launch_command_join shell_words_clean)
qed

definition sample_answers :: launch_answers where
  "sample_answers = \<lparr>ln_windows = Exited 0 ''0:pi:1'', ln_keys = Exited 0 [], ln_enter = Exited 0 [],
     ln_default_model = ''m''\<rparr>"

lemma sample_answers_launch:
  "\<exists>typed. launch_agent False sample_answers ''s'' 0 Pi (''it's; rm -rf *'' @ [CHR 0x0A] @ ''done'') None
     = Inr (True, Some (0, typed))"
  by (intro exI [of _ "clean_text (launch_command Pi (''it's; rm -rf *'' @ [CHR 0x0A] @ ''done'') ''m'')"]) code_simp

theorem typed_command_words_witness:
  "\<exists>typed. launch_agent False sample_answers ''s'' 0 Pi (''it's; rm -rf *'' @ [CHR 0x0A] @ ''done'') None
       = Inr (True, Some (0, typed))
     \<and> shell_words typed = Some [''pi'', ''it's; rm -rf * done'']"
proof -
  let ?t = "''it's; rm -rf *'' @ [CHR 0x0A] @ ''done''"
  obtain typed where l: "launch_agent False sample_answers ''s'' 0 Pi ?t None = Inr (True, Some (0, typed))"
    using sample_answers_launch by blast
  have "map clean_text (launch_words Pi ?t (case None of Some (c # cs) \<Rightarrow> c # cs | _ \<Rightarrow> ln_default_model sample_answers))
      = [''pi'', ''it's; rm -rf * done'']" by code_simp
  with typed_command_words [OF l] l show ?thesis by auto
qed

text \<open>
  A text that was sanitised has no control character and no line end, does not begin or end with
  white space, is not empty, and is left as it is when it is sanitised again.
\<close>

theorem sanitized_text_is_safe:
  assumes "sanitize_tmux_text s = Inr t"
  shows "sanitize_tmux_text t = Inr t \<and> list_all harmless t \<and> t \<noteq> [] \<and> py_strip t = t"
proof -
  have t: "t = py_strip (clean_text s)" "t \<noteq> []"
    using assms by (auto simp: sanitize_clean split: if_splits)
  then have safe: "harmless c" if "c \<in> set t" for c
    using that set_py_strip [of "clean_text s"] clean_text_harmless by auto
  then have "clean_text t = t" by (rule clean_text_id)
  moreover have "py_strip t = t" using t(1) by simp
  ultimately show ?thesis using t(2) safe by (simp add: sanitize_clean list_all_iff)
qed

theorem sanitized_text_is_safe_witness:
  "sanitize_tmux_text (CHR 0x1B # ''[31mred'' @ [CHR 0x0A] @ ''text '') = Inr ''red text''
     \<and> sanitize_tmux_text ''red text'' = Inr ''red text''"
proof -
  have "sanitize_tmux_text (CHR 0x1B # ''[31mred'' @ [CHR 0x0A] @ ''text '') = Inr ''red text''" by code_simp
  from sanitized_text_is_safe [OF this] this show ?thesis by simp
qed

section \<open>git worktree list --porcelain\<close>

text \<open>The lines git prints for a worktree; \<open>detached\<close> stands for a missing branch.\<close>

definition porcelain :: "worktree \<Rightarrow> string list" where
  "porcelain wt = [''worktree '' @ the (wk_path wt), ''HEAD '' @ the (wk_head wt),
     (case wk_branch wt of None \<Rightarrow> ''detached'' | Some b \<Rightarrow> ''branch '' @ b), []]"

definition print_lines :: "string list \<Rightarrow> string" where
  "print_lines ls = concat (map (\<lambda>l. l @ [CHR 0x0A]) ls)"

text \<open>A value that fits on one line and does not end in white space.\<close>

definition one_line :: "string \<Rightarrow> bool" where
  "one_line s \<longleftrightarrow> s \<noteq> [] \<and> list_all (\<lambda>c. \<not> is_line_break c) s \<and> \<not> is_space (last s)"

definition printable :: "worktree \<Rightarrow> bool" where
  "printable wt \<longleftrightarrow> (\<exists>p h. wk_path wt = Some p \<and> wk_head wt = Some h \<and> one_line p \<and> one_line h)
     \<and> (case wk_branch wt of None \<Rightarrow> True | Some b \<Rightarrow> one_line b)"

lemma splitlines_from_line:
  "list_all (\<lambda>c. \<not> is_line_break c) l \<Longrightarrow>
     splitlines_from acc (l @ CHR 0x0A # s) = (rev acc @ l) # splitlines_from [] s"
proof (induction l arbitrary: acc)
  case Nil
  then show ?case by (cases s) (simp_all add: is_line_break_def)
next
  case (Cons c l)
  then have "c \<noteq> CHR 0x0D" by (auto simp: is_line_break_def)
  with Cons show ?case by (cases l) simp_all
qed

lemma splitlines_print:
  "(\<And>l. l \<in> set ls \<Longrightarrow> list_all (\<lambda>c. \<not> is_line_break c) l) \<Longrightarrow> py_splitlines (print_lines ls) = ls"
  unfolding py_splitlines_def print_lines_def
  by (induction ls) (simp_all add: splitlines_from_line)

lemma strip_keyword:
  "one_line s \<Longrightarrow> \<not> is_space c \<Longrightarrow> py_strip (c # k @ s) = c # k @ s"
  by (rule py_strip_id) (simp add: one_line_def)

lemma parse_porcelain:
  assumes "printable wt"
  shows "parse_worktrees no_worktree (porcelain wt @ ls) = wt # parse_worktrees no_worktree ls"
proof -
  from assms obtain p h where wt: "wk_path wt = Some p" "wk_head wt = Some h" "one_line p" "one_line h"
    by (auto simp: printable_def)
  have head: "\<not> is_space (CHR ''w'')" "\<not> is_space (CHR ''H'')" "\<not> is_space (CHR ''b'')"
    by (simp_all add: is_space_def)
  have strips: "py_strip (''worktree '' @ p) = ''worktree '' @ p" "py_strip (''HEAD '' @ h) = ''HEAD '' @ h"
    using strip_keyword [OF wt(3) head(1), of "''orktree ''"] strip_keyword [OF wt(4) head(2), of "''EAD ''"]
    by simp_all
  have rest: "after_first (CHR '' '') (''worktree '' @ p) = p" "after_first (CHR '' '') (''HEAD '' @ h) = h"
    using after_first_append [of "CHR '' ''" "''worktree''" p] after_first_append [of "CHR '' ''" "''HEAD''" h]
    by simp_all
  show ?thesis
  proof (cases "wk_branch wt")
    case None
    have "py_strip ''detached'' = ''detached''" "py_strip [] = []" by code_simp+
    with None wt strips rest show ?thesis
      by (cases wt) (simp add: porcelain_def no_worktree_def starts_with_def)
  next
    case (Some b)
    then have b: "one_line b" using assms by (simp add: printable_def)
    have "py_strip (''branch '' @ b) = ''branch '' @ b" using strip_keyword [OF b head(3), of "''ranch ''"] by simp
    moreover have "after_first (CHR '' '') (''branch '' @ b) = b"
      using after_first_append [of "CHR '' ''" "''branch''" b] by simp
    moreover have "py_strip [] = []" by code_simp
    ultimately show ?thesis using Some wt strips rest
      by (cases wt) (simp add: porcelain_def no_worktree_def starts_with_def)
  qed
qed

lemma porcelain_lines: "printable wt \<Longrightarrow> l \<in> set (porcelain wt) \<Longrightarrow> list_all (\<lambda>c. \<not> is_line_break c) l"
  by (auto simp: printable_def porcelain_def one_line_def is_line_break_def split: option.splits)

text \<open>
  The worktrees git lists are read back exactly: from the text git prints for any list of worktrees,
  with a branch or detached, whose paths, commits and branches fit on one line, the executor makes that
  list, whatever else is in the world.
\<close>

theorem worktree_list_roundtrip:
  assumes wts: "list_all printable wts"
    and git: "fst (git [''worktree'', ''list'', ''--porcelain''] None (gw_repo w))
        = \<lparr>gr_code = 0, gr_stdout = print_lines (concat (map porcelain wts)), gr_stderr = e, gr_timed_out = False\<rparr>"
  shows "fst (worktree_list git w) = Inr wts"
proof -
  have "parse_worktrees no_worktree (concat (map porcelain ws)) = ws" if "list_all printable ws" for ws
    using that by (induction ws) (simp_all add: parse_porcelain)
  moreover have "py_splitlines (print_lines (concat (map porcelain wts))) = concat (map porcelain wts)"
    using wts by (intro splitlines_print) (auto simp: list_all_iff [where P = printable] dest: porcelain_lines)
  ultimately show ?thesis
    using wts git by (cases "git [''worktree'', ''list'', ''--porcelain''] None (gw_repo w)")
      (simp add: worktree_list_def run_git_def git_call_def py_bind_def py_simps)
qed

theorem worktree_list_roundtrip_witness:
  "fst (worktree_list (\<lambda>args cwd r. (\<lparr>gr_code = 0, gr_stdout = r, gr_stderr = [], gr_timed_out = False\<rparr>, r))
     \<lparr>gw_repo = print_lines (concat (map porcelain
          [\<lparr>wk_path = Some ''/r'', wk_branch = Some ''refs/heads/main'', wk_head = Some ''c1''\<rparr>,
           \<lparr>wk_path = Some ''/r-a b'', wk_branch = None, wk_head = Some ''c2''\<rparr>])), gw_log = []\<rparr>)
   = Inr [\<lparr>wk_path = Some ''/r'', wk_branch = Some ''refs/heads/main'', wk_head = Some ''c1''\<rparr>,
          \<lparr>wk_path = Some ''/r-a b'', wk_branch = None, wk_head = Some ''c2''\<rparr>]"
proof (rule worktree_list_roundtrip [where e = "[]"])
  show "list_all printable [\<lparr>wk_path = Some ''/r'', wk_branch = Some ''refs/heads/main'', wk_head = Some ''c1''\<rparr>,
           \<lparr>wk_path = Some ''/r-a b'', wk_branch = None, wk_head = Some ''c2''\<rparr>]"
    by (simp add: printable_def one_line_def is_line_break_def is_space_def)
qed simp

end
