(* ===== verification/Rate_Limiter.thy ===== *)
theory Rate_Limiter
  imports Complex_Main Prelude
begin

text \<open>
  The two sliding-window rate limiters: the one of the memory hook
  (src/application/services/messaging/rate_limiter.py) and the one of the HTTP API
  (src/interfaces/api/middleware/rate_limit.py, whose methods run under a lock). Clock readings are
  rationals, in seconds.
\<close>

section \<open>The memory hook's limiter\<close>

record rate_limiter =
  rl_max_requests :: int
  rl_window :: rat
  rl_entries :: "string \<Rightarrow> rat list option"

definition new_limiter :: "int \<Rightarrow> rat \<Rightarrow> rate_limiter" where
  "new_limiter n w = \<lparr>rl_max_requests = n, rl_window = w, rl_entries = (\<lambda>_. None)\<rparr>"

definition entry_of :: "rate_limiter \<Rightarrow> string \<Rightarrow> rat list" where
  "entry_of l k = (case rl_entries l k of None \<Rightarrow> [] | Some ts \<Rightarrow> ts)"

definition limiter_allows :: "rat \<Rightarrow> string \<Rightarrow> rate_limiter \<Rightarrow> bool \<times> rate_limiter" where
  "limiter_allows now k l =
     (let ts = filter (\<lambda>t. t > now - rl_window l) (entry_of l k)
      in if int (length ts) \<ge> rl_max_requests l
         then (False, l\<lparr>rl_entries := (rl_entries l)(k \<mapsto> ts)\<rparr>)
         else (True, l\<lparr>rl_entries := (rl_entries l)(k \<mapsto> ts @ [now])\<rparr>))"

definition limiter_reset :: "string option \<Rightarrow> rate_limiter \<Rightarrow> rate_limiter" where
  "limiter_reset k l =
     l\<lparr>rl_entries := (case k of None \<Rightarrow> (\<lambda>_. None) | Some i \<Rightarrow> (rl_entries l)(i := None))\<rparr>"

definition limiter_remaining :: "rat \<Rightarrow> string \<Rightarrow> rate_limiter \<Rightarrow> int" where
  "limiter_remaining now k l =
     (case rl_entries l k of
        None \<Rightarrow> rl_max_requests l
      | Some ts \<Rightarrow> max 0 (rl_max_requests l - int (length (filter (\<lambda>t. t > now - rl_window l) ts))))"

section \<open>The API's limiter\<close>

record api_entry =
  ae_requests :: "rat list"
  ae_blocked_until :: rat

record api_limiter =
  ap_per_minute :: int
  ap_window :: rat
  ap_clients :: "string \<Rightarrow> api_entry option"

definition new_api_limiter :: "int \<Rightarrow> api_limiter" where
  "new_api_limiter n = \<lparr>ap_per_minute = n, ap_window = 60, ap_clients = (\<lambda>_. None)\<rparr>"

definition client_entry :: "api_limiter \<Rightarrow> string \<Rightarrow> api_entry" where
  "client_entry l c =
     (case ap_clients l c of None \<Rightarrow> \<lparr>ae_requests = [], ae_blocked_until = 0\<rparr> | Some e \<Rightarrow> e)"

text \<open>The answer: allowed, remaining requests, seconds until a retry.\<close>

definition api_allows :: "rat \<Rightarrow> string \<Rightarrow> api_limiter \<Rightarrow> (bool \<times> int \<times> int) \<times> api_limiter" where
  "api_allows now c l =
     (let e = client_entry l c;
          keep = (\<lambda>x. l\<lparr>ap_clients := (ap_clients l)(c \<mapsto> x)\<rparr>)
      in if now < ae_blocked_until e then ((False, 0, \<lfloor>ae_blocked_until e - now\<rfloor>), keep e)
         else (let recent = filter (\<lambda>t. now - t < ap_window l) (ae_requests e)
               in if int (length recent) \<ge> ap_per_minute l
                  then ((False, 0, \<lfloor>ap_window l\<rfloor>),
                        keep \<lparr>ae_requests = recent, ae_blocked_until = now + ap_window l\<rparr>)
                  else ((True, ap_per_minute l - int (length (recent @ [now])), 0),
                        keep (e\<lparr>ae_requests := recent @ [now]\<rparr>))))"

definition entry_is_old :: "rat \<Rightarrow> rat \<Rightarrow> api_entry \<Rightarrow> bool" where
  "entry_is_old now max_age e \<longleftrightarrow>
     (case ae_requests e of
        [] \<Rightarrow> now - ae_blocked_until e > max_age
      | t # ts \<Rightarrow> now - fold max ts t > max_age)"

definition cleanup_old_entries :: "rat \<Rightarrow> rat \<Rightarrow> api_limiter \<Rightarrow> api_limiter" where
  "cleanup_old_entries now max_age l =
     l\<lparr>ap_clients := (\<lambda>c. case ap_clients l c of
         None \<Rightarrow> None | Some e \<Rightarrow> if entry_is_old now max_age e then None else Some e)\<rparr>"

section \<open>Sliding windows\<close>

definition window :: "rat \<Rightarrow> rat \<Rightarrow> rat list \<Rightarrow> rat list" where
  "window w t gs = filter (\<lambda>g. t - w < g \<and> g \<le> t) gs"

text \<open>
  The contract of both limiters: what is kept of a client agrees with its grants inside the current
  window, so that a grant never fills a window beyond the limit.
\<close>

definition tracks :: "rat \<Rightarrow> rat \<Rightarrow> rat list \<Rightarrow> rat list \<Rightarrow> bool" where
  "tracks w prev ts gs \<longleftrightarrow> filter (\<lambda>t. prev - w < t) ts = filter (\<lambda>t. prev - w < t) gs
     \<and> (\<forall>g \<in> set gs. g \<le> prev)"

definition bounded :: "rat \<Rightarrow> int \<Rightarrow> rat list \<Rightarrow> bool" where
  "bounded w n gs \<longleftrightarrow> (\<forall>t. int (length (window w t gs)) \<le> n)"

lemma tracks_later:
  assumes "tracks w prev ts gs" "prev \<le> now"
  shows "filter (\<lambda>t. now - w < t) ts = filter (\<lambda>t. now - w < t) gs"
proof -
  have "filter (\<lambda>t. now - w < t) xs = filter (\<lambda>t. now - w < t) (filter (\<lambda>t. prev - w < t) xs)" for xs
    using assms(2) by (auto intro!: filter_cong)
  with assms(1) show ?thesis unfolding tracks_def by metis
qed

lemma tracks_refuse:
  assumes "tracks w prev ts gs" "prev \<le> now"
  shows "tracks w now (filter (\<lambda>t. now - w < t) ts) gs"
  using tracks_later [OF assms] assms by (auto simp: tracks_def)

lemma tracks_grant:
  assumes "tracks w prev ts gs" "prev \<le> now" "0 < w"
  shows "tracks w now (filter (\<lambda>t. now - w < t) ts @ [now]) (gs @ [now])"
  using tracks_later [OF assms(1,2)] assms by (auto simp: tracks_def)

lemma window_mono_length:
  assumes "\<forall>g \<in> set gs. g \<le> now" "now \<le> t"
  shows "length (window w t gs) \<le> length (filter (\<lambda>g. now - w < g) gs)"
  using assms by (induction gs) (auto simp: window_def)

lemma bounded_grant:
  assumes b: "bounded w n gs" and t: "tracks w prev ts gs" "prev \<le> now"
    and room: "int (length (filter (\<lambda>t. now - w < t) ts)) < n"
  shows "bounded w n (gs @ [now])"
  unfolding bounded_def
proof
  fix t
  have le: "\<forall>g \<in> set (gs @ [now]). g \<le> now" using t by (auto simp: tracks_def)
  show "int (length (window w t (gs @ [now]))) \<le> n"
  proof (cases "now \<le> t")
    case True
    have "length (filter (\<lambda>g. now - w < g) (gs @ [now])) \<le> length (filter (\<lambda>t. now - w < t) ts) + 1"
      using tracks_later [OF t] by simp
    with window_mono_length [OF le True, of w] room show ?thesis by linarith
  next
    case False
    then have "window w t (gs @ [now]) = window w t gs" by (simp add: window_def)
    with b show ?thesis by (simp add: bounded_def)
  qed
qed

lemma bounded_Nil: "0 \<le> n \<Longrightarrow> bounded w n []"
  by (simp add: bounded_def window_def)

section \<open>Runs of a limiter\<close>

text \<open>Calls with their times and keys; the grants of one key, in order.\<close>

fun limiter_grants :: "string \<Rightarrow> (rat \<times> string) list \<Rightarrow> rate_limiter \<Rightarrow> rat list" where
  "limiter_grants k [] l = []"
| "limiter_grants k ((now, i) # cs) l =
     (let (ok, l') = limiter_allows now i l
      in (if ok \<and> i = k then [now] else []) @ limiter_grants k cs l')"

fun api_grants :: "string \<Rightarrow> (rat \<times> string) list \<Rightarrow> api_limiter \<Rightarrow> rat list" where
  "api_grants c [] l = []"
| "api_grants c ((now, i) # cs) l =
     (let ((ok, rest), l') = api_allows now i l
      in (if ok \<and> i = c then [now] else []) @ api_grants c cs l')"

lemma limiter_allows_fields [simp]:
  "rl_max_requests (snd (limiter_allows now i l)) = rl_max_requests l"
  "rl_window (snd (limiter_allows now i l)) = rl_window l"
  "i \<noteq> k \<Longrightarrow> entry_of (snd (limiter_allows now i l)) k = entry_of l k"
  by (simp_all add: limiter_allows_def Let_def entry_of_def)

lemma limiter_grants_bounded:
  assumes "tracks (rl_window l) prev (entry_of l k) gs" "bounded (rl_window l) (rl_max_requests l) gs"
    "sorted (prev # map fst cs)" "0 < rl_window l"
  shows "bounded (rl_window l) (rl_max_requests l) (gs @ limiter_grants k cs l)"
  using assms
proof (induction cs arbitrary: l prev gs)
  case (Cons c cs)
  obtain now i where c: "c = (now, i)" by (cases c)
  let ?l = "snd (limiter_allows now i l)"
  have le: "prev \<le> now" "sorted (now # map fst cs)" "sorted (prev # map fst cs)"
    using Cons.prems(3) c by auto
  show ?case
  proof (cases "i = k")
    case False
    have "bounded (rl_window ?l) (rl_max_requests ?l) (gs @ limiter_grants k cs ?l)"
      by (rule Cons.IH [where prev = prev]) (use Cons.prems le False in simp_all)
    then show ?thesis using c False by (simp add: Let_def case_prod_unfold)
  next
    case True
    let ?ts = "filter (\<lambda>t. t > now - rl_window l) (entry_of l k)"
    show ?thesis
    proof (cases "int (length ?ts) \<ge> rl_max_requests l")
      case full: True
      have run: "limiter_allows now i l = (False, l\<lparr>rl_entries := (rl_entries l)(k \<mapsto> ?ts)\<rparr>)"
        using full True by (simp add: limiter_allows_def Let_def)
      have "bounded (rl_window ?l) (rl_max_requests ?l) (gs @ limiter_grants k cs ?l)"
        by (rule Cons.IH [where prev = now])
          (use tracks_refuse [OF Cons.prems(1) le(1)] Cons.prems le True run in \<open>simp_all add: entry_of_def\<close>)
      then show ?thesis using c run by simp
    next
      case room: False
      have run: "limiter_allows now i l = (True, l\<lparr>rl_entries := (rl_entries l)(k \<mapsto> ?ts @ [now])\<rparr>)"
        using room True by (simp add: limiter_allows_def Let_def)
      have b: "bounded (rl_window l) (rl_max_requests l) (gs @ [now])"
        by (rule bounded_grant [OF Cons.prems(2,1) le(1)]) (use room in simp)
      have "bounded (rl_window ?l) (rl_max_requests ?l) ((gs @ [now]) @ limiter_grants k cs ?l)"
        by (rule Cons.IH [where prev = now])
          (use tracks_grant [OF Cons.prems(1) le(1) Cons.prems(4)] b Cons.prems le True run
            in \<open>simp_all add: entry_of_def\<close>)
      then show ?thesis using c run True by simp
    qed
  qed
qed simp

lemma api_allows_fields [simp]:
  "ap_per_minute (snd (api_allows now i l)) = ap_per_minute l"
  "ap_window (snd (api_allows now i l)) = ap_window l"
  "i \<noteq> c \<Longrightarrow> client_entry (snd (api_allows now i l)) c = client_entry l c"
  by (simp_all add: api_allows_def Let_def client_entry_def)

lemma recent_filter: "filter (\<lambda>t. now - t < w) ts = filter (\<lambda>t. now - w < (t::rat)) ts"
  by (rule filter_cong) auto

lemma api_grants_bounded:
  assumes "tracks (ap_window l) prev (ae_requests (client_entry l c)) gs" "bounded (ap_window l) (ap_per_minute l) gs"
    "sorted (prev # map fst cs)" "0 < ap_window l"
  shows "bounded (ap_window l) (ap_per_minute l) (gs @ api_grants c cs l)"
  using assms
proof (induction cs arbitrary: l prev gs)
  case (Cons x cs)
  obtain now i where x: "x = (now, i)" by (cases x)
  let ?l = "snd (api_allows now i l)"
  let ?e = "client_entry l c"
  have le: "prev \<le> now" "sorted (now # map fst cs)" "sorted (prev # map fst cs)"
    using Cons.prems(3) x by auto
  show ?case
  proof (cases "i = c \<and> \<not> now < ae_blocked_until ?e")
    case False
    have same: "ae_requests (client_entry ?l c) = ae_requests ?e"
      using False by (cases "i = c") (auto simp: api_allows_def Let_def client_entry_def split: option.splits)
    have quiet: "api_grants c (x # cs) l = api_grants c cs ?l"
      using False x by (auto simp: api_allows_def Let_def case_prod_unfold)
    have "bounded (ap_window ?l) (ap_per_minute ?l) (gs @ api_grants c cs ?l)"
      by (rule Cons.IH [where prev = prev]) (use Cons.prems le same in simp_all)
    then show ?thesis unfolding quiet by simp
  next
    case True
    let ?ts = "filter (\<lambda>t. now - ap_window l < t) (ae_requests ?e)"
    show ?thesis
    proof (cases "int (length ?ts) \<ge> ap_per_minute l")
      case full: True
      have run: "api_allows now i l = ((False, 0, \<lfloor>ap_window l\<rfloor>), l\<lparr>ap_clients := (ap_clients l)(c \<mapsto>
          \<lparr>ae_requests = ?ts, ae_blocked_until = now + ap_window l\<rparr>)\<rparr>)"
        using full True by (simp add: api_allows_def Let_def recent_filter)
      have "bounded (ap_window ?l) (ap_per_minute ?l) (gs @ api_grants c cs ?l)"
        by (rule Cons.IH [where prev = now])
          (use tracks_refuse [OF Cons.prems(1) le(1)] Cons.prems le run in \<open>simp_all add: client_entry_def\<close>)
      then show ?thesis using x run by simp
    next
      case room: False
      have run: "api_allows now i l = ((True, ap_per_minute l - int (length (?ts @ [now])), 0),
          l\<lparr>ap_clients := (ap_clients l)(c \<mapsto> ?e\<lparr>ae_requests := ?ts @ [now]\<rparr>)\<rparr>)"
        using room True by (simp add: api_allows_def Let_def recent_filter)
      have b: "bounded (ap_window l) (ap_per_minute l) (gs @ [now])"
        by (rule bounded_grant [OF Cons.prems(2,1) le(1)]) (use room in simp)
      have "bounded (ap_window ?l) (ap_per_minute ?l) ((gs @ [now]) @ api_grants c cs ?l)"
        by (rule Cons.IH [where prev = now])
          (use tracks_grant [OF Cons.prems(1) le(1) Cons.prems(4)] b Cons.prems le run
            in \<open>simp_all add: client_entry_def\<close>)
      then show ?thesis using x run True by simp
    qed
  qed
qed simp

lemma tracks_Nil: "tracks w prev [] []"
  by (simp add: tracks_def)

end
