(* ===== verification/Retry.thy ===== *)
theory Retry
  imports Complex_Main Prelude
begin

text \<open>
  Retries with exponential backoff (src/infrastructure/tmux_orchestrator/retry.py). The function that is
  retried is given by the outcome of its calls, the first one being call 0; the model returns what
  the caller gets, a result or an exception, with the delays slept, in seconds. Delays are finite and exact: the
  rounding of doubles is left out, their overflow is not.
\<close>

record retry_config =
  rt_max_retries :: int
  rt_base_delay :: rat
  rt_max_delay :: rat
  rt_exponential_base :: rat

definition default_retry :: retry_config where
  "default_retry = \<lparr>rt_max_retries = 3, rt_base_delay = 1, rt_max_delay = 10, rt_exponential_base = 2\<rparr>"

record 'a retry_result =
  rr_success :: bool
  rr_result :: "'a option"
  rr_error :: "string option"
  rr_attempts :: int

text \<open>
  \<open>**\<close> on doubles raises once the result rounds past the largest of them. A product that is too large is
  infinite instead, which \<open>min\<close> with a finite maximum does not tell from the exact one.
\<close>

definition float_limit :: rat where
  "float_limit = 2 ^ 1024 - 2 ^ 970"

definition float_pow :: "rat \<Rightarrow> nat \<Rightarrow> rat result" where
  "float_pow b n =
     (if float_limit \<le> \<bar>b ^ n\<bar> then Inl (OverflowError ''Numerical result out of range'') else Inr (b ^ n))"

definition get_delay :: "retry_config \<Rightarrow> nat \<Rightarrow> rat result" where
  "get_delay c attempt =
     res_bind (float_pow (rt_exponential_base c) attempt) (\<lambda>p.
     Inr (min (rt_base_delay c * p) (rt_max_delay c)))"

text \<open>
  \<open>time.sleep\<close> counts nanoseconds in a signed 64 bit number and refuses a negative one;
  \<open>asyncio.sleep\<close> takes any number, a negative one as no delay.
\<close>

definition time_sleep :: "rat \<Rightarrow> unit result" where
  "time_sleep d =
     (if d * 10 ^ 9 < - (2 ^ 63) \<or> 2 ^ 63 \<le> d * 10 ^ 9
      then Inl (OverflowError ''timestamp out of range for platform time_t'')
      else if d < 0 then Inl (ValueError ''sleep length must be non-negative'') else Inr ())"

definition asyncio_sleep :: "rat \<Rightarrow> unit result" where
  "asyncio_sleep d = Inr ()"

text \<open>The wait after attempt \<open>i\<close>: the delay is computed and slept inside the handler, so what it raises escapes.\<close>

definition retry_pause :: "(rat \<Rightarrow> unit result) \<Rightarrow> retry_config \<Rightarrow> nat \<Rightarrow> rat result" where
  "retry_pause sleep c i = res_bind (get_delay c i) (\<lambda>d. res_bind (sleep d) (\<lambda>_. Inr d))"

fun retry_loop ::
  "(rat \<Rightarrow> unit result) \<Rightarrow> retry_config \<Rightarrow> (nat \<Rightarrow> 'a result) \<Rightarrow> nat list \<Rightarrow> exc option
     \<Rightarrow> 'a retry_result result \<times> rat list" where
  "retry_loop sleep c f [] err =
     (Inr \<lparr>rr_success = False, rr_result = None,
       rr_error = Some (case err of None \<Rightarrow> ''Unknown error'' | Some e \<Rightarrow> exc_message e),
       rr_attempts = rt_max_retries c + 1\<rparr>, [])"
| "retry_loop sleep c f (i # is) err =
     (case f i of
        Inr r \<Rightarrow>
          (Inr \<lparr>rr_success = True, rr_result = Some r, rr_error = None, rr_attempts = int i + 1\<rparr>, [])
      | Inl e \<Rightarrow>
          (if int i < rt_max_retries c
           then (case retry_pause sleep c i of
                   Inl x \<Rightarrow> (Inl x, [])
                 | Inr d \<Rightarrow> (let (r, delays) = retry_loop sleep c f is (Some e) in (r, d # delays)))
           else retry_loop sleep c f is (Some e)))"

definition retry_sync ::
  "retry_config option \<Rightarrow> (nat \<Rightarrow> 'a result) \<Rightarrow> 'a retry_result result \<times> rat list" where
  "retry_sync c f =
     (let c' = (case c of None \<Rightarrow> default_retry | Some x \<Rightarrow> x)
      in retry_loop time_sleep c' f [0 ..< nat (rt_max_retries c' + 1)] None)"

text \<open>The asynchronous version awaits the calls and sleeps with asyncio; its loop is the same.\<close>

definition retry_with_backoff ::
  "retry_config option \<Rightarrow> (nat \<Rightarrow> 'a result) \<Rightarrow> 'a retry_result result \<times> rat list" where
  "retry_with_backoff c f =
     (let c' = (case c of None \<Rightarrow> default_retry | Some x \<Rightarrow> x)
      in retry_loop asyncio_sleep c' f [0 ..< nat (rt_max_retries c' + 1)] None)"

section \<open>The loop\<close>

text \<open>An attempt at which the loop goes on: it fails, is not the last, and the pause behind it returns.\<close>

definition goes_on :: "(rat \<Rightarrow> unit result) \<Rightarrow> retry_config \<Rightarrow> (nat \<Rightarrow> 'a result) \<Rightarrow> nat \<Rightarrow> bool" where
  "goes_on sleep c f i \<longleftrightarrow> isl (f i) \<and> int i < rt_max_retries c \<and> \<not> isl (retry_pause sleep c i)"

lemma retry_pause_delay: "retry_pause sleep c i = Inr d \<Longrightarrow> get_delay c i = Inr d"
  by (auto simp: retry_pause_def res_bind_Inr_iff)

lemma retry_loop_step:
  "goes_on sleep c f i \<Longrightarrow>
     retry_loop sleep c f (i # is) err = (let (r, ds) = retry_loop sleep c f is (Some (projl (f i)))
       in (r, projr (get_delay c i) # ds))"
  by (cases "f i"; cases "retry_pause sleep c i")
     (auto simp: goes_on_def retry_pause_delay split: prod.splits)

text \<open>Attempts at which the loop goes on only add their delays.\<close>

lemma retry_loop_skip:
  assumes "\<forall>i \<in> set is. goes_on sleep c f i" and "js \<noteq> []"
  shows "\<exists>err'. retry_loop sleep c f (is @ js) err
    = (fst (retry_loop sleep c f js err'), map (projr \<circ> get_delay c) is @ snd (retry_loop sleep c f js err'))"
  using assms(1)
proof (induction "is" arbitrary: err)
  case (Cons i "is")
  have "\<forall>i \<in> set is. goes_on sleep c f i" using Cons.prems by simp
  from Cons.IH [OF this, of "Some (projl (f i))"] obtain err' where
    "retry_loop sleep c f (is @ js) (Some (projl (f i)))
      = (fst (retry_loop sleep c f js err'), map (projr \<circ> get_delay c) is @ snd (retry_loop sleep c f js err'))"
    by blast
  with Cons.prems show ?case
    by (intro exI [of _ err']) (simp add: retry_loop_step del: retry_loop.simps(2))
qed auto

lemma upt_split: "k < n \<Longrightarrow> [0 ..< n] = [0 ..< k] @ k # [Suc k ..< n]"
  using upt_add_eq_append [of 0 k "n - k"] by (simp add: upt_conv_Cons)

text \<open>What the attempt makes of the call at which the loop stops.\<close>

definition retry_answer ::
  "(rat \<Rightarrow> unit result) \<Rightarrow> retry_config \<Rightarrow> (nat \<Rightarrow> 'a result) \<Rightarrow> nat \<Rightarrow> 'a retry_result result" where
  "retry_answer sleep c f k =
     (case f k of
        Inr r \<Rightarrow> Inr \<lparr>rr_success = True, rr_result = Some r, rr_error = None, rr_attempts = int k + 1\<rparr>
      | Inl e \<Rightarrow>
          (if int k < rt_max_retries c then Inl (projl (retry_pause sleep c k))
           else Inr \<lparr>rr_success = False, rr_result = None, rr_error = Some (exc_message e),
                     rr_attempts = int k + 1\<rparr>))"

lemma retry_loop_stops:
  assumes "\<forall>i < k. goes_on sleep c f i" "\<not> goes_on sleep c f k" "int k \<le> rt_max_retries c"
  shows "retry_loop sleep c f [0 ..< nat (rt_max_retries c + 1)] None
    = (retry_answer sleep c f k, map (projr \<circ> get_delay c) [0 ..< k])"
proof -
  let ?js = "k # [Suc k ..< nat (rt_max_retries c + 1)]"
  have u: "[0 ..< nat (rt_max_retries c + 1)] = [0 ..< k] @ ?js"
    by (rule upt_split) (use assms(3) in linarith)
  have stop: "retry_loop sleep c f ?js err = (retry_answer sleep c f k, [])" for err
  proof (cases "int k < rt_max_retries c")
    case True
    with assms(2) show ?thesis
      by (cases "f k"; cases "retry_pause sleep c k") (simp_all add: goes_on_def retry_answer_def)
  next
    case False
    with assms(3) have n: "rt_max_retries c = int k" by simp
    then have "nat (rt_max_retries c + 1) = Suc k" by simp
    then have "[Suc k ..< nat (rt_max_retries c + 1)] = []" by simp
    with n show ?thesis by (cases "f k") (simp_all add: retry_answer_def)
  qed
  obtain err where "retry_loop sleep c f ([0 ..< k] @ ?js) None
      = (fst (retry_loop sleep c f ?js err), map (projr \<circ> get_delay c) [0 ..< k] @ snd (retry_loop sleep c f ?js err))"
    using retry_loop_skip [of "[0 ..< k]" sleep c f ?js None] assms(1) by auto
  then show ?thesis unfolding u stop by simp
qed

text \<open>There is such an attempt, at the latest the last one.\<close>

lemma retry_stop_exists:
  assumes "rt_max_retries c = int n"
  obtains k where "k \<le> n" "\<forall>i < k. goes_on sleep c f i" "\<not> goes_on sleep c f k"
proof -
  have "\<not> goes_on sleep c f n" using assms by (simp add: goes_on_def)
  from exists_least_iff [of "\<lambda>k. \<not> goes_on sleep c f k"] this obtain k where
    k: "\<not> goes_on sleep c f k" "\<forall>i < k. goes_on sleep c f i" by auto
  moreover from this(2) \<open>\<not> goes_on sleep c f n\<close> have "k \<le> n" using not_le_imp_less by blast
  ultimately show thesis using that by blast
qed

section \<open>Configurations for which nothing escapes\<close>

definition sane_retry :: "retry_config \<Rightarrow> bool" where
  "sane_retry c \<longleftrightarrow> 0 \<le> rt_base_delay c \<and> 0 \<le> rt_exponential_base c \<and> 0 \<le> rt_max_delay c
     \<and> rt_max_delay c * 10 ^ 9 < 2 ^ 63
     \<and> (\<forall>i < nat (rt_max_retries c). rt_exponential_base c ^ i < float_limit)"

lemma get_delay_le: "get_delay c i = Inr d \<Longrightarrow> d \<le> rt_max_delay c"
  by (auto simp: get_delay_def res_bind_Inr_iff)

lemma sane_pause:
  assumes "sane_retry c" "int i < rt_max_retries c"
  shows "\<exists>d. get_delay c i = Inr d \<and> 0 \<le> d \<and> retry_pause time_sleep c i = Inr d"
proof -
  let ?d = "min (rt_base_delay c * rt_exponential_base c ^ i) (rt_max_delay c)"
  have p: "0 \<le> rt_exponential_base c ^ i" "rt_exponential_base c ^ i < float_limit"
    using assms by (simp_all add: sane_retry_def)
  then have d: "get_delay c i = Inr ?d" by (simp add: get_delay_def float_pow_def)
  have ge: "0 \<le> ?d" using assms(1) p(1) by (simp add: sane_retry_def)
  have "?d * 10 ^ 9 \<le> rt_max_delay c * 10 ^ 9" by (intro mult_right_mono) simp_all
  also have "\<dots> < 2 ^ 63" using assms(1) unfolding sane_retry_def by blast
  finally have top: "?d * 10 ^ 9 < 2 ^ 63" .
  have "(0::rat) \<le> ?d * 10 ^ 9" using ge by (intro mult_nonneg_nonneg) simp_all
  then have bottom: "\<not> ?d * 10 ^ 9 < - (2 ^ 63)" by (rule order_trans [THEN leD, rotated]) simp
  from top bottom ge have "time_sleep ?d = Inr ()" unfolding time_sleep_def by (meson linorder_not_less)
  with d ge show ?thesis by (intro exI [of _ ?d]) (simp add: retry_pause_def)
qed

end
