(* ===== verification/Dead_Letters.thy ===== *)
theory Dead_Letters
  imports Json
begin

text \<open>
  The dead letter queue (src/infrastructure/tmux_orchestrator/dead_letter_queue.py): a bounded FIFO queue
  that can be written to a JSON file and read back. The fields of an item are JSON values, as \<open>load\<close>
  checks no types. The state is the queue and the file it is persisted to.
\<close>

record dead_letter =
  dl_timestamp :: json
  dl_session :: json
  dl_window :: json
  dl_message :: json
  dl_error :: json
  dl_attempts :: json

record dead_letter_queue =
  dq_items :: "dead_letter list"
  dq_max_size :: int
  dq_path :: bool
  dq_file :: state_file

text \<open>\<open>queue.Queue(maxsize)\<close> is unbounded when \<open>maxsize\<close> is not positive.\<close>

definition queue_full :: "dead_letter_queue \<Rightarrow> bool" where
  "queue_full q \<longleftrightarrow> 0 < dq_max_size q \<and> dq_max_size q \<le> int (length (dq_items q))"

text \<open>\<open>put_nowait\<close>: \<open>False\<close> stands for \<open>queue.Full\<close>.\<close>

definition put_nowait :: "dead_letter \<Rightarrow> dead_letter_queue \<Rightarrow> bool \<times> dead_letter_queue" where
  "put_nowait x q =
     (if queue_full q then (False, q) else (True, q\<lparr>dq_items := dq_items q @ [x]\<rparr>))"

definition dlq_add ::
  "json \<Rightarrow> json \<Rightarrow> json \<Rightarrow> json \<Rightarrow> json \<Rightarrow> json \<Rightarrow> dead_letter_queue \<Rightarrow> dead_letter_queue" where
  "dlq_add now session window message error attempts q =
     snd (put_nowait \<lparr>dl_timestamp = now, dl_session = session, dl_window = window,
            dl_message = message, dl_error = error, dl_attempts = attempts\<rparr> q)"

text \<open>\<open>get\<close> gives up after its timeout when the queue stays empty.\<close>

definition dlq_get :: "dead_letter_queue \<Rightarrow> dead_letter option \<times> dead_letter_queue" where
  "dlq_get q = (case dq_items q of [] \<Rightarrow> (None, q) | x # xs \<Rightarrow> (Some x, q\<lparr>dq_items := xs\<rparr>))"

definition dlq_size :: "dead_letter_queue \<Rightarrow> nat" where
  "dlq_size q = length (dq_items q)"

definition dlq_is_empty :: "dead_letter_queue \<Rightarrow> bool" where
  "dlq_is_empty q \<longleftrightarrow> dq_items q = []"

text \<open>\<open>get_all\<close> takes the items out of the queue.\<close>

definition dlq_get_all :: "dead_letter_queue \<Rightarrow> dead_letter list \<times> dead_letter_queue" where
  "dlq_get_all q = (dq_items q, q\<lparr>dq_items := []\<rparr>)"

definition dlq_requeue :: "dead_letter \<Rightarrow> dead_letter_queue \<Rightarrow> dead_letter_queue" where
  "dlq_requeue x q = snd (put_nowait x q)"

section \<open>The file\<close>

definition letter_to_json :: "dead_letter \<Rightarrow> json" where
  "letter_to_json x = JObject
     [(''timestamp'', dl_timestamp x), (''session'', dl_session x), (''window'', dl_window x),
      (''message'', dl_message x), (''error'', dl_error x), (''attempts'', dl_attempts x)]"

definition letter_from_json :: "json \<Rightarrow> dead_letter result" where
  "letter_from_json d =
     res_bind (json_item d ''timestamp'') (\<lambda>t.
     res_bind (json_item d ''session'') (\<lambda>s.
     res_bind (json_item d ''window'') (\<lambda>w.
     res_bind (json_item d ''message'') (\<lambda>m.
     res_bind (json_item d ''error'') (\<lambda>e.
     res_bind (json_item d ''attempts'') (\<lambda>a.
       Inr \<lparr>dl_timestamp = t, dl_session = s, dl_window = w, dl_message = m, dl_error = e,
            dl_attempts = a\<rparr>))))))"

text \<open>The file is truncated when it is opened, so a failure while dumping leaves a broken one.\<close>

datatype dump_outcome = Dumped | NotOpened string | CutShort string

definition dlq_persist :: "dump_outcome \<Rightarrow> (dead_letter_queue, unit) py" where
  "dlq_persist out q =
     (if \<not> dq_path q then (Inr (), q)
      else (let (items, q') = dlq_get_all q
            in case out of
                 Dumped \<Rightarrow> (Inr (), q'\<lparr>dq_file := Holds (JArray (map letter_to_json items))\<rparr>)
               | NotOpened m \<Rightarrow> (Inl (OSError m), q')
               | CutShort m \<Rightarrow> (Inl (OSError m), q'\<lparr>dq_file := Malformed\<rparr>)))"

fun load_letters :: "json list \<Rightarrow> nat \<Rightarrow> (dead_letter_queue, nat) py" where
  "load_letters [] n q = (Inr n, q)"
| "load_letters (d # ds) n q =
     (case letter_from_json d of
        Inl e \<Rightarrow> (Inl e, q)
      | Inr x \<Rightarrow> (let (ok, q') = put_nowait x q in if ok then load_letters ds (n + 1) q' else (Inr n, q')))"

definition dlq_load :: "(dead_letter_queue, nat) py" where
  "dlq_load q =
     (if \<not> dq_path q then (Inr 0, q)
      else (case dq_file q of
          Absent \<Rightarrow> (Inr 0, q)
        | Malformed \<Rightarrow> (Inl (ValueError ''Expecting value''), q)
        | Holds d \<Rightarrow> (case json_iter d of Inl e \<Rightarrow> (Inl e, q) | Inr ds \<Rightarrow> load_letters ds 0 q)))"

section \<open>Properties of the queue\<close>

definition dlq_ok :: "dead_letter_queue \<Rightarrow> bool" where
  "dlq_ok q \<longleftrightarrow> dq_max_size q \<le> 0 \<or> int (length (dq_items q)) \<le> dq_max_size q"

lemma put_nowait_ok: "dlq_ok q \<Longrightarrow> dlq_ok (snd (put_nowait x q))"
  by (auto simp: put_nowait_def queue_full_def dlq_ok_def)

lemma letter_roundtrip [simp]: "letter_from_json (letter_to_json x) = Inr x"
  by (simp add: letter_from_json_def letter_to_json_def)

lemma load_letters_map:
  assumes "dq_max_size q \<le> 0 \<or> int (length (dq_items q) + length xs) \<le> dq_max_size q"
  shows "load_letters (map letter_to_json xs) n q
    = (Inr (n + length xs), q\<lparr>dq_items := dq_items q @ xs\<rparr>)"
  using assms
proof (induction xs arbitrary: n q)
  case (Cons x xs)
  have free: "\<not> queue_full q" using Cons.prems by (auto simp: queue_full_def)
  then show ?case using Cons.IH [of "q\<lparr>dq_items := dq_items q @ [x]\<rparr>" "n + 1"] Cons.prems
    by (simp add: put_nowait_def)
qed simp

lemma persist_load:
  assumes "dlq_ok q" "dq_path q"
  shows "\<exists>q'. dlq_persist Dumped q = (Inr (), q') \<and> dq_items q' = []
    \<and> dlq_load q' = (Inr (length (dq_items q)), q'\<lparr>dq_items := dq_items q\<rparr>)"
  using assms load_letters_map [of "q\<lparr>dq_items := [], dq_file := Holds (JArray (map letter_to_json (dq_items q)))\<rparr>"
      "dq_items q" 0]
  by (auto simp: dlq_persist_def dlq_get_all_def dlq_load_def dlq_ok_def)

end
