(* ===== verification/Promise_Contract.thy ===== *)
theory Promise_Contract
  imports Json Lifecycle Sql_Table "HOL-Library.List_Lexorder" "HOL-Library.Char_ord"
begin

text \<open>
  Promise contracts: the entity with its evidence and its transition table
  (src/domain/entities/promise_contract.py) and the SQLite repository
  (src/infrastructure/persistence/repositories/promise_repository.py, table of migration 006, whose
  only uniqueness constraint is the primary key).

  A \<open>datetime\<close> is its \<open>isoformat\<close> text, which is what the columns hold and
  \<open>fromisoformat\<close> reads back. The column of a JSON text is \<open>Absent\<close> for \<open>NULL\<close>. The fields of the
  evidence are read from JSON unchecked, so they are \<open>json\<close> values; \<open>metadata\<close> is
  \<open>JNull\<close> for \<open>None\<close>.
\<close>

section \<open>Entities\<close>

datatype promise_state =
  PM_CREATED | PM_RUNNING | PM_VERIFY_PASSED | PM_VERIFY_FAILED | PM_SHIPPED | PM_FAILED

fun promise_state_value :: "promise_state \<Rightarrow> string" where
  "promise_state_value PM_CREATED = ''created''"
| "promise_state_value PM_RUNNING = ''running''"
| "promise_state_value PM_VERIFY_PASSED = ''verify_passed''"
| "promise_state_value PM_VERIFY_FAILED = ''verify_failed''"
| "promise_state_value PM_SHIPPED = ''shipped''"
| "promise_state_value PM_FAILED = ''failed''"

record verify_evidence =
  ve_artifact_path :: json
  ve_passed :: json
  ve_exit_code :: json
  ve_timestamp :: json

text \<open>\<open>isinstance(x, int) and x >= 0\<close>: a Boolean is an \<open>int\<close>.\<close>

fun non_negative_int :: "json \<Rightarrow> bool" where
  "non_negative_int (JNumber n) = (0 \<le> n)"
| "non_negative_int (JBool b) = True"
| "non_negative_int d = False"

definition make_evidence :: "verify_evidence \<Rightarrow> verify_evidence result" where
  "make_evidence v =
     (if \<not> json_truthy (ve_artifact_path v) then Inl (ValueError ''artifact_path must be non-empty'')
      else if \<not> json_truthy (ve_timestamp v) then Inl (ValueError ''timestamp must be non-empty'')
      else if \<not> non_negative_int (ve_exit_code v)
        then Inl (ValueError ''exit_code must be a non-negative integer'')
      else Inr v)"

record promise_contract =
  pm_id :: string
  pm_session_id :: string
  pm_plan_id :: string
  pm_task :: string
  pm_state :: promise_state
  pm_verify_evidence :: "verify_evidence option"
  pm_created_at :: "string option"
  pm_updated_at :: "string option"
  pm_metadata :: json

fun dict_or_none :: "json \<Rightarrow> bool" where
  "dict_or_none JNull = True"
| "dict_or_none (JObject kvs) = True"
| "dict_or_none d = False"

definition make_promise :: "promise_contract \<Rightarrow> promise_contract result" where
  "make_promise p =
     (if pm_id p = [] then Inl (ValueError ''id cannot be empty'')
      else if pm_session_id p = [] then Inl (ValueError ''session_id cannot be empty'')
      else if pm_plan_id p = [] then Inl (ValueError ''plan_id cannot be empty'')
      else if pm_task p = [] then Inl (ValueError ''task cannot be empty'')
      else if \<not> dict_or_none (pm_metadata p)
        then Inl (TypeError ''metadata must be a dictionary or None'')
      else Inr p)"

fun promise_transitions :: "promise_state \<Rightarrow> promise_state set" where
  "promise_transitions PM_CREATED = {PM_RUNNING, PM_FAILED}"
| "promise_transitions PM_RUNNING = {PM_VERIFY_PASSED, PM_VERIFY_FAILED, PM_FAILED}"
| "promise_transitions PM_VERIFY_PASSED = {PM_SHIPPED, PM_FAILED}"
| "promise_transitions PM_VERIFY_FAILED = {PM_RUNNING, PM_FAILED}"
| "promise_transitions PM_SHIPPED = {}"
| "promise_transitions PM_FAILED = {PM_RUNNING}"

definition promise_can_transition_to :: "promise_contract \<Rightarrow> promise_state \<Rightarrow> bool" where
  "promise_can_transition_to p st \<longleftrightarrow> st \<in> promise_transitions (pm_state p)"

definition verification_states :: "promise_state set" where
  "verification_states = {PM_VERIFY_PASSED, PM_VERIFY_FAILED}"

definition promise_transition_to ::
  "string \<Rightarrow> promise_contract \<Rightarrow> promise_state \<Rightarrow> verify_evidence option \<Rightarrow> promise_contract result" where
  "promise_transition_to now p st ev =
     (if \<not> promise_can_transition_to p st
        then Inl (ValueError (''Cannot transition from '' @ promise_state_value (pm_state p)
                              @ '' to '' @ promise_state_value st))
      else if st \<in> verification_states \<and> ev = None
        then Inl (ValueError (''Evidence required for transition to '' @ promise_state_value st))
      else make_promise (p\<lparr>pm_state := st,
             pm_verify_evidence := (if st \<in> verification_states then ev else None),
             pm_updated_at := Some now\<rparr>))"

section \<open>Repository\<close>

record promise_row =
  rw_id :: string
  rw_session_id :: string
  rw_plan_id :: string
  rw_task :: string
  rw_state :: string
  rw_verify_evidence :: state_file
  rw_created_at :: "string option"
  rw_updated_at :: "string option"
  rw_metadata :: state_file

definition evidence_to_json :: "verify_evidence \<Rightarrow> json" where
  "evidence_to_json v = JObject
     [(''artifact_path'', ve_artifact_path v), (''passed'', ve_passed v),
      (''exit_code'', ve_exit_code v), (''timestamp'', ve_timestamp v)]"

definition serialize_verify_evidence :: "verify_evidence option \<Rightarrow> state_file" where
  "serialize_verify_evidence ev = (case ev of None \<Rightarrow> Absent | Some v \<Rightarrow> Holds (evidence_to_json v))"

definition deserialize_verify_evidence :: "state_file \<Rightarrow> verify_evidence option result" where
  "deserialize_verify_evidence f =
     (case f of
        Absent \<Rightarrow> Inr None
      | Malformed \<Rightarrow> Inl (ValueError ''JSONDecodeError'')
      | Holds d \<Rightarrow>
          res_bind (json_item d ''artifact_path'') (\<lambda>a.
          res_bind (json_item d ''passed'') (\<lambda>p.
          res_bind (json_item d ''exit_code'') (\<lambda>e.
          res_bind (json_item d ''timestamp'') (\<lambda>t.
          res_bind (make_evidence
              \<lparr>ve_artifact_path = a, ve_passed = p, ve_exit_code = e, ve_timestamp = t\<rparr>) (\<lambda>v.
            Inr (Some v)))))))"

definition serialize_metadata :: "json \<Rightarrow> state_file" where
  "serialize_metadata d = (if d = JNull then Absent else Holds d)"

definition deserialize_metadata :: "state_file \<Rightarrow> json result" where
  "deserialize_metadata f =
     (case f of
        Absent \<Rightarrow> Inr JNull
      | Malformed \<Rightarrow> Inl (ValueError ''JSONDecodeError'')
      | Holds d \<Rightarrow> Inr d)"

definition parse_promise_state :: "string \<Rightarrow> promise_state result" where
  "parse_promise_state s =
     (case find (\<lambda>st. promise_state_value st = s)
             [PM_CREATED, PM_RUNNING, PM_VERIFY_PASSED, PM_VERIFY_FAILED, PM_SHIPPED, PM_FAILED] of
        None \<Rightarrow> Inl (ValueError (quoted s @ '' is not a valid PromiseState''))
      | Some st \<Rightarrow> Inr st)"

definition row_to_contract :: "promise_row \<Rightarrow> promise_contract result" where
  "row_to_contract r =
     res_bind (deserialize_verify_evidence (rw_verify_evidence r)) (\<lambda>ev.
     res_bind (deserialize_metadata (rw_metadata r)) (\<lambda>md.
     res_bind (parse_promise_state (rw_state r)) (\<lambda>st.
       make_promise \<lparr>pm_id = rw_id r, pm_session_id = rw_session_id r, pm_plan_id = rw_plan_id r,
         pm_task = rw_task r, pm_state = st, pm_verify_evidence = ev,
         pm_created_at = rw_created_at r, pm_updated_at = rw_updated_at r, pm_metadata = md\<rparr>)))"

definition contract_row :: "promise_contract \<Rightarrow> promise_row" where
  "contract_row p =
     \<lparr>rw_id = pm_id p, rw_session_id = pm_session_id p, rw_plan_id = pm_plan_id p,
      rw_task = pm_task p, rw_state = promise_state_value (pm_state p),
      rw_verify_evidence = serialize_verify_evidence (pm_verify_evidence p),
      rw_created_at = pm_created_at p, rw_updated_at = pm_updated_at p,
      rw_metadata = serialize_metadata (pm_metadata p)\<rparr>"

type_synonym promise_table = "promise_row list"

definition save_promise :: "promise_contract \<Rightarrow> (promise_table, promise_contract) py" where
  "save_promise p t =
     (if lookup_row rw_id (pm_id p) t \<noteq> None
        then (Inl (RepositoryError (''PromiseContract with id '' @ quoted (pm_id p) @ '' already exists'')), t)
      else (Inr p, t @ [contract_row p]))"

definition first_contract :: "promise_row list \<Rightarrow> promise_contract option result" where
  "first_contract rs =
     (case rs of [] \<Rightarrow> Inr None | r # _ \<Rightarrow> res_bind (row_to_contract r) (\<lambda>p. Inr (Some p)))"

definition promise_by_id :: "string \<Rightarrow> promise_table \<Rightarrow> promise_contract option result" where
  "promise_by_id i t = first_contract (filter (\<lambda>r. rw_id r = i) t)"

definition promise_by_plan_id :: "string \<Rightarrow> promise_table \<Rightarrow> promise_contract option result" where
  "promise_by_plan_id i t = first_contract (filter (\<lambda>r. rw_plan_id r = i) t)"

definition promises_by_session_id :: "string \<Rightarrow> promise_table \<Rightarrow> promise_contract list result" where
  "promises_by_session_id i t =
     traverse row_to_contract (order_desc rw_created_at (filter (\<lambda>r. rw_session_id r = i) t))"

definition update_promise_state ::
  "string \<Rightarrow> string \<Rightarrow> promise_state \<Rightarrow> (promise_table, promise_contract) py" where
  "update_promise_state now i st =
     py_bind (py_read (promise_by_id i)) (\<lambda>current. case current of
        None \<Rightarrow> py_raise (RepositoryError (''Contract '' @ i @ '' not found''))
      | Some p \<Rightarrow>
          if \<not> promise_can_transition_to p st
          then py_raise (RepositoryError (''Invalid transition from ''
                 @ promise_state_value (pm_state p) @ '' to '' @ promise_state_value st))
          else py_bind (\<lambda>t. if rows_hit (\<lambda>r. rw_id r = i) t
                  then (Inr (), update_where (\<lambda>r. rw_id r = i)
                         (\<lambda>r. r\<lparr>rw_state := promise_state_value st, rw_updated_at := Some now\<rparr>) t)
                  else (Inl (RepositoryError (''PromiseContract '' @ quoted i @ '' not found'')), t)) (\<lambda>_.
               py_bind (py_read (promise_by_id i)) (\<lambda>updated. case updated of
                  None \<Rightarrow> py_raise (RepositoryError
                             (''PromiseContract '' @ quoted i @ '' not found after update''))
                | Some q \<Rightarrow> py_return q)))"

section \<open>Lemmas\<close>

interpretation promise_life: lifecycle promise_transitions "{PM_SHIPPED}"
proof
  fix s show "(s \<in> {PM_SHIPPED}) = (promise_transitions s = {})" by (cases s) simp_all
qed

lemma parse_promise_state_value [simp]: "parse_promise_state (promise_state_value st) = Inr st"
  by (cases st) (simp_all add: parse_promise_state_def)

lemma promise_state_value_inject [simp]:
  "promise_state_value a = promise_state_value b \<longleftrightarrow> a = b"
  using parse_promise_state_value by (metis sum.inject(2))

lemma parse_promise_state_Inr: "parse_promise_state s = Inr st \<longleftrightarrow> s = promise_state_value st"
proof
  assume "parse_promise_state s = Inr st"
  then show "s = promise_state_value st"
    by (auto simp: parse_promise_state_def simp del: find.simps dest!: find_Some_set
             split: option.splits)
qed simp

lemma make_promise_Inr: "make_promise p = Inr q \<Longrightarrow> q = p \<and> make_promise q = Inr q"
  by (auto simp: make_promise_def split: if_splits)

lemma make_evidence_Inr: "make_evidence v = Inr w \<Longrightarrow> w = v \<and> make_evidence w = Inr w"
  by (auto simp: make_evidence_def split: if_splits)

lemma promise_eta [simp]:
  "\<lparr>pm_id = pm_id p, pm_session_id = pm_session_id p, pm_plan_id = pm_plan_id p,
    pm_task = pm_task p, pm_state = pm_state p, pm_verify_evidence = pm_verify_evidence p,
    pm_created_at = pm_created_at p, pm_updated_at = pm_updated_at p,
    pm_metadata = pm_metadata p\<rparr> = p"
  by (cases p) simp

lemma evidence_eta [simp]:
  "\<lparr>ve_artifact_path = ve_artifact_path v, ve_passed = ve_passed v,
    ve_exit_code = ve_exit_code v, ve_timestamp = ve_timestamp v\<rparr> = v"
  by (cases v) simp

text \<open>A contract as the constructors let it exist.\<close>

definition promise_ok :: "promise_contract \<Rightarrow> bool" where
  "promise_ok p \<longleftrightarrow> make_promise p = Inr p \<and>
     (case pm_verify_evidence p of None \<Rightarrow> True | Some v \<Rightarrow> make_evidence v = Inr v)"

lemma metadata_roundtrip: "deserialize_metadata (serialize_metadata d) = Inr d"
  by (simp add: deserialize_metadata_def serialize_metadata_def)

lemma evidence_roundtrip:
  "case ev of None \<Rightarrow> True | Some v \<Rightarrow> make_evidence v = Inr v \<Longrightarrow>
     deserialize_verify_evidence (serialize_verify_evidence ev) = Inr ev"
  by (auto simp: deserialize_verify_evidence_def serialize_verify_evidence_def evidence_to_json_def
           split: option.splits)

lemma contract_row_roundtrip: "promise_ok p \<Longrightarrow> row_to_contract (contract_row p) = Inr p"
  by (simp add: promise_ok_def row_to_contract_def contract_row_def evidence_roundtrip
      metadata_roundtrip)

text \<open>What reading a row gives is a contract again, with the row's id and state.\<close>

lemma deserialize_evidence_ok:
  "deserialize_verify_evidence f = Inr ev \<Longrightarrow>
     case ev of None \<Rightarrow> True | Some v \<Rightarrow> make_evidence v = Inr v"
proof (cases f)
  case (Holds d)
  moreover assume "deserialize_verify_evidence f = Inr ev"
  ultimately obtain u v where "make_evidence u = Inr v" and ev: "ev = Some v"
    by (auto simp: deserialize_verify_evidence_def res_bind_Inr_iff)
  from make_evidence_Inr [OF this(1)] ev show ?thesis by auto
qed (simp_all add: deserialize_verify_evidence_def)

lemma row_to_contract_Inr:
  "row_to_contract r = Inr p \<longleftrightarrow>
     promise_ok p \<and> pm_id p = rw_id r \<and> pm_session_id p = rw_session_id r \<and>
     pm_plan_id p = rw_plan_id r \<and> pm_task p = rw_task r \<and>
     rw_state r = promise_state_value (pm_state p) \<and>
     deserialize_verify_evidence (rw_verify_evidence r) = Inr (pm_verify_evidence p) \<and>
     deserialize_metadata (rw_metadata r) = Inr (pm_metadata p) \<and>
     pm_created_at p = rw_created_at r \<and> pm_updated_at p = rw_updated_at r"
  (is "?l \<longleftrightarrow> ?r")
proof
  assume ?l
  then obtain ev md st where ev: "deserialize_verify_evidence (rw_verify_evidence r) = Inr ev"
      and md: "deserialize_metadata (rw_metadata r) = Inr md"
      and st: "rw_state r = promise_state_value st"
      and mk: "make_promise \<lparr>pm_id = rw_id r, pm_session_id = rw_session_id r, pm_plan_id = rw_plan_id r,
         pm_task = rw_task r, pm_state = st, pm_verify_evidence = ev,
         pm_created_at = rw_created_at r, pm_updated_at = rw_updated_at r, pm_metadata = md\<rparr> = Inr p"
    by (auto simp: row_to_contract_def res_bind_Inr_iff parse_promise_state_Inr)
  from make_promise_Inr [OF mk] ev md st deserialize_evidence_ok [OF ev] show ?r
    by (auto simp: promise_ok_def)
next
  assume ?r
  then show ?l
    by (cases p) (simp add: row_to_contract_def promise_ok_def)
qed

definition promises_ok :: "promise_table \<Rightarrow> bool" where
  "promises_ok t \<longleftrightarrow> pk_ok rw_id t \<and> (\<forall>r \<in> set t. \<exists>p. row_to_contract r = Inr p)"

text \<open>The table as a partial map from ids to contracts: what the repository promises.\<close>

definition promises :: "promise_table \<Rightarrow> string \<Rightarrow> promise_contract option" where
  "promises t i = (case promise_by_id i t of Inr (Some p) \<Rightarrow> Some p | _ \<Rightarrow> None)"

lemma filter_key_pk:
  assumes "pk_ok key t"
  shows "filter (\<lambda>r. key r = k) t = (case lookup_row key k t of None \<Rightarrow> [] | Some r \<Rightarrow> [r])"
  using assms
proof (induction t)
  case (Cons x t)
  show ?case
  proof (cases "key x = k")
    case True
    with Cons.prems have "filter (\<lambda>r. key r = k) t = []"
      by (auto simp: pk_ok_def filter_empty_conv image_iff)
    with True show ?thesis by (simp add: lookup_row_def)
  next
    case False
    with Cons show ?thesis by (simp add: pk_ok_def lookup_row_def)
  qed
qed (simp add: lookup_row_def)

lemma promise_by_id_lookup:
  "pk_ok rw_id t \<Longrightarrow> promise_by_id i t =
     (case lookup_row rw_id i t of None \<Rightarrow> Inr None
      | Some r \<Rightarrow> res_bind (row_to_contract r) (\<lambda>p. Inr (Some p)))"
  by (simp add: promise_by_id_def first_contract_def filter_key_pk split: option.splits)

lemma promise_by_id_total:
  assumes "promises_ok t"
  shows "promise_by_id i t = Inr (promises t i)"
proof (cases "lookup_row rw_id i t")
  case None
  with assms show ?thesis by (simp add: promises_def promise_by_id_lookup promises_ok_def)
next
  case (Some r)
  with assms obtain p where "row_to_contract r = Inr p"
    by (meson lookup_row_Some promises_ok_def)
  with Some assms show ?thesis by (simp add: promises_def promise_by_id_lookup promises_ok_def)
qed

lemma promises_Some:
  assumes "promises_ok t"
  shows "promises t i = Some p \<longleftrightarrow> (\<exists>r \<in> set t. rw_id r = i \<and> row_to_contract r = Inr p)"
proof -
  from assms have pk: "pk_ok rw_id t" by (simp add: promises_ok_def)
  have "promises t i = Some p \<longleftrightarrow>
          (\<exists>r. lookup_row rw_id i t = Some r \<and> row_to_contract r = Inr p)"
  proof (cases "lookup_row rw_id i t")
    case (Some r)
    then show ?thesis
      by (cases "row_to_contract r") (simp_all add: promises_def promise_by_id_lookup [OF pk])
  qed (simp add: promises_def promise_by_id_lookup [OF pk])
  then show ?thesis by (auto simp: lookup_row_iff [OF pk])
qed

text \<open>Each operation in terms of the map.\<close>

lemma promise_key: "promises_ok t \<Longrightarrow> promises t i = Some p \<Longrightarrow> pm_id p = i"
  by (auto simp: promises_Some row_to_contract_Inr)

lemma promises_Some_ok: "promises_ok t \<Longrightarrow> promises t i = Some p \<Longrightarrow> promise_ok p"
  by (auto simp: promises_Some row_to_contract_Inr)

lemma promises_None:
  assumes "promises_ok t"
  shows "promises t i = None \<longleftrightarrow> i \<notin> rw_id ` set t"
proof -
  have "promises t i \<noteq> None \<longleftrightarrow> (\<exists>p. \<exists>r \<in> set t. rw_id r = i \<and> row_to_contract r = Inr p)"
    by (auto simp: promises_Some [OF assms])
  also have "\<dots> \<longleftrightarrow> i \<in> rw_id ` set t" using assms by (fastforce simp: promises_ok_def)
  finally show ?thesis by blast
qed



lemma save_promise_fresh:
  assumes t: "promises_ok t" and p: "promise_ok p" and fresh: "promises t (pm_id p) = None"
  shows "promises_ok (t @ [contract_row p])"
    and "promises (t @ [contract_row p]) = (promises t)(pm_id p \<mapsto> p)"
proof -
  have row: "rw_id (contract_row p) = pm_id p" by (simp add: contract_row_def)
  from t fresh have new: "pm_id p \<notin> rw_id ` set t" by (simp add: promises_None)
  with t row p show ok: "promises_ok (t @ [contract_row p])"
    by (auto simp: promises_ok_def pk_ok_def contract_row_roundtrip)
  show "promises (t @ [contract_row p]) = (promises t)(pm_id p \<mapsto> p)"
  proof (rule ext, rule option_eqI)
    fix i q
    show "promises (t @ [contract_row p]) i = Some q \<longleftrightarrow> ((promises t)(pm_id p \<mapsto> p)) i = Some q"
      using new row p unfolding promises_Some [OF ok]
      by (cases "i = pm_id p") (auto simp: promises_Some [OF t] contract_row_roundtrip image_iff)
  qed
qed

definition touched :: "string \<Rightarrow> promise_state \<Rightarrow> promise_contract \<Rightarrow> promise_contract" where
  "touched now st p = p\<lparr>pm_state := st, pm_updated_at := Some now\<rparr>"

lemma row_to_contract_touched:
  assumes "row_to_contract r = Inr p"
  shows "row_to_contract (r\<lparr>rw_state := promise_state_value st, rw_updated_at := Some now\<rparr>)
           = Inr (touched now st p)"
proof -
  from assms have "promise_ok (touched now st p)"
    by (auto simp: row_to_contract_Inr touched_def promise_ok_def make_promise_def split: if_splits)
  with assms show ?thesis by (simp add: row_to_contract_Inr touched_def)
qed

lemma update_row_promises:
  fixes now st i
  defines "f \<equiv> \<lambda>r. r\<lparr>rw_state := promise_state_value st, rw_updated_at := Some now\<rparr>"
  assumes t: "promises_ok t" and p: "promises t i = Some p"
  shows "promises_ok (update_where (\<lambda>r. rw_id r = i) f t)"
    and "promises (update_where (\<lambda>r. rw_id r = i) f t) = (promises t)(i \<mapsto> touched now st p)"
proof -
  have key: "rw_id (f r) = rw_id r" for r by (simp add: f_def)
  have dec: "row_to_contract r = Inr q \<Longrightarrow> row_to_contract (f r) = Inr (touched now st q)" for r q
    by (simp add: f_def row_to_contract_touched)
  from t show ok: "promises_ok (update_where (\<lambda>r. rw_id r = i) f t)"
    by (auto simp: promises_ok_def pk_ok_update_where [of rw_id f, OF key] set_update_where dest: dec)
  from p t obtain r where r: "r \<in> set t" "rw_id r = i" "row_to_contract r = Inr p"
    by (auto simp: promises_Some)
  have only: "r' = r" if "r' \<in> set t" "rw_id r' = i" for r'
    using t r(1,2) that unfolding promises_ok_def pk_ok_def by (metis inj_onD distinct_map)
  have here: "(\<exists>x \<in> set (update_where (\<lambda>r. rw_id r = i) f t). rw_id x = i \<and> row_to_contract x = Inr q)
                \<longleftrightarrow> q = touched now st p" for q
  proof
    assume "\<exists>x \<in> set (update_where (\<lambda>r. rw_id r = i) f t). rw_id x = i \<and> row_to_contract x = Inr q"
    then have "row_to_contract (f r) = Inr q" by (auto simp: set_update_where dest: only)
    with dec [OF r(3)] show "q = touched now st p" by simp
  next
    assume "q = touched now st p"
    with r dec [OF r(3)] key
    show "\<exists>x \<in> set (update_where (\<lambda>r. rw_id r = i) f t). rw_id x = i \<and> row_to_contract x = Inr q"
      by (auto simp: set_update_where)
  qed
  have there: "(\<exists>x \<in> set (update_where (\<lambda>r. rw_id r = i) f t). rw_id x = j \<and> row_to_contract x = Inr q)
                \<longleftrightarrow> (\<exists>x \<in> set t. rw_id x = j \<and> row_to_contract x = Inr q)" if "j \<noteq> i" for j q
    using that by (fastforce simp: set_update_where key)
  show "promises (update_where (\<lambda>r. rw_id r = i) f t) = (promises t)(i \<mapsto> touched now st p)"
  proof (rule ext, rule option_eqI)
    fix j q
    show "promises (update_where (\<lambda>r. rw_id r = i) f t) j = Some q \<longleftrightarrow>
            ((promises t)(i \<mapsto> touched now st p)) j = Some q"
      using here [of q] there [of j q]
      by (cases "j = i") (auto simp: promises_Some [OF ok] promises_Some [OF t])
  qed
qed

lemma promise_hit: "promises_ok t \<Longrightarrow> promises t i = Some p \<Longrightarrow> rows_hit (\<lambda>r. rw_id r = i) t"
  by (auto simp: promises_Some rows_hit_iff)

lemma update_promise_state_run:
  assumes "promises_ok t"
  shows "update_promise_state now i st t =
     (case promises t i of
        None \<Rightarrow> (Inl (RepositoryError (''Contract '' @ i @ '' not found'')), t)
      | Some p \<Rightarrow>
          if \<not> promise_can_transition_to p st
          then (Inl (RepositoryError (''Invalid transition from ''
                 @ promise_state_value (pm_state p) @ '' to '' @ promise_state_value st)), t)
          else (Inr (touched now st p),
                update_where (\<lambda>r. rw_id r = i)
                  (\<lambda>r. r\<lparr>rw_state := promise_state_value st, rw_updated_at := Some now\<rparr>) t))"
proof (cases "promises t i")
  case None
  with assms show ?thesis
    by (simp add: update_promise_state_def py_simps promise_by_id_total)
next
  case (Some p)
  note upd = update_row_promises [OF assms Some, of now st]
  show ?thesis
    using Some promise_hit [OF assms Some] upd
    by (simp add: update_promise_state_def py_simps promise_by_id_total [OF assms]
        promise_by_id_total [OF upd(1)] py_bind_def)
qed

section \<open>Sequences of updates\<close>

fun update_all :: "(string \<times> string \<times> promise_state) list \<Rightarrow> promise_table \<Rightarrow> promise_table" where
  "update_all [] t = t"
| "update_all ((now, i, st) # us) t = update_all us (snd (update_promise_state now i st t))"

lemma update_promise_state_ok:
  "promises_ok t \<Longrightarrow> promises_ok (snd (update_promise_state now i st t))"
  by (auto simp: update_promise_state_run update_row_promises split: option.splits)

lemma update_promise_state_map:
  assumes "promises_ok t"
  shows "promises (snd (update_promise_state now i st t)) j =
     (case promises t j of
        Some p \<Rightarrow> Some (if j = i \<and> promise_can_transition_to p st then touched now st p else p)
      | None \<Rightarrow> None)"
  using assms
  by (auto simp: update_promise_state_run update_row_promises split: option.splits)

lemma update_all_path:
  "promises_ok t \<Longrightarrow> promises t i = Some p \<Longrightarrow>
     \<exists>q path. promises (update_all us t) i = Some q \<and>
       status_path promise_transitions (pm_state p) path \<and> pm_state q = last (pm_state p # path) \<and>
       pm_verify_evidence q = pm_verify_evidence p"
proof (induction us arbitrary: t p)
  case Nil
  then show ?case by (auto intro!: exI [of _ "[]"])
next
  case (Cons u us)
  obtain now j st where u: "u = (now, j, st)" by (cases u)
  let ?t = "snd (update_promise_state now j st t)"
  define p' where "p' = (if i = j \<and> promise_can_transition_to p st then touched now st p else p)"
  have t': "promises_ok ?t" and p': "promises ?t i = Some p'"
    using Cons.prems by (simp_all add: update_promise_state_ok update_promise_state_map p'_def)
  from Cons.IH [OF t' p'] obtain q path where q: "promises (update_all us ?t) i = Some q"
      "status_path promise_transitions (pm_state p') path" "pm_state q = last (pm_state p' # path)"
      "pm_verify_evidence q = pm_verify_evidence p'" by blast
  show ?case
  proof (cases "i = j \<and> promise_can_transition_to p st")
    case True
    with q show ?thesis unfolding u
      by (intro exI [of _ q] exI [of _ "st # path"])
         (simp add: p'_def touched_def promise_can_transition_to_def)
  next
    case False
    with q show ?thesis unfolding u by (auto simp: p'_def)
  qed
qed

text \<open>The only way into \<open>SHIPPED\<close> is from \<open>VERIFY_PASSED\<close>.\<close>

lemma shipped_needs_passed:
  "status_path promise_transitions s path \<Longrightarrow> last (s # path) = PM_SHIPPED \<Longrightarrow> s \<noteq> PM_SHIPPED \<Longrightarrow>
     PM_VERIFY_PASSED \<in> set (s # path)"
proof (induction path arbitrary: s)
  case (Cons b path)
  show ?case
  proof (cases "b = PM_SHIPPED")
    case True
    with Cons.prems(1) have "PM_SHIPPED \<in> promise_transitions s" by simp
    then have "s = PM_VERIFY_PASSED" by (cases s) auto
    then show ?thesis by simp
  next
    case False
    with Cons show ?thesis by (auto split: if_splits)
  qed
qed simp

end
