(* ===== verification/Resilience_Properties.thy ===== *)
theory Resilience_Properties
  imports Circuit_Breaker Rate_Limiter Retry Dead_Letters Workflow_State Promise_Contract
begin

text \<open>
  The properties of what is stored and of what guards calls: the state files of the workflow, the promise
  contracts, the circuit breaker, the rate limiters, the retries and the dead letter queue.
\<close>

section \<open>State files\<close>

text \<open>What a file that save has written is read as.\<close>

lemma saved_plan_read:
  assumes "plan_ok p" "ps_schema p = JNumber k" "k \<le> 4"
  shows "plan_load now (Holds (plan_to_json p)) = Inr (Some (p\<lparr>ps_schema := JNumber 4,
           ps_migrated_from := (if k \<in> {0, 1, 2, 3} then Some k else None)\<rparr>))"
  using plan_roundtrip [OF assms, of now] unfolding plan_to_json_def
  by (simp add: plan_load_def load_state_def)

lemma saved_execute_read:
  assumes "es_schema e = JNumber m" "m \<le> 4"
  shows "execute_load now (Holds (execute_to_json e)) = Inr (Some (e\<lparr>es_schema := JNumber (if m = 0 then 4 else m),
           es_migrated_from := (if m = 0 then Some 0 else None)\<rparr>))"
  using execute_roundtrip [OF assms, of now] unfolding execute_to_json_def
  by (simp add: execute_load_def load_state_def)

lemma saved_verify_read:
  assumes "vs_schema v = JNumber n" "n \<le> 4"
  shows "verify_load now (Holds (verify_to_json v)) = Inr (Some (v\<lparr>vs_schema := JNumber (if n = 0 then 4 else n),
           vs_migrated_from := (if n = 0 then Some 0 else None)\<rparr>))"
  using verify_roundtrip [OF assms, of now] unfolding verify_to_json_def
  by (simp add: verify_load_def load_state_def)

text \<open>
  C24: what load makes of a file that save has written, for the plan, execute and verify state. Every
  field is as it was, decisions, goal, requirements and tasks with their optional fields included, but
  for two: a plan always comes back with schema 4, an execute or verify state of schema 0 does, and
  \<open>migrated_from\<close>, which save writes, is not read: it comes back as the version the file was migrated
  from now, so with schema 4 as \<open>None\<close>. In particular a state of schema 4 that was not migrated comes
  back unchanged. A save that fails leaves the file as it was.
\<close>

theorem state_files_roundtrip:
  assumes "plan_ok p" "ps_schema p = JNumber k" "k \<le> 4"
    and "es_schema e = JNumber m" "m \<le> 4" and "vs_schema v = JNumber n" "n \<le> 4"
  shows "plan_load now (snd (plan_save Written p f)) = Inr (Some (p\<lparr>ps_schema := JNumber 4,
           ps_migrated_from := (if k \<in> {0, 1, 2, 3} then Some k else None)\<rparr>))
    \<and> execute_load now (snd (execute_save Written e f)) = Inr (Some (e\<lparr>es_schema := JNumber (if m = 0 then 4 else m),
           es_migrated_from := (if m = 0 then Some 0 else None)\<rparr>))
    \<and> verify_load now (snd (verify_save Written v f)) = Inr (Some (v\<lparr>vs_schema := JNumber (if n = 0 then 4 else n),
           vs_migrated_from := (if n = 0 then Some 0 else None)\<rparr>))
    \<and> snd (plan_save (WriteFailed err) p f) = f \<and> snd (execute_save (WriteFailed err) e f) = f
    \<and> snd (verify_save (WriteFailed err) v f) = f"
  using saved_plan_read [OF assms(1-3), of now] saved_execute_read [OF assms(4,5), of now]
    saved_verify_read [OF assms(6,7), of now]
  by (simp add: plan_save_def execute_save_def verify_save_def save_state_def)

definition full_plan :: plan_state where
  "full_plan =
     \<lparr>ps_session_id = JString ''plan-1'', ps_status = JString ''outlined'', ps_phase = OUTLINED,
      ps_started_at = JString ''now'', ps_plan_file = JString ''plan.md'',
      ps_tasks = [new_task (JString ''t'') (JString ''a'') (JString ''add'')],
      ps_decisions = [(''db'', \<lparr>ud_key = JString ''db'', ud_value = JString ''sqlite'', ud_status = LOCKED,
         ud_rationale = JNull\<rparr>)],
      ps_goal = None, ps_requirements = [], ps_schema = JNumber 4,
      ps_migrated_from = None, ps_frozen_id = JNull, ps_frozen_hash = JNull\<rparr>"

theorem state_files_roundtrip_witness:
  "plan_load JNull (snd (plan_save Written full_plan Absent)) = Inr (Some full_plan)
   \<and> plan_load JNull (snd (plan_save Written (full_plan\<lparr>ps_migrated_from := Some 2\<rparr>) Absent)) = Inr (Some full_plan)"
proof -
  have p: "plan_ok full_plan" "plan_ok (full_plan\<lparr>ps_migrated_from := Some 2\<rparr>)"
    by (simp_all add: plan_ok_def full_plan_def make_user_decision_def)
  have q: "ps_schema full_plan = JNumber 4" "ps_schema (full_plan\<lparr>ps_migrated_from := Some 2\<rparr>) = JNumber 4"
    by (simp_all add: full_plan_def)
  let ?e = "\<lparr>es_session_id = JString ''e'', es_status = JString ''executing'', es_phase = EXECUTED,
     es_started_at = JNull, es_tasks = [], es_current = JNumber 0, es_schema = JNumber 4, es_migrated_from = None\<rparr>"
  let ?v = "\<lparr>vs_session_id = JString ''v'', vs_status = JString ''verified'', vs_phase = VERIFIED, vs_started_at = JNull,
      vs_unlock_ship = JBool True, vs_file_hashes = JObject [], vs_evidence = JArray [],
      vs_test_results = JObject [], vs_schema = JNumber 4, vs_migrated_from = None\<rparr>"
  have r: "es_schema ?e = JNumber 4" "vs_schema ?v = JNumber 4" "(4::int) \<le> 4" by simp_all
  have "full_plan\<lparr>ps_schema := JNumber 4, ps_migrated_from := None\<rparr> = full_plan" by (simp add: full_plan_def)
  with state_files_roundtrip [OF p(1) q(1) r(3) r(1,3) r(2,3), of JNull Absent]
    state_files_roundtrip [OF p(2) q(2) r(3) r(1,3) r(2,3), of JNull Absent]
  show ?thesis by simp
qed

lemma traverse_keeps: "traverse f xs = Inr ys \<Longrightarrow> (\<And>x y. f x = Inr y \<Longrightarrow> P y) \<Longrightarrow> y \<in> set ys \<Longrightarrow> P y"
  by (induction xs arbitrary: ys) (auto simp: res_bind_Inr_iff)

lemma checked_entities:
  "make_user_decision d = Inr d' \<Longrightarrow> make_user_decision d' = Inr d'"
  "make_goal g = Inr g' \<Longrightarrow> make_goal g' = Inr g'"
  "make_requirement r = Inr r' \<Longrightarrow> make_requirement r' = Inr r'"
  by (auto simp: make_user_decision_def make_goal_def make_requirement_def split: if_splits json.splits)

lemma loaded_plan_ok:
  assumes "plan_from_json now d = Inr p"
  shows "plan_ok p" "ps_schema p = JNumber 4"
proof -
  from assms have ds: "decisions_from_json d = Inr (ps_decisions p)" and g: "goal_from_json d = Inr (ps_goal p)"
    and rs: "requirements_from_json d = Inr (ps_requirements p)" and s: "ps_schema p = JNumber 4"
    by (auto simp: plan_from_json_def res_bind_Inr_iff)
  let ?dec = "\<lambda>(k, d). res_bind (decision_from_json d) (\<lambda>u. Inr (k, u))"
  have "make_user_decision (snd kd) = Inr (snd kd)" if kd: "kd \<in> set (ps_decisions p)" for kd
  proof -
    from ds obtain xs where "traverse ?dec xs = Inr (ps_decisions p)"
      by (auto simp: decisions_from_json_def res_bind_Inr_iff)
    then show ?thesis
      by (rule traverse_keeps [OF _ _ kd]) (auto simp: res_bind_Inr_iff decision_from_json_def dest: checked_entities(1))
  qed
  moreover have "make_goal x = Inr x" if "ps_goal p = Some x" for x
    using g that by (auto simp: goal_from_json_def res_bind_Inr_iff dest: checked_entities(2) split: if_splits)
  moreover have "make_requirement r = Inr r" if r: "r \<in> set (ps_requirements p)" for r
  proof -
    from rs r obtain xs where "traverse requirement_from_json xs = Inr (ps_requirements p)"
      by (auto simp: requirements_from_json_def res_bind_Inr_iff split: if_splits)
    then show ?thesis
      by (rule traverse_keeps [OF _ _ r]) (auto simp: res_bind_Inr_iff requirement_from_json_def dest: checked_entities(3))
  qed
  ultimately show "plan_ok p" by (auto simp: plan_ok_def)
  show "ps_schema p = JNumber 4" by (rule s)
qed

text \<open>
  Saving and loading again whatever a load returned keeps the plan but forgets that it was migrated:
  \<open>migrated_from\<close> lives for one load only.
\<close>

theorem resaved_plan_forgets_migration:
  assumes "plan_load now f = Inr (Some p)"
  shows "plan_load now' (snd (plan_save Written p f')) = Inr (Some (p\<lparr>ps_migrated_from := None\<rparr>))"
proof -
  from assms obtain d where "plan_from_json now d = Inr p"
    by (auto simp: plan_load_def load_state_def res_bind_Inr_iff split: state_file.splits json.splits if_splits)
  note ok = loaded_plan_ok [OF this]
  have "p\<lparr>ps_schema := JNumber 4\<rparr> = p" using ok(2) by (cases p) simp
  then have "p\<lparr>ps_schema := JNumber 4, ps_migrated_from := None\<rparr> = p\<lparr>ps_migrated_from := None\<rparr>" by simp
  with saved_plan_read [OF ok, of now'] show ?thesis
    by (simp add: plan_save_def save_state_def)
qed

text \<open>
  A state file of a schema above the supported one is refused with the error for it, whatever else
  the file says; it is never read as if it were of a known schema.
\<close>

theorem future_schema_refused:
  assumes "map_of kvs ''session_id'' = Some s" and "map_of kvs ''schema_version'' = Some (JNumber n)" and "4 < n"
  shows "\<exists>m1 m2 m3. plan_load now (Holds (JObject kvs)) = Inl (UnsupportedSchemaError m1)
    \<and> execute_load now (Holds (JObject kvs)) = Inl (UnsupportedSchemaError m2)
    \<and> verify_load now (Holds (JObject kvs)) = Inl (UnsupportedSchemaError m3)"
proof -
  have "\<exists>m. check_schema cls (JObject kvs) = Inl (UnsupportedSchemaError m)" for cls
    using assms by (simp add: check_schema_def stored_schema_def current_schema_version_def)
  then obtain m where "check_schema cls (JObject kvs) = Inl (UnsupportedSchemaError (m cls))" for cls by metis
  with assms(1) show ?thesis
    by (simp add: plan_load_def execute_load_def verify_load_def load_state_def plan_from_json_def
        execute_from_json_def verify_from_json_def)
qed

theorem future_schema_refused_witness:
  "\<exists>m. plan_load JNull (Holds (JObject [(''session_id'', JString ''s''), (''schema_version'', JNumber 5)]))
     = Inl (UnsupportedSchemaError m)"
proof -
  have a: "map_of [(''session_id'', JString ''s''), (''schema_version'', JNumber 5)] ''session_id'' = Some (JString ''s'')"
    "map_of [(''session_id'', JString ''s''), (''schema_version'', JNumber 5)] ''schema_version'' = Some (JNumber 5)"
    "(4::int) < 5" by simp_all
  from future_schema_refused [OF a, of JNull] show ?thesis by blast
qed

section \<open>Promise contracts\<close>

text \<open>
  C25: update_state on the table is the update of the map from ids to contracts: an unknown id and a
  transition the state machine does not have are refused and nothing is written; otherwise the contract
  with the id gets the state and the time, every other contract stays, and the table goes on being
  readable.
\<close>

theorem promise_update_correct:
  assumes t: "promises_ok t"
  shows "if \<exists>p. promises t i = Some p \<and> promise_can_transition_to p st
    then \<exists>p t'. promises t i = Some p \<and> update_promise_state now i st t = (Inr (touched now st p), t')
      \<and> promises_ok t' \<and> promises t' = (promises t)(i \<mapsto> touched now st p)
    else \<exists>m. update_promise_state now i st t = (Inl (RepositoryError m), t)"
proof (cases "promises t i")
  case None
  then show ?thesis using t by (simp add: update_promise_state_run)
next
  case (Some p)
  then show ?thesis using t update_row_promises [OF t Some, where st = st and now = now]
    by (simp add: update_promise_state_run)
qed

definition sample_promise :: promise_contract where
  "sample_promise = \<lparr>pm_id = ''c1'', pm_session_id = ''s'', pm_plan_id = ''p'', pm_task = ''t'', pm_state = PM_CREATED,
     pm_verify_evidence = None, pm_created_at = None, pm_updated_at = None, pm_metadata = JNull\<rparr>"

lemma sample_promises:
  "promises_ok [contract_row sample_promise]" "promises [contract_row sample_promise] ''c1'' = Some sample_promise"
proof -
  have p: "promise_ok sample_promise" by code_simp
  show "promises_ok [contract_row sample_promise]"
    using contract_row_roundtrip [OF p] by (simp add: promises_ok_def pk_ok_def)
  show "promises [contract_row sample_promise] ''c1'' = Some sample_promise"
    by code_simp
qed

theorem promise_update_correct_witness:
  "\<exists>t'. update_promise_state ''now'' ''c1'' PM_RUNNING [contract_row sample_promise]
       = (Inr (touched ''now'' PM_RUNNING sample_promise), t') \<and> promises_ok t'"
proof -
  have "promise_can_transition_to sample_promise PM_RUNNING"
    by (simp add: promise_can_transition_to_def sample_promise_def)
  with promise_update_correct [OF sample_promises(1), of "''c1''" PM_RUNNING "''now''"] sample_promises(2)
  show ?thesis by auto
qed

text \<open>
  A contract that was not shipped is shipped only by a path of allowed transitions that goes through
  VERIFY_PASSED, whatever updates are asked for in whatever order; but the evidence it then has is the
  evidence it had before, which may be none: the repository's updates neither ask for evidence nor
  store or clear it.
\<close>

theorem promise_ships_through_verification:
  assumes "promises_ok t" and "promises t i = Some p" and "pm_state p \<noteq> PM_SHIPPED"
    and "promises (update_all us t) i = Some q" and "pm_state q = PM_SHIPPED"
  shows "\<exists>path. status_path promise_transitions (pm_state p) path \<and> PM_VERIFY_PASSED \<in> set (pm_state p # path)
    \<and> pm_verify_evidence q = pm_verify_evidence p"
proof -
  from update_all_path [OF assms(1,2), of us] assms(4,5) obtain path where
    "status_path promise_transitions (pm_state p) path" "last (pm_state p # path) = PM_SHIPPED"
    "pm_verify_evidence q = pm_verify_evidence p" by auto
  with shipped_needs_passed assms(3) show ?thesis by blast
qed

theorem promise_ships_through_verification_witness:
  "\<exists>q. promises (update_all [(''1'', ''c1'', PM_RUNNING), (''2'', ''c1'', PM_VERIFY_PASSED), (''3'', ''c1'', PM_SHIPPED)]
       [contract_row sample_promise]) ''c1'' = Some q
     \<and> pm_state q = PM_SHIPPED \<and> pm_verify_evidence q = None
     \<and> (\<exists>path. status_path promise_transitions PM_CREATED path \<and> PM_VERIFY_PASSED \<in> set (PM_CREATED # path))"
proof -
  let ?us = "[(''1'', ''c1'', PM_RUNNING), (''2'', ''c1'', PM_VERIFY_PASSED), (''3'', ''c1'', PM_SHIPPED)]"
  let ?q = "sample_promise\<lparr>pm_state := PM_SHIPPED, pm_updated_at := Some ''3''\<rparr>"
  have q: "promises (update_all ?us [contract_row sample_promise]) ''c1'' = Some ?q" by code_simp
  have s: "pm_state sample_promise = PM_CREATED" "pm_verify_evidence sample_promise = None" "pm_state ?q = PM_SHIPPED"
    by (simp_all add: sample_promise_def)
  from promise_ships_through_verification [OF sample_promises _ q s(3)] q s show ?thesis by auto
qed

section \<open>Circuit breaker\<close>

text \<open>
  Once the failures reach the threshold the breaker lets nothing through until the recovery time is
  over, and after that at most the half-open calls, however often it is asked or looked at, until an
  outcome is recorded.
\<close>

theorem open_breaker_bounds_calls:
  assumes "failure_threshold (cb_policy b) \<le> cb_failures b + 1" and "list_all (\<lambda>e. \<not> is_outcome e) es"
  shows "breaker_grants es (record_failure now b) \<le> nat (half_open_max_calls (cb_policy b))
    \<and> (list_all (\<lambda>e. \<forall>n. event_time e = Some n \<longrightarrow> n - now < recovery_timeout (cb_policy b)) es
         \<longrightarrow> breaker_grants es (record_failure now b) = 0)"
  using open_grants_bound [OF failures_open(1) [OF assms(1)] assms(2), of now]
    open_run [OF failures_open(1) [OF assms(1)] assms(2), of now] failures_open [OF assms(1), of now]
  by simp

theorem open_breaker_bounds_calls_witness:
  "breaker_grants [Ask 40, Ask 41, Ask 42, Ask 43]
     (record_failure 3 (record_failure 2 (record_failure 1 (new_breaker default_policy)))) \<le> 2"
proof -
  let ?b = "record_failure 2 (record_failure 1 (new_breaker default_policy))"
  have a: "failure_threshold (cb_policy ?b) \<le> cb_failures ?b + 1" "half_open_max_calls (cb_policy ?b) = 2"
    "list_all (\<lambda>e. \<not> is_outcome e) [Ask 40, Ask 41, Ask 42, Ask 43]" by code_simp+
  from open_breaker_bounds_calls [OF a(1,3), of 3] show ?thesis by (simp add: a(2))
qed

section \<open>Rate limiters\<close>

text \<open>
  C28: both limiters are sliding windows: whatever calls come from whatever clients, as long as the
  clock does not go back, no window of the configured length, wherever it starts, holds more granted calls of
  one client than the limit.
\<close>

theorem limiters_bound_every_window:
  assumes "0 \<le> n" and "0 < w" and "sorted (map fst cs)"
  shows "int (length (window w t (limiter_grants k cs (new_limiter n w)))) \<le> n
    \<and> int (length (window 60 t (api_grants k cs (new_api_limiter n)))) \<le> n"
proof -
  have "\<exists>prev. sorted (prev # map fst cs)"
    using assms(3) by (cases cs) (auto intro: order_refl)
  then obtain prev where s: "sorted (prev # map fst cs)" by blast
  have "bounded w n ([] @ limiter_grants k cs (new_limiter n w))"
    using limiter_grants_bounded [of "new_limiter n w" prev k "[]" cs] assms s
    by (simp add: new_limiter_def entry_of_def tracks_Nil bounded_Nil)
  moreover have "bounded 60 n ([] @ api_grants k cs (new_api_limiter n))"
    using api_grants_bounded [of "new_api_limiter n" prev k "[]" cs] assms s
    by (simp add: new_api_limiter_def client_entry_def tracks_Nil bounded_Nil)
  ultimately show ?thesis by (simp add: bounded_def)
qed

theorem limiters_bound_every_window_witness:
  "int (length (window 10 12 (limiter_grants ''k'' [(1, ''k''), (2, ''k''), (3, ''j''), (11, ''k''), (12, ''k'')]
     (new_limiter 2 10)))) \<le> 2"
proof -
  have a: "(0::int) \<le> 2" "(0::rat) < 10"
    "sorted (map fst [(1 :: rat, ''k''), (2, ''k''), (3, ''j''), (11, ''k''), (12, ''k'')])" by simp_all
  from limiters_bound_every_window [OF a, of 12 "''k''"] show ?thesis by blast
qed

section \<open>Retries\<close>

lemma stopped_delays:
  assumes "\<forall>i < k. goes_on sleep c f i"
  shows "map Inr (map (projr \<circ> get_delay c) [0 ..< k]) = map (retry_pause sleep c) [0 ..< k]"
proof -
  have "Inr (projr (get_delay c i)) = retry_pause sleep c i" if "i < k" for i
    using assms that retry_pause_delay [of sleep c i]
    by (cases "retry_pause sleep c i") (auto simp: goes_on_def)
  then show ?thesis by simp
qed

lemma pause_le: "map Inr ds = map (retry_pause sleep c) is \<Longrightarrow> d \<in> set ds \<Longrightarrow> d \<le> rt_max_delay c"
proof (induction "is" arbitrary: ds)
  case (Cons i "is")
  then show ?case by (cases ds) (auto dest!: sym [of "Inr d"] retry_pause_delay get_delay_le)
qed simp

text \<open>
  What a caller with \<open>n\<close> retries gets. The calls before call \<open>k\<close> failed and a delay was slept behind
  each of them. Call \<open>k\<close> succeeded, or it is the last one and its error is reported, or the pause behind
  it raised.
\<close>

definition retry_contract ::
  "(rat \<Rightarrow> unit result) \<Rightarrow> retry_config \<Rightarrow> nat \<Rightarrow> (nat \<Rightarrow> 'a result) \<Rightarrow> 'a retry_result result \<Rightarrow> rat list \<Rightarrow> bool" where
  "retry_contract sleep c n f res delays \<longleftrightarrow>
     (\<exists>k \<le> n. (\<forall>i < k. isl (f i)) \<and> map Inr delays = map (retry_pause sleep c) [0 ..< k]
        \<and> (\<forall>d \<in> set delays. d \<le> rt_max_delay c)
        \<and> (case f k of
             Inr r \<Rightarrow> res = Inr \<lparr>rr_success = True, rr_result = Some r, rr_error = None, rr_attempts = int k + 1\<rparr>
           | Inl e \<Rightarrow>
               if k = n then res = Inr \<lparr>rr_success = False, rr_result = None, rr_error = Some (exc_message e),
                                       rr_attempts = int n + 1\<rparr>
               else \<exists>x. retry_pause sleep c k = Inl x \<and> res = Inl x))"

lemma retry_loop_outcome:
  assumes "rt_max_retries c = int n"
    and "retry_loop sleep c f [0 ..< nat (rt_max_retries c + 1)] None = (res, delays)"
  shows "retry_contract sleep c n f res delays"
proof -
  obtain k where k: "k \<le> n" "\<forall>i < k. goes_on sleep c f i" "\<not> goes_on sleep c f k"
    using assms(1) by (rule retry_stop_exists)
  have "int k \<le> rt_max_retries c" using k(1) assms(1) by simp
  from retry_loop_stops [OF k(2,3) this] assms(2)
  have run: "res = retry_answer sleep c f k" "delays = map (projr \<circ> get_delay c) [0 ..< k]" by simp_all
  have x: "\<exists>x. retry_pause sleep c k = Inl x" if "f k = Inl e" "k \<noteq> n" for e
    using that k(1,3) assms(1) by (auto simp: goes_on_def isl_def)
  have "\<forall>i < k. isl (f i)" using k(2) by (simp add: goes_on_def)
  moreover note ds = stopped_delays [OF k(2), folded run(2)]
  moreover have "\<forall>d \<in> set delays. d \<le> rt_max_delay c" using pause_le [OF ds] by blast
  moreover have "case f k of
      Inr r \<Rightarrow> res = Inr \<lparr>rr_success = True, rr_result = Some r, rr_error = None, rr_attempts = int k + 1\<rparr>
    | Inl e \<Rightarrow>
        if k = n then res = Inr \<lparr>rr_success = False, rr_result = None, rr_error = Some (exc_message e),
                                rr_attempts = int n + 1\<rparr>
        else \<exists>x. retry_pause sleep c k = Inl x \<and> res = Inl x"
    using x assms(1) k(1) by (auto simp: run(1) retry_answer_def split: sum.split)
  ultimately show ?thesis unfolding retry_contract_def using k(1) by blast
qed

lemma sane_goes_on:
  assumes "sane_retry c"
  shows "goes_on time_sleep c f i \<longleftrightarrow> isl (f i) \<and> int i < rt_max_retries c"
    "goes_on asyncio_sleep c f i \<longleftrightarrow> isl (f i) \<and> int i < rt_max_retries c"
  using sane_pause [OF assms, of i] by (auto simp: goes_on_def retry_pause_def asyncio_sleep_def)

lemma sane_retry_returns:
  assumes "sane_retry c" "rt_max_retries c = int n"
  shows "retry_sync (Some c) f = retry_with_backoff (Some c) f \<and> \<not> isl (fst (retry_sync (Some c) f))"
proof -
  obtain k where k: "k \<le> n" "\<forall>i < k. goes_on time_sleep c f i" "\<not> goes_on time_sleep c f k"
    using assms(2) by (rule retry_stop_exists)
  then have k': "\<forall>i < k. goes_on asyncio_sleep c f i" "\<not> goes_on asyncio_sleep c f k"
    by (simp_all add: sane_goes_on [OF assms(1)])
  have le: "int k \<le> rt_max_retries c" using k(1) assms(2) by simp
  have "retry_answer time_sleep c f k = retry_answer asyncio_sleep c f k \<and> \<not> isl (retry_answer time_sleep c f k)"
    using k(3) by (auto simp: retry_answer_def sane_goes_on [OF assms(1)] split: sum.split)
  then show ?thesis
    using retry_loop_stops [OF k(2,3) le] retry_loop_stops [OF k' le]
    by (auto simp: retry_sync_def retry_with_backoff_def Let_def)
qed

text \<open>
  C29: a retried call returns or raises after at most one call more than the retries allowed, in the
  synchronous and the asynchronous version. All calls before the last one made failed, and behind
  each of them a delay was slept, none above the maximum. If the last one succeeds its result is returned with
  the number of calls; if all allowed calls fail, the last error is; otherwise the pause behind a failed call
  raised, and that exception escapes: the power overflows, or \<open>time.sleep\<close> refuses the delay.
  With a configuration without negative or unsleepable numbers nothing escapes and the versions agree.
\<close>

theorem retry_returns:
  assumes "rt_max_retries c = int n"
  shows "(\<exists>res delays. retry_sync (Some c) f = (res, delays) \<and> retry_contract time_sleep c n f res delays)
    \<and> (\<exists>res delays. retry_with_backoff (Some c) f = (res, delays) \<and> retry_contract asyncio_sleep c n f res delays)
    \<and> (sane_retry c \<longrightarrow>
         retry_sync (Some c) f = retry_with_backoff (Some c) f \<and> \<not> isl (fst (retry_sync (Some c) f)))"
proof (intro conjI impI)
  show "\<exists>res delays. retry_sync (Some c) f = (res, delays) \<and> retry_contract time_sleep c n f res delays"
    by (cases "retry_sync (Some c) f") (auto simp: retry_sync_def Let_def dest: retry_loop_outcome [OF assms])
  show "\<exists>res delays. retry_with_backoff (Some c) f = (res, delays) \<and> retry_contract asyncio_sleep c n f res delays"
    by (cases "retry_with_backoff (Some c) f")
       (auto simp: retry_with_backoff_def Let_def dest: retry_loop_outcome [OF assms])
qed (use sane_retry_returns [OF _ assms] in blast)+

theorem retry_returns_witness:
  "\<exists>res delays. retry_sync (Some default_retry) (\<lambda>i. if i < 2 then Inl (OSError ''down'') else Inr i) = (res, delays)
     \<and> retry_contract time_sleep default_retry 3 (\<lambda>i. if i < 2 then Inl (OSError ''down'') else Inr i) res delays
     \<and> \<not> isl res"
proof -
  let ?f = "\<lambda>i. if i < 2 then Inl (OSError ''down'') else Inr i"
  have a: "rt_max_retries default_retry = int 3" by (simp add: default_retry_def)
  have "sane_retry default_retry"
    by (auto simp: sane_retry_def default_retry_def float_limit_def less_Suc_eq numeral_3_eq_3)
  with retry_returns [OF a, of ?f] show ?thesis by auto
qed

text \<open>
  A negative base delay is where the two versions part: behind a first call that fails the synchronous one
  raises, and the asynchronous one calls again at once.
\<close>

theorem negative_delay_escapes:
  assumes "rt_base_delay c < 0" "- (2 ^ 63) \<le> rt_base_delay c * 10 ^ 9" "0 \<le> rt_max_delay c"
    and "0 < rt_max_retries c" "f 0 = Inl e" "f 1 = Inr r"
  shows "retry_sync (Some c) f = (Inl (ValueError ''sleep length must be non-negative''), [])
    \<and> fst (retry_with_backoff (Some c) f)
        = Inr \<lparr>rr_success = True, rr_result = Some r, rr_error = None, rr_attempts = 2\<rparr>"
proof -
  have "(1::rat) < float_limit" by (simp add: float_limit_def)
  then have d: "get_delay c 0 = Inr (rt_base_delay c)"
    using assms(1,3) by (simp add: get_delay_def float_pow_def min_def)
  have "time_sleep (rt_base_delay c) = Inl (ValueError ''sleep length must be non-negative'')"
    using assms(1,2) by (simp add: time_sleep_def)
  then have t: "retry_pause time_sleep c 0 = Inl (ValueError ''sleep length must be non-negative'')"
    by (simp add: retry_pause_def d)
  have a: "retry_pause asyncio_sleep c 0 = Inr (rt_base_delay c)"
    by (simp add: retry_pause_def d asyncio_sleep_def)
  have u: "[0 ..< nat (rt_max_retries c + 1)] = 0 # 1 # [2 ..< nat (rt_max_retries c + 1)]"
    using assms(4) by (simp add: upt_conv_Cons numeral_2_eq_2)
  show ?thesis
    using assms(4-6) t a unfolding retry_sync_def retry_with_backoff_def Let_def option.case u by simp
qed

section \<open>Dead letters\<close>

text \<open>
  A queue that was persisted is read back into an empty queue of the same size item by item, in
  order, and persisting it empties the queue.
\<close>

theorem dead_letters_roundtrip:
  assumes "dlq_ok q" and "dq_path q"
  shows "\<exists>q'. dlq_persist Dumped q = (Inr (), q') \<and> dq_items q' = []
    \<and> dlq_load q' = (Inr (length (dq_items q)), q'\<lparr>dq_items := dq_items q\<rparr>)"
  using persist_load [OF assms] .

theorem dead_letters_roundtrip_witness:
  "\<exists>q'. dlq_persist Dumped \<lparr>dq_items = [\<lparr>dl_timestamp = JString ''t'', dl_session = JString ''s'', dl_window = JNumber 0,
          dl_message = JString ''m'', dl_error = JNull, dl_attempts = JNumber 3\<rparr>],
        dq_max_size = 1, dq_path = True, dq_file = Absent\<rparr> = (Inr (), q')
     \<and> fst (dlq_load q') = Inr 1"
proof -
  let ?q = "\<lparr>dq_items = [\<lparr>dl_timestamp = JString ''t'', dl_session = JString ''s'', dl_window = JNumber 0,
          dl_message = JString ''m'', dl_error = JNull, dl_attempts = JNumber 3\<rparr>],
        dq_max_size = 1, dq_path = True, dq_file = Absent\<rparr>"
  have "dlq_ok ?q" "dq_path ?q" by (simp_all add: dlq_ok_def)
  from dead_letters_roundtrip [OF this] show ?thesis by auto
qed

end
