(* ===== verification/Observation.thy ===== *)
theory Observation
  imports Json Py_Strings Sql_Table "HOL-Library.Char_ord" "HOL-Library.List_Lexorder"
begin

text \<open>
  The memory entry (src/domain/entities/observation.py): its fields, the checks of its constructor on
  arbitrary Python values, and the ways the memory code normalises a project name and a topic key.
\<close>

section \<open>The entity\<close>

text \<open>
  The fields, with the types of the metadata and of the session id left open: the entity holds a
  dictionary or None and whatever value the caller passed as session id (the one field the
  constructor does not check that can come from a file), a row holds two text columns.
\<close>

record ('m, 's) observation_fields =
  ob_id :: string
  ob_timestamp :: int
  ob_content :: string
  ob_title :: "string option"
  ob_metadata :: 'm
  ob_idempotency_key :: "string option"
  ob_project :: "string option"
  ob_type :: "string option"
  ob_topic_key :: "string option"
  ob_revision_count :: int
  ob_session_id :: 's

type_synonym metadata = "(string \<times> json) list"
type_synonym observation = "(metadata option, json) observation_fields"

definition allowed_types :: "string list" where
  "allowed_types =
     [''decision'', ''architecture'', ''bugfix'', ''pattern'', ''config'', ''discovery'', ''learning'',
      ''manual'', ''tool_use'', ''file_change'', ''command'', ''file_read'', ''search'',
      ''session-summary'', ''learning-batch'', ''workflow-event'', ''security'', ''performance'',
      ''preference'', ''file_ops'', ''file-ops'', ''artifacts-index'']"

definition max_topic_key_length :: nat where
  "max_topic_key_length = 128"

section \<open>The constructor\<close>

text \<open>The arguments of a constructor call, before any check.\<close>

record raw_observation =
  rw_id :: json
  rw_timestamp :: json
  rw_content :: json
  rw_title :: "string option"
  rw_metadata :: json
  rw_idempotency_key :: json
  rw_project :: json
  rw_type :: json
  rw_topic_key :: json
  rw_revision_count :: json
  rw_session_id :: json

text \<open>The \<open>isinstance\<close> tests: \<open>bool\<close> is a subclass of \<open>int\<close>.\<close>

fun as_str :: "string \<Rightarrow> json \<Rightarrow> string result" where
  "as_str name (JString s) = Inr s"
| "as_str name v = Inl (TypeError (name @ '' must be a string''))"

fun as_int :: "string \<Rightarrow> json \<Rightarrow> int result" where
  "as_int name (JNumber n) = Inr n"
| "as_int name (JBool b) = Inr (if b then 1 else 0)"
| "as_int name v = Inl (TypeError (name @ '' must be an integer''))"

fun as_opt_str :: "string \<Rightarrow> json \<Rightarrow> string option result" where
  "as_opt_str name JNull = Inr None"
| "as_opt_str name (JString s) = Inr (Some s)"
| "as_opt_str name v = Inl (TypeError (name @ '' must be a string or None''))"

fun as_opt_dict :: "string \<Rightarrow> json \<Rightarrow> metadata option result" where
  "as_opt_dict name JNull = Inr None"
| "as_opt_dict name (JObject kvs) = Inr (Some kvs)"
| "as_opt_dict name v = Inl (TypeError (name @ '' must be a dict or None''))"

definition refuse :: "bool \<Rightarrow> string \<Rightarrow> unit result" where
  "refuse b m = (if b then Inl (ValueError m) else Inr ())"

definition has_nul :: "string \<Rightarrow> bool" where
  "has_nul s \<longleftrightarrow> CHR 0x00 \<in> set s"

definition check_content :: "string \<Rightarrow> unit result" where
  "check_content c =
     res_bind (refuse (has_nul c) (''content must not contain null bytes ('' @ [CHR 0x5C] @ ''x00)'')) (\<lambda>_.
     refuse (c = []) ''content must not be empty'')"

fun check_topic_key :: "string option \<Rightarrow> unit result" where
  "check_topic_key None = Inr ()"
| "check_topic_key (Some k) =
     res_bind (refuse (k = []) ''topic_key must not be empty'') (\<lambda>_.
     res_bind (refuse (CHR '' '' \<in> set k) ''topic_key must not contain spaces'') (\<lambda>_.
     res_bind (refuse (has_nul k) ''topic_key must not contain null bytes'') (\<lambda>_.
     refuse (length k > max_topic_key_length)
       (''topic_key must not exceed '' @ show_nat max_topic_key_length @ '' characters (got ''
         @ show_nat (length k) @ '')''))))"

fun check_type :: "string option \<Rightarrow> unit result" where
  "check_type None = Inr ()"
| "check_type (Some t) =
     refuse (t \<notin> set allowed_types)
       (''type must be one of ['' @ join '', '' (map quoted (sort allowed_types)) @ ''] or None'')"

fun check_project :: "string option \<Rightarrow> unit result" where
  "check_project None = Inr ()"
| "check_project (Some p) =
     res_bind (refuse (py_strip p = []) ''project must not be empty or whitespace-only'') (\<lambda>_.
     refuse (has_nul p) ''project must not contain null bytes'')"

definition post_init :: "raw_observation \<Rightarrow> observation result" where
  "post_init r =
     res_bind (as_str ''id'' (rw_id r)) (\<lambda>i.
     res_bind (refuse (i = []) ''id must not be empty'') (\<lambda>_.
     res_bind (as_int ''timestamp'' (rw_timestamp r)) (\<lambda>ts.
     res_bind (refuse (ts < 0) ''timestamp must be non-negative'') (\<lambda>_.
     res_bind (as_str ''content'' (rw_content r)) (\<lambda>c.
     res_bind (check_content c) (\<lambda>_.
     res_bind (as_opt_dict ''metadata'' (rw_metadata r)) (\<lambda>md.
     res_bind (as_opt_str ''idempotency_key'' (rw_idempotency_key r)) (\<lambda>ik.
     res_bind (refuse (ik = Some []) ''idempotency_key must not be empty'') (\<lambda>_.
     res_bind (as_opt_str ''topic_key'' (rw_topic_key r)) (\<lambda>tk.
     res_bind (check_topic_key tk) (\<lambda>_.
     res_bind (as_int ''revision_count'' (rw_revision_count r)) (\<lambda>rc.
     res_bind (refuse (rc < 1) ''revision_count must be at least 1'') (\<lambda>_.
     res_bind (as_opt_str ''type'' (rw_type r)) (\<lambda>ty.
     res_bind (check_type ty) (\<lambda>_.
     res_bind (as_opt_str ''project'' (rw_project r)) (\<lambda>pr.
     res_bind (check_project pr) (\<lambda>_.
     Inr \<lparr>ob_id = i, ob_timestamp = ts, ob_content = c, ob_title = rw_title r, ob_metadata = md,
          ob_idempotency_key = ik, ob_project = pr, ob_type = ty, ob_topic_key = tk,
          ob_revision_count = rc, ob_session_id = rw_session_id r\<rparr>)))))))))))))))))"

text \<open>A call with arguments that already have the annotated types.\<close>

fun json_str :: "string option \<Rightarrow> json" where
  "json_str None = JNull"
| "json_str (Some s) = JString s"

fun json_dict :: "metadata option \<Rightarrow> json" where
  "json_dict None = JNull"
| "json_dict (Some kvs) = JObject kvs"

definition raw_of :: "observation \<Rightarrow> raw_observation" where
  "raw_of x =
     \<lparr>rw_id = JString (ob_id x), rw_timestamp = JNumber (ob_timestamp x),
      rw_content = JString (ob_content x), rw_title = ob_title x, rw_metadata = json_dict (ob_metadata x),
      rw_idempotency_key = json_str (ob_idempotency_key x), rw_project = json_str (ob_project x),
      rw_type = json_str (ob_type x), rw_topic_key = json_str (ob_topic_key x),
      rw_revision_count = JNumber (ob_revision_count x), rw_session_id = ob_session_id x\<rparr>"

definition make_observation :: "observation \<Rightarrow> observation result" where
  "make_observation x = post_init (raw_of x)"

section \<open>What the checks establish\<close>

definition valid_topic_key :: "string option \<Rightarrow> bool" where
  "valid_topic_key k \<longleftrightarrow>
     (case k of None \<Rightarrow> True
      | Some s \<Rightarrow> s \<noteq> [] \<and> CHR '' '' \<notin> set s \<and> \<not> has_nul s \<and> length s \<le> max_topic_key_length)"

definition valid_project :: "string option \<Rightarrow> bool" where
  "valid_project p \<longleftrightarrow> (case p of None \<Rightarrow> True | Some s \<Rightarrow> py_strip s \<noteq> [] \<and> \<not> has_nul s)"

definition valid_type :: "string option \<Rightarrow> bool" where
  "valid_type t \<longleftrightarrow> (case t of None \<Rightarrow> True | Some s \<Rightarrow> s \<in> set allowed_types)"

definition valid_observation :: "observation \<Rightarrow> bool" where
  "valid_observation x \<longleftrightarrow>
     ob_id x \<noteq> [] \<and> 0 \<le> ob_timestamp x \<and> ob_content x \<noteq> [] \<and> \<not> has_nul (ob_content x)
     \<and> ob_idempotency_key x \<noteq> Some [] \<and> valid_topic_key (ob_topic_key x)
     \<and> 1 \<le> ob_revision_count x \<and> valid_type (ob_type x) \<and> valid_project (ob_project x)"

lemma refuse_Inr_iff [simp]: "refuse b m = Inr u \<longleftrightarrow> \<not> b"
  by (cases u) (simp add: refuse_def)

lemma refuse_run: "refuse b m = (if b then Inl (ValueError m) else Inr ())"
  by (simp add: refuse_def)

lemma check_content_Inr [simp]: "check_content c = Inr u \<longleftrightarrow> c \<noteq> [] \<and> \<not> has_nul c"
  by (auto simp: check_content_def res_bind_Inr_iff)

lemma check_topic_key_Inr [simp]: "check_topic_key k = Inr u \<longleftrightarrow> valid_topic_key k"
  by (cases k) (auto simp: valid_topic_key_def res_bind_Inr_iff)

lemma check_type_Inr [simp]: "check_type t = Inr u \<longleftrightarrow> valid_type t"
  by (cases t) (auto simp: valid_type_def)

lemma check_project_Inr [simp]: "check_project p = Inr u \<longleftrightarrow> valid_project p"
  by (cases p) (auto simp: valid_project_def res_bind_Inr_iff)

lemma as_str_Inr: "as_str n v = Inr s \<longleftrightarrow> v = JString s"
  by (cases v) auto

lemma as_opt_str_Inr: "as_opt_str n v = Inr s \<longleftrightarrow> v = json_str s"
  by (cases v; cases s) auto

lemma as_opt_dict_Inr: "as_opt_dict n v = Inr s \<longleftrightarrow> v = json_dict s"
  by (cases v; cases s) auto

lemma as_str_JString [simp]: "as_str n (JString s) = Inr s"
  by simp

lemma as_opt_str_json [simp]: "as_opt_str n (json_str s) = Inr s"
  by (simp add: as_opt_str_Inr)

lemma as_opt_dict_json [simp]: "as_opt_dict n (json_dict s) = Inr s"
  by (simp add: as_opt_dict_Inr)

text \<open>Whatever the arguments are, an object that is constructed satisfies all checks.\<close>

lemma post_init_valid: "post_init r = Inr x \<Longrightarrow> valid_observation x"
  by (auto simp: post_init_def res_bind_Inr_iff valid_observation_def)

lemma make_observation_valid: "valid_observation x \<Longrightarrow> make_observation x = Inr x"
  by (simp add: make_observation_def post_init_def raw_of_def valid_observation_def refuse_run
      res_bind_Inr_iff)

lemma make_observation_Inr: "make_observation x = Inr y \<longleftrightarrow> y = x \<and> valid_observation x"
proof
  assume h: "make_observation x = Inr y"
  then have "y = x"
    by (auto simp: make_observation_def post_init_def raw_of_def res_bind_Inr_iff)
  with h show "y = x \<and> valid_observation x"
    by (auto simp: make_observation_def dest: post_init_valid)
qed (simp add: make_observation_valid)

section \<open>Normal forms of project names and topic keys\<close>

definition normalize_project_name :: "string \<Rightarrow> string" where
  "normalize_project_name name = rstrip_char (CHR ''/'') (py_lower (py_strip name))"

definition normalize_project :: "string option \<Rightarrow> string option" where
  "normalize_project p = map_option normalize_project_name p"

definition normalize_topic_key :: "string \<Rightarrow> string" where
  "normalize_topic_key k = py_strip (py_lower k)"

text \<open>SQLite's \<open>LOWER\<close> folds the letters of ASCII only.\<close>

definition sql_lower :: "string \<Rightarrow> string" where
  "sql_lower s = map (\<lambda>c. let n = of_char c :: nat in if 65 \<le> n \<and> n \<le> 90 then char_of (n + 32) else c) s"

text \<open>
  A project name in normal form is one that normalising leaves alone. Normalising is not idempotent:
  white space before a final slash survives it.
\<close>

definition normal_project :: "string \<Rightarrow> bool" where
  "normal_project p \<longleftrightarrow> normalize_project_name p = p"

lemma normalize_not_idempotent:
  "normalize_project_name ''a /'' = ''a '' \<and> normalize_project_name ''a '' = ''a''"
  by code_simp

end
