(* ===== verification/Session.thy ===== *)
theory Session
  imports Observation
begin

text \<open>
  Work sessions (src/domain/entities/session.py), their table (session_repository.py) and the service
  that opens and closes them (session_service.py). The operations work on the table alone; the clock and
  the fresh id are arguments.
\<close>

section \<open>The entity\<close>

record session =
  se_id :: string
  se_project :: string
  se_directory :: string
  se_started_at :: int
  se_ended_at :: "int option"
  se_goal :: "string option"
  se_instructions :: "string option"
  se_summary :: "string option"

definition valid_session :: "session \<Rightarrow> bool" where
  "valid_session s \<longleftrightarrow>
     se_id s \<noteq> [] \<and> se_project s \<noteq> [] \<and> se_directory s \<noteq> [] \<and> 0 \<le> se_started_at s
     \<and> (case se_ended_at s of None \<Rightarrow> True | Some t \<Rightarrow> 0 \<le> t)"

definition make_session :: "session \<Rightarrow> session result" where
  "make_session s =
     (if se_id s = [] then Inl (ValueError ''id cannot be empty'')
      else if se_project s = [] then Inl (ValueError ''project cannot be empty'')
      else if se_directory s = [] then Inl (ValueError ''directory cannot be empty'')
      else if se_started_at s < 0 then Inl (ValueError ''started_at must be non-negative'')
      else (case se_ended_at s of
              None \<Rightarrow> Inr s
            | Some t \<Rightarrow> if t < 0 then Inl (ValueError ''ended_at must be non-negative'') else Inr s))"

definition is_active :: "session \<Rightarrow> bool" where
  "is_active s \<longleftrightarrow> se_ended_at s = None"

definition duration_ms :: "session \<Rightarrow> int option" where
  "duration_ms s = map_option (\<lambda>t. t - se_started_at s) (se_ended_at s)"

definition session_to_metadata :: "session \<Rightarrow> json" where
  "session_to_metadata s =
     JObject [(''session_id'', JString (se_id s)), (''project'', JString (se_project s)),
       (''directory'', JString (se_directory s)), (''started_at'', JNumber (se_started_at s)),
       (''ended_at'', (case se_ended_at s of None \<Rightarrow> JNull | Some t \<Rightarrow> JNumber t)),
       (''goal'', json_str (se_goal s)), (''instructions'', json_str (se_instructions s)),
       (''summary'', json_str (se_summary s))]"

lemma make_session_Inr: "make_session s = Inr x \<longleftrightarrow> x = s \<and> valid_session s"
  by (auto simp: make_session_def valid_session_def split: option.splits)

section \<open>The repository\<close>

text \<open>A row has the columns of the entity, and the entity's constructor checks it when it is read.\<close>

type_synonym session_table = "session list"

definition create_session :: "session \<Rightarrow> (session_table, unit) py" where
  "create_session s t =
     (if se_id s \<in> se_id ` set t
      then (Inl (RepositoryError (''Session with id '' @ quoted (se_id s) @ '' already exists'')), t)
      else (Inr (), t @ [s]))"

definition session_not_found :: "string \<Rightarrow> exc" where
  "session_not_found i = SessionNotFoundError (''Session '' @ quoted i @ '' not found'')"

definition get_session :: "string \<Rightarrow> session_table \<Rightarrow> session result" where
  "get_session i t =
     (case lookup_row se_id i t of None \<Rightarrow> Inl (session_not_found i) | Some r \<Rightarrow> make_session r)"

definition recent_sessions :: "string \<Rightarrow> int \<Rightarrow> session_table \<Rightarrow> session list result" where
  "recent_sessions project limit t =
     traverse make_session
       (sql_limit limit (order_desc se_started_at (filter (\<lambda>s. se_project s = project) t)))"

definition end_session_row :: "string \<Rightarrow> string option \<Rightarrow> int \<Rightarrow> (session_table, session) py" where
  "end_session_row i summary now t =
     (case lookup_row se_id i t of
        None \<Rightarrow> (Inl (session_not_found i), t)
      | Some r \<Rightarrow>
          (case make_session r of
             Inl e \<Rightarrow> (Inl e, t)
           | Inr s \<Rightarrow>
               (case make_session (s\<lparr>se_ended_at := Some now, se_summary := summary\<rparr>) of
                  Inl e \<Rightarrow> (Inl e, t)
                | Inr s' \<Rightarrow>
                    (Inr s', update_where (\<lambda>x. se_id x = i)
                       (\<lambda>x. x\<lparr>se_ended_at := Some now, se_summary := summary\<rparr>) t))))"

definition first_session :: "session list \<Rightarrow> session option result" where
  "first_session rows =
     (case order_desc se_started_at rows of
        [] \<Rightarrow> Inr None
      | r # _ \<Rightarrow> res_bind (make_session r) (\<lambda>s. Inr (Some s)))"

definition active_session :: "string \<Rightarrow> session_table \<Rightarrow> session option result" where
  "active_session project t =
     first_session (filter (\<lambda>s. se_project s = project \<and> se_ended_at s = None) t)"

definition active_session_any :: "session_table \<Rightarrow> session option result" where
  "active_session_any t = first_session (filter (\<lambda>s. se_ended_at s = None) t)"

section \<open>The service\<close>

text \<open>\<open>except Exception as e: raise ServiceError\<close>.\<close>

definition service_error :: "string \<Rightarrow> exc \<Rightarrow> exc" where
  "service_error what e = ServiceError (what @ '': '' @ exc_message e)"

definition or_service_error :: "string \<Rightarrow> 'a result \<Rightarrow> 'a result" where
  "or_service_error what r = (case r of Inl e \<Rightarrow> Inl (service_error what e) | Inr a \<Rightarrow> Inr a)"

text \<open>The clock is read twice: for the end of the old session and for the start of the new one.\<close>

definition start_session ::
  "string \<Rightarrow> int \<Rightarrow> int \<Rightarrow> string \<Rightarrow> string \<Rightarrow> string option \<Rightarrow> string option
     \<Rightarrow> (session_table, session) py" where
  "start_session new_id ending now project directory goal instructions =
     py_catch (\<lambda>e. True)
       (py_bind (py_read (active_session project)) (\<lambda>active.
        py_bind (case active of
                   None \<Rightarrow> py_return ()
                 | Some a \<Rightarrow> py_bind (end_session_row (se_id a) (Some ''Auto-ended: new session started'') ending)
                              (\<lambda>_. py_return ())) (\<lambda>_.
        py_bind (py_lift (make_session
          \<lparr>se_id = new_id, se_project = project, se_directory = directory, se_started_at = now,
           se_ended_at = None, se_goal = goal, se_instructions = instructions, se_summary = None\<rparr>)) (\<lambda>s.
        py_bind (create_session s) (\<lambda>_. py_return s)))))
       (\<lambda>e. py_raise (service_error ''Failed to start session'' e))"

fun is_session_not_found :: "exc \<Rightarrow> bool" where
  "is_session_not_found (SessionNotFoundError m) = True"
| "is_session_not_found e = False"

definition end_session :: "string \<Rightarrow> string option \<Rightarrow> int \<Rightarrow> (session_table, session) py" where
  "end_session i summary now =
     py_catch (\<lambda>e. \<not> is_session_not_found e) (end_session_row i summary now)
       (\<lambda>e. py_raise (service_error ''Failed to end session'' e))"

definition session_context :: "string \<Rightarrow> int \<Rightarrow> session_table \<Rightarrow> session list result" where
  "session_context project limit t =
     or_service_error ''Failed to get session context'' (recent_sessions project limit t)"

definition service_active :: "string \<Rightarrow> session_table \<Rightarrow> session option result" where
  "service_active project t =
     or_service_error ''Failed to get active session'' (active_session project t)"

definition service_active_any :: "session_table \<Rightarrow> session option result" where
  "service_active_any t = or_service_error ''Failed to get active session'' (active_session_any t)"

definition list_sessions :: "string \<Rightarrow> int \<Rightarrow> bool \<Rightarrow> session_table \<Rightarrow> session list result" where
  "list_sessions project limit include_active t =
     or_service_error ''Failed to list sessions''
       (res_bind (recent_sessions project limit t) (\<lambda>ss.
        Inr (if include_active then ss else filter (\<lambda>s. se_ended_at s \<noteq> None) ss)))"

section \<open>The table in order\<close>

text \<open>Distinct ids, rows the entity accepts, and at most one session without an end per project.\<close>

definition sessions_ok :: "session_table \<Rightarrow> bool" where
  "sessions_ok t \<longleftrightarrow>
     pk_ok se_id t \<and> (\<forall>s \<in> set t. valid_session s)
     \<and> (\<forall>s \<in> set t. \<forall>s' \<in> set t.
          se_ended_at s = None \<longrightarrow> se_ended_at s' = None \<longrightarrow> se_project s = se_project s' \<longrightarrow> s = s')"

lemma first_session_ok:
  assumes "\<forall>s \<in> set rows. valid_session s"
  shows "first_session rows = Inr None \<and> rows = []
         \<or> (\<exists>s \<in> set rows. first_session rows = Inr (Some s))"
proof (cases "order_desc se_started_at rows")
  case Nil
  then have "rows = []" by simp
  then show ?thesis by (simp add: first_session_def order_desc_def)
next
  case (Cons r rs)
  then have "r \<in> set rows" by (metis list.set_intros(1) set_order_desc)
  moreover from this assms have "make_session r = Inr r" by (simp add: make_session_Inr)
  ultimately show ?thesis using Cons by (auto simp: first_session_def)
qed

lemma active_session_ok:
  assumes "sessions_ok t"
  shows "active_session p t = Inr None \<and> (\<forall>s \<in> set t. se_project s = p \<longrightarrow> se_ended_at s \<noteq> None)
         \<or> (\<exists>s \<in> set t. se_project s = p \<and> se_ended_at s = None \<and> active_session p t = Inr (Some s))"
proof -
  let ?rows = "filter (\<lambda>s. se_project s = p \<and> se_ended_at s = None) t"
  have "\<forall>s \<in> set ?rows. valid_session s" using assms by (simp add: sessions_ok_def)
  from first_session_ok [OF this] show ?thesis
    by (auto simp: active_session_def filter_empty_conv)
qed

text \<open>What ending a session does to the table, and that it keeps the order.\<close>

definition ended :: "string \<Rightarrow> string option \<Rightarrow> int \<Rightarrow> session_table \<Rightarrow> session_table" where
  "ended i summary now t =
     update_where (\<lambda>x. se_id x = i) (\<lambda>x. x\<lparr>se_ended_at := Some now, se_summary := summary\<rparr>) t"

lemma end_session_row_cases:
  assumes "sessions_ok t" and "0 \<le> now"
  shows "end_session_row i summary now t =
           (case lookup_row se_id i t of
              None \<Rightarrow> (Inl (session_not_found i), t)
            | Some s \<Rightarrow> (Inr (s\<lparr>se_ended_at := Some now, se_summary := summary\<rparr>), ended i summary now t))"
proof (cases "lookup_row se_id i t")
  case (Some r)
  then have "valid_session r" using assms(1) lookup_row_Some [of se_id i t r]
    by (auto simp: sessions_ok_def)
  moreover from this have "valid_session (r\<lparr>se_ended_at := Some now, se_summary := summary\<rparr>)"
    using assms(2) by (simp add: valid_session_def)
  ultimately show ?thesis using Some
    by (simp add: end_session_row_def ended_def make_session_Inr [THEN iffD2])
qed (simp add: end_session_row_def)

lemma sessions_ok_ended:
  assumes "sessions_ok t" and "0 \<le> now"
  shows "sessions_ok (ended i summary now t)"
proof -
  have "pk_ok se_id (ended i summary now t)"
    using assms(1) by (simp add: sessions_ok_def ended_def pk_ok_update_where)
  moreover have "\<forall>s \<in> set (ended i summary now t). valid_session s"
    using assms by (auto simp: sessions_ok_def ended_def update_where_def valid_session_def
        split: if_splits)
  moreover have "s = s'"
    if "s \<in> set (ended i summary now t)" "s' \<in> set (ended i summary now t)" "se_ended_at s = None"
      "se_ended_at s' = None" "se_project s = se_project s'" for s s'
  proof -
    have "s \<in> set t" "s' \<in> set t"
      using that by (auto simp: ended_def set_update_where)
    with that assms(1) show ?thesis by (simp add: sessions_ok_def)
  qed
  ultimately show ?thesis by (auto simp: sessions_ok_def)
qed

lemma sessions_ok_append:
  assumes "sessions_ok t" "valid_session s" "se_id s \<notin> se_id ` set t"
    and "\<forall>x \<in> set t. se_project x = se_project s \<longrightarrow> se_ended_at x \<noteq> None"
  shows "sessions_ok (t @ [s])"
  using assms by (auto simp: sessions_ok_def intro: pk_ok_append1)

text \<open>Ending a session keeps the order whatever the clock says: a refused entity writes nothing.\<close>

lemma sessions_ok_end_row:
  assumes "sessions_ok t"
  shows "sessions_ok (snd (end_session_row i summary now t))"
proof (cases "0 \<le> now")
  case True
  with end_session_row_cases [OF assms True, of i summary] assms sessions_ok_ended [OF assms True] show ?thesis
    by (simp split: option.splits)
next
  case False
  then have "make_session (s\<lparr>se_ended_at := Some now, se_summary := summary\<rparr>) \<noteq> Inr x" for s x
    by (auto simp: make_session_Inr valid_session_def)
  with assms show ?thesis
    by (auto simp: end_session_row_def split: option.splits sum.splits)
qed

section \<open>What starting a session does\<close>

text \<open>The table after the sessions of a project that have no end were ended.\<close>

definition others_kept :: "string \<Rightarrow> session_table \<Rightarrow> session_table \<Rightarrow> bool" where
  "others_kept p t t' \<longleftrightarrow>
     filter (\<lambda>s. se_project s \<noteq> p) t' = filter (\<lambda>s. se_project s \<noteq> p) t
     \<and> (\<forall>s \<in> set t'. se_project s = p \<longrightarrow> se_ended_at s \<noteq> None)"

lemma filter_update_where_other:
  assumes "\<And>x. x \<in> set t \<Longrightarrow> Q x \<Longrightarrow> \<not> P x \<and> \<not> P (f x)"
  shows "filter P (update_where Q f t) = filter P t"
  using assms by (induction t) (simp_all add: update_where_def)

lemma filter_ended:
  assumes "sessions_ok t" "a \<in> set t" "se_project a = p"
  shows "filter (\<lambda>s. se_project s \<noteq> p) (ended (se_id a) summary now t) = filter (\<lambda>s. se_project s \<noteq> p) t"
proof -
  have "se_project s = p" if "s \<in> set t" "se_id s = se_id a" for s
    using that assms pk_unique [of se_id t s a] by (simp add: sessions_ok_def)
  then show ?thesis
    unfolding ended_def by (intro filter_update_where_other) simp
qed

lemma start_prelude:
  assumes "sessions_ok t" "0 \<le> now"
  shows "\<exists>t'. py_bind (py_read (active_session p)) (\<lambda>active. py_bind (case active of
              None \<Rightarrow> py_return ()
            | Some a \<Rightarrow> py_bind (end_session_row (se_id a) summary now) (\<lambda>_. py_return ())) k) t = k () t'
           \<and> sessions_ok t' \<and> others_kept p t t' \<and> se_id ` set t' = se_id ` set t"
  using active_session_ok [OF assms(1), of p]
proof
  assume h: "active_session p t = Inr None \<and> (\<forall>s \<in> set t. se_project s = p \<longrightarrow> se_ended_at s \<noteq> None)"
  with assms(1) show ?thesis by (intro exI [of _ t]) (simp add: py_simps others_kept_def)
next
  assume "\<exists>s \<in> set t. se_project s = p \<and> se_ended_at s = None \<and> active_session p t = Inr (Some s)"
  then obtain a where a: "a \<in> set t" "se_project a = p" "se_ended_at a = None" "active_session p t = Inr (Some a)"
    by blast
  have "lookup_row se_id (se_id a) t = Some a"
    using assms(1) a(1) by (simp add: sessions_ok_def lookup_row_iff)
  with end_session_row_cases [OF assms, of "se_id a" summary]
  have run: "end_session_row (se_id a) summary now t =
      (Inr (a\<lparr>se_ended_at := Some now, se_summary := summary\<rparr>), ended (se_id a) summary now t)" by simp
  have "se_ended_at s \<noteq> None" if "s \<in> set (ended (se_id a) summary now t)" "se_project s = p" for s
  proof
    assume n: "se_ended_at s = None"
    with that(1) have "s \<in> set t" "se_id s \<noteq> se_id a" by (auto simp: ended_def set_update_where)
    with a n that(2) assms(1) show False by (auto simp: sessions_ok_def)
  qed
  with filter_ended [OF assms(1) a(1,2), of summary now]
  have "others_kept p t (ended (se_id a) summary now t)" by (simp add: others_kept_def)
  moreover have "map se_id (ended (se_id a) summary now t) = map se_id t"
    by (simp add: ended_def update_where_def)
  then have "se_id ` set (ended (se_id a) summary now t) = se_id ` set t"
    by (metis list.set_map)
  ultimately show ?thesis
    using a(4) run sessions_ok_ended [OF assms]
    by (intro exI [of _ "ended (se_id a) summary now t"]) (simp add: py_simps py_bind_def py_return_def)
qed

definition new_session :: "string \<Rightarrow> int \<Rightarrow> string \<Rightarrow> string \<Rightarrow> string option \<Rightarrow> string option \<Rightarrow> session" where
  "new_session i now p dir goal instructions =
     \<lparr>se_id = i, se_project = p, se_directory = dir, se_started_at = now, se_ended_at = None, se_goal = goal,
      se_instructions = instructions, se_summary = None\<rparr>"

text \<open>
  Starting a session ends the active session of the project first. With valid arguments and a fresh id the
  new session is then added; otherwise the start raises, and the old session stays ended.
\<close>

lemma start_session_cases:
  assumes "sessions_ok t" "0 \<le> ending"
  shows "\<exists>t'. sessions_ok t' \<and> others_kept p t t' \<and> se_id ` set t' = se_id ` set t \<and>
    start_session i ending now p dir goal instructions t =
      (let s = new_session i now p dir goal instructions
       in if valid_session s \<and> i \<notin> se_id ` set t then (Inr s, t' @ [s])
          else (fst (start_session i ending now p dir goal instructions t), t'))
    \<and> (\<not> (p \<noteq> [] \<and> dir \<noteq> [] \<and> i \<noteq> [] \<and> 0 \<le> now \<and> i \<notin> se_id ` set t)
         \<longrightarrow> (\<exists>m. fst (start_session i ending now p dir goal instructions t) = Inl (ServiceError m)))"
proof -
  let ?s = "new_session i now p dir goal instructions"
  let ?k = "\<lambda>_. py_bind (py_lift (make_session ?s)) (\<lambda>s. py_bind (create_session s) (\<lambda>_. py_return s))"
  from start_prelude [OF assms, of p "Some ''Auto-ended: new session started''" ?k] obtain t' where
    t': "sessions_ok t'" "others_kept p t t'" "se_id ` set t' = se_id ` set t" and
    run: "start_session i ending now p dir goal instructions t =
      py_catch (\<lambda>e. True) (\<lambda>_. ?k () t') (\<lambda>e. py_raise (service_error ''Failed to start session'' e)) t"
    by (auto simp: start_session_def new_session_def py_catch_def)
  have v: "valid_session ?s \<longleftrightarrow> p \<noteq> [] \<and> dir \<noteq> [] \<and> i \<noteq> [] \<and> 0 \<le> now"
    by (auto simp: valid_session_def new_session_def)
  have id: "se_id ?s = i" by (simp add: new_session_def)
  show ?thesis
  proof (cases "make_session ?s")
    case (Inl e)
    then have "\<not> valid_session ?s" using make_session_Inr [of ?s ?s] by auto
    with Inl run v t' show ?thesis
      by (intro exI [of _ t']) (simp add: py_catch_def py_bind_def py_lift_def py_raise_def service_error_def Let_def)
  next
    case (Inr z)
    then have z: "z = ?s" "valid_session ?s" by (simp_all add: make_session_Inr)
    with Inr run v t' id show ?thesis
      by (intro exI [of _ t'])
         (simp add: py_catch_def py_bind_def py_lift_def py_raise_def py_return_def create_session_def
           service_error_def Let_def)
  qed
qed

end
