(* ===== verification/Sync_Journal.thy ===== *)
theory Sync_Journal
  imports Observation Session
begin

text \<open>
  The entities of the synchronisation (src/domain/entities/sync.py) and their repository
  (sync_repository.py): the imported chunks, the journal of mutations with its AUTOINCREMENT sequence,
  and the status row. A JSON text in a column is represented by what \<open>json.loads\<close> makes of it.
\<close>

section \<open>Entities\<close>

record sync_chunk =
  sc_id :: string
  sc_source :: string
  sc_imported_at :: int
  sc_observation_count :: int
  sc_checksum :: string

definition make_chunk :: "sync_chunk \<Rightarrow> sync_chunk result" where
  "make_chunk c =
     (if sc_id c = [] then Inl (ValueError ''chunk_id cannot be empty'')
      else if sc_source c = [] then Inl (ValueError ''source cannot be empty'')
      else if sc_imported_at c < 0 then Inl (ValueError ''imported_at must be non-negative'')
      else if sc_observation_count c < 0 then Inl (ValueError ''observation_count must be non-negative'')
      else if sc_checksum c = [] then Inl (ValueError ''checksum cannot be empty'')
      else Inr c)"

record sync_mutation =
  sm_seq :: int
  sm_entity :: string
  sm_entity_key :: string
  sm_op :: string
  sm_payload :: state_file
  sm_source :: string
  sm_project :: string
  sm_created_at :: int

definition mutation_ops :: "string list" where
  "mutation_ops = [''insert'', ''update'', ''delete'']"

definition make_mutation :: "sync_mutation \<Rightarrow> sync_mutation result" where
  "make_mutation m =
     (if sm_seq m < 0 then Inl (ValueError ''seq must be non-negative'')
      else if sm_entity m = [] then Inl (ValueError ''entity cannot be empty'')
      else if sm_entity_key m = [] then Inl (ValueError ''entity_key cannot be empty'')
      else if sm_op m \<notin> set mutation_ops then Inl (ValueError ''op must be one of: insert, update, delete'')
      else if sm_source m = [] then Inl (ValueError ''source cannot be empty'')
      else if sm_created_at m < 0 then Inl (ValueError ''created_at must be non-negative'')
      else Inr m)"

definition valid_mutation :: "sync_mutation \<Rightarrow> bool" where
  "valid_mutation m \<longleftrightarrow>
     0 \<le> sm_seq m \<and> sm_entity m \<noteq> [] \<and> sm_entity_key m \<noteq> [] \<and> sm_op m \<in> set mutation_ops
     \<and> sm_source m \<noteq> [] \<and> 0 \<le> sm_created_at m"

record sync_status =
  ss_last_export_at :: "int option"
  ss_last_import_at :: "int option"
  ss_last_export_seq :: int
  ss_mutation_count :: int

definition initial_status :: sync_status where
  "initial_status =
     \<lparr>ss_last_export_at = None, ss_last_import_at = None, ss_last_export_seq = 0, ss_mutation_count = 0\<rparr>"

definition make_status :: "sync_status \<Rightarrow> sync_status result" where
  "make_status s =
     (if ss_last_export_seq s < 0 then Inl (ValueError ''last_export_seq must be non-negative'')
      else if ss_mutation_count s < 0 then Inl (ValueError ''mutation_count must be non-negative'')
      else Inr s)"

lemma make_mutation_Inr: "make_mutation m = Inr x \<longleftrightarrow> x = m \<and> valid_mutation m"
  by (auto simp: make_mutation_def valid_mutation_def)

lemma make_mutation_valid [simp]: "valid_mutation m \<Longrightarrow> make_mutation m = Inr m"
  by (simp add: make_mutation_Inr)

section \<open>The repository\<close>

text \<open>
  The three tables. \<open>sy_sequence\<close> is the row of \<open>sqlite_sequence\<close> for the journal: the largest
  sequence number ever given out. \<open>sy_status\<close> is the row with id 1, inserted by the migration.
\<close>

record sync_store =
  sy_chunks :: "sync_chunk list"
  sy_mutations :: "sync_mutation list"
  sy_sequence :: int
  sy_status :: "sync_status option"

definition empty_sync :: sync_store where
  "empty_sync = \<lparr>sy_chunks = [], sy_mutations = [], sy_sequence = 0, sy_status = Some initial_status\<rparr>"

definition record_chunk :: "sync_chunk \<Rightarrow> (sync_store, unit) py" where
  "record_chunk c s =
     (if sc_id c \<in> sc_id ` set (sy_chunks s)
      then (Inl (RepositoryError ''Failed to record chunk: UNIQUE constraint failed: sync_chunks.chunk_id''), s)
      else (Inr (), s\<lparr>sy_chunks := sy_chunks s @ [c]\<rparr>))"

definition get_chunk_by_id :: "string \<Rightarrow> sync_store \<Rightarrow> sync_chunk option result" where
  "get_chunk_by_id i s =
     (case lookup_row sc_id i (sy_chunks s) of
        None \<Rightarrow> Inr None
      | Some c \<Rightarrow> res_bind (make_chunk c) (\<lambda>c. Inr (Some c)))"

definition list_chunks :: "string option \<Rightarrow> sync_store \<Rightarrow> sync_chunk list result" where
  "list_chunks source s =
     traverse make_chunk (order_desc sc_imported_at
       (case source of
          None \<Rightarrow> sy_chunks s
        | Some src \<Rightarrow> if src = [] then sy_chunks s
                     else filter (\<lambda>c. sc_source c = src) (sy_chunks s)))"

text \<open>The insert and the counter of the status row are one transaction.\<close>

definition record_mutation ::
  "string \<Rightarrow> string \<Rightarrow> string \<Rightarrow> state_file \<Rightarrow> string \<Rightarrow> string \<Rightarrow> int \<Rightarrow> (sync_store, int) py" where
  "record_mutation entity key op payload source project now s =
     (if op \<notin> set mutation_ops
      then (Inl (RepositoryError ''Failed to record mutation: CHECK constraint failed: op''), s)
      else
        let seq = sy_sequence s + 1;
            m = \<lparr>sm_seq = seq, sm_entity = entity, sm_entity_key = key, sm_op = op, sm_payload = payload,
                 sm_source = source, sm_project = project, sm_created_at = now\<rparr>
        in (Inr seq,
            s\<lparr>sy_mutations := sy_mutations s @ [m], sy_sequence := seq,
              sy_status := map_option (\<lambda>x. x\<lparr>ss_mutation_count := ss_mutation_count x + 1\<rparr>) (sy_status s)\<rparr>))"

definition mutations_since :: "int \<Rightarrow> int option \<Rightarrow> sync_store \<Rightarrow> sync_mutation list result" where
  "mutations_since seq limit s =
     (let rows = order_asc sm_seq (filter (\<lambda>m. sm_seq m > seq) (sy_mutations s))
      in traverse make_mutation
           (case limit of None \<Rightarrow> rows | Some n \<Rightarrow> if n = 0 then rows else sql_limit n rows))"

definition latest_seq :: "sync_store \<Rightarrow> int" where
  "latest_seq s =
     (case sy_mutations s of [] \<Rightarrow> 0 | m # ms \<Rightarrow> fold max (map sm_seq ms) (sm_seq m))"

definition get_sync_status :: "sync_store \<Rightarrow> sync_status result" where
  "get_sync_status s = (case sy_status s of None \<Rightarrow> Inr initial_status | Some x \<Rightarrow> make_status x)"

definition or_keep :: "'a option \<Rightarrow> 'a \<Rightarrow> 'a" where
  "or_keep new old = (case new of None \<Rightarrow> old | Some x \<Rightarrow> x)"

definition update_status ::
  "int option \<Rightarrow> int option \<Rightarrow> int option \<Rightarrow> int option \<Rightarrow> (sync_store, unit) py" where
  "update_status export_at import_at export_seq mutations s =
     (Inr (), s\<lparr>sy_status := map_option (\<lambda>x. x
        \<lparr>ss_last_export_at := (case export_at of None \<Rightarrow> ss_last_export_at x | Some t \<Rightarrow> Some t),
         ss_last_import_at := (case import_at of None \<Rightarrow> ss_last_import_at x | Some t \<Rightarrow> Some t),
         ss_last_export_seq := or_keep export_seq (ss_last_export_seq x),
         ss_mutation_count := or_keep mutations (ss_mutation_count x)\<rparr>) (sy_status s)\<rparr>)"

section \<open>The journal in order\<close>

text \<open>
  The sequence numbers grow along the journal and none is above the last one given out, every entry
  is one the entity accepts, the counter is the length of the journal, and the export watermark is a
  number that was given out.
\<close>

definition journal_ok :: "sync_store \<Rightarrow> bool" where
  "journal_ok s \<longleftrightarrow>
     sorted_wrt (<) (map sm_seq (sy_mutations s))
     \<and> (\<forall>m \<in> set (sy_mutations s). valid_mutation m \<and> 0 < sm_seq m \<and> sm_seq m \<le> sy_sequence s)
     \<and> 0 \<le> sy_sequence s
     \<and> (\<exists>x. sy_status s = Some x \<and> 0 \<le> ss_last_export_seq x \<and> ss_last_export_seq x \<le> sy_sequence s
             \<and> ss_mutation_count x = int (length (sy_mutations s)))"

definition watermark :: "sync_store \<Rightarrow> int" where
  "watermark s = (case sy_status s of None \<Rightarrow> 0 | Some x \<Rightarrow> ss_last_export_seq x)"

definition pending :: "sync_store \<Rightarrow> sync_mutation list" where
  "pending s = filter (\<lambda>m. sm_seq m > watermark s) (sy_mutations s)"

lemma journal_ok_empty: "journal_ok empty_sync"
  by (simp add: journal_ok_def empty_sync_def initial_status_def)

lemma get_sync_status_ok: "journal_ok s \<Longrightarrow> sy_status s = Some x \<Longrightarrow> get_sync_status s = Inr x"
  by (auto simp: journal_ok_def get_sync_status_def make_status_def)

lemma sorted_wrt_less_sort: "sorted_wrt (<) (map (f :: 'a \<Rightarrow> int) xs) \<Longrightarrow> sort_key f xs = xs"
  by (simp add: sorted_sort_id strict_sorted_imp_sorted sort_key_id_if_sorted)

lemma sorted_wrt_filter_map:
  "sorted_wrt (<) (map (f :: 'a \<Rightarrow> int) xs) \<Longrightarrow> sorted_wrt (<) (map f (filter p xs))"
  by (induction xs) auto

lemma mutations_since_ok:
  assumes "journal_ok s"
  shows "mutations_since n None s = Inr (filter (\<lambda>m. sm_seq m > n) (sy_mutations s))"
proof -
  let ?ms = "filter (\<lambda>m. sm_seq m > n) (sy_mutations s)"
  have "order_asc sm_seq ?ms = ?ms"
    using assms by (simp add: journal_ok_def order_asc_def sorted_wrt_less_sort sorted_wrt_filter_map)
  moreover have "traverse make_mutation ?ms = Inr (map id ?ms)"
    using assms by (intro traverse_Inr) (auto simp: journal_ok_def)
  ultimately show ?thesis by (simp add: mutations_since_def)
qed

lemma record_mutation_ok:
  assumes "journal_ok s" "entity \<noteq> []" "key \<noteq> []" "op \<in> set mutation_ops" "source \<noteq> []" "0 \<le> now"
  shows "journal_ok (snd (record_mutation entity key op payload source project now s))"
proof -
  have "sorted_wrt (<) (map sm_seq (sy_mutations s) @ [sy_sequence s + 1])"
    using assms(1) by (fastforce simp: journal_ok_def sorted_wrt_append)
  with assms show ?thesis
    by (fastforce simp: record_mutation_def journal_ok_def valid_mutation_def Let_def)
qed

lemma fold_max_sorted:
  "sorted_wrt (<) (a # xs) \<Longrightarrow> fold max xs (a :: int) = last (a # xs)"
proof (induction xs arbitrary: a)
  case (Cons b xs)
  then have "max b a = b" by simp
  with Cons show ?case by simp
qed simp

lemma latest_seq_ok:
  "journal_ok s \<Longrightarrow> latest_seq s = (if sy_mutations s = [] then 0 else sm_seq (last (sy_mutations s)))"
  by (cases "sy_mutations s")
     (auto simp: journal_ok_def latest_seq_def fold_max_sorted [simplified] last_map)

end
