(* ===== verification/Observation_Repository.thy ===== *)
theory Observation_Repository
  imports Sync_Journal
begin

text \<open>
  ObservationRepository (src/infrastructure/persistence/repositories/observation_repository.py) on the
  table \<open>observations\<close> with the unique indexes of the migrations 001, 008 and 021, and its log of
  mutations in the sync journal. The full text index is a parameter of \<open>search\<close>; integers are taken
  to fit SQLite's 64 bits.
\<close>

section \<open>Rows and stores\<close>

type_synonym obs_row = "(state_file, string option) observation_fields"

record prompt_row =
  pr_id :: int
  pr_text :: string
  pr_role :: string
  pr_model :: string
  pr_provider :: string
  pr_session :: "string option"

text \<open>
  The tables the memory code uses, with the two attributes of the repository object: whether it was
  given a sync repository, and whether recording is enabled.
\<close>

record memory_store =
  me_rows :: "obs_row list"
  me_prompts :: "prompt_row list"
  me_sessions :: session_table
  me_sync :: sync_store
  me_has_sync :: bool
  me_recording :: bool

fun metadata_column :: "metadata option \<Rightarrow> state_file" where
  "metadata_column None = Absent"
| "metadata_column (Some kvs) = Holds (JObject kvs)"

text \<open>
  The value SQLite stores in the TEXT column \<open>session_id\<close>: numbers become text, and a list or a
  dictionary cannot be bound (None).
\<close>

fun session_column :: "json \<Rightarrow> string option option" where
  "session_column JNull = Some None"
| "session_column (JString s) = Some (Some s)"
| "session_column (JNumber n) = Some (Some (show_int n))"
| "session_column (JBool b) = Some (Some (if b then ''1'' else ''0''))"
| "session_column (JArray xs) = None"
| "session_column (JObject kvs) = None"

definition binding_error :: string where
  "binding_error = ''Error binding parameter: type is not supported''"

definition obs_row_of :: "observation \<Rightarrow> string option \<Rightarrow> obs_row" where
  "obs_row_of x ses =
     \<lparr>ob_id = ob_id x, ob_timestamp = ob_timestamp x, ob_content = ob_content x, ob_title = ob_title x,
      ob_metadata = metadata_column (ob_metadata x), ob_idempotency_key = ob_idempotency_key x,
      ob_project = normalize_project (ob_project x), ob_type = ob_type x, ob_topic_key = ob_topic_key x,
      ob_revision_count = ob_revision_count x, ob_session_id = ses\<rparr>"

text \<open>
  The unique indexes on \<open>idempotency_key\<close> and on \<open>(topic_key, IFNULL(project, ''))\<close>. \<open>or_empty\<close> is
  SQL's \<open>IFNULL(x, '')\<close> and Python's \<open>x or ""\<close>.
\<close>

definition or_empty :: "string option \<Rightarrow> string" where
  "or_empty x = (case x of None \<Rightarrow> [] | Some s \<Rightarrow> s)"

definition same_event :: "obs_row \<Rightarrow> obs_row \<Rightarrow> bool" where
  "same_event r x \<longleftrightarrow> ob_idempotency_key r \<noteq> None \<and> ob_idempotency_key x = ob_idempotency_key r"

definition same_topic :: "obs_row \<Rightarrow> obs_row \<Rightarrow> bool" where
  "same_topic r x \<longleftrightarrow>
     ob_topic_key r \<noteq> None \<and> ob_topic_key x = ob_topic_key r \<and> or_empty (ob_project x) = or_empty (ob_project r)"

definition conflicts :: "obs_row \<Rightarrow> obs_row list \<Rightarrow> bool" where
  "conflicts r t \<longleftrightarrow> list_ex (\<lambda>x. same_event r x \<or> same_topic r x) t"

section \<open>Reading rows\<close>

definition underscored :: "string \<Rightarrow> string" where
  "underscored s = map (\<lambda>c. if c = CHR ''-'' then CHR ''_'' else c) s"

definition known_type :: "string \<Rightarrow> string option" where
  "known_type t =
     (if t \<in> set allowed_types then Some t
      else if underscored t \<in> set allowed_types then Some (underscored t) else None)"

definition row_metadata :: "obs_row \<Rightarrow> json result" where
  "row_metadata r =
     (case ob_metadata r of
        Absent \<Rightarrow> Inr (JObject [])
      | Malformed \<Rightarrow> Inl (JSONDecodeError ''Expecting value: line 1 column 1 (char 0)'')
      | Holds d \<Rightarrow> Inr d)"

definition row_project :: "obs_row \<Rightarrow> json \<Rightarrow> json result" where
  "row_project r d =
     (case ob_project r of
        Some (c # cs) \<Rightarrow> Inr (JString (c # cs))
      | _ \<Rightarrow> json_get d ''project'' JNull)"

definition row_type :: "obs_row \<Rightarrow> json \<Rightarrow> string option" where
  "row_type r d =
     (case Option.bind (ob_type r) known_type of
        Some t \<Rightarrow> Some t
      | None \<Rightarrow>
          (case d of
             JObject kvs \<Rightarrow> (case map_of kvs ''type'' of Some (JString m) \<Rightarrow> known_type m | _ \<Rightarrow> None)
           | _ \<Rightarrow> None))"

definition row_to_observation :: "obs_row \<Rightarrow> observation result" where
  "row_to_observation r =
     res_bind (row_metadata r) (\<lambda>d.
     res_bind (row_project r d) (\<lambda>p.
     post_init
       \<lparr>rw_id = JString (ob_id r), rw_timestamp = JNumber (ob_timestamp r),
        rw_content = JString (ob_content r), rw_title = ob_title r, rw_metadata = d,
        rw_idempotency_key = json_str (ob_idempotency_key r), rw_project = p,
        rw_type = json_str (row_type r d), rw_topic_key = json_str (ob_topic_key r),
        rw_revision_count = JNumber (if ob_revision_count r = 0 then 1 else ob_revision_count r),
        rw_session_id = json_str (ob_session_id r)\<rparr>))"

section \<open>The log of mutations\<close>

definition mutation_payload :: "string \<Rightarrow> observation \<Rightarrow> json" where
  "mutation_payload i x =
     JObject [(''id'', JString i), (''content'', JString (ob_content x)),
              (''metadata'', json_dict (ob_metadata x)), (''type'', json_str (ob_type x)),
              (''topic_key'', json_str (ob_topic_key x))]"

text \<open>Failures are swallowed; none of the calls below can fail, as the operations are legal.\<close>

definition logged ::
  "string \<Rightarrow> string \<Rightarrow> string option \<Rightarrow> json \<Rightarrow> int \<Rightarrow> memory_store \<Rightarrow> memory_store" where
  "logged op key project payload now s =
     (if \<not> me_recording s \<or> \<not> me_has_sync s then s
      else s\<lparr>me_sync := snd (record_mutation ''observation'' key op (Holds payload) ''local''
                                (or_empty project) now (me_sync s))\<rparr>)"

definition log_mutation ::
  "string \<Rightarrow> string \<Rightarrow> string option \<Rightarrow> json \<Rightarrow> int \<Rightarrow> (memory_store, unit) py" where
  "log_mutation op key project payload now s = (Inr (), logged op key project payload now s)"

definition disable_mutation_recording :: "memory_store \<Rightarrow> memory_store" where
  "disable_mutation_recording s = s\<lparr>me_recording := False\<rparr>"

definition enable_mutation_recording :: "memory_store \<Rightarrow> memory_store" where
  "enable_mutation_recording s = s\<lparr>me_recording := True\<rparr>"

section \<open>Writing\<close>

definition create_rows :: "observation \<Rightarrow> obs_row list \<Rightarrow> obs_row list result" where
  "create_rows x t =
     (case session_column (ob_session_id x) of
        None \<Rightarrow> Inl (RepositoryError (''Failed to create observation: '' @ binding_error))
      | Some ses \<Rightarrow>
          (let r = obs_row_of x ses
           in if ob_id r \<in> ob_id ` set t \<or> conflicts r t
              then Inl (RepositoryError (''Observation with id '' @ quoted (ob_id x) @ '' already exists''))
              else Inr (t @ [r])))"

definition set_rows :: "obs_row list \<Rightarrow> (memory_store, unit) py" where
  "set_rows t s = (Inr (), s\<lparr>me_rows := t\<rparr>)"

definition create_observation :: "observation \<Rightarrow> int \<Rightarrow> (memory_store, unit) py" where
  "create_observation x now =
     py_bind (py_read (\<lambda>s. create_rows x (me_rows s))) (\<lambda>t.
     py_bind (set_rows t) (\<lambda>_.
     log_mutation ''insert'' (ob_id x) (ob_project x) (mutation_payload (ob_id x) x) now))"

definition observation_not_found :: "string \<Rightarrow> exc" where
  "observation_not_found i = ObservationNotFoundError (''Observation '' @ quoted i @ '' not found'')"

definition unique_failed :: string where
  "unique_failed = ''UNIQUE constraint failed''"

definition update_rows :: "observation \<Rightarrow> obs_row list \<Rightarrow> obs_row list result" where
  "update_rows x t =
     (case session_column (ob_session_id x) of
        None \<Rightarrow> Inl (RepositoryError (''Failed to update observation: '' @ binding_error))
      | Some ses \<Rightarrow>
          (let r = obs_row_of x ses
           in if ob_id x \<notin> ob_id ` set t then Inl (observation_not_found (ob_id x))
              else if conflicts r (filter (\<lambda>y. ob_id y \<noteq> ob_id x) t)
              then Inl (RepositoryError (''Failed to update observation: '' @ unique_failed))
              else Inr (update_where (\<lambda>y. ob_id y = ob_id x) (\<lambda>y. r) t)))"

definition update_observation :: "observation \<Rightarrow> int \<Rightarrow> (memory_store, unit) py" where
  "update_observation x now =
     py_bind (py_read (\<lambda>s. update_rows x (me_rows s))) (\<lambda>t.
     py_bind (set_rows t) (\<lambda>_.
     log_mutation ''update'' (ob_id x) (ob_project x) (mutation_payload (ob_id x) x) now))"

definition delete_rows :: "string \<Rightarrow> obs_row list \<Rightarrow> obs_row list result" where
  "delete_rows i t =
     (if i \<in> ob_id ` set t then Inr (delete_where (\<lambda>r. ob_id r = i) t)
      else Inl (observation_not_found i))"

definition delete_observation :: "string \<Rightarrow> int \<Rightarrow> (memory_store, unit) py" where
  "delete_observation i now =
     py_bind (py_read (\<lambda>s. delete_rows i (me_rows s))) (\<lambda>t.
     py_bind (set_rows t) (\<lambda>_.
     log_mutation ''delete'' i None (JObject [(''id'', JString i)]) now))"

section \<open>Reading\<close>

definition get_by_idempotency_key :: "string \<Rightarrow> obs_row list \<Rightarrow> observation option result" where
  "get_by_idempotency_key k t =
     (case find (\<lambda>r. ob_idempotency_key r = Some k) t of
        None \<Rightarrow> Inr None
      | Some r \<Rightarrow> res_bind (row_to_observation r) (\<lambda>x. Inr (Some x)))"

definition count_observations :: "obs_row list \<Rightarrow> int" where
  "count_observations t = int (length t)"

definition get_observation :: "string \<Rightarrow> obs_row list \<Rightarrow> observation result" where
  "get_observation i t =
     (case lookup_row ob_id i t of
        None \<Rightarrow> Inl (observation_not_found i)
      | Some r \<Rightarrow> row_to_observation r)"

text \<open>SQLite's \<open>LIKE\<close>: \<open>%\<close> and \<open>_\<close> are wildcards and ASCII letters match in either case.\<close>

fun sql_like :: "string \<Rightarrow> string \<Rightarrow> bool" where
  "sql_like [] s = (s = [])"
| "sql_like (p # ps) [] = (p = CHR ''%'' \<and> sql_like ps [])"
| "sql_like (p # ps) (c # cs) =
     (if p = CHR ''%'' then sql_like ps (c # cs) \<or> sql_like (p # ps) cs
      else (p = CHR ''_'' \<or> sql_lower [p] = sql_lower [c]) \<and> sql_like ps cs)"

definition get_by_id_prefix :: "string \<Rightarrow> obs_row list \<Rightarrow> observation list result" where
  "get_by_id_prefix prefix t =
     traverse row_to_observation (filter (\<lambda>r. sql_like (prefix @ ''%'') (ob_id r)) t)"

text \<open>The condition a project filter adds: none for None and for a name that normalises to nothing.\<close>

definition in_project :: "string option \<Rightarrow> obs_row \<Rightarrow> bool" where
  "in_project project r \<longleftrightarrow>
     (case normalize_project project of
        None \<Rightarrow> True
      | Some p \<Rightarrow> p = [] \<or> ob_project r = Some p)"

definition of_type :: "string option \<Rightarrow> obs_row \<Rightarrow> bool" where
  "of_type ty r \<longleftrightarrow> (case ty of None \<Rightarrow> True | Some x \<Rightarrow> ob_type r = Some x)"

definition get_all ::
  "int option \<Rightarrow> int option \<Rightarrow> string option \<Rightarrow> string option \<Rightarrow> obs_row list
     \<Rightarrow> observation list result" where
  "get_all limit offset ty project t =
     (let rows = order_desc ob_timestamp (filter (\<lambda>r. of_type ty r \<and> in_project project r) t)
      in case limit of
           None \<Rightarrow>
             (case offset of
                None \<Rightarrow> traverse row_to_observation rows
              | Some k \<Rightarrow> Inl (RepositoryError
                  ''Failed to get observations: near OFFSET: syntax error''))
         | Some n \<Rightarrow>
             traverse row_to_observation
               (sql_limit n (case offset of None \<Rightarrow> rows | Some k \<Rightarrow> drop (nat k) rows)))"

definition get_by_timestamp_range ::
  "int \<Rightarrow> int \<Rightarrow> string option \<Rightarrow> obs_row list \<Rightarrow> observation list result" where
  "get_by_timestamp_range start stop project t =
     traverse row_to_observation
       (order_desc ob_timestamp
         (filter (\<lambda>r. start \<le> ob_timestamp r \<and> ob_timestamp r \<le> stop \<and> in_project project r) t))"

definition get_by_session_id ::
  "string \<Rightarrow> string option \<Rightarrow> obs_row list \<Rightarrow> observation list result" where
  "get_by_session_id ses project t =
     traverse row_to_observation
       (order_desc ob_timestamp (filter (\<lambda>r. ob_session_id r = Some ses \<and> in_project project r) t))"

text \<open>
  The search text: the characters FTS5 would read as syntax become spaces, the reserved words are
  dropped, every remaining word becomes a prefix term. \<open>matches\<close> is FTS5's answer for a row.
\<close>

definition fts_syntax :: "char list" where
  "fts_syntax = map char_of [42, 94, 34, 39, 40, 41, 45, 47, 92, 58, 46, 123, 125, 91, 93, 126, 33,
                             60, 62, 43, 61, 64, 44, 59 :: nat]"

definition fts_reserved :: "string list" where
  "fts_reserved = [''and'', ''or'', ''not'', ''near'', ''column'']"

definition sanitize_fts_query :: "string \<Rightarrow> string" where
  "sanitize_fts_query q =
     (if py_strip q = [] then []
      else join '' '' (map (\<lambda>w. w @ ''*'') (filter (\<lambda>w. sql_lower w \<notin> set fts_reserved)
             (py_split (map (\<lambda>c. if c \<in> set fts_syntax then CHR '' '' else c) q)))))"

definition search_observations ::
  "(string \<Rightarrow> obs_row \<Rightarrow> bool) \<Rightarrow> string \<Rightarrow> int option \<Rightarrow> string option \<Rightarrow> obs_row list
     \<Rightarrow> observation list result" where
  "search_observations matches q limit project t =
     (let sq = sanitize_fts_query q
      in if sq = [] then Inr []
         else let rows = order_desc ob_timestamp (filter (\<lambda>r. matches sq r \<and> in_project project r) t)
              in traverse row_to_observation (case limit of None \<Rightarrow> rows | Some n \<Rightarrow> sql_limit n rows))"

section \<open>Topic keys\<close>

definition has_topic :: "string \<Rightarrow> obs_row \<Rightarrow> bool" where
  "has_topic k r \<longleftrightarrow> map_option sql_lower (ob_topic_key r) = Some k"

text \<open>\<open>ORDER BY project = ? DESC\<close>: equal, then different, then NULL, which sorts below both.\<close>

definition project_rank :: "string \<Rightarrow> obs_row \<Rightarrow> int" where
  "project_rank p r = (case ob_project r of None \<Rightarrow> 0 | Some q \<Rightarrow> if q = p then 2 else 1)"

definition null_rank :: "obs_row \<Rightarrow> int" where
  "null_rank r = (if ob_project r = None then 1 else 0)"

definition upsert_candidates :: "string \<Rightarrow> string option \<Rightarrow> obs_row list \<Rightarrow> obs_row list" where
  "upsert_candidates k project t =
     (let rows = filter (has_topic k) t
      in case project of
           Some (c # cs) \<Rightarrow>
             order_desc (project_rank (c # cs)) (order_desc null_rank (order_desc ob_revision_count rows))
         | _ \<Rightarrow> filter (\<lambda>r. ob_project r = None) rows)"

definition upsert_target :: "string \<Rightarrow> string option \<Rightarrow> obs_row list \<Rightarrow> obs_row option" where
  "upsert_target k project t = (case upsert_candidates k project t of [] \<Rightarrow> None | r # _ \<Rightarrow> Some r)"

definition upserted :: "observation \<Rightarrow> string \<Rightarrow> string option \<Rightarrow> obs_row \<Rightarrow> obs_row" where
  "upserted x k ses r =
     r\<lparr>ob_content := ob_content x, ob_title := ob_title x,
       ob_metadata := Holds (JObject (case ob_metadata x of None \<Rightarrow> [] | Some kvs \<Rightarrow> kvs)),
       ob_timestamp := ob_timestamp x, ob_type := ob_type x, ob_session_id := ses,
       ob_project := normalize_project (ob_project x), ob_topic_key := Some k,
       ob_revision_count := ob_revision_count r + 1\<rparr>"

text \<open>The statement and the reading of the returned row are one transaction.\<close>

definition upsert_rows :: "observation \<Rightarrow> obs_row list \<Rightarrow> (observation \<times> obs_row list) result" where
  "upsert_rows x t =
     (case ob_topic_key x of
        None \<Rightarrow> Inl (RepositoryError ''topic_key is required for upsert'')
      | Some key \<Rightarrow>
          (let k = normalize_topic_key key
           in if k = [] then Inl (RepositoryError ''topic_key cannot be empty for upsert'')
              else (case session_column (ob_session_id x) of
                      None \<Rightarrow> Inl (RepositoryError (''Failed to upsert topic_key: '' @ binding_error))
                    | Some ses \<Rightarrow>
                        (case upsert_target k (normalize_project (ob_project x)) t of
                           None \<Rightarrow> Inl (RepositoryError (''No observation found for topic_key='' @ key))
                         | Some r \<Rightarrow>
                             (let r' = upserted x k ses r
                              in if conflicts r' (filter (\<lambda>y. ob_id y \<noteq> ob_id r) t)
                                 then Inl (RepositoryError (''Failed to upsert topic_key: '' @ unique_failed))
                                 else res_bind (row_to_observation r') (\<lambda>y.
                                      Inr (y, update_where (\<lambda>z. ob_id z = ob_id r) (\<lambda>z. r') t)))))))"

definition upsert_topic_key :: "observation \<Rightarrow> int \<Rightarrow> (memory_store, observation) py" where
  "upsert_topic_key x now =
     py_bind (py_read (\<lambda>s. upsert_rows x (me_rows s))) (\<lambda>(y, t).
     py_bind (set_rows t) (\<lambda>_.
     py_bind (log_mutation ''update'' (or_empty (ob_topic_key x)) (ob_project x) (mutation_payload (ob_id y) x) now)
       (\<lambda>_. py_return y)))"

definition get_by_topic_key :: "string \<Rightarrow> string option \<Rightarrow> obs_row list \<Rightarrow> observation option result" where
  "get_by_topic_key key project t =
     (let k = normalize_topic_key key;
          rows = (case project of
                    Some (c # cs) \<Rightarrow>
                      order_desc (project_rank (c # cs))
                        (filter (\<lambda>r. has_topic k r \<and> (ob_project r = project \<or> ob_project r = None)) t)
                  | _ \<Rightarrow> filter (has_topic k) t)
      in case rows of
           [] \<Rightarrow> Inr None
         | r # _ \<Rightarrow> res_bind (row_to_observation r) (\<lambda>x. Inr (Some x)))"

section \<open>Events, prompts and projects\<close>

definition blank_observation :: "string \<Rightarrow> int \<Rightarrow> string \<Rightarrow> observation" where
  "blank_observation i ts c =
     \<lparr>ob_id = i, ob_timestamp = ts, ob_content = c, ob_title = None, ob_metadata = None,
      ob_idempotency_key = None, ob_project = None, ob_type = None, ob_topic_key = None,
      ob_revision_count = 1, ob_session_id = JNull\<rparr>"

definition save_event ::
  "string \<Rightarrow> int \<Rightarrow> string \<Rightarrow> metadata \<Rightarrow> string \<Rightarrow> (memory_store, string) py" where
  "save_event new_id now content md key =
     py_bind (py_read (\<lambda>s. get_by_idempotency_key key (me_rows s))) (\<lambda>existing.
     case existing of
       Some x \<Rightarrow> py_return (ob_id x)
     | None \<Rightarrow>
         py_bind (py_lift (make_observation
           ((blank_observation new_id now content)\<lparr>ob_metadata := Some md, ob_idempotency_key := Some key\<rparr>)))
           (\<lambda>x. py_bind (create_observation x now) (\<lambda>_. py_return new_id)))"

text \<open>The id is given out by SQLite: one more than the largest so far (prompts are never deleted).\<close>

definition save_prompt ::
  "string \<Rightarrow> string option \<Rightarrow> string option \<Rightarrow> string option \<Rightarrow> string option \<Rightarrow> (memory_store, int) py" where
  "save_prompt content ses role model provider s =
     (let i = int (length (me_prompts s)) + 1
      in (Inr i, s\<lparr>me_prompts := me_prompts s @
           [\<lparr>pr_id = i, pr_text = content, pr_role = or_empty role, pr_model = or_empty model,
             pr_provider = or_empty provider, pr_session = ses\<rparr>]\<rparr>))"

record merge_stats =
  mg_canonical :: string
  mg_sources :: "string list"
  mg_observations :: int
  mg_sessions :: int

definition row_count :: "('r \<Rightarrow> bool) \<Rightarrow> 'r list \<Rightarrow> int" where
  "row_count p t = int (length (filter p t))"

definition topics_ok :: "obs_row list \<Rightarrow> bool" where
  "topics_ok t \<longleftrightarrow>
     distinct (map (\<lambda>r. (ob_topic_key r, or_empty (ob_project r))) (filter (\<lambda>r. ob_topic_key r \<noteq> None) t))"

fun merge_sources ::
  "string \<Rightarrow> string list \<Rightarrow> int \<times> int \<Rightarrow> obs_row list \<times> session_table
     \<Rightarrow> ((int \<times> int) \<times> (obs_row list \<times> session_table)) result" where
  "merge_sources c [] n st = Inr (n, st)"
| "merge_sources c (src # rest) (no, ns) (t, ses) =
     (let p = normalize_project_name src;
          t' = update_where (\<lambda>r. ob_project r = Some p) (\<lambda>r. r\<lparr>ob_project := Some c\<rparr>) t;
          ses' = update_where (\<lambda>x. se_project x = p) (\<lambda>x. x\<lparr>se_project := c\<rparr>) ses
      in if \<not> topics_ok t' then Inl (RepositoryError (''Failed to merge projects: '' @ unique_failed))
         else merge_sources c rest
                (no + row_count (\<lambda>r. ob_project r = Some p) t, ns + row_count (\<lambda>x. se_project x = p) ses)
                (t', ses'))"

definition merge_projects :: "string \<Rightarrow> string list \<Rightarrow> (memory_store, merge_stats) py" where
  "merge_projects canonical sources s =
     (case merge_sources (normalize_project_name canonical) sources (0, 0) (me_rows s, me_sessions s) of
        Inl e \<Rightarrow> (Inl e, s)
      | Inr ((no, ns), (t, ses)) \<Rightarrow>
          (Inr \<lparr>mg_canonical = canonical, mg_sources = sources, mg_observations = no, mg_sessions = ns\<rparr>,
           s\<lparr>me_rows := t, me_sessions := ses\<rparr>))"

section \<open>Runs of the writing operations\<close>

lemma logged_rows [simp]: "me_rows (logged op key project payload now s) = me_rows s"
  by (simp add: logged_def)

lemma set_rows_run [py_simps]: "set_rows t s = (Inr (), s\<lparr>me_rows := t\<rparr>)"
  by (simp add: set_rows_def)

lemma log_mutation_run [py_simps]:
  "log_mutation op key project payload now s = (Inr (), logged op key project payload now s)"
  by (simp add: log_mutation_def)

lemma logged_write_run:
  "py_bind (py_read f) (\<lambda>t. py_bind (set_rows t) (\<lambda>_. log_mutation op key project payload now)) s =
     (case f s of
        Inl e \<Rightarrow> (Inl e, s)
      | Inr t \<Rightarrow> (Inr (), logged op key project payload now (s\<lparr>me_rows := t\<rparr>)))"
  by (simp add: py_simps py_bind_def split: sum.splits)

lemma create_run [code]:
  "create_observation x now s =
     (case create_rows x (me_rows s) of
        Inl e \<Rightarrow> (Inl e, s)
      | Inr t \<Rightarrow> (Inr (), logged ''insert'' (ob_id x) (ob_project x) (mutation_payload (ob_id x) x) now
                            (s\<lparr>me_rows := t\<rparr>)))"
  unfolding create_observation_def by (simp add: logged_write_run)

lemma update_run [code]:
  "update_observation x now s =
     (case update_rows x (me_rows s) of
        Inl e \<Rightarrow> (Inl e, s)
      | Inr t \<Rightarrow> (Inr (), logged ''update'' (ob_id x) (ob_project x) (mutation_payload (ob_id x) x) now
                            (s\<lparr>me_rows := t\<rparr>)))"
  unfolding update_observation_def by (simp add: logged_write_run)

lemma delete_run [code]:
  "delete_observation i now s =
     (case delete_rows i (me_rows s) of
        Inl e \<Rightarrow> (Inl e, s)
      | Inr t \<Rightarrow> (Inr (), logged ''delete'' i None (JObject [(''id'', JString i)]) now (s\<lparr>me_rows := t\<rparr>)))"
  unfolding delete_observation_def by (simp add: logged_write_run)

lemma upsert_run [code]:
  "upsert_topic_key x now s =
     (case upsert_rows x (me_rows s) of
        Inl e \<Rightarrow> (Inl e, s)
      | Inr (y, t) \<Rightarrow> (Inr y, logged ''update'' (or_empty (ob_topic_key x)) (ob_project x)
                                 (mutation_payload (ob_id y) x) now (s\<lparr>me_rows := t\<rparr>)))"
  unfolding upsert_topic_key_def by (simp add: py_simps py_bind_def split: sum.splits prod.splits)

end
