(* ===== verification/Redaction.thy ===== *)
theory Redaction
  imports Json Py_Strings
begin

text \<open>
  Redaction of private and secret text (src/application/services/redaction/__init__.py). A regular
  expression is a matcher: on the text from the current position it returns the replacement and the text
  behind the match, or None. In all patterns a repeated class and what may follow it are disjoint, so
  the greedy match needs no backtracking; \<open>.*?\<close> before a literal stops at its first occurrence.
\<close>

section \<open>Pieces of patterns\<close>

type_synonym piece = "string \<Rightarrow> (string \<times> string) option"
type_synonym matcher = "string \<Rightarrow> (string \<times> string) option"

text \<open>A piece returns the text it consumed and the rest.\<close>

definition lower_ascii :: "char \<Rightarrow> char" where
  "lower_ascii c = (let n = of_char c :: nat in if 65 \<le> n \<and> n \<le> 90 then char_of (n + 32) else c)"

definition lit :: "string \<Rightarrow> piece" where
  "lit w s = (if starts_with w s then Some (w, drop (length w) s) else None)"

text \<open>A literal under \<open>re.IGNORECASE\<close>; the literal is written in lower case.\<close>

definition ilit :: "string \<Rightarrow> piece" where
  "ilit w s =
     (if map lower_ascii (take (length w) s) = w then Some (take (length w) s, drop (length w) s) else None)"

text \<open>\<open>[...]{n,}\<close>, \<open>[...]{n}\<close>, \<open>[...]?\<close> and \<open>[...]\<close>.\<close>

definition at_least :: "nat \<Rightarrow> (char \<Rightarrow> bool) \<Rightarrow> piece" where
  "at_least n P s = (let w = takeWhile P s in if n \<le> length w then Some (w, dropWhile P s) else None)"

definition exactly :: "nat \<Rightarrow> (char \<Rightarrow> bool) \<Rightarrow> piece" where
  "exactly n P s =
     (if n \<le> length s \<and> list_all P (take n s) then Some (take n s, drop n s) else None)"

definition maybe :: "(char \<Rightarrow> bool) \<Rightarrow> piece" where
  "maybe P s = (case s of c # cs \<Rightarrow> if P c then Some ([c], cs) else Some ([], s) | [] \<Rightarrow> Some ([], s))"

definition maybe_lits :: "string list \<Rightarrow> piece" where
  "maybe_lits ws s =
     (case find (\<lambda>w. starts_with w s) ws of None \<Rightarrow> Some ([], s) | Some w \<Rightarrow> Some (w, drop (length w) s))"

fun seq :: "piece list \<Rightarrow> piece" where
  "seq [] s = Some ([], s)"
| "seq (p # ps) s =
     (case p s of
        None \<Rightarrow> None
      | Some (w, r) \<Rightarrow> (case seq ps r of None \<Rightarrow> None | Some (w', r') \<Rightarrow> Some (w @ w', r')))"

text \<open>\<open>[\s\S]*?\<close> and a piece: up to the first place where the piece matches.\<close>

fun upto_first :: "piece \<Rightarrow> piece" where
  "upto_first p [] = (case p [] of None \<Rightarrow> None | Some (w, r) \<Rightarrow> Some (w, r))"
| "upto_first p (c # cs) =
     (case p (c # cs) of
        Some (w, r) \<Rightarrow> Some (w, r)
      | None \<Rightarrow> (case upto_first p cs of None \<Rightarrow> None | Some (w, r) \<Rightarrow> Some (c # w, r)))"

section \<open>The patterns\<close>

definition is_quote :: "char \<Rightarrow> bool" where
  "is_quote c \<longleftrightarrow> c = CHR 0x22 \<or> c = CHR 0x27"

definition in_key :: "char \<Rightarrow> bool" where
  "in_key c \<longleftrightarrow> is_letter c \<or> is_digit c \<or> c = CHR ''_'' \<or> c = CHR ''-''"

definition in_token :: "char \<Rightarrow> bool" where
  "in_token c \<longleftrightarrow> in_key c \<or> c = CHR ''.''"

definition in_password :: "char \<Rightarrow> bool" where
  "in_password c \<longleftrightarrow> \<not> is_space c \<and> \<not> is_quote c"

definition is_capital :: "char \<Rightarrow> bool" where
  "is_capital c \<longleftrightarrow> (let n = of_char c :: nat in 65 \<le> n \<and> n \<le> 90)"

definition assigns :: "piece" where
  "assigns = seq [at_least 0 is_space, exactly 1 (\<lambda>c. c = CHR '':'' \<or> c = CHR ''=''),
                  at_least 0 is_space, maybe is_quote]"

text \<open>Replace a middle group by a marker, keeping the groups around it.\<close>

definition masked :: "piece \<Rightarrow> piece \<Rightarrow> piece \<Rightarrow> string \<Rightarrow> matcher" where
  "masked front secret back marker s =
     (case front s of
        None \<Rightarrow> None
      | Some (g1, r1) \<Rightarrow>
          (case secret r1 of
             None \<Rightarrow> None
           | Some (w, r2) \<Rightarrow>
               (case back r2 of None \<Rightarrow> None | Some (g3, r3) \<Rightarrow> Some (g1 @ marker @ g3, r3))))"

definition redacted :: string where
  "redacted = ''[REDACTED]''"

definition private_tag :: matcher where
  "private_tag = masked (seq []) (seq [ilit ''<private>'', upto_first (ilit ''</private>'')]) (seq []) redacted"

definition key_word :: "string \<Rightarrow> piece" where
  "key_word w = seq [ilit w, assigns]"

definition secret_patterns :: "matcher list" where
  "secret_patterns =
     [masked (seq [ilit ''api'', maybe (\<lambda>c. c = CHR ''_'' \<or> c = CHR ''-''), ilit ''key'', assigns])
        (at_least 20 in_key) (maybe is_quote) redacted,
      masked (seq [ilit ''bearer'', at_least 1 is_space]) (at_least 20 in_token) (seq []) redacted,
      masked (key_word ''token'') (at_least 20 in_token) (maybe is_quote) redacted,
      masked (key_word ''secret'') (at_least 20 in_token) (maybe is_quote) redacted,
      masked (key_word ''password'') (at_least 8 in_password) (maybe is_quote) redacted,
      masked (seq []) (seq [lit ''AKIA'', exactly 16 (\<lambda>c. is_digit c \<or> is_capital c)])
        (seq []) ''[REDACTED_AWS_KEY]'',
      masked (seq []) (seq [lit ''-----BEGIN '', maybe_lits [''RSA '', ''EC '', ''DSA ''],
                            lit ''PRIVATE KEY-----'',
                            upto_first (seq [lit ''-----END '', maybe_lits [''RSA '', ''EC '', ''DSA ''],
                                             lit ''PRIVATE KEY-----''])])
        (seq []) ''[REDACTED_PRIVATE_KEY]'']"

section \<open>Substitution\<close>

text \<open>
  \<open>pattern.subn\<close>: from left to right, going on behind each match, with the number of matches. No
  pattern matches the empty text, so the rest is always shorter; the test is only there for termination.
\<close>

function subn :: "matcher \<Rightarrow> string \<Rightarrow> string \<times> nat" where
  "subn m [] = ([], 0)"
| "subn m (c # cs) =
     (case m (c # cs) of
        Some (rep, r) \<Rightarrow>
          (if length r \<le> length cs then (let (t, n) = subn m r in (rep @ t, n + 1))
           else (c # cs, 0))
      | None \<Rightarrow> (let (t, n) = subn m cs in (c # t, n)))"
  by pat_completeness auto
termination by (relation "measure (\<lambda>(m, s). length s)") auto

fun apply_patterns :: "matcher list \<Rightarrow> string \<times> bool \<Rightarrow> string \<times> bool" where
  "apply_patterns [] (s, b) = (s, b)"
| "apply_patterns (m # ms) (s, b) =
     (let (t, n) = subn m s in apply_patterns ms (if n > 0 then (t, True) else (s, b)))"

definition redact_content :: "string \<Rightarrow> string \<times> bool" where
  "redact_content content =
     (let (t, n) = subn private_tag content;
          start = (if n > 0 then (t, True) else (content, False))
      in apply_patterns secret_patterns start)"

definition sensitive_keys :: "string list" where
  "sensitive_keys =
     [''password'', ''secret'', ''token'', ''api_key'', ''apikey'', ''auth'', ''credential'',
      ''private_key'', ''access_token'', ''refresh_token'', ''session_token'', ''Authorization'']"

definition is_sensitive :: "string \<Rightarrow> bool" where
  "is_sensitive key = list_ex (\<lambda>w. contains_text w (py_lower key)) sensitive_keys"

text \<open>Values that are neither texts nor dictionaries are kept as they are, lists included.\<close>

fun redact_value :: "json \<Rightarrow> json \<times> bool"
  and redact_entries :: "(string \<times> json) list \<Rightarrow> (string \<times> json) list \<times> bool" where
  "redact_value (JString s) = (let (t, b) = redact_content s in (JString t, b))"
| "redact_value (JObject kvs) = (let (r, b) = redact_entries kvs in (JObject r, b))"
| "redact_value JNull = (JNull, False)"
| "redact_value (JBool b) = (JBool b, False)"
| "redact_value (JNumber n) = (JNumber n, False)"
| "redact_value (JArray xs) = (JArray xs, False)"
| "redact_entries [] = ([], False)"
| "redact_entries ((k, v) # kvs) =
     (let (v', b) = (if is_sensitive k then (JString redacted, True) else redact_value v);
          (r, b') = redact_entries kvs
      in ((k, v') # r, b \<or> b'))"

definition redact_metadata :: "(string \<times> json) list \<Rightarrow> (string \<times> json) list \<times> bool" where
  "redact_metadata md = (if md = [] then (md, False) else redact_entries md)"

definition redact_observation_data ::
  "string \<Rightarrow> (string \<times> json) list option \<Rightarrow> string \<times> (string \<times> json) list option \<times> bool" where
  "redact_observation_data content md =
     (let (c, b) = redact_content content
      in case md of
           Some (kv # kvs) \<Rightarrow> (let (r, b') = redact_metadata (kv # kvs) in (c, Some r, b \<or> b'))
         | _ \<Rightarrow> (c, md, b))"

section \<open>What a piece consumes\<close>

definition splits :: "piece \<Rightarrow> bool" where
  "splits p \<longleftrightarrow> (\<forall>s w r. p s = Some (w, r) \<longrightarrow> s = w @ r)"

named_theorems splits_rules "pieces that return the text they consumed and the rest"

lemma splitsD: "splits p \<Longrightarrow> p s = Some (w, r) \<Longrightarrow> s = w @ r"
  by (simp add: splits_def)

lemma splits_lit [splits_rules]: "splits (lit w)"
  by (auto simp: splits_def lit_def starts_with_iff)

lemma splits_ilit [splits_rules]: "splits (ilit w)"
  by (auto simp: splits_def ilit_def split: if_splits)

lemma splits_at_least [splits_rules]: "splits (at_least n P)"
  by (auto simp: splits_def at_least_def Let_def split: if_splits)

lemma splits_exactly [splits_rules]: "splits (exactly n P)"
  by (auto simp: splits_def exactly_def split: if_splits)

lemma splits_maybe [splits_rules]: "splits (maybe P)"
  by (auto simp: splits_def maybe_def split: list.splits if_splits)

lemma splits_maybe_lits [splits_rules]: "splits (maybe_lits ws)"
  by (auto simp: splits_def maybe_lits_def find_Some_iff starts_with_iff split: option.splits)

lemma splits_Nil [splits_rules]: "splits (seq [])"
  by (simp add: splits_def)

lemma splits_Cons [splits_rules]: "splits p \<Longrightarrow> splits (seq ps) \<Longrightarrow> splits (seq (p # ps))"
  by (fastforce simp: splits_def split: option.splits prod.splits)

lemma splits_upto_first [splits_rules]:
  assumes "splits p"
  shows "splits (upto_first p)"
proof -
  have "upto_first p s = Some (w, r) \<Longrightarrow> s = w @ r" for s w r
  proof (induction s arbitrary: w r)
    case Nil
    then show ?case using assms by (auto simp: splits_def split: option.splits)
  next
    case (Cons c cs)
    then show ?case using splitsD [OF assms, of "c # cs"] by (auto split: option.splits)
  qed
  then show ?thesis by (simp add: splits_def)
qed

lemma splits_assigns [splits_rules]: "splits assigns"
  unfolding assigns_def by (intro splits_rules)

lemma splits_key_word [splits_rules]: "splits (key_word w)"
  unfolding key_word_def by (intro splits_rules)

section \<open>A text and its redacted form\<close>

text \<open>
  \<open>redacts s t\<close>: \<open>t\<close> is \<open>s\<close> with some segments replaced by markers. A marker starts with a bracket and
  contains no character of a tag but letters.
\<close>

definition marker :: "string \<Rightarrow> bool" where
  "marker w \<longleftrightarrow> (\<exists>v. w = CHR ''['' # v) \<and> CHR ''<'' \<notin> set w"

inductive redacts :: "string \<Rightarrow> string \<Rightarrow> bool" where
  redacts_Nil: "redacts [] []"
| redacts_keep: "redacts s t \<Longrightarrow> redacts (c # s) (c # t)"
| redacts_mask: "redacts s t \<Longrightarrow> marker w \<Longrightarrow> redacts (x @ s) (w @ t)"

lemma redacts_keep_all: "redacts s t \<Longrightarrow> redacts (u @ s) (u @ t)"
  by (induction u) (auto intro: redacts_keep)

lemma redacts_refl: "redacts s s"
  using redacts_keep_all [OF redacts_Nil, of s] by simp

definition masks :: "matcher \<Rightarrow> bool" where
  "masks m \<longleftrightarrow> (\<forall>s rep r. m s = Some (rep, r) \<longrightarrow>
     (\<exists>g1 w g3 k. s = g1 @ w @ g3 @ r \<and> rep = g1 @ k @ g3 \<and> marker k))"

lemma masks_masked:
  assumes "splits a" "splits b" "splits c" "marker k"
  shows "masks (masked a b c k)"
  unfolding masks_def
proof (intro allI impI)
  fix s rep r assume "masked a b c k s = Some (rep, r)"
  then obtain g1 r1 w r2 g3 where
    h: "a s = Some (g1, r1)" "b r1 = Some (w, r2)" "c r2 = Some (g3, r)" "rep = g1 @ k @ g3"
    by (auto simp: masked_def split: option.splits prod.splits)
  from splitsD [OF assms(1) h(1)] splitsD [OF assms(2) h(2)] splitsD [OF assms(3) h(3)]
  have "s = g1 @ w @ g3 @ r" by simp
  with h(4) assms(4) show "\<exists>g1 w g3 k. s = g1 @ w @ g3 @ r \<and> rep = g1 @ k @ g3 \<and> marker k"
    by blast
qed

lemma masksD:
  "masks m \<Longrightarrow> m s = Some (rep, r) \<Longrightarrow>
     \<exists>g1 w g3 k. s = g1 @ w @ g3 @ r \<and> rep = g1 @ k @ g3 \<and> marker k"
  by (simp add: masks_def)

lemma redacts_subn:
  assumes "masks m"
  shows "redacts s (fst (subn m s))"
  using assms
proof (induction m s rule: subn.induct)
  case (1 m)
  then show ?case by (simp add: redacts_Nil)
next
  case (2 m c cs)
  show ?case
  proof (cases "m (c # cs)")
    case None
    with 2 show ?thesis by (auto simp: redacts_keep split: prod.splits)
  next
    case (Some a)
    obtain rep r where a: "a = (rep, r)" by (cases a)
    from masksD [OF 2(3) Some [unfolded a]] obtain g1 w g3 k where
      h: "c # cs = g1 @ w @ g3 @ r" "rep = g1 @ k @ g3" "marker k" by blast
    show ?thesis
    proof (cases "length r \<le> length cs")
      case True
      with 2(2) [OF Some a [symmetric]] 2(3) have "redacts r (fst (subn m r))" by simp
      then have "redacts (g1 @ w @ g3 @ r) (g1 @ k @ g3 @ fst (subn m r))"
        by (intro redacts_keep_all redacts_mask h(3))
      moreover have "fst (subn m (c # cs)) = rep @ fst (subn m r)"
        using Some a True by (simp split: prod.splits)
      ultimately show ?thesis using h(1,2) by (metis append.assoc)
    next
      case False
      with Some a show ?thesis by (simp add: redacts_refl)
    qed
  qed
qed

text \<open>A text without a marker's bracket is found in the source where it is found in the result.\<close>

lemma redacts_prefix:
  assumes "redacts s (u @ t)" "CHR ''['' \<notin> set u"
  shows "\<exists>s'. s = u @ s' \<and> redacts s' t"
  using assms
proof (induction u arbitrary: s)
  case (Cons c u)
  from Cons.prems(1) show ?case
  proof (cases rule: redacts.cases)
    case (redacts_keep s1 t1 d)
    with Cons show ?thesis by auto
  next
    case (redacts_mask s1 t1 w x)
    with Cons.prems(2) show ?thesis by (auto simp: marker_def)
  qed auto
qed auto

lemma redacts_suffix:
  assumes "redacts s (u @ CHR ''<'' # t)"
  shows "\<exists>v s'. s = v @ s' \<and> redacts s' (CHR ''<'' # t)"
  using assms
proof (induction s "u @ CHR ''<'' # t" arbitrary: u rule: redacts.induct)
  case (redacts_keep s t' c)
  show ?case
  proof (cases u)
    case Nil
    with redacts_keep have "redacts (c # s) (CHR ''<'' # t)" by (auto intro: redacts.redacts_keep)
    then show ?thesis by (metis append_Nil)
  next
    case (Cons d u')
    with redacts_keep obtain v s' where "s = v @ s'" "redacts s' (CHR ''<'' # t)" by auto
    then show ?thesis by (metis append_Cons)
  qed
next
  case (redacts_mask s t' w x)
  from redacts_mask(3,4) obtain u' where "t' = u' @ CHR ''<'' # t"
    by (auto simp: append_eq_append_conv2 append_eq_Cons_conv marker_def)
  with redacts_mask(2) obtain v s' where "s = v @ s'" "redacts s' (CHR ''<'' # t)" by blast
  then show ?case by (metis append.assoc)
qed auto

section \<open>No private block is left\<close>

text \<open>An opening tag with a closing tag somewhere behind it, in either case.\<close>

definition private_block :: "string \<Rightarrow> bool" where
  "private_block s \<longleftrightarrow> (\<exists>u l v r w. s = u @ l @ v @ r @ w
     \<and> map lower_ascii l = ''<private>'' \<and> map lower_ascii r = ''</private>'')"

lemma private_blockE:
  assumes "private_block s"
  obtains u l v r w where "s = u @ l @ v @ r @ w"
    "map lower_ascii l = ''<private>''" "map lower_ascii r = ''</private>''"
  using assms unfolding private_block_def by (elim exE conjE)

lemma private_blockI:
  "s = u @ l @ v @ r @ w \<Longrightarrow> map lower_ascii l = ''<private>'' \<Longrightarrow>
     map lower_ascii r = ''</private>'' \<Longrightarrow> private_block s"
  unfolding private_block_def by (intro exI conjI)

lemma lower_ascii_bracket: "lower_ascii c = CHR ''<'' \<Longrightarrow> c = CHR ''<''"
proof -
  assume h: "lower_ascii c = CHR ''<''"
  have "\<not> (65 \<le> (of_char c :: nat) \<and> (of_char c :: nat) \<le> 90)"
  proof
    assume r: "65 \<le> (of_char c :: nat) \<and> (of_char c :: nat) \<le> 90"
    with h have "char_of ((of_char c :: nat) + 32) = CHR ''<''" by (simp add: lower_ascii_def)
    then have "(of_char (char_of ((of_char c :: nat) + 32)) :: nat) = of_char (CHR ''<'')" by (rule arg_cong)
    with r show False by simp
  qed
  with h show "c = CHR ''<''" by (auto simp: lower_ascii_def Let_def)
qed

lemma lower_ascii_square: "lower_ascii (CHR ''['') = CHR ''[''"
  by (simp add: lower_ascii_def)

lemma tag_shape:
  assumes "map lower_ascii l = CHR ''<'' # k" "CHR ''['' \<notin> set k"
  shows "(\<exists>l'. l = CHR ''<'' # l') \<and> CHR ''['' \<notin> set l"
proof
  from assms(1) obtain c l' where "l = c # l'" "lower_ascii c = CHR ''<''" by (cases l) auto
  then show "\<exists>l'. l = CHR ''<'' # l'" using lower_ascii_bracket by blast
  show "CHR ''['' \<notin> set l"
  proof
    assume "CHR ''['' \<in> set l"
    then have "CHR ''['' \<in> set (map lower_ascii l)" using lower_ascii_square by (metis image_eqI set_map)
    with assms show False by simp
  qed
qed

lemma redacts_private_block:
  assumes "redacts s t" "private_block t"
  shows "private_block s"
proof -
  from assms(2) obtain u l v r w where
    t: "t = u @ l @ v @ r @ w" "map lower_ascii l = ''<private>''" "map lower_ascii r = ''</private>''"
    by (rule private_blockE)
  from tag_shape [OF t(2)] obtain l' where l: "l = CHR ''<'' # l'" "CHR ''['' \<notin> set l" by auto
  from tag_shape [OF t(3)] obtain r' where r: "r = CHR ''<'' # r'" "CHR ''['' \<notin> set r" by auto
  from redacts_suffix [of s u "l' @ v @ r @ w"] assms(1) t(1) l(1)
  obtain u1 s1 where s1: "s = u1 @ s1" "redacts s1 (l @ v @ r @ w)" by auto
  from redacts_prefix [OF s1(2) l(2)] obtain s2 where s2: "s1 = l @ s2" "redacts s2 (v @ r @ w)" by blast
  from redacts_suffix [of s2 v "r' @ w"] s2(2) r(1)
  obtain v1 s3 where s3: "s2 = v1 @ s3" "redacts s3 (r @ w)" by auto
  from redacts_prefix [OF s3(2) r(2)] obtain s4 where "s3 = r @ s4" by blast
  with s1(1) s2(1) s3(1) have "s = u1 @ l @ v1 @ r @ s4" by simp
  from private_blockI [OF this t(2,3)] show ?thesis .
qed

lemma upto_first_found:
  assumes "p y \<noteq> None"
  shows "upto_first p (x @ y) \<noteq> None"
proof (induction x)
  case Nil
  with assms show ?case by (cases y) (auto split: option.splits)
qed (auto split: option.splits)

lemma ilit_found: "map lower_ascii l = w \<Longrightarrow> ilit w (l @ s) = Some (l, s)"
  by (auto simp: ilit_def)

lemma private_tag_found:
  assumes "map lower_ascii l = ''<private>''" "map lower_ascii r = ''</private>''"
  shows "private_tag (l @ v @ r @ w) \<noteq> None"
proof -
  have "upto_first (ilit ''</private>'') (v @ r @ w) \<noteq> None"
    by (intro upto_first_found) (simp add: ilit_found [OF assms(2)])
  then show ?thesis
    by (auto simp: private_tag_def masked_def ilit_found [OF assms(1)])
qed

lemma private_block_append:
  assumes "private_block (x @ t)" "CHR ''<'' \<notin> set x"
  shows "private_block t"
proof -
  from assms(1) obtain u l v r w where
    t: "x @ t = u @ l @ v @ r @ w" "map lower_ascii l = ''<private>''" "map lower_ascii r = ''</private>''"
    by (rule private_blockE)
  from tag_shape [OF t(2)] obtain l' where l: "l = CHR ''<'' # l'" by auto
  from t(1) obtain k where "(x = u @ k \<and> k @ t = l @ v @ r @ w) \<or> (u = x @ k \<and> t = k @ l @ v @ r @ w)"
    by (auto simp: append_eq_append_conv2)
  then obtain k' where "t = k' @ l @ v @ r @ w"
  proof
    assume h: "x = u @ k \<and> k @ t = l @ v @ r @ w"
    have "k = []"
    proof (cases k)
      case (Cons c k')
      with h l have "c = CHR ''<''" by simp
      with h Cons assms(2) show ?thesis by simp
    qed simp
    with h have "t = [] @ l @ v @ r @ w" by simp
    then show ?thesis by (rule that)
  qed (use that in blast)
  from private_blockI [OF this t(2,3)] show ?thesis .
qed

lemma private_tag_marks:
  "private_tag s = Some (rep, r) \<Longrightarrow> rep = redacted"
  by (auto simp: private_tag_def masked_def split: option.splits prod.splits)

lemma private_tag_consumes:
  assumes "private_tag (c # cs) = Some (rep, r)"
  shows "length r \<le> length cs"
proof -
  from assms obtain w r1 w' where
    h: "ilit ''<private>'' (c # cs) = Some (w, r1)" "upto_first (ilit ''</private>'') r1 = Some (w', r)"
    by (auto simp: private_tag_def masked_def split: option.splits prod.splits)
  from h(1) have "length w = 9" by (auto simp: ilit_def split: if_splits dest!: arg_cong [of _ _ length])
  moreover from splitsD [OF splits_ilit h(1)] have "c # cs = w @ r1" .
  moreover from splitsD [OF splits_upto_first [OF splits_ilit] h(2)] have "r1 = w' @ r" .
  ultimately have "length (c # cs) = 9 + (length w' + length r)" by simp
  then show ?thesis by simp
qed

lemma masks_private_tag: "masks private_tag"
  unfolding private_tag_def
  by (intro masks_masked splits_rules) (simp add: marker_def redacted_def)

lemma subn_private_tag: "\<not> private_block (fst (subn private_tag s))"
proof (induction "private_tag" s rule: subn.induct)
  case 1
  then show ?case by (auto simp: private_block_def)
next
  case (2 c cs)
  show ?case
  proof (cases "private_tag (c # cs)")
    case None
    show ?thesis
    proof
      assume "private_block (fst (subn private_tag (c # cs)))"
      with None have b: "private_block (c # fst (subn private_tag cs))" by (simp split: prod.splits)
      then obtain u l v r w where
        t: "c # fst (subn private_tag cs) = u @ l @ v @ r @ w"
          "map lower_ascii l = ''<private>''" "map lower_ascii r = ''</private>''"
        by (rule private_blockE)
      show False
      proof (cases u)
        case Nil
        have "redacts (c # cs) (c # fst (subn private_tag cs))"
          by (intro redacts_keep redacts_subn masks_private_tag)
        with t(1) Nil have "redacts (c # cs) (l @ v @ r @ w)" by simp
        from redacts_prefix [OF this] tag_shape [OF t(2)] obtain s2 where
          s2: "c # cs = l @ s2" "redacts s2 (v @ r @ w)" by auto
        from tag_shape [OF t(3)] obtain r' where r: "r = CHR ''<'' # r'" "CHR ''['' \<notin> set r" by auto
        from redacts_suffix [of s2 v "r' @ w"] s2(2) r(1)
        obtain v1 s3 where s3: "s2 = v1 @ s3" "redacts s3 (r @ w)" by auto
        from redacts_prefix [OF s3(2) r(2)] obtain s4 where "s3 = r @ s4" by blast
        with s2(1) s3(1) have "c # cs = l @ v1 @ r @ s4" by simp
        with private_tag_found [OF t(2,3)] None show False by metis
      next
        case (Cons d u')
        with t(1) have "fst (subn private_tag cs) = u' @ l @ v @ r @ w" by simp
        from private_blockI [OF this t(2,3)] have "private_block (fst (subn private_tag cs))" .
        with 2(1) None show False by simp
      qed
    qed
  next
    case (Some a)
    obtain rep r where a: "a = (rep, r)" by (cases a)
    from private_tag_marks [OF Some [unfolded a]] have rep: "rep = redacted" .
    show ?thesis
    proof (cases "length r \<le> length cs")
      case True
      with 2(2) [OF Some a [symmetric]] have "\<not> private_block (fst (subn private_tag r))" by simp
      moreover have "fst (subn private_tag (c # cs)) = redacted @ fst (subn private_tag r)"
        using Some a True rep by (simp split: prod.splits)
      moreover have "CHR ''<'' \<notin> set redacted" by (simp add: redacted_def)
      ultimately show ?thesis using private_block_append by metis
    next
      case False
      from private_tag_consumes [OF Some [unfolded a]] False show ?thesis by simp
    qed
  qed
qed

lemma masks_secret_patterns: "m \<in> set secret_patterns \<Longrightarrow> masks m"
  unfolding secret_patterns_def set_simps insert_iff empty_iff simp_thms
  by (elim disjE; (hypsubst, intro masks_masked splits_rules; simp add: marker_def redacted_def)?) 

lemma apply_patterns_block:
  assumes "\<forall>m \<in> set ms. masks m" "\<not> private_block s"
  shows "\<not> private_block (fst (apply_patterns ms (s, b)))"
  using assms
proof (induction ms arbitrary: s b)
  case (Cons m ms)
  have "\<not> private_block (fst (subn m s))"
    using Cons.prems redacts_private_block [OF redacts_subn, of m s] by auto
  with Cons show ?case by (auto simp: Let_def split: prod.splits)
qed simp

text \<open>A text in which nothing was found comes back as it was.\<close>

lemma subn_unchanged: "snd (subn m s) = 0 \<Longrightarrow> fst (subn m s) = s"
  by (induction m s rule: subn.induct) (auto split: option.splits prod.splits if_splits)

lemma apply_patterns_unchanged:
  "snd (apply_patterns ms (s, b)) = False \<Longrightarrow> fst (apply_patterns ms (s, b)) = s \<and> b = False"
proof (induction ms arbitrary: s b)
  case (Cons m ms)
  then show ?case by (fastforce simp: Let_def split: prod.splits if_splits)
qed simp

end
