(* ===== verification/Memory_Service.thy ===== *)
theory Memory_Service
  imports Observation_Repository Redaction
begin

text \<open>
  MemoryService (src/application/services/memory_service.py) on the store of the repository, and the
  result of a comparison (diff_result.py). The service is modelled without a telemetry service; fresh
  ids and the clock are arguments.
\<close>

section \<open>Saving and updating\<close>

definition existing_for_topic :: "string option \<Rightarrow> string option \<Rightarrow> obs_row list \<Rightarrow> observation option result" where
  "existing_for_topic topic_key project t =
     (if or_empty topic_key = [] then Inr None else get_by_topic_key (or_empty topic_key) project t)"

definition new_memory ::
  "string \<Rightarrow> int \<Rightarrow> string \<Rightarrow> metadata option \<Rightarrow> string option \<Rightarrow> string option \<Rightarrow> string option
     \<Rightarrow> string option \<Rightarrow> observation" where
  "new_memory new_id now content md topic_key project ty title =
     (let (content', md', was_redacted) = redact_observation_data content md in
      (blank_observation new_id now content')\<lparr>ob_title := title, ob_metadata := md',
         ob_topic_key := topic_key, ob_project := project, ob_type := ty\<rparr>)"

definition memory_save ::
  "string \<Rightarrow> int \<Rightarrow> string \<Rightarrow> metadata option \<Rightarrow> string option \<Rightarrow> string option \<Rightarrow> string option
     \<Rightarrow> string option \<Rightarrow> (memory_store, observation) py" where
  "memory_save new_id now content md topic_key project ty title =
     py_bind (py_read (\<lambda>s. existing_for_topic topic_key project (me_rows s))) (\<lambda>existing.
     py_bind (py_lift (make_observation
         (new_memory new_id now content md topic_key project ty title))) (\<lambda>x.
     case existing of
       Some _ \<Rightarrow> upsert_topic_key x now
     | None \<Rightarrow> py_bind (create_observation x now) (\<lambda>_. py_return x)))"

definition or_else :: "'a option \<Rightarrow> 'a option \<Rightarrow> 'a option" where
  "or_else new old = (case new of None \<Rightarrow> old | Some x \<Rightarrow> Some x)"

definition revised ::
  "string option \<Rightarrow> metadata option \<Rightarrow> string option \<Rightarrow> string option \<Rightarrow> string option \<Rightarrow> string option
     \<Rightarrow> observation \<Rightarrow> observation" where
  "revised content md ty topic_key project title x =
     (let (c, m, was_redacted) = redact_observation_data (or_empty content) md in
      x\<lparr>ob_revision_count := ob_revision_count x + 1,
        ob_content := (if content = None then ob_content x else c),
        ob_metadata := or_else (if md = None then None else m) (ob_metadata x),
        ob_type := or_else ty (ob_type x), ob_topic_key := or_else topic_key (ob_topic_key x),
        ob_project := or_else project (ob_project x), ob_title := or_else title (ob_title x)\<rparr>)"

definition memory_update ::
  "string \<Rightarrow> int \<Rightarrow> string option \<Rightarrow> metadata option \<Rightarrow> string option \<Rightarrow> string option
     \<Rightarrow> string option \<Rightarrow> string option \<Rightarrow> (memory_store, observation) py" where
  "memory_update i now content md ty topic_key project title =
     py_bind (py_read (\<lambda>s. get_observation i (me_rows s))) (\<lambda>x.
     py_bind (py_lift (make_observation (revised content md ty topic_key project title x))) (\<lambda>y.
     py_bind (update_observation y now) (\<lambda>_. py_return y)))"

definition memory_delete :: "string \<Rightarrow> int \<Rightarrow> (memory_store, unit) py" where
  "memory_delete i now = delete_observation i now"

definition get_recent ::
  "int \<Rightarrow> int \<Rightarrow> string option \<Rightarrow> string option \<Rightarrow> obs_row list \<Rightarrow> observation list result" where
  "get_recent limit offset ty project t =
     (if limit < 0 then Inl (ValueError (''limit must be >= 0, got '' @ show_int limit))
      else if offset < 0 then Inl (ValueError (''offset must be >= 0, got '' @ show_int offset))
      else get_all (Some limit) (Some offset) ty project t)"

section \<open>Queries\<close>

text \<open>\<open>x in v\<close> for a text \<open>x\<close> and a value read from JSON.\<close>

fun text_in :: "string \<Rightarrow> json \<Rightarrow> bool result" where
  "text_in x (JString s) = Inr (contains_text x s)"
| "text_in x (JArray vs) = Inr (JString x \<in> set vs)"
| "text_in x (JObject kvs) = Inr (x \<in> fst ` set kvs)"
| "text_in x v = Inl (TypeError (''argument of type '' @ quoted (json_type_name v) @ '' is not iterable''))"

definition metadata_get :: "observation \<Rightarrow> string \<Rightarrow> json \<Rightarrow> json" where
  "metadata_get x k d = (case ob_metadata x of None \<Rightarrow> d | Some kvs \<Rightarrow> (case map_of kvs k of None \<Rightarrow> d | Some v \<Rightarrow> v))"

definition has_metadata :: "observation \<Rightarrow> bool" where
  "has_metadata x \<longleftrightarrow> ob_metadata x \<noteq> None \<and> ob_metadata x \<noteq> Some []"

definition by_agent :: "string \<Rightarrow> observation \<Rightarrow> bool result" where
  "by_agent agent x =
     (if \<not> has_metadata x then Inr False
      else res_bind (json_get (metadata_get x ''extra'' (JObject [])) ''from_agent_id'' (JString [])) (\<lambda>from_agent.
           res_bind (text_in agent (metadata_get x ''agent_id'' (JString []))) (\<lambda>b.
           if b then Inr True else text_in agent from_agent)))"

fun filter_result :: "('a \<Rightarrow> bool result) \<Rightarrow> 'a list \<Rightarrow> 'a list result" where
  "filter_result p [] = Inr []"
| "filter_result p (x # xs) =
     res_bind (p x) (\<lambda>b. res_bind (filter_result p xs) (\<lambda>ys. Inr (if b then x # ys else ys)))"

text \<open>\<open>xs[:n]\<close>.\<close>

definition py_take :: "int \<Rightarrow> 'a list \<Rightarrow> 'a list" where
  "py_take n xs = (if n < 0 then take (nat (int (length xs) + n)) xs else take (nat n) xs)"

definition metadata_is :: "string \<Rightarrow> string \<Rightarrow> observation \<Rightarrow> bool" where
  "metadata_is k v x \<longleftrightarrow> has_metadata x \<and> metadata_get x k JNull = JString v"

definition query_filters ::
  "string option \<Rightarrow> string option \<Rightarrow> int option \<Rightarrow> observation list \<Rightarrow> observation list" where
  "query_filters run_id event_type since_ms obs =
     (let obs = (if or_empty run_id = [] then obs else filter (metadata_is ''run_id'' (or_empty run_id)) obs);
          obs = (if or_empty event_type = [] then obs
                 else filter (metadata_is ''event_type'' (or_empty event_type)) obs)
      in case since_ms of
           None \<Rightarrow> obs
         | Some ms \<Rightarrow> if ms = 0 then obs else filter (\<lambda>x. ms \<le> ob_timestamp x) obs)"

definition memory_query ::
  "string option \<Rightarrow> string option \<Rightarrow> string option \<Rightarrow> int \<Rightarrow> int \<Rightarrow> int option \<Rightarrow> obs_row list
     \<Rightarrow> observation list result" where
  "memory_query agent run_id event_type limit scan_limit since_ms t =
     res_bind (get_all (Some scan_limit) (Some 0) None None t) (\<lambda>obs.
     res_bind (if or_empty agent = [] then Inr obs else filter_result (by_agent (or_empty agent)) obs) (\<lambda>obs.
     Inr (py_take limit (order_desc ob_timestamp (query_filters run_id event_type since_ms obs)))))"

definition memory_save_prompt ::
  "string \<Rightarrow> string option \<Rightarrow> string option \<Rightarrow> string option \<Rightarrow> string option \<Rightarrow> string option
     \<Rightarrow> (memory_store, int) py" where
  "memory_save_prompt content project session_id role model provider =
     save_prompt content
       (case session_id of
          Some s \<Rightarrow> Some s
        | None \<Rightarrow> map_option (\<lambda>p. ''manual-save-'' @ p) project)
       role model provider"

definition memory_merge_projects :: "string \<Rightarrow> string \<Rightarrow> (memory_store, merge_stats) py" where
  "memory_merge_projects from_projects to_project =
     (let canonical = normalize_project_name to_project;
          sources = filter (\<lambda>p. p \<noteq> [] \<and> p \<noteq> canonical)
                      (map normalize_project_name (split_on (CHR '','') from_projects))
      in if canonical = []
         then py_return \<lparr>mg_canonical = [], mg_sources = [], mg_observations = 0, mg_sessions = 0\<rparr>
         else if sources = []
         then py_return \<lparr>mg_canonical = canonical, mg_sources = [], mg_observations = 0, mg_sessions = 0\<rparr>
         else merge_projects canonical sources)"

section \<open>Comparing two windows\<close>

record diff_item =
  di_topic_key :: string
  di_change_type :: string
  di_from_content :: "string option"
  di_to_content :: "string option"
  di_from_id :: "string option"
  di_to_id :: "string option"

record diff_result =
  dr_added :: int
  dr_modified :: int
  dr_removed :: int
  dr_items :: "diff_item list"
  dr_from_timestamp :: int
  dr_to_timestamp :: int

text \<open>The key of an entry: its topic key, or the first eight characters of its id.\<close>

definition diff_key :: "observation \<Rightarrow> string" where
  "diff_key x = (if or_empty (ob_topic_key x) = [] then take 8 (ob_id x) else or_empty (ob_topic_key x))"

fun build_map :: "observation list \<Rightarrow> (string \<times> observation) list \<Rightarrow> (string \<times> observation) list" where
  "build_map [] m = m"
| "build_map (x # xs) m =
     build_map xs
       (case map_of m (diff_key x) of
          None \<Rightarrow> dict_set (diff_key x) x m
        | Some y \<Rightarrow> if ob_timestamp x > ob_timestamp y then dict_set (diff_key x) x m else m)"

definition diff_entry ::
  "string \<Rightarrow> observation option \<Rightarrow> observation option \<Rightarrow> diff_item option" where
  "diff_entry key f t =
     (case (f, t) of
        (Some x, None) \<Rightarrow> Some
          \<lparr>di_topic_key = key, di_change_type = ''removed'', di_from_content = Some (ob_content x),
           di_to_content = None, di_from_id = Some (ob_id x), di_to_id = None\<rparr>
      | (None, Some y) \<Rightarrow> Some
          \<lparr>di_topic_key = key, di_change_type = ''added'', di_from_content = None,
           di_to_content = Some (ob_content y), di_from_id = None, di_to_id = Some (ob_id y)\<rparr>
      | (Some x, Some y) \<Rightarrow>
          (if ob_content x \<noteq> ob_content y then Some
            \<lparr>di_topic_key = key, di_change_type = ''modified'', di_from_content = Some (ob_content x),
             di_to_content = Some (ob_content y), di_from_id = Some (ob_id x), di_to_id = Some (ob_id y)\<rparr>
           else None)
      | (None, None) \<Rightarrow> None)"

definition is_change :: "string \<Rightarrow> diff_item \<Rightarrow> bool" where
  "is_change c i \<longleftrightarrow> di_change_type i = c"

definition in_scope :: "string option \<Rightarrow> string option \<Rightarrow> observation \<Rightarrow> bool" where
  "in_scope project obs_type x \<longleftrightarrow>
     (or_empty project = [] \<or> ob_project x = project) \<and> (or_empty obs_type = [] \<or> ob_type x = obs_type)"

definition diff_items :: "observation list \<Rightarrow> observation list \<Rightarrow> diff_item list" where
  "diff_items from_obs to_obs =
     (let from_map = build_map from_obs [];
          to_map = build_map to_obs [];
          all_keys = sort (remdups (map fst from_map @ map fst to_map))
      in List.map_filter (\<lambda>k. diff_entry k (map_of from_map k) (map_of to_map k)) all_keys)"

definition memory_diff ::
  "int \<Rightarrow> int \<Rightarrow> string option \<Rightarrow> string option \<Rightarrow> obs_row list \<Rightarrow> diff_result result" where
  "memory_diff from_ts to_ts project obs_type t =
     (if from_ts \<ge> to_ts then Inl (ValueError ''from must be before to'')
      else
        res_bind (get_by_timestamp_range 0 from_ts None t) (\<lambda>from_obs.
        res_bind (get_by_timestamp_range (from_ts + 1) to_ts None t) (\<lambda>to_obs.
        let items = diff_items (filter (in_scope project obs_type) from_obs)
                      (filter (in_scope project obs_type) to_obs)
        in Inr \<lparr>dr_added = row_count (is_change ''added'') items,
                dr_modified = row_count (is_change ''modified'') items,
                dr_removed = row_count (is_change ''removed'') items,
                dr_items = items, dr_from_timestamp = from_ts, dr_to_timestamp = to_ts\<rparr>)))"

definition item_to_json :: "diff_item \<Rightarrow> json" where
  "item_to_json i =
     JObject [(''topic_key'', JString (di_topic_key i)), (''change_type'', JString (di_change_type i)),
              (''from_content'', json_str (di_from_content i)), (''to_content'', json_str (di_to_content i)),
              (''from_id'', json_str (di_from_id i)), (''to_id'', json_str (di_to_id i))]"

definition diff_to_json :: "diff_result \<Rightarrow> json" where
  "diff_to_json r =
     JObject [(''from_timestamp'', JNumber (dr_from_timestamp r)), (''to_timestamp'', JNumber (dr_to_timestamp r)),
              (''summary'', JObject [(''added'', JNumber (dr_added r)), (''modified'', JNumber (dr_modified r)),
                 (''removed'', JNumber (dr_removed r)),
                 (''total_changes'', JNumber (dr_added r + dr_modified r + dr_removed r))]),
              (''items'', JArray (map item_to_json (dr_items r)))]"

end
