(* ===== verification/Memory_Store.thy ===== *)
theory Memory_Store
  imports Memory_Service
begin

text \<open>
  The order of the memory store, and its preservation by every operation: ids, event keys and topic keys
  are unique, every row has the shape the repository writes, and the journal is in order. Reading returns
  entities that pass all checks.
\<close>

section \<open>What reading returns\<close>

lemma row_to_observation_valid: "row_to_observation r = Inr x \<Longrightarrow> valid_observation x"
  by (auto simp: row_to_observation_def res_bind_Inr_iff dest: post_init_valid)

lemma traverse_all: "traverse f xs = Inr ys \<Longrightarrow> (\<And>x y. f x = Inr y \<Longrightarrow> P y) \<Longrightarrow> \<forall>y \<in> set ys. P y"
  by (induction xs arbitrary: ys) (auto simp: res_bind_Inr_iff)

lemma traverse_rows_valid:
  "traverse row_to_observation rs = Inr xs \<Longrightarrow> \<forall>x \<in> set xs. valid_observation x"
  by (erule traverse_all) (rule row_to_observation_valid)

lemma get_all_valid: "get_all l off ty p t = Inr xs \<Longrightarrow> \<forall>x \<in> set xs. valid_observation x"
  by (auto simp: get_all_def Let_def split: option.splits dest!: traverse_rows_valid)

lemma filter_result_subset: "filter_result p xs = Inr ys \<Longrightarrow> set ys \<subseteq> set xs"
  by (induction xs arbitrary: ys) (fastforce simp: res_bind_Inr_iff split: if_splits)+

lemma set_py_take: "set (py_take n xs) \<subseteq> set xs"
  by (auto simp: py_take_def dest: in_set_takeD)

lemma set_query_filters: "set (query_filters run_id event_type since obs) \<subseteq> set obs"
  by (auto simp: query_filters_def Let_def split: option.splits if_splits)

lemma memory_query_valid:
  assumes "memory_query agent run_id event_type limit scan since t = Inr xs"
  shows "\<forall>x \<in> set xs. valid_observation x"
proof -
  from assms obtain obs obs' where
    obs: "get_all (Some scan) (Some 0) None None t = Inr obs"
    "(if or_empty agent = [] then Inr obs else filter_result (by_agent (or_empty agent)) obs) = Inr obs'"
    "xs = py_take limit (order_desc ob_timestamp (query_filters run_id event_type since obs'))"
    by (auto simp: memory_query_def res_bind_Inr_iff)
  have "set xs \<subseteq> set (order_desc ob_timestamp (query_filters run_id event_type since obs'))"
    unfolding obs(3) by (rule set_py_take)
  also have "\<dots> \<subseteq> set obs'" by (simp add: set_query_filters)
  also have "\<dots> \<subseteq> set obs" using obs(2) filter_result_subset by (auto split: if_splits)
  finally show ?thesis using get_all_valid [OF obs(1)] by blast
qed

section \<open>Rows in order\<close>

definition rows_ok :: "obs_row list \<Rightarrow> bool" where
  "rows_ok t \<longleftrightarrow>
     pk_ok ob_id t \<and> (\<forall>x \<in> set t. \<forall>y \<in> set t. same_event x y \<or> same_topic x y \<longrightarrow> x = y)"

text \<open>What the columns of a row hold that this repository has written.\<close>

definition row_ok :: "obs_row \<Rightarrow> bool" where
  "row_ok r \<longleftrightarrow>
     ob_id r \<noteq> [] \<and> 0 \<le> ob_timestamp r \<and> ob_content r \<noteq> [] \<and> \<not> has_nul (ob_content r)
     \<and> ob_idempotency_key r \<noteq> Some [] \<and> valid_topic_key (ob_topic_key r) \<and> 1 \<le> ob_revision_count r
     \<and> valid_type (ob_type r)
     \<and> (ob_metadata r = Absent \<or> (\<exists>kvs. ob_metadata r = Holds (JObject kvs)))"

lemma same_event_sym: "same_event x y \<Longrightarrow> same_event y x"
  by (simp add: same_event_def)

lemma same_topic_sym: "same_topic x y \<Longrightarrow> same_topic y x"
  by (simp add: same_topic_def)

lemma conflicts_iff: "conflicts r t \<longleftrightarrow> (\<exists>x \<in> set t. same_event r x \<or> same_topic r x)"
  by (auto simp: conflicts_def list_ex_iff)

lemma rows_ok_append:
  assumes "rows_ok t" "ob_id r \<notin> ob_id ` set t" "\<not> conflicts r t"
  shows "rows_ok (t @ [r])"
  using assms unfolding rows_ok_def conflicts_iff
  by (auto intro: pk_ok_append1 dest: same_event_sym same_topic_sym)

lemma set_update_pk:
  "set (update_where (\<lambda>y. ob_id y = i) (\<lambda>y. r) t)
     \<subseteq> insert r (set (filter (\<lambda>y. ob_id y \<noteq> i) t))"
  by (auto simp: set_update_where)

lemma rows_ok_replace:
  assumes "rows_ok t" "ob_id r = i" "\<not> conflicts r (filter (\<lambda>y. ob_id y \<noteq> i) t)"
  shows "rows_ok (update_where (\<lambda>y. ob_id y = i) (\<lambda>y. r) t)"
proof -
  have "map ob_id (update_where (\<lambda>y. ob_id y = i) (\<lambda>y. r) t) = map ob_id t"
    using assms(2) by (auto simp: update_where_def)
  then have pk: "pk_ok ob_id (update_where (\<lambda>y. ob_id y = i) (\<lambda>y. r) t)"
    using assms(1) by (simp add: rows_ok_def pk_ok_def)
  have uniq: "x = y" if xy: "x \<in> insert r (set (filter (\<lambda>y. ob_id y \<noteq> i) t))"
    "y \<in> insert r (set (filter (\<lambda>y. ob_id y \<noteq> i) t))" "same_event x y \<or> same_topic x y" for x y
  proof -
    let ?rest = "set (filter (\<lambda>y. ob_id y \<noteq> i) t)"
    have c: "\<not> same_event r z \<and> \<not> same_topic r z \<and> \<not> same_event z r \<and> \<not> same_topic z r" if "z \<in> ?rest" for z
      using that assms(3) same_event_sym [of z r] same_topic_sym [of z r] by (auto simp: conflicts_iff)
    have both: "x \<in> set t \<Longrightarrow> y \<in> set t \<Longrightarrow> x = y"
      using xy(3) assms(1) unfolding rows_ok_def by blast
    consider "x = r" "y = r" | "x = r" "y \<in> ?rest" | "x \<in> ?rest" "y = r" | "x \<in> ?rest" "y \<in> ?rest"
      using xy(1,2) by blast
    then show ?thesis
    proof cases
      case 2
      with c [of y] xy(3) show ?thesis by simp
    next
      case 3
      with c [of x] xy(3) show ?thesis by simp
    next
      case 4
      with both show ?thesis by simp
    qed simp
  qed
  show ?thesis
    unfolding rows_ok_def
  proof (intro conjI ballI impI)
    fix x y
    assume "x \<in> set (update_where (\<lambda>y. ob_id y = i) (\<lambda>y. r) t)"
      "y \<in> set (update_where (\<lambda>y. ob_id y = i) (\<lambda>y. r) t)" and same: "same_event x y \<or> same_topic x y"
    then have "x \<in> insert r (set (filter (\<lambda>y. ob_id y \<noteq> i) t))"
      "y \<in> insert r (set (filter (\<lambda>y. ob_id y \<noteq> i) t))"
      using set_update_pk [of i r t] by (auto simp only: subset_iff)
    then show "x = y" using same by (rule uniq)
  qed (rule pk)
qed

lemma rows_ok_delete: "rows_ok t \<Longrightarrow> rows_ok (delete_where p t)"
  by (simp add: rows_ok_def pk_ok_delete_where) (simp add: delete_where_def)

lemma lower_char_small:
  assumes "(of_char (lower_char c) :: nat) < 97"
  shows "lower_char c = c"
proof -
  let ?n = "of_char c :: nat"
  have "\<not> ((65 \<le> ?n \<and> ?n \<le> 90) \<or> (192 \<le> ?n \<and> ?n \<le> 222 \<and> ?n \<noteq> 215))"
  proof
    assume r: "(65 \<le> ?n \<and> ?n \<le> 90) \<or> (192 \<le> ?n \<and> ?n \<le> 222 \<and> ?n \<noteq> 215)"
    then have "lower_char c = char_of (?n + 32)" by (simp add: lower_char_def)
    with r have "(of_char (lower_char c) :: nat) = ?n + 32" by auto
    with r assms show False by auto
  qed
  then show ?thesis by (auto simp: lower_char_def Let_def)
qed

lemma in_py_lower:
  assumes "c \<in> set (py_lower s)" "(of_char c :: nat) < 97"
  shows "c \<in> set s"
proof -
  from assms(1) obtain d where "d \<in> set s" "c = lower_char d" by (auto simp: py_lower_def)
  with assms(2) lower_char_small [of d] show ?thesis by simp
qed

lemma not_nul_lower: "\<not> has_nul s \<Longrightarrow> \<not> has_nul (py_lower s)"
  using in_py_lower [of "CHR 0x00" s] by (auto simp: has_nul_def)

lemma row_ok_of: "valid_observation x \<Longrightarrow> row_ok (obs_row_of x ses)"
  by (cases "ob_metadata x") (auto simp: valid_observation_def row_ok_def obs_row_of_def)

lemma length_py_strip: "length (py_strip s) \<le> length s"
  unfolding py_strip_def by (metis length_dropWhile_le length_rev order_trans)

lemma not_nul_topic: "valid_topic_key (Some k) \<Longrightarrow> normalize_topic_key k \<noteq> [] \<Longrightarrow>
    valid_topic_key (Some (normalize_topic_key k))"
proof -
  assume k: "valid_topic_key (Some k)" "normalize_topic_key k \<noteq> []"
  have sub: "set (normalize_topic_key k) \<subseteq> set (py_lower k)"
    by (simp add: normalize_topic_key_def set_py_strip)
  have "CHR '' '' \<notin> set (normalize_topic_key k)"
    using k(1) sub in_py_lower [of "CHR '' ''" k] by (auto simp: valid_topic_key_def)
  moreover have "\<not> has_nul (normalize_topic_key k)"
    using k(1) sub not_nul_lower [of k] by (auto simp: valid_topic_key_def has_nul_def)
  moreover have "length (normalize_topic_key k) \<le> length k"
    using length_py_strip [of "py_lower k"] by (simp add: normalize_topic_key_def py_lower_def)
  ultimately show ?thesis using k by (auto simp: valid_topic_key_def)
qed

section \<open>The journal\<close>

lemma logged_journal:
  assumes "journal_ok (me_sync s)" "key \<noteq> []" "op \<in> set mutation_ops" "0 \<le> now"
  shows "journal_ok (me_sync (logged op key project payload now s))"
  using record_mutation_ok [OF assms(1), of "''observation''" key op "''local''" now] assms
  by (simp add: logged_def)

section \<open>The order of the store\<close>

definition store_ok :: "memory_store \<Rightarrow> bool" where
  "store_ok s \<longleftrightarrow> rows_ok (me_rows s) \<and> (\<forall>r \<in> set (me_rows s). row_ok r) \<and> journal_ok (me_sync s)"

text \<open>A write of the rows with a log entry behind it.\<close>

lemma store_ok_logged:
  assumes "store_ok s" "rows_ok t" "\<forall>r \<in> set t. row_ok r" "key \<noteq> []" "op \<in> set mutation_ops" "0 \<le> now"
  shows "store_ok (logged op key project payload now (s\<lparr>me_rows := t\<rparr>))"
  using assms by (simp add: store_ok_def logged_journal)

lemma create_rows_ok:
  assumes "create_rows x t = Inr t'" "valid_observation x" "rows_ok t" "\<forall>r \<in> set t. row_ok r"
  shows "rows_ok t' \<and> (\<forall>r \<in> set t'. row_ok r)"
  using assms
  by (auto simp: create_rows_def Let_def row_ok_of split: option.splits if_splits
      intro!: rows_ok_append)

lemma update_rows_ok:
  assumes "update_rows x t = Inr t'" "valid_observation x" "rows_ok t" "\<forall>r \<in> set t. row_ok r"
  shows "rows_ok t' \<and> (\<forall>r \<in> set t'. row_ok r)"
proof -
  from assms(1) obtain ses where
    c: "\<not> conflicts (obs_row_of x ses) (filter (\<lambda>y. ob_id y \<noteq> ob_id x) t)"
    and t': "t' = update_where (\<lambda>y. ob_id y = ob_id x) (\<lambda>y. obs_row_of x ses) t"
    by (auto simp: update_rows_def Let_def split: option.splits if_splits)
  have "ob_id (obs_row_of x ses) = ob_id x" by (simp add: obs_row_of_def)
  from rows_ok_replace [OF assms(3) this c] assms(4) row_ok_of [OF assms(2)] show ?thesis
    unfolding t' using set_update_pk by fastforce
qed

lemma delete_rows_ok:
  assumes "delete_rows i t = Inr t'" "rows_ok t" "\<forall>r \<in> set t. row_ok r"
  shows "rows_ok t' \<and> (\<forall>r \<in> set t'. row_ok r) \<and> i \<noteq> []"
  using assms
  using rows_ok_delete [of t "\<lambda>r. ob_id r = i"]
  by (auto simp: delete_rows_def delete_where_def row_ok_def split: if_splits)

lemma upsert_candidates_subset: "set (upsert_candidates k p t) \<subseteq> set (filter (has_topic k) t)"
  by (auto simp: upsert_candidates_def Let_def split: option.splits list.splits)

lemma upsert_target_in: "upsert_target k p t = Some r \<Longrightarrow> r \<in> set t \<and> has_topic k r"
  using upsert_candidates_subset [of k p t]
  by (auto simp: upsert_target_def split: list.splits)

lemma upsert_rows_Inr:
  assumes "upsert_rows x t = Inr (y, t')"
  obtains key k ses r where "ob_topic_key x = Some key" "k = normalize_topic_key key" "k \<noteq> []"
    "session_column (ob_session_id x) = Some ses"
    "upsert_target k (normalize_project (ob_project x)) t = Some r"
    "\<not> conflicts (upserted x k ses r) (filter (\<lambda>y. ob_id y \<noteq> ob_id r) t)"
    "row_to_observation (upserted x k ses r) = Inr y"
    "t' = update_where (\<lambda>z. ob_id z = ob_id r) (\<lambda>z. upserted x k ses r) t"
  using assms
  by (auto simp: upsert_rows_def Let_def res_bind_Inr_iff split: option.splits if_splits)

lemma upserted_ok:
  assumes "valid_observation x" "row_ok r" "ob_topic_key x = Some key" "k = normalize_topic_key key" "k \<noteq> []"
  shows "row_ok (upserted x k ses r)"
proof -
  have "valid_topic_key (Some k)"
    using assms(1,3,4,5) not_nul_topic [of key] by (simp add: valid_observation_def)
  with assms(1,2) show ?thesis
    by (auto simp: row_ok_def upserted_def valid_observation_def)
qed

lemma upsert_rows_ok:
  assumes "upsert_rows x t = Inr (y, t')" "valid_observation x" "rows_ok t" "\<forall>r \<in> set t. row_ok r"
  shows "rows_ok t' \<and> (\<forall>r \<in> set t'. row_ok r) \<and> valid_observation y \<and> or_empty (ob_topic_key x) \<noteq> []"
  using assms(1)
proof (rule upsert_rows_Inr)
  fix key k ses r
  assume h: "ob_topic_key x = Some key" "k = normalize_topic_key key" "k \<noteq> []"
    "upsert_target k (normalize_project (ob_project x)) t = Some r"
    "\<not> conflicts (upserted x k ses r) (filter (\<lambda>y. ob_id y \<noteq> ob_id r) t)"
    "row_to_observation (upserted x k ses r) = Inr y"
    "t' = update_where (\<lambda>z. ob_id z = ob_id r) (\<lambda>z. upserted x k ses r) t"
  have "row_ok (upserted x k ses r)"
    using upserted_ok [OF assms(2) _ h(1,2,3)] assms(4) upsert_target_in [OF h(4)] by blast
  moreover have "ob_id (upserted x k ses r) = ob_id r" by (simp add: upserted_def)
  moreover have "key \<noteq> []" using assms(2) h(1) by (simp add: valid_observation_def valid_topic_key_def)
  ultimately show ?thesis
    unfolding h(7) using rows_ok_replace [OF assms(3) _ h(5)] set_update_pk assms(4)
      row_to_observation_valid [OF h(6)] h(1) by (fastforce simp: or_empty_def)
qed

section \<open>Every operation keeps the order\<close>

lemma create_observation_ok:
  "store_ok s \<Longrightarrow> valid_observation x \<Longrightarrow> 0 \<le> now \<Longrightarrow> store_ok (snd (create_observation x now s))"
  by (auto simp: create_run mutation_ops_def store_ok_def valid_observation_def
      intro!: logged_journal split: sum.splits dest: create_rows_ok)

lemma update_observation_ok:
  "store_ok s \<Longrightarrow> valid_observation x \<Longrightarrow> 0 \<le> now \<Longrightarrow> store_ok (snd (update_observation x now s))"
  by (auto simp: update_run mutation_ops_def store_ok_def valid_observation_def
      intro!: logged_journal split: sum.splits dest: update_rows_ok)

lemma delete_observation_ok:
  "store_ok s \<Longrightarrow> 0 \<le> now \<Longrightarrow> store_ok (snd (delete_observation i now s))"
  by (auto simp: delete_run mutation_ops_def store_ok_def
      intro!: logged_journal split: sum.splits dest: delete_rows_ok)

lemma upsert_topic_key_ok:
  assumes "store_ok s" "valid_observation x" "0 \<le> now"
  shows "store_ok (snd (upsert_topic_key x now s))
         \<and> (\<forall>y. fst (upsert_topic_key x now s) = Inr y \<longrightarrow> valid_observation y)"
proof (cases "upsert_rows x (me_rows s)")
  case (Inr a)
  obtain y t where a: "a = (y, t)" by (cases a)
  with Inr assms have t: "rows_ok t" "\<forall>r \<in> set t. row_ok r" "valid_observation y"
    "or_empty (ob_topic_key x) \<noteq> []"
    using upsert_rows_ok [of x "me_rows s" y t] by (auto simp: store_ok_def)
  have "''update'' \<in> set mutation_ops" by (simp add: mutation_ops_def)
  from store_ok_logged [OF assms(1) t(1,2,4) this assms(3)] Inr a t(3) show ?thesis
    by (simp add: upsert_run)
qed (use assms(1) in \<open>simp add: upsert_run\<close>)

text \<open>Merging changes projects only, and stops before two rows would share a topic.\<close>

lemma topics_ok_same:
  assumes "topics_ok t" "x \<in> set t" "y \<in> set t" "same_topic x y"
  shows "x = y"
  using assms by (auto simp: topics_ok_def same_topic_def distinct_map inj_on_def)

lemma rows_ok_moved:
  assumes "rows_ok t" "topics_ok (update_where p (\<lambda>r. r\<lparr>ob_project := q\<rparr>) t)"
  shows "rows_ok (update_where p (\<lambda>r. r\<lparr>ob_project := q\<rparr>) t)"
proof -
  let ?f = "\<lambda>r. if p r then r\<lparr>ob_project := q\<rparr> else r"
  have event: "x = y" if "x \<in> set (map ?f t)" "y \<in> set (map ?f t)" "same_event x y" for x y
  proof -
    from that(1,2) obtain u v where uv: "u \<in> set t" "v \<in> set t" "x = ?f u" "y = ?f v" by auto
    from uv(3,4) have "ob_idempotency_key x = ob_idempotency_key u" "ob_idempotency_key y = ob_idempotency_key v"
      by simp_all
    with that(3) have "same_event u v" by (simp add: same_event_def)
    with uv(1,2) assms(1) have "u = v" unfolding rows_ok_def by blast
    with uv(3,4) show ?thesis by simp
  qed
  have pk: "pk_ok ob_id (update_where p (\<lambda>r. r\<lparr>ob_project := q\<rparr>) t)"
    using assms(1) by (simp add: rows_ok_def pk_ok_update_where)
  show ?thesis
    unfolding rows_ok_def
  proof (intro conjI ballI impI)
    fix x y
    assume xy: "x \<in> set (update_where p (\<lambda>r. r\<lparr>ob_project := q\<rparr>) t)"
      "y \<in> set (update_where p (\<lambda>r. r\<lparr>ob_project := q\<rparr>) t)"
    assume "same_event x y \<or> same_topic x y"
    then show "x = y"
      using event [OF xy [unfolded update_where_def]] topics_ok_same [OF assms(2) xy] by blast
  qed (rule pk)
qed

lemma merge_sources_ok:
  assumes "merge_sources c ps n (t, ses) = Inr (n', (t', ses'))" "rows_ok t" "\<forall>r \<in> set t. row_ok r"
  shows "rows_ok t' \<and> (\<forall>r \<in> set t'. row_ok r)"
  using assms
proof (induction ps arbitrary: n t ses)
  case (Cons p ps)
  let ?t = "update_where (\<lambda>r. ob_project r = Some (normalize_project_name p)) (\<lambda>r. r\<lparr>ob_project := Some c\<rparr>) t"
  obtain no ns where n: "n = (no, ns)" by (cases n)
  from Cons.prems(1) n have "topics_ok ?t" by (auto simp: Let_def split: if_splits)
  with Cons.prems(2) have "rows_ok ?t" by (rule rows_ok_moved)
  moreover have "\<forall>r \<in> set ?t. row_ok r"
    using Cons.prems(3) by (auto simp: set_update_where row_ok_def)
  ultimately show ?case using Cons.IH Cons.prems(1) n by (auto simp: Let_def split: if_splits)
qed (cases n, simp)

lemma merge_projects_ok: "store_ok s \<Longrightarrow> store_ok (snd (merge_projects c ps s))"
  by (auto simp: merge_projects_def store_ok_def split: sum.splits prod.splits dest!: merge_sources_ok)

lemma save_event_ok:
  assumes "store_ok s"
  shows "store_ok (snd (save_event i now c md key s))"
proof (cases "get_by_idempotency_key key (me_rows s)")
  case (Inr r)
  let ?x = "(blank_observation i now c)\<lparr>ob_metadata := Some md, ob_idempotency_key := Some key\<rparr>"
  show ?thesis
  proof (cases r)
    case None
    show ?thesis
    proof (cases "make_observation ?x")
      case (Inr y)
      then have y: "y = ?x" "valid_observation ?x" by (simp_all add: make_observation_Inr)
      then have "0 \<le> now" by (simp add: valid_observation_def blank_observation_def)
      with create_observation_ok [OF assms y(2)] have "store_ok (snd (create_observation ?x now s))" by simp
      with Inr y(1) \<open>get_by_idempotency_key key (me_rows s) = Inr r\<close> None show ?thesis
        by (auto simp: save_event_def py_simps py_bind_def py_return_def split: prod.splits sum.splits)
    qed (use assms Inr None in \<open>simp add: save_event_def py_simps\<close>)
  qed (use assms Inr in \<open>simp add: save_event_def py_simps\<close>)
qed (use assms in \<open>simp add: save_event_def py_simps\<close>)

lemma then_return:
  "py_bind m (\<lambda>_. py_return x) s =
     (case m s of (Inl e, s') \<Rightarrow> (Inl e, s') | (Inr u, s') \<Rightarrow> (Inr x, s'))"
  by (simp add: py_bind_def py_return_def split: prod.splits sum.splits)

lemma memory_save_run [code]:
  "memory_save i now c md tk pr ty ti s =
     (let x = new_memory i now c md tk pr ty ti
      in case existing_for_topic tk pr (me_rows s) of
           Inl e \<Rightarrow> (Inl e, s)
         | Inr existing \<Rightarrow>
             (case make_observation x of
                Inl e \<Rightarrow> (Inl e, s)
              | Inr y \<Rightarrow>
                  (case existing of
                     Some z \<Rightarrow> upsert_topic_key x now s
                   | None \<Rightarrow> (case create_observation x now s of
                                (Inl e, s') \<Rightarrow> (Inl e, s') | (Inr u, s') \<Rightarrow> (Inr x, s')))))"
proof (cases "existing_for_topic tk pr (me_rows s)")
  case (Inr existing)
  then show ?thesis
    by (cases "make_observation (new_memory i now c md tk pr ty ti)"; cases existing)
       (auto simp: memory_save_def py_bind_lift py_bind_read Let_def then_return make_observation_Inr
          make_observation_valid)
qed (simp add: memory_save_def py_bind_read)

lemma new_memory_time: "ob_timestamp (new_memory i now c md tk pr ty ti) = now"
  by (simp add: new_memory_def blank_observation_def split: prod.splits)

lemma memory_save_ok:
  assumes "store_ok s"
  shows "store_ok (snd (memory_save i now c md tk pr ty ti s))
         \<and> (\<forall>y. fst (memory_save i now c md tk pr ty ti s) = Inr y \<longrightarrow> valid_observation y)"
proof (cases "valid_observation (new_memory i now c md tk pr ty ti)")
  case True
  then have now: "0 \<le> now" using new_memory_time by (metis valid_observation_def)
  show ?thesis
    using upsert_topic_key_ok [OF assms True now] create_observation_ok [OF assms True now] True assms
    by (auto simp: memory_save_run Let_def make_observation_valid split: option.splits prod.splits sum.splits)
next
  case False
  then have "make_observation (new_memory i now c md tk pr ty ti) = Inr y \<Longrightarrow> False" for y
    by (simp add: make_observation_Inr)
  with assms show ?thesis
    by (auto simp: memory_save_run Let_def split: sum.splits)
qed

lemma memory_update_run [code]:
  "memory_update i now c md ty tk pr ti s =
     (case get_observation i (me_rows s) of
        Inl e \<Rightarrow> (Inl e, s)
      | Inr x \<Rightarrow>
          (let y = revised c md ty tk pr ti x
           in case make_observation y of
                Inl e \<Rightarrow> (Inl e, s)
              | Inr z \<Rightarrow> (case update_observation y now s of
                            (Inl e, s') \<Rightarrow> (Inl e, s') | (Inr u, s') \<Rightarrow> (Inr y, s'))))"
  by (cases "get_observation i (me_rows s)";
      cases "make_observation (revised c md ty tk pr ti (projr (get_observation i (me_rows s))))")
     (auto simp: memory_update_def py_bind_lift py_bind_read Let_def then_return make_observation_Inr
       make_observation_valid)

lemma memory_update_ok:
  assumes "store_ok s" "0 \<le> now"
  shows "store_ok (snd (memory_update i now c md ty tk pr ti s))
         \<and> (\<forall>y. fst (memory_update i now c md ty tk pr ti s) = Inr y \<longrightarrow> valid_observation y)"
proof (cases "get_observation i (me_rows s)")
  case (Inr x)
  show ?thesis
  proof (cases "valid_observation (revised c md ty tk pr ti x)")
    case True
    with Inr update_observation_ok [OF assms(1) True assms(2)] show ?thesis
      by (auto simp: memory_update_run Let_def make_observation_valid split: prod.splits sum.splits)
  next
    case False
    then have "make_observation (revised c md ty tk pr ti x) = Inr y \<Longrightarrow> False" for y
      by (simp add: make_observation_Inr)
    with assms(1) Inr show ?thesis by (auto simp: memory_update_run Let_def split: sum.splits)
  qed
qed (use assms(1) in \<open>simp add: memory_update_run\<close>)

section \<open>Sequences of calls\<close>

datatype memory_call =
    MSave string int string "metadata option" "string option" "string option" "string option" "string option"
  | MUpdate string int "string option" "metadata option" "string option" "string option" "string option"
      "string option"
  | MDelete string int
  | MEvent string int string metadata string
  | MPrompt string "string option" "string option" "string option" "string option" "string option"
  | MMerge string string
  | MGet string
  | MPrefix string
  | MRecent int int "string option" "string option"
  | MSearch "string \<Rightarrow> obs_row \<Rightarrow> bool" string "int option" "string option"
  | MRange int int "string option"
  | MQuery "string option" "string option" "string option" int int "int option"

text \<open>The observations a call hands to its caller, and the store it leaves.\<close>

definition handing :: "(memory_store, 'a) py \<Rightarrow> ('a \<Rightarrow> observation list) \<Rightarrow> (memory_store, observation list) py" where
  "handing m f = py_bind m (\<lambda>a. py_return (f a))"

fun run_memory :: "memory_call \<Rightarrow> (memory_store, observation list) py" where
  "run_memory (MSave i now c md tk pr ty ti) = handing (memory_save i now c md tk pr ty ti) (\<lambda>x. [x])"
| "run_memory (MUpdate i now c md ty tk pr ti) = handing (memory_update i now c md ty tk pr ti) (\<lambda>x. [x])"
| "run_memory (MDelete i now) = handing (memory_delete i now) (\<lambda>_. [])"
| "run_memory (MEvent i now c md key) = handing (save_event i now c md key) (\<lambda>_. [])"
| "run_memory (MPrompt c pr se ro mo pv) = handing (memory_save_prompt c pr se ro mo pv) (\<lambda>_. [])"
| "run_memory (MMerge from_projects to_project) =
     handing (memory_merge_projects from_projects to_project) (\<lambda>_. [])"
| "run_memory (MGet i) = py_read (\<lambda>s. res_bind (get_observation i (me_rows s)) (\<lambda>x. Inr [x]))"
| "run_memory (MPrefix p) = py_read (\<lambda>s. get_by_id_prefix p (me_rows s))"
| "run_memory (MRecent limit off ty pr) = py_read (\<lambda>s. get_recent limit off ty pr (me_rows s))"
| "run_memory (MSearch matches q limit pr) =
     py_read (\<lambda>s. search_observations matches q limit pr (me_rows s))"
| "run_memory (MRange a b pr) = py_read (\<lambda>s. get_by_timestamp_range a b pr (me_rows s))"
| "run_memory (MQuery ag run ev limit scan since) =
     py_read (\<lambda>s. memory_query ag run ev limit scan since (me_rows s))"

text \<open>The clock reading of a call that writes a log entry without checking it.\<close>

fun clock_ok :: "memory_call \<Rightarrow> bool" where
  "clock_ok (MUpdate i now c md ty tk pr ti) \<longleftrightarrow> 0 \<le> now"
| "clock_ok (MDelete i now) \<longleftrightarrow> 0 \<le> now"
| "clock_ok c \<longleftrightarrow> True"

lemma handing_run [code]:
  "handing m f s = (case m s of (r, s') \<Rightarrow> case r of Inl e \<Rightarrow> (Inl e, s') | Inr a \<Rightarrow> (Inr (f a), s'))"
  by (simp add: handing_def py_bind_def py_return_def split: prod.splits sum.splits)

lemma snd_handing [simp]: "snd (handing m f s) = snd (m s)"
  by (auto simp: handing_def py_bind_def py_return_def split: prod.splits sum.splits)

lemma fst_handing: "fst (handing m f s) = Inr xs \<Longrightarrow> \<exists>a. fst (m s) = Inr a \<and> xs = f a"
  by (auto simp: handing_def py_bind_def py_return_def split: prod.splits sum.splits)

lemma run_memory_ok:
  assumes "store_ok s" "clock_ok c"
  shows "store_ok (snd (run_memory c s))"
proof (cases c)
  case (MMerge a b)
  with assms show ?thesis
    using merge_projects_ok by (auto simp: memory_merge_projects_def Let_def py_return_def)
next
  case (MPrompt c pr se ro mo pv)
  with assms show ?thesis
    by (simp add: memory_save_prompt_def save_prompt_def Let_def store_ok_def)
qed (use assms memory_save_ok memory_update_ok delete_observation_ok save_event_ok in
     \<open>auto simp: memory_delete_def py_read_def\<close>)

lemma run_memory_valid:
  assumes "store_ok s" "clock_ok c" "fst (run_memory c s) = Inr xs"
  shows "\<forall>x \<in> set xs. valid_observation x"
proof (cases c)
  case (MGet i)
  with assms(3) show ?thesis
    by (auto simp: py_read_def res_bind_Inr_iff get_observation_def row_to_observation_valid split: option.splits)
next
  case (MPrefix p)
  with assms(3) show ?thesis
    by (auto simp: py_read_def get_by_id_prefix_def dest!: traverse_rows_valid)
next
  case (MRecent limit off ty pr)
  with assms(3) show ?thesis
    by (auto simp: py_read_def get_recent_def split: if_splits dest!: get_all_valid)
next
  case (MSearch matches q limit pr)
  with assms(3) show ?thesis
    by (auto simp: py_read_def search_observations_def Let_def split: if_splits dest!: traverse_rows_valid)
next
  case (MRange a b pr)
  with assms(3) show ?thesis
    by (auto simp: py_read_def get_by_timestamp_range_def dest!: traverse_rows_valid)
next
  case (MQuery ag run ev limit scan since)
  with assms(3) show ?thesis by (auto simp: py_read_def dest!: memory_query_valid)
next
  case (MSave i now c md tk pr ty ti)
  with assms show ?thesis using memory_save_ok by (auto dest!: fst_handing)
next
  case (MUpdate i now c md ty tk pr ti)
  with assms show ?thesis using memory_update_ok by (auto dest!: fst_handing)
qed (use assms(3) in \<open>auto dest!: fst_handing\<close>)

fun run_memory_calls :: "memory_call list \<Rightarrow> memory_store \<Rightarrow> memory_store" where
  "run_memory_calls [] s = s"
| "run_memory_calls (c # cs) s = run_memory_calls cs (snd (run_memory c s))"

lemma run_memory_calls_ok: "store_ok s \<Longrightarrow> \<forall>c \<in> set cs. clock_ok c \<Longrightarrow> store_ok (run_memory_calls cs s)"
  by (induction cs arbitrary: s) (simp_all add: run_memory_ok)

definition empty_memory :: memory_store where
  "empty_memory = \<lparr>me_rows = [], me_prompts = [], me_sessions = [], me_sync = empty_sync,
     me_has_sync = True, me_recording = True\<rparr>"

lemma store_ok_empty: "store_ok empty_memory"
  by (simp add: store_ok_def empty_memory_def rows_ok_def pk_ok_def journal_ok_empty)

end
