(* ===== verification/Memory_Queries.thy ===== *)
theory Memory_Queries
  imports Memory_Store
begin

text \<open>
  Lemmas on reading: which rows can be read back and as what, pages of the list of recent entries, the
  choice of the row a topic key addresses, and the comparison of two windows.
\<close>

section \<open>Rows that can be read\<close>

text \<open>
  A row without a project takes the project of its metadata. The entity refuses one that is not a
  proper text.
\<close>

definition project_entry_ok :: "metadata \<Rightarrow> bool" where
  "project_entry_ok md \<longleftrightarrow>
     (case map_of md ''project'' of
        None \<Rightarrow> True
      | Some JNull \<Rightarrow> True
      | Some (JString p) \<Rightarrow> valid_project (Some p)
      | Some v \<Rightarrow> False)"

definition row_entries :: "obs_row \<Rightarrow> metadata" where
  "row_entries r = (case ob_metadata r of Holds (JObject kvs) \<Rightarrow> kvs | _ \<Rightarrow> [])"

definition readable_project :: "obs_row \<Rightarrow> bool" where
  "readable_project r \<longleftrightarrow>
     (if or_empty (ob_project r) = [] then project_entry_ok (row_entries r)
      else valid_project (ob_project r))"

lemma row_metadata_ok: "row_ok r \<Longrightarrow> row_metadata r = Inr (JObject (row_entries r))"
  by (auto simp: row_ok_def row_metadata_def row_entries_def)

lemma as_opt_str_project:
  assumes "readable_project r"
  shows "\<exists>p. row_project r (JObject (row_entries r)) = Inr (json_str p) \<and> valid_project p"
proof (cases "or_empty (ob_project r) = []")
  case True
  then have "row_project r (JObject (row_entries r)) =
      Inr (case map_of (row_entries r) ''project'' of None \<Rightarrow> JNull | Some x \<Rightarrow> x)"
    by (auto simp: row_project_def or_empty_def split: option.splits list.splits)
  moreover have "\<exists>p. (case map_of (row_entries r) ''project'' of None \<Rightarrow> JNull | Some x \<Rightarrow> x) = json_str p
      \<and> valid_project p"
  proof (cases "map_of (row_entries r) ''project''")
    case None
    then show ?thesis by (intro exI [of _ None]) (simp add: valid_project_def)
  next
    case (Some v)
    with assms True have "v = JNull \<or> (\<exists>p. v = JString p \<and> valid_project (Some p))"
      by (auto simp: readable_project_def project_entry_ok_def split: json.splits)
    then show ?thesis
    proof
      assume "v = JNull"
      with Some show ?thesis by (intro exI [of _ None]) (simp add: valid_project_def)
    next
      assume "\<exists>p. v = JString p \<and> valid_project (Some p)"
      then obtain p where "v = JString p" "valid_project (Some p)" by blast
      with Some show ?thesis by (intro exI [of _ "Some p"]) simp
    qed
  qed
  ultimately show ?thesis by simp
next
  case False
  then obtain c cs where p: "ob_project r = Some (c # cs)"
    by (cases "ob_project r") (auto simp: or_empty_def neq_Nil_conv)
  with assms have "valid_project (Some (c # cs))" by (simp add: readable_project_def or_empty_def)
  with p show ?thesis by (intro exI [of _ "Some (c # cs)"]) (simp add: row_project_def)
qed

lemma known_type_allowed: "known_type t = Some u \<Longrightarrow> u \<in> set allowed_types"
  by (auto simp: known_type_def split: if_splits)

lemma row_type_valid: "valid_type (row_type r d)"
  using known_type_allowed
  by (auto simp: row_type_def valid_type_def bind_eq_Some_conv split: option.splits json.splits)

text \<open>A row in order with a readable project is read, with its id, time, content and keys.\<close>

lemma row_readable:
  assumes "row_ok r" "readable_project r"
  shows "\<exists>x. row_to_observation r = Inr x \<and> ob_id x = ob_id r \<and> ob_timestamp x = ob_timestamp r
           \<and> ob_content x = ob_content r \<and> ob_topic_key x = ob_topic_key r
           \<and> ob_revision_count x = ob_revision_count r \<and> ob_idempotency_key x = ob_idempotency_key r"
proof -
  from as_opt_str_project [OF assms(2)] obtain p where
    p: "row_project r (JObject (row_entries r)) = Inr (json_str p)" "valid_project p" by blast
  define x :: observation where "x =
    \<lparr>ob_id = ob_id r, ob_timestamp = ob_timestamp r, ob_content = ob_content r, ob_title = ob_title r,
     ob_metadata = Some (row_entries r), ob_idempotency_key = ob_idempotency_key r, ob_project = p,
     ob_type = row_type r (JObject (row_entries r)), ob_topic_key = ob_topic_key r,
     ob_revision_count = ob_revision_count r, ob_session_id = json_str (ob_session_id r)\<rparr>"
  have "valid_observation x"
    using assms(1) p(2) row_type_valid by (simp add: x_def valid_observation_def row_ok_def)
  then have "post_init (raw_of x) = Inr x" using make_observation_valid by (simp add: make_observation_def)
  moreover have "ob_revision_count r \<noteq> 0" using assms(1) by (simp add: row_ok_def)
  ultimately have "row_to_observation r = Inr x"
    using row_metadata_ok [OF assms(1)] p(1)
    by (simp add: row_to_observation_def raw_of_def x_def)
  then show ?thesis by (intro exI [of _ x]) (simp add: x_def)
qed

lemma readable_of_row:
  assumes "row_ok r" "row_to_observation r = Inr x"
  shows "readable_project r"
proof -
  from assms(2) obtain p where p: "row_project r (JObject (row_entries r)) = Inr p" "p = json_str (ob_project x)"
    by (auto simp: row_to_observation_def row_metadata_ok [OF assms(1)] res_bind_Inr_iff post_init_def as_opt_str_Inr)
  have v: "valid_project (ob_project x)"
    using row_to_observation_valid [OF assms(2)] by (simp add: valid_observation_def)
  show ?thesis
    using p v
    by (cases "ob_project r"; cases "or_empty (ob_project r)"; cases "ob_project x")
       (auto simp: readable_project_def row_project_def or_empty_def project_entry_ok_def split: option.splits)
qed

text \<open>So a row in order is read exactly when its project is a text the entity accepts.\<close>

lemma row_read_iff: "row_ok r \<Longrightarrow> (\<exists>x. row_to_observation r = Inr x) \<longleftrightarrow> readable_project r"
  using row_readable readable_of_row by blast

lemma row_to_observation_fields:
  assumes "row_to_observation r = Inr x"
  shows "ob_id x = ob_id r" "ob_timestamp x = ob_timestamp r" "ob_content x = ob_content r"
    "ob_topic_key x = ob_topic_key r"
  using assms
  by (auto simp: row_to_observation_def post_init_def res_bind_Inr_iff as_opt_str_Inr)

section \<open>Pages\<close>

lemma traverse_take: "traverse f xs = Inr ys \<Longrightarrow> traverse f (take n xs) = Inr (take n ys)"
proof (induction xs arbitrary: ys n)
  case (Cons x xs)
  then show ?case by (cases n) (auto simp: res_bind_Inr_iff)
qed simp

lemma traverse_drop: "traverse f xs = Inr ys \<Longrightarrow> traverse f (drop n xs) = Inr (drop n ys)"
proof (induction xs arbitrary: ys n)
  case (Cons x xs)
  then show ?case by (cases n) (auto simp: res_bind_Inr_iff)
qed simp

lemma traverse_Inl: "x \<in> set xs \<Longrightarrow> f x = Inl e \<Longrightarrow> \<exists>e. traverse f xs = Inl e"
proof (induction xs)
  case (Cons y ys)
  then show ?case by (cases "f y"; cases "traverse f ys") auto
qed simp

lemma traverse_map_fields:
  "traverse f xs = Inr ys \<Longrightarrow> (\<And>x y. f x = Inr y \<Longrightarrow> g y = h x) \<Longrightarrow> map g ys = map h xs"
  by (induction xs arbitrary: ys) (auto simp: res_bind_Inr_iff)

lemma get_all_sorted:
  "get_all None None ty pr t = Inr xs \<Longrightarrow> sorted (rev (map ob_timestamp xs))"
  by (auto simp: get_all_def Let_def sorted_order_desc row_to_observation_fields
      dest!: traverse_map_fields [where g = ob_timestamp and h = ob_timestamp])

section \<open>The row of a topic key\<close>

lemma order_desc_hd:
  assumes "order_desc f rows = r # rs" "y \<in> set rows"
  shows "f y \<le> f r"
proof -
  have "sorted (rev (map f (r # rs)))" using sorted_order_desc [of f rows] assms(1) by simp
  moreover have "y \<in> set (r # rs)" using assms by (metis set_order_desc)
  ultimately show ?thesis by (auto simp: sorted_append)
qed

text \<open>
  Without a row of the project, a row of another project is taken before the row without a project.
\<close>

lemma upsert_target_other_project:
  assumes "upsert_target k (Some p) t = Some r" "p \<noteq> []"
    and "\<forall>x \<in> set t. has_topic k x \<longrightarrow> ob_project x \<noteq> Some p"
    and "a \<in> set t" "has_topic k a" "ob_project a \<noteq> None"
  shows "ob_project r \<noteq> None \<and> ob_project r \<noteq> Some p"
proof -
  let ?rows = "order_desc null_rank (order_desc ob_revision_count (filter (has_topic k) t))"
  obtain c cs where p: "p = c # cs" using assms(2) by (cases p) auto
  with assms(1) obtain rs where "order_desc (project_rank p) ?rows = r # rs"
    by (auto simp: upsert_target_def upsert_candidates_def Let_def split: list.splits)
  moreover have "a \<in> set ?rows" using assms(4,5) by simp
  ultimately have "project_rank p a \<le> project_rank p r" by (rule order_desc_hd)
  moreover have "1 \<le> project_rank p a" using assms(6) by (auto simp: project_rank_def split: option.splits)
  ultimately have "1 \<le> project_rank p r" by simp
  then have "ob_project r \<noteq> None" by (cases "ob_project r") (simp_all add: project_rank_def)
  moreover have "ob_project r \<noteq> Some p"
    using upsert_target_in [OF assms(1)] assms(3) by blast
  ultimately show ?thesis by simp
qed

section \<open>Comparing windows\<close>

text \<open>The map of a window holds, per key, an entry of the window with the latest time.\<close>

definition latest_for :: "string \<Rightarrow> observation list \<Rightarrow> observation \<Rightarrow> bool" where
  "latest_for k xs x \<longleftrightarrow>
     x \<in> set xs \<and> diff_key x = k \<and> (\<forall>y \<in> set xs. diff_key y = k \<longrightarrow> ob_timestamp y \<le> ob_timestamp x)"

definition keeps_latest :: "observation list \<Rightarrow> (string \<times> observation) list \<Rightarrow> bool" where
  "keeps_latest xs m \<longleftrightarrow>
     (\<forall>k. case map_of m k of
            None \<Rightarrow> (\<forall>y \<in> set xs. diff_key y \<noteq> k)
          | Some x \<Rightarrow> latest_for k xs x)"

lemma keeps_latest_None:
  "keeps_latest xs m \<Longrightarrow> map_of m k = None \<Longrightarrow> \<forall>y \<in> set xs. diff_key y \<noteq> k"
  unfolding keeps_latest_def by (drule spec [of _ k]) simp

lemma keeps_latest_Some: "keeps_latest xs m \<Longrightarrow> map_of m k = Some z \<Longrightarrow> latest_for k xs z"
  unfolding keeps_latest_def by (drule spec [of _ k]) simp

lemma keeps_latest_step:
  assumes "keeps_latest xs m"
  shows "keeps_latest (xs @ [x])
           (case map_of m (diff_key x) of
              None \<Rightarrow> dict_set (diff_key x) x m
            | Some y \<Rightarrow> if ob_timestamp x > ob_timestamp y then dict_set (diff_key x) x m else m)"
proof -
  have none: "diff_key y \<noteq> k" if "map_of m k = None" "y \<in> set xs" for k y
    using keeps_latest_None [OF assms] that by blast
  have some: "latest_for k xs z" if "map_of m k = Some z" for k z
    using keeps_latest_Some [OF assms] that by blast
  show ?thesis
  proof (cases "map_of m (diff_key x)")
    case None
    then show ?thesis
      using none some by (auto simp: keeps_latest_def latest_for_def map_of_dict_set split: option.splits)
  next
    case (Some y)
    from some [OF this] have y: "latest_for (diff_key x) xs y" .
    show ?thesis
    proof (cases "ob_timestamp x > ob_timestamp y")
      case True
      with Some y none some show ?thesis
        by (fastforce simp: keeps_latest_def latest_for_def map_of_dict_set split: option.splits)
    next
      case False
      with Some y none some show ?thesis
        by (fastforce simp: keeps_latest_def latest_for_def split: option.splits)
    qed
  qed
qed

lemma keeps_latest_build: "keeps_latest ys m \<Longrightarrow> keeps_latest (ys @ xs) (build_map xs m)"
proof (induction xs arbitrary: ys m)
  case (Cons x xs)
  from Cons.IH [OF keeps_latest_step [OF Cons.prems, of x]] show ?case by simp
qed simp

lemma build_map_latest: "keeps_latest xs (build_map xs [])"
  using keeps_latest_build [of "[]" "[]" xs] by (simp add: keeps_latest_def)

lemma build_map_keys: "fst ` set (build_map xs []) = diff_key ` set xs"
proof -
  have "k \<in> fst ` set (build_map xs []) \<longleftrightarrow> (\<exists>y \<in> set xs. diff_key y = k)" for k
  proof (cases "map_of (build_map xs []) k")
    case None
    moreover from keeps_latest_None [OF build_map_latest this] have "\<forall>y \<in> set xs. diff_key y \<noteq> k" .
    ultimately show ?thesis by (auto simp: map_of_eq_None_iff)
  next
    case (Some x)
    moreover from keeps_latest_Some [OF build_map_latest this] have "latest_for k xs x" .
    ultimately show ?thesis by (auto simp: latest_for_def dest: map_of_SomeD intro: rev_image_eqI)
  qed
  then show ?thesis by (simp add: set_eq_iff image_iff) metis
qed

text \<open>Counting the items of one kind is counting the keys of that kind.\<close>

lemma row_count_map_filter:
  assumes "distinct ks" "\<And>k i. f k = Some i \<Longrightarrow> di_topic_key i = k"
  shows "row_count P (List.map_filter f ks) = int (card {k \<in> set ks. \<exists>i. f k = Some i \<and> P i})"
  using assms(1)
proof (induction ks)
  case (Cons k ks)
  have "{j \<in> set (k # ks). \<exists>i. f j = Some i \<and> P i} =
    (if \<exists>i. f k = Some i \<and> P i then insert k {j \<in> set ks. \<exists>i. f j = Some i \<and> P i}
     else {j \<in> set ks. \<exists>i. f j = Some i \<and> P i})" by auto
  with Cons show ?case
    by (auto simp: row_count_def map_filter_simps split: option.splits)
qed (simp add: row_count_def map_filter_simps)

lemma build_map_None: "map_of (build_map xs []) k = None \<longleftrightarrow> k \<notin> diff_key ` set xs"
  by (simp add: map_of_eq_None_iff build_map_keys)

lemma build_map_Some: "map_of (build_map xs []) k = Some x \<Longrightarrow> latest_for k xs x"
  by (rule keeps_latest_Some [OF build_map_latest])

lemma diff_entry_key: "diff_entry k f t = Some i \<Longrightarrow> di_topic_key i = k"
  by (auto simp: diff_entry_def split: option.splits if_splits)

definition entry_for :: "observation list \<Rightarrow> observation list \<Rightarrow> string \<Rightarrow> diff_item option" where
  "entry_for xs ys k = diff_entry k (map_of (build_map xs []) k) (map_of (build_map ys []) k)"

definition diff_keys :: "observation list \<Rightarrow> observation list \<Rightarrow> string list" where
  "diff_keys xs ys = sort (remdups (map fst (build_map xs []) @ map fst (build_map ys [])))"

lemma diff_items_eq: "diff_items xs ys = List.map_filter (entry_for xs ys) (diff_keys xs ys)"
  by (simp add: diff_items_def entry_for_def [abs_def] diff_keys_def Let_def)

lemma set_diff_keys: "set (diff_keys xs ys) = diff_key ` set xs \<union> diff_key ` set ys"
  using build_map_keys [of xs] build_map_keys [of ys] by (simp add: diff_keys_def)

lemma distinct_diff_keys: "distinct (diff_keys xs ys)"
  by (simp add: diff_keys_def)

lemma entry_for_key: "entry_for xs ys k = Some i \<Longrightarrow> di_topic_key i = k"
  by (auto simp: entry_for_def dest: diff_entry_key)

lemma entry_added:
  "(\<exists>i. entry_for xs ys k = Some i \<and> is_change ''added'' i)
     \<longleftrightarrow> k \<in> diff_key ` set ys \<and> k \<notin> diff_key ` set xs"
proof -
  have "k \<in> diff_key ` set zs \<longleftrightarrow> (\<exists>x. map_of (build_map zs []) k = Some x)" for zs
    using build_map_None [of zs k] by auto
  then show ?thesis
    by (auto simp: entry_for_def diff_entry_def is_change_def split: option.splits)
qed

lemma entry_removed:
  "(\<exists>i. entry_for xs ys k = Some i \<and> is_change ''removed'' i)
     \<longleftrightarrow> k \<in> diff_key ` set xs \<and> k \<notin> diff_key ` set ys"
proof -
  have "k \<in> diff_key ` set zs \<longleftrightarrow> (\<exists>x. map_of (build_map zs []) k = Some x)" for zs
    using build_map_None [of zs k] by auto
  then show ?thesis
    by (auto simp: entry_for_def diff_entry_def is_change_def split: option.splits)
qed

lemma in_map_filter: "i \<in> set (List.map_filter f ks) \<longleftrightarrow> (\<exists>k \<in> set ks. f k = Some i)"
  by (force simp: List.map_filter_def)

lemma in_diff_items: "i \<in> set (diff_items xs ys) \<longleftrightarrow> (\<exists>k. entry_for xs ys k = Some i)"
proof -
  have "k \<in> set (diff_keys xs ys)" if "entry_for xs ys k = Some i" for k
    using that build_map_None [of xs k] build_map_None [of ys k]
    by (auto simp: entry_for_def diff_entry_def set_diff_keys split: option.splits)
  then show ?thesis by (auto simp: diff_items_eq in_map_filter)
qed

end
