(* ===== verification/Memory_Properties.thy ===== *)
theory Memory_Properties
  imports Memory_Queries
begin

text \<open>
  The properties of the memory store and its service, with concrete cases of them.
\<close>

section \<open>The order of the store and the entities it hands out\<close>

lemma store_row_get:
  assumes "store_ok s" "r \<in> set (me_rows s)"
  shows "get_observation (ob_id r) (me_rows s) = row_to_observation r"
proof -
  have "pk_ok ob_id (me_rows s)" using assms(1) by (simp add: store_ok_def rows_ok_def)
  then have "lookup_row ob_id (ob_id r) (me_rows s) = Some r" using assms(2) by (simp add: lookup_row_iff)
  then show ?thesis by (simp add: get_observation_def)
qed

lemma store_lists_iff:
  assumes "store_ok s"
  shows "(\<exists>xs. get_all None None None None (me_rows s) = Inr xs) \<longleftrightarrow> (\<forall>r \<in> set (me_rows s). readable_project r)"
proof -
  let ?rows = "order_desc ob_timestamp (me_rows s)"
  have all: "get_all None None None None (me_rows s) = traverse row_to_observation ?rows"
    by (simp add: get_all_def Let_def of_type_def in_project_def normalize_project_def)
  have ok: "(\<exists>x. row_to_observation r = Inr x) \<longleftrightarrow> readable_project r" if "r \<in> set ?rows" for r
    using that assms by (intro row_read_iff) (simp add: store_ok_def)
  show ?thesis
  proof (cases "\<forall>r \<in> set ?rows. readable_project r")
    case True
    then have "\<forall>r \<in> set ?rows. row_to_observation r = Inr (projr (row_to_observation r))" using ok by force
    then have "traverse row_to_observation ?rows = Inr (map (projr \<circ> row_to_observation) ?rows)"
      by (intro traverse_Inr) simp
    with True all show ?thesis by simp
  next
    case False
    then obtain r where r: "r \<in> set ?rows" "\<not> readable_project r" by blast
    then obtain e where "row_to_observation r = Inl e" using ok by (cases "row_to_observation r") auto
    with r have "\<exists>e. traverse row_to_observation ?rows = Inl e" by (intro traverse_Inl)
    with all r show ?thesis by auto
  qed
qed

text \<open>
  C6: after any sequence of calls of the memory service on an empty store, ids are distinct and no two
  rows share an event key, or a topic key within a project. A row can be looked up, with its time, content
  and keys, exactly when its project is one the entity accepts: the project column or, where it is empty,
  the project of the metadata, which no write checks. The list of all entries can be read exactly when
  all rows are so. The sync journal is in order: its sequence numbers grow, its counter is its length, the
  watermark was given out.
\<close>

theorem memory_store_in_order:
  assumes "\<forall>c \<in> set cs. clock_ok c" and s: "s = run_memory_calls cs empty_memory"
  shows "distinct (map ob_id (me_rows s))
    \<and> (\<forall>r \<in> set (me_rows s). \<forall>r' \<in> set (me_rows s). \<forall>k. ob_idempotency_key r = Some k \<longrightarrow>
         ob_idempotency_key r' = Some k \<longrightarrow> r' = r)
    \<and> (\<forall>r \<in> set (me_rows s). \<forall>r' \<in> set (me_rows s). \<forall>k. ob_topic_key r = Some k \<longrightarrow>
         ob_topic_key r' = Some k \<longrightarrow> or_empty (ob_project r') = or_empty (ob_project r) \<longrightarrow> r' = r)
    \<and> (\<forall>r \<in> set (me_rows s). case get_observation (ob_id r) (me_rows s) of
         Inl e \<Rightarrow> \<not> readable_project r
       | Inr x \<Rightarrow> readable_project r \<and> ob_id x = ob_id r \<and> ob_timestamp x = ob_timestamp r
           \<and> ob_content x = ob_content r \<and> ob_topic_key x = ob_topic_key r)
    \<and> ((\<exists>xs. get_all None None None None (me_rows s) = Inr xs)
         \<longleftrightarrow> (\<forall>r \<in> set (me_rows s). readable_project r))
    \<and> journal_ok (me_sync s)"
proof -
  have ok: "store_ok s" unfolding s by (rule run_memory_calls_ok [OF store_ok_empty assms(1)])
  then have rows: "rows_ok (me_rows s)" and journal: "journal_ok (me_sync s)" by (simp_all add: store_ok_def)
  have uniq: "r' = r" if "same_event r r' \<or> same_topic r r'" "r \<in> set (me_rows s)" "r' \<in> set (me_rows s)" for r r'
    using rows that unfolding rows_ok_def by blast
  have got: "case get_observation (ob_id r) (me_rows s) of
         Inl e \<Rightarrow> \<not> readable_project r
       | Inr x \<Rightarrow> readable_project r \<and> ob_id x = ob_id r \<and> ob_timestamp x = ob_timestamp r
           \<and> ob_content x = ob_content r \<and> ob_topic_key x = ob_topic_key r" if r: "r \<in> set (me_rows s)" for r
  proof -
    have "row_ok r" using ok r by (simp add: store_ok_def)
    from row_read_iff [OF this] show ?thesis
      unfolding store_row_get [OF ok r]
      by (cases "row_to_observation r") (auto simp: row_to_observation_fields)
  qed
  show ?thesis
    using rows uniq got store_lists_iff [OF ok] journal
    by (intro conjI ballI allI impI) (auto simp: rows_ok_def pk_ok_def same_event_def same_topic_def)
qed

definition sample_memory_calls :: "memory_call list" where
  "sample_memory_calls =
     [MSave ''a'' 5 ''x'' None (Some ''k'') (Some ''p'') None None,
      MSave ''b'' 6 ''y'' None (Some ''k'') (Some ''p'') None None,
      MEvent ''e'' 7 ''z'' [] ''r'', MEvent ''f'' 8 ''z'' [] ''r'',
      MUpdate ''e'' 9 (Some ''w'') None None None None None, MDelete ''a'' 9]"

text \<open>Behind a save whose metadata hold a number as project, the list of the entries is lost.\<close>

definition poisoned_calls :: "memory_call list" where
  "poisoned_calls = sample_memory_calls @ [MSave ''q'' 9 ''x'' (Some [(''project'', JNumber 1)]) None None None None]"

theorem memory_store_in_order_witness:
  "\<not> (\<exists>xs. get_all None None None None (me_rows (run_memory_calls poisoned_calls empty_memory)) = Inr xs)
   \<and> (\<exists>xs. get_all None None None None (me_rows (run_memory_calls sample_memory_calls empty_memory)) = Inr xs)"
proof -
  have clock: "\<forall>c \<in> set poisoned_calls. clock_ok c" "\<forall>c \<in> set sample_memory_calls. clock_ok c"
    by (simp_all add: poisoned_calls_def sample_memory_calls_def)
  have "\<not> list_all readable_project (me_rows (run_memory_calls poisoned_calls empty_memory))"
    "list_all readable_project (me_rows (run_memory_calls sample_memory_calls empty_memory))"
    by code_simp+
  with memory_store_in_order [OF clock(1) refl] memory_store_in_order [OF clock(2) refl] show ?thesis
    unfolding list_all_iff by blast
qed

text \<open>
  C13: whatever a call of the memory service hands to its caller, on a store any calls have produced,
  passes every check of the entity's constructor.
\<close>

theorem handed_observations_valid:
  assumes "\<forall>c \<in> set (cs @ [c]). clock_ok c"
    and "fst (run_memory c (run_memory_calls cs empty_memory)) = Inr xs"
  shows "\<forall>x \<in> set xs. valid_observation x"
  using run_memory_valid [OF run_memory_calls_ok [OF store_ok_empty] _ assms(2)] assms(1) by simp

theorem handed_observations_valid_witness:
  "\<exists>x. fst (run_memory (MGet ''e'') (run_memory_calls sample_memory_calls empty_memory)) = Inr [x]
       \<and> valid_observation x"
proof -
  have "(case fst (run_memory (MGet ''e'') (run_memory_calls sample_memory_calls empty_memory)) of
           Inr [x] \<Rightarrow> True | _ \<Rightarrow> False)"
    by code_simp
  then obtain x where x:
    "fst (run_memory (MGet ''e'') (run_memory_calls sample_memory_calls empty_memory)) = Inr [x]"
    by (auto split: sum.splits list.splits)
  have "\<forall>c \<in> set (sample_memory_calls @ [MGet ''e'']). clock_ok c" by (simp add: sample_memory_calls_def)
  from handed_observations_valid [OF this x] x show ?thesis by simp
qed

section \<open>Saving\<close>

lemma revision_effect:
  assumes "upsert_rows x t = Inr (y, t')"
  shows "\<exists>key r r'. ob_topic_key x = Some key \<and> r \<in> set t \<and> has_topic (normalize_topic_key key) r
    \<and> t' = update_where (\<lambda>z. ob_id z = ob_id r) (\<lambda>z. r') t
    \<and> ob_id r' = ob_id r \<and> ob_revision_count r' = ob_revision_count r + 1
    \<and> ob_content r' = ob_content x \<and> ob_id y = ob_id r"
  using assms
proof (rule upsert_rows_Inr)
  fix key k ses r
  assume h: "ob_topic_key x = Some key" "k = normalize_topic_key key"
    "upsert_target k (normalize_project (ob_project x)) t = Some r"
    "row_to_observation (upserted x k ses r) = Inr y"
    "t' = update_where (\<lambda>z. ob_id z = ob_id r) (\<lambda>z. upserted x k ses r) t"
  have "ob_id y = ob_id r" using row_to_observation_fields(1) [OF h(4)] by (simp add: upserted_def)
  moreover have "r \<in> set t \<and> has_topic k r" using h(3) by (rule upsert_target_in)
  ultimately show ?thesis
    using h(1,5) unfolding h(2)
    by (intro exI [of _ key] exI [of _ r] exI [of _ "upserted x (normalize_topic_key key) ses r"])
       (simp add: upserted_def)
qed

text \<open>
  C12: a successful save either adds one row at the end, the row of the returned entry, under the fresh
  id, or replaces the row that the topic key addresses: the row keeps its id, its revision grows by one,
  and it takes the redacted content. A save that raises changes nothing.
\<close>

theorem memory_save_effect:
  assumes "memory_save i now c md tk pr ty ti s = (res, s')"
  shows "case res of
           Inl e \<Rightarrow> s' = s
         | Inr y \<Rightarrow>
             (y = new_memory i now c md tk pr ty ti \<and> i \<notin> ob_id ` set (me_rows s)
                \<and> me_rows s' = me_rows s @ [obs_row_of y None])
           \<or> (\<exists>key r r'. tk = Some key \<and> r \<in> set (me_rows s) \<and> has_topic (normalize_topic_key key) r
                \<and> me_rows s' = update_where (\<lambda>x. ob_id x = ob_id r) (\<lambda>x. r') (me_rows s)
                \<and> ob_id r' = ob_id r \<and> ob_revision_count r' = ob_revision_count r + 1
                \<and> ob_content r' = fst (redact_content c) \<and> ob_id y = ob_id r)"
proof -
  let ?x = "new_memory i now c md tk pr ty ti"
  have x: "ob_id ?x = i" "ob_topic_key ?x = tk" "ob_session_id ?x = JNull" "ob_content ?x = fst (redact_content c)"
    by (auto simp: new_memory_def blank_observation_def redact_observation_data_def
        split: prod.splits option.splits list.splits)
  show ?thesis
  proof (cases res)
    case (Inl e)
    with assms show ?thesis
      by (auto simp: memory_save_run Let_def upsert_run create_run split: sum.splits option.splits prod.splits)
  next
    case (Inr y)
    from assms Inr obtain existing where e: "existing_for_topic tk pr (me_rows s) = Inr existing"
      by (auto simp: memory_save_run Let_def split: sum.splits)
    show ?thesis
    proof (cases existing)
      case None
      with assms Inr e x(1,3) show ?thesis
        by (auto simp: memory_save_run Let_def create_run create_rows_def obs_row_of_def
            split: sum.splits option.splits prod.splits if_splits)
    next
      case (Some z)
      with assms Inr e obtain t' where up: "upsert_rows ?x (me_rows s) = Inr (y, t')" "me_rows s' = t'"
        by (auto simp: memory_save_run Let_def upsert_run split: sum.splits prod.splits)
      with revision_effect [OF up(1)] x Inr show ?thesis by auto
    qed
  qed
qed

text \<open>A store in which the same topic key is known to another project and to no project at all.\<close>

definition saved :: "memory_call list \<Rightarrow> memory_store" where
  "saved cs = run_memory_calls cs empty_memory"

definition two_projects :: memory_store where
  "two_projects = saved
     [MSave ''a1'' 5 ''x'' None (Some ''plan'') (Some ''other'') None None,
      MSave ''b1'' 6 ''y'' None None None None None,
      MUpdate ''b1'' 6 None None None (Some ''plan'') None None]"

theorem memory_save_effect_witness:
  "me_rows (snd (memory_save ''c1'' 7 ''z'' None None (Some ''demo'') None None two_projects))
     = me_rows two_projects @ [obs_row_of (new_memory ''c1'' 7 ''z'' None None (Some ''demo'') None None) None]"
proof -
  have ok: "(case fst (memory_save ''c1'' 7 ''z'' None None (Some ''demo'') None None two_projects) of
             Inr y \<Rightarrow> True | Inl e \<Rightarrow> False)" by code_simp
  obtain res s' where r: "memory_save ''c1'' 7 ''z'' None None (Some ''demo'') None None two_projects = (res, s')"
    by (meson surj_pair)
  with ok obtain y where "res = Inr y" by (cases res) auto
  with memory_save_effect [OF r] r show ?thesis by auto
qed

text \<open>
  A save under a project for which the topic key is not known, while it is known to another project,
  overwrites the entry of the other project and moves it, although an entry without a project is there
  to be taken: the comment of the statement promises the latter.
\<close>

theorem save_takes_entry_of_other_project:
  assumes "memory_save i now c md (Some key) (Some p) ty ti s = (Inr y, s')"
    and "normalize_project_name p \<noteq> []" and "existing_for_topic (Some key) (Some p) (me_rows s) \<noteq> Inr None"
    and "\<forall>x \<in> set (me_rows s). has_topic (normalize_topic_key key) x
           \<longrightarrow> ob_project x \<noteq> Some (normalize_project_name p)"
    and "a \<in> set (me_rows s)" "has_topic (normalize_topic_key key) a" "ob_project a \<noteq> None"
  shows "\<exists>r \<in> set (me_rows s). ob_id r = ob_id y \<and> ob_project r \<noteq> None
           \<and> ob_project r \<noteq> Some (normalize_project_name p)
           \<and> me_rows s' = update_where (\<lambda>x. ob_id x = ob_id r)
               (\<lambda>x. upserted (new_memory i now c md (Some key) (Some p) ty ti) (normalize_topic_key key) None r)
               (me_rows s)"
proof -
  let ?x = "new_memory i now c md (Some key) (Some p) ty ti"
  have x: "ob_topic_key ?x = Some key" "ob_session_id ?x = JNull" "ob_project ?x = Some p"
    by (auto simp: new_memory_def blank_observation_def split: prod.splits)
  from assms(1,3) obtain t' where up: "upsert_rows ?x (me_rows s) = Inr (y, t')" "me_rows s' = t'"
    by (auto simp: memory_save_run Let_def upsert_run split: sum.splits option.splits prod.splits)
  from up(1) show ?thesis
  proof (rule upsert_rows_Inr)
    fix key' k ses r
    assume h: "ob_topic_key ?x = Some key'" "k = normalize_topic_key key'"
      "session_column (ob_session_id ?x) = Some ses"
      "upsert_target k (normalize_project (ob_project ?x)) (me_rows s) = Some r"
      "row_to_observation (upserted ?x k ses r) = Inr y"
      "t' = update_where (\<lambda>z. ob_id z = ob_id r) (\<lambda>z. upserted ?x k ses r) (me_rows s)"
    with x have k: "k = normalize_topic_key key" "ses = None"
      "upsert_target k (Some (normalize_project_name p)) (me_rows s) = Some r"
      by (auto simp: normalize_project_def)
    from upsert_target_other_project [OF k(3) assms(2)] assms(4-7) k(1)
    have "ob_project r \<noteq> None \<and> ob_project r \<noteq> Some (normalize_project_name p)" by blast
    moreover have "ob_id y = ob_id r" using row_to_observation_fields(1) [OF h(5)] by (simp add: upserted_def)
    moreover have "r \<in> set (me_rows s)" using upsert_target_in [OF k(3)] by simp
    ultimately show ?thesis using h(6) up(2) k(1,2) by metis
  qed
qed

theorem save_takes_entry_of_other_project_witness:
  "\<exists>y s'. memory_save ''c1'' 7 ''z'' None (Some ''plan'') (Some ''demo'') None None two_projects = (Inr y, s')
     \<and> ob_id y = ''a1''"
proof -
  let ?m = "memory_save ''c1'' 7 ''z'' None (Some ''plan'') (Some ''demo'') None None two_projects"
  have ok: "(case fst ?m of Inr y \<Rightarrow> True | Inl e \<Rightarrow> False)" by code_simp
  obtain res s' where "?m = (res, s')" by (meson surj_pair)
  with ok obtain y where r: "?m = (Inr y, s')" by (cases res) auto
  have rows: "map (\<lambda>r. (ob_id r, ob_project r, has_topic (normalize_topic_key ''plan'') r)) (me_rows two_projects)
      = [(''a1'', Some ''other'', True), (''b1'', None, True)]" by code_simp
  then have all: "\<forall>x \<in> set (me_rows two_projects). (ob_id x = ''a1'' \<and> ob_project x = Some ''other'')
      \<or> (ob_id x = ''b1'' \<and> ob_project x = None)"
    by (auto simp: map_eq_Cons_conv)
  from rows have "\<exists>a \<in> set (me_rows two_projects). has_topic (normalize_topic_key ''plan'') a \<and> ob_project a \<noteq> None"
    by (auto simp: map_eq_Cons_conv)
  then obtain a where a: "a \<in> set (me_rows two_projects)" "has_topic (normalize_topic_key ''plan'') a"
    "ob_project a \<noteq> None" by blast
  have e: "(case existing_for_topic (Some ''plan'') (Some ''demo'') (me_rows two_projects) of
      Inr None \<Rightarrow> False | _ \<Rightarrow> True)" by code_simp
  have n: "normalize_project_name ''demo'' = ''demo''" by code_simp
  have found: "existing_for_topic (Some ''plan'') (Some ''demo'') (me_rows two_projects) \<noteq> Inr None"
  proof
    assume "existing_for_topic (Some ''plan'') (Some ''demo'') (me_rows two_projects) = Inr None"
    with e show False by simp
  qed
  have "normalize_project_name ''demo'' \<noteq> []" by (simp add: n)
  moreover have "\<forall>x \<in> set (me_rows two_projects). has_topic (normalize_topic_key ''plan'') x
      \<longrightarrow> ob_project x \<noteq> Some (normalize_project_name ''demo'')"
    using all unfolding n by fastforce
  ultimately obtain b where "b \<in> set (me_rows two_projects)" "ob_id b = ob_id y" "ob_project b \<noteq> None"
    using save_takes_entry_of_other_project [OF r _ found _ a] by blast
  with all have "ob_id y = ''a1''" by fastforce
  with r show ?thesis by blast
qed

text \<open>
  An entry saved with a topic key under a project name that is not in its normal form cannot be
  saved again: the lookup compares the name as it was given with the normal form in the table, finds
  nothing, and the insert runs into the unique index. The error speaks of the id, which is new.
\<close>

theorem resave_under_unnormalised_project_fails:
  assumes "r \<in> set (me_rows s)" "ob_topic_key r = Some key" "ob_project r = Some (normalize_project_name p)"
    and "\<forall>x \<in> set (me_rows s). has_topic (normalize_topic_key key) x \<longrightarrow> ob_project x \<noteq> Some p \<and> ob_project x \<noteq> None"
    and "valid_observation (new_memory i now c md (Some key) (Some p) ty ti)" "p \<noteq> []"
  shows "memory_save i now c md (Some key) (Some p) ty ti s
           = (Inl (RepositoryError (''Observation with id '' @ quoted i @ '' already exists'')), s)"
proof -
  let ?x = "new_memory i now c md (Some key) (Some p) ty ti"
  have x: "ob_id ?x = i" "ob_topic_key ?x = Some key" "ob_session_id ?x = JNull" "ob_project ?x = Some p"
    by (auto simp: new_memory_def blank_observation_def split: prod.splits)
  obtain ch cs where p: "p = ch # cs" using assms(6) by (cases p) auto
  have "key \<noteq> []" using assms(5) x(2) by (simp add: valid_observation_def valid_topic_key_def)
  have "filter (\<lambda>r. has_topic (normalize_topic_key key) r \<and> (ob_project r = Some p \<or> ob_project r = None)) (me_rows s) = []"
    using assms(4) by (auto simp: filter_empty_conv)
  then have "existing_for_topic (Some key) (Some p) (me_rows s) = Inr None"
    using \<open>key \<noteq> []\<close> by (simp add: existing_for_topic_def get_by_topic_key_def or_empty_def p order_desc_def)
  moreover have "conflicts (obs_row_of ?x None) (me_rows s)"
    using assms(1-3) x by (auto simp: conflicts_iff same_topic_def obs_row_of_def normalize_project_def)
  ultimately show ?thesis
    using assms(5) x by (simp add: memory_save_run make_observation_valid create_run create_rows_def)
qed

theorem resave_under_unnormalised_project_fails_witness:
  "let cs = [MSave ''a'' 5 ''x'' None (Some ''k'') (Some ''P'') None None]
   in memory_save ''b'' 6 ''y'' None (Some ''k'') (Some ''P'') None None (saved cs)
        = (Inl (RepositoryError (''Observation with id '' @ quoted ''b'' @ '' already exists'')), saved cs)"
proof -
  let ?s = "saved [MSave ''a'' 5 ''x'' None (Some ''k'') (Some ''P'') None None]"
  have n: "normalize_project_name ''P'' = ''p''" by code_simp
  have "map (\<lambda>r. (ob_topic_key r, ob_project r)) (me_rows ?s) = [(Some ''k'', Some ''p'')]"
    by code_simp
  then obtain r where r: "me_rows ?s = [r]" "ob_topic_key r = Some ''k''" "ob_project r = Some ''p''"
    by (auto simp: map_eq_Cons_conv)
  have v: "(case make_observation (new_memory ''b'' 6 ''y'' None (Some ''k'') (Some ''P'') None None) of
      Inr x \<Rightarrow> True | Inl e \<Rightarrow> False)" by code_simp
  have "valid_observation (new_memory ''b'' 6 ''y'' None (Some ''k'') (Some ''P'') None None)"
  proof (cases "make_observation (new_memory ''b'' 6 ''y'' None (Some ''k'') (Some ''P'') None None)")
    case (Inl e)
    with v show ?thesis by simp
  next
    case (Inr z)
    then show ?thesis by (simp only: make_observation_Inr)
  qed
  from resave_under_unnormalised_project_fails [OF _ r(2) _ _ this, of ?s] r n show ?thesis
    by (simp add: Let_def)
qed

text \<open>
  A structured event is stored once per idempotency key: saving it again, with whatever content, id
  and time, returns the first id and changes nothing.
\<close>

theorem save_event_idempotent:
  assumes "save_event i now c md key s = (Inr j, s')" and "project_entry_ok md"
  shows "save_event i2 now2 c2 md2 key s' = (Inr j, s')"
proof (cases "get_by_idempotency_key key (me_rows s)")
  case (Inl e)
  with assms(1) show ?thesis by (simp add: save_event_def py_simps)
next
  case (Inr existing)
  show ?thesis
  proof (cases existing)
    case (Some x)
    with Inr assms(1) have "s' = s" "j = ob_id x" by (simp_all add: save_event_def py_simps)
    with Inr Some show ?thesis by (simp add: save_event_def py_simps)
  next
    case None
    let ?x = "(blank_observation i now c)\<lparr>ob_metadata := Some md, ob_idempotency_key := Some key\<rparr>"
    let ?r = "obs_row_of ?x None"
    from None Inr have fresh: "find (\<lambda>r. ob_idempotency_key r = Some key) (me_rows s) = None"
      by (auto simp: get_by_idempotency_key_def res_bind_Inr_iff split: option.splits)
    from assms(1) None Inr have v: "valid_observation ?x" and rows: "me_rows s' = me_rows s @ [?r]" and "j = i"
      by (auto simp: save_event_def py_simps py_bind_def py_return_def make_observation_Inr create_run
          create_rows_def Let_def blank_observation_def split: sum.splits if_splits)
    have "readable_project ?r"
      using assms(2) by (simp add: readable_project_def obs_row_of_def blank_observation_def
          normalize_project_def or_empty_def row_entries_def)
    from row_readable [OF row_ok_of [OF v] this] obtain y where
      y: "row_to_observation ?r = Inr y" "ob_id y = i" by (auto simp: obs_row_of_def blank_observation_def)
    have "get_by_idempotency_key key (me_rows s') = Inr (Some y)"
      using fresh y(1) by (simp add: get_by_idempotency_key_def rows find_append obs_row_of_def)
    with y(2) \<open>j = i\<close> show ?thesis by (simp add: save_event_def py_simps)
  qed
qed

theorem save_event_idempotent_witness:
  "\<exists>s'. save_event ''e'' 7 ''x'' [] ''r'' empty_memory = (Inr ''e'', s')
     \<and> save_event ''f'' 8 ''y'' [] ''r'' s' = (Inr ''e'', s')"
proof -
  have "fst (save_event ''e'' 7 ''x'' [] ''r'' empty_memory) = Inr ''e''" by code_simp
  then obtain s' where r: "save_event ''e'' 7 ''x'' [] ''r'' empty_memory = (Inr ''e'', s')"
    by (metis prod.collapse)
  have "project_entry_ok []" by (simp add: project_entry_ok_def)
  from save_event_idempotent [OF r this] r show ?thesis by blast
qed

section \<open>Reading\<close>

text \<open>
  A page of recent entries is the slice of the whole list, latest first, that its offset and limit
  name, so that consecutive pages cover the list without overlap; a negative bound is refused.
\<close>

theorem recent_pages:
  assumes "get_all None None ty pr t = Inr xs"
  shows "get_recent (int n) (int (k * n)) ty pr t = Inr (take n (drop (k * n) xs))
    \<and> concat (map (\<lambda>j. take n (drop (j * n) xs)) [0..<k]) = take (k * n) xs
    \<and> sorted (rev (map ob_timestamp xs))
    \<and> (limit < 0 \<or> off < 0 \<longrightarrow> (\<exists>m. get_recent limit off ty pr t = Inl (ValueError m)))"
proof (intro conjI impI)
  let ?rows = "order_desc ob_timestamp (filter (\<lambda>r. of_type ty r \<and> in_project pr r) t)"
  from assms have "traverse row_to_observation ?rows = Inr xs" by (simp add: get_all_def Let_def)
  then have "traverse row_to_observation (take n (drop (k * n) ?rows)) = Inr (take n (drop (k * n) xs))"
    by (intro traverse_take traverse_drop)
  then show "get_recent (int n) (int (k * n)) ty pr t = Inr (take n (drop (k * n) xs))"
    by (simp add: get_recent_def get_all_def Let_def sql_limit_def del: of_nat_mult)
  show "concat (map (\<lambda>j. take n (drop (j * n) xs)) [0..<k]) = take (k * n) xs"
  proof (induction k)
    case (Suc k)
    then show ?case using take_add [of "k * n" n xs] by (simp add: add.commute)
  qed simp
  show "sorted (rev (map ob_timestamp xs))" using assms by (rule get_all_sorted)
  assume "limit < 0 \<or> off < 0"
  then show "\<exists>m. get_recent limit off ty pr t = Inl (ValueError m)"
    by (auto simp: get_recent_def)
qed

definition page_rows :: "obs_row list" where
  "page_rows = map (\<lambda>n. obs_row_of (blank_observation [char_of (97 + n)] (int n) ''x'') None) [0, 1, 2 :: nat]"

theorem recent_pages_witness:
  "\<exists>xs. get_all None None None None page_rows = Inr xs
     \<and> get_recent 2 2 None None page_rows = Inr (take 2 (drop 2 xs))
     \<and> (\<exists>m. get_recent (- 1) 0 None None page_rows = Inl (ValueError m))"
proof -
  have "(case get_all None None None None page_rows of Inr xs \<Rightarrow> True | Inl e \<Rightarrow> False)" by code_simp
  then obtain xs where xs: "get_all None None None None page_rows = Inr xs" by (auto split: sum.splits)
  from recent_pages [OF xs, of 2 1 "- 1" 0] xs show ?thesis by simp
qed

text \<open>
  An entry saved without a project and with a number under \<open>project\<close> in its metadata is accepted
  and stored, and from then on every list of entries raises: one such save makes the recent entries,
  ranges and queries of the whole store unreadable.
\<close>

theorem project_number_poisons_lists:
  assumes "memory_save i now c (Some md) None None ty ti s = (Inr y, s')"
    and "map_of (fst (redact_metadata md)) ''project'' = Some (JNumber n)"
  shows "(\<exists>e. get_all None None None None (me_rows s') = Inl e)
    \<and> (\<exists>e. memory_query ag run ev limit (int (length (me_rows s'))) since (me_rows s') = Inl e)"
proof -
  let ?x = "new_memory i now c (Some md) None None ty ti"
  have x: "ob_project ?x = None" "ob_metadata ?x = Some (fst (redact_metadata md))" "ob_session_id ?x = JNull"
    using assms(2)
    by (cases md; auto simp: new_memory_def blank_observation_def redact_observation_data_def redact_metadata_def
        split: prod.splits)+
  from assms(1) x(3) have rows: "me_rows s' = me_rows s @ [obs_row_of ?x None]"
    by (auto simp: memory_save_run existing_for_topic_def or_empty_def Let_def create_run create_rows_def
        split: sum.splits if_splits)
  have "row_to_observation (obs_row_of ?x None) \<noteq> Inr z" for z
    using assms(2) x(1,2)
    by (auto simp: row_to_observation_def row_metadata_def row_project_def obs_row_of_def normalize_project_def
        res_bind_Inr_iff post_init_def)
  then obtain e where "row_to_observation (obs_row_of ?x None) = Inl e"
    by (cases "row_to_observation (obs_row_of ?x None)") auto
  then have "\<exists>e. traverse row_to_observation (order_desc ob_timestamp (me_rows s')) = Inl e"
    by (intro traverse_Inl [of "obs_row_of ?x None"]) (auto simp: rows)
  then show ?thesis
    by (auto simp: memory_query_def get_all_def Let_def of_type_def in_project_def normalize_project_def sql_limit_def)
qed

theorem project_number_poisons_lists_witness:
  "\<exists>y s'. memory_save ''a'' 5 ''x'' (Some [(''project'', JNumber 1)]) None None None None empty_memory = (Inr y, s')
     \<and> (\<exists>e. get_all None None None None (me_rows s') = Inl e)"
proof -
  let ?m = "memory_save ''a'' 5 ''x'' (Some [(''project'', JNumber 1)]) None None None None empty_memory"
  have ok: "(case fst ?m of Inr y \<Rightarrow> True | Inl e \<Rightarrow> False)" by code_simp
  obtain res s' where "?m = (res, s')" by (meson surj_pair)
  with ok obtain y where r: "?m = (Inr y, s')" by (cases res) auto
  have "map_of (fst (redact_metadata [(''project'', JNumber 1)])) ''project'' = Some (JNumber 1)" by code_simp
  from project_number_poisons_lists [OF r this] r show ?thesis by blast
qed

section \<open>Comparing\<close>

text \<open>
  The comparison of two windows lists each key once, in order. A key is added or removed exactly when
  only the later or only the earlier window has entries for it; for a key of both windows an item names a
  latest entry of either side, with different contents, and no item means that latest entries of both
  sides agree. The counts are the numbers of the keys.
\<close>

theorem memory_diff_correct:
  assumes "memory_diff a b pr ty t = Inr d"
    and "get_by_timestamp_range 0 a None t = Inr xs" and "get_by_timestamp_range (a + 1) b None t = Inr ys"
    and "old = filter (in_scope pr ty) xs" and "new = filter (in_scope pr ty) ys"
  shows "a < b
    \<and> (\<forall>k. (\<exists>i \<in> set (dr_items d). di_topic_key i = k \<and> is_change ''added'' i)
            \<longleftrightarrow> k \<in> diff_key ` set new - diff_key ` set old)
    \<and> (\<forall>k. (\<exists>i \<in> set (dr_items d). di_topic_key i = k \<and> is_change ''removed'' i)
            \<longleftrightarrow> k \<in> diff_key ` set old - diff_key ` set new)
    \<and> (\<forall>k \<in> diff_key ` set old \<inter> diff_key ` set new. \<exists>x y. latest_for k old x \<and> latest_for k new y
         \<and> (if ob_content x = ob_content y then k \<notin> di_topic_key ` set (dr_items d)
            else \<exists>i \<in> set (dr_items d). di_topic_key i = k \<and> is_change ''modified'' i
                   \<and> di_from_id i = Some (ob_id x) \<and> di_to_id i = Some (ob_id y)
                   \<and> di_from_content i = Some (ob_content x) \<and> di_to_content i = Some (ob_content y)))
    \<and> dr_added d = int (card (diff_key ` set new - diff_key ` set old))
    \<and> dr_removed d = int (card (diff_key ` set old - diff_key ` set new))"
proof -
  from assms have lt: "a < b" and items: "dr_items d = diff_items old new"
    and counts: "dr_added d = row_count (is_change ''added'') (diff_items old new)"
      "dr_removed d = row_count (is_change ''removed'') (diff_items old new)"
    by (auto simp: memory_diff_def Let_def split: if_splits)
  have count: "row_count P (diff_items old new) = int (card {k. \<exists>i. entry_for old new k = Some i \<and> P i})" for P
  proof -
    have "{k \<in> set (diff_keys old new). \<exists>i. entry_for old new k = Some i \<and> P i}
        = {k. \<exists>i. entry_for old new k = Some i \<and> P i}"
      using in_diff_items [of _ old new] unfolding diff_items_eq in_map_filter
      by (metis (mono_tags, lifting) entry_for_key)
    then show ?thesis
      using row_count_map_filter [OF distinct_diff_keys [of old new], of "entry_for old new" P] entry_for_key
      by (simp add: diff_items_eq)
  qed
  have change: "(\<exists>i \<in> set (dr_items d). di_topic_key i = k \<and> P i) \<longleftrightarrow> (\<exists>i. entry_for old new k = Some i \<and> P i)" for k P
    unfolding items using in_diff_items entry_for_key by metis
  have both: "\<exists>x y. latest_for k old x \<and> latest_for k new y
         \<and> (if ob_content x = ob_content y then k \<notin> di_topic_key ` set (dr_items d)
            else \<exists>i \<in> set (dr_items d). di_topic_key i = k \<and> is_change ''modified'' i
                   \<and> di_from_id i = Some (ob_id x) \<and> di_to_id i = Some (ob_id y)
                   \<and> di_from_content i = Some (ob_content x) \<and> di_to_content i = Some (ob_content y))"
    if k: "k \<in> diff_key ` set old" "k \<in> diff_key ` set new" for k
  proof -
    from k obtain x y where xy: "map_of (build_map old []) k = Some x" "map_of (build_map new []) k = Some y"
      using build_map_None [of old k] build_map_None [of new k] by auto
    have "k \<notin> di_topic_key ` set (dr_items d)" if "ob_content x = ob_content y"
    proof -
      from that xy have "entry_for old new k = None" by (simp add: entry_for_def diff_entry_def)
      then show ?thesis unfolding items using in_diff_items entry_for_key by fastforce
    qed
    moreover have "\<exists>i \<in> set (dr_items d). di_topic_key i = k \<and> is_change ''modified'' i
        \<and> di_from_id i = Some (ob_id x) \<and> di_to_id i = Some (ob_id y)
        \<and> di_from_content i = Some (ob_content x) \<and> di_to_content i = Some (ob_content y)"
      if "ob_content x \<noteq> ob_content y"
      unfolding change using that xy by (auto simp: entry_for_def diff_entry_def is_change_def)
    ultimately show ?thesis using build_map_Some [OF xy(1)] build_map_Some [OF xy(2)] by metis
  qed
  show ?thesis
    using lt both by (simp add: change entry_added entry_removed counts count set_diff_eq)
qed

definition window_rows :: "obs_row list" where
  "window_rows =
     map (\<lambda>(i, ts, c, k). (obs_row_of (blank_observation i ts c) None)\<lparr>ob_topic_key := Some k\<rparr>)
       [(''a'', 1, ''x'', ''k''), (''b'', 1, ''x'', ''l''), (''c'', 5, ''y'', ''k''), (''d'', 5, ''x'', ''m'')]"

theorem memory_diff_correct_witness:
  "\<exists>d. memory_diff 2 9 None None window_rows = Inr d \<and> dr_added d = 1 \<and> dr_removed d = 1"
proof -
  have "(case memory_diff 2 9 None None window_rows of Inr d \<Rightarrow> True | Inl e \<Rightarrow> False)" by code_simp
  then obtain d where d: "memory_diff 2 9 None None window_rows = Inr d" by (auto split: sum.splits)
  have "map_option (map diff_key) (case get_by_timestamp_range 0 2 None window_rows of Inr xs \<Rightarrow> Some xs | Inl e \<Rightarrow> None)
      = Some [''k'', ''l'']" by code_simp
  then obtain xs where xs: "get_by_timestamp_range 0 2 None window_rows = Inr xs" "map diff_key xs = [''k'', ''l'']"
    by (auto split: sum.splits)
  have "map_option (map diff_key) (case get_by_timestamp_range 3 9 None window_rows of Inr xs \<Rightarrow> Some xs | Inl e \<Rightarrow> None)
      = Some [''k'', ''m'']" by code_simp
  then obtain ys where ys: "get_by_timestamp_range 3 9 None window_rows = Inr ys" "map diff_key ys = [''k'', ''m'']"
    by (auto split: sum.splits)
  have keys: "diff_key ` set xs = {''k'', ''l''}" "diff_key ` set ys = {''k'', ''m''}"
    using xs(2) ys(2) by (metis list.set_map list.simps(15) empty_set)+
  have "in_scope None None = (\<lambda>x. True)" by (simp add: in_scope_def or_empty_def fun_eq_iff)
  with memory_diff_correct [OF d xs(1) _ refl refl] ys(1)
  have "dr_added d = int (card (diff_key ` set ys - diff_key ` set xs))
      \<and> dr_removed d = int (card (diff_key ` set xs - diff_key ` set ys))" by simp
  with d show ?thesis by (simp add: keys)
qed

section \<open>Redaction\<close>

text \<open>
  C30: whatever the text is, its redacted form contains no opening private tag with a closing tag behind
  it, in any case of the letters; and a text the redaction does not report as changed comes back as it was.
\<close>

theorem no_private_block_left:
  "\<not> private_block (fst (redact_content s)) \<and> (snd (redact_content s) \<or> fst (redact_content s) = s)"
proof -
  obtain t n where t: "subn private_tag s = (t, n)" by (cases "subn private_tag s")
  then have none: "\<not> private_block t" using subn_private_tag [of s] by simp
  have same: "n = 0 \<Longrightarrow> t = s" using subn_unchanged [of private_tag s] t by simp
  have "\<forall>m \<in> set secret_patterns. masks m" using masks_secret_patterns by blast
  then have "\<not> private_block (fst (apply_patterns secret_patterns (t, b)))" for b
    using none by (rule apply_patterns_block)
  moreover have "redact_content s = apply_patterns secret_patterns (t, n > 0)"
    using t same by (cases n) (simp_all add: redact_content_def)
  ultimately show ?thesis
    using apply_patterns_unchanged [of secret_patterns t "n > 0"] same by auto
qed

end
