(* ===== verification/Session_Properties.thy ===== *)
theory Session_Properties
  imports Memory_Store
begin

text \<open>
  The properties of the sessions: at most one without an end per project, what a start does to the others,
  and what merging projects does to both.
\<close>

section \<open>Sequences of starts and ends\<close>

datatype session_call =
    SStart string int int string string "string option" "string option"
  | SEnd string "string option" int

fun run_session :: "session_call \<Rightarrow> session_table \<Rightarrow> session_table" where
  "run_session (SStart i ending now p dir goal instructions) t = snd (start_session i ending now p dir goal instructions t)"
| "run_session (SEnd i summary now) t = snd (end_session i summary now t)"

definition run_sessions :: "session_call list \<Rightarrow> session_table \<Rightarrow> session_table" where
  "run_sessions cs t = fold run_session cs t"

lemma snd_py_catch_raise [simp]: "snd (py_catch P m (\<lambda>e. py_raise (f e)) s) = snd (m s)"
  by (auto simp: py_catch_def py_raise_def split: prod.splits sum.splits)

lemma end_session_table: "snd (end_session i summary now t) = snd (end_session_row i summary now t)"
  by (simp add: end_session_def)

text \<open>With a clock before 1970 the entity refuses the end and the start, and nothing is written.\<close>

lemma end_session_row_negative: "now < 0 \<Longrightarrow> snd (end_session_row i summary now t) = t"
  by (auto simp: end_session_row_def make_session_def split: option.splits sum.splits)

lemma end_session_row_refused: "now < 0 \<Longrightarrow> \<exists>e. end_session_row i summary now t = (Inl e, t)"
  by (auto simp: end_session_row_def make_session_def split: option.splits sum.splits)

lemma start_session_negative:
  assumes "ending < 0"
  shows "snd (start_session i ending now p dir goal instructions t) = t
    \<or> start_session i ending now p dir goal instructions t = start_session i 0 now p dir goal instructions t"
proof (cases "active_session p t")
  case (Inr a)
  show ?thesis
  proof (cases a)
    case None
    with Inr show ?thesis by (simp add: start_session_def py_simps py_bind_def py_catch_def)
  next
    case (Some x)
    with Inr end_session_row_refused [OF assms, of "se_id x" "Some ''Auto-ended: new session started''" t]
    show ?thesis by (auto simp: start_session_def py_simps py_bind_def)
  qed
qed (simp add: start_session_def py_simps py_bind_def)

lemma sessions_ok_start:
  assumes "sessions_ok t"
  shows "sessions_ok (snd (start_session i ending now p dir goal instructions t))"
proof -
  have "sessions_ok (snd (start_session i ending now p dir goal instructions t))" if ending: "0 \<le> ending" for ending
  proof -
    let ?s = "new_session i now p dir goal instructions"
    from start_session_cases [OF assms ending, of p i now dir goal instructions] obtain t' where
      t': "sessions_ok t'" "others_kept p t t'" "se_id ` set t' = se_id ` set t"
      and run: "start_session i ending now p dir goal instructions t =
        (if valid_session ?s \<and> i \<notin> se_id ` set t then (Inr ?s, t' @ [?s])
         else (fst (start_session i ending now p dir goal instructions t), t'))"
      by (auto simp: Let_def)
    show ?thesis
    proof (cases "valid_session ?s \<and> i \<notin> se_id ` set t")
      case True
      with t' have "sessions_ok (t' @ [?s])"
        by (intro sessions_ok_append) (auto simp: new_session_def others_kept_def)
      with run True show ?thesis by simp
    next
      case False
      with run have "snd (start_session i ending now p dir goal instructions t) = t'" by (metis snd_conv)
      with t'(1) show ?thesis by simp
    qed
  qed
  from this [of ending] this [of 0] show ?thesis
    using assms start_session_negative [of ending i now p dir goal instructions t] by (cases "0 \<le> ending") auto
qed

lemma sessions_ok_run: "sessions_ok t \<Longrightarrow> sessions_ok (run_session c t)"
  by (cases c) (simp_all add: sessions_ok_start end_session_table sessions_ok_end_row)

lemma sessions_ok_runs: "sessions_ok t \<Longrightarrow> sessions_ok (run_sessions cs t)"
  unfolding run_sessions_def by (induction cs arbitrary: t) (simp_all add: sessions_ok_run)

lemma sessions_ok_Nil: "sessions_ok []"
  by (simp add: sessions_ok_def pk_ok_def)

text \<open>The sessions of a project that have no end.\<close>

definition active_in :: "string \<Rightarrow> session_table \<Rightarrow> session list" where
  "active_in p t = filter (\<lambda>s. se_project s = p \<and> se_ended_at s = None) t"

lemma distinct_at_most_one: "distinct xs \<Longrightarrow> \<forall>x \<in> set xs. \<forall>y \<in> set xs. x = y \<Longrightarrow> length xs \<le> 1"
  using card_le_Suc0_iff_eq [of "set xs"] by (simp only: List.finite_set distinct_card One_nat_def)

lemma at_most_one_active:
  assumes "sessions_ok t"
  shows "length (active_in p t) \<le> 1"
proof (rule distinct_at_most_one)
  show "distinct (active_in p t)"
    using assms by (simp add: active_in_def sessions_ok_def pk_ok_def distinct_map)
  show "\<forall>x \<in> set (active_in p t). \<forall>y \<in> set (active_in p t). x = y"
    using assms by (auto simp: active_in_def sessions_ok_def)
qed

text \<open>
  C31: after any sequence of starts and ends of sessions, with any arguments and any clock, on an empty
  table, ids are unique, every row is one the entity accepts, and a project has at most one session
  without an end.
\<close>

theorem one_active_session_per_project:
  "sessions_ok (run_sessions cs []) \<and> length (active_in p (run_sessions cs [])) \<le> 1"
  using sessions_ok_runs [OF sessions_ok_Nil, of cs] at_most_one_active by blast

section \<open>A start\<close>

text \<open>
  A start on a table in order either succeeds, and then the new session is the active one of its
  project and was not known before, or raises a service error, and then the project has no active
  session any more: the old one was ended before the arguments were checked. The sessions of the other
  projects stay as they are.
\<close>

theorem start_session_effect:
  assumes "sessions_ok t" "0 \<le> ending" "0 \<le> now"
  shows "case start_session i ending now p dir goal instructions t of
           (Inr s, t') \<Rightarrow> s = new_session i now p dir goal instructions \<and> i \<notin> se_id ` set t
             \<and> active_in p t' = [s] \<and> active_session p t' = Inr (Some s)
             \<and> filter (\<lambda>x. se_project x \<noteq> p) t' = filter (\<lambda>x. se_project x \<noteq> p) t
         | (Inl e, t') \<Rightarrow> (\<exists>m. e = ServiceError m) \<and> (p = [] \<or> dir = [] \<or> i = [] \<or> i \<in> se_id ` set t)
             \<and> active_in p t' = [] \<and> active_session p t' = Inr None
             \<and> filter (\<lambda>x. se_project x \<noteq> p) t' = filter (\<lambda>x. se_project x \<noteq> p) t"
proof -
  let ?s = "new_session i now p dir goal instructions"
  let ?r = "start_session i ending now p dir goal instructions t"
  from start_session_cases [OF assms(1,2), of p i now dir goal instructions] obtain t' where
    t': "sessions_ok t'" "others_kept p t t'"
    and run: "?r = (if valid_session ?s \<and> i \<notin> se_id ` set t then (Inr ?s, t' @ [?s]) else (fst ?r, t'))"
    and err: "\<not> (p \<noteq> [] \<and> dir \<noteq> [] \<and> i \<noteq> [] \<and> 0 \<le> now \<and> i \<notin> se_id ` set t) \<longrightarrow> (\<exists>m. fst ?r = Inl (ServiceError m))"
    by (auto simp: Let_def)
  have none: "active_in p t' = []" using t'(2) by (simp add: active_in_def others_kept_def filter_empty_conv)
  have valid: "valid_session ?s \<longleftrightarrow> p \<noteq> [] \<and> dir \<noteq> [] \<and> i \<noteq> []"
    using assms(3) by (auto simp: valid_session_def new_session_def)
  have active: "active_session q u = first_session (active_in q u)" for q u
    by (simp add: active_session_def active_in_def)
  have s: "se_project ?s = p" "se_ended_at ?s = None" by (simp_all add: new_session_def)
  show ?thesis
  proof (cases "valid_session ?s \<and> i \<notin> se_id ` set t")
    case True
    with run have r: "?r = (Inr ?s, t' @ [?s])" by simp
    have "active_in p (t' @ [?s]) = [?s]" using none s by (simp add: active_in_def)
    moreover have "first_session [?s] = Inr (Some ?s)"
      using True by (simp add: first_session_def order_desc_def make_session_Inr [THEN iffD2])
    ultimately show ?thesis using r True t'(2) s by (simp add: active others_kept_def)
  next
    case False
    with valid err assms(3) obtain m where "fst ?r = Inl (ServiceError m)" by auto
    with run False have r: "?r = (Inl (ServiceError m), t')" by (metis (no_types, lifting))
    have "first_session [] = Inr None" by (simp add: first_session_def order_desc_def)
    with r False valid none t'(2) show ?thesis by (auto simp: active others_kept_def)
  qed
qed

definition one_session :: session_table where
  "one_session = run_sessions [SStart ''a'' 1 1 ''p'' ''d'' None None] []"

theorem start_session_effect_witness:
  "active_in ''p'' one_session \<noteq> [] \<and>
   active_in ''p'' (snd (start_session ''b'' 2 2 ''p'' [] None None one_session)) = []"
proof -
  let ?r = "start_session ''b'' 2 2 ''p'' [] None None one_session"
  have ok: "sessions_ok one_session" unfolding one_session_def by (rule sessions_ok_runs [OF sessions_ok_Nil])
  have e: "(case fst ?r of Inl e \<Rightarrow> True | _ \<Rightarrow> False)" by code_simp
  then obtain x u where "?r = (Inl x, u)" by (cases ?r) (auto split: sum.splits)
  moreover have "active_in ''p'' one_session \<noteq> []" by code_simp
  ultimately show ?thesis using start_session_effect [OF ok, of 2 2 "''p''" "[]" "''b''" None None] by simp
qed

section \<open>Merging projects\<close>

text \<open>
  Merging a project into another one moves the sessions and ends none: with an active session in each,
  the merged project has two, and only the younger one is found as its active session.
\<close>

theorem merge_leaves_two_active_sessions:
  assumes "se_project a = p" "se_ended_at a = None" "a \<in> set (me_sessions s)"
    and "se_project b = c" "se_ended_at b = None" "b \<in> set (me_sessions s)"
    and "normalize_project_name p = p" "normalize_project_name c = c" "p \<noteq> c" "p \<noteq> []" "c \<noteq> []"
    and "CHR '','' \<notin> set p"
    and "memory_merge_projects p c s = (Inr n, s')"
  shows "2 \<le> length (active_in c (me_sessions s'))"
proof -
  let ?f = "\<lambda>x. if se_project x = p then x\<lparr>se_project := c\<rparr> else x"
  have "split_on (CHR '','') p = [p]" using assms(12) by (simp add: split_on_plain)
  with assms(7-11,13) have run: "merge_projects c [p] s = (Inr n, s')"
    by (simp add: memory_merge_projects_def Let_def)
  then have ses: "me_sessions s' = map ?f (me_sessions s)"
    using assms(7,8)
    by (auto simp: merge_projects_def Let_def update_where_def split: sum.splits prod.splits if_splits)
  have act: "active_in c (map ?f t)
      = map ?f (filter (\<lambda>x. (se_project x = c \<or> se_project x = p) \<and> se_ended_at x = None) t)" for t
    using assms(9) by (induction t) (auto simp: active_in_def)
  let ?both = "filter (\<lambda>x. (se_project x = c \<or> se_project x = p) \<and> se_ended_at x = None) (me_sessions s)"
  have "{a, b} \<subseteq> set ?both" using assms(1-6) by auto
  from card_mono [OF List.finite_set this] card_length [of ?both] have "card {a, b} \<le> length ?both"
    by (rule order_trans)
  moreover have "a \<noteq> b" using assms(1,4,9) by auto
  ultimately show ?thesis unfolding ses act by simp
qed

definition two_open_sessions :: memory_store where
  "two_open_sessions = empty_memory\<lparr>me_sessions :=
     run_sessions [SStart ''s'' 1 1 ''a'' ''d'' None None, SStart ''t'' 2 2 ''b'' ''d'' None None] []\<rparr>"

theorem merge_leaves_two_active_sessions_witness:
  "length (active_in ''a'' (me_sessions two_open_sessions)) = 1
   \<and> 2 \<le> length (active_in ''b'' (me_sessions (snd (memory_merge_projects ''a'' ''b'' two_open_sessions))))"
proof -
  let ?m = "memory_merge_projects ''a'' ''b'' two_open_sessions"
  have "(case fst ?m of Inr n \<Rightarrow> True | Inl e \<Rightarrow> False)" by code_simp
  then obtain n s' where m: "?m = (Inr n, s')" by (cases ?m) (auto split: sum.splits)
  have l: "length (active_in ''a'' (me_sessions two_open_sessions)) = 1" by code_simp
  then obtain a where "active_in ''a'' (me_sessions two_open_sessions) = [a]" by (auto simp: length_Suc_conv)
  then have a: "se_project a = ''a''" "se_ended_at a = None" "a \<in> set (me_sessions two_open_sessions)"
    by (auto simp: active_in_def filter_eq_Cons_iff)
  have "length (active_in ''b'' (me_sessions two_open_sessions)) = 1" by code_simp
  then obtain b where "active_in ''b'' (me_sessions two_open_sessions) = [b]" by (auto simp: length_Suc_conv)
  then have b: "se_project b = ''b''" "se_ended_at b = None" "b \<in> set (me_sessions two_open_sessions)"
    by (auto simp: active_in_def filter_eq_Cons_iff)
  have "normalize_project_name ''a'' = ''a''" "normalize_project_name ''b'' = ''b''" by code_simp+
  with merge_leaves_two_active_sessions [OF a b _ _ _ _ _ _ m] l m show ?thesis by simp
qed

end
