(* ===== verification/Sync_Service.thy ===== *)
theory Sync_Service
  imports Memory_Service Store_Part
begin

text \<open>
  SyncService (src/application/services/sync/sync_service.py): full and incremental exports to chunk
  files with a manifest, the two imports, and the export watermark. The state is the store of the memory
  repository with the sync tables, the files, and the two attributes the service sets on itself. The
  bytes \<open>gzip\<close> writes and SHA-256 are parameters; the clock is an argument.
\<close>

section \<open>Files\<close>

text \<open>
  A line of a chunk: blank, not JSON, or a JSON value. When the value is an object with a text as its
  \<open>payload\<close> member, the member is kept apart, as \<open>json.loads\<close> reads that text.
\<close>

datatype chunk_line = Blank | NotJson | Line json "state_file option"

text \<open>A chunk: its bytes, the lines reading it yields, and what reading raises behind them, if anything.\<close>

record chunk_file =
  cf_bytes :: string
  cf_lines :: "chunk_line list"
  cf_broken :: "exc option"

datatype file_state = Unreadable | Chunk chunk_file

text \<open>A path is the list of its parts.\<close>

type_synonym file_path = "string list"

record sync_codec =
  gz_bytes :: "file_path \<Rightarrow> chunk_line list \<Rightarrow> string"
  sha256 :: "string \<Rightarrow> string"

record sync_world =
  sw_store :: memory_store
  sw_chunks :: "(file_path \<times> file_state) list"
  sw_manifests :: "(file_path \<times> state_file) list"
  sw_last_max_seq :: int
  sw_last_timestamp :: int

record sync_config =
  sv_codec :: sync_codec
  sv_export_dir :: file_path
  sv_export_version :: int

abbreviation on_store :: "(memory_store, 'a) py \<Rightarrow> (sync_world, 'a) py" where
  "on_store \<equiv> run_in sw_store (\<lambda>s w. w\<lparr>sw_store := s\<rparr>)"

abbreviation on_sync :: "(sync_store, 'a) py \<Rightarrow> (sync_world, 'a) py" where
  "on_sync \<equiv> run_in (\<lambda>w. me_sync (sw_store w)) (\<lambda>s w. w\<lparr>sw_store := (sw_store w)\<lparr>me_sync := s\<rparr>\<rparr>)"

text \<open>\<open>path.stem.replace(".jsonl", "")\<close>.\<close>

definition path_stem :: "string \<Rightarrow> string" where
  "path_stem name =
     (let stem = rev (drop 1 (dropWhile (\<lambda>c. c \<noteq> CHR ''.'') (rev name)))
      in if stem = [] \<or> last name = CHR ''.'' then name else stem)"

definition chunk_id_of :: "file_path \<Rightarrow> string" where
  "chunk_id_of p = py_replace ''.jsonl'' [] (path_stem (if p = [] then [] else last p))"

text \<open>\<open>f"{i:03d}"\<close>.\<close>

definition pad3 :: "nat \<Rightarrow> string" where
  "pad3 i = replicate (3 - length (show_nat i)) (CHR ''0'') @ show_nat i"

definition chunk_path :: "sync_config \<Rightarrow> string \<Rightarrow> int \<Rightarrow> nat \<Rightarrow> file_path" where
  "chunk_path cfg kind ts i =
     sv_export_dir cfg @ [kind @ ''_'' @ show_int ts @ ''_'' @ pad3 i @ ''.jsonl.gz'']"

definition manifest_path :: "sync_config \<Rightarrow> int \<Rightarrow> file_path" where
  "manifest_path cfg ts = sv_export_dir cfg @ [''manifest_'' @ show_int ts @ ''.json'']"

section \<open>Writing chunks and manifests\<close>

definition write_file :: "sync_config \<Rightarrow> file_path \<Rightarrow> chunk_line list \<Rightarrow> (sync_world, unit) py" where
  "write_file cfg p ls w =
     (Inr (), w\<lparr>sw_chunks := dict_set p
        (Chunk \<lparr>cf_bytes = gz_bytes (sv_codec cfg) p ls, cf_lines = ls, cf_broken = None\<rparr>) (sw_chunks w)\<rparr>)"

definition observation_line :: "observation \<Rightarrow> chunk_line" where
  "observation_line x =
     Line (JObject [(''id'', JString (ob_id x)), (''timestamp'', JNumber (ob_timestamp x)),
       (''content'', JString (ob_content x)), (''metadata'', json_dict (ob_metadata x)),
       (''idempotency_key'', json_str (ob_idempotency_key x)), (''project'', json_str (ob_project x)),
       (''type'', json_str (ob_type x)), (''topic_key'', json_str (ob_topic_key x)),
       (''revision_count'', JNumber (ob_revision_count x)), (''session_id'', ob_session_id x)]) None"

definition mutation_line :: "sync_mutation \<Rightarrow> chunk_line" where
  "mutation_line m =
     Line (JObject [(''seq'', JNumber (sm_seq m)), (''entity'', JString (sm_entity m)),
       (''entity_key'', JString (sm_entity_key m)), (''op'', JString (sm_op m)),
       (''source'', JString (sm_source m)), (''project'', JString (sm_project m)),
       (''created_at'', JNumber (sm_created_at m))]) (Some (sm_payload m))"

definition write_chunk :: "sync_config \<Rightarrow> observation list \<Rightarrow> nat \<Rightarrow> int \<Rightarrow> (sync_world, file_path) py" where
  "write_chunk cfg xs i ts =
     py_bind (write_file cfg (chunk_path cfg ''sync'' ts i)
                (map observation_line xs))
       (\<lambda>_. py_return (chunk_path cfg ''sync'' ts i))"

definition write_mutation_chunk ::
  "sync_config \<Rightarrow> sync_mutation list \<Rightarrow> nat \<Rightarrow> int \<Rightarrow> (sync_world, file_path) py" where
  "write_mutation_chunk cfg ms i ts =
     py_bind (write_file cfg (chunk_path cfg ''mutation'' ts i) (map mutation_line ms))
       (\<lambda>_. py_return (chunk_path cfg ''mutation'' ts i))"

definition read_bytes :: "file_path \<Rightarrow> sync_world \<Rightarrow> string result" where
  "read_bytes p w =
     (case map_of (sw_chunks w) p of
        None \<Rightarrow> Inl (OSError ''No such file or directory'')
      | Some Unreadable \<Rightarrow> Inl (OSError ''Permission denied'')
      | Some (Chunk f) \<Rightarrow> Inr (cf_bytes f))"

definition checksum_of :: "sync_config \<Rightarrow> string list \<Rightarrow> string" where
  "checksum_of cfg parts = ''sha256:'' @ sha256 (sv_codec cfg) (concat parts)"

definition calculate_checksum :: "sync_config \<Rightarrow> file_path \<Rightarrow> sync_world \<Rightarrow> string result" where
  "calculate_checksum cfg p w = res_bind (read_bytes p w) (\<lambda>b. Inr (checksum_of cfg [b]))"

definition write_manifest ::
  "sync_config \<Rightarrow> file_path list \<Rightarrow> int \<Rightarrow> int \<Rightarrow> (sync_world, unit) py" where
  "write_manifest cfg paths n ts =
     py_bind (py_read (\<lambda>w. traverse (\<lambda>p. read_bytes p w) paths)) (\<lambda>parts w.
       (Inr (), w\<lparr>sw_manifests := dict_set (manifest_path cfg ts)
          (Holds (JObject [(''chunk_count'', JNumber (int (length paths))),
             (''total_observations'', JNumber n), (''checksum'', JString (checksum_of cfg parts)),
             (''created_at'', JNumber ts), (''export_version'', JNumber (sv_export_version cfg))]))
          (sw_manifests w)\<rparr>))"

definition path_exists :: "sync_world \<Rightarrow> file_path \<Rightarrow> bool" where
  "path_exists w p \<longleftrightarrow> map_of (sw_chunks w) p \<noteq> None"

definition actual_checksum :: "sync_config \<Rightarrow> file_path list \<Rightarrow> sync_world \<Rightarrow> string result" where
  "actual_checksum cfg paths w =
     res_bind (traverse (\<lambda>p. read_bytes p w) (filter (path_exists w) (sort paths)))
       (\<lambda>parts. Inr (checksum_of cfg parts))"

definition validate_manifest ::
  "sync_config \<Rightarrow> file_path list \<Rightarrow> file_path option \<Rightarrow> sync_world \<Rightarrow> bool result" where
  "validate_manifest cfg paths manifest w =
     (case Option.bind manifest (map_of (sw_manifests w)) of
        None \<Rightarrow> Inr True
      | Some Absent \<Rightarrow> Inl (ValueError ''Invalid manifest file: Expecting value'')
      | Some Malformed \<Rightarrow> Inl (ValueError ''Invalid manifest file: Expecting value'')
      | Some (Holds d) \<Rightarrow>
          res_bind (json_get d ''checksum'' (JString [])) (\<lambda>expected.
          if \<not> json_truthy expected then Inr True
          else (case expected of
                  JString e \<Rightarrow>
                    (if \<not> starts_with ''sha256:'' e then Inr True
                     else res_bind (actual_checksum cfg paths w) (\<lambda>actual.
                       if actual \<noteq> e
                       then Inl (ValueError (''Manifest checksum mismatch: expected '' @ e @ '', got '' @ actual))
                       else Inr True))
                | _ \<Rightarrow> Inl (AttributeError (quoted (json_type_name expected) @ '' object has no attribute 'startswith'')))))"

section \<open>Full and incremental export of observations\<close>

text \<open>
  The latest data of each entity in the journal behind \<open>seq\<close>, in the order in which the entities first
  appear: a payload that is not JSON is passed over, a delete forgets the entity.
\<close>

fun replay_payloads ::
  "string option \<Rightarrow> sync_mutation list \<Rightarrow> (string \<times> json) list \<Rightarrow> (string \<times> json) list" where
  "replay_payloads project [] data = data"
| "replay_payloads project (m # ms) data =
     replay_payloads project ms
       (if or_empty project \<noteq> [] \<and> sm_project m \<noteq> or_empty project then data
        else if sm_op m = ''delete'' then filter (\<lambda>(k, d). k \<noteq> sm_entity_key m) data
        else if sm_op m = ''insert'' \<or> sm_op m = ''update''
        then (case sm_payload m of Holds d \<Rightarrow> dict_set (sm_entity_key m) d data | _ \<Rightarrow> data)
        else data)"

text \<open>\<open>obs_type not in _ALLOWED_TYPES\<close>: lists and dictionaries cannot be looked up in a set.\<close>

definition import_type :: "json \<Rightarrow> json result" where
  "import_type ty =
     (if ty = JNull then Inr JNull
      else if \<not> json_hashable ty then Inl (TypeError ''unhashable type'')
      else (case ty of
              JString s \<Rightarrow> Inr (if s \<in> set allowed_types then JString s else JNull)
            | _ \<Rightarrow> Inr JNull))"

definition payload_observation :: "string \<Rightarrow> json \<Rightarrow> observation result" where
  "payload_observation key d =
     res_bind (json_get d ''type'' JNull) (\<lambda>ty0.
     res_bind (import_type ty0) (\<lambda>ty.
     res_bind (json_get d ''id'' (JString key)) (\<lambda>i.
     res_bind (json_get d ''timestamp'' (JNumber 0)) (\<lambda>ts.
     res_bind (json_get d ''content'' (JString [])) (\<lambda>c.
     res_bind (json_get d ''metadata'' JNull) (\<lambda>md.
     res_bind (json_get d ''idempotency_key'' JNull) (\<lambda>ik.
     res_bind (json_get d ''project'' JNull) (\<lambda>pr.
     res_bind (json_get d ''topic_key'' JNull) (\<lambda>tk.
     res_bind (json_get d ''revision_count'' (JNumber 1)) (\<lambda>rc.
     res_bind (json_get d ''session_id'' JNull) (\<lambda>se.
     post_init \<lparr>rw_id = i, rw_timestamp = ts, rw_content = c, rw_title = None, rw_metadata = md,
       rw_idempotency_key = ik, rw_project = pr, rw_type = ty, rw_topic_key = tk,
       rw_revision_count = rc, rw_session_id = se\<rparr>)))))))))))"

fun is_key_or_type_error :: "exc \<Rightarrow> bool" where
  "is_key_or_type_error (KeyError m) = True"
| "is_key_or_type_error (TypeError m) = True"
| "is_key_or_type_error e = False"

definition reconstruct_from_mutations ::
  "int \<Rightarrow> string option \<Rightarrow> sync_store \<Rightarrow> (observation list \<times> int) result" where
  "reconstruct_from_mutations since project s =
     res_bind (mutations_since since None s) (\<lambda>ms.
     res_bind (traverse_skip is_key_or_type_error (\<lambda>(k, d). payload_observation k d)
                 (replay_payloads project ms [])) (\<lambda>xs.
     Inr (xs, fold max (map sm_seq ms) since)))"

text \<open>\<open>xs[a:b]\<close>.\<close>

definition py_index :: "nat \<Rightarrow> int \<Rightarrow> nat" where
  "py_index n i = min n (nat (if i < 0 then i + int n else i))"

definition py_slice :: "int \<Rightarrow> int \<Rightarrow> 'a list \<Rightarrow> 'a list" where
  "py_slice a b xs = drop (py_index (length xs) a) (take (py_index (length xs) b) xs)"

fun write_chunks ::
  "sync_config \<Rightarrow> observation list \<Rightarrow> int \<Rightarrow> int \<Rightarrow> nat list \<Rightarrow> (sync_world, file_path list) py" where
  "write_chunks cfg xs csize ts [] = py_return []"
| "write_chunks cfg xs csize ts (i # is) =
     py_bind (write_chunk cfg
         (py_slice (int i * csize) (min ((int i + 1) * csize) (int (length xs))) xs) i ts) (\<lambda>p.
     py_bind (write_chunks cfg xs csize ts is) (\<lambda>ps. py_return (p # ps)))"

definition observations_to_export ::
  "int \<Rightarrow> string option \<Rightarrow> sync_world \<Rightarrow> (observation list \<times> int option) result" where
  "observations_to_export last_seq project w =
     (if last_seq > 0
      then res_bind (reconstruct_from_mutations last_seq project (me_sync (sw_store w)))
             (\<lambda>(xs, n). Inr (xs, Some n))
      else res_bind (get_all None None None None (me_rows (sw_store w))) (\<lambda>xs.
             Inr (if or_empty project = [] then xs else filter (\<lambda>x. ob_project x = project) xs, None)))"

definition export_observations ::
  "sync_config \<Rightarrow> string option \<Rightarrow> int \<Rightarrow> int \<Rightarrow> (sync_world, file_path list) py" where
  "export_observations cfg project csize now =
     py_bind (py_read (\<lambda>w. get_sync_status (me_sync (sw_store w)))) (\<lambda>st.
     py_bind (py_read (observations_to_export (ss_last_export_seq st) project)) (\<lambda>(found, export_max).
     if found = [] then py_return []
     else
       let xs = order_asc ob_timestamp found;
           n_obs = int (length xs)
       in if csize = 0 then py_raise (ZeroDivisionError ''integer division or modulo by zero'')
          else
            py_bind (write_chunks cfg xs csize now [0..<nat ((n_obs + csize - 1) div csize)]) (\<lambda>paths.
            py_bind (write_manifest cfg paths n_obs now) (\<lambda>_.
            py_bind (py_read (\<lambda>w. Inr (case export_max of
                        Some n \<Rightarrow> n | None \<Rightarrow> latest_seq (me_sync (sw_store w))))) (\<lambda>seq.
            py_bind (on_sync (update_status (Some now) None (Some seq) None)) (\<lambda>_.
            py_return paths))))))"

section \<open>Importing observations\<close>

text \<open>What \<open>uuid.UUID\<close> does to the id: only None makes it raise something that is not caught.\<close>

definition check_uuid :: "json \<Rightarrow> unit result" where
  "check_uuid i =
     (if i = JNull
      then Inl (TypeError ''one of the hex, bytes, bytes_le, fields, or int arguments must be given'')
      else Inr ())"

definition line_observation :: "json \<Rightarrow> observation result" where
  "line_observation d =
     res_bind (json_get d ''id'' (JString [])) (\<lambda>i.
     res_bind (check_uuid i) (\<lambda>_.
     res_bind (json_get d ''type'' JNull) (\<lambda>ty0.
     res_bind (import_type ty0) (\<lambda>ty.
     res_bind (json_item d ''timestamp'') (\<lambda>ts.
     res_bind (json_item d ''content'') (\<lambda>c.
     res_bind (json_get d ''metadata'' JNull) (\<lambda>md.
     res_bind (json_get d ''idempotency_key'' JNull) (\<lambda>ik.
     res_bind (json_get d ''project'' JNull) (\<lambda>pr.
     res_bind (json_get d ''topic_key'' JNull) (\<lambda>tk.
     res_bind (json_get d ''revision_count'' (JNumber 1)) (\<lambda>rc.
     res_bind (json_get d ''session_id'' JNull) (\<lambda>se.
     post_init \<lparr>rw_id = i, rw_timestamp = ts, rw_content = c, rw_title = None, rw_metadata = md,
       rw_idempotency_key = ik, rw_project = pr, rw_type = ty, rw_topic_key = tk,
       rw_revision_count = rc, rw_session_id = se\<rparr>))))))))))))"

fun is_duplicate_error :: "exc \<Rightarrow> bool" where
  "is_duplicate_error (RepositoryError m) = contains_text ''already exists'' (py_lower m)"
| "is_duplicate_error e = False"

fun is_parse_error :: "exc \<Rightarrow> bool" where
  "is_parse_error (JSONDecodeError m) = True"
| "is_parse_error (KeyError m) = True"
| "is_parse_error e = False"

text \<open>One line: the number of observations it adds.\<close>

fun import_line :: "int \<Rightarrow> chunk_line \<Rightarrow> (memory_store, int) py" where
  "import_line now Blank = py_return 0"
| "import_line now NotJson = py_return 0"
| "import_line now (Line d p) =
     py_catch is_parse_error
       (py_bind (py_lift (line_observation d)) (\<lambda>x.
        py_catch is_duplicate_error (py_bind (create_observation x now) (\<lambda>_. py_return 1))
          (\<lambda>e. py_return 0)))
       (\<lambda>e. py_return 0)"

fun import_lines :: "int \<Rightarrow> chunk_line list \<Rightarrow> int \<Rightarrow> (memory_store, int) py" where
  "import_lines now [] n = py_return n"
| "import_lines now (l # ls) n = py_bind (import_line now l) (\<lambda>k. import_lines now ls (n + k))"

definition raise_broken :: "exc option \<Rightarrow> 'a \<Rightarrow> ('s, 'a) py" where
  "raise_broken e a = (case e of None \<Rightarrow> py_return a | Some x \<Rightarrow> py_raise x)"

definition import_single_chunk :: "int \<Rightarrow> file_path \<Rightarrow> (sync_world, int) py" where
  "import_single_chunk now p =
     py_bind (py_read (\<lambda>w. Inr (map_of (sw_chunks w) p))) (\<lambda>f.
     case f of
       Some (Chunk c) \<Rightarrow>
         py_bind (on_store (import_lines now (cf_lines c) 0)) (\<lambda>n. raise_broken (cf_broken c) n)
     | _ \<Rightarrow> py_return 0)"

definition note_chunk :: "sync_config \<Rightarrow> string \<Rightarrow> file_path \<Rightarrow> int \<Rightarrow> int \<Rightarrow> (sync_world, unit) py" where
  "note_chunk cfg source p n now =
     py_bind (py_read (calculate_checksum cfg p)) (\<lambda>sum.
     py_bind (py_lift (make_chunk \<lparr>sc_id = chunk_id_of p, sc_source = source, sc_imported_at = now,
                        sc_observation_count = n, sc_checksum = sum\<rparr>)) (\<lambda>c.
     on_sync (record_chunk c)))"

fun import_chunks ::
  "sync_config \<Rightarrow> string \<Rightarrow> int \<Rightarrow> file_path list \<Rightarrow> int \<Rightarrow> (sync_world, int) py" where
  "import_chunks cfg source now [] n = py_return n"
| "import_chunks cfg source now (p # ps) n =
     py_bind (py_read (\<lambda>w. Inr (path_exists w p))) (\<lambda>there.
     if \<not> there then import_chunks cfg source now ps n
     else
       py_bind (py_read (\<lambda>w. get_chunk_by_id (chunk_id_of p) (me_sync (sw_store w)))) (\<lambda>known.
       if known \<noteq> None then import_chunks cfg source now ps n
       else
         py_bind (import_single_chunk now p) (\<lambda>k.
         py_bind (note_chunk cfg source p k now) (\<lambda>_. import_chunks cfg source now ps (n + k)))))"

definition without_recording :: "(sync_world, 'a) py \<Rightarrow> (sync_world, 'a) py" where
  "without_recording m w =
     py_finally m (\<lambda>w. w\<lparr>sw_store := enable_mutation_recording (sw_store w)\<rparr>)
       (w\<lparr>sw_store := disable_mutation_recording (sw_store w)\<rparr>)"

definition import_observations ::
  "sync_config \<Rightarrow> file_path list \<Rightarrow> string \<Rightarrow> file_path option \<Rightarrow> int \<Rightarrow> (sync_world, int) py" where
  "import_observations cfg paths source manifest now =
     py_bind (py_read (validate_manifest cfg paths manifest)) (\<lambda>_.
     py_bind (without_recording (import_chunks cfg source now paths 0)) (\<lambda>n.
     py_bind (if n > 0 then on_sync (update_status None (Some now) None None) else py_return ()) (\<lambda>_.
     py_return n)))"

section \<open>Incremental sync\<close>

fun write_batches ::
  "sync_config \<Rightarrow> sync_mutation list \<Rightarrow> nat \<Rightarrow> int \<Rightarrow> nat list \<Rightarrow> int
     \<Rightarrow> (sync_world, file_path list \<times> int) py" where
  "write_batches cfg ms csize ts [] reached = py_return ([], reached)"
| "write_batches cfg ms csize ts (i # is) reached =
     (let batch = take csize (drop (i * csize) ms) in
      py_bind (write_mutation_chunk cfg batch i ts) (\<lambda>p.
      py_bind (write_batches cfg ms csize ts is (fold max (map sm_seq (tl batch)) (sm_seq (hd batch)))) (\<lambda>(ps, n).
      py_return (p # ps, n))))"

text \<open>\<open>range(0, n, size)\<close> has \<open>(n + size - 1) div size\<close> elements for a positive size, none for a negative.\<close>

definition batch_count :: "nat \<Rightarrow> int \<Rightarrow> nat" where
  "batch_count n csize = (if csize < 0 then 0 else (n + nat csize - 1) div nat csize)"

definition remember_export :: "int \<Rightarrow> int option \<Rightarrow> (sync_world, unit) py" where
  "remember_export reached ts w =
     (Inr (), w\<lparr>sw_last_max_seq := reached, sw_last_timestamp := or_keep ts (sw_last_timestamp w)\<rparr>)"

definition export_incremental ::
  "sync_config \<Rightarrow> int \<Rightarrow> bool \<Rightarrow> int \<Rightarrow> (sync_world, file_path list) py" where
  "export_incremental cfg csize commit now =
     py_bind (py_read (\<lambda>w. get_sync_status (me_sync (sw_store w)))) (\<lambda>st.
     py_bind (py_read (\<lambda>w. mutations_since (ss_last_export_seq st) None (me_sync (sw_store w)))) (\<lambda>ms.
     if ms = [] then py_bind (remember_export 0 None) (\<lambda>_. py_return [])
     else if csize = 0 then py_raise (ValueError ''range() arg 3 must not be zero'')
     else
       py_bind (write_batches cfg ms (nat csize) now [0..<batch_count (length ms) csize]
                  (ss_last_export_seq st)) (\<lambda>(paths, reached).
       py_bind (write_manifest cfg paths (int (length ms)) now) (\<lambda>_.
       py_bind (remember_export reached (Some now)) (\<lambda>_.
       py_bind (if commit then on_sync (update_status (Some now) None (Some reached) None) else py_return ()) (\<lambda>_.
       py_return paths))))))"

definition commit_export_watermark :: "int \<Rightarrow> (sync_world, unit) py" where
  "commit_export_watermark now =
     py_bind (py_read (\<lambda>w. Inr (sw_last_max_seq w, sw_last_timestamp w))) (\<lambda>(reached, ts).
     if reached \<le> 0 then py_return ()
     else on_sync (update_status (Some (if ts = 0 then now else ts)) None (Some reached) None))"

section \<open>Importing mutations\<close>

datatype applied = INSERTED | UPDATED | DELETED | SKIPPED

record import_counts =
  ic_inserted :: int
  ic_updated :: int
  ic_deleted :: int
  ic_skipped :: int

fun count_applied :: "applied \<Rightarrow> import_counts \<Rightarrow> import_counts" where
  "count_applied INSERTED c = c\<lparr>ic_inserted := ic_inserted c + 1\<rparr>"
| "count_applied UPDATED c = c\<lparr>ic_updated := ic_updated c + 1\<rparr>"
| "count_applied DELETED c = c\<lparr>ic_deleted := ic_deleted c + 1\<rparr>"
| "count_applied SKIPPED c = c\<lparr>ic_skipped := ic_skipped c + 1\<rparr>"

text \<open>\<open>mutation["payload"]\<close>, parsed when it is a text.\<close>

definition line_payload :: "json \<Rightarrow> state_file option \<Rightarrow> json result" where
  "line_payload d p =
     (case p of
        Some (Holds j) \<Rightarrow> Inr j
      | Some _ \<Rightarrow> Inl (JSONDecodeError ''Expecting value'')
      | None \<Rightarrow> json_item d ''payload'')"

text \<open>Deleting the row of an id that is any JSON value: SQLite compares it with the TEXT column.\<close>

definition delete_value :: "json \<Rightarrow> int \<Rightarrow> (memory_store, unit) py" where
  "delete_value i now =
     (case session_column i of
        None \<Rightarrow> py_raise (RepositoryError (''Failed to delete observation: '' @ binding_error))
      | Some None \<Rightarrow> py_raise (observation_not_found ''None'')
      | Some (Some k) \<Rightarrow> delete_observation k now)"

definition apply_delete :: "json \<Rightarrow> int \<Rightarrow> (memory_store, applied) py" where
  "apply_delete payload now =
     py_catch (\<lambda>e. True)
       (py_bind (py_lift (json_item payload ''id'')) (\<lambda>i.
        py_bind (delete_value i now) (\<lambda>_. py_return DELETED)))
       (\<lambda>e. py_bind (py_lift (json_get payload ''id'' JNull)) (\<lambda>_. py_return SKIPPED))"

definition mutation_observation :: "json \<Rightarrow> json \<Rightarrow> observation result" where
  "mutation_observation d payload =
     res_bind (json_item d ''entity_key'') (\<lambda>key.
     res_bind (json_get payload ''id'' key) (\<lambda>i.
     res_bind (json_get d ''created_at'' (JNumber 0)) (\<lambda>created.
     res_bind (json_get payload ''timestamp'' created) (\<lambda>ts.
     res_bind (json_get payload ''content'' (JString [])) (\<lambda>c.
     res_bind (json_get payload ''metadata'' JNull) (\<lambda>md.
     res_bind (json_get payload ''idempotency_key'' JNull) (\<lambda>ik.
     res_bind (json_get payload ''project'' JNull) (\<lambda>pr.
     res_bind (json_get payload ''type'' JNull) (\<lambda>ty.
     res_bind (json_get payload ''topic_key'' JNull) (\<lambda>tk.
     res_bind (json_get payload ''revision_count'' (JNumber 1)) (\<lambda>rc.
     res_bind (json_get payload ''session_id'' JNull) (\<lambda>se.
     post_init \<lparr>rw_id = i, rw_timestamp = ts, rw_content = c, rw_title = None, rw_metadata = md,
       rw_idempotency_key = ik, rw_project = pr, rw_type = ty, rw_topic_key = tk,
       rw_revision_count = rc, rw_session_id = se\<rparr>))))))))))))"

definition apply_insert :: "observation \<Rightarrow> int \<Rightarrow> (memory_store, applied) py" where
  "apply_insert x now =
     py_catch (\<lambda>e. True) (py_bind (create_observation x now) (\<lambda>_. py_return INSERTED))
       (\<lambda>e. py_return SKIPPED)"

definition apply_update :: "observation \<Rightarrow> int \<Rightarrow> (memory_store, applied) py" where
  "apply_update x now =
     py_catch (\<lambda>e. True) (py_bind (update_observation x now) (\<lambda>_. py_return UPDATED))
       (\<lambda>e. if contains_text ''not found'' (py_lower (exc_message e)) then apply_insert x now
            else py_return SKIPPED)"

definition apply_mutation :: "json \<Rightarrow> state_file option \<Rightarrow> int \<Rightarrow> (memory_store, applied) py" where
  "apply_mutation d p now =
     py_bind (py_lift (json_item d ''op'')) (\<lambda>op.
     py_bind (py_lift (line_payload d p)) (\<lambda>payload.
     if op = JString ''delete'' then apply_delete payload now
     else if op = JString ''insert'' \<or> op = JString ''update''
     then py_bind (py_lift (mutation_observation d payload)) (\<lambda>x.
            if op = JString ''insert'' then apply_insert x now else apply_update x now)
     else py_return SKIPPED))"

fun apply_line :: "int \<Rightarrow> chunk_line \<Rightarrow> import_counts \<times> int \<Rightarrow> (memory_store, import_counts \<times> int) py" where
  "apply_line now Blank (c, n) = py_return (c, n)"
| "apply_line now NotJson (c, n) = py_return (count_applied SKIPPED c, n)"
| "apply_line now (Line d p) (c, n) =
     py_catch is_parse_error
       (py_bind (apply_mutation d p now) (\<lambda>a.
        py_return (count_applied a c, if a = SKIPPED then n else n + 1)))
       (\<lambda>e. py_return (count_applied SKIPPED c, n))"

fun apply_lines ::
  "int \<Rightarrow> chunk_line list \<Rightarrow> import_counts \<times> int \<Rightarrow> (memory_store, import_counts \<times> int) py" where
  "apply_lines now [] acc = py_return acc"
| "apply_lines now (l # ls) acc = py_bind (apply_line now l acc) (\<lambda>acc'. apply_lines now ls acc')"

fun apply_chunks ::
  "sync_config \<Rightarrow> string \<Rightarrow> int \<Rightarrow> file_path list \<Rightarrow> import_counts \<Rightarrow> (sync_world, import_counts) py" where
  "apply_chunks cfg source now [] c = py_return c"
| "apply_chunks cfg source now (p # ps) c =
     py_bind (py_read (\<lambda>w. get_chunk_by_id (chunk_id_of p) (me_sync (sw_store w)))) (\<lambda>known.
     if known \<noteq> None then apply_chunks cfg source now ps c
     else
       py_bind (py_read (\<lambda>w. Inr (map_of (sw_chunks w) p))) (\<lambda>f.
       case f of
         Some (Chunk ch) \<Rightarrow>
           py_bind (on_store (apply_lines now (cf_lines ch) (c, 0))) (\<lambda>acc.
           py_bind (raise_broken (cf_broken ch) acc) (\<lambda>(c', n).
           py_bind (note_chunk cfg source p n now) (\<lambda>_. apply_chunks cfg source now ps c')))
       | _ \<Rightarrow> apply_chunks cfg source now ps c))"

definition import_mutations ::
  "sync_config \<Rightarrow> file_path list \<Rightarrow> string \<Rightarrow> file_path option \<Rightarrow> int \<Rightarrow> (sync_world, import_counts) py" where
  "import_mutations cfg paths source manifest now =
     py_bind (py_read (validate_manifest cfg paths manifest)) (\<lambda>_.
     py_bind (without_recording (apply_chunks cfg source now paths
                \<lparr>ic_inserted = 0, ic_updated = 0, ic_deleted = 0, ic_skipped = 0\<rparr>)) (\<lambda>c.
     py_bind (on_sync (update_status None (Some now) None None)) (\<lambda>_.
     py_return c)))"

section \<open>Status\<close>

record sync_summary =
  sp_total_observations :: int
  sp_last_export_at :: "int option"
  sp_last_import_at :: "int option"
  sp_last_export_seq :: int
  sp_latest_seq :: int
  sp_mutation_count :: int

definition sync_report :: "sync_world \<Rightarrow> sync_summary result" where
  "sync_report w =
     (let s = me_sync (sw_store w) in
      res_bind (get_sync_status s) (\<lambda>st.
      Inr \<lparr>sp_total_observations = count_observations (me_rows (sw_store w)),
           sp_last_export_at = ss_last_export_at st, sp_last_import_at = ss_last_import_at st,
           sp_last_export_seq = ss_last_export_seq st, sp_latest_seq = latest_seq s,
           sp_mutation_count = ss_mutation_count st\<rparr>))"

end
