(* ===== verification/Sync_Lemmas.thy ===== *)
theory Sync_Lemmas
  imports Sync_Service Memory_Queries
begin

text \<open>
  Lemmas on the synchronisation: names of chunk files, what writing chunks and manifests leaves on disk,
  how the journal grows, what an export of mutations does, and when an import changes nothing.
\<close>

section \<open>Names of chunk files\<close>

definition digits_value :: "string \<Rightarrow> nat" where
  "digits_value s = foldl (\<lambda>n c. 10 * n + (of_char c - 48)) 0 s"

lemma digits_value_snoc [simp]: "digits_value (s @ [c]) = 10 * digits_value s + (of_char c - 48)"
  by (simp add: digits_value_def)

lemma of_char_digit: "d < 10 \<Longrightarrow> (of_char (digit_char d) :: nat) = 48 + d"
  by (simp add: digit_char_def)

lemma digits_value_show_nat: "digits_value (show_nat n) = n"
proof (induction n rule: show_nat.induct)
  case (1 n)
  show ?case
  proof (cases "n < 10")
    case True
    then show ?thesis
      using digits_value_snoc [of "[]"] by (simp add: show_nat.simps of_char_digit digits_value_def)
  next
    case False
    then have "digits_value (show_nat n) = 10 * digits_value (show_nat (n div 10)) + n mod 10"
      by (subst show_nat.simps) (simp add: of_char_digit)
    with 1 False show ?thesis by simp
  qed
qed

lemma digits_value_zeros: "digits_value (replicate k (CHR ''0'') @ s) = digits_value s"
  by (induction k) (simp_all add: digits_value_def)

lemma pad3_inject [simp]: "pad3 i = pad3 j \<longleftrightarrow> i = j"
  unfolding pad3_def by (metis digits_value_zeros digits_value_show_nat)

lemma chunk_path_inject [simp]: "chunk_path cfg kind ts i = chunk_path cfg kind ts j \<longleftrightarrow> i = j"
  by (simp add: chunk_path_def)

text \<open>Below 1000 the order of the names is the order of the numbers.\<close>

lemma pad3_digits:
  assumes "i < 1000"
  shows "pad3 i = [digit_char (i div 100), digit_char (i div 10 mod 10), digit_char (i mod 10)]"
proof -
  have zero: "CHR ''0'' = digit_char 0" by code_simp
  consider "i < 10" | "10 \<le> i" "i < 100" | "100 \<le> i" by linarith
  then show ?thesis
  proof cases
    case 1
    then have "show_nat i = [digit_char i]" by (simp add: show_nat.simps)
    with 1 show ?thesis by (simp add: pad3_def zero numeral_2_eq_2 div_less)
  next
    case 2
    then have "i div 10 < 10" by linarith
    then have "show_nat (i div 10) = [digit_char (i div 10)]" by (subst show_nat.simps) simp
    moreover have "show_nat i = show_nat (i div 10) @ [digit_char (i mod 10)]" using 2 by (subst show_nat.simps) simp
    ultimately show ?thesis using 2 by (simp add: pad3_def zero)
  next
    case 3
    have "i div 10 div 10 = i div 100" by (simp add: div_mult2_eq [symmetric])
    moreover have "i div 100 < 10" using assms by linarith
    ultimately have "show_nat (i div 10 div 10) = [digit_char (i div 100)]"
      by (subst show_nat.simps) simp
    moreover have "\<not> i div 10 < 10" using 3 by linarith
    then have "show_nat (i div 10) = show_nat (i div 10 div 10) @ [digit_char (i div 10 mod 10)]"
      by (subst show_nat.simps) simp
    moreover have "show_nat i = show_nat (i div 10) @ [digit_char (i mod 10)]" using 3 by (subst show_nat.simps) simp
    ultimately show ?thesis by (simp add: pad3_def)
  qed
qed

lemma digit_char_less: "a < 10 \<Longrightarrow> b < 10 \<Longrightarrow> digit_char a < digit_char b \<longleftrightarrow> a < b"
  by (simp add: digit_char_def less_char_def)

lemma three_digits: "(n :: nat) = 100 * (n div 100) + 10 * (n div 10 mod 10) + n mod 10"
proof -
  have "n div 100 = n div 10 div 10" by (simp add: div_mult2_eq [symmetric])
  then show ?thesis using div_mult_mod_eq [of "n div 10" 10] div_mult_mod_eq [of n 10] by linarith
qed

lemma pad3_less:
  assumes "i < j" "j < 1000"
  shows "pad3 i < pad3 j"
proof -
  obtain a b c where abc: "a = i div 100" "b = i div 10 mod 10" "c = i mod 10" by simp
  obtain x y z where xyz: "x = j div 100" "y = j div 10 mod 10" "z = j mod 10" by simp
  have i: "i = 100 * a + 10 * b + c" unfolding abc by (rule three_digits)
  have j: "j = 100 * x + 10 * y + z" unfolding xyz by (rule three_digits)
  have small: "a < 10" "b < 10" "c < 10" "x < 10" "y < 10" "z < 10"
    using assms by (simp_all add: abc xyz)
  have "a < x \<or> (a = x \<and> (b < y \<or> (b = y \<and> c < z)))"
  proof (rule ccontr)
    assume "\<not> ?thesis"
    then have "x < a \<or> (x = a \<and> y < b) \<or> (x = a \<and> y = b \<and> z \<le> c)" by auto
    then have "j \<le> i" unfolding i j using small by (elim disjE) linarith+
    with assms(1) show False by simp
  qed
  with small have "[digit_char a, digit_char b, digit_char c] < [digit_char x, digit_char y, digit_char z]"
    by (auto simp: digit_char_less)
  with assms show ?thesis by (simp add: pad3_digits abc xyz)
qed

lemma append_less: "(xs :: ('a :: order) list) < ys \<Longrightarrow> p @ xs < p @ ys"
  by (induction p) auto

lemma less_append_same_length:
  "length xs = length ys \<Longrightarrow> (xs :: ('a :: order) list) < ys \<Longrightarrow> xs @ p < ys @ q"
proof (induction xs ys rule: list_induct2)
  case (Cons x xs y ys)
  then show ?case by auto
qed simp

lemma chunk_path_less: "i < j \<Longrightarrow> j < 1000 \<Longrightarrow> chunk_path cfg kind ts i < chunk_path cfg kind ts j"
  unfolding chunk_path_def
proof (rule append_less)
  assume "i < j" "j < 1000"
  then have "length (pad3 i) = length (pad3 j)" by (simp add: pad3_digits)
  moreover have "pad3 i < pad3 j" using \<open>i < j\<close> \<open>j < 1000\<close> by (rule pad3_less)
  ultimately have "pad3 i @ ''.jsonl.gz'' < pad3 j @ ''.jsonl.gz''" by (rule less_append_same_length)
  then have "kind @ ''_'' @ show_int ts @ ''_'' @ pad3 i @ ''.jsonl.gz''
      < kind @ ''_'' @ show_int ts @ ''_'' @ pad3 j @ ''.jsonl.gz''"
    by (intro append_less)
  then show "[kind @ ''_'' @ show_int ts @ ''_'' @ pad3 i @ ''.jsonl.gz'']
      < [kind @ ''_'' @ show_int ts @ ''_'' @ pad3 j @ ''.jsonl.gz'']"
    by (simp only: Cons_less_Cons) simp
qed

lemma sort_chunk_paths:
  assumes "n \<le> 1000"
  shows "sort (map (chunk_path cfg kind ts) [0..<n]) = map (chunk_path cfg kind ts) [0..<n]"
proof -
  have "sorted_wrt (<) (map (chunk_path cfg kind ts) [0..<n])"
    using assms by (auto simp: sorted_wrt_iff_nth_less intro!: chunk_path_less)
  then show ?thesis by (intro sorted_sort_id strict_sorted_imp_sorted)
qed

section \<open>Files that were written\<close>

text \<open>The lines of a file, none if it cannot be read.\<close>

definition lines_of :: "sync_world \<Rightarrow> file_path \<Rightarrow> chunk_line list" where
  "lines_of w p = (case map_of (sw_chunks w) p of Some (Chunk f) \<Rightarrow> cf_lines f | _ \<Rightarrow> [])"

definition file_of :: "sync_config \<Rightarrow> file_path \<Rightarrow> chunk_line list \<Rightarrow> file_state" where
  "file_of cfg p ls = Chunk \<lparr>cf_bytes = gz_bytes (sv_codec cfg) p ls, cf_lines = ls, cf_broken = None\<rparr>"

text \<open>The files after writing \<open>f i\<close> to the path \<open>p i\<close> for every \<open>i\<close>.\<close>

definition write_all ::
  "sync_config \<Rightarrow> (nat \<Rightarrow> file_path) \<Rightarrow> (nat \<Rightarrow> chunk_line list) \<Rightarrow> nat list
     \<Rightarrow> (file_path \<times> file_state) list \<Rightarrow> (file_path \<times> file_state) list" where
  "write_all cfg p f is fs = fold (\<lambda>i. dict_set (p i) (file_of cfg (p i) (f i))) is fs"

lemma map_of_write_all:
  assumes "\<And>i j. p i = p j \<Longrightarrow> i = j"
  shows "map_of (write_all cfg p f is fs) (p j) =
    (if j \<in> set is then Some (file_of cfg (p j) (f j)) else map_of fs (p j))"
  by (induction "is" arbitrary: fs) (auto simp: write_all_def map_of_dict_set dest: assms)

lemma map_of_write_all_other:
  "q \<notin> p ` set is \<Longrightarrow> map_of (write_all cfg p f is fs) q = map_of fs q"
  by (induction "is" arbitrary: fs) (auto simp: write_all_def map_of_dict_set)

lemma write_file_run [py_simps]:
  "write_file cfg p ls w = (Inr (), w\<lparr>sw_chunks := dict_set p (file_of cfg p ls) (sw_chunks w)\<rparr>)"
  by (simp add: write_file_def file_of_def)

definition batch_of :: "nat \<Rightarrow> 'a list \<Rightarrow> nat \<Rightarrow> 'a list" where
  "batch_of n xs i = take n (drop (i * n) xs)"

definition reached_by :: "nat \<Rightarrow> sync_mutation list \<Rightarrow> nat list \<Rightarrow> int \<Rightarrow> int" where
  "reached_by n ms is r =
     (if is = [] then r
      else (let b = batch_of n ms (last is) in fold max (map sm_seq (tl b)) (sm_seq (hd b))))"

lemma write_batches_run:
  "write_batches cfg ms n ts is r w =
     (Inr (map (chunk_path cfg ''mutation'' ts) is, reached_by n ms is r),
      w\<lparr>sw_chunks := write_all cfg (chunk_path cfg ''mutation'' ts)
          (\<lambda>i. map mutation_line (batch_of n ms i)) is (sw_chunks w)\<rparr>)"
proof (induction "is" arbitrary: r w)
  case Nil
  then show ?case by (simp add: py_simps reached_by_def write_all_def)
next
  case (Cons i "is")
  show ?case
    by (simp add: write_mutation_chunk_def py_bind_def py_return_def write_file_run Cons.IH Let_def
        reached_by_def write_all_def batch_of_def)
qed

lemma write_chunks_run:
  "write_chunks cfg xs n ts is w =
     (Inr (map (chunk_path cfg ''sync'' ts) is),
      w\<lparr>sw_chunks := write_all cfg (chunk_path cfg ''sync'' ts)
          (\<lambda>i. map observation_line (py_slice (int i * n) (min ((int i + 1) * n) (int (length xs))) xs))
          is (sw_chunks w)\<rparr>)"
proof (induction "is" arbitrary: w)
  case (Cons i "is")
  show ?case
    by (simp add: write_chunk_def py_bind_def py_return_def write_file_run Cons.IH write_all_def)
qed (simp add: py_simps write_all_def)

text \<open>A slice with bounds in range is the batch, and the batches make up the list.\<close>

lemma py_index_int: "py_index n (int m) = min n m"
  by (simp add: py_index_def)

lemma py_slice_batch:
  assumes "0 < n"
  shows "py_slice (int i * n) (min ((int i + 1) * n) (int (length xs))) xs = batch_of (nat n) xs i"
proof -
  have n: "n = int (nat n)" using assms by simp
  obtain k where k: "n = int k" "0 < k" using assms by (metis n of_nat_0_less_iff)
  have a: "py_index (length xs) (int i * int k) = min (length xs) (i * k)"
    using py_index_int [of "length xs" "i * k"] by simp
  have "min ((int i + 1) * int k) (int (length xs)) = int (min ((i + 1) * k) (length xs))"
    by (simp only: of_nat_min of_nat_mult of_nat_add of_nat_1)
  then have b: "py_index (length xs) (min ((int i + 1) * int k) (int (length xs))) = min (length xs) ((i + 1) * k)"
    by (simp only: py_index_int min.commute)
  have "drop (min (length xs) (i * k)) (take (min (length xs) ((i + 1) * k)) xs) = take k (drop (i * k) xs)"
    by (simp add: drop_take min_def)
  with a b show ?thesis by (simp add: py_slice_def batch_of_def k(1))
qed

lemma concat_batches_upto:
  "0 < n \<Longrightarrow> concat (map (batch_of n xs) [0..<k]) = take (k * n) xs"
proof (induction k)
  case (Suc k)
  have "take (Suc k * n) xs = take (k * n) xs @ batch_of n xs k"
    using take_add [of "k * n" n xs] by (simp add: batch_of_def add.commute)
  with Suc show ?case by simp
qed simp

lemma batches_cover:
  assumes "0 < (n :: nat)"
  shows "l \<le> (l + n - 1) div n * n"
proof -
  have "(l + n - 1) = (l + n - 1) div n * n + (l + n - 1) mod n" by simp
  moreover have "(l + n - 1) mod n < n" using assms by simp
  ultimately show ?thesis by linarith
qed

lemma concat_batches:
  "0 < n \<Longrightarrow> concat (map (batch_of n xs) [0..<(length xs + n - 1) div n]) = xs"
  using batches_cover [of n "length xs"] by (simp add: concat_batches_upto)

lemma batch_nonempty:
  assumes "0 < n" "i < (length xs + n - 1) div n"
  shows "batch_of n xs i \<noteq> []"
proof -
  have "Suc i * n \<le> (length xs + n - 1) div n * n" using assms(2) by (intro mult_right_mono) auto
  also have "\<dots> \<le> length xs + n - 1" by simp
  finally have "i * n < length xs" using assms(1) by simp
  with assms(1) show ?thesis by (simp add: batch_of_def)
qed

section \<open>An export of mutations\<close>

definition manifest_json :: "sync_config \<Rightarrow> file_path list \<Rightarrow> string list \<Rightarrow> int \<Rightarrow> int \<Rightarrow> json" where
  "manifest_json cfg paths parts n ts =
     JObject [(''chunk_count'', JNumber (int (length paths))), (''total_observations'', JNumber n),
       (''checksum'', JString (checksum_of cfg parts)), (''created_at'', JNumber ts),
       (''export_version'', JNumber (sv_export_version cfg))]"

lemma read_bytes_write_all:
  assumes "\<And>i j. p i = p j \<Longrightarrow> i = j" "j \<in> set is" "sw_chunks w = write_all cfg p f is fs"
  shows "read_bytes (p j) w = Inr (gz_bytes (sv_codec cfg) (p j) (f j))"
  using assms by (simp add: read_bytes_def map_of_write_all file_of_def)

lemma write_manifest_run:
  assumes "\<And>i j. p i = p j \<Longrightarrow> i = j" "sw_chunks w = write_all cfg p f is fs"
  shows "write_manifest cfg (map p is) n ts w =
    (Inr (), w\<lparr>sw_manifests := dict_set (manifest_path cfg ts)
       (Holds (manifest_json cfg (map p is) (map (\<lambda>i. gz_bytes (sv_codec cfg) (p i) (f i)) is) n ts))
       (sw_manifests w)\<rparr>)"
proof -
  have "traverse (\<lambda>i. read_bytes (p i) w) is = Inr (map (\<lambda>i. gz_bytes (sv_codec cfg) (p i) (f i)) is)"
    using read_bytes_write_all [of p, OF assms(1) _ assms(2)] by (intro traverse_Inr) blast
  then show ?thesis by (simp add: write_manifest_def py_simps traverse_map manifest_json_def)
qed

text \<open>The status row as an update with an export leaves it.\<close>

definition exported :: "int \<Rightarrow> int \<Rightarrow> sync_store \<Rightarrow> sync_store" where
  "exported ts top_seq s = snd (update_status (Some ts) None (Some top_seq) None s)"

lemma exported_journal [simp]:
  "sy_mutations (exported ts top_seq s) = sy_mutations s" "sy_sequence (exported ts top_seq s) = sy_sequence s"
  "sy_chunks (exported ts top_seq s) = sy_chunks s"
  by (simp_all add: exported_def update_status_def)

lemma watermark_exported: "sy_status s \<noteq> None \<Longrightarrow> watermark (exported ts top_seq s) = top_seq"
  by (auto simp: watermark_def exported_def update_status_def or_keep_def)

lemma update_status_run: "update_status (Some ts) None (Some top_seq) None s = (Inr (), exported ts top_seq s)"
  by (simp add: exported_def update_status_def)

lemma on_sync_run:
  "m (me_sync (sw_store w)) = (r, s) \<Longrightarrow> on_sync m w = (r, w\<lparr>sw_store := (sw_store w)\<lparr>me_sync := s\<rparr>\<rparr>)"
  by (simp add: run_in_def)

lemma journal_ok_exported:
  "journal_ok s \<Longrightarrow> 0 \<le> top_seq \<Longrightarrow> top_seq \<le> sy_sequence s \<Longrightarrow> journal_ok (exported ts top_seq s)"
  by (auto simp: journal_ok_def exported_def update_status_def or_keep_def)

lemma journal_ok_status: "journal_ok s \<Longrightarrow> \<exists>x. get_sync_status s = Inr x \<and> ss_last_export_seq x = watermark s"
  by (auto simp: journal_ok_def get_sync_status_def make_status_def watermark_def)

lemma pending_sorted: "journal_ok s \<Longrightarrow> sorted_wrt (<) (map sm_seq (pending s))"
  by (simp add: journal_ok_def pending_def sorted_wrt_filter_map)

lemma reached_last:
  assumes "sorted_wrt (<) (map sm_seq ms)" "ms \<noteq> []" "0 < n"
  shows "reached_by n ms [0..<(length ms + n - 1) div n] r = sm_seq (last ms)"
proof -
  let ?k = "(length ms + n - 1) div n"
  have "?k \<noteq> 0" using assms batches_cover [of n "length ms"] by (cases "?k") auto
  then obtain i where i: "?k = Suc i" by (cases "?k") auto
  define b where "b = batch_of n ms i"
  have b: "b \<noteq> []" using batch_nonempty [OF assms(3), of i ms] i by (simp add: b_def)
  have "concat (map (batch_of n ms) [0..<Suc i]) = ms" using concat_batches [OF assms(3), of ms] i by simp
  then have ms: "ms = concat (map (batch_of n ms) [0..<i]) @ b" by (simp add: b_def)
  then have "sorted_wrt (<) (map sm_seq b)" using assms(1) by (metis map_append sorted_wrt_append)
  then have "sorted_wrt (<) (sm_seq (hd b) # map sm_seq (tl b))" using b by (cases b) auto
  then have "fold max (map sm_seq (tl b)) (sm_seq (hd b)) = last (sm_seq (hd b) # map sm_seq (tl b))"
    by (rule fold_max_sorted)
  also have "\<dots> = sm_seq (last b)" using b by (cases b) (auto simp: last_map)
  also have "last b = last ms" using b by (subst ms) simp
  finally have "fold max (map sm_seq (tl b)) (sm_seq (hd b)) = sm_seq (last ms)" .
  then show ?thesis unfolding reached_by_def i by (simp add: b_def Let_def)
qed

lemma export_incremental_none:
  assumes "journal_ok (me_sync (sw_store w))" "pending (me_sync (sw_store w)) = []"
  shows "export_incremental cfg csize commit now w = (Inr [], w\<lparr>sw_last_max_seq := 0\<rparr>)"
proof -
  from journal_ok_status [OF assms(1)] obtain x where
    x: "get_sync_status (me_sync (sw_store w)) = Inr x" "ss_last_export_seq x = watermark (me_sync (sw_store w))"
    by blast
  then show ?thesis
    using assms(2) mutations_since_ok [OF assms(1), of "watermark (me_sync (sw_store w))"]
    by (simp add: export_incremental_def py_simps pending_def py_bind_def remember_export_def or_keep_def)
qed

text \<open>What is on disk, and in the store, after an export of mutations that were pending.\<close>

definition exported_world ::
  "sync_config \<Rightarrow> int \<Rightarrow> bool \<Rightarrow> int \<Rightarrow> sync_world \<Rightarrow> sync_world" where
  "exported_world cfg csize commit now w =
     (let s = me_sync (sw_store w);
          ms = pending s;
          is = [0..<(length ms + nat csize - 1) div nat csize];
          p = chunk_path cfg ''mutation'' now;
          f = (\<lambda>i. map mutation_line (batch_of (nat csize) ms i))
      in w\<lparr>sw_chunks := write_all cfg p f is (sw_chunks w),
           sw_manifests := dict_set (manifest_path cfg now)
             (Holds (manifest_json cfg (map p is) (map (\<lambda>i. gz_bytes (sv_codec cfg) (p i) (f i)) is)
                (int (length ms)) now)) (sw_manifests w),
           sw_last_max_seq := sm_seq (last ms), sw_last_timestamp := now,
           sw_store := (sw_store w)\<lparr>me_sync := (if commit then exported now (sm_seq (last ms)) s else s)\<rparr>\<rparr>)"

lemma export_incremental_some:
  assumes "journal_ok (me_sync (sw_store w))" "pending (me_sync (sw_store w)) \<noteq> []" "0 < csize"
  shows "export_incremental cfg csize commit now w =
    (Inr (map (chunk_path cfg ''mutation'' now)
       [0..<(length (pending (me_sync (sw_store w))) + nat csize - 1) div nat csize]),
     exported_world cfg csize commit now w)"
proof -
  let ?s = "me_sync (sw_store w)"
  let ?ms = "pending ?s"
  let ?is = "[0..<(length ?ms + nat csize - 1) div nat csize]"
  let ?p = "chunk_path cfg ''mutation'' now"
  let ?f = "\<lambda>i. map mutation_line (batch_of (nat csize) ?ms i)"
  let ?w1 = "w\<lparr>sw_chunks := write_all cfg ?p ?f ?is (sw_chunks w)\<rparr>"
  from journal_ok_status [OF assms(1)] obtain x where
    x: "get_sync_status ?s = Inr x" "ss_last_export_seq x = watermark ?s" by blast
  have ms: "mutations_since (watermark ?s) None ?s = Inr ?ms"
    using mutations_since_ok [OF assms(1)] by (simp add: pending_def)
  have r: "reached_by (nat csize) ?ms ?is (watermark ?s) = sm_seq (last ?ms)"
    using reached_last [OF pending_sorted [OF assms(1)] assms(2)] assms(3) by simp
  have man: "write_manifest cfg (map ?p ?is) (int (length ?ms)) now ?w1 =
    (Inr (), ?w1\<lparr>sw_manifests := dict_set (manifest_path cfg now)
       (Holds (manifest_json cfg (map ?p ?is) (map (\<lambda>i. gz_bytes (sv_codec cfg) (?p i) (?f i)) ?is)
          (int (length ?ms)) now)) (sw_manifests ?w1)\<rparr>)"
    by (rule write_manifest_run) simp_all
  have count: "batch_count (length ?ms) csize = (length ?ms + nat csize - 1) div nat csize"
    using assms(3) by (simp add: batch_count_def)
  show ?thesis
    using x ms assms(2,3) r man
    by (simp add: export_incremental_def py_simps count write_batches_run py_bind_def remember_export_def
        or_keep_def exported_world_def Let_def run_in_def update_status_run py_return_def)
qed

section \<open>How the journal grows\<close>

text \<open>Entries are added at the end, with new numbers, and the export watermark stays.\<close>

definition grows :: "sync_store \<Rightarrow> sync_store \<Rightarrow> bool" where
  "grows s s' \<longleftrightarrow>
     watermark s' = watermark s \<and> sy_sequence s \<le> sy_sequence s'
     \<and> (\<exists>new. sy_mutations s' = sy_mutations s @ new \<and> (\<forall>m \<in> set new. sy_sequence s < sm_seq m))"

lemma grows_refl [simp]: "grows s s"
  by (simp add: grows_def)

lemma grows_trans: "grows s t \<Longrightarrow> grows t u \<Longrightarrow> grows s u"
  by (fastforce simp: grows_def)

lemma grows_record: "grows s (snd (record_mutation entity key op payload source project now s))"
  by (auto simp: grows_def record_mutation_def Let_def watermark_def split: option.splits)

lemma grows_logged: "grows (me_sync s) (me_sync (logged op key project payload now s))"
  by (simp add: logged_def grows_record)

lemma preserves_grows_log [preserves_rules]:
  "preserves (\<lambda>s. grows g (me_sync s)) (log_mutation op key project payload now)"
  by (auto simp: preserves_def log_mutation_def intro: grows_trans grows_logged)

lemma preserves_sync_set_rows [preserves_rules]: "preserves (\<lambda>s. P (me_sync s)) (set_rows t)"
  by (simp add: preserves_def set_rows_def)

lemma preserves_prod [preserves_rules]:
  "(\<And>a b. preserves P (k a b)) \<Longrightarrow> preserves P (case x of (a, b) \<Rightarrow> k a b)"
  by (cases x) simp

lemma preserves_grows_writes [preserves_rules]:
  "preserves (\<lambda>s. grows g (me_sync s)) (create_observation x now)"
  "preserves (\<lambda>s. grows g (me_sync s)) (update_observation x now)"
  "preserves (\<lambda>s. grows g (me_sync s)) (delete_observation i now)"
  "preserves (\<lambda>s. grows g (me_sync s)) (upsert_topic_key x now)"
  unfolding create_observation_def update_observation_def delete_observation_def upsert_topic_key_def
  by (intro preserves_rules)+

lemma preserves_grows_service [preserves_rules]:
  "preserves (\<lambda>s. grows g (me_sync s)) (memory_save i now c md tk pr ty ti)"
  "preserves (\<lambda>s. grows g (me_sync s)) (memory_update i now c' md ty tk pr ti)"
  "preserves (\<lambda>s. grows g (me_sync s)) (save_event i now c dm key)"
  unfolding memory_save_def memory_update_def save_event_def
  by (intro preserves_rules)+

lemma grows_run_memory: "grows (me_sync s) (me_sync (snd (run_memory c s)))"
proof -
  have "preserves (\<lambda>x. grows (me_sync s) (me_sync x)) (run_memory c)"
  proof (cases c)
    case (MPrompt c pr se ro mo pv)
    then show ?thesis by (simp add: preserves_def memory_save_prompt_def save_prompt_def Let_def)
  next
    case (MMerge a b)
    have "me_sync (snd (merge_projects d ps x)) = me_sync x" for d ps x
      by (auto simp: merge_projects_def split: sum.splits prod.splits)
    with MMerge show ?thesis by (auto simp: preserves_def memory_merge_projects_def Let_def py_return_def)
  qed (simp_all add: handing_def memory_delete_def; intro preserves_rules)+
  then show ?thesis by (rule preservesD) simp
qed

section \<open>Imports and the journal\<close>

text \<open>While recording is off, and in the updates of the status row an import makes, the journal stays.\<close>

definition quiet :: "sync_world \<Rightarrow> sync_world \<Rightarrow> bool" where
  "quiet v w \<longleftrightarrow>
     sy_mutations (me_sync (sw_store w)) = sy_mutations (me_sync (sw_store v))
     \<and> sy_sequence (me_sync (sw_store w)) = sy_sequence (me_sync (sw_store v))
     \<and> watermark (me_sync (sw_store w)) = watermark (me_sync (sw_store v))
     \<and> sw_last_max_seq w = sw_last_max_seq v"

lemma quiet_refl [simp]: "quiet w w"
  by (simp add: quiet_def)

definition silent :: "sync_store \<Rightarrow> memory_store \<Rightarrow> bool" where
  "silent s x \<longleftrightarrow> me_sync x = s \<and> \<not> me_recording x"

lemma preserves_silent [preserves_rules]:
  "preserves (silent s) (log_mutation op key project payload now)"
  "preserves (silent s) (set_rows t)"
  by (simp_all add: preserves_def log_mutation_def logged_def set_rows_def silent_def)

lemma preserves_silent_writes [preserves_rules]:
  "preserves (silent s) (create_observation x now)"
  "preserves (silent s) (update_observation x now)"
  "preserves (silent s) (delete_observation i now)"
  unfolding create_observation_def update_observation_def delete_observation_def
  by (intro preserves_rules)+

lemma preserves_silent_apply [preserves_rules]:
  "preserves (silent s) (apply_insert x now)"
  "preserves (silent s) (apply_update x now)"
  "preserves (silent s) (delete_value j now)"
  unfolding apply_insert_def apply_update_def delete_value_def
  by (intro preserves_rules)+

lemma preserves_silent_apply_mutation [preserves_rules]: "preserves (silent s) (apply_mutation d p now)"
  unfolding apply_mutation_def apply_delete_def by (intro preserves_rules)

lemma preserves_silent_apply_lines [preserves_rules]: "preserves (silent s) (apply_lines now ls acc)"
proof (induction ls arbitrary: acc)
  case (Cons l ls)
  have "preserves (silent s) (apply_line now l acc)"
    by (cases l; cases acc; simp; intro preserves_rules)
  with Cons show ?case by (simp, intro preserves_rules)
qed (simp, intro preserves_rules)

lemma preserves_silent_import_lines [preserves_rules]: "preserves (silent s) (import_lines now ls n)"
proof (induction ls arbitrary: n)
  case (Cons l ls)
  have "preserves (silent s) (import_line now l)"
    by (cases l; simp; intro preserves_rules)
  with Cons show ?case by (simp, intro preserves_rules)
qed (simp, intro preserves_rules)

definition quietly :: "sync_world \<Rightarrow> sync_world \<Rightarrow> bool" where
  "quietly v w \<longleftrightarrow> quiet v w \<and> \<not> me_recording (sw_store w)"

lemma preserves_quietly_store [preserves_rules]:
  assumes "\<And>s. preserves (silent s) m"
  shows "preserves (quietly v) (on_store m)"
proof
  fix w assume w: "quietly v w"
  then have "silent (me_sync (sw_store w)) (sw_store w)" by (simp add: silent_def quietly_def)
  with assms have "silent (me_sync (sw_store w)) (snd (m (sw_store w)))" by (rule preservesD)
  with w show "quietly v (snd (on_store m w))"
    by (simp add: run_in_def silent_def quietly_def quiet_def case_prod_beta)
qed

lemma preserves_quiet_chunk [preserves_rules]:
  "preserves (quietly v) (on_sync (record_chunk c))"
  by (auto simp: preserves_def run_in_def record_chunk_def quietly_def quiet_def watermark_def)

lemma preserves_quiet_status [preserves_rules]:
  "preserves (quiet v) (on_sync (update_status None t None None))"
  by (auto simp: preserves_def run_in_def update_status_def quiet_def watermark_def or_keep_def split: option.splits)

lemma preserves_note_chunk [preserves_rules]: "preserves (quietly v) (note_chunk cfg source p n now)"
  unfolding note_chunk_def by (intro preserves_rules)

lemma preserves_raise_broken [preserves_rules]: "preserves P (raise_broken e a)"
  unfolding raise_broken_def by (intro preserves_rules)

lemma preserves_file_state [preserves_rules]:
  "preserves P m \<Longrightarrow> (\<And>c. preserves P (k c)) \<Longrightarrow> preserves P (case f of Unreadable \<Rightarrow> m | Chunk c \<Rightarrow> k c)"
  by (cases f) simp_all

lemma preserves_apply_chunks [preserves_rules]: "preserves (quietly v) (apply_chunks cfg source now ps c)"
  by (induction ps arbitrary: c) (simp; intro preserves_rules; assumption)+

lemma preserves_import_single [preserves_rules]: "preserves (quietly v) (import_single_chunk now p)"
  unfolding import_single_chunk_def by (intro preserves_rules)

lemma preserves_import_chunks [preserves_rules]: "preserves (quietly v) (import_chunks cfg source now ps n)"
  by (induction ps arbitrary: n) (simp; intro preserves_rules; assumption)+

lemma preserves_without_recording [preserves_rules]:
  assumes "preserves (quietly v) m"
  shows "preserves (quiet v) (without_recording m)"
proof
  fix w assume "quiet v w"
  then have "quietly v (w\<lparr>sw_store := disable_mutation_recording (sw_store w)\<rparr>)"
    by (simp add: quietly_def quiet_def disable_mutation_recording_def)
  with assms have "quietly v (snd (m (w\<lparr>sw_store := disable_mutation_recording (sw_store w)\<rparr>)))"
    by (rule preservesD)
  then show "quiet v (snd (without_recording m w))"
    by (simp add: without_recording_def py_finally_def quietly_def quiet_def enable_mutation_recording_def
        case_prod_beta)
qed

lemma preserves_quiet_imports:
  "preserves (quiet v) (import_mutations cfg paths source manifest now)"
  "preserves (quiet v) (import_observations cfg paths source manifest now)"
  unfolding import_mutations_def import_observations_def by (intro preserves_rules)+

section \<open>Imports and the order of the store\<close>

lemma preserves_lift_bind:
  "(\<And>a. r = Inr a \<Longrightarrow> preserves P (k a)) \<Longrightarrow> preserves P (py_bind (py_lift r) k)"
  by (auto simp: preserves_def py_bind_lift split: sum.splits)

lemma mutation_observation_valid: "mutation_observation d p = Inr x \<Longrightarrow> valid_observation x"
  by (auto simp: mutation_observation_def res_bind_Inr_iff dest: post_init_valid)

lemma line_observation_valid: "line_observation d = Inr x \<Longrightarrow> valid_observation x"
  by (auto simp: line_observation_def res_bind_Inr_iff dest: post_init_valid)

lemma preserves_store_create [preserves_rules]:
  "0 \<le> now \<Longrightarrow> valid_observation x \<Longrightarrow> preserves store_ok (create_observation x now)"
  by (simp add: preserves_def create_observation_ok)

lemma preserves_store_update [preserves_rules]:
  "0 \<le> now \<Longrightarrow> valid_observation x \<Longrightarrow> preserves store_ok (update_observation x now)"
  by (simp add: preserves_def update_observation_ok)

lemma preserves_store_delete [preserves_rules]:
  "0 \<le> now \<Longrightarrow> preserves store_ok (delete_observation i now)"
  by (simp add: preserves_def delete_observation_ok)

lemma preserves_store_delete_value [preserves_rules]:
  "0 \<le> now \<Longrightarrow> preserves store_ok (delete_value i now)"
  unfolding delete_value_def by (cases "session_column i") (auto intro!: preserves_rules split: option.splits)

lemma preserves_store_apply [preserves_rules]:
  "0 \<le> now \<Longrightarrow> valid_observation x \<Longrightarrow> preserves store_ok (apply_insert x now)"
  "0 \<le> now \<Longrightarrow> valid_observation x \<Longrightarrow> preserves store_ok (apply_update x now)"
  unfolding apply_update_def apply_insert_def by (intro preserves_rules; assumption)+

lemma preserves_store_apply_mutation [preserves_rules]:
  assumes "0 \<le> now"
  shows "preserves store_ok (apply_mutation d p now)"
  unfolding apply_mutation_def apply_delete_def
  using assms mutation_observation_valid
  by (intro preserves_rules preserves_lift_bind; blast)

lemma preserves_store_apply_lines [preserves_rules]:
  assumes "0 \<le> now"
  shows "preserves store_ok (apply_lines now ls acc)"
proof (induction ls arbitrary: acc)
  case (Cons l ls)
  have "preserves store_ok (apply_line now l acc)"
    using assms by (cases l; cases acc; simp; intro preserves_rules; assumption)
  with Cons show ?case by (simp, intro preserves_rules)
qed (simp, intro preserves_rules)

lemma preserves_store_import_lines [preserves_rules]:
  assumes "0 \<le> now"
  shows "preserves store_ok (import_lines now ls n)"
proof (induction ls arbitrary: n)
  case (Cons l ls)
  have "preserves store_ok (import_line now l)"
    using assms line_observation_valid
    by (cases l; simp; intro preserves_rules preserves_lift_bind; blast)
  with Cons show ?case by (simp, intro preserves_rules)
qed (simp, intro preserves_rules)

definition world_ok :: "sync_world \<Rightarrow> bool" where
  "world_ok w \<longleftrightarrow> store_ok (sw_store w)"

lemma preserves_world_store [preserves_rules]: "preserves store_ok m \<Longrightarrow> preserves world_ok (on_store m)"
  by (simp add: preserves_def run_in_def world_ok_def case_prod_beta)

lemma preserves_world_chunk [preserves_rules]: "preserves world_ok (on_sync (record_chunk c))"
  by (auto simp: preserves_def run_in_def record_chunk_def world_ok_def store_ok_def journal_ok_def)

lemma preserves_world_status [preserves_rules]: "preserves world_ok (on_sync (update_status None t None None))"
  by (auto simp: preserves_def run_in_def update_status_def world_ok_def store_ok_def journal_ok_def or_keep_def)

lemma preserves_world_note [preserves_rules]: "preserves world_ok (note_chunk cfg source p n now)"
  unfolding note_chunk_def by (intro preserves_rules)

lemma preserves_world_apply_chunks [preserves_rules]:
  "0 \<le> now \<Longrightarrow> preserves world_ok (apply_chunks cfg source now ps c)"
  by (induction ps arbitrary: c) (simp; intro preserves_rules; assumption)+

lemma preserves_world_import_single [preserves_rules]:
  "0 \<le> now \<Longrightarrow> preserves world_ok (import_single_chunk now p)"
  unfolding import_single_chunk_def by (intro preserves_rules)

lemma preserves_world_import_chunks [preserves_rules]:
  "0 \<le> now \<Longrightarrow> preserves world_ok (import_chunks cfg source now ps n)"
  by (induction ps arbitrary: n) (simp; intro preserves_rules; assumption)+

lemma preserves_world_without_recording [preserves_rules]:
  assumes "preserves world_ok m"
  shows "preserves world_ok (without_recording m)"
proof
  fix w assume "world_ok w"
  then have "world_ok (w\<lparr>sw_store := disable_mutation_recording (sw_store w)\<rparr>)"
    by (simp add: world_ok_def store_ok_def disable_mutation_recording_def)
  with assms have "world_ok (snd (m (w\<lparr>sw_store := disable_mutation_recording (sw_store w)\<rparr>)))"
    by (rule preservesD)
  then show "world_ok (snd (without_recording m w))"
    by (simp add: without_recording_def py_finally_def world_ok_def store_ok_def enable_mutation_recording_def
        case_prod_beta)
qed

lemma preserves_world_imports:
  assumes "0 \<le> now"
  shows "preserves world_ok (import_mutations cfg paths source manifest now)"
    "preserves world_ok (import_observations cfg paths source manifest now)"
  unfolding import_mutations_def import_observations_def using assms by (intro preserves_rules; assumption)+

end
