(* ===== verification/Sync_Properties.thy ===== *)
theory Sync_Properties
  imports Sync_Lemmas
begin

text \<open>
  The properties of the synchronisation: what an export delivers, that no mutation is skipped however
  exports, deferred commits and imports interleave, what the journal is replayed to, and what an import
  of the exported files makes of another store.
\<close>

section \<open>An export of mutations is complete\<close>

lemma lines_of_write_all:
  assumes "\<And>i j. p i = p j \<Longrightarrow> i = j" "j \<in> set is" "sw_chunks w = write_all cfg p f is fs"
  shows "lines_of w (p j) = f j"
  using assms by (simp add: lines_of_def map_of_write_all file_of_def)

lemma exported_lines:
  assumes "0 < csize" "s = me_sync (sw_store w)"
  shows "concat (map (lines_of (exported_world cfg csize commit now w))
           (map (chunk_path cfg ''mutation'' now) [0..<(length (pending s) + nat csize - 1) div nat csize]))
         = map mutation_line (pending s)"
proof -
  let ?n = "(length (pending s) + nat csize - 1) div nat csize"
  let ?p = "chunk_path cfg ''mutation'' now"
  let ?w = "exported_world cfg csize commit now w"
  have "lines_of ?w (?p j) = map mutation_line (batch_of (nat csize) (pending s) j)" if "j \<in> set [0..<?n]" for j
    by (rule lines_of_write_all [of ?p, OF _ that]) (simp_all add: exported_world_def Let_def assms(2))
  then have "map (lines_of ?w) (map ?p [0..<?n])
      = map (map mutation_line) (map (batch_of (nat csize) (pending s)) [0..<?n])"
    by simp
  then have "concat (map (lines_of ?w) (map ?p [0..<?n]))
      = map mutation_line (concat (map (batch_of (nat csize) (pending s)) [0..<?n]))"
    by (simp only: map_concat)
  then show ?thesis using concat_batches [of "nat csize" "pending s"] assms(1) by simp
qed

lemma sorted_le_last: "sorted xs \<Longrightarrow> x \<in> set xs \<Longrightarrow> (x :: int) \<le> last xs"
  by (induction xs) auto

lemma pending_exported:
  assumes "journal_ok s" "pending s \<noteq> []"
  shows "pending (exported now (sm_seq (last (pending s))) s) = []"
proof -
  have st: "sy_status s \<noteq> None" using assms(1) by (auto simp: journal_ok_def)
  have "sm_seq m \<le> sm_seq (last (pending s))" if m: "m \<in> set (pending s)" for m
  proof -
    have "sorted (map sm_seq (pending s))" using pending_sorted [OF assms(1)] by (rule strict_sorted_imp_sorted)
    moreover have "sm_seq m \<in> set (map sm_seq (pending s))" using m by simp
    ultimately have "sm_seq m \<le> last (map sm_seq (pending s))" by (rule sorted_le_last)
    with assms(2) show ?thesis by (simp add: last_map)
  qed
  moreover have "watermark s < sm_seq (last (pending s))"
    using last_in_set [OF assms(2)] by (auto simp: pending_def)
  ultimately show ?thesis
    using st by (fastforce simp: pending_def watermark_exported filter_empty_conv)
qed

lemma export_incremental_delivers:
  assumes "journal_ok (me_sync (sw_store w))" "0 < csize"
    and "export_incremental cfg csize commit now w = (r, w')"
  shows "\<exists>paths. r = Inr paths
    \<and> concat (map (lines_of w') paths) = map mutation_line (pending (me_sync (sw_store w)))
    \<and> me_rows (sw_store w') = me_rows (sw_store w)
    \<and> sy_mutations (me_sync (sw_store w')) = sy_mutations (me_sync (sw_store w))
    \<and> pending (me_sync (sw_store w')) = (if commit then [] else pending (me_sync (sw_store w)))"
proof (cases "pending (me_sync (sw_store w)) = []")
  case True
  with export_incremental_none [OF assms(1) True] assms(3) show ?thesis by auto
next
  case False
  let ?s = "me_sync (sw_store w)"
  let ?paths = "map (chunk_path cfg ''mutation'' now) [0..<(length (pending ?s) + nat csize - 1) div nat csize]"
  have w': "w' = exported_world cfg csize commit now w" "r = Inr ?paths"
    using export_incremental_some [OF assms(1) False assms(2)] assms(3) by auto
  have "me_sync (sw_store w') = (if commit then exported now (sm_seq (last (pending ?s))) ?s else ?s)"
    by (simp add: w'(1) exported_world_def Let_def)
  moreover have "me_rows (sw_store w') = me_rows (sw_store w)"
    by (simp add: w'(1) exported_world_def Let_def)
  ultimately show ?thesis
    using exported_lines [OF assms(2) refl, of cfg commit now w] pending_exported [OF assms(1) False] w' by auto
qed

text \<open>
  C15: an export of mutations from a journal in order writes exactly the mutations above the watermark,
  once each and in their order, whatever the chunk size; when it commits, nothing is pending behind it.
  The entries themselves stay as they are.
\<close>

theorem export_delivers_pending:
  assumes "journal_ok (me_sync (sw_store w))" "0 < csize"
    and "export_incremental cfg csize commit now w = (r, w')"
  shows "\<exists>paths. r = Inr paths
    \<and> concat (map (lines_of w') paths) = map mutation_line (pending (me_sync (sw_store w)))
    \<and> me_rows (sw_store w') = me_rows (sw_store w)
    \<and> sy_mutations (me_sync (sw_store w')) = sy_mutations (me_sync (sw_store w))
    \<and> pending (me_sync (sw_store w')) = (if commit then [] else pending (me_sync (sw_store w)))"
  by (rule export_incremental_delivers [OF assms])

text \<open>A store with five journal entries, and files of two entries each.\<close>

definition sample_codec :: sync_codec where
  "sample_codec = \<lparr>gz_bytes = (\<lambda>p ls. concat p), sha256 = (\<lambda>s. s)\<rparr>"

definition sample_sync_config :: sync_config where
  "sample_sync_config = \<lparr>sv_codec = sample_codec, sv_export_dir = [''x''], sv_export_version = 1\<rparr>"

definition world_of :: "memory_store \<Rightarrow> sync_world" where
  "world_of s = \<lparr>sw_store = s, sw_chunks = [], sw_manifests = [], sw_last_max_seq = 0, sw_last_timestamp = 0\<rparr>"

definition journal_calls :: "memory_call list" where
  "journal_calls =
     [MSave ''a'' 5 ''x'' None None None None None, MSave ''b'' 6 ''y'' None None None None None,
      MUpdate ''a'' 7 (Some ''z'') None None None None None, MDelete ''b'' 8, MEvent ''e'' 9 ''w'' [] ''r'']"

definition journal_world :: sync_world where
  "journal_world = world_of (run_memory_calls journal_calls empty_memory)"

lemma journal_world_ok: "journal_ok (me_sync (sw_store journal_world))"
proof -
  have "\<forall>c \<in> set journal_calls. clock_ok c" by (simp add: journal_calls_def)
  then have "store_ok (run_memory_calls journal_calls empty_memory)" by (rule run_memory_calls_ok [OF store_ok_empty])
  then show ?thesis by (simp add: store_ok_def journal_world_def world_of_def)
qed

theorem export_delivers_pending_witness:
  "\<exists>paths. fst (export_incremental sample_sync_config 2 True 10 journal_world) = Inr paths
     \<and> length (concat (map (lines_of (snd (export_incremental sample_sync_config 2 True 10 journal_world))) paths)) = 5"
proof -
  obtain r w' where r: "export_incremental sample_sync_config 2 True 10 journal_world = (r, w')" by (meson surj_pair)
  have "length (pending (me_sync (sw_store journal_world))) = 5" by code_simp
  with export_delivers_pending [OF journal_world_ok _ r] r show ?thesis
    by (auto simp: map_concat [symmetric] dest: arg_cong [of _ _ length])
qed

section \<open>No mutation is skipped\<close>

text \<open>
  The world of one machine, the lines of the last export of mutations that is not yet delivered, the lines
  that were delivered, and the numbers that an export of observations moved the watermark over. An export
  of mutations that commits is taken to be delivered at once; a deferred one is delivered by a push of its
  own, and its caller commits the watermark only after that push. In between there are calls of the memory
  service, exports of observations with any arguments, which may raise, and imports from other machines.
\<close>

type_synonym delivery = "sync_world \<times> chunk_line set \<times> chunk_line set \<times> int set"

definition exported_set :: "sync_world \<Rightarrow> file_path list \<Rightarrow> chunk_line set" where
  "exported_set w paths = set (concat (map (lines_of w) paths))"

inductive sync_step :: "sync_config \<Rightarrow> delivery \<Rightarrow> delivery \<Rightarrow> bool" for cfg where
  work: "clock_ok c \<Longrightarrow>
    sync_step cfg (w, S, D, H) (w\<lparr>sw_store := snd (run_memory c (sw_store w))\<rparr>, S, D, H)"
| deliver: "0 < csize \<Longrightarrow> export_incremental cfg csize True now w = (Inr paths, w') \<Longrightarrow>
    sync_step cfg (w, S, D, H) (w', {}, D \<union> exported_set w' paths, H)"
| stage: "0 < csize \<Longrightarrow> export_incremental cfg csize False now w = (Inr paths, w') \<Longrightarrow>
    sync_step cfg (w, S, D, H) (w', exported_set w' paths, D, H)"
| push: "sync_step cfg (w, S, D, H) (w, S, D \<union> S, H)"
| commit: "S \<subseteq> D \<Longrightarrow> sync_step cfg (w, S, D, H) (snd (commit_export_watermark now w), S, D, H)"
| dump: "export_observations cfg project csize now w = (r, w') \<Longrightarrow>
    sync_step cfg (w, S, D, H) (w', S, D, H \<union> {watermark (me_sync (sw_store w)) <.. watermark (me_sync (sw_store w'))})"
| pull: "0 \<le> now \<Longrightarrow>
    sync_step cfg (w, S, D, H) (snd (import_mutations cfg paths source manifest now w), S, D, H)"
| load: "0 \<le> now \<Longrightarrow>
    sync_step cfg (w, S, D, H) (snd (import_observations cfg paths source manifest now w), S, D, H)"

inductive synced :: "sync_config \<Rightarrow> delivery \<Rightarrow> bool" for cfg where
  start: "sw_store w = empty_memory \<Longrightarrow> sw_last_max_seq w = 0 \<Longrightarrow> synced cfg (w, {}, {}, {})"
| step: "synced cfg x \<Longrightarrow> sync_step cfg x y \<Longrightarrow> synced cfg y"

inductive_cases sync_stepE: "sync_step cfg x y"

abbreviation journal_of :: "sync_world \<Rightarrow> sync_mutation list" where
  "journal_of w \<equiv> sy_mutations (me_sync (sw_store w))"

text \<open>Everything up to a number is in a set of lines, or its own number is in \<open>H\<close>.\<close>

definition covered :: "int set \<Rightarrow> sync_world \<Rightarrow> int \<Rightarrow> chunk_line set \<Rightarrow> bool" where
  "covered H w n L \<longleftrightarrow> (\<forall>m \<in> set (journal_of w). sm_seq m \<le> n \<longrightarrow> mutation_line m \<in> L \<or> sm_seq m \<in> H)"

definition delivery_ok :: "delivery \<Rightarrow> bool" where
  "delivery_ok x \<longleftrightarrow>
     (case x of (w, S, D, H) \<Rightarrow>
       world_ok w \<and> sw_last_max_seq w \<le> sy_sequence (me_sync (sw_store w))
       \<and> covered H w (watermark (me_sync (sw_store w))) D \<and> covered H w (sw_last_max_seq w) (D \<union> S))"

lemma covered_mono: "covered H w n L \<Longrightarrow> L \<subseteq> M \<Longrightarrow> covered H w n M"
  by (auto simp: covered_def)

lemma covered_0: "world_ok w \<Longrightarrow> n \<le> 0 \<Longrightarrow> covered H w n L"
  by (fastforce simp: covered_def world_ok_def store_ok_def journal_ok_def)

lemma watermark_given_out: "world_ok w \<Longrightarrow> watermark (me_sync (sw_store w)) \<le> sy_sequence (me_sync (sw_store w))"
  by (auto simp: world_ok_def store_ok_def journal_ok_def watermark_def)

lemma fold_max_le: "\<forall>x \<in> set xs. x \<le> b \<Longrightarrow> n \<le> b \<Longrightarrow> fold max xs n \<le> (b :: int)"
  by (induction xs arbitrary: n) auto

lemma fold_max_ge: "(n :: int) \<le> fold max xs n"
proof (induction xs arbitrary: n)
  case (Cons x xs)
  from Cons [of "max x n"] show ?case by simp
qed simp

text \<open>The number an export of observations sets the watermark to is one the journal has given out.\<close>

lemma export_seq_given_out:
  assumes "world_ok w" "s = me_sync (sw_store w)"
    and "observations_to_export (watermark s) project w = Inr (xs, upto_seq)"
  shows "0 \<le> (case upto_seq of Some n \<Rightarrow> n | None \<Rightarrow> latest_seq s)
    \<and> (case upto_seq of Some n \<Rightarrow> n | None \<Rightarrow> latest_seq s) \<le> sy_sequence s"
proof (cases "0 < watermark s")
  case True
  have j: "journal_ok s" using assms(1,2) by (simp add: world_ok_def store_ok_def)
  let ?ms = "filter (\<lambda>m. sm_seq m > watermark s) (sy_mutations s)"
  have "upto_seq = Some (fold max (map sm_seq ?ms) (watermark s))"
    using True assms(3) by (auto simp: observations_to_export_def reconstruct_from_mutations_def res_bind_Inr_iff
        mutations_since_ok [OF j] assms(2) [symmetric])
  moreover have "fold max (map sm_seq ?ms) (watermark s) \<le> sy_sequence s"
    using j watermark_given_out [OF assms(1)] assms(2) by (intro fold_max_le) (auto simp: journal_ok_def)
  ultimately show ?thesis using True fold_max_ge [of "watermark s" "map sm_seq ?ms"] by simp
next
  case False
  have j: "journal_ok s" using assms(1,2) by (simp add: world_ok_def store_ok_def)
  from False assms(3) have "upto_seq = None" by (auto simp: observations_to_export_def res_bind_Inr_iff)
  then show ?thesis
    using j last_in_set [of "sy_mutations s"] by (auto simp: latest_seq_ok [OF j] journal_ok_def intro: less_imp_le)
qed

lemma write_manifest_store:
  "write_manifest cfg ps k ts v = (q, u) \<Longrightarrow> sw_store u = sw_store v \<and> sw_last_max_seq u = sw_last_max_seq v"
  by (auto simp: write_manifest_def py_simps split: sum.splits)

lemma export_observations_result:
  assumes "world_ok w" "export_observations cfg project csize now w = (r, w')"
  shows "sw_last_max_seq w' = sw_last_max_seq w
    \<and> (sw_store w' = sw_store w
       \<or> (\<exists>n. 0 \<le> n \<and> n \<le> sy_sequence (me_sync (sw_store w))
            \<and> sw_store w' = (sw_store w)\<lparr>me_sync := exported now n (me_sync (sw_store w))\<rparr>))"
proof -
  let ?s = "me_sync (sw_store w)"
  have "journal_ok ?s" using assms(1) by (simp add: world_ok_def store_ok_def)
  then obtain st where st: "get_sync_status ?s = Inr st" "ss_last_export_seq st = watermark ?s"
    using journal_ok_status by blast
  show ?thesis
  proof (cases "observations_to_export (watermark ?s) project w")
    case (Inl e)
    with assms(2) st show ?thesis by (simp add: export_observations_def py_simps)
  next
    case (Inr found)
    obtain xs upto_seq where found: "found = (xs, upto_seq)" by (cases found)
    show ?thesis
    proof (cases "xs = [] \<or> csize = 0")
      case True
      with assms(2) st Inr found show ?thesis
        by (cases "xs = []") (simp_all add: export_observations_def py_simps Let_def)
    next
      case False
      let ?is = "[0..<nat ((int (length xs) + csize - 1) div csize)]"
      obtain ps v where v: "write_chunks cfg (order_asc ob_timestamp xs) csize now ?is w = (Inr ps, v)"
        "sw_store v = sw_store w" "sw_last_max_seq v = sw_last_max_seq w" by (simp add: write_chunks_run)
      obtain q u where u: "write_manifest cfg ps (int (length xs)) now v = (q, u)" by fastforce
      note same = write_manifest_store [OF u] v(2,3)
      let ?n = "case upto_seq of Some n \<Rightarrow> n | None \<Rightarrow> latest_seq ?s"
      have len: "length (order_asc ob_timestamp xs) = length xs" by (simp add: order_asc_def)
      show ?thesis
      proof (cases q)
        case (Inl e)
        with assms(2) st Inr found False v(1) u same len show ?thesis
          by (auto simp: export_observations_def py_simps Let_def)
      next
        case q: (Inr x)
        have "w' = u\<lparr>sw_store := (sw_store w)\<lparr>me_sync := exported now ?n ?s\<rparr>\<rparr>"
          using assms(2) st Inr found False v(1) u same q len
          by (auto simp: export_observations_def py_simps Let_def run_in_def update_status_run split: option.splits)
        with export_seq_given_out [OF assms(1) refl Inr [unfolded found]] same show ?thesis by auto
      qed
    qed
  qed
qed

lemma covered_grows:
  assumes "covered H w n L" "grows (me_sync (sw_store w)) (me_sync (sw_store v))"
    and "n \<le> sy_sequence (me_sync (sw_store w))"
  shows "covered H v n L"
proof -
  from assms(2) obtain new where new: "journal_of v = journal_of w @ new"
    "\<forall>m \<in> set new. sy_sequence (me_sync (sw_store w)) < sm_seq m"
    by (auto simp: grows_def)
  show ?thesis
    unfolding covered_def
  proof (intro ballI impI)
    fix m assume m: "m \<in> set (journal_of v)" "sm_seq m \<le> n"
    with new assms(3) have "m \<in> set (journal_of w)" by fastforce
    with m(2) assms(1) show "mutation_line m \<in> L \<or> sm_seq m \<in> H" by (simp add: covered_def)
  qed
qed

lemma delivery_ok_work:
  assumes "delivery_ok (w, S, D, H)" "clock_ok c"
  shows "delivery_ok (w\<lparr>sw_store := snd (run_memory c (sw_store w))\<rparr>, S, D, H)"
proof -
  let ?v = "w\<lparr>sw_store := snd (run_memory c (sw_store w))\<rparr>"
  have g: "grows (me_sync (sw_store w)) (me_sync (sw_store ?v))" by (simp add: grows_run_memory)
  have ok: "world_ok w" "sw_last_max_seq w \<le> sy_sequence (me_sync (sw_store w))"
    "covered H w (watermark (me_sync (sw_store w))) D" "covered H w (sw_last_max_seq w) (D \<union> S)"
    using assms(1) by (simp_all add: delivery_ok_def)
  have "world_ok ?v" using run_memory_ok ok(1) assms(2) by (simp add: world_ok_def)
  moreover have "sw_last_max_seq ?v \<le> sy_sequence (me_sync (sw_store ?v))"
    using ok(2) g by (simp add: grows_def)
  moreover have "covered H ?v (watermark (me_sync (sw_store w))) D"
    using covered_grows [OF ok(3) g watermark_given_out [OF ok(1)]] .
  moreover have "covered H ?v (sw_last_max_seq w) (D \<union> S)" using covered_grows [OF ok(4) g ok(2)] .
  moreover have "watermark (me_sync (sw_store ?v)) = watermark (me_sync (sw_store w))" using g by (simp add: grows_def)
  ultimately show ?thesis by (simp add: delivery_ok_def)
qed

lemma delivery_ok_quiet:
  assumes "delivery_ok (w, S, D, H)" "quiet w v" "world_ok v"
  shows "delivery_ok (v, S, D, H)"
  using assms by (simp add: delivery_ok_def quiet_def covered_def)

lemma export_covers:
  assumes "world_ok w" "0 < csize" "export_incremental cfg csize c now w = (Inr paths, w')"
    and "covered H w (watermark (me_sync (sw_store w))) D"
  shows "world_ok w' \<and> sw_last_max_seq w' \<le> sy_sequence (me_sync (sw_store w'))
    \<and> covered H w' (sw_last_max_seq w') (D \<union> exported_set w' paths)
    \<and> journal_of w' = journal_of w
    \<and> (watermark (me_sync (sw_store w')) = watermark (me_sync (sw_store w))
       \<or> c \<and> watermark (me_sync (sw_store w')) = sw_last_max_seq w')"
proof (cases "pending (me_sync (sw_store w)) = []")
  case True
  let ?s = "me_sync (sw_store w)"
  have j: "journal_ok ?s" using assms(1) by (simp add: world_ok_def store_ok_def)
  from export_incremental_none [OF j True] assms(3) have "w' = w\<lparr>sw_last_max_seq := 0\<rparr>" by simp
  moreover have "0 \<le> sy_sequence ?s" using j by (simp add: journal_ok_def)
  moreover have "covered H w' 0 (D \<union> exported_set w' paths)"
    using assms(1) calculation(1) by (intro covered_0) (simp_all add: world_ok_def)
  ultimately show ?thesis using assms(1) by (simp add: world_ok_def covered_def)
next
  case False
  let ?s = "me_sync (sw_store w)"
  have j: "journal_ok ?s" using assms(1) by (simp add: world_ok_def store_ok_def)
  have w': "w' = exported_world cfg csize c now w"
    using export_incremental_some [OF j False assms(2)] assms(3) by simp
  have m: "last (pending ?s) \<in> set (pending ?s)" using False by simp
  then have last: "0 < sm_seq (last (pending ?s))" "sm_seq (last (pending ?s)) \<le> sy_sequence ?s"
    using j by (auto simp: pending_def journal_ok_def)
  have "journal_ok (exported now (sm_seq (last (pending ?s))) ?s)"
    using journal_ok_exported [OF j] last by simp
  then have ok: "world_ok w'"
    using assms(1) by (simp add: w' world_ok_def store_ok_def exported_world_def Let_def)
  have lines: "exported_set w' paths = mutation_line ` set (pending ?s)"
    using export_incremental_delivers [OF j assms(2,3)] by (auto simp: exported_set_def simp del: set_concat)
  have same: "journal_of w' = journal_of w" "sy_sequence (me_sync (sw_store w')) = sy_sequence ?s"
    "sw_last_max_seq w' = sm_seq (last (pending ?s))"
    by (simp_all add: w' exported_world_def Let_def)
  have "covered H w' (sw_last_max_seq w') (D \<union> exported_set w' paths)"
    unfolding covered_def same(1) lines
  proof (intro ballI impI)
    fix m assume "m \<in> set (journal_of w)"
    then show "mutation_line m \<in> D \<union> mutation_line ` set (pending ?s) \<or> sm_seq m \<in> H"
      using assms(4) by (cases "sm_seq m \<le> watermark ?s") (auto simp: covered_def pending_def)
  qed
  moreover have "watermark (me_sync (sw_store w')) = (if c then sw_last_max_seq w' else watermark ?s)"
    using j by (auto simp: w' exported_world_def Let_def watermark_exported journal_ok_def)
  ultimately show ?thesis using ok same last by simp
qed

lemma delivery_ok_commit:
  assumes "delivery_ok (w, S, D, H)" "S \<subseteq> D"
  shows "delivery_ok (snd (commit_export_watermark now w), S, D, H)"
proof (cases "sw_last_max_seq w \<le> 0")
  case True
  with assms(1) show ?thesis by (simp add: commit_export_watermark_def py_simps)
next
  case False
  let ?s = "me_sync (sw_store w)" and ?t = "if sw_last_timestamp w = 0 then now else sw_last_timestamp w"
  let ?v = "w\<lparr>sw_store := (sw_store w)\<lparr>me_sync := exported ?t (sw_last_max_seq w) ?s\<rparr>\<rparr>"
  have j: "journal_ok ?s" "sw_last_max_seq w \<le> sy_sequence ?s"
    using assms(1) by (simp_all add: delivery_ok_def world_ok_def store_ok_def)
  have v: "snd (commit_export_watermark now w) = ?v"
    using False by (simp add: commit_export_watermark_def py_simps run_in_def update_status_run)
  have "journal_ok (exported ?t (sw_last_max_seq w) ?s)"
    using False by (intro journal_ok_exported j) simp_all
  then have "world_ok ?v" using assms(1) by (simp add: delivery_ok_def world_ok_def store_ok_def)
  moreover have "watermark (exported ?t (sw_last_max_seq w) ?s) = sw_last_max_seq w"
    using j(1) by (intro watermark_exported) (auto simp: journal_ok_def)
  moreover have "covered H w (sw_last_max_seq w) D"
    using assms by (auto simp: delivery_ok_def Un_absorb2)
  ultimately show ?thesis
    using assms(1) unfolding v by (auto simp: delivery_ok_def covered_def)
qed

lemma delivery_ok_dump:
  assumes "delivery_ok (w, S, D, H)" "export_observations cfg project csize now w = (r, w')"
  shows "delivery_ok (w', S, D, H \<union> {watermark (me_sync (sw_store w)) <.. watermark (me_sync (sw_store w'))})"
proof -
  let ?s = "me_sync (sw_store w)" and ?H = "H \<union> {watermark (me_sync (sw_store w)) <.. watermark (me_sync (sw_store w'))}"
  have ok: "world_ok w" "sw_last_max_seq w \<le> sy_sequence ?s" "covered H w (watermark ?s) D"
    "covered H w (sw_last_max_seq w) (D \<union> S)" using assms(1) by (simp_all add: delivery_ok_def)
  have j: "journal_ok ?s" using ok(1) by (simp add: world_ok_def store_ok_def)
  note res = export_observations_result [OF ok(1) assms(2)]
  have same: "journal_of w' = journal_of w" "sy_sequence (me_sync (sw_store w')) = sy_sequence ?s"
    "sw_last_max_seq w' = sw_last_max_seq w" using res by auto
  have "world_ok w'"
    using res ok(1) journal_ok_exported [OF j] by (auto simp: world_ok_def store_ok_def)
  moreover have "covered ?H w' (watermark (me_sync (sw_store w'))) D"
    using ok(3) unfolding covered_def same(1) by fastforce
  moreover have "covered ?H w' (sw_last_max_seq w') (D \<union> S)"
    using ok(4) unfolding covered_def same(1,3) by blast
  ultimately show ?thesis using ok(2) same by (simp add: delivery_ok_def)
qed

lemma delivery_ok_step:
  assumes "delivery_ok x" "sync_step cfg x y"
  shows "delivery_ok y"
  using assms(2)
proof cases
  case (work c w S D H)
  with assms(1) show ?thesis by (simp add: delivery_ok_work)
next
  case (deliver csize now w paths w' S D H)
  with assms(1) have "world_ok w" "covered H w (watermark (me_sync (sw_store w))) D" by (simp_all add: delivery_ok_def)
  from export_covers [OF this(1) deliver(3,4) this(2)] this(2) deliver(2) show ?thesis
    by (auto simp: delivery_ok_def covered_def)
next
  case (stage csize now w paths w' S D H)
  with assms(1) have "world_ok w" "covered H w (watermark (me_sync (sw_store w))) D" by (simp_all add: delivery_ok_def)
  from export_covers [OF this(1) stage(3,4) this(2)] this(2) stage(2) show ?thesis
    by (auto simp: delivery_ok_def covered_def)
next
  case (push w S D H)
  with assms(1) show ?thesis by (auto simp: delivery_ok_def covered_def)
next
  case (commit S D w now H)
  with assms(1) show ?thesis by (simp add: delivery_ok_commit)
next
  case (dump project csize now w r w' S D H)
  with assms(1) delivery_ok_dump show ?thesis by simp
next
  case (pull now w S D H paths source manifest)
  let ?m = "import_mutations cfg paths source manifest now"
  have "quiet w (snd (?m w))" using preserves_quiet_imports(1) by (rule preservesD) simp
  moreover have "world_ok (snd (?m w))"
    using preserves_world_imports(1) [OF pull(3)] assms(1) pull(1)
    by (auto simp: delivery_ok_def intro: preservesD)
  ultimately show ?thesis using assms(1) pull(1,2) delivery_ok_quiet by simp
next
  case (load now w S D H paths source manifest)
  let ?m = "import_observations cfg paths source manifest now"
  have "quiet w (snd (?m w))" using preserves_quiet_imports(2) by (rule preservesD) simp
  moreover have "world_ok (snd (?m w))"
    using preserves_world_imports(2) [OF load(3)] assms(1) load(1)
    by (auto simp: delivery_ok_def intro: preservesD)
  ultimately show ?thesis using assms(1) load(1,2) delivery_ok_quiet by simp
qed

lemma delivery_ok_synced: "synced cfg x \<Longrightarrow> delivery_ok x"
proof (induction rule: synced.induct)
  case (start w)
  then show ?case
    using store_ok_empty by (simp add: delivery_ok_def world_ok_def covered_def empty_memory_def empty_sync_def)
qed (rule delivery_ok_step)

text \<open>
  C3: however calls of the memory service, exports of mutations that commit at once, exports whose commit
  waits for a push, pushes, commits, exports of observations and imports follow each other: every mutation
  up to the export watermark has been delivered as a line, unless an export of observations moved the
  watermark over it, and one more export of mutations that commits delivers all the rest. Chunk sizes of
  exports of mutations are positive. What an export of observations passes over can be lost for good:
  see \<open>project_export_skips\<close>.
\<close>

theorem watermark_never_skips:
  assumes "synced cfg (w, S, D, H)"
  shows "(\<forall>m \<in> set (journal_of w). sm_seq m \<le> watermark (me_sync (sw_store w)) \<longrightarrow>
         mutation_line m \<in> D \<or> sm_seq m \<in> H)
    \<and> (\<forall>csize now paths w'. 0 < csize \<longrightarrow> export_incremental cfg csize True now w = (Inr paths, w') \<longrightarrow>
         (\<forall>m \<in> set (journal_of w). mutation_line m \<in> D \<union> set (concat (map (lines_of w') paths)) \<or> sm_seq m \<in> H))"
proof (intro conjI allI impI)
  have ok: "delivery_ok (w, S, D, H)" using assms by (rule delivery_ok_synced)
  then show cov: "\<forall>m \<in> set (journal_of w). sm_seq m \<le> watermark (me_sync (sw_store w)) \<longrightarrow>
      mutation_line m \<in> D \<or> sm_seq m \<in> H"
    by (simp add: delivery_ok_def covered_def)
  fix csize now paths w'
  assume e: "0 < csize" "export_incremental cfg csize True now w = (Inr paths, w')"
  have "journal_ok (me_sync (sw_store w))" using ok by (simp add: delivery_ok_def world_ok_def store_ok_def)
  from export_incremental_delivers [OF this e]
  have lines: "set (concat (map (lines_of w') paths)) = mutation_line ` set (pending (me_sync (sw_store w)))"
    by (auto simp del: set_concat)
  show "\<forall>m \<in> set (journal_of w). mutation_line m \<in> D \<union> set (concat (map (lines_of w') paths)) \<or> sm_seq m \<in> H"
    unfolding lines
  proof
    fix m assume m: "m \<in> set (journal_of w)"
    show "mutation_line m \<in> D \<union> mutation_line ` set (pending (me_sync (sw_store w))) \<or> sm_seq m \<in> H"
      using cov m by (cases "sm_seq m \<le> watermark (me_sync (sw_store w))") (auto simp: pending_def)
  qed
qed

lemma synced_work:
  "synced cfg (w, S, D, H) \<Longrightarrow> \<forall>c \<in> set cs. clock_ok c \<Longrightarrow>
     synced cfg (w\<lparr>sw_store := run_memory_calls cs (sw_store w)\<rparr>, S, D, H)"
proof (induction cs arbitrary: w)
  case (Cons c cs)
  then have "synced cfg (w\<lparr>sw_store := snd (run_memory c (sw_store w))\<rparr>, S, D, H)"
    using synced.step [OF Cons.prems(1) sync_step.work] by simp
  from Cons.IH [OF this] Cons.prems(2) show ?case by simp
qed simp

lemma synced_journal_world: "synced cfg (journal_world, {}, {}, {})"
proof -
  have "synced cfg (world_of empty_memory, {}, {}, {})" by (rule synced.start) (simp_all add: world_of_def)
  from synced_work [OF this, of journal_calls] show ?thesis
    by (simp add: journal_world_def world_of_def) (simp add: journal_calls_def)
qed

theorem watermark_never_skips_witness:
  "\<exists>paths. fst (export_incremental sample_sync_config 2 True 10 journal_world) = Inr paths \<and>
     mutation_line ` set (journal_of journal_world)
       \<subseteq> set (concat (map (lines_of (snd (export_incremental sample_sync_config 2 True 10 journal_world))) paths))"
proof -
  let ?m = "export_incremental sample_sync_config 2 True 10 journal_world"
  have "(case fst ?m of Inr p \<Rightarrow> True | _ \<Rightarrow> False)" by code_simp
  then obtain paths w' where m: "?m = (Inr paths, w')" by (cases ?m) (auto split: sum.splits)
  have "\<forall>m \<in> set (journal_of journal_world).
      mutation_line m \<in> {} \<union> set (concat (map (lines_of w') paths)) \<or> sm_seq m \<in> {}"
    by (rule watermark_never_skips [OF synced_journal_world [of sample_sync_config], THEN conjunct2,
        THEN spec, THEN spec, THEN spec, THEN spec, THEN mp, THEN mp, OF _ m]) simp
  then have "mutation_line ` set (journal_of journal_world) \<subseteq> set (concat (map (lines_of w') paths))"
    by (simp del: set_concat) blast
  with m show ?thesis by simp
qed

text \<open>
  An export of the observations of one project sets the watermark to the latest number of the whole
  journal, as the code says it means to: the mutations of the other projects are pending no more, and no
  file has them.
\<close>

definition two_projects :: sync_world where
  "two_projects = world_of (run_memory_calls
     [MSave ''a'' 5 ''x'' None None (Some ''pa'') None None, MSave ''b'' 6 ''y'' None None (Some ''pb'') None None]
     empty_memory)"

definition line_id :: "chunk_line \<Rightarrow> json option" where
  "line_id l = (case l of Line (JObject kvs) _ \<Rightarrow> map_of kvs ''id'' | _ \<Rightarrow> None)"

theorem project_export_skips:
  "\<exists>paths w'. export_observations sample_sync_config (Some ''pb'') 10 20 two_projects = (Inr paths, w')
     \<and> length (pending (me_sync (sw_store two_projects))) = 2
     \<and> pending (me_sync (sw_store w')) = []
     \<and> map line_id (concat (map (lines_of w') paths)) = [Some (JString ''b'')]"
proof -
  let ?m = "export_observations sample_sync_config (Some ''pb'') 10 20 two_projects"
  have "case ?m of (Inl e, w') \<Rightarrow> False
     | (Inr paths, w') \<Rightarrow> length (pending (me_sync (sw_store two_projects))) = 2
         \<and> pending (me_sync (sw_store w')) = []
         \<and> map line_id (concat (map (lines_of w') paths)) = [Some (JString ''b'')]" by code_simp
  then show ?thesis by (cases ?m) (auto split: sum.splits)
qed

section \<open>What a replay of the journal yields\<close>

text \<open>The entries a replay does not pass over, and what an entry says of its entity.\<close>

definition counts_for :: "string option \<Rightarrow> sync_mutation \<Rightarrow> bool" where
  "counts_for project m \<longleftrightarrow>
     (or_empty project = [] \<or> sm_project m = or_empty project)
     \<and> (sm_op m = ''delete''
        \<or> (sm_op m = ''insert'' \<or> sm_op m = ''update'') \<and> (\<exists>d. sm_payload m = Holds d))"

definition snapshot :: "sync_mutation \<Rightarrow> json option" where
  "snapshot m =
     (if sm_op m = ''delete'' then None
      else (case sm_payload m of Holds d \<Rightarrow> Some d | _ \<Rightarrow> None))"

lemma map_of_filter_key: "map_of (filter (\<lambda>(k, d). k \<noteq> e) kvs) k = (if k = e then None else map_of kvs k)"
  by (induction kvs) auto

lemma replay_from:
  "map_of (replay_payloads project ms data) k =
     (case find (\<lambda>m. sm_entity_key m = k \<and> counts_for project m) (rev ms) of
        None \<Rightarrow> map_of data k
      | Some m \<Rightarrow> snapshot m)"
proof (induction ms arbitrary: data)
  case (Cons m ms)
  show ?case
  proof (cases "find (\<lambda>m. sm_entity_key m = k \<and> counts_for project m) (rev ms)")
    case None
    with Cons show ?thesis
      by (auto simp: find_append counts_for_def snapshot_def map_of_filter_key map_of_dict_set split: state_file.splits)
  next
    case (Some x)
    with Cons show ?thesis by (simp add: find_append)
  qed
qed simp

lemma distinct_replay: "distinct (map fst data) \<Longrightarrow> distinct (map fst (replay_payloads project ms data))"
proof (induction ms arbitrary: data)
  case (Cons m ms)
  have "distinct (map fst (filter (\<lambda>(k, d). k \<noteq> e) data))" for e
    using Cons.prems by (simp add: distinct_map_filter)
  with Cons show ?case by (auto simp: distinct_dict_set split: state_file.splits)
qed simp

text \<open>
  C32: replaying a journal keeps for every key what the last entry says that counts for it: its data after
  an insert or update, nothing after a delete. Entries of other projects, of other kinds and with a payload
  that is not JSON do not count. No key occurs twice.
\<close>

theorem replay_last_wins:
  "map_of (replay_payloads project ms []) k =
     Option.bind (find (\<lambda>m. sm_entity_key m = k \<and> counts_for project m) (rev ms)) snapshot
   \<and> distinct (map fst (replay_payloads project ms []))"
  using replay_from [of project ms "[]" k] distinct_replay [of "[]" project ms] by (simp split: option.splits)

section \<open>What the journal does not hold\<close>

definition own_payload :: "sync_mutation \<Rightarrow> bool" where
  "own_payload m \<longleftrightarrow> sm_op m = ''delete'' \<or> (\<exists>i x. sm_payload m = Holds (mutation_payload i x))"

definition own_journal :: "memory_store \<Rightarrow> bool" where
  "own_journal s \<longleftrightarrow> (\<forall>m \<in> set (sy_mutations (me_sync s)). own_payload m)"

lemma preserves_own_log [preserves_rules]:
  "op = ''delete'' \<or> (\<exists>i x. payload = mutation_payload i x) \<Longrightarrow>
     preserves own_journal (log_mutation op key project payload now)"
  by (auto simp: preserves_def log_mutation_def logged_def record_mutation_def own_journal_def own_payload_def Let_def)

lemma preserves_own_set_rows [preserves_rules]: "preserves own_journal (set_rows t)"
  by (simp add: preserves_def set_rows_def own_journal_def)

lemma preserves_own_writes [preserves_rules]:
  "preserves own_journal (create_observation x now)"
  "preserves own_journal (update_observation x now)"
  "preserves own_journal (delete_observation i now)"
  "preserves own_journal (upsert_topic_key x now)"
  unfolding create_observation_def update_observation_def delete_observation_def upsert_topic_key_def
  by (intro preserves_rules; blast)+

lemma preserves_own_service [preserves_rules]:
  "preserves own_journal (memory_save i now c md tk pr ty ti)"
  "preserves own_journal (memory_update i now c' md ty tk pr ti)"
  "preserves own_journal (save_event i now c dm key)"
  unfolding memory_save_def memory_update_def save_event_def
  by (intro preserves_rules)+

lemma own_journal_run: "own_journal s \<Longrightarrow> own_journal (snd (run_memory c s))"
proof (cases c)
  case (MPrompt c pr se ro mo pv)
  then show "own_journal s \<Longrightarrow> ?thesis"
    by (simp add: memory_save_prompt_def save_prompt_def Let_def own_journal_def)
next
  case (MMerge a b)
  have "me_sync (snd (merge_projects d ps x)) = me_sync x" for d ps x
    by (auto simp: merge_projects_def split: sum.splits prod.splits)
  with MMerge show "own_journal s \<Longrightarrow> ?thesis"
    by (auto simp: memory_merge_projects_def Let_def py_return_def own_journal_def)
qed (auto simp: memory_delete_def py_read_def intro: preservesD preserves_rules)

lemma own_journal_runs: "own_journal s \<Longrightarrow> own_journal (run_memory_calls cs s)"
  by (induction cs arbitrary: s) (simp_all add: own_journal_run)

lemma payload_observation_own:
  "payload_observation k (mutation_payload i x) = Inr y \<Longrightarrow>
     ob_timestamp y = 0 \<and> ob_project y = None \<and> ob_title y = None \<and> ob_revision_count y = 1
     \<and> ob_session_id y = JNull \<and> ob_id y = i \<and> ob_content y = ob_content x"
  by (auto simp: payload_observation_def mutation_payload_def post_init_def res_bind_Inr_iff)

lemma traverse_from: "traverse f xs = Inr ys \<Longrightarrow> y \<in> set ys \<Longrightarrow> \<exists>x \<in> set xs. f x = Inr y"
  by (induction xs arbitrary: ys) (auto simp: res_bind_Inr_iff)

text \<open>
  The journal entries the program writes hold neither time nor project, title, revision or session of
  an entry. Whatever calls made the journal: all entries an incremental export of observations finds in it
  have the time 0, no project, no title, revision 1 and no session.
\<close>

theorem incremental_export_loses_fields:
  assumes "reconstruct_from_mutations n project (me_sync (run_memory_calls cs empty_memory)) = Inr (xs, q)"
    and "x \<in> set xs"
  shows "ob_timestamp x = 0 \<and> ob_project x = None \<and> ob_title x = None \<and> ob_revision_count x = 1
         \<and> ob_session_id x = JNull"
proof -
  let ?s = "me_sync (run_memory_calls cs empty_memory)"
  have own: "own_journal (run_memory_calls cs empty_memory)"
    by (rule own_journal_runs) (simp add: own_journal_def empty_memory_def empty_sync_def)
  from assms(1) obtain ms where ms: "mutations_since n None ?s = Inr ms"
    "traverse_skip is_key_or_type_error (\<lambda>(k, d). payload_observation k d) (replay_payloads project ms []) = Inr xs"
    by (auto simp: reconstruct_from_mutations_def res_bind_Inr_iff)
  from traverse_skip_from [OF ms(2) assms(2)] obtain k d where
    kd: "(k, d) \<in> set (replay_payloads project ms [])" "payload_observation k d = Inr x" by auto
  then have "map_of (replay_payloads project ms []) k = Some d"
    using distinct_replay [of "[]" project ms] by simp
  with replay_from [of project ms "[]" k] obtain m where
    m: "find (\<lambda>m. sm_entity_key m = k \<and> counts_for project m) (rev ms) = Some m" "snapshot m = Some d"
    by (auto split: option.splits)
  have "m \<in> set ms" using find_Some_set [OF m(1)] by simp
  moreover have "set ms \<subseteq> set (sy_mutations ?s)"
  proof
    fix z assume "z \<in> set ms"
    with ms(1) show "z \<in> set (sy_mutations ?s)"
      by (auto simp: mutations_since_def Let_def dest!: traverse_from simp: make_mutation_Inr order_asc_def)
  qed
  ultimately have "own_payload m" using own by (auto simp: own_journal_def)
  with m(2) obtain i z where "d = mutation_payload i z"
    by (auto simp: own_payload_def snapshot_def split: if_splits state_file.splits)
  with kd(2) payload_observation_own show ?thesis by blast
qed

theorem incremental_export_loses_fields_witness:
  "\<exists>xs q. reconstruct_from_mutations 0 None (me_sync (run_memory_calls journal_calls empty_memory)) = Inr (xs, q)
     \<and> xs \<noteq> [] \<and> (\<forall>x \<in> set xs. ob_timestamp x = 0)"
proof -
  let ?r = "reconstruct_from_mutations 0 None (me_sync (run_memory_calls journal_calls empty_memory))"
  have "(case ?r of Inr (xs, q) \<Rightarrow> xs \<noteq> [] | _ \<Rightarrow> False)" by code_simp
  then obtain xs q where "?r = Inr (xs, q)" "xs \<noteq> []" by (auto split: sum.splits prod.splits)
  with incremental_export_loses_fields show ?thesis by blast
qed

section \<open>Manifests\<close>

lemma map_of_dict_set_same [simp]: "map_of (dict_set k v kvs) k = Some v"
  by (simp add: map_of_dict_set)

text \<open>
  The manifest an export of mutations writes is accepted for its chunks, in whatever order they are
  given, as long as there are at most a thousand of them: beyond that the order of the names is not the
  order of writing.
\<close>

theorem exported_manifest_validates:
  assumes "journal_ok (me_sync (sw_store w))" "0 < csize"
    and "export_incremental cfg csize commit now w = (Inr paths, w')" "paths \<noteq> []"
    and "length (pending (me_sync (sw_store w))) \<le> 1000 * nat csize" "mset given = mset paths"
  shows "validate_manifest cfg given (Some (manifest_path cfg now)) w' = Inr True"
proof -
  let ?ms = "pending (me_sync (sw_store w))"
  let ?n = "(length ?ms + nat csize - 1) div nat csize"
  let ?p = "chunk_path cfg ''mutation'' now"
  let ?f = "\<lambda>i. map mutation_line (batch_of (nat csize) ?ms i)"
  have some: "?ms \<noteq> []" using assms(3,4) export_incremental_none [OF assms(1)] by auto
  with export_incremental_some [OF assms(1) _ assms(2)] assms(3) have
    w': "w' = exported_world cfg csize commit now w" and paths: "paths = map ?p [0..<?n]" by auto
  have "?n \<le> (1000 * nat csize + nat csize - 1) div nat csize"
    using assms(5) by (intro div_le_mono) linarith
  also have "\<dots> = 1000 + (nat csize - 1) div nat csize"
    using assms(2) by (metis Nat.add_diff_assoc One_nat_def Suc_leI add.commute div_mult_self1 less_numeral_extra(3) zero_less_nat_eq mult.commute)
  finally have n: "?n \<le> 1000" using assms(2) by simp
  have "sort given = sort paths" using assms(6) by (metis sorted_list_of_multiset_mset)
  then have sorted: "sort given = map ?p [0..<?n]" unfolding paths using sort_chunk_paths [OF n] by simp
  have chunks: "sw_chunks w' = write_all cfg ?p ?f [0..<?n] (sw_chunks w)"
    by (simp add: w' exported_world_def Let_def)
  have there: "\<forall>x \<in> set [0..<?n]. path_exists w' (?p x)"
    using map_of_write_all [of ?p] by (simp add: path_exists_def chunks)
  have "filter (path_exists w') (map ?p [0..<?n]) = map ?p [0..<?n]"
    using there by (simp only: filter_id_conv) auto
  moreover have "traverse (\<lambda>i. read_bytes (?p i) w') [0..<?n]
      = Inr (map (\<lambda>i. gz_bytes (sv_codec cfg) (?p i) (?f i)) [0..<?n])"
    using read_bytes_write_all [of ?p, OF _ _ chunks] by (intro traverse_Inr) simp
  ultimately have actual: "actual_checksum cfg given w'
      = Inr (checksum_of cfg (map (\<lambda>i. gz_bytes (sv_codec cfg) (?p i) (?f i)) [0..<?n]))"
    by (simp add: actual_checksum_def sorted traverse_map)
  have "map_of (sw_manifests w') (manifest_path cfg now)
      = Some (Holds (manifest_json cfg (map ?p [0..<?n]) (map (\<lambda>i. gz_bytes (sv_codec cfg) (?p i) (?f i)) [0..<?n])
          (int (length ?ms)) now))"
    by (simp add: w' exported_world_def Let_def)
  then show ?thesis
    using actual by (simp add: validate_manifest_def manifest_json_def checksum_of_def starts_with_def)
qed

theorem exported_manifest_validates_witness:
  "\<exists>a b c w'. export_incremental sample_sync_config 2 False 10 journal_world = (Inr [a, b, c], w')
     \<and> validate_manifest sample_sync_config [c, a, b] (Some (manifest_path sample_sync_config 10)) w' = Inr True"
proof -
  let ?m = "export_incremental sample_sync_config 2 False 10 journal_world"
  have "(case fst ?m of Inr [a, b, c] \<Rightarrow> True | _ \<Rightarrow> False)" by code_simp
  then obtain a b c w' where m: "?m = (Inr [a, b, c], w')"
    by (cases ?m) (auto split: sum.splits list.splits)
  have "length (pending (me_sync (sw_store journal_world))) = 5" by code_simp
  with exported_manifest_validates [OF journal_world_ok _ m, of "[c, a, b]"] m show ?thesis by simp
qed

section \<open>Importing again\<close>

text \<open>Chunks that are known stay known, and the files are only read.\<close>

definition keeps_known :: "sync_world \<Rightarrow> sync_world \<Rightarrow> bool" where
  "keeps_known v w \<longleftrightarrow>
     sw_chunks w = sw_chunks v \<and> sw_manifests w = sw_manifests v \<and> \<not> me_recording (sw_store w)
     \<and> (\<forall>i c. get_chunk_by_id i (me_sync (sw_store v)) = Inr (Some c)
              \<longrightarrow> get_chunk_by_id i (me_sync (sw_store w)) = Inr (Some c))"

lemma keeps_known_trans: "keeps_known u v \<Longrightarrow> keeps_known v w \<Longrightarrow> keeps_known u w"
  by (simp add: keeps_known_def)

lemma on_store_import_keeps:
  "\<not> me_recording (sw_store w) \<Longrightarrow> on_store (import_lines now ls n) w = (r, w') \<Longrightarrow> keeps_known w w'"
proof -
  assume h: "\<not> me_recording (sw_store w)" "on_store (import_lines now ls n) w = (r, w')"
  have "silent (me_sync (sw_store w)) (snd (import_lines now ls n (sw_store w)))"
    using preserves_silent_import_lines by (rule preservesD) (simp add: silent_def h(1))
  with h(2) show ?thesis by (auto simp: run_in_def keeps_known_def silent_def split: prod.splits)
qed

lemma import_single_keeps:
  "\<not> me_recording (sw_store w) \<Longrightarrow> import_single_chunk now p w = (Inr k, w') \<Longrightarrow> keeps_known w w'"
  using on_store_import_keeps
  by (auto simp: import_single_chunk_def py_simps py_bind_Inr_iff raise_broken_def keeps_known_def
      split: option.splits file_state.splits)

lemma make_chunk_Inr: "make_chunk c = Inr x \<Longrightarrow> x = c"
  by (simp add: make_chunk_def split: if_splits)

lemma note_chunk_keeps:
  assumes "\<not> me_recording (sw_store w)" "note_chunk cfg source p n now w = (Inr u, w')"
  shows "keeps_known w w' \<and> (\<exists>c. get_chunk_by_id (chunk_id_of p) (me_sync (sw_store w')) = Inr (Some c))"
proof -
  from assms(2) obtain sum c where c: "make_chunk \<lparr>sc_id = chunk_id_of p, sc_source = source, sc_imported_at = now,
      sc_observation_count = n, sc_checksum = sum\<rparr> = Inr c" "on_sync (record_chunk c) w = (Inr u, w')"
    by (auto simp: note_chunk_def py_simps split: sum.splits)
  then have id: "sc_id c = chunk_id_of p" "make_chunk c = Inr c" using make_chunk_Inr by fastforce+
  with c(2) have w': "sc_id c \<notin> sc_id ` set (sy_chunks (me_sync (sw_store w)))"
    "w' = w\<lparr>sw_store := (sw_store w)\<lparr>me_sync := (me_sync (sw_store w))
        \<lparr>sy_chunks := sy_chunks (me_sync (sw_store w)) @ [c]\<rparr>\<rparr>\<rparr>"
    by (auto simp: run_in_def record_chunk_def split: if_splits)
  then have "lookup_row sc_id (chunk_id_of p) (sy_chunks (me_sync (sw_store w))) = None"
    using id by (simp add: lookup_row_None)
  then show ?thesis
    using w'(2) id assms(1)
    by (auto simp: keeps_known_def get_chunk_by_id_def lookup_append1 split: option.splits)
qed

definition known_chunk :: "sync_world \<Rightarrow> file_path \<Rightarrow> bool" where
  "known_chunk w p \<longleftrightarrow> (\<exists>c. get_chunk_by_id (chunk_id_of p) (me_sync (sw_store w)) = Inr (Some c))"

lemma import_chunks_known:
  assumes "import_chunks cfg source now ps n w = (Inr k, w')" "\<not> me_recording (sw_store w)"
  shows "keeps_known w w' \<and> (\<forall>p \<in> set ps. path_exists w p \<longrightarrow> known_chunk w' p)"
  using assms
proof (induction ps arbitrary: n w)
  case Nil
  then show ?case by (simp add: py_simps keeps_known_def)
next
  case (Cons p ps)
  show ?case
  proof (cases "path_exists w p")
    case False
    with Cons.prems(1) have "import_chunks cfg source now ps n w = (Inr k, w')" by (simp add: py_simps)
    with Cons.IH [OF this Cons.prems(2)] False show ?thesis by simp
  next
    case True
    with Cons.prems(1) obtain known where known: "get_chunk_by_id (chunk_id_of p) (me_sync (sw_store w)) = Inr known"
      by (auto simp: py_simps split: sum.splits)
    show ?thesis
    proof (cases known)
      case (Some c)
      with Cons.prems(1) True known have "import_chunks cfg source now ps n w = (Inr k, w')" by (simp add: py_simps)
      from Cons.IH [OF this Cons.prems(2)] known Some show ?thesis by (auto simp: known_chunk_def keeps_known_def)
    next
      case None
      with Cons.prems(1) True known obtain j w1 u w2 where
        one: "import_single_chunk now p w = (Inr j, w1)" "note_chunk cfg source p j now w1 = (Inr u, w2)"
        "import_chunks cfg source now ps (n + j) w2 = (Inr k, w')"
        by (auto simp: py_simps py_bind_Inr_iff)
      have k1: "keeps_known w w1" using import_single_keeps [OF Cons.prems(2) one(1)] .
      then have "\<not> me_recording (sw_store w1)" by (simp add: keeps_known_def)
      from note_chunk_keeps [OF this one(2)] have k2: "keeps_known w1 w2" "known_chunk w2 p"
        by (auto simp: known_chunk_def)
      then have "\<not> me_recording (sw_store w2)" by (simp add: keeps_known_def)
      from Cons.IH [OF one(3) this] have k3: "keeps_known w2 w'"
        "\<forall>q \<in> set ps. path_exists w2 q \<longrightarrow> known_chunk w' q" by auto
      have "keeps_known w w'" using keeps_known_trans k1 k2(1) k3(1) by blast
      moreover have "path_exists w2 q = path_exists w q" for q
        using k1 k2(1) by (simp add: keeps_known_def path_exists_def)
      moreover have "known_chunk w' p" using k2(2) k3(1) by (auto simp: known_chunk_def keeps_known_def)
      ultimately show ?thesis using k3(2) by simp
    qed
  qed
qed

lemma import_chunks_nothing:
  "\<forall>p \<in> set ps. path_exists w p \<longrightarrow> known_chunk w p \<Longrightarrow> import_chunks cfg source now ps n w = (Inr n, w)"
proof (induction ps)
  case (Cons p ps)
  show ?case
  proof (cases "path_exists w p")
    case True
    with Cons.prems obtain c where "get_chunk_by_id (chunk_id_of p) (me_sync (sw_store w)) = Inr (Some c)"
      by (auto simp: known_chunk_def)
    with True Cons show ?thesis by (simp add: py_simps)
  qed (use Cons in \<open>simp add: py_simps\<close>)
qed (simp add: py_simps)

lemma validate_manifest_files:
  assumes "sw_chunks w = sw_chunks v" "sw_manifests w = sw_manifests v"
  shows "validate_manifest cfg ps m w = validate_manifest cfg ps m v"
proof -
  have "path_exists w = path_exists v" "(\<lambda>p. read_bytes p w) = (\<lambda>p. read_bytes p v)"
    using assms by (simp_all add: path_exists_def read_bytes_def fun_eq_iff)
  then have "actual_checksum cfg ps w = actual_checksum cfg ps v" by (simp add: actual_checksum_def)
  then show ?thesis unfolding validate_manifest_def assms(2) by (simp only:)
qed

text \<open>
  C14: importing files of observations a second time, with the same or no manifest and at any time, adds
  nothing, changes nothing and succeeds, when the first import did.
\<close>

theorem import_is_idempotent:
  assumes "import_observations cfg paths source manifest now w = (Inr n, w')"
  shows "import_observations cfg paths source2 manifest now2 w' = (Inr 0, w')"
proof -
  let ?off = "\<lambda>w. w\<lparr>sw_store := disable_mutation_recording (sw_store w)\<rparr>"
  let ?on = "\<lambda>w. w\<lparr>sw_store := enable_mutation_recording (sw_store w)\<rparr>"
  from assms obtain b v where v: "validate_manifest cfg paths manifest w = Inr b"
    "import_chunks cfg source now paths 0 (?off w) = (Inr n, v)"
    "(if n > 0 then on_sync (update_status None (Some now) None None) else py_return ()) (?on v) = (Inr (), w')"
    by (auto simp: import_observations_def py_simps py_bind_Inr_iff without_recording_def py_finally_def
        split: sum.splits prod.splits)
  have off: "\<not> me_recording (sw_store (?off w))" by (simp add: disable_mutation_recording_def)
  from import_chunks_known [OF v(2) off] have known: "keeps_known (?off w) v"
    "\<forall>p \<in> set paths. path_exists (?off w) p \<longrightarrow> known_chunk v p" by auto
  have w': "sw_chunks w' = sw_chunks v" "sw_manifests w' = sw_manifests v" "me_recording (sw_store w')"
    "sy_chunks (me_sync (sw_store w')) = sy_chunks (me_sync (sw_store v))"
    using v(3) by (auto simp: run_in_def update_status_def enable_mutation_recording_def py_return_def split: if_splits)
  have files: "sw_chunks w' = sw_chunks w" "sw_manifests w' = sw_manifests w"
    using known(1) w'(1,2) by (simp_all add: keeps_known_def)
  have same: "path_exists (?off w') p = path_exists (?off w) p" "known_chunk (?off w') p = known_chunk v p" for p
    using files w'(4)
    by (simp_all add: path_exists_def known_chunk_def get_chunk_by_id_def disable_mutation_recording_def)
  have "import_chunks cfg source2 now2 paths 0 (?off w') = (Inr 0, ?off w')"
    by (rule import_chunks_nothing) (simp add: same known(2))
  moreover have "?on (?off w') = w'"
    using w'(3) by (cases w'; cases "sw_store w'") (simp add: enable_mutation_recording_def disable_mutation_recording_def)
  ultimately show ?thesis
    using v(1) validate_manifest_files [OF files, of cfg paths manifest]
    by (simp add: import_observations_def py_simps py_bind_def without_recording_def py_finally_def py_return_def)
qed

end
