(* ===== verification/Sync_Transfer.thy ===== *)
theory Sync_Transfer
  imports Sync_Properties
begin

text \<open>
  Lemmas on what an import makes of the files an export wrote: the ids of chunk files, the entry a line is
  read back as, and imports as functions of the rows alone.
\<close>

section \<open>Ids of chunk files\<close>

lemma digit_not_dot: "d < 10 \<Longrightarrow> digit_char d \<noteq> CHR ''.''"
proof
  assume d: "d < 10" "digit_char d = CHR ''.''"
  then have "(of_char (digit_char d) :: nat) = 46" by simp
  with d(1) show False by (simp add: of_char_digit)
qed

lemma no_dot_show_nat: "CHR ''.'' \<notin> set (show_nat n)"
proof (induction n rule: show_nat.induct)
  case (1 n)
  have "digit_char (n mod 10) \<noteq> CHR ''.''" by (rule digit_not_dot) simp
  moreover have "n < 10 \<Longrightarrow> digit_char n \<noteq> CHR ''.''" by (rule digit_not_dot)
  ultimately show ?case using 1 by (subst show_nat.simps) auto
qed

lemma no_dot_show_int: "CHR ''.'' \<notin> set (show_int i)"
  by (simp add: show_int_def no_dot_show_nat)

lemma no_dot_pad3: "CHR ''.'' \<notin> set (pad3 i)"
  by (simp add: pad3_def no_dot_show_nat)

lemma py_replace_suffix: "CHR ''.'' \<notin> set s \<Longrightarrow> py_replace ''.jsonl'' [] (s @ ''.jsonl'') = s"
  by (induction s) (auto simp: starts_with_def)

lemma path_stem_gz: "s \<noteq> [] \<Longrightarrow> path_stem (s @ ''.jsonl.gz'') = s @ ''.jsonl''"
  by (simp add: path_stem_def Let_def)

lemma chunk_id_of_path:
  assumes "CHR ''.'' \<notin> set kind"
  shows "chunk_id_of (chunk_path cfg kind ts i) = kind @ ''_'' @ show_int ts @ ''_'' @ pad3 i"
proof -
  let ?s = "kind @ ''_'' @ show_int ts @ ''_'' @ pad3 i"
  have "CHR ''.'' \<notin> set ?s" using assms no_dot_show_int no_dot_pad3 by simp
  moreover have "path_stem (?s @ ''.jsonl.gz'') = ?s @ ''.jsonl''" by (rule path_stem_gz) simp
  ultimately show ?thesis
    using py_replace_suffix [of ?s] by (simp add: chunk_id_of_def chunk_path_def)
qed

lemma chunk_id_inject:
  "CHR ''.'' \<notin> set kind \<Longrightarrow>
     chunk_id_of (chunk_path cfg kind ts i) = chunk_id_of (chunk_path cfg kind ts j) \<longleftrightarrow> i = j"
  by (simp add: chunk_id_of_path)

section \<open>Sorting\<close>

lemma sort_key_eqI:
  assumes "mset ys = mset xs" "sorted (map f ys)"
    and "\<And>k. filter (\<lambda>x. f x = k) ys = filter (\<lambda>x. f x = k) xs"
  shows "sort_key f xs = ys"
proof (rule properties_for_sort_key)
  show "mset ys = mset xs" by (rule assms(1))
  show "sorted (map f ys)" by (rule assms(2))
  fix k
  have "(\<lambda>x. f k = f x) = (\<lambda>x. f x = f k)" by auto
  then show "filter (\<lambda>x. f k = f x) ys = filter (\<lambda>x. f k = f x) xs" using assms(3) by simp
qed

lemma filter_sort_key: "filter (\<lambda>x. f x = k) (sort_key f xs) = filter (\<lambda>x. f x = k) xs"
  by (rule sort_key_stable)

lemma order_desc_asc: "order_desc f (order_asc f xs) = order_desc f xs"
proof -
  have "sort_key f (rev (sort_key f xs)) = sort_key f (rev xs)"
    by (rule sort_key_eqI) (simp_all add: filter_sort_key rev_filter [symmetric])
  then show ?thesis by (simp add: order_desc_def order_asc_def)
qed

lemma order_desc_desc: "order_desc f (order_desc f xs) = order_desc f xs"
  by (simp add: order_desc_def sort_key_id_if_sorted)

lemma insort_key_map: "insort_key f (g x) (map g xs) = map g (insort_key (\<lambda>x. f (g x)) x xs)"
  by (induction xs) auto

lemma sort_key_map: "sort_key f (map g xs) = map g (sort_key (\<lambda>x. f (g x)) xs)"
  by (induction xs) (simp_all add: insort_key_map)

lemma order_desc_map: "order_desc f (map g xs) = map g (order_desc (\<lambda>x. f (g x)) xs)"
  by (simp add: order_desc_def rev_map sort_key_map)

lemma order_asc_map: "order_asc f (map g xs) = map g (order_asc (\<lambda>x. f (g x)) xs)"
  by (simp add: order_asc_def sort_key_map)

section \<open>An entry through a line and back\<close>

definition untitled :: "observation \<Rightarrow> observation" where
  "untitled x = x\<lparr>ob_title := None\<rparr>"

lemma line_observation_back:
  assumes "valid_observation x" "observation_line x = Line d p"
  shows "line_observation d = Inr (untitled x)"
proof -
  have d: "d = JObject [(''id'', JString (ob_id x)), (''timestamp'', JNumber (ob_timestamp x)),
       (''content'', JString (ob_content x)), (''metadata'', json_dict (ob_metadata x)),
       (''idempotency_key'', json_str (ob_idempotency_key x)), (''project'', json_str (ob_project x)),
       (''type'', json_str (ob_type x)), (''topic_key'', json_str (ob_topic_key x)),
       (''revision_count'', JNumber (ob_revision_count x)), (''session_id'', ob_session_id x)]"
    using assms(2) by (simp add: observation_line_def)
  have "valid_observation (untitled x)" using assms(1) by (simp add: valid_observation_def untitled_def)
  then have "post_init (raw_of (untitled x)) = Inr (untitled x)"
    using make_observation_valid by (simp add: make_observation_def)
  moreover have "import_type (json_str (ob_type x)) = Inr (json_str (ob_type x))"
    using assms(1) by (cases "ob_type x") (simp_all add: import_type_def valid_observation_def valid_type_def)
  ultimately show ?thesis
    by (simp add: d line_observation_def check_uuid_def raw_of_def untitled_def)
qed

text \<open>The row an imported entry becomes.\<close>

definition landed :: "observation \<Rightarrow> obs_row" where
  "landed x = obs_row_of (untitled x) (the (session_column (ob_session_id x)))"

lemma ob_id_landed [simp]: "ob_id (landed x) = ob_id x"
  by (simp add: landed_def obs_row_of_def untitled_def)

lemma not_conflicts_next:
  assumes "rows_ok (t @ r # us)"
  shows "ob_id r \<notin> ob_id ` set t \<and> \<not> conflicts r t"
proof -
  have "pk_ok ob_id (t @ r # us)" using assms by (simp add: rows_ok_def)
  then have id: "ob_id r \<notin> ob_id ` set t" by (auto simp: pk_ok_def)
  moreover have "\<not> (same_event r y \<or> same_topic r y)" if "y \<in> set t" for y
  proof
    assume "same_event r y \<or> same_topic r y"
    moreover have "r \<in> set (t @ r # us)" "y \<in> set (t @ r # us)" using that by simp_all
    ultimately have "r = y" using assms unfolding rows_ok_def by blast
    with that id show False by simp
  qed
  ultimately show ?thesis by (auto simp: conflicts_iff)
qed

lemma import_line_lands:
  assumes "valid_observation x" "session_column (ob_session_id x) \<noteq> None" "\<not> me_recording s"
    and "ob_id x \<notin> ob_id ` set (me_rows s)" "\<not> conflicts (landed x) (me_rows s)"
  shows "import_line now (observation_line x) s = (Inr 1, s\<lparr>me_rows := me_rows s @ [landed x]\<rparr>)"
proof -
  obtain d p where l: "observation_line x = Line d p" by (simp add: observation_line_def)
  have "session_column (ob_session_id (untitled x)) = session_column (ob_session_id x)"
    "ob_id (untitled x) = ob_id x" by (simp_all add: untitled_def)
  then have "create_rows (untitled x) (me_rows s) = Inr (me_rows s @ [landed x])"
    using assms(2,4,5) by (auto simp: create_rows_def landed_def Let_def obs_row_of_def)
  then have "create_observation (untitled x) now s = (Inr (), s\<lparr>me_rows := me_rows s @ [landed x]\<rparr>)"
    using assms(3) by (simp add: create_run logged_def)
  then show ?thesis
    using line_observation_back [OF assms(1) l]
    by (simp add: l py_catch_def py_simps)
qed

lemma import_lines_land:
  assumes "\<forall>x \<in> set xs. valid_observation x \<and> session_column (ob_session_id x) \<noteq> None" "\<not> me_recording s"
    and "rows_ok (me_rows s @ map landed xs)"
  shows "import_lines now (map observation_line xs) n s
    = (Inr (n + int (length xs)), s\<lparr>me_rows := me_rows s @ map landed xs\<rparr>)"
  using assms
proof (induction xs arbitrary: n s)
  case (Cons x xs)
  have nc: "ob_id x \<notin> ob_id ` set (me_rows s)" "\<not> conflicts (landed x) (me_rows s)"
    using not_conflicts_next [of "me_rows s" "landed x" "map landed xs"] Cons.prems(3) by simp_all
  let ?s = "s\<lparr>me_rows := me_rows s @ [landed x]\<rparr>"
  have one: "import_line now (observation_line x) s = (Inr 1, ?s)"
    using Cons.prems(1,2) nc by (intro import_line_lands) simp_all
  have rest: "import_lines now (map observation_line xs) (n + 1) ?s
      = (Inr (n + 1 + int (length xs)), ?s\<lparr>me_rows := me_rows ?s @ map landed xs\<rparr>)"
    by (rule Cons.IH) (use Cons.prems in simp_all)
  show ?case using one rest by (simp add: py_bind_def)
qed (simp add: py_simps)

section \<open>Chunks of entries\<close>

text \<open>A chunk that can be read and is not known yet is imported and noted.\<close>

lemma note_chunk_run:
  assumes "read_bytes p w = Inr b" "source \<noteq> []" "0 \<le> now" "0 \<le> n" "chunk_id_of p \<noteq> []"
    and "chunk_id_of p \<notin> sc_id ` set (sy_chunks (me_sync (sw_store w)))"
  shows "\<exists>c. sc_id c = chunk_id_of p \<and> note_chunk cfg source p n now w = (Inr (), w\<lparr>sw_store := (sw_store w)
           \<lparr>me_sync := (me_sync (sw_store w))\<lparr>sy_chunks := sy_chunks (me_sync (sw_store w)) @ [c]\<rparr>\<rparr>\<rparr>)"
proof -
  let ?c = "\<lparr>sc_id = chunk_id_of p, sc_source = source, sc_imported_at = now, sc_observation_count = n,
    sc_checksum = checksum_of cfg [b]\<rparr>"
  have "make_chunk ?c = Inr ?c" using assms(2-5) by (simp add: make_chunk_def checksum_of_def)
  then have "note_chunk cfg source p n now w = (Inr (), w\<lparr>sw_store := (sw_store w)
      \<lparr>me_sync := (me_sync (sw_store w))\<lparr>sy_chunks := sy_chunks (me_sync (sw_store w)) @ [?c]\<rparr>\<rparr>\<rparr>)"
    using assms(1,6) by (simp add: note_chunk_def py_simps calculate_checksum_def run_in_def record_chunk_def)
  then show ?thesis by (intro exI [of _ ?c]) simp
qed

text \<open>A file of lines that can be read.\<close>

definition holds_lines :: "sync_world \<Rightarrow> file_path \<Rightarrow> chunk_line list \<Rightarrow> bool" where
  "holds_lines w p ls \<longleftrightarrow>
     (\<exists>b. map_of (sw_chunks w) p = Some (Chunk \<lparr>cf_bytes = b, cf_lines = ls, cf_broken = None\<rparr>))"

lemma rows_ok_prefix: "rows_ok (t @ us) \<Longrightarrow> rows_ok t"
  unfolding rows_ok_def by (auto simp: pk_ok_def)

lemma import_chunks_land:
  assumes "\<forall>i \<in> set is. holds_lines v (p i) (map observation_line (b i)) \<and> chunk_id_of (p i) \<noteq> []
             \<and> chunk_id_of (p i) \<notin> sc_id ` set (sy_chunks (me_sync (sw_store v)))"
    and "distinct (map (\<lambda>i. chunk_id_of (p i)) is)" "\<not> me_recording (sw_store v)" "source \<noteq> []" "0 \<le> now"
    and "\<forall>x \<in> set (concat (map b is)). valid_observation x \<and> session_column (ob_session_id x) \<noteq> None"
    and "rows_ok (me_rows (sw_store v) @ map landed (concat (map b is)))"
  shows "\<exists>v'. import_chunks cfg source now (map p is) n v = (Inr (n + int (length (concat (map b is)))), v')
    \<and> me_rows (sw_store v') = me_rows (sw_store v) @ map landed (concat (map b is))"
  using assms
proof (induction "is" arbitrary: n v)
  case Nil
  then show ?case by (simp add: py_simps)
next
  case (Cons i "is")
  let ?s = "sw_store v"
  from Cons.prems(1) obtain bytes where held: "map_of (sw_chunks v) (p i) =
      Some (Chunk \<lparr>cf_bytes = bytes, cf_lines = map observation_line (b i), cf_broken = None\<rparr>)"
    by (auto simp: holds_lines_def)
  have fresh: "chunk_id_of (p i) \<notin> sc_id ` set (sy_chunks (me_sync ?s))" "chunk_id_of (p i) \<noteq> []"
    using Cons.prems(1) by simp_all
  let ?v1 = "v\<lparr>sw_store := ?s\<lparr>me_rows := me_rows ?s @ map landed (b i)\<rparr>\<rparr>"
  have "rows_ok (me_rows ?s @ map landed (b i))"
    by (rule rows_ok_prefix [of _ "map landed (concat (map b is))"]) (use Cons.prems(7) in simp)
  then have "import_lines now (map observation_line (b i)) 0 ?s
      = (Inr (int (length (b i))), ?s\<lparr>me_rows := me_rows ?s @ map landed (b i)\<rparr>)"
    using import_lines_land [of "b i" ?s now 0] Cons.prems(3,6) by simp
  then have one: "import_single_chunk now (p i) v = (Inr (int (length (b i))), ?v1)"
    using held by (simp add: import_single_chunk_def py_simps py_bind_def run_in_def raise_broken_def py_return_def)
  have "read_bytes (p i) ?v1 = Inr bytes" using held by (simp add: read_bytes_def)
  from note_chunk_run [OF this Cons.prems(4,5), of "int (length (b i))" cfg] fresh obtain c where
    c: "sc_id c = chunk_id_of (p i)"
    "note_chunk cfg source (p i) (int (length (b i))) now ?v1 = (Inr (), ?v1\<lparr>sw_store := (sw_store ?v1)
       \<lparr>me_sync := (me_sync ?s)\<lparr>sy_chunks := sy_chunks (me_sync ?s) @ [c]\<rparr>\<rparr>\<rparr>)"
    by auto
  define v2 where "v2 = ?v1\<lparr>sw_store := (sw_store ?v1)
       \<lparr>me_sync := (me_sync ?s)\<lparr>sy_chunks := sy_chunks (me_sync ?s) @ [c]\<rparr>\<rparr>\<rparr>"
  have v2: "sw_chunks v2 = sw_chunks v" "me_rows (sw_store v2) = me_rows ?s @ map landed (b i)"
    "sy_chunks (me_sync (sw_store v2)) = sy_chunks (me_sync ?s) @ [c]" "\<not> me_recording (sw_store v2)"
    using Cons.prems(3) by (simp_all add: v2_def)
  have "\<exists>v'. import_chunks cfg source now (map p is) (n + int (length (b i))) v2
      = (Inr (n + int (length (b i)) + int (length (concat (map b is)))), v')
    \<and> me_rows (sw_store v') = me_rows (sw_store v2) @ map landed (concat (map b is))"
  proof (rule Cons.IH)
    show "\<forall>j \<in> set is. holds_lines v2 (p j) (map observation_line (b j)) \<and> chunk_id_of (p j) \<noteq> []
        \<and> chunk_id_of (p j) \<notin> sc_id ` set (sy_chunks (me_sync (sw_store v2)))"
    proof
      fix j assume j: "j \<in> set is"
      then have "chunk_id_of (p j) \<noteq> chunk_id_of (p i)" using Cons.prems(2) by (auto simp: image_iff)
      with j Cons.prems(1) c(1) show "holds_lines v2 (p j) (map observation_line (b j)) \<and> chunk_id_of (p j) \<noteq> []
          \<and> chunk_id_of (p j) \<notin> sc_id ` set (sy_chunks (me_sync (sw_store v2)))"
        by (simp add: v2 holds_lines_def)
    qed
  qed (use Cons.prems v2 in simp_all)
  then obtain v' where v': "import_chunks cfg source now (map p is) (n + int (length (b i))) v2
      = (Inr (n + int (length (b i)) + int (length (concat (map b is)))), v')"
    "me_rows (sw_store v') = me_rows (sw_store v2) @ map landed (concat (map b is))" by blast
  have "path_exists v (p i)" using held by (simp add: path_exists_def)
  moreover have "get_chunk_by_id (chunk_id_of (p i)) (me_sync ?s) = Inr None"
    using fresh(1) by (simp add: get_chunk_by_id_def lookup_row_None [THEN iffD2])
  ultimately have "import_chunks cfg source now (map p (i # is)) n v
      = import_chunks cfg source now (map p is) (n + int (length (b i))) v2"
    using one c(2) by (simp add: py_simps py_bind_def v2_def)
  with v' v2(2) show ?case by (intro exI [of _ v']) simp
qed

section \<open>Reading back what landed\<close>

lemma row_fields:
  assumes "row_to_observation r = Inr x" "row_ok r"
  shows "ob_metadata x = Some (row_entries r)" "ob_type x = row_type r (JObject (row_entries r))"
    "ob_session_id x = json_str (ob_session_id r)" "ob_idempotency_key x = ob_idempotency_key r"
    "ob_revision_count x = ob_revision_count r"
    "row_project r (JObject (row_entries r)) = Inr (json_str (ob_project x))"
proof -
  have rev: "ob_revision_count r \<noteq> 0" using assms(2) by (simp add: row_ok_def)
  from assms(1) obtain p where p: "row_project r (JObject (row_entries r)) = Inr p"
    "post_init \<lparr>rw_id = JString (ob_id r), rw_timestamp = JNumber (ob_timestamp r),
        rw_content = JString (ob_content r), rw_title = ob_title r, rw_metadata = JObject (row_entries r),
        rw_idempotency_key = json_str (ob_idempotency_key r), rw_project = p,
        rw_type = json_str (row_type r (JObject (row_entries r))), rw_topic_key = json_str (ob_topic_key r),
        rw_revision_count = JNumber (ob_revision_count r), rw_session_id = json_str (ob_session_id r)\<rparr> = Inr x"
    using row_metadata_ok [OF assms(2)] rev by (auto simp: row_to_observation_def res_bind_Inr_iff)
  then show "ob_metadata x = Some (row_entries r)" "ob_type x = row_type r (JObject (row_entries r))"
    "ob_session_id x = json_str (ob_session_id r)" "ob_idempotency_key x = ob_idempotency_key r"
    "ob_revision_count x = ob_revision_count r"
    "row_project r (JObject (row_entries r)) = Inr (json_str (ob_project x))"
    by (auto simp: post_init_def res_bind_Inr_iff as_opt_str_Inr)
qed

lemma known_type_id: "t \<in> set allowed_types \<Longrightarrow> known_type t = Some t"
  by (simp add: known_type_def)

lemma row_type_again:
  assumes "row_type r (JObject kvs) = t" "ob_type r' = t"
  shows "row_type r' (JObject kvs) = t"
proof (cases t)
  case (Some u)
  then have "valid_type (Some u)" using row_type_valid [of r "JObject kvs"] assms(1) by simp
  then show ?thesis using Some assms(2) by (simp add: row_type_def valid_type_def known_type_id)
next
  case None
  with assms show ?thesis by (auto simp: row_type_def split: option.splits json.splits)
qed

lemma landed_reads_back:
  assumes "row_to_observation r = Inr x" "row_ok r" "normalize_project (ob_project x) = ob_project x"
  shows "row_to_observation (landed x) = Inr (untitled x)"
proof -
  note f = row_fields [OF assms(1,2)]
  have valid: "valid_observation x" using assms(1) by (rule row_to_observation_valid)
  then have v: "valid_observation (untitled x)" by (simp add: valid_observation_def untitled_def)
  have ses: "the (session_column (ob_session_id x)) = ob_session_id r" by (cases "ob_session_id r") (simp_all add: f)
  have md: "row_metadata (landed x) = Inr (JObject (row_entries r))"
    by (simp add: row_metadata_def landed_def obs_row_of_def untitled_def f)
  have pr: "row_project (landed x) (JObject (row_entries r)) = Inr (json_str (ob_project x))"
  proof (cases "ob_project x")
    case None
    then have "row_project r (JObject (row_entries r)) = Inr JNull" using f(6) by simp
    then have "json_get (JObject (row_entries r)) ''project'' JNull = Inr JNull"
      by (auto simp: row_project_def split: option.splits list.splits)
    then show ?thesis
      using None by (simp add: row_project_def landed_def obs_row_of_def untitled_def normalize_project_def)
  next
    case (Some q)
    then have "q \<noteq> []" using valid by (auto simp: valid_observation_def valid_project_def py_strip_def)
    then obtain c cs where "q = c # cs" by (cases q) auto
    then show ?thesis
      using Some assms(3) by (simp add: row_project_def landed_def obs_row_of_def untitled_def)
  qed
  have ty: "row_type (landed x) (JObject (row_entries r)) = ob_type x"
    using row_type_again [OF f(2) [symmetric], of "landed x"] by (simp add: landed_def obs_row_of_def untitled_def)
  have "1 \<le> ob_revision_count x" using valid by (simp add: valid_observation_def)
  moreover have "post_init (raw_of (untitled x)) = Inr (untitled x)"
    using make_observation_valid [OF v] by (simp add: make_observation_def)
  ultimately show ?thesis
    by (simp add: row_to_observation_def md pr ty raw_of_def)
       (simp add: landed_def obs_row_of_def untitled_def f ses [unfolded f])
qed

section \<open>A full export\<close>

definition full_export_world :: "sync_config \<Rightarrow> observation list \<Rightarrow> int \<Rightarrow> int \<Rightarrow> sync_world \<Rightarrow> file_path list \<Rightarrow> sync_world \<Rightarrow> bool" where
  "full_export_world cfg xs csize now w paths w1 \<longleftrightarrow>
     (let is = [0..<(length xs + nat csize - 1) div nat csize] in
      paths = map (chunk_path cfg ''sync'' now) is
      \<and> sw_chunks w1 = write_all cfg (chunk_path cfg ''sync'' now)
          (\<lambda>i. map observation_line (batch_of (nat csize) xs i)) is (sw_chunks w))"

lemma int_batches: "0 < csize \<Longrightarrow> nat ((int n + csize - 1) div csize) = (n + nat csize - 1) div nat csize"
proof -
  assume c: "0 < csize"
  then obtain k where k: "csize = int k" "0 < k" by (metis zero_less_imp_eq_int)
  then have "int n + csize - 1 = int (n + k - 1)" by simp
  then have "(int n + csize - 1) div csize = int ((n + k - 1) div k)" by (simp only: k(1) zdiv_int)
  then show ?thesis by (simp add: k(1))
qed

lemma export_observations_full:
  assumes "journal_ok (me_sync (sw_store w))" "watermark (me_sync (sw_store w)) = 0" "0 < csize"
    and "get_all None None None None (me_rows (sw_store w)) = Inr xs" "xs \<noteq> []"
    and "export_observations cfg None csize now w = (r, w1)"
  shows "\<exists>paths. r = Inr paths \<and> full_export_world cfg (order_asc ob_timestamp xs) csize now w paths w1"
proof -
  let ?ys = "order_asc ob_timestamp xs"
  have len: "length ?ys = length xs" by (simp add: order_asc_def)
  let ?is = "[0..<(length xs + nat csize - 1) div nat csize]"
  let ?p = "chunk_path cfg ''sync'' now"
  let ?f = "\<lambda>i. map observation_line (batch_of (nat csize) ?ys i)"
  let ?g = "\<lambda>i. map observation_line
      (py_slice (int i * csize) (min ((int i + 1) * csize) (int (length ?ys))) ?ys)"
  let ?w = "w\<lparr>sw_chunks := write_all cfg ?p ?f ?is (sw_chunks w)\<rparr>"
  from journal_ok_status [OF assms(1)] assms(2) obtain x where
    x: "get_sync_status (me_sync (sw_store w)) = Inr x" "ss_last_export_seq x = 0" by auto
  have gf: "?g = ?f" using py_slice_batch [OF assms(3), of _ ?ys] by (intro ext) simp
  have "write_chunks cfg ?ys csize now ?is w = (Inr (map ?p ?is), ?w)"
    using write_chunks_run [of cfg ?ys csize now ?is w] unfolding gf .
  moreover have "\<exists>w2. write_manifest cfg (map ?p ?is) (int (length xs)) now ?w = (Inr (), w2) \<and> sw_chunks w2 = sw_chunks ?w"
    using write_manifest_run [of ?p ?w cfg ?f ?is] by simp
  ultimately show ?thesis
    using assms(3-6) x
    by (auto simp: export_observations_def observations_to_export_def or_empty_def py_simps py_bind_def len Let_def
        int_batches full_export_world_def run_in_def update_status_run py_return_def)
qed

lemma holds_write_all:
  assumes "\<And>i j. p i = p j \<Longrightarrow> i = j" "j \<in> set is" "sw_chunks w = write_all cfg p f is fs"
  shows "holds_lines w (p j) (f j)"
  using assms by (simp add: holds_lines_def map_of_write_all file_of_def)

end
