(* ===== verification/Replica_Properties.thy ===== *)
theory Replica_Properties
  imports Sync_Transfer
begin

text \<open>
  What another machine holds after it has imported the files of an export: the entries of a full export,
  and the rows the journal of mutations leads to.
\<close>

section \<open>Entries through a full export\<close>

lemma get_all_plain:
  "get_all None None None None t = traverse row_to_observation (order_desc ob_timestamp t)"
  by (simp add: get_all_def of_type_def in_project_def normalize_project_def)

lemma session_column_str [simp]: "session_column (json_str s) = Some s"
  by (cases s) simp_all

lemma exported_rows_ok:
  assumes "store_ok s" "get_all None None None None (me_rows s) = Inr xs"
    and "\<forall>x \<in> set xs. \<forall>y \<in> set xs. ob_topic_key x \<noteq> None \<and> ob_topic_key x = ob_topic_key y
           \<and> or_empty (normalize_project (ob_project x)) = or_empty (normalize_project (ob_project y)) \<longrightarrow> x = y"
  shows "rows_ok (map landed (order_asc ob_timestamp xs))"
proof -
  let ?rows = "order_desc ob_timestamp (me_rows s)"
  have tr: "traverse row_to_observation ?rows = Inr xs" using assms(2) by (simp add: get_all_plain)
  have ids: "map ob_id xs = map ob_id ?rows" by (rule traverse_map_fields [OF tr]) (rule row_to_observation_fields(1))
  have ok: "rows_ok (me_rows s)" "\<forall>r \<in> set (me_rows s). row_ok r" using assms(1) by (simp_all add: store_ok_def)
  have "distinct (map ob_id (me_rows s))" using ok(1) by (simp add: rows_ok_def pk_ok_def)
  then have "distinct (map ob_id xs)" unfolding ids by simp
  then have pk: "pk_ok ob_id (map landed (order_asc ob_timestamp xs))"
    by (simp add: pk_ok_def comp_def)
  have uniq: "x = y" if x: "x \<in> set xs" and y: "y \<in> set xs"
    and same: "same_event (landed x) (landed y) \<or> same_topic (landed x) (landed y)" for x y
  proof -
    from traverse_from [OF tr x] obtain rx where rx: "rx \<in> set (me_rows s)" "row_to_observation rx = Inr x" by auto
    from traverse_from [OF tr y] obtain ry where ry: "ry \<in> set (me_rows s)" "row_to_observation ry = Inr y" by auto
    have key: "ob_idempotency_key x = ob_idempotency_key rx" "ob_idempotency_key y = ob_idempotency_key ry"
      using row_fields(4) rx ry ok(2) by blast+
    from same show ?thesis
    proof
      assume "same_event (landed x) (landed y)"
      then have "same_event rx ry" by (simp add: same_event_def landed_def obs_row_of_def untitled_def key)
      with rx(1) ry(1) ok(1) have "rx = ry" unfolding rows_ok_def by blast
      with rx(2) ry(2) show ?thesis by simp
    next
      assume t: "same_topic (landed x) (landed y)"
      have "ob_topic_key x \<noteq> None \<and> ob_topic_key x = ob_topic_key y
          \<and> or_empty (normalize_project (ob_project x)) = or_empty (normalize_project (ob_project y))"
        using t by (auto simp: same_topic_def landed_def obs_row_of_def untitled_def)
      with x y assms(3) show ?thesis by blast
    qed
  qed
  have sets: "set (order_asc ob_timestamp xs) = set xs" by (simp add: order_asc_def)
  show ?thesis
    unfolding rows_ok_def
  proof (intro conjI ballI impI)
    fix a b
    assume "a \<in> set (map landed (order_asc ob_timestamp xs))" "b \<in> set (map landed (order_asc ob_timestamp xs))"
    then obtain x y where xy: "x \<in> set xs" "y \<in> set xs" "a = landed x" "b = landed y" by (auto simp: sets)
    assume "same_event a b \<or> same_topic a b"
    with uniq [OF xy(1,2)] show "a = b" unfolding xy(3,4) by blast
  qed (rule pk)
qed

text \<open>An import of the files of a full export into an empty store.\<close>

lemma import_full_export:
  assumes "sw_chunks v = write_all cfg (chunk_path cfg ''sync'' now) (\<lambda>i. map observation_line (batch_of k ys i)) is fs"
    and "is = [0..<(length ys + k - 1) div k]" "0 < k" "sw_store v = empty_memory"
    and "source \<noteq> []" "0 \<le> later" "ys \<noteq> []"
    and "\<forall>x \<in> set ys. valid_observation x \<and> session_column (ob_session_id x) \<noteq> None"
    and "rows_ok (map landed ys)"
  shows "\<exists>v'. import_observations cfg (map (chunk_path cfg ''sync'' now) is) source None later v
      = (Inr (int (length ys)), v') \<and> me_rows (sw_store v') = map landed ys"
proof -
  let ?p = "chunk_path cfg ''sync'' now" and ?b = "batch_of k ys"
  let ?v = "v\<lparr>sw_store := disable_mutation_recording (sw_store v)\<rparr>"
  have cat: "concat (map ?b is) = ys" unfolding assms(2) using concat_batches [of k ys] assms(3) by simp
  have held: "sw_chunks ?v = write_all cfg ?p (\<lambda>i. map observation_line (?b i)) is fs" using assms(1) by simp
  have "holds_lines ?v (?p i) (map observation_line (?b i))" if "i \<in> set is" for i
    by (rule holds_write_all [of ?p, OF _ that held]) simp
  then have files: "\<forall>i \<in> set is. holds_lines ?v (?p i) (map observation_line (?b i)) \<and> chunk_id_of (?p i) \<noteq> []
      \<and> chunk_id_of (?p i) \<notin> sc_id ` set (sy_chunks (me_sync (sw_store ?v)))"
    by (simp add: chunk_id_of_path)
       (simp add: assms(4) empty_memory_def empty_sync_def disable_mutation_recording_def)
  have ids: "distinct (map (\<lambda>i. chunk_id_of (?p i)) is)"
    by (simp add: assms(2) distinct_map inj_on_def chunk_id_inject)
  have none: "me_rows (sw_store ?v) = []"
    by (simp add: assms(4) empty_memory_def disable_mutation_recording_def)
  have "\<exists>v1. import_chunks cfg source later (map ?p is) 0 ?v = (Inr (0 + int (length (concat (map ?b is)))), v1)
      \<and> me_rows (sw_store v1) = me_rows (sw_store ?v) @ map landed (concat (map ?b is))"
    by (rule import_chunks_land [OF files ids])
       (use assms(5,6,8,9) in \<open>simp_all only: cat none append_Nil, simp_all add: disable_mutation_recording_def\<close>)
  then obtain v1 where "import_chunks cfg source later (map ?p is) 0 ?v = (Inr (int (length ys)), v1)"
    "me_rows (sw_store v1) = map landed ys"
    unfolding cat none by auto
  with assms(7) show ?thesis
    by (simp add: import_observations_def validate_manifest_def py_simps py_bind_def without_recording_def
        py_finally_def run_in_def update_status_def enable_mutation_recording_def py_return_def)
qed

lemma landed_listed:
  assumes "get_all None None None None t = Inr xs" "\<forall>r \<in> set t. row_ok r"
    and "\<forall>x \<in> set xs. normalize_project (ob_project x) = ob_project x"
  shows "get_all None None None None (map landed (order_asc ob_timestamp xs)) = Inr (map untitled xs)"
proof -
  have tr: "traverse row_to_observation (order_desc ob_timestamp t) = Inr xs"
    using assms(1) by (simp add: get_all_plain)
  have "sorted (map ob_timestamp (rev xs))" using get_all_sorted [OF assms(1)] by (simp add: rev_map)
  then have "order_desc ob_timestamp xs = xs" by (simp add: order_desc_def sort_key_id_if_sorted)
  moreover have "ob_timestamp (landed x) = ob_timestamp x" for x by (simp add: landed_def obs_row_of_def untitled_def)
  ultimately have "order_desc ob_timestamp (map landed (order_asc ob_timestamp xs)) = map landed xs"
    by (simp add: order_desc_map order_desc_asc)
  moreover have "traverse row_to_observation (map landed xs) = Inr (map untitled xs)"
    unfolding traverse_map using traverse_from [OF tr] assms(2,3) landed_reads_back
    by (intro traverse_Inr) (metis set_order_desc)
  ultimately show ?thesis by (simp add: get_all_plain)
qed

text \<open>
  C11: exporting all entries of a store in order and importing the files into an empty store elsewhere
  gives a store that lists the same entries in the same order, except that their titles are gone: chunks
  do not hold them. The project names have to be in normal form, and no two entries may share topic key
  and project.
\<close>

theorem observations_roundtrip:
  assumes "store_ok (sw_store w)" "watermark (me_sync (sw_store w)) = 0" "0 < csize"
    and "get_all None None None None (me_rows (sw_store w)) = Inr xs" "xs \<noteq> []"
    and "\<forall>x \<in> set xs. normalize_project (ob_project x) = ob_project x"
    and "\<forall>x \<in> set xs. \<forall>y \<in> set xs. ob_topic_key x \<noteq> None \<and> ob_topic_key x = ob_topic_key y
           \<and> or_empty (ob_project x) = or_empty (ob_project y) \<longrightarrow> x = y"
    and "sw_chunks v = sw_chunks (snd (export_observations cfg None csize now w))" "sw_store v = empty_memory"
    and "source \<noteq> []" "0 \<le> later"
  shows "\<exists>paths v'. fst (export_observations cfg None csize now w) = Inr paths
    \<and> import_observations cfg paths source None later v = (Inr (int (length xs)), v')
    \<and> get_all None None None None (me_rows (sw_store v')) = Inr (map (\<lambda>x. x\<lparr>ob_title := None\<rparr>) xs)"
proof -
  let ?ys = "order_asc ob_timestamp xs"
  let ?is = "[0..<(length ?ys + nat csize - 1) div nat csize]"
  let ?f = "\<lambda>i. map observation_line (batch_of (nat csize) ?ys i)"
  obtain r w1 where e: "export_observations cfg None csize now w = (r, w1)" by (meson surj_pair)
  have ok: "journal_ok (me_sync (sw_store w))" "\<forall>r \<in> set (me_rows (sw_store w)). row_ok r"
    using assms(1) by (simp_all add: store_ok_def)
  from export_observations_full [OF ok(1) assms(2-5) e] obtain paths where
    paths: "r = Inr paths" "paths = map (chunk_path cfg ''sync'' now) ?is"
    "sw_chunks w1 = write_all cfg (chunk_path cfg ''sync'' now) ?f ?is (sw_chunks w)"
    by (auto simp: full_export_world_def Let_def)
  have tr: "traverse row_to_observation (order_desc ob_timestamp (me_rows (sw_store w))) = Inr xs"
    using assms(4) by (simp add: get_all_plain)
  have good: "valid_observation x \<and> session_column (ob_session_id x) \<noteq> None" if x: "x \<in> set xs" for x
  proof -
    from traverse_from [OF tr x] ok(2) obtain r where "row_to_observation r = Inr x" "row_ok r" by auto
    then show ?thesis using row_to_observation_valid row_fields(3) by simp
  qed
  have rows: "rows_ok (map landed ?ys)"
    by (rule exported_rows_ok [OF assms(1,4)]) (use assms(6,7) in simp)
  have "\<exists>v'. import_observations cfg (map (chunk_path cfg ''sync'' now) ?is) source None later v
      = (Inr (int (length ?ys)), v') \<and> me_rows (sw_store v') = map landed ?ys"
  proof (rule import_full_export [of v cfg now "nat csize" ?ys ?is "sw_chunks w"])
    have "length ?ys = length xs" by (simp add: order_asc_def)
    with assms(5) show "?ys \<noteq> []" by auto
    show "sw_chunks v = write_all cfg (chunk_path cfg ''sync'' now) ?f ?is (sw_chunks w)"
      using assms(8) e paths(3) by simp
  qed (use assms(3,9-11) good rows in simp_all)
  then obtain v' where "import_observations cfg paths source None later v = (Inr (int (length xs)), v')"
    "me_rows (sw_store v') = map landed ?ys"
    by (auto simp: paths(2) order_asc_def)
  moreover have "untitled = (\<lambda>x. x\<lparr>ob_title := None\<rparr>)" by (simp add: untitled_def fun_eq_iff)
  ultimately show ?thesis using landed_listed [OF assms(4) ok(2) assms(6)] e paths(1) by auto
qed

text \<open>A store with three entries, one of them under a topic key, and an empty store that gets its files.\<close>

definition entry_calls :: "memory_call list" where
  "entry_calls =
     [MSave ''a'' 5 ''x'' None None (Some ''p'') None (Some ''first''),
      MSave ''b'' 6 ''y'' None (Some ''k'') (Some ''p'') None None,
      MSave ''c'' 6 ''z'' None None None None None]"

definition entry_store :: memory_store where
  "entry_store = run_memory_calls entry_calls empty_memory"

definition entry_files :: sync_world where
  "entry_files = snd (export_observations sample_sync_config None 2 10 (world_of entry_store))"

definition replica_world :: sync_world where
  "replica_world = entry_files\<lparr>sw_store := empty_memory\<rparr>"

lemma entry_store_ok: "store_ok entry_store"
  unfolding entry_store_def
  by (rule run_memory_calls_ok [OF store_ok_empty]) (simp add: entry_calls_def)

theorem observations_roundtrip_witness:
  "\<exists>xs paths v'. length xs = 3
     \<and> import_observations sample_sync_config paths ''other'' None 20 replica_world = (Inr 3, v')
     \<and> get_all None None None None (me_rows (sw_store v')) = Inr (map (\<lambda>x. x\<lparr>ob_title := None\<rparr>) xs)"
proof -
  let ?r = "get_all None None None None (me_rows (sw_store (world_of entry_store)))"
  have "(case ?r of Inr xs \<Rightarrow> length xs = 3
      \<and> (\<forall>x \<in> set xs. normalize_project (ob_project x) = ob_project x)
      \<and> (\<forall>x \<in> set xs. \<forall>y \<in> set xs. ob_topic_key x \<noteq> None \<and> ob_topic_key x = ob_topic_key y
           \<and> or_empty (ob_project x) = or_empty (ob_project y) \<longrightarrow> x = y) | _ \<Rightarrow> False)"
    by code_simp
  then obtain xs where xs: "?r = Inr xs" "length xs = 3"
    "\<forall>x \<in> set xs. normalize_project (ob_project x) = ob_project x"
    "\<forall>x \<in> set xs. \<forall>y \<in> set xs. ob_topic_key x \<noteq> None \<and> ob_topic_key x = ob_topic_key y
       \<and> or_empty (ob_project x) = or_empty (ob_project y) \<longrightarrow> x = y"
    by (auto split: sum.splits) 
  have "watermark (me_sync (sw_store (world_of entry_store))) = 0" by code_simp
  moreover have "store_ok (sw_store (world_of entry_store))" using entry_store_ok by (simp add: world_of_def)
  moreover have "sw_chunks replica_world
      = sw_chunks (snd (export_observations sample_sync_config None 2 10 (world_of entry_store)))"
    "sw_store replica_world = empty_memory"
    by (simp_all add: replica_world_def entry_files_def)
  ultimately show ?thesis
    using observations_roundtrip [of "world_of entry_store" 2 xs replica_world sample_sync_config 10 "''other''" 20] xs
    by force
qed

theorem import_is_idempotent_witness:
  "\<exists>v. import_observations sample_sync_config [chunk_path sample_sync_config ''sync'' 10 0] ''other'' None 20 replica_world
       = (Inr 2, v)
     \<and> import_observations sample_sync_config [chunk_path sample_sync_config ''sync'' 10 0] ''third'' None 30 v = (Inr 0, v)"
proof -
  let ?m = "import_observations sample_sync_config [chunk_path sample_sync_config ''sync'' 10 0] ''other'' None 20 replica_world"
  have "(case fst ?m of Inr n \<Rightarrow> n = 2 | _ \<Rightarrow> False)" by code_simp
  then obtain v where "?m = (Inr 2, v)" by (cases ?m) (auto split: sum.splits)
  with import_is_idempotent [OF this] show ?thesis by blast
qed

end
