(* ===== verification/Message_Store.thy ===== *)
theory Message_Store
  imports Json Py_Strings Sql_Table "HOL-Library.Char_ord" "HOL-Library.List_Lexorder"
    "HOL-Library.Product_Lexorder"
begin

text \<open>
  Messages between agents (src/domain/entities/message.py) and their table
  (src/infrastructure/persistence/message_store.py): saving with its two cleanups, the listings, the read
  mark and the deletes. The clock and the fresh id are arguments.
\<close>

section \<open>The entity\<close>

datatype message_type = COMMAND | REPLY | HANDOFF | PROGRESS | FILE_TOUCHED | OBSERVATION

fun message_type_name :: "message_type \<Rightarrow> string" where
  "message_type_name COMMAND = ''COMMAND''"
| "message_type_name REPLY = ''REPLY''"
| "message_type_name HANDOFF = ''HANDOFF''"
| "message_type_name PROGRESS = ''PROGRESS''"
| "message_type_name FILE_TOUCHED = ''FILE_TOUCHED''"
| "message_type_name OBSERVATION = ''OBSERVATION''"

text \<open>\<open>MessageType[name]\<close>: the member of that name, if there is one.\<close>

definition message_type_of :: "string \<Rightarrow> message_type option" where
  "message_type_of s =
     find (\<lambda>t. message_type_name t = s) [COMMAND, REPLY, HANDOFF, PROGRESS, FILE_TOUCHED, OBSERVATION]"

lemma message_type_of_name [simp]: "message_type_of (message_type_name t) = Some t"
  by (cases t) (simp_all add: message_type_of_def)

record agent_message =
  am_id :: string
  am_from :: string
  am_to :: string
  am_type :: message_type
  am_payload :: string
  am_created_at :: int
  am_correlation :: "string option"

definition create_message ::
  "string \<Rightarrow> int \<Rightarrow> string \<Rightarrow> string \<Rightarrow> message_type \<Rightarrow> string \<Rightarrow> string option \<Rightarrow> agent_message" where
  "create_message new_id now from_agent to_agent t payload correlation =
     \<lparr>am_id = new_id, am_from = from_agent, am_to = to_agent, am_type = t, am_payload = payload,
      am_created_at = now, am_correlation = correlation\<rparr>"

section \<open>The table\<close>

record message_row =
  mr_id :: string
  mr_from :: string
  mr_to :: string
  mr_type :: string
  mr_payload :: string
  mr_correlation :: "string option"
  mr_created_at :: int
  mr_expires_at :: int
  mr_retry_count :: int
  mr_is_read :: bool

type_synonym message_table = "message_row list"

definition default_message_ttl_ms :: int where
  "default_message_ttl_ms = 24 * 60 * 60 * 1000"

definition max_total_messages :: int where
  "max_total_messages = 5000"

definition message_row_of :: "agent_message \<Rightarrow> message_row" where
  "message_row_of m =
     \<lparr>mr_id = am_id m, mr_from = am_from m, mr_to = am_to m, mr_type = message_type_name (am_type m),
      mr_payload = am_payload m, mr_correlation = am_correlation m, mr_created_at = am_created_at m,
      mr_expires_at = am_created_at m + default_message_ttl_ms, mr_retry_count = 0, mr_is_read = False\<rparr>"

definition row_to_message :: "message_row \<Rightarrow> agent_message result" where
  "row_to_message r =
     (case message_type_of (mr_type r) of
        None \<Rightarrow> Inl (KeyError (quoted (mr_type r)))
      | Some t \<Rightarrow> Inr \<lparr>am_id = mr_id r, am_from = mr_from r, am_to = mr_to r, am_type = t,
          am_payload = mr_payload r, am_created_at = mr_created_at r, am_correlation = mr_correlation r\<rparr>)"

text \<open>The two deletes of \<open>cleanup_expired\<close>, and how many rows they hit.\<close>

definition message_expired :: "int \<Rightarrow> message_row \<Rightarrow> bool" where
  "message_expired now r \<longleftrightarrow> mr_expires_at r < now"

definition read_and_old :: "int \<Rightarrow> message_row \<Rightarrow> bool" where
  "read_and_old now r \<longleftrightarrow> mr_is_read r \<and> mr_created_at r < now - 5 * 60 * 1000"

definition cleanup_expired :: "int \<Rightarrow> (message_table, int) py" where
  "cleanup_expired now t =
     (let t1 = delete_where (message_expired now) t; t2 = delete_where (read_and_old now) t1
      in (Inr (int (length t - length t1) + int (length t1 - length t2)), t2))"

text \<open>
  The hard limit: the oldest rows are deleted until one is free. The statement and the insert after it are
  one transaction, which a violated primary key rolls back.
\<close>

definition prune_oldest :: "message_table \<Rightarrow> message_table" where
  "prune_oldest t =
     (let surplus = nat (max 0 (int (length t) - (max_total_messages - 1)));
          gone = map mr_id (take surplus (order_asc mr_created_at t))
      in delete_where (\<lambda>r. mr_id r \<in> set gone) t)"

definition insert_message :: "agent_message \<Rightarrow> (message_table, string) py" where
  "insert_message m t =
     (let t' = prune_oldest t
      in if am_id m \<in> mr_id ` set t'
         then (Inl (IntegrityError ''UNIQUE constraint failed: messages.id''), t)
         else (Inr (am_id m), t' @ [message_row_of m]))"

definition save_message :: "agent_message \<Rightarrow> int \<Rightarrow> (message_table, string) py" where
  "save_message m now = py_bind (cleanup_expired now) (\<lambda>_. insert_message m)"

definition newest_first :: "message_table \<Rightarrow> message_table" where
  "newest_first = order_desc (\<lambda>r. (mr_created_at r, mr_id r))"

definition get_for_agent :: "string \<Rightarrow> int \<Rightarrow> message_table \<Rightarrow> agent_message list result" where
  "get_for_agent agent limit t =
     traverse row_to_message (sql_limit limit (newest_first
       (filter (\<lambda>r. (mr_to r = agent \<or> mr_to r = ''*'') \<and> \<not> mr_is_read r) t)))"

definition get_history :: "string \<Rightarrow> int \<Rightarrow> message_table \<Rightarrow> agent_message list result" where
  "get_history agent limit t =
     traverse row_to_message (sql_limit limit (newest_first
       (filter (\<lambda>r. mr_from r = agent \<or> mr_to r = agent) t)))"

definition get_by_correlation :: "string \<Rightarrow> message_table \<Rightarrow> agent_message list result" where
  "get_by_correlation c t =
     traverse row_to_message (order_asc mr_created_at (filter (\<lambda>r. mr_correlation r = Some c) t))"

definition get_message :: "string \<Rightarrow> message_table \<Rightarrow> agent_message option result" where
  "get_message i t =
     (case lookup_row mr_id i t of
        None \<Rightarrow> Inr None
      | Some r \<Rightarrow> res_bind (row_to_message r) (\<lambda>m. Inr (Some m)))"

definition mark_as_read :: "string list \<Rightarrow> (message_table, int) py" where
  "mark_as_read ids t =
     (if ids = [] then (Inr 0, t)
      else (Inr (int (length (filter (\<lambda>r. mr_id r \<in> set ids) t))),
            update_where (\<lambda>r. mr_id r \<in> set ids) (\<lambda>r. r\<lparr>mr_is_read := True\<rparr>) t))"

definition delete_by_ids :: "string list \<Rightarrow> (message_table, int) py" where
  "delete_by_ids ids t =
     (if ids = [] then (Inr 0, t)
      else (Inr (int (length (filter (\<lambda>r. mr_id r \<in> set ids) t))),
            delete_where (\<lambda>r. mr_id r \<in> set ids) t))"

section \<open>Sequences of calls\<close>

datatype message_call =
    SaveMessage agent_message int
  | CleanupMessages int
  | MarkRead "string list"
  | DeleteMessages "string list"

fun run_message_call :: "message_call \<Rightarrow> message_table \<Rightarrow> message_table" where
  "run_message_call (SaveMessage m now) t = snd (save_message m now t)"
| "run_message_call (CleanupMessages now) t = snd (cleanup_expired now t)"
| "run_message_call (MarkRead ids) t = snd (mark_as_read ids t)"
| "run_message_call (DeleteMessages ids) t = snd (delete_by_ids ids t)"

fun run_message_calls :: "message_call list \<Rightarrow> message_table \<Rightarrow> message_table" where
  "run_message_calls [] t = t"
| "run_message_calls (c # cs) t = run_message_calls cs (run_message_call c t)"

text \<open>The table in order.\<close>

definition message_row_ok :: "message_row \<Rightarrow> bool" where
  "message_row_ok r \<longleftrightarrow>
     message_type_of (mr_type r) \<noteq> None \<and> mr_expires_at r = mr_created_at r + default_message_ttl_ms"

definition messages_ok :: "message_table \<Rightarrow> bool" where
  "messages_ok t \<longleftrightarrow>
     pk_ok mr_id t \<and> int (length t) \<le> max_total_messages \<and> (\<forall>r \<in> set t. message_row_ok r)"

lemma messages_ok_Nil: "messages_ok []"
  by (simp add: messages_ok_def pk_ok_def max_total_messages_def)

lemma messages_ok_delete: "messages_ok t \<Longrightarrow> messages_ok (delete_where p t)"
  by (auto simp: messages_ok_def delete_where_def pk_ok_delete_where [unfolded delete_where_def]
      intro: order_trans [OF of_nat_mono [OF length_filter_le]])

lemma messages_ok_mark: "messages_ok t \<Longrightarrow> messages_ok (update_where p (\<lambda>r. r\<lparr>mr_is_read := True\<rparr>) t)"
  by (auto simp: messages_ok_def update_where_def message_row_ok_def pk_ok_def comp_def if_distrib [of mr_id]
      cong: if_cong)

lemma message_row_of_ok: "message_row_ok (message_row_of m)"
  by (simp add: message_row_ok_def message_row_of_def)

text \<open>Pruning leaves room for one row.\<close>

lemma length_delete_ids:
  assumes "pk_ok key t" "set us \<subseteq> set t" "distinct us"
  shows "length (delete_where (\<lambda>r. key r \<in> set (map key us)) t) = length t - length us"
proof -
  have d: "distinct t" "inj_on key (set t)" using assms(1) by (simp_all add: pk_ok_def distinct_map)
  have "filter (\<lambda>r. key r \<in> set (map key us)) t = filter (\<lambda>r. r \<in> set us) t"
    using assms(2) d(2) by (intro filter_cong) (auto dest: inj_onD)
  moreover have "set (filter (\<lambda>r. r \<in> set us) t) = set us" using assms(2) by auto
  then have "length (filter (\<lambda>r. r \<in> set us) t) = length us"
    using d(1) assms(3) by (metis distinct_card distinct_filter)
  ultimately have "length (filter (\<lambda>r. key r \<in> set (map key us)) t) = length us" by simp
  moreover have "length (filter P t) + length (filter (\<lambda>r. \<not> P r) t) = length t" for P
    by (rule sum_length_filter_compl)
  from this [of "\<lambda>r. key r \<in> set (map key us)"]
  have "length (filter (\<lambda>r. key r \<in> set (map key us)) t)
      + length (delete_where (\<lambda>r. key r \<in> set (map key us)) t) = length t"
    by (simp add: delete_where_def)
  ultimately show ?thesis by linarith
qed

lemma length_prune_oldest:
  assumes "pk_ok mr_id t"
  shows "int (length (prune_oldest t)) \<le> max_total_messages - 1"
proof -
  let ?n = "nat (max 0 (int (length t) - (max_total_messages - 1)))"
  let ?us = "take ?n (order_asc mr_created_at t)"
  have "distinct (map mr_id (order_asc mr_created_at t))" using assms by (simp add: pk_ok_def)
  then have "distinct ?us" by (metis distinct_map distinct_take)
  moreover have "set ?us \<subseteq> set t" using set_take_subset by fastforce
  ultimately have "length (prune_oldest t) = length t - length ?us"
    using length_delete_ids [OF assms, of ?us] by (simp add: prune_oldest_def Let_def)
  moreover have "length (order_asc mr_created_at t) = length t" by (simp add: order_asc_def)
  ultimately show ?thesis by (simp add: max_total_messages_def)
qed

lemma messages_ok_prune: "messages_ok t \<Longrightarrow> messages_ok (prune_oldest t)"
  unfolding prune_oldest_def Let_def by (rule messages_ok_delete)

lemma messages_ok_insert:
  assumes "messages_ok t"
  shows "messages_ok (snd (insert_message m t))"
proof (cases "am_id m \<in> mr_id ` set (prune_oldest t)")
  case False
  have "pk_ok mr_id t" using assms by (simp add: messages_ok_def)
  from length_prune_oldest [OF this] have "int (length (prune_oldest t @ [message_row_of m])) \<le> max_total_messages"
    by simp
  moreover have "mr_id (message_row_of m) = am_id m" by (simp add: message_row_of_def)
  ultimately show ?thesis
    using False messages_ok_prune [OF assms] message_row_of_ok pk_ok_append1 [of mr_id "prune_oldest t" "message_row_of m"]
    by (simp add: insert_message_def Let_def messages_ok_def)
qed (use assms in \<open>simp add: insert_message_def\<close>)

lemma messages_ok_cleanup: "messages_ok t \<Longrightarrow> messages_ok (snd (cleanup_expired now t))"
  by (simp add: cleanup_expired_def Let_def messages_ok_delete)

lemma save_message_run: "save_message m now t = insert_message m (snd (cleanup_expired now t))"
  by (simp add: save_message_def py_bind_def cleanup_expired_def Let_def)

lemma messages_ok_call: "messages_ok t \<Longrightarrow> messages_ok (run_message_call c t)"
  by (cases c)
    (simp_all add: save_message_run messages_ok_insert messages_ok_cleanup mark_as_read_def delete_by_ids_def
      messages_ok_mark messages_ok_delete)

lemma messages_ok_calls: "messages_ok t \<Longrightarrow> messages_ok (run_message_calls cs t)"
  by (induction cs arbitrary: t) (simp_all add: messages_ok_call)

section \<open>What a row survives\<close>

text \<open>Rows other than the one with this id that are at least as new as a time.\<close>

definition rivals :: "string \<Rightarrow> int \<Rightarrow> message_table \<Rightarrow> message_table" where
  "rivals i ts t = filter (\<lambda>r. mr_id r \<noteq> i \<and> ts \<le> mr_created_at r) t"

lemma rivals_filter: "length (rivals i ts (filter p t)) \<le> length (rivals i ts t)"
  by (induction t) (simp_all add: rivals_def)

lemma rivals_append: "rivals i ts (t @ us) = rivals i ts t @ rivals i ts us"
  by (simp add: rivals_def)

text \<open>A row with few rivals is not among the oldest.\<close>

lemma not_among_oldest:
  assumes "pk_ok mr_id t" "r \<in> set (take n (order_asc mr_created_at t))" "n \<le> length t"
  shows "length t - n \<le> length (rivals (mr_id r) (mr_created_at r) t)"
proof -
  let ?s = "order_asc mr_created_at t"
  have len: "length ?s = length t" by (simp add: order_asc_def)
  have "distinct (map mr_id ?s)" using assms(1) by (simp add: pk_ok_def)
  then have d: "distinct (map mr_id (take n ?s) @ map mr_id (drop n ?s))" by (simp flip: map_append)
  have "sorted (map mr_created_at ?s)" by (simp add: order_asc_def)
  then have "sorted (map mr_created_at (take n ?s) @ map mr_created_at (drop n ?s))" by (simp flip: map_append)
  then have "\<forall>x \<in> set (drop n ?s). mr_created_at r \<le> mr_created_at x"
    using assms(2) by (auto simp: sorted_append)
  moreover have "\<forall>x \<in> set (drop n ?s). mr_id x \<noteq> mr_id r"
    using d assms(2) by (metis IntI distinct_append empty_iff image_eqI list.set_map)
  ultimately have "rivals (mr_id r) (mr_created_at r) (drop n ?s) = drop n ?s"
    by (simp add: rivals_def)
  then have "length t - n \<le> length (rivals (mr_id r) (mr_created_at r) (take n ?s @ drop n ?s))"
    using len by (simp add: rivals_append del: append_take_drop_id)
  also have "\<dots> = length (rivals (mr_id r) (mr_created_at r) t)"
  proof -
    have "mset (filter P ?s) = mset (filter P t)" for P by simp
    then show ?thesis unfolding append_take_drop_id rivals_def by (rule mset_eq_length)
  qed
  finally show ?thesis .
qed

lemma prune_keeps:
  assumes "pk_ok mr_id t" "r \<in> set t"
    and "int (length (rivals (mr_id r) (mr_created_at r) t)) < max_total_messages - 1"
  shows "r \<in> set (prune_oldest t)"
proof (rule ccontr)
  let ?n = "nat (max 0 (int (length t) - (max_total_messages - 1)))"
  assume "r \<notin> set (prune_oldest t)"
  with assms(2) obtain x where x: "x \<in> set (take ?n (order_asc mr_created_at t))" "mr_id x = mr_id r"
    by (auto simp: prune_oldest_def Let_def delete_where_def)
  then have "x \<in> set t" using set_take_subset [of ?n "order_asc mr_created_at t"] by auto
  with x assms(1,2) have "r \<in> set (take ?n (order_asc mr_created_at t))" using pk_unique by metis
  moreover have "?n \<le> length t" by (simp add: max_total_messages_def)
  ultimately have "length t - ?n \<le> length (rivals (mr_id r) (mr_created_at r) t)"
    using not_among_oldest [OF assms(1)] by blast
  moreover have "?n \<noteq> 0" using x(1) by (metis empty_iff empty_set take_0)
  ultimately show False using assms(3) by (simp add: max_total_messages_def)
qed

text \<open>The calls that leave a row alone, and the saves among them.\<close>

fun spares :: "string \<Rightarrow> int \<Rightarrow> message_call \<Rightarrow> bool" where
  "spares i expiry (SaveMessage m now) = (now \<le> expiry)"
| "spares i expiry (CleanupMessages now) = (now \<le> expiry)"
| "spares i expiry (MarkRead ids) = (i \<notin> set ids)"
| "spares i expiry (DeleteMessages ids) = (i \<notin> set ids)"

fun is_save :: "message_call \<Rightarrow> bool" where
  "is_save (SaveMessage m now) = True"
| "is_save c = False"

lemma cleanup_keeps:
  "r \<in> set t \<Longrightarrow> \<not> mr_is_read r \<Longrightarrow> now \<le> mr_expires_at r \<Longrightarrow> r \<in> set (snd (cleanup_expired now t))"
  by (simp add: cleanup_expired_def Let_def delete_where_def message_expired_def read_and_old_def)

lemma rivals_cleanup: "length (rivals i ts (snd (cleanup_expired now t))) \<le> length (rivals i ts t)"
  by (simp add: cleanup_expired_def Let_def delete_where_def rivals_filter)

lemma rivals_mark: "length (rivals i ts (update_where p (\<lambda>r. r\<lparr>mr_is_read := True\<rparr>) t)) = length (rivals i ts t)"
  by (induction t) (simp_all add: rivals_def update_where_def)

lemma call_keeps:
  assumes "messages_ok t" "r \<in> set t" "\<not> mr_is_read r" "spares (mr_id r) (mr_expires_at r) c"
    and "is_save c \<Longrightarrow> int (length (rivals (mr_id r) (mr_created_at r) t)) < max_total_messages - 1"
  shows "r \<in> set (run_message_call c t)
    \<and> length (rivals (mr_id r) (mr_created_at r) (run_message_call c t))
        \<le> length (rivals (mr_id r) (mr_created_at r) t) + (if is_save c then 1 else 0)"
proof (cases c)
  case (SaveMessage m now)
  let ?R = "\<lambda>t. length (rivals (mr_id r) (mr_created_at r) t)"
  let ?t = "snd (cleanup_expired now t)"
  have ok: "pk_ok mr_id ?t" using messages_ok_cleanup [OF assms(1)] by (simp add: messages_ok_def)
  have r: "r \<in> set ?t" using cleanup_keeps assms(2-4) SaveMessage by simp
  have less: "?R ?t \<le> ?R t" by (rule rivals_cleanup)
  then have "r \<in> set (prune_oldest ?t)" using prune_keeps [OF ok r] assms(5) SaveMessage by simp
  moreover have "?R (prune_oldest ?t) \<le> ?R ?t" by (simp add: prune_oldest_def Let_def delete_where_def rivals_filter)
  moreover have "?R [message_row_of m] \<le> 1" by (simp add: rivals_def)
  ultimately show ?thesis
    using SaveMessage less r by (auto simp: save_message_run insert_message_def Let_def rivals_append)
next
  case (CleanupMessages now)
  with assms cleanup_keeps rivals_cleanup show ?thesis by simp
next
  case (MarkRead ids)
  with assms show ?thesis by (auto simp: mark_as_read_def rivals_mark set_update_where)
next
  case (DeleteMessages ids)
  with assms show ?thesis by (auto simp: delete_by_ids_def delete_where_def rivals_filter)
qed

lemma calls_keep:
  assumes "messages_ok t" "r \<in> set t" "\<not> mr_is_read r" "\<forall>c \<in> set cs. spares (mr_id r) (mr_expires_at r) c"
    and "int (length (rivals (mr_id r) (mr_created_at r) t) + length (filter is_save cs)) < max_total_messages"
  shows "r \<in> set (run_message_calls cs t)"
  using assms
proof (induction cs arbitrary: t)
  case (Cons c cs)
  have "r \<in> set (run_message_call c t)
    \<and> length (rivals (mr_id r) (mr_created_at r) (run_message_call c t))
        \<le> length (rivals (mr_id r) (mr_created_at r) t) + (if is_save c then 1 else 0)"
    using Cons.prems by (intro call_keeps) auto
  with Cons show ?case by (auto simp: messages_ok_call split: if_splits)
qed simp

end
