(* ===== verification/Messenger.thy ===== *)
theory Messenger
  imports Complex_Main Message_Store Store_Part
begin

text \<open>
  The protocol of messages between tmux sessions
  (src/application/services/messaging/message_protocol.py) and the service that sends them
  (agent_messenger.py). The directory of temporary files is a list of names with the JSON value and the
  modification time of each file; the answers of tmux and the outcome of a write are arguments, and so
  are the readings of the clock, in seconds as rationals. What tmux was asked is kept in a list.
\<close>

section \<open>The protocol\<close>

record temp_file =
  tf_content :: state_file
  tf_mtime :: rat

type_synonym temp_dir = "(string \<times> temp_file) list"

definition fork_msg_prefix :: string where
  "fork_msg_prefix = ''# FORK_MSG:''"

definition short_prefix :: string where
  "short_prefix = ''# F:''"

definition temp_name :: "string \<Rightarrow> string" where
  "temp_name i = ''fork_msg_'' @ take 8 i @ ''.json''"

definition message_json :: "agent_message \<Rightarrow> json" where
  "message_json m =
     JObject [(''id'', JString (am_id m)), (''from_agent'', JString (am_from m)), (''to_agent'', JString (am_to m)),
       (''message_type'', JString (message_type_name (am_type m))), (''payload'', JString (am_payload m)),
       (''created_at'', JNumber (am_created_at m)),
       (''correlation_id'', case am_correlation m of None \<Rightarrow> JNull | Some c \<Rightarrow> JString c)]"

text \<open>How writing the file ended; a write that failed may have emptied the file before.\<close>

datatype temp_write = Written | WriteFailed string bool

definition encode_message :: "temp_write \<Rightarrow> rat \<Rightarrow> agent_message \<Rightarrow> (temp_dir, string) py" where
  "encode_message outcome mtime m d =
     (case outcome of
        Written \<Rightarrow>
          (Inr (short_prefix @ take 8 (am_id m)),
           dict_set (temp_name (am_id m)) \<lparr>tf_content = Holds (message_json m), tf_mtime = mtime\<rparr> d)
      | WriteFailed e emptied \<Rightarrow>
          (Inl (RuntimeError (''Failed to write message to temp storage: '' @ e)),
           if emptied then dict_set (temp_name (am_id m)) \<lparr>tf_content = Malformed, tf_mtime = mtime\<rparr> d else d))"

text \<open>A message as it is read back: its fields may be any JSON values.\<close>

record wire_message =
  wm_id :: json
  wm_from :: json
  wm_to :: json
  wm_type :: message_type
  wm_payload :: json
  wm_created_at :: json
  wm_correlation :: json

text \<open>\<open>field in data\<close>.\<close>

fun json_contains :: "string \<Rightarrow> json \<Rightarrow> bool result" where
  "json_contains f (JObject kvs) = Inr (f \<in> set (map fst kvs))"
| "json_contains f (JArray xs) = Inr (JString f \<in> set xs)"
| "json_contains f (JString s) = Inr (contains_text f s)"
| "json_contains f d = Inl (TypeError (''argument of type '' @ quoted (json_type_name d) @ '' is not iterable''))"

fun has_all :: "string list \<Rightarrow> json \<Rightarrow> bool result" where
  "has_all [] d = Inr True"
| "has_all (f # fs) d = res_bind (json_contains f d) (\<lambda>b. if b then has_all fs d else Inr False)"

definition required_fields :: "string list" where
  "required_fields = [''id'', ''from_agent'', ''to_agent'', ''message_type'', ''payload'', ''created_at'']"

text \<open>\<open>MessageType[x]\<close>\<close>

definition type_member :: "json \<Rightarrow> message_type result" where
  "type_member d =
     (if \<not> json_hashable d then Inl (TypeError (''unhashable type: '' @ quoted (json_type_name d)))
      else (case d of
              JString s \<Rightarrow> (case message_type_of s of None \<Rightarrow> Inl (KeyError (quoted s)) | Some t \<Rightarrow> Inr t)
            | _ \<Rightarrow> Inl (KeyError [])))"

definition wire_fields :: "json \<Rightarrow> wire_message result" where
  "wire_fields d =
     res_bind (json_item d ''id'') (\<lambda>i.
     res_bind (json_item d ''from_agent'') (\<lambda>f.
     res_bind (json_item d ''to_agent'') (\<lambda>t.
     res_bind (json_item d ''message_type'') (\<lambda>n.
     res_bind (type_member n) (\<lambda>ty.
     res_bind (json_item d ''payload'') (\<lambda>p.
     res_bind (json_item d ''created_at'') (\<lambda>c.
     res_bind (json_get d ''correlation_id'' JNull) (\<lambda>r.
     Inr \<lparr>wm_id = i, wm_from = f, wm_to = t, wm_type = ty, wm_payload = p, wm_created_at = c,
          wm_correlation = r\<rparr>))))))))"

text \<open>What \<open>except (KeyError, ValueError)\<close> catches.\<close>

fun is_key_or_value_error :: "exc \<Rightarrow> bool" where
  "is_key_or_value_error (KeyError m) = True"
| "is_key_or_value_error e = is_value_error e"

definition create_from_dict :: "json \<Rightarrow> wire_message option result" where
  "create_from_dict d =
     res_bind (has_all required_fields d) (\<lambda>ok.
     if \<not> ok then Inr None
     else (case wire_fields d of
             Inr m \<Rightarrow> Inr (Some m)
           | Inl e \<Rightarrow> (if is_key_or_value_error e then Inr None else Inl e)))"

text \<open>\<open>loads\<close> is the JSON parser, applied to a text of an agent.\<close>

definition decode_message :: "(string \<Rightarrow> json option) \<Rightarrow> temp_dir \<Rightarrow> string \<Rightarrow> wire_message option result" where
  "decode_message loads d raw =
     (if contains_text short_prefix raw
      then (let suffix = py_strip (after_text short_prefix raw)
            in if suffix = [] then Inr None
               else (case map_of d (temp_name (hd (py_split suffix))) of
                       None \<Rightarrow> Inr None
                     | Some f \<Rightarrow> (case tf_content f of Holds v \<Rightarrow> create_from_dict v | _ \<Rightarrow> Inr None)))
      else if contains_text fork_msg_prefix raw
      then (case loads (py_strip (after_text fork_msg_prefix raw)) of
              None \<Rightarrow> Inr None
            | Some v \<Rightarrow> (case create_from_dict v of Inl (TypeError e) \<Rightarrow> Inr None | r \<Rightarrow> r))
      else Inr None)"

text \<open>The three makers of messages; \<open>dumps\<close> is the JSON printer.\<close>

definition create_command ::
  "(json \<Rightarrow> string) \<Rightarrow> string \<Rightarrow> int \<Rightarrow> string \<Rightarrow> string \<Rightarrow> string \<Rightarrow> (string \<times> json) list \<Rightarrow> agent_message" where
  "create_command dumps i now sender receiver command extra =
     create_message i now sender receiver COMMAND (dumps (JObject ((''command'', JString command) # extra))) None"

definition create_reply ::
  "(json \<Rightarrow> string) \<Rightarrow> string \<Rightarrow> int \<Rightarrow> string \<Rightarrow> string \<Rightarrow> string \<Rightarrow> string \<Rightarrow> agent_message" where
  "create_reply dumps i now sender receiver correlation response =
     create_message i now sender receiver REPLY (dumps (JObject [(''response'', JString response)])) (Some correlation)"

definition create_handoff ::
  "(json \<Rightarrow> string) \<Rightarrow> string \<Rightarrow> int \<Rightarrow> string \<Rightarrow> string \<Rightarrow> string \<Rightarrow> agent_message" where
  "create_handoff dumps i now sender receiver path =
     create_message i now sender receiver HANDOFF (dumps (JObject [(''handoff_path'', JString path)])) None"

text \<open>Files of the pattern \<open>fork_msg_*.json\<close> that are too old go, unless removing them fails.\<close>

definition is_temp_name :: "string \<Rightarrow> bool" where
  "is_temp_name s \<longleftrightarrow>
     starts_with ''fork_msg_'' s \<and> starts_with (rev ''.json'') (rev s)
     \<and> length ''fork_msg_'' + length ''.json'' \<le> length s"

definition cleanup_temp_files :: "rat \<Rightarrow> rat \<Rightarrow> string list \<Rightarrow> (temp_dir, int) py" where
  "cleanup_temp_files max_age now stuck d =
     (let goes = (\<lambda>(name, f). is_temp_name name \<and> now - tf_mtime f > max_age \<and> name \<notin> set stuck)
      in (Inr (int (length (filter goes d))), filter (\<lambda>x. \<not> goes x) d))"

section \<open>The messenger\<close>

datatype tmux_call =
    HasSession string
  | SetPaneOption string string
  | DisplayMessage string string

record messenger =
  mg_store :: message_table
  mg_temp :: temp_dir
  mg_last_maintenance :: rat
  mg_tmux :: "tmux_call list"

text \<open>
  What one \<open>send\<close> is answered: the clock at each of its readings, the files that cannot be removed, how
  the write ended, the exit code of \<open>has-session\<close>, whether the other two calls raise, and what the
  question for the current session yields.
\<close>

record send_answers =
  sa_store_now :: int
  sa_now :: rat
  sa_sweep_now :: rat
  sa_stuck :: "string list"
  sa_write :: temp_write
  sa_has_session :: "int result"
  sa_set_option :: "unit result"
  sa_in_tmux :: bool
  sa_current :: "(int \<times> string) result"
  sa_display :: "unit result"

abbreviation on_messages :: "(message_table, 'a) py \<Rightarrow> (messenger, 'a) py" where
  "on_messages \<equiv> run_in mg_store (\<lambda>t w. w\<lparr>mg_store := t\<rparr>)"

abbreviation on_temp :: "(temp_dir, 'a) py \<Rightarrow> (messenger, 'a) py" where
  "on_temp \<equiv> run_in mg_temp (\<lambda>d w. w\<lparr>mg_temp := d\<rparr>)"

interpretation messages_part: store_part mg_store "\<lambda>t w. w\<lparr>mg_store := t\<rparr>"
  by unfold_locales simp_all

interpretation temp_part: store_part mg_temp "\<lambda>d w. w\<lparr>mg_temp := d\<rparr>"
  by unfold_locales simp_all

definition run_tmux :: "tmux_call \<Rightarrow> 'a result \<Rightarrow> (messenger, 'a) py" where
  "run_tmux c answer w = (answer, w\<lparr>mg_tmux := mg_tmux w @ [c]\<rparr>)"

definition current_session :: "bool \<Rightarrow> (int \<times> string) result \<Rightarrow> string option" where
  "current_session in_tmux answer =
     (if \<not> in_tmux then None
      else (case answer of Inl e \<Rightarrow> None | Inr (code, out) \<Rightarrow> if code = 0 then Some (py_strip out) else None))"

definition maintain :: "send_answers \<Rightarrow> (messenger, unit) py" where
  "maintain a =
     py_bind (py_read (\<lambda>w. Inr (mg_last_maintenance w))) (\<lambda>t.
     if sa_now a - t > 30
     then py_bind (on_temp (cleanup_temp_files 60 (sa_sweep_now a) (sa_stuck a))) (\<lambda>_ w.
            (Inr (), w\<lparr>mg_last_maintenance := sa_now a\<rparr>))
     else py_return ())"

definition notify :: "send_answers \<Rightarrow> agent_message \<Rightarrow> string \<Rightarrow> string \<Rightarrow> string \<Rightarrow> (messenger, bool) py" where
  "notify a m session window encoded =
     py_bind (run_tmux (HasSession session) (sa_has_session a)) (\<lambda>code.
     if code \<noteq> 0 then py_return False
     else
       py_bind (run_tmux (SetPaneOption (session @ '':'' @ window) encoded) (sa_set_option a)) (\<lambda>_.
       py_bind (if Some session \<noteq> current_session (sa_in_tmux a) (sa_current a)
                then run_tmux (DisplayMessage session (''FORK: Msg from '' @ am_from m)) (sa_display a)
                else py_return ()) (\<lambda>_.
       py_return True)))"

definition send :: "send_answers \<Rightarrow> agent_message \<Rightarrow> (messenger, bool) py" where
  "send a m =
     (case split_on CHR '':'' (am_to m) of
        [session, window] \<Rightarrow>
          py_bind (on_messages (save_message m (sa_store_now a))) (\<lambda>_.
          py_bind (maintain a) (\<lambda>_.
          py_bind (py_catch (\<lambda>e. True)
                     (py_bind (on_temp (encode_message (sa_write a) (sa_now a) m)) (\<lambda>s. py_return (Some s)))
                     (\<lambda>e. py_return None)) (\<lambda>encoded.
          case encoded of
            None \<Rightarrow> py_return False
          | Some s \<Rightarrow> py_catch (\<lambda>e. True) (notify a m session window s) (\<lambda>e. py_return False))))
      | _ \<Rightarrow> py_return False)"

definition allowed_session_prefixes :: "string list" where
  "allowed_session_prefixes = [''fork-'', ''agent-'', ''opencode-'']"

text \<open>The windows a broadcast addresses, from the sessions with the indices of their windows.\<close>

definition broadcast_targets :: "string option \<Rightarrow> (string \<times> int list) list \<Rightarrow> string list" where
  "broadcast_targets current sessions =
     concat (map (\<lambda>(name, windows). map (\<lambda>i. name @ '':'' @ show_int i) windows)
       (filter (\<lambda>(name, windows). Some name \<noteq> current
          \<and> list_ex (\<lambda>p. starts_with p name) allowed_session_prefixes) sessions))"

text \<open>The fresh id and the times of each of its messages, by address.\<close>

fun broadcast_to ::
  "(string \<Rightarrow> string \<times> int \<times> send_answers) \<Rightarrow> string \<Rightarrow> string \<Rightarrow> string list \<Rightarrow> int \<Rightarrow> (messenger, int) py" where
  "broadcast_to answers from_agent payload [] n = py_return n"
| "broadcast_to answers from_agent payload (t # ts) n =
     (case answers t of
        (i, now, a) \<Rightarrow>
          py_bind (send a (create_message i now from_agent t COMMAND payload None)) (\<lambda>ok.
          broadcast_to answers from_agent payload ts (if ok then n + 1 else n)))"

definition broadcast ::
  "(string \<Rightarrow> string \<times> int \<times> send_answers) \<Rightarrow> string option \<Rightarrow> (string \<times> int list) list
     \<Rightarrow> string \<Rightarrow> string \<Rightarrow> (messenger, int) py" where
  "broadcast answers current sessions from_agent payload =
     broadcast_to answers from_agent payload (broadcast_targets current sessions) 0"

section \<open>Reading back what was written\<close>

definition wire_of :: "agent_message \<Rightarrow> wire_message" where
  "wire_of m =
     \<lparr>wm_id = JString (am_id m), wm_from = JString (am_from m), wm_to = JString (am_to m), wm_type = am_type m,
      wm_payload = JString (am_payload m), wm_created_at = JNumber (am_created_at m),
      wm_correlation = (case am_correlation m of None \<Rightarrow> JNull | Some c \<Rightarrow> JString c)\<rparr>"

lemma create_from_message_json: "create_from_dict (message_json m) = Inr (Some (wire_of m))"
  by (simp add: create_from_dict_def message_json_def required_fields_def wire_fields_def type_member_def wire_of_def)

text \<open>The text behind the first mark of a message.\<close>

lemma starts_with_take: "starts_with p s \<Longrightarrow> length p \<le> n \<Longrightarrow> starts_with p (take n s)"
  by (auto simp: starts_with_iff)

lemma after_text_first:
  assumes "\<not> contains_text (sep @ [c]) (pre @ sep)"
  shows "after_text (sep @ [c]) (pre @ sep @ c # s) = s"
  using assms
proof (induction pre)
  case Nil
  have "starts_with (sep @ [c]) ((sep @ [c]) @ s)" by (rule starts_with_append)
  then show ?case by (cases sep) auto
next
  case (Cons x pre)
  have "\<not> starts_with (sep @ [c]) (x # pre @ sep @ c # s)"
  proof
    assume h: "starts_with (sep @ [c]) (x # pre @ sep @ c # s)"
    from starts_with_take [OF h, of "Suc (length pre + length sep)"]
    have "starts_with (sep @ [c]) (x # pre @ sep)" by simp
    then obtain t where "x # pre @ sep = [] @ (sep @ [c]) @ t" by (auto simp: starts_with_iff)
    with Cons.prems show False unfolding contains_text_iff by (metis append_Cons)
  qed
  moreover have "\<not> contains_text (sep @ [c]) (pre @ sep)"
    using Cons.prems unfolding contains_text_iff by (metis append_Cons)
  ultimately show ?case using Cons.IH by simp
qed

lemma words_from_word:
  "\<forall>c \<in> set w. \<not> is_space c \<Longrightarrow> rest = [] \<or> is_space (hd rest) \<Longrightarrow> acc \<noteq> [] \<or> w \<noteq> [] \<Longrightarrow>
     \<exists>ws. words_from acc (w @ rest) = (rev acc @ w) # ws"
proof (induction w arbitrary: acc)
  case Nil
  then show ?case by (cases rest) auto
next
  case (Cons c w)
  from Cons.IH [of "c # acc"] Cons.prems show ?case by simp
qed

lemma py_strip_word:
  assumes "\<forall>c \<in> set w. \<not> is_space c" "w \<noteq> []" "rest = [] \<or> is_space (hd rest)"
  shows "\<exists>r. py_strip (w @ rest) = w @ r \<and> (r = [] \<or> is_space (hd r))"
proof -
  have "dropWhile is_space (w @ rest) = w @ rest" using assms(1,2) by (cases w) simp_all
  then have s: "py_strip (w @ rest) = rev (dropWhile is_space (rev rest @ rev w))" by (simp add: py_strip_def)
  show ?thesis
  proof (cases "\<forall>c \<in> set rest. is_space c")
    case True
    then have "dropWhile is_space (rev rest @ rev w) = dropWhile is_space (rev w)"
      by (intro dropWhile_append2) simp
    moreover have "dropWhile is_space (rev w) = rev w"
      using assms(1,2) by (cases w rule: rev_cases) simp_all
    ultimately show ?thesis using s by (intro exI [of _ "[]"]) simp
  next
    case False
    then obtain c where c: "c \<in> set (rev rest)" "\<not> is_space c" by auto
    let ?r = "rev (dropWhile is_space (rev rest))"
    have "py_strip (w @ rest) = w @ ?r" using s dropWhile_append1 [of c "rev rest" is_space "rev w"] c by simp
    moreover have "?r \<noteq> []" using c by auto
    moreover have "rest = ?r @ rev (takeWhile is_space (rev rest))"
      by (metis rev_append rev_rev_ident takeWhile_dropWhile_id)
    then have "?r \<noteq> [] \<Longrightarrow> hd ?r = hd rest" by (metis hd_append2)
    ultimately show ?thesis using assms(3) False by (intro exI [of _ ?r]) auto
  qed
qed

text \<open>A short reference is found in any text that does not hold another one before it.\<close>

lemma short_reference_read:
  assumes "\<not> contains_text short_prefix (pre @ ''# F'')" "w \<noteq> []" "\<forall>c \<in> set w. \<not> is_space c"
    and "rest = [] \<or> is_space (hd rest)" "w = take 8 i"
  shows "decode_message loads d (pre @ short_prefix @ w @ rest)
    = (case map_of d (temp_name i) of
         None \<Rightarrow> Inr None
       | Some f \<Rightarrow> (case tf_content f of Holds v \<Rightarrow> create_from_dict v | _ \<Rightarrow> Inr None))"
proof -
  have "contains_text short_prefix (pre @ short_prefix @ w @ rest)"
    unfolding contains_text_iff by blast
  moreover have "after_text short_prefix (pre @ short_prefix @ w @ rest) = w @ rest"
    using after_text_first [of "''# F''" "CHR '':''" pre "w @ rest"] assms(1) by (simp add: short_prefix_def)
  moreover from py_strip_word [OF assms(3,2,4)] obtain r where
    r: "py_strip (w @ rest) = w @ r" "r = [] \<or> is_space (hd r)" by auto
  moreover from words_from_word [OF assms(3) r(2), of "[]"] assms(2) have "hd (py_split (w @ r)) = w"
    by (auto simp: py_split_def)
  moreover have "temp_name w = temp_name i" by (simp add: temp_name_def assms(5))
  ultimately show ?thesis using assms(2) by (simp add: decode_message_def Let_def)
qed

end
