(* ===== verification/Messaging_Properties.thy ===== *)
theory Messaging_Properties
  imports Messenger
begin

text \<open>
  The properties of messaging: what the store keeps and lists, what a send does, and that a message that
  was sent is read back from the reference left at the receiver.
\<close>

section \<open>The store\<close>

lemma traverse_rows_ok:
  "\<forall>r \<in> set rows. message_row_ok r \<Longrightarrow>
     \<exists>xs. traverse row_to_message rows = Inr xs \<and> list_all2 (\<lambda>r x. row_to_message r = Inr x) rows xs"
proof (induction rows)
  case (Cons r rows)
  then obtain xs where "traverse row_to_message rows = Inr xs"
    "list_all2 (\<lambda>r x. row_to_message r = Inr x) rows xs" by auto
  moreover obtain x where "row_to_message r = Inr x"
    using Cons.prems by (auto simp: message_row_ok_def row_to_message_def)
  ultimately show ?case by simp
qed simp

lemma list_all2_from: "list_all2 P xs ys \<Longrightarrow> y \<in> set ys \<Longrightarrow> \<exists>x \<in> set xs. P x y"
  by (induction rule: list_all2_induct) auto

lemma list_all2_into: "list_all2 P xs ys \<Longrightarrow> x \<in> set xs \<Longrightarrow> \<exists>y \<in> set ys. P x y"
  by (induction rule: list_all2_induct) auto

lemma row_to_message_of: "row_to_message (message_row_of m) = Inr m"
  by (simp add: row_to_message_def message_row_of_def)

text \<open>The call a row stems from.\<close>

definition stems_from :: "message_call list \<Rightarrow> message_row \<Rightarrow> bool" where
  "stems_from cs r \<longleftrightarrow>
     (\<exists>m now. SaveMessage m now \<in> set cs \<and> r\<lparr>mr_is_read := False\<rparr> = message_row_of m)"

lemma message_row_unread [simp]: "(message_row_of m)\<lparr>mr_is_read := False\<rparr> = message_row_of m"
  by (simp add: message_row_of_def)

lemma stems_from_call:
  assumes "r \<in> set (run_message_call c t)"
  shows "(\<exists>x \<in> set t. r\<lparr>mr_is_read := False\<rparr> = x\<lparr>mr_is_read := False\<rparr>) \<or> stems_from [c] r"
proof (cases c)
  case (SaveMessage m now)
  with assms show ?thesis
    by (auto simp: save_message_run insert_message_def Let_def prune_oldest_def cleanup_expired_def delete_where_def
        stems_from_def split: if_splits)
qed (use assms in \<open>auto simp: cleanup_expired_def Let_def mark_as_read_def delete_by_ids_def delete_where_def
      set_update_where update_where_def split: if_splits\<close>)

lemma stems_from_calls:
  "r \<in> set (run_message_calls cs t) \<Longrightarrow>
     (\<exists>x \<in> set t. r\<lparr>mr_is_read := False\<rparr> = x\<lparr>mr_is_read := False\<rparr>) \<or> stems_from cs r"
proof (induction cs arbitrary: t)
  case (Cons c cs)
  from Cons.IH [of "run_message_call c t"] Cons.prems
  consider x where "x \<in> set (run_message_call c t)" "r\<lparr>mr_is_read := False\<rparr> = x\<lparr>mr_is_read := False\<rparr>"
    | "stems_from cs r" by auto
  then show ?case
  proof cases
    case 1
    with stems_from_call [OF 1(1)] show ?thesis by (auto simp: stems_from_def)
  qed (auto simp: stems_from_def)
qed auto

lemma listed_rows:
  assumes "messages_ok t" "set rows \<subseteq> set t"
  shows "\<exists>xs. traverse row_to_message (sql_limit n (newest_first rows)) = Inr xs
    \<and> list_all2 (\<lambda>r x. row_to_message r = Inr x) (sql_limit n (newest_first rows)) xs"
proof (rule traverse_rows_ok)
  have "set (sql_limit n (newest_first rows)) \<subseteq> set rows"
    using set_take_subset [of "nat n" "newest_first rows"] by (auto simp: sql_limit_def newest_first_def)
  with assms show "\<forall>r \<in> set (sql_limit n (newest_first rows)). message_row_ok r"
    by (auto simp: messages_ok_def)
qed

lemma row_to_message_Inr:
  "row_to_message r = Inr x \<Longrightarrow> am_id x = mr_id r \<and> am_to x = mr_to r \<and> am_created_at x = mr_created_at r"
  by (auto simp: row_to_message_def split: option.splits)

lemma list_all2_map_eq: "list_all2 P xs ys \<Longrightarrow> (\<And>x y. P x y \<Longrightarrow> g y = f x) \<Longrightarrow> map g ys = map f xs"
  by (induction rule: list_all2_induct) auto

lemma sorted_take: "sorted xs \<Longrightarrow> sorted (take n xs)"
  by (metis append_take_drop_id sorted_append)

lemma sorted_newest_first:
  "sorted (map (\<lambda>r. - mr_created_at r) (sql_limit n (newest_first rows)))"
proof -
  let ?f = "\<lambda>r. (mr_created_at r, mr_id r)"
  have "sorted (rev (map ?f (newest_first rows)))" unfolding newest_first_def by (rule sorted_order_desc)
  then have "sorted_wrt (\<lambda>x y. ?f y \<le> ?f x) (newest_first rows)"
    by (simp add: sorted_wrt_map sorted_wrt_rev flip: rev_map)
  then have "sorted_wrt (\<lambda>x y. - mr_created_at x \<le> - mr_created_at y) (newest_first rows)"
    by (rule sorted_wrt_mono_rel [rotated]) (auto simp: less_eq_prod_def)
  then have "sorted (map (\<lambda>r. - mr_created_at r) (newest_first rows))" by (simp add: sorted_wrt_map)
  then show ?thesis by (simp add: sql_limit_def take_map [symmetric] sorted_take)
qed

text \<open>
  C35: whatever was saved, marked, deleted and cleaned up before: the store holds at most 5000 messages, and
  the inbox of an agent can be listed. It lists messages that some call saved, addressed to the agent or
  to all, the newest first, each once, and not more than the limit asks for.
\<close>

theorem inbox_lists_saved:
  "int (length (run_message_calls cs [])) \<le> 5000
   \<and> (\<exists>xs. get_for_agent agent limit (run_message_calls cs []) = Inr xs
        \<and> (\<forall>x \<in> set xs. (am_to x = agent \<or> am_to x = ''*'') \<and> (\<exists>now. SaveMessage x now \<in> set cs))
        \<and> sorted (map (\<lambda>x. - am_created_at x) xs) \<and> distinct (map am_id xs)
        \<and> (0 \<le> limit \<longrightarrow> int (length xs) \<le> limit))"
proof -
  let ?t = "run_message_calls cs []"
  let ?p = "\<lambda>r. (mr_to r = agent \<or> mr_to r = ''*'') \<and> \<not> mr_is_read r"
  let ?rows = "sql_limit limit (newest_first (filter ?p ?t))"
  have ok: "messages_ok ?t" using messages_ok_calls [OF messages_ok_Nil] .
  from listed_rows [OF this, of "filter ?p ?t" limit] obtain xs where
    xs: "traverse row_to_message ?rows = Inr xs" and all: "list_all2 (\<lambda>r x. row_to_message r = Inr x) ?rows xs"
    by auto
  have rows: "set ?rows \<subseteq> set (filter ?p ?t)"
    using set_take_subset [of "nat limit" "newest_first (filter ?p ?t)"] by (auto simp: sql_limit_def newest_first_def)
  have "(am_to x = agent \<or> am_to x = ''*'') \<and> (\<exists>now. SaveMessage x now \<in> set cs)" if x: "x \<in> set xs" for x
  proof -
    from list_all2_from [OF all x] obtain r where r: "r \<in> set ?rows" "row_to_message r = Inr x" by blast
    with rows have "r \<in> set ?t" "?p r" by auto
    with stems_from_calls [of r cs "[]"] obtain m now where
      "SaveMessage m now \<in> set cs" "r\<lparr>mr_is_read := False\<rparr> = message_row_of m" by (auto simp: stems_from_def)
    moreover from this \<open>?p r\<close> have "r = message_row_of m" by (metis (full_types) message_row.surjective message_row.update_convs(10))
    ultimately show ?thesis using r(2) \<open>?p r\<close> row_to_message_of row_to_message_Inr by fastforce
  qed
  moreover have "map (\<lambda>x. - am_created_at x) xs = map (\<lambda>r. - mr_created_at r) ?rows"
    "map am_id xs = map mr_id ?rows"
    using row_to_message_Inr by (intro list_all2_map_eq [OF all]; fastforce)+
  moreover have "distinct (map mr_id ?rows)"
    using ok by (auto simp: sql_limit_def newest_first_def messages_ok_def pk_ok_def take_map [symmetric]
        distinct_map_filter_key)
  moreover have "0 \<le> limit \<longrightarrow> int (length xs) \<le> limit"
    using list_all2_lengthD [OF all] by (auto simp: sql_limit_def)
  ultimately show ?thesis
    using ok xs sorted_newest_first [of limit] by (simp add: get_for_agent_def messages_ok_def max_total_messages_def)
qed

text \<open>
  C33: a saved message stays in the inbox it is addressed to, whatever calls follow, until its day is over,
  it is marked or deleted, or 5000 messages at least as new have come.
\<close>

theorem message_survives:
  assumes "save_message m now (run_message_calls before []) = (Inr i, t)"
    and "\<forall>c \<in> set later. spares (am_id m) (am_created_at m + default_message_ttl_ms) c"
    and "int (length (rivals (am_id m) (am_created_at m) t) + length (filter is_save later)) < max_total_messages"
    and "am_to m = agent \<or> am_to m = ''*''"
  shows "\<exists>xs. get_for_agent agent (-1) (run_message_calls later t) = Inr xs \<and> m \<in> set xs"
proof -
  let ?t = "run_message_calls later t"
  have "t = run_message_call (SaveMessage m now) (run_message_calls before [])" using assms(1) by simp
  then have ok: "messages_ok t" using messages_ok_call messages_ok_calls messages_ok_Nil by metis
  have "message_row_of m \<in> set t"
    using assms(1) by (auto simp: save_message_run insert_message_def Let_def split: if_splits)
  moreover have "mr_id (message_row_of m) = am_id m" "mr_created_at (message_row_of m) = am_created_at m"
    "mr_expires_at (message_row_of m) = am_created_at m + default_message_ttl_ms" "\<not> mr_is_read (message_row_of m)"
    "mr_to (message_row_of m) = am_to m"
    by (simp_all add: message_row_of_def)
  ultimately have kept: "message_row_of m \<in> set ?t" and
    mine: "message_row_of m \<in> set (filter (\<lambda>r. (mr_to r = agent \<or> mr_to r = ''*'') \<and> \<not> mr_is_read r) ?t)"
    using calls_keep [OF ok, of "message_row_of m" later] assms(2-4) by simp_all
  from listed_rows [OF messages_ok_calls [OF ok], of "filter (\<lambda>r. (mr_to r = agent \<or> mr_to r = ''*'') \<and> \<not> mr_is_read r) ?t" later "-1"]
  obtain xs where xs: "get_for_agent agent (-1) ?t = Inr xs"
    and all: "list_all2 (\<lambda>r x. row_to_message r = Inr x)
      (newest_first (filter (\<lambda>r. (mr_to r = agent \<or> mr_to r = ''*'') \<and> \<not> mr_is_read r) ?t)) xs"
    by (auto simp: get_for_agent_def sql_limit_def)
  have "\<exists>x \<in> set xs. row_to_message (message_row_of m) = Inr x"
    using list_all2_into [OF all] mine by (simp add: newest_first_def)
  then have "m \<in> set xs" by (simp add: row_to_message_of)
  with xs show ?thesis by blast
qed

definition greeting :: agent_message where
  "greeting = create_message ''0123456789'' 1000 ''agent-1:0'' ''agent-2:0'' COMMAND ''hello'' None"

theorem inbox_lists_saved_witness:
  "\<exists>xs. get_for_agent ''agent-2:0'' 1 (run_message_calls
       [SaveMessage greeting 1000, SaveMessage (greeting\<lparr>am_id := ''x''\<rparr>) 2000] []) = Inr xs \<and> length xs \<le> 1"
  using inbox_lists_saved [of "[SaveMessage greeting 1000, SaveMessage (greeting\<lparr>am_id := ''x''\<rparr>) 2000]"
      "''agent-2:0''" 1] by auto

theorem message_survives_witness:
  "\<exists>xs. get_for_agent ''agent-2:0'' (-1)
      (run_message_calls [SaveMessage (greeting\<lparr>am_id := ''x''\<rparr>) 2000, CleanupMessages 900000, MarkRead [''x'']]
         (snd (save_message greeting 1000 []))) = Inr xs \<and> greeting \<in> set xs"
proof -
  let ?later = "[SaveMessage (greeting\<lparr>am_id := ''x''\<rparr>) 2000, CleanupMessages 900000, MarkRead [''x'']]"
  have s: "save_message greeting 1000 (run_message_calls [] []) = (Inr ''0123456789'', [message_row_of greeting])"
    by (simp add: save_message_run cleanup_expired_def insert_message_def prune_oldest_def Let_def delete_where_def
        order_asc_def greeting_def create_message_def)
  then have t: "snd (save_message greeting 1000 []) = [message_row_of greeting]" by simp
  have "\<forall>c \<in> set ?later. spares (am_id greeting) (am_created_at greeting + default_message_ttl_ms) c"
    by (simp add: greeting_def create_message_def default_message_ttl_ms_def)
  moreover have "int (length (rivals (am_id greeting) (am_created_at greeting) [message_row_of greeting])
      + length (filter is_save ?later)) < max_total_messages"
    by (simp add: rivals_def message_row_of_def max_total_messages_def)
  moreover have "am_to greeting = ''agent-2:0'' \<or> am_to greeting = ''*''"
    by (simp add: greeting_def create_message_def)
  ultimately show ?thesis unfolding t using message_survives [OF s] by blast
qed

section \<open>Sending\<close>

lemma split_on_pair: "split_on c s = [u, v] \<Longrightarrow> s = u @ c # v"
proof (induction s arbitrary: u v)
  case (Cons x s)
  show ?case
  proof (cases "x = c")
    case True
    with Cons.prems have uv: "u = []" "split_on c s = [v]" by simp_all
    have "split_on c z = [y] \<Longrightarrow> z = y" for z y
    proof (induction z arbitrary: y)
      case (Cons a z)
      then show ?case by (auto split: if_splits list.splits)
    qed simp
    with uv True show ?thesis by simp
  next
    case False
    with Cons.prems obtain w where "split_on c s = [w, v]" "u = x # w"
      by (auto split: list.splits)
    with Cons.IH show ?thesis by simp
  qed
qed simp

lemma maintain_run: "\<exists>d l. maintain a w = (Inr (), w\<lparr>mg_temp := d, mg_last_maintenance := l\<rparr>)"
proof (cases "sa_now a - mg_last_maintenance w > 30")
  case True
  then show ?thesis
    by (auto simp: maintain_def py_simps py_bind_def run_in_def cleanup_temp_files_def Let_def)
next
  case False
  then show ?thesis
    by (intro exI [of _ "mg_temp w"] exI [of _ "mg_last_maintenance w"]) (simp add: maintain_def py_simps)
qed

definition all_answered :: "send_answers \<Rightarrow> string \<Rightarrow> bool" where
  "all_answered a session \<longleftrightarrow>
     sa_has_session a = Inr 0 \<and> sa_set_option a = Inr ()
     \<and> (current_session (sa_in_tmux a) (sa_current a) = Some session \<or> sa_display a = Inr ())"

lemma same_log [simp]: "w\<lparr>mg_tmux := l\<rparr> = w\<lparr>mg_tmux := l'\<rparr> \<longleftrightarrow> l = l'"
  by (cases w) simp

lemma notify_run:
  "\<exists>r log. py_catch (\<lambda>e. True) (notify a m session window s) (\<lambda>e. py_return False) w
      = (Inr r, w\<lparr>mg_tmux := mg_tmux w @ log\<rparr>)
    \<and> (r \<longleftrightarrow> all_answered a session) \<and> (r \<longrightarrow> SetPaneOption (session @ '':'' @ window) s \<in> set log)"
proof (cases "sa_has_session a")
  case (Inl e)
  then show ?thesis
    by (simp add: notify_def py_catch_def py_bind_def run_tmux_def py_return_def all_answered_def ex_bool_eq)
next
  case (Inr code)
  note run = notify_def py_catch_def py_bind_def run_tmux_def py_return_def all_answered_def ex_bool_eq
  show ?thesis
  proof (cases "code = 0")
    case True
    show ?thesis
    proof (cases "sa_set_option a")
      case (Inl e)
      with Inr True show ?thesis by (simp add: run)
    next
      case set: (Inr u)
      show ?thesis
        by (cases "sa_display a"; cases "Some session = current_session (sa_in_tmux a) (sa_current a)")
           (simp_all add: run Inr True set)
    qed
  qed (simp add: run Inr)
qed

text \<open>What a send to a well-formed address does.\<close>

lemma send_run:
  assumes "split_on CHR '':'' (am_to m) = [session, window]"
  shows "\<exists>w'. mg_store w' = snd (save_message m (sa_store_now a) (mg_store w))
    \<and> (case fst (save_message m (sa_store_now a) (mg_store w)) of
         Inl e \<Rightarrow> send a m w = (Inl e, w')
       | Inr i \<Rightarrow>
           send a m w = (Inr (sa_write a = Written \<and> all_answered a session), w')
           \<and> (sa_write a = Written \<and> all_answered a session \<longrightarrow>
                SetPaneOption (am_to m) (short_prefix @ take 8 (am_id m)) \<in> set (mg_tmux w')
                \<and> (\<exists>f. map_of (mg_temp w') (temp_name (am_id m)) = Some f \<and> tf_content f = Holds (message_json m))))"
proof -
  obtain r t where s: "save_message m (sa_store_now a) (mg_store w) = (r, t)" by (meson surj_pair)
  let ?w = "w\<lparr>mg_store := t\<rparr>"
  have saved: "on_messages (save_message m (sa_store_now a)) w = (r, ?w)" using s by (simp add: run_in_def)
  show ?thesis
  proof (cases r)
    case (Inl e)
    with s saved assms show ?thesis by (intro exI [of _ ?w]) (simp add: send_def py_bind_def)
  next
    case (Inr i)
    obtain d l where mt: "maintain a ?w = (Inr (), ?w\<lparr>mg_temp := d, mg_last_maintenance := l\<rparr>)"
      using maintain_run by blast
    let ?w2 = "?w\<lparr>mg_temp := d, mg_last_maintenance := l\<rparr>"
    have to: "am_to m = session @ '':'' @ window" using split_on_pair [OF assms] by simp
    show ?thesis
    proof (cases "sa_write a")
      case Written
      let ?f = "\<lparr>tf_content = Holds (message_json m), tf_mtime = sa_now a\<rparr>"
      let ?w3 = "?w2\<lparr>mg_temp := dict_set (temp_name (am_id m)) ?f d\<rparr>"
      from notify_run [of a m session window "short_prefix @ take 8 (am_id m)" ?w3] obtain b log where
        n: "py_catch (\<lambda>e. True) (notify a m session window (short_prefix @ take 8 (am_id m))) (\<lambda>e. py_return False) ?w3
            = (Inr b, ?w3\<lparr>mg_tmux := mg_tmux ?w3 @ log\<rparr>)"
          "b \<longleftrightarrow> all_answered a session" "b \<longrightarrow> SetPaneOption (am_to m) (short_prefix @ take 8 (am_id m)) \<in> set log"
        unfolding to by blast
      have "send a m w = (Inr b, ?w3\<lparr>mg_tmux := mg_tmux ?w3 @ log\<rparr>)"
        using assms saved Inr mt n(1) Written
        by (simp add: send_def py_bind_def py_catch_def [of _ "py_bind _ _"] run_in_def encode_message_def py_return_def)
      with s Inr n(2,3) Written show ?thesis
        by (intro exI [of _ "?w3\<lparr>mg_tmux := mg_tmux ?w3 @ log\<rparr>"]) (simp add: map_of_dict_set)
    next
      case (WriteFailed e b)
      then obtain d' where "send a m w = (Inr False, ?w2\<lparr>mg_temp := d'\<rparr>)"
        using assms saved Inr mt
        by (auto simp: send_def py_bind_def py_catch_def run_in_def encode_message_def py_return_def)
      with s Inr WriteFailed show ?thesis by (intro exI [of _ "?w2\<lparr>mg_temp := d'\<rparr>"]) simp
    qed
  qed
qed

text \<open>
  A send to an address that is not a session and a window does nothing and answers no. Otherwise the
  store is the transport: the message is saved there whatever the answer, a refused save raises, and the
  answer is yes exactly when the file was written and tmux knew the session and took both calls. So to all
  (\<open>*\<close>), which the store would deliver, nothing can be sent.
\<close>

theorem send_outcome:
  "case split_on CHR '':'' (am_to m) of
     [session, window] \<Rightarrow>
       mg_store (snd (send a m w)) = snd (save_message m (sa_store_now a) (mg_store w))
       \<and> fst (send a m w) = (case fst (save_message m (sa_store_now a) (mg_store w)) of
             Inl e \<Rightarrow> Inl e
           | Inr i \<Rightarrow> Inr (sa_write a = Written \<and> all_answered a session))
   | _ \<Rightarrow> send a m w = (Inr False, w)"
proof (cases "\<exists>session window. split_on CHR '':'' (am_to m) = [session, window]")
  case True
  then obtain session window where sw: "split_on CHR '':'' (am_to m) = [session, window]" by blast
  from send_run [OF sw, of a w] sw show ?thesis by (auto split: sum.splits)
next
  case False
  then show ?thesis by (auto simp: send_def py_simps split: list.splits)
qed

text \<open>
  C34: when a send answers yes, the message is in the store, and the reference that was left at the pane is
  decoded to exactly this message, also out of a longer text, as long as no other reference comes before it
  and the file is not yet swept.
\<close>

theorem sent_message_arrives:
  assumes "send a m w = (Inr True, w')"
    and "am_id m \<noteq> []" "\<forall>c \<in> set (take 8 (am_id m)). \<not> is_space c"
    and "\<not> contains_text ''# F:'' (before @ ''# F'')" "behind = [] \<or> is_space (hd behind)"
  shows "message_row_of m \<in> set (mg_store w')
    \<and> (\<exists>reference. SetPaneOption (am_to m) reference \<in> set (mg_tmux w')
         \<and> decode_message loads (mg_temp w') (before @ reference @ behind) = Inr (Some (wire_of m)))"
proof -
  from assms(1) obtain session window where sw: "split_on CHR '':'' (am_to m) = [session, window]"
    by (auto simp: send_def py_simps split: list.splits)
  obtain r t where r: "save_message m (sa_store_now a) (mg_store w) = (r, t)" by (meson surj_pair)
  from send_run [OF sw, of a w] assms(1) r obtain i where
    s: "r = Inr i" "mg_store w' = t" and
    p: "SetPaneOption (am_to m) (short_prefix @ take 8 (am_id m)) \<in> set (mg_tmux w')" and
    f: "\<exists>f. map_of (mg_temp w') (temp_name (am_id m)) = Some f \<and> tf_content f = Holds (message_json m)"
    by (cases r) auto
  have "message_row_of m \<in> set t"
    using s(1) r by (auto simp: save_message_run insert_message_def Let_def split: if_splits)
  then have "message_row_of m \<in> set (mg_store w')" unfolding s(2) .
  moreover have "take 8 (am_id m) \<noteq> []" using assms(2) by (cases "am_id m") simp_all
  from short_reference_read [OF _ this assms(3,5) refl, of before loads "mg_temp w'"] assms(4) f
  have "decode_message loads (mg_temp w') (before @ (short_prefix @ take 8 (am_id m)) @ behind) = Inr (Some (wire_of m))"
    by (auto simp: short_prefix_def create_from_message_json)
  ultimately show ?thesis using p by blast
qed

definition answered :: send_answers where
  "answered =
     \<lparr>sa_store_now = 1000, sa_now = 100, sa_sweep_now = 100, sa_stuck = [], sa_write = Written,
      sa_has_session = Inr 0, sa_set_option = Inr (), sa_in_tmux = False, sa_current = Inr (0, []),
      sa_display = Inr ()\<rparr>"

definition no_messages :: messenger where
  "no_messages = \<lparr>mg_store = [], mg_temp = [], mg_last_maintenance = 0, mg_tmux = []\<rparr>"

theorem sent_message_arrives_witness:
  "\<exists>w' reference. send answered greeting no_messages = (Inr True, w')
     \<and> SetPaneOption ''agent-2:0'' reference \<in> set (mg_tmux w')
     \<and> decode_message (\<lambda>s. None) (mg_temp w') (''$ ls; '' @ reference @ '' more'') = Inr (Some (wire_of greeting))"
proof -
  have "fst (send answered greeting no_messages) = Inr True" by code_simp
  then obtain w' where s: "send answered greeting no_messages = (Inr True, w')" by (metis prod.collapse)
  have "am_id greeting \<noteq> []" "\<forall>c \<in> set (take 8 (am_id greeting)). \<not> is_space c" "am_to greeting = ''agent-2:0''"
    "\<not> contains_text ''# F:'' (''$ ls; '' @ ''# F'')" "is_space (hd '' more'')" by code_simp+
  with sent_message_arrives [OF s, of "''$ ls; ''" "'' more''" "\<lambda>s. None"] s show ?thesis by auto
qed

end
