(* ===== verification/Scheduler.thy ===== *)
theory Scheduler
  imports Json Sql_Table
begin

text \<open>
  Tasks scheduled for later (src/domain/entities/scheduled_task.py), their table
  (scheduled_task_repository.py) and the service in front of it (scheduler_service.py). The clock is an
  argument; the context column is represented by the JSON value of its text.
\<close>

section \<open>The entity\<close>

datatype schedule_status = Pending | Executed | Cancelled | Failed

fun schedule_status_value :: "schedule_status \<Rightarrow> string" where
  "schedule_status_value Pending = ''PENDING''"
| "schedule_status_value Executed = ''EXECUTED''"
| "schedule_status_value Cancelled = ''CANCELLED''"
| "schedule_status_value Failed = ''FAILED''"

text \<open>\<open>TaskStatus(value)\<close>\<close>

definition schedule_status_of :: "string \<Rightarrow> schedule_status result" where
  "schedule_status_of v =
     (case find (\<lambda>s. schedule_status_value s = v) [Pending, Executed, Cancelled, Failed] of
        None \<Rightarrow> Inl (ValueError (quoted v @ '' is not a valid TaskStatus''))
      | Some s \<Rightarrow> Inr s)"

record scheduled_task =
  sk_id :: string
  sk_scheduled_at :: int
  sk_action :: string
  sk_status :: schedule_status
  sk_created_at :: int
  sk_context :: "json option"

definition is_dict :: "json \<Rightarrow> bool" where
  "is_dict d \<longleftrightarrow> (case d of JObject kvs \<Rightarrow> True | _ \<Rightarrow> False)"

definition valid_scheduled_task :: "scheduled_task \<Rightarrow> bool" where
  "valid_scheduled_task t \<longleftrightarrow>
     sk_id t \<noteq> [] \<and> 0 \<le> sk_scheduled_at t \<and> sk_action t \<noteq> [] \<and> 0 \<le> sk_created_at t
     \<and> (case sk_context t of None \<Rightarrow> True | Some d \<Rightarrow> is_dict d)"

definition make_scheduled_task :: "scheduled_task \<Rightarrow> scheduled_task result" where
  "make_scheduled_task t =
     (if sk_id t = [] then Inl (ValueError (''id no puede estar vac'' @ [CHR 0xED] @ ''o''))
      else if sk_scheduled_at t < 0 then Inl (ValueError ''scheduled_at debe ser no negativo'')
      else if sk_action t = [] then Inl (ValueError (''action no puede estar vac'' @ [CHR 0xED] @ ''o''))
      else if sk_created_at t < 0 then Inl (ValueError ''created_at debe ser no negativo'')
      else (case sk_context t of
              None \<Rightarrow> Inr t
            | Some d \<Rightarrow> if is_dict d then Inr t else Inl (TypeError ''context debe ser un diccionario o None'')))"

lemma make_scheduled_task_Inr: "make_scheduled_task t = Inr x \<longleftrightarrow> x = t \<and> valid_scheduled_task t"
  by (auto simp: make_scheduled_task_def valid_scheduled_task_def split: option.splits)

lemma schedule_status_of_value [simp]: "schedule_status_of (schedule_status_value s) = Inr s"
  by (cases s) (simp_all add: schedule_status_of_def)

section \<open>The repository\<close>

record schedule_row =
  sr_id :: string
  sr_scheduled_at :: int
  sr_action :: string
  sr_context :: "json option"
  sr_status :: string
  sr_created_at :: int

type_synonym schedule_table = "schedule_row list"

definition schedule_row_of :: "scheduled_task \<Rightarrow> schedule_row" where
  "schedule_row_of t =
     \<lparr>sr_id = sk_id t, sr_scheduled_at = sk_scheduled_at t, sr_action = sk_action t, sr_context = sk_context t,
      sr_status = schedule_status_value (sk_status t), sr_created_at = sk_created_at t\<rparr>"

definition row_to_scheduled_task :: "schedule_row \<Rightarrow> scheduled_task result" where
  "row_to_scheduled_task r =
     res_bind (schedule_status_of (sr_status r)) (\<lambda>s.
     make_scheduled_task \<lparr>sk_id = sr_id r, sk_scheduled_at = sr_scheduled_at r, sk_action = sr_action r,
       sk_status = s, sk_created_at = sr_created_at r, sk_context = sr_context r\<rparr>)"

definition create_scheduled_task :: "scheduled_task \<Rightarrow> (schedule_table, unit) py" where
  "create_scheduled_task k t =
     (if sk_id k \<in> sr_id ` set t
      then (Inl (RepositoryError (''ScheduledTask with id '' @ quoted (sk_id k) @ '' already exists'')), t)
      else (Inr (), t @ [schedule_row_of k]))"

definition get_scheduled_task :: "string \<Rightarrow> schedule_table \<Rightarrow> scheduled_task option result" where
  "get_scheduled_task i t =
     (case lookup_row sr_id i t of
        None \<Rightarrow> Inr None
      | Some r \<Rightarrow> res_bind (row_to_scheduled_task r) (\<lambda>k. Inr (Some k)))"

definition get_pending_tasks :: "schedule_table \<Rightarrow> scheduled_task list result" where
  "get_pending_tasks t =
     traverse row_to_scheduled_task (order_asc sr_scheduled_at
       (filter (\<lambda>r. sr_status r = schedule_status_value Pending) t))"

definition get_overdue :: "int \<Rightarrow> schedule_table \<Rightarrow> scheduled_task list result" where
  "get_overdue now t =
     traverse row_to_scheduled_task (order_asc sr_scheduled_at
       (filter (\<lambda>r. sr_status r = schedule_status_value Pending \<and> sr_scheduled_at r < now) t))"

definition scheduled_not_found :: "string \<Rightarrow> exc" where
  "scheduled_not_found i = RepositoryError (''ScheduledTask '' @ quoted i @ '' not found'')"

definition update_schedule_status :: "string \<Rightarrow> schedule_status \<Rightarrow> (schedule_table, unit) py" where
  "update_schedule_status i s t =
     (if \<not> rows_hit (\<lambda>r. sr_id r = i) t then (Inl (scheduled_not_found i), t)
      else (Inr (), update_where (\<lambda>r. sr_id r = i) (\<lambda>r. r\<lparr>sr_status := schedule_status_value s\<rparr>) t))"

definition delete_scheduled_task :: "string \<Rightarrow> (schedule_table, unit) py" where
  "delete_scheduled_task i t =
     (if \<not> rows_hit (\<lambda>r. sr_id r = i) t then (Inl (scheduled_not_found i), t)
      else (Inr (), delete_where (\<lambda>r. sr_id r = i) t))"

definition get_all_scheduled :: "schedule_table \<Rightarrow> scheduled_task list result" where
  "get_all_scheduled t = traverse row_to_scheduled_task (order_desc sr_created_at t)"

lemma schedule_status_value_inject: "schedule_status_value s = schedule_status_value s' \<longleftrightarrow> s = s'"
  using schedule_status_of_value by (metis Inr_inject)

lemma schedule_row_of_inject: "schedule_row_of k = schedule_row_of k' \<longleftrightarrow> k = k'"
  by (cases k; cases k') (auto simp: schedule_row_of_def schedule_status_value_inject)

section \<open>The service\<close>

definition schedule_task ::
  "string \<Rightarrow> int \<Rightarrow> string \<Rightarrow> json option \<Rightarrow> int \<Rightarrow> (schedule_table, scheduled_task) py" where
  "schedule_task i scheduled_at action ctx now =
     py_bind (py_lift (make_scheduled_task
       \<lparr>sk_id = i, sk_scheduled_at = scheduled_at, sk_action = action, sk_status = Pending,
        sk_created_at = now, sk_context = ctx\<rparr>)) (\<lambda>k.
     py_bind (create_scheduled_task k) (\<lambda>_. py_return k))"

definition mark_completed :: "string \<Rightarrow> (schedule_table, unit) py" where
  "mark_completed i = update_schedule_status i Executed"

definition mark_task_failed :: "string \<Rightarrow> (schedule_table, unit) py" where
  "mark_task_failed i = update_schedule_status i Failed"

definition cancel_scheduled :: "string \<Rightarrow> (schedule_table, unit) py" where
  "cancel_scheduled i = update_schedule_status i Cancelled"

section \<open>Sequences of calls\<close>

datatype schedule_call =
    Schedule string int string "json option" int
  | Complete string
  | Fail string
  | Cancel string
  | Remove string

fun run_schedule_call :: "schedule_call \<Rightarrow> (schedule_table, unit) py" where
  "run_schedule_call (Schedule i due action ctx now) =
     py_bind (schedule_task i due action ctx now) (\<lambda>_. py_return ())"
| "run_schedule_call (Complete i) = mark_completed i"
| "run_schedule_call (Fail i) = mark_task_failed i"
| "run_schedule_call (Cancel i) = cancel_scheduled i"
| "run_schedule_call (Remove i) = delete_scheduled_task i"

fun run_schedule_calls :: "schedule_call list \<Rightarrow> schedule_table \<Rightarrow> schedule_table" where
  "run_schedule_calls [] t = t"
| "run_schedule_calls (c # cs) t = run_schedule_calls cs (snd (run_schedule_call c t))"

definition schedule_row_ok :: "schedule_row \<Rightarrow> bool" where
  "schedule_row_ok r \<longleftrightarrow> (\<exists>k. r = schedule_row_of k \<and> valid_scheduled_task k)"

definition schedule_ok :: "schedule_table \<Rightarrow> bool" where
  "schedule_ok t \<longleftrightarrow> pk_ok sr_id t \<and> (\<forall>r \<in> set t. schedule_row_ok r)"

lemma row_of_scheduled: "valid_scheduled_task k \<Longrightarrow> row_to_scheduled_task (schedule_row_of k) = Inr k"
  using make_scheduled_task_Inr [of k k] by (cases k) (simp add: row_to_scheduled_task_def schedule_row_of_def)

lemma preserves_schedule_status: "preserves schedule_ok (update_schedule_status i s)"
proof
  fix t assume ok: "schedule_ok t"
  have "schedule_row_ok (r\<lparr>sr_status := schedule_status_value s\<rparr>)" if r: "schedule_row_ok r" for r
  proof -
    from r obtain k where k: "r = schedule_row_of k" "valid_scheduled_task k" by (auto simp: schedule_row_ok_def)
    then have "r\<lparr>sr_status := schedule_status_value s\<rparr> = schedule_row_of (k\<lparr>sk_status := s\<rparr>)"
      "valid_scheduled_task (k\<lparr>sk_status := s\<rparr>)"
      by (simp_all add: schedule_row_of_def valid_scheduled_task_def)
    then show ?thesis unfolding schedule_row_ok_def by blast
  qed
  with ok show "schedule_ok (snd (update_schedule_status i s t))"
    using pk_ok_update_where [of sr_id "\<lambda>r. r\<lparr>sr_status := schedule_status_value s\<rparr>" "\<lambda>r. sr_id r = i" t]
    by (auto simp: update_schedule_status_def schedule_ok_def set_update_where)
qed

lemma preserves_schedule_create:
  "valid_scheduled_task k \<Longrightarrow> preserves schedule_ok (create_scheduled_task k)"
  unfolding preserves_def create_scheduled_task_def schedule_ok_def
  by (auto simp: schedule_row_ok_def schedule_row_of_def intro: pk_ok_append1)

lemma schedule_ok_call: "schedule_ok t \<Longrightarrow> schedule_ok (snd (run_schedule_call c t))"
proof (cases c)
  case (Schedule i due action ctx now)
  let ?k = "\<lparr>sk_id = i, sk_scheduled_at = due, sk_action = action, sk_status = Pending, sk_created_at = now,
    sk_context = ctx\<rparr>"
  assume ok: "schedule_ok t"
  show ?thesis
  proof (cases "make_scheduled_task ?k")
    case (Inl e)
    with Schedule ok show ?thesis by (simp add: schedule_task_def py_simps py_bind_def)
  next
    case (Inr k)
    then have "preserves schedule_ok (create_scheduled_task k)"
      using make_scheduled_task_Inr preserves_schedule_create by metis
    with ok have "schedule_ok (snd (create_scheduled_task k t))" by (simp add: preserves_def)
    with Schedule Inr show ?thesis
      by (auto simp: schedule_task_def py_simps py_bind_def split: prod.splits sum.splits)
  qed
next
  case (Remove i)
  then show "schedule_ok t \<Longrightarrow> ?thesis"
    using pk_ok_delete_where [of sr_id t "\<lambda>r. sr_id r = i"]
    by (auto simp: delete_scheduled_task_def schedule_ok_def delete_where_def)
qed (use preserves_schedule_status in
    \<open>simp_all add: mark_completed_def mark_task_failed_def cancel_scheduled_def preserves_def\<close>)

lemma schedule_ok_calls: "schedule_ok t \<Longrightarrow> schedule_ok (run_schedule_calls cs t)"
  by (induction cs arbitrary: t) (simp_all add: schedule_ok_call)

text \<open>
  After any calls the overdue tasks can be listed: they are exactly the tasks that are pending and
  due before now, each once, in the order in which they were due.
\<close>

theorem overdue_exact:
  "\<exists>ks. get_overdue now (run_schedule_calls cs []) = Inr ks
     \<and> sorted (map sk_scheduled_at ks) \<and> distinct (map sk_id ks)
     \<and> (\<forall>k. k \<in> set ks \<longleftrightarrow>
           get_scheduled_task (sk_id k) (run_schedule_calls cs []) = Inr (Some k)
           \<and> sk_status k = Pending \<and> sk_scheduled_at k < now)"
proof -
  let ?t = "run_schedule_calls cs []"
  let ?p = "\<lambda>r. sr_status r = schedule_status_value Pending \<and> sr_scheduled_at r < now"
  let ?rows = "order_asc sr_scheduled_at (filter ?p ?t)"
  have ok: "schedule_ok ?t" by (rule schedule_ok_calls) (simp add: schedule_ok_def pk_ok_def)
  have task: "\<exists>k. r = schedule_row_of k \<and> row_to_scheduled_task r = Inr k" if "r \<in> set ?t" for r
    using ok that row_of_scheduled by (auto simp: schedule_ok_def schedule_row_ok_def)
  define task_of where "task_of r = projr (row_to_scheduled_task r)" for r
  have reads: "row_to_scheduled_task r = Inr (task_of r) \<and> r = schedule_row_of (task_of r)" if "r \<in> set ?t" for r
    using task [OF that] by (auto simp: task_of_def)
  have list: "get_overdue now ?t = Inr (map task_of ?rows)"
    unfolding get_overdue_def using reads by (intro traverse_Inr) simp
  have keys: "map sk_scheduled_at (map task_of ?rows) = map sr_scheduled_at ?rows"
    "map sk_id (map task_of ?rows) = map sr_id ?rows"
    using reads by (auto simp: schedule_row_of_def) (metis schedule_row.select_convs)+
  have "distinct (map sr_id ?rows)" using ok by (simp add: schedule_ok_def pk_ok_def distinct_map_filter_key)
  moreover have "sorted (map sr_scheduled_at ?rows)" by (simp add: order_asc_def)
  moreover have "k \<in> set (map task_of ?rows) \<longleftrightarrow> get_scheduled_task (sk_id k) ?t = Inr (Some k)
      \<and> sk_status k = Pending \<and> sk_scheduled_at k < now" for k
  proof -
    have "lookup_row sr_id (sk_id k) ?t = Some (schedule_row_of k) \<longleftrightarrow> schedule_row_of k \<in> set ?t"
      using ok lookup_row_iff [of sr_id ?t "sk_id k" "schedule_row_of k"]
      by (simp add: schedule_ok_def schedule_row_of_def)
    moreover have "get_scheduled_task (sk_id k) ?t = Inr (Some k)
        \<longleftrightarrow> (\<exists>r. lookup_row sr_id (sk_id k) ?t = Some r \<and> row_to_scheduled_task r = Inr k)"
      by (auto simp: get_scheduled_task_def res_bind_Inr_iff split: option.splits)
    moreover have "task_of (schedule_row_of k) = k" if "schedule_row_of k \<in> set ?t"
      using reads [OF that] schedule_row_of_inject by simp
    ultimately have "get_scheduled_task (sk_id k) ?t = Inr (Some k) \<longleftrightarrow> schedule_row_of k \<in> set ?t"
      using reads lookup_row_Some [of sr_id "sk_id k" ?t] by fastforce
    moreover have "k \<in> set (map task_of ?rows) \<longleftrightarrow> schedule_row_of k \<in> set ?rows"
      using reads schedule_row_of_inject by (force simp: image_iff)
    moreover have "sr_status (schedule_row_of k) = schedule_status_value Pending \<longleftrightarrow> sk_status k = Pending"
      "sr_scheduled_at (schedule_row_of k) = sk_scheduled_at k"
      using schedule_status_value_inject [of "sk_status k" Pending] by (simp_all add: schedule_row_of_def)
    ultimately show ?thesis by (simp only: set_order_asc set_filter mem_Collect_eq)
  qed
  ultimately show ?thesis unfolding list keys(1) [symmetric] keys(2) [symmetric] by blast
qed

end
