(* ===== verification/Telemetry_Store.thy ===== *)
theory Telemetry_Store
  imports Complex_Main Json Py_Strings Sql_Table "HOL-Library.Char_ord" "HOL-Library.List_Lexorder"
begin

text \<open>
  Telemetry events, metric buckets and session summaries (src/domain/entities/telemetry_event.py) and
  their three tables (telemetry_repository.py). Floating point numbers are rationals; the columns that
  hold JSON are represented by the values of their texts; the hash of the labels is an argument.
\<close>

section \<open>Entities\<close>

datatype event_category = SESSION | HOOK | AGENT | TMUX | MEMORY | WORKFLOW | CLI | MESSAGE | TRACE | ERROR

fun category_value :: "event_category \<Rightarrow> string" where
  "category_value SESSION = ''session''"
| "category_value HOOK = ''hook''"
| "category_value AGENT = ''agent''"
| "category_value TMUX = ''tmux''"
| "category_value MEMORY = ''memory''"
| "category_value WORKFLOW = ''workflow''"
| "category_value CLI = ''cli''"
| "category_value MESSAGE = ''message''"
| "category_value TRACE = ''trace''"
| "category_value ERROR = ''error''"

text \<open>\<open>EventCategory(value)\<close>, which also takes a member.\<close>

definition category_of :: "string \<Rightarrow> event_category result" where
  "category_of v =
     (case find (\<lambda>c. category_value c = v)
              [SESSION, HOOK, AGENT, TMUX, MEMORY, WORKFLOW, CLI, MESSAGE, TRACE, ERROR] of
        None \<Rightarrow> Inl (ValueError (quoted v @ '' is not a valid EventCategory''))
      | Some c \<Rightarrow> Inr c)"

lemma category_of_value [simp]: "category_of (category_value c) = Inr c"
  by (cases c) (simp_all add: category_of_def)

datatype event_type =
    SESSION_START | SESSION_END
  | HOOK_FIRE | HOOK_SUCCESS | HOOK_FAIL
  | AGENT_SPAWN | AGENT_STOP | AGENT_HEALTH_CHECK
  | TMUX_SESSION_CREATE | TMUX_SESSION_KILL | TMUX_SESSION_LIST
  | MEMORY_SAVE | MEMORY_SEARCH | MEMORY_LIST | MEMORY_DELETE
  | WORKFLOW_OUTLINE | WORKFLOW_EXECUTE | WORKFLOW_VERIFY | WORKFLOW_SHIP | WORKFLOW_ABORT
  | CLI_COMMAND | CLI_ERROR | CLI_HYBRID_DISPATCH
  | TRACE_SPAN_START | TRACE_SPAN_END

fun type_value :: "event_type \<Rightarrow> string" where
  "type_value SESSION_START = ''session.start''"
| "type_value SESSION_END = ''session.end''"
| "type_value HOOK_FIRE = ''hook.fire''"
| "type_value HOOK_SUCCESS = ''hook.success''"
| "type_value HOOK_FAIL = ''hook.fail''"
| "type_value AGENT_SPAWN = ''agent.spawn''"
| "type_value AGENT_STOP = ''agent.stop''"
| "type_value AGENT_HEALTH_CHECK = ''agent.health_check''"
| "type_value TMUX_SESSION_CREATE = ''tmux.session.create''"
| "type_value TMUX_SESSION_KILL = ''tmux.session.kill''"
| "type_value TMUX_SESSION_LIST = ''tmux.session.list''"
| "type_value MEMORY_SAVE = ''memory.save''"
| "type_value MEMORY_SEARCH = ''memory.search''"
| "type_value MEMORY_LIST = ''memory.list''"
| "type_value MEMORY_DELETE = ''memory.delete''"
| "type_value WORKFLOW_OUTLINE = ''workflow.outline''"
| "type_value WORKFLOW_EXECUTE = ''workflow.execute''"
| "type_value WORKFLOW_VERIFY = ''workflow.verify''"
| "type_value WORKFLOW_SHIP = ''workflow.ship''"
| "type_value WORKFLOW_ABORT = ''workflow.abort''"
| "type_value CLI_COMMAND = ''cli.command''"
| "type_value CLI_ERROR = ''cli.error''"
| "type_value CLI_HYBRID_DISPATCH = ''cli.hybrid_dispatch''"
| "type_value TRACE_SPAN_START = ''trace.span.start''"
| "type_value TRACE_SPAN_END = ''trace.span.end''"

text \<open>\<open>RETENTION_DAYS.get(category, 30)\<close>\<close>

fun retention_days :: "event_category \<Rightarrow> int" where
  "retention_days SESSION = 90"
| "retention_days WORKFLOW = 90"
| "retention_days TRACE = 7"
| "retention_days ERROR = 90"
| "retention_days c = 30"

text \<open>The value of an attribute: JSON, or a float.\<close>

datatype attribute = Attr json | FloatAttr rat

record telemetry_event =
  te_id :: string
  te_type :: string
  te_category :: string
  te_timestamp :: int
  te_received_at :: int
  te_attributes :: "(string \<times> attribute) list"
  te_session_id :: "string option"
  te_correlation_id :: "string option"
  te_parent_event_id :: "string option"
  te_metrics :: "(string \<times> rat) list option"
  te_expires_at :: "int option"

text \<open>A fresh id and the reading of the clock, in seconds.\<close>

type_synonym stamp = "string \<times> rat"

definition create_event ::
  "stamp \<Rightarrow> string \<Rightarrow> string \<Rightarrow> (string \<times> attribute) list \<Rightarrow> string option \<Rightarrow> string option \<Rightarrow> string option
     \<Rightarrow> (string \<times> rat) list option \<Rightarrow> int option \<Rightarrow> telemetry_event result" where
  "create_event stamp event_type event_category attributes session_id correlation_id parent_id metrics timestamp =
     res_bind (category_of event_category) (\<lambda>c.
     let now_ms = \<lfloor>snd stamp * 1000\<rfloor>
     in Inr \<lparr>te_id = fst stamp, te_type = event_type, te_category = category_value c,
          te_timestamp = (case timestamp of None \<Rightarrow> now_ms | Some t \<Rightarrow> if t = 0 then now_ms else t),
          te_received_at = now_ms, te_attributes = attributes, te_session_id = session_id,
          te_correlation_id = correlation_id, te_parent_event_id = parent_id, te_metrics = metrics,
          te_expires_at = Some \<lfloor>(snd stamp + of_int (retention_days c * 86400)) * 1000\<rfloor>\<rparr>)"

record metric_bucket =
  mb_id :: string
  mb_metric_name :: string
  mb_metric_type :: string
  mb_labels :: "(string \<times> string) list"
  mb_labels_hash :: string
  mb_bucket_start :: int
  mb_bucket_duration :: int
  mb_value_count :: int
  mb_value_sum :: rat
  mb_value_min :: "rat option"
  mb_value_max :: "rat option"
  mb_value_last :: "rat option"
  mb_updated_at :: int

record session_summary =
  ts_session_id :: string
  ts_workspace_id :: "string option"
  ts_started_at :: "int option"
  ts_ended_at :: "int option"
  ts_duration_ms :: "int option"
  ts_status :: string
  ts_hooks_fired :: int
  ts_hooks_succeeded :: int
  ts_hooks_failed :: int
  ts_agents_spawned :: int
  ts_agents_completed :: int
  ts_agents_failed :: int
  ts_tmux_sessions_created :: int
  ts_tmux_sessions_killed :: int
  ts_memory_saves :: int
  ts_memory_searches :: int
  ts_memory_deletes :: int
  ts_workflow_started :: int
  ts_workflow_completed :: int
  ts_workflow_aborted :: int
  ts_cli_commands :: int
  ts_cli_errors :: int
  ts_hybrid_dispatches :: int
  ts_platform :: "string option"
  ts_python_version :: "string option"
  ts_fork_agent_version :: "string option"

definition blank_summary :: "string \<Rightarrow> session_summary" where
  "blank_summary i =
     \<lparr>ts_session_id = i, ts_workspace_id = None, ts_started_at = None, ts_ended_at = None, ts_duration_ms = None,
      ts_status = ''active'', ts_hooks_fired = 0, ts_hooks_succeeded = 0, ts_hooks_failed = 0,
      ts_agents_spawned = 0, ts_agents_completed = 0, ts_agents_failed = 0, ts_tmux_sessions_created = 0,
      ts_tmux_sessions_killed = 0, ts_memory_saves = 0, ts_memory_searches = 0, ts_memory_deletes = 0,
      ts_workflow_started = 0, ts_workflow_completed = 0, ts_workflow_aborted = 0, ts_cli_commands = 0,
      ts_cli_errors = 0, ts_hybrid_dispatches = 0, ts_platform = None, ts_python_version = None,
      ts_fork_agent_version = None\<rparr>"

section \<open>The repository\<close>

record telemetry_store =
  tl_events :: "telemetry_event list"
  tl_metrics :: "metric_bucket list"
  tl_sessions :: "session_summary list"

text \<open>
  A batch is one transaction. The column of the expiry may not be NULL; an event whose id is known replaces
  the older one.
\<close>

definition save_batch :: "telemetry_event list \<Rightarrow> (telemetry_store, unit) py" where
  "save_batch es s =
     (if es = [] then (Inr (), s)
      else if \<exists>e \<in> set es. te_expires_at e = None
      then (Inl (IntegrityError ''NOT NULL constraint failed: telemetry_events.expires_at''), s)
      else (Inr (), s\<lparr>tl_events := fold (insert_or_replace te_id) es (tl_events s)\<rparr>))"

definition save_event_row :: "telemetry_event \<Rightarrow> (telemetry_store, unit) py" where
  "save_event_row e = save_batch [e]"

definition get_event :: "string \<Rightarrow> telemetry_store \<Rightarrow> telemetry_event option" where
  "get_event i s = lookup_row te_id i (tl_events s)"

record event_filter =
  ef_type :: "string option"
  ef_category :: "string option"
  ef_session :: "string option"
  ef_correlation :: "string option"
  ef_start :: "int option"
  ef_end :: "int option"

definition matches :: "'a option \<Rightarrow> ('a \<Rightarrow> bool) \<Rightarrow> bool" where
  "matches wanted p = (case wanted of None \<Rightarrow> True | Some x \<Rightarrow> p x)"

definition event_matches :: "event_filter \<Rightarrow> telemetry_event \<Rightarrow> bool" where
  "event_matches f e \<longleftrightarrow>
     matches (ef_type f) (\<lambda>x. te_type e = x) \<and> matches (ef_category f) (\<lambda>x. te_category e = x)
     \<and> matches (ef_session f) (\<lambda>x. te_session_id e = Some x)
     \<and> matches (ef_correlation f) (\<lambda>x. te_correlation_id e = Some x)
     \<and> matches (ef_start f) (\<lambda>x. x \<le> te_timestamp e) \<and> matches (ef_end f) (\<lambda>x. te_timestamp e \<le> x)"

definition query_events :: "event_filter \<Rightarrow> int \<Rightarrow> int \<Rightarrow> telemetry_store \<Rightarrow> telemetry_event list" where
  "query_events f limit offset s =
     sql_limit limit (drop (nat offset) (order_desc te_timestamp (filter (event_matches f) (tl_events s))))"

definition count_events :: "event_filter \<Rightarrow> telemetry_store \<Rightarrow> int" where
  "count_events f s = int (length (filter (event_matches f) (tl_events s)))"

definition aggregate_metric ::
  "((string \<times> string) list \<Rightarrow> string) \<Rightarrow> string \<Rightarrow> (string \<times> string) list \<Rightarrow> int \<Rightarrow> int \<Rightarrow> telemetry_store
     \<Rightarrow> metric_bucket list" where
  "aggregate_metric md5 name labels start_time end_time s =
     order_desc mb_bucket_start (filter (\<lambda>b. mb_metric_name b = name \<and> mb_labels_hash b = md5 labels
       \<and> start_time \<le> mb_bucket_start b \<and> mb_bucket_start b < end_time) (tl_metrics s))"

text \<open>\<open>COALESCE(MIN(x, ?), ?)\<close>, where \<open>MIN\<close> of NULL is NULL.\<close>

definition coalesce_with :: "(rat \<Rightarrow> rat \<Rightarrow> rat) \<Rightarrow> rat option \<Rightarrow> rat \<Rightarrow> rat option" where
  "coalesce_with f x v = (case x of None \<Rightarrow> Some v | Some y \<Rightarrow> Some (f y v))"

definition add_value :: "rat \<Rightarrow> int \<Rightarrow> metric_bucket \<Rightarrow> metric_bucket" where
  "add_value v now b =
     b\<lparr>mb_value_count := mb_value_count b + 1, mb_value_sum := mb_value_sum b + v,
       mb_value_min := coalesce_with min (mb_value_min b) v, mb_value_max := coalesce_with max (mb_value_max b) v,
       mb_value_last := Some v, mb_updated_at := now\<rparr>"

definition same_bucket :: "string \<Rightarrow> string \<Rightarrow> int \<Rightarrow> int \<Rightarrow> metric_bucket \<Rightarrow> bool" where
  "same_bucket name hash start duration b \<longleftrightarrow>
     mb_metric_name b = name \<and> mb_labels_hash b = hash \<and> mb_bucket_start b = start \<and> mb_bucket_duration b = duration"

definition record_metric ::
  "((string \<times> string) list \<Rightarrow> string) \<Rightarrow> string \<Rightarrow> int \<Rightarrow> string \<Rightarrow> string \<Rightarrow> rat \<Rightarrow> (string \<times> string) list \<Rightarrow> int
     \<Rightarrow> (telemetry_store, unit) py" where
  "record_metric md5 new_id now name type v labels duration s =
     (if duration = 0 then (Inl (ZeroDivisionError ''integer division or modulo by zero''), s)
      else
        (let start = (now div duration) * duration; hash = md5 labels
         in case find (same_bucket name hash start duration) (tl_metrics s) of
              Some b \<Rightarrow> (Inr (), s\<lparr>tl_metrics := update_where (\<lambda>x. mb_id x = mb_id b) (add_value v now) (tl_metrics s)\<rparr>)
            | None \<Rightarrow>
                (Inr (), s\<lparr>tl_metrics := tl_metrics s @
                   [\<lparr>mb_id = new_id, mb_metric_name = name, mb_metric_type = type, mb_labels = labels,
                     mb_labels_hash = hash, mb_bucket_start = start, mb_bucket_duration = duration,
                     mb_value_count = 1, mb_value_sum = v, mb_value_min = Some v, mb_value_max = Some v,
                     mb_value_last = Some v, mb_updated_at = now\<rparr>]\<rparr>)))"

text \<open>The table of sessions has no column for the hybrid dispatches: it is read back as its default.\<close>

definition row_to_session :: "session_summary \<Rightarrow> session_summary" where
  "row_to_session r = r\<lparr>ts_hybrid_dispatches := 0\<rparr>"

definition get_session_summary :: "string \<Rightarrow> telemetry_store \<Rightarrow> session_summary option" where
  "get_session_summary i s = map_option row_to_session (lookup_row ts_session_id i (tl_sessions s))"

definition save_session_summary :: "session_summary \<Rightarrow> (telemetry_store, unit) py" where
  "save_session_summary x s =
     (if ts_started_at x = None
      then (Inl (IntegrityError ''NOT NULL constraint failed: telemetry_sessions.started_at''), s)
      else (Inr (), s\<lparr>tl_sessions := insert_or_replace ts_session_id x (tl_sessions s)\<rparr>))"

definition list_summaries ::
  "string option \<Rightarrow> int option \<Rightarrow> int option \<Rightarrow> int \<Rightarrow> telemetry_store \<Rightarrow> session_summary list" where
  "list_summaries status start_time end_time limit s =
     map row_to_session (sql_limit limit (order_desc (\<lambda>r. the (ts_started_at r))
       (filter (\<lambda>r. matches status (\<lambda>x. ts_status r = x)
          \<and> matches start_time (\<lambda>x. x \<le> the (ts_started_at r))
          \<and> matches end_time (\<lambda>x. the (ts_started_at r) \<le> x)) (tl_sessions s))))"

definition cleanup_events :: "int \<Rightarrow> (telemetry_store, int) py" where
  "cleanup_events now s =
     (let keep = filter (\<lambda>e. \<not> the (te_expires_at e) < now) (tl_events s)
      in (Inr (int (length (tl_events s) - length keep)), s\<lparr>tl_events := keep\<rparr>))"

text \<open>\<open>GROUP BY\<close>: the groups come in the order of their keys.\<close>

definition counts_of :: "('a::linorder) list \<Rightarrow> ('a \<times> int) list" where
  "counts_of ks = map (\<lambda>k. (k, int (length (filter (\<lambda>x. x = k) ks)))) (sort (remdups ks))"

definition in_period :: "int option \<Rightarrow> int option \<Rightarrow> telemetry_event \<Rightarrow> bool" where
  "in_period start_time end_time e \<longleftrightarrow>
     matches start_time (\<lambda>x. x \<le> te_timestamp e) \<and> matches end_time (\<lambda>x. te_timestamp e \<le> x)"

definition counts_by_type :: "int option \<Rightarrow> int option \<Rightarrow> telemetry_store \<Rightarrow> (string \<times> int) list" where
  "counts_by_type start_time end_time s =
     counts_of (map te_type (filter (in_period start_time end_time) (tl_events s)))"

definition counts_by_category :: "int option \<Rightarrow> int option \<Rightarrow> telemetry_store \<Rightarrow> (string \<times> int) list" where
  "counts_by_category start_time end_time s =
     counts_of (map te_category (filter (in_period start_time end_time) (tl_events s)))"

end
