(* ===== verification/Telemetry.thy ===== *)
theory Telemetry
  imports Telemetry_Store Store_Part
begin

text \<open>
  The telemetry service (src/application/services/telemetry/telemetry_service.py): the buffer, the session
  with its counters, the methods that track an event, the queries and the two exports. Every method that
  writes runs under the lock or alone. Fresh ids and the clock are arguments.
\<close>

section \<open>The service\<close>

record telemetry =
  tm_store :: telemetry_store
  tm_buffer :: "telemetry_event list"
  tm_buffer_size :: int
  tm_enabled :: bool
  tm_session_id :: "string option"
  tm_session_start :: "int option"
  tm_platform :: string
  tm_python_version :: string
  tm_fork_agent_version :: string

text \<open>\<open>flag\<close> is the variable FORK_AGENT_TELEMETRY_ENABLED, if it is set.\<close>

definition new_telemetry ::
  "telemetry_store \<Rightarrow> int \<Rightarrow> bool \<Rightarrow> string option \<Rightarrow> string \<Rightarrow> string \<Rightarrow> string \<Rightarrow> telemetry" where
  "new_telemetry store buffer_size enabled flag platform python_version version =
     \<lparr>tm_store = store, tm_buffer = [], tm_buffer_size = buffer_size,
      tm_enabled = (enabled \<and> py_lower (case flag of None \<Rightarrow> ''true'' | Some v \<Rightarrow> v) \<noteq> ''false''),
      tm_session_id = None, tm_session_start = None, tm_platform = py_lower platform,
      tm_python_version = python_version, tm_fork_agent_version = version\<rparr>"

abbreviation on_telemetry :: "(telemetry_store, 'a) py \<Rightarrow> (telemetry, 'a) py" where
  "on_telemetry \<equiv> run_in tm_store (\<lambda>s w. w\<lparr>tm_store := s\<rparr>)"

interpretation telemetry_part: store_part tm_store "\<lambda>s w. w\<lparr>tm_store := s\<rparr>"
  by unfold_locales simp_all

definition flush :: "(telemetry, unit) py" where
  "flush =
     py_bind (py_read (\<lambda>w. Inr (tm_buffer w))) (\<lambda>es.
     if es = [] then py_return ()
     else py_bind (on_telemetry (save_batch es)) (\<lambda>_ w. (Inr (), w\<lparr>tm_buffer := []\<rparr>)))"

text \<open>The counter an event adds to, if it adds to one.\<close>

definition stopped_well :: "telemetry_event \<Rightarrow> bool" where
  "stopped_well e \<longleftrightarrow>
     (case map_of (te_attributes e) ''status'' of None \<Rightarrow> True | Some a \<Rightarrow> a = Attr (JString ''completed''))"

definition counted :: "telemetry_event \<Rightarrow> session_summary \<Rightarrow> session_summary option" where
  "counted e s =
     (if te_type e = type_value HOOK_FIRE then Some (s\<lparr>ts_hooks_fired := ts_hooks_fired s + 1\<rparr>)
      else if te_type e = type_value HOOK_SUCCESS then Some (s\<lparr>ts_hooks_succeeded := ts_hooks_succeeded s + 1\<rparr>)
      else if te_type e = type_value HOOK_FAIL then Some (s\<lparr>ts_hooks_failed := ts_hooks_failed s + 1\<rparr>)
      else if te_type e = type_value AGENT_SPAWN then Some (s\<lparr>ts_agents_spawned := ts_agents_spawned s + 1\<rparr>)
      else if te_type e = type_value AGENT_STOP
      then (if stopped_well e then Some (s\<lparr>ts_agents_completed := ts_agents_completed s + 1\<rparr>)
            else Some (s\<lparr>ts_agents_failed := ts_agents_failed s + 1\<rparr>))
      else if te_type e = type_value TMUX_SESSION_CREATE
      then Some (s\<lparr>ts_tmux_sessions_created := ts_tmux_sessions_created s + 1\<rparr>)
      else if te_type e = type_value TMUX_SESSION_KILL
      then Some (s\<lparr>ts_tmux_sessions_killed := ts_tmux_sessions_killed s + 1\<rparr>)
      else if te_type e = type_value MEMORY_SAVE then Some (s\<lparr>ts_memory_saves := ts_memory_saves s + 1\<rparr>)
      else if te_type e = type_value MEMORY_SEARCH then Some (s\<lparr>ts_memory_searches := ts_memory_searches s + 1\<rparr>)
      else if te_type e = type_value MEMORY_DELETE then Some (s\<lparr>ts_memory_deletes := ts_memory_deletes s + 1\<rparr>)
      else if te_type e = type_value WORKFLOW_OUTLINE \<or> te_type e = type_value WORKFLOW_EXECUTE
      then Some (s\<lparr>ts_workflow_started := ts_workflow_started s + 1\<rparr>)
      else if te_type e = type_value WORKFLOW_SHIP then Some (s\<lparr>ts_workflow_completed := ts_workflow_completed s + 1\<rparr>)
      else if te_type e = type_value WORKFLOW_ABORT then Some (s\<lparr>ts_workflow_aborted := ts_workflow_aborted s + 1\<rparr>)
      else if te_type e = type_value CLI_COMMAND then Some (s\<lparr>ts_cli_commands := ts_cli_commands s + 1\<rparr>)
      else if te_type e = type_value CLI_ERROR then Some (s\<lparr>ts_cli_errors := ts_cli_errors s + 1\<rparr>)
      else if te_type e = type_value CLI_HYBRID_DISPATCH
      then Some (s\<lparr>ts_hybrid_dispatches := ts_hybrid_dispatches s + 1\<rparr>)
      else None)"

definition update_session_summary :: "string \<Rightarrow> telemetry_event \<Rightarrow> (telemetry, unit) py" where
  "update_session_summary i e =
     py_bind (py_read (\<lambda>w. Inr (get_session_summary i (tm_store w)))) (\<lambda>found.
     case found of
       None \<Rightarrow> py_return ()
     | Some s \<Rightarrow>
         (case counted e s of
            None \<Rightarrow> py_return ()
          | Some s' \<Rightarrow> on_telemetry (save_session_summary s')))"

definition id_or_empty :: "string option \<Rightarrow> string" where
  "id_or_empty i = (case i of None \<Rightarrow> [] | Some s \<Rightarrow> s)"

text \<open>An event, as a caller hands it over.\<close>

record tracked =
  tk_type :: string
  tk_category :: string
  tk_attributes :: "(string \<times> attribute) list"
  tk_metrics :: "(string \<times> rat) list option"
  tk_correlation_id :: "string option"
  tk_parent_event_id :: "string option"
  tk_timestamp :: "int option"

definition event_of :: "stamp \<Rightarrow> string option \<Rightarrow> tracked \<Rightarrow> telemetry_event result" where
  "event_of stamp sid x =
     create_event stamp (tk_type x) (tk_category x) (tk_attributes x) sid (tk_correlation_id x)
       (tk_parent_event_id x) (tk_metrics x) (tk_timestamp x)"

definition buffer_event :: "telemetry_event \<Rightarrow> (telemetry, unit) py" where
  "buffer_event e w = (Inr (), w\<lparr>tm_buffer := tm_buffer w @ [e]\<rparr>)"

definition track :: "stamp \<Rightarrow> tracked \<Rightarrow> (telemetry, string) py" where
  "track stamp x =
     py_bind (py_read (\<lambda>w. Inr (tm_enabled w, tm_session_id w))) (\<lambda>(enabled, sid).
     if \<not> enabled then py_return []
     else
       py_bind (py_lift (event_of stamp sid x)) (\<lambda>e.
       py_bind (buffer_event e) (\<lambda>_.
       py_bind (py_read (\<lambda>w. Inr (int (length (tm_buffer w)) \<ge> tm_buffer_size w))) (\<lambda>full.
       py_bind (if full then flush else py_return ()) (\<lambda>_.
       py_bind (if id_or_empty sid \<noteq> [] then update_session_summary (id_or_empty sid) e else py_return ()) (\<lambda>_.
       py_return (te_id e)))))))"

definition track_typed ::
  "stamp \<Rightarrow> event_type \<Rightarrow> event_category \<Rightarrow> (string \<times> attribute) list \<Rightarrow> (string \<times> rat) list option
     \<Rightarrow> (telemetry, string) py" where
  "track_typed stamp t c attributes metrics =
     track stamp \<lparr>tk_type = type_value t, tk_category = category_value c, tk_attributes = attributes,
       tk_metrics = metrics, tk_correlation_id = None, tk_parent_event_id = None, tk_timestamp = None\<rparr>"

definition text_attr :: "string option \<Rightarrow> attribute" where
  "text_attr x = Attr (case x of None \<Rightarrow> JNull | Some t \<Rightarrow> JString t)"

section \<open>Sessions\<close>

definition start_telemetry_session :: "stamp \<Rightarrow> rat \<Rightarrow> string \<Rightarrow> string option \<Rightarrow> (telemetry, unit) py" where
  "start_telemetry_session stamp now i workspace =
     py_bind (py_read (\<lambda>w. Inr w)) (\<lambda>w.
     if \<not> tm_enabled w then py_return ()
     else
       (let start = \<lfloor>now * 1000\<rfloor> in
        py_bind (\<lambda>w. (Inr (), w\<lparr>tm_session_id := Some i, tm_session_start := Some start\<rparr>)) (\<lambda>_.
        py_bind (on_telemetry (save_session_summary
          ((blank_summary i)\<lparr>ts_workspace_id := workspace, ts_started_at := Some start,
             ts_platform := Some (tm_platform w), ts_python_version := Some (tm_python_version w),
             ts_fork_agent_version := Some (tm_fork_agent_version w)\<rparr>))) (\<lambda>_.
        py_bind (track_typed stamp SESSION_START SESSION
          [(''workspace_id'', text_attr workspace), (''platform'', Attr (JString (tm_platform w))),
           (''python_version'', Attr (JString (tm_python_version w))),
           (''fork_agent_version'', Attr (JString (tm_fork_agent_version w)))] None) (\<lambda>_.
        py_return ())))))"

definition end_telemetry_session :: "stamp \<Rightarrow> rat \<Rightarrow> string \<Rightarrow> (telemetry, unit) py" where
  "end_telemetry_session stamp now reason =
     py_bind (py_read (\<lambda>w. Inr (tm_enabled w, id_or_empty (tm_session_id w), tm_session_start w))) (\<lambda>(enabled, i, start).
     if \<not> enabled \<or> i = [] then py_return ()
     else
       (let now_ms = \<lfloor>now * 1000\<rfloor>;
            duration = (case start of None \<Rightarrow> 0 | Some t \<Rightarrow> if t = 0 then 0 else now_ms - t) in
        py_bind (track_typed stamp SESSION_END SESSION
          [(''reason'', Attr (JString reason)), (''duration_ms'', Attr (JNumber duration))]
          (Some [(''duration_ms'', of_int duration)])) (\<lambda>_.
        py_bind flush (\<lambda>_.
        py_bind (py_read (\<lambda>w. Inr (get_session_summary i (tm_store w)))) (\<lambda>found.
        py_bind (case found of
            None \<Rightarrow> py_return ()
          | Some s \<Rightarrow> on_telemetry (save_session_summary
              (s\<lparr>ts_ended_at := Some now_ms, ts_duration_ms := Some duration,
                 ts_status := (if reason = ''normal'' then ''ended'' else ''error'')\<rparr>))) (\<lambda>_ w.
        (Inr (), w\<lparr>tm_session_id := None, tm_session_start := None\<rparr>)))))))"

section \<open>The methods for common events\<close>

definition track_hook_fire ::
  "stamp \<Rightarrow> string \<Rightarrow> string \<Rightarrow> string \<Rightarrow> int \<Rightarrow> bool \<Rightarrow> (telemetry, string) py" where
  "track_hook_fire stamp hook_name event_type matcher timeout_ms critical =
     track_typed stamp HOOK_FIRE HOOK
       [(''hook_name'', Attr (JString hook_name)), (''event_type'', Attr (JString event_type)),
        (''matcher'', Attr (JString matcher)), (''timeout_ms'', Attr (JNumber timeout_ms)),
        (''critical'', Attr (JBool critical))]
       None"

definition track_hook_success ::
  "stamp \<Rightarrow> string \<Rightarrow> string \<Rightarrow> int \<Rightarrow> string \<Rightarrow> (telemetry, string) py" where
  "track_hook_success stamp hook_name event_type duration_ms output_preview =
     track_typed stamp HOOK_SUCCESS HOOK
       [(''hook_name'', Attr (JString hook_name)), (''event_type'', Attr (JString event_type)),
        (''duration_ms'', Attr (JNumber duration_ms)),
        (''output_preview'', Attr (JString (take 100 output_preview)))]
       (Some [(''duration_ms'', of_int duration_ms)])"

definition track_hook_fail ::
  "stamp \<Rightarrow> string \<Rightarrow> string \<Rightarrow> string \<Rightarrow> string \<Rightarrow> int \<Rightarrow> string \<Rightarrow> (telemetry, string) py" where
  "track_hook_fail stamp hook_name event_type error_type error_message duration_ms on_failure_policy =
     track_typed stamp HOOK_FAIL HOOK
       [(''hook_name'', Attr (JString hook_name)), (''event_type'', Attr (JString event_type)),
        (''error_type'', Attr (JString error_type)),
        (''error_message'', Attr (JString (take 200 error_message))),
        (''duration_ms'', Attr (JNumber duration_ms)),
        (''on_failure_policy'', Attr (JString on_failure_policy))]
       (Some [(''duration_ms'', of_int duration_ms)])"

definition track_agent_spawn ::
  "stamp \<Rightarrow> string \<Rightarrow> string \<Rightarrow> string \<Rightarrow> string \<Rightarrow> (telemetry, string) py" where
  "track_agent_spawn stamp agent_id agent_name session_name working_dir =
     track_typed stamp AGENT_SPAWN AGENT
       [(''agent_id'', Attr (JString agent_id)), (''agent_name'', Attr (JString agent_name)),
        (''session_name'', Attr (JString session_name)), (''working_dir'', Attr (JString working_dir))]
       None"

definition track_agent_stop ::
  "stamp \<Rightarrow> string \<Rightarrow> string \<Rightarrow> int \<Rightarrow> string \<Rightarrow> int \<Rightarrow> (telemetry, string) py" where
  "track_agent_stop stamp agent_id agent_name duration_ms status exit_code =
     track_typed stamp AGENT_STOP AGENT
       [(''agent_id'', Attr (JString agent_id)), (''agent_name'', Attr (JString agent_name)),
        (''duration_ms'', Attr (JNumber duration_ms)), (''status'', Attr (JString status)),
        (''exit_code'', Attr (JNumber exit_code))]
       (Some [(''duration_ms'', of_int duration_ms)])"

definition track_tmux_session_create ::
  "stamp \<Rightarrow> string \<Rightarrow> string \<Rightarrow> string \<Rightarrow> (telemetry, string) py" where
  "track_tmux_session_create stamp session_name session_type created_by =
     track_typed stamp TMUX_SESSION_CREATE TMUX
       [(''session_name'', Attr (JString session_name)), (''session_type'', Attr (JString session_type)),
        (''created_by'', Attr (JString created_by))]
       None"

definition track_tmux_session_kill ::
  "stamp \<Rightarrow> string \<Rightarrow> string \<Rightarrow> string \<Rightarrow> int \<Rightarrow> (telemetry, string) py" where
  "track_tmux_session_kill stamp session_name session_type reason duration_ms =
     track_typed stamp TMUX_SESSION_KILL TMUX
       [(''session_name'', Attr (JString session_name)), (''session_type'', Attr (JString session_type)),
        (''reason'', Attr (JString reason)), (''duration_ms'', Attr (JNumber duration_ms))]
       (Some [(''duration_ms'', of_int duration_ms)])"

definition track_memory_save ::
  "stamp \<Rightarrow> string \<Rightarrow> int \<Rightarrow> bool \<Rightarrow> (telemetry, string) py" where
  "track_memory_save stamp observation_id content_length has_metadata =
     track_typed stamp MEMORY_SAVE MEMORY
       [(''observation_id'', Attr (JString observation_id)),
        (''content_length'', Attr (JNumber content_length)), (''has_metadata'', Attr (JBool has_metadata))]
       (Some [(''content_length'', of_int content_length)])"

definition track_memory_search ::
  "stamp \<Rightarrow> int \<Rightarrow> int \<Rightarrow> int \<Rightarrow> int \<Rightarrow> (telemetry, string) py" where
  "track_memory_search stamp query_length limit results_count duration_ms =
     track_typed stamp MEMORY_SEARCH MEMORY
       [(''query_length'', Attr (JNumber query_length)), (''limit'', Attr (JNumber limit)),
        (''results_count'', Attr (JNumber results_count)), (''duration_ms'', Attr (JNumber duration_ms))]
       (Some [(''duration_ms'', of_int duration_ms), (''results_count'', of_int results_count)])"

definition track_memory_delete ::
  "stamp \<Rightarrow> string \<Rightarrow> string option \<Rightarrow> (telemetry, string) py" where
  "track_memory_delete stamp observation_id sid =
     track_typed stamp MEMORY_DELETE MEMORY
       [(''observation_id'', Attr (JString observation_id)), (''session_id'', text_attr sid)]
       None"

definition track_workflow_outline ::
  "stamp \<Rightarrow> string \<Rightarrow> int \<Rightarrow> (telemetry, string) py" where
  "track_workflow_outline stamp plan_id task_count =
     track_typed stamp WORKFLOW_OUTLINE WORKFLOW
       [(''plan_id'', Attr (JString plan_id)), (''task_count'', Attr (JNumber task_count))]
       (Some [(''task_count'', of_int task_count)])"

definition track_workflow_execute ::
  "stamp \<Rightarrow> string \<Rightarrow> string \<Rightarrow> int \<Rightarrow> (telemetry, string) py" where
  "track_workflow_execute stamp plan_id execute_id task_count =
     track_typed stamp WORKFLOW_EXECUTE WORKFLOW
       [(''plan_id'', Attr (JString plan_id)), (''execute_id'', Attr (JString execute_id)),
        (''task_count'', Attr (JNumber task_count))]
       None"

definition track_workflow_verify ::
  "stamp \<Rightarrow> string \<Rightarrow> int \<Rightarrow> int \<Rightarrow> bool \<Rightarrow> (telemetry, string) py" where
  "track_workflow_verify stamp verify_id tests_passed tests_failed unlock_ship =
     track_typed stamp WORKFLOW_VERIFY WORKFLOW
       [(''verify_id'', Attr (JString verify_id)), (''tests_passed'', Attr (JNumber tests_passed)),
        (''tests_failed'', Attr (JNumber tests_failed)), (''unlock_ship'', Attr (JBool unlock_ship))]
       (Some [(''tests_passed'', of_int tests_passed), (''tests_failed'', of_int tests_failed)])"

definition track_workflow_ship ::
  "stamp \<Rightarrow> string \<Rightarrow> string \<Rightarrow> int \<Rightarrow> (telemetry, string) py" where
  "track_workflow_ship stamp sid target_branch duration_total_ms =
     track_typed stamp WORKFLOW_SHIP WORKFLOW
       [(''session_id'', Attr (JString sid)), (''target_branch'', Attr (JString target_branch)),
        (''duration_total_ms'', Attr (JNumber duration_total_ms))]
       (Some [(''duration_total_ms'', of_int duration_total_ms)])"

definition track_workflow_abort ::
  "stamp \<Rightarrow> string \<Rightarrow> string \<Rightarrow> string \<Rightarrow> (telemetry, string) py" where
  "track_workflow_abort stamp sid phase reason =
     track_typed stamp WORKFLOW_ABORT WORKFLOW
       [(''session_id'', Attr (JString sid)), (''phase'', Attr (JString phase)),
        (''reason'', Attr (JString reason))]
       None"

definition track_cli_command ::
  "stamp \<Rightarrow> string \<Rightarrow> string option \<Rightarrow> int \<Rightarrow> int \<Rightarrow> int \<Rightarrow> (telemetry, string) py" where
  "track_cli_command stamp command_name subcommand args_count duration_ms exit_code =
     track_typed stamp CLI_COMMAND CLI
       [(''command_name'', Attr (JString command_name)), (''subcommand'', text_attr subcommand),
        (''args_count'', Attr (JNumber args_count)), (''duration_ms'', Attr (JNumber duration_ms)),
        (''exit_code'', Attr (JNumber exit_code))]
       (Some [(''duration_ms'', of_int duration_ms)])"

definition track_cli_error ::
  "stamp \<Rightarrow> string \<Rightarrow> string \<Rightarrow> string \<Rightarrow> (telemetry, string) py" where
  "track_cli_error stamp command_name error_type error_message =
     track_typed stamp CLI_ERROR CLI
       [(''command_name'', Attr (JString command_name)), (''error_type'', Attr (JString error_type)),
        (''error_message'', Attr (JString (take 200 error_message)))]
       None"

definition track_hybrid_dispatch ::
  "stamp \<Rightarrow> string \<Rightarrow> string \<Rightarrow> rat \<Rightarrow> int option \<Rightarrow> string option \<Rightarrow> (telemetry, string) py" where
  "track_hybrid_dispatch stamp command mode latency_ms server_pid reason =
     track_typed stamp CLI_HYBRID_DISPATCH CLI
       [(''command'', Attr (JString command)), (''mode'', Attr (JString mode)),
        (''latency_ms'', FloatAttr latency_ms), (''server_pid'', Attr (json_of_option server_pid)),
        (''reason'', text_attr reason)]
       (Some [(''latency_ms'', latency_ms)])"


section \<open>Queries and exports\<close>

definition get_events ::
  "string option \<Rightarrow> string option \<Rightarrow> int option \<Rightarrow> int option \<Rightarrow> int \<Rightarrow> telemetry \<Rightarrow> telemetry_event list" where
  "get_events ty session_id start_time end_time limit w =
     query_events \<lparr>ef_type = ty, ef_category = None, ef_session = session_id, ef_correlation = None,
       ef_start = start_time, ef_end = end_time\<rparr> limit 0 (tm_store w)"

text \<open>The lengths of the periods, in seconds; an unknown one is a day.\<close>

definition period_seconds :: "string \<Rightarrow> int" where
  "period_seconds p =
     (case map_of [(''1h'', 3600), (''24h'', 86400), (''7d'', 7 * 86400), (''30d'', 30 * 86400)] p of
        None \<Rightarrow> 86400 | Some n \<Rightarrow> n)"

definition get_metrics ::
  "((string \<times> string) list \<Rightarrow> string) \<Rightarrow> rat \<Rightarrow> string \<Rightarrow> (string \<times> string) list \<Rightarrow> string \<Rightarrow> telemetry
     \<Rightarrow> metric_bucket list" where
  "get_metrics md5 now name labels period w =
     aggregate_metric md5 name labels (\<lfloor>now\<rfloor> - period_seconds period) \<lfloor>now\<rfloor> (tm_store w)"

definition get_event_counts :: "rat \<Rightarrow> string \<Rightarrow> telemetry \<Rightarrow> (string \<times> int) list" where
  "get_event_counts now period w =
     (let now_ms = \<lfloor>now * 1000\<rfloor>
      in counts_by_type (Some (now_ms - period_seconds period * 1000)) (Some now_ms) (tm_store w))"

text \<open>One metric of the Prometheus text, with its two comment lines.\<close>

definition prometheus_lines :: "string \<Rightarrow> string \<Rightarrow> int \<Rightarrow> string list" where
  "prometheus_lines name help n =
     [''# HELP '' @ name @ '' '' @ help, ''# TYPE '' @ name @ '' counter'', name @ '' '' @ show_int n]"

definition category_lines :: "(string \<times> int) list \<Rightarrow> string \<Rightarrow> string \<Rightarrow> string \<Rightarrow> string list" where
  "category_lines counts c name help =
     (case map_of counts c of None \<Rightarrow> [] | Some n \<Rightarrow> prometheus_lines name help n)"

definition export_prometheus :: "telemetry \<Rightarrow> string" where
  "export_prometheus w =
     (let counts = counts_by_category None None (tm_store w);
          types = counts_by_type None None (tm_store w);
          hybrid = (case map_of types ''cli.hybrid_dispatch'' of None \<Rightarrow> 0 | Some n \<Rightarrow> n)
      in join [CHR 0x0A]
           (category_lines counts ''session'' ''fork_agent_session_total'' ''Total sessions started''
            @ category_lines counts ''hook'' ''fork_agent_hook_total'' ''Total hooks fired''
            @ category_lines counts ''agent'' ''fork_agent_agent_total'' ''Total agents spawned''
            @ category_lines counts ''memory'' ''fork_agent_memory_operations_total'' ''Total memory operations''
            @ category_lines counts ''workflow'' ''fork_agent_workflow_total'' ''Total workflow events''
            @ category_lines counts ''cli'' ''fork_agent_cli_commands_total'' ''Total CLI commands''
            @ [[]] @ prometheus_lines ''fork_agent_hybrid_dispatches_total'' ''Total hybrid dispatches'' hybrid
            @ category_lines counts ''message'' ''fork_agent_message_events_total'' ''Total messaging events''))"

definition summary_json :: "session_summary \<Rightarrow> json" where
  "summary_json s =
     JObject [(''session_id'', JString (ts_session_id s)), (''status'', JString (ts_status s)),
       (''duration_ms'', json_of_option (ts_duration_ms s)), (''hooks_fired'', JNumber (ts_hooks_fired s)),
       (''agents_spawned'', JNumber (ts_agents_spawned s)), (''memory_saves'', JNumber (ts_memory_saves s)),
       (''workflow_started'', JNumber (ts_workflow_started s)), (''cli_commands'', JNumber (ts_cli_commands s))]"

definition counts_json :: "(string \<times> int) list \<Rightarrow> json" where
  "counts_json counts = JObject (map (\<lambda>(k, n). (k, JNumber n)) counts)"

definition export_json :: "rat \<Rightarrow> string \<Rightarrow> telemetry \<Rightarrow> json" where
  "export_json now period w =
     JObject [(''period'', JString period),
       (''event_counts_by_type'', counts_json (get_event_counts now period w)),
       (''event_counts_by_category'', counts_json (counts_by_category None None (tm_store w))),
       (''sessions'', JArray (map summary_json (list_summaries None None None 10 (tm_store w))))]"

end
