(* ===== verification/Telemetry_Properties.thy ===== *)
theory Telemetry_Properties
  imports Telemetry
begin

text \<open>
  The properties of telemetry: no tracked event is lost between buffer and table, and the counters of a
  session count the events tracked in it.
\<close>

section \<open>Sequences of calls\<close>

datatype telemetry_call = Track stamp tracked | Flush

fun run_telemetry_call :: "telemetry_call \<Rightarrow> telemetry \<Rightarrow> telemetry" where
  "run_telemetry_call (Track stamp x) w = snd (track stamp x w)"
| "run_telemetry_call Flush w = snd (flush w)"

fun run_telemetry_calls :: "telemetry_call list \<Rightarrow> telemetry \<Rightarrow> telemetry" where
  "run_telemetry_calls [] w = w"
| "run_telemetry_calls (c # cs) w = run_telemetry_calls cs (run_telemetry_call c w)"

text \<open>The events the calls create: a category that is not known creates none.\<close>

fun created :: "string option \<Rightarrow> telemetry_call list \<Rightarrow> telemetry_event list" where
  "created sid [] = []"
| "created sid (Track stamp x # cs) =
     (case event_of stamp sid x of Inl e \<Rightarrow> created sid cs | Inr e \<Rightarrow> e # created sid cs)"
| "created sid (Flush # cs) = created sid cs"

definition all_events :: "telemetry \<Rightarrow> telemetry_event list" where
  "all_events w = tl_events (tm_store w) @ tm_buffer w"

definition telemetry_ok :: "telemetry \<Rightarrow> bool" where
  "telemetry_ok w \<longleftrightarrow>
     tm_enabled w \<and> (\<forall>e \<in> set (tm_buffer w). te_expires_at e \<noteq> None)
     \<and> int (length (tm_buffer w)) < max 1 (tm_buffer_size w)
     \<and> (\<forall>s \<in> set (tl_sessions (tm_store w)). ts_started_at s \<noteq> None)"

text \<open>What a call leaves as it was.\<close>

definition same_setup :: "telemetry \<Rightarrow> telemetry \<Rightarrow> bool" where
  "same_setup v w \<longleftrightarrow>
     tm_enabled w = tm_enabled v \<and> tm_session_id w = tm_session_id v \<and> tm_buffer_size w = tm_buffer_size v"

lemma fold_insert_fresh:
  "distinct (map key (t @ es)) \<Longrightarrow> fold (insert_or_replace key) es t = t @ es"
proof (induction es arbitrary: t)
  case (Cons e es)
  then have "filter (\<lambda>x. key x \<noteq> key e) t = t" by (simp add: filter_id_conv image_iff) (metis image_eqI)
  with Cons show ?case by (simp add: insert_or_replace_def)
qed simp

lemma flush_run:
  assumes "\<forall>e \<in> set (tm_buffer w). te_expires_at e \<noteq> None" "distinct (map te_id (all_events w))"
  shows "flush w = (Inr (), w\<lparr>tm_store := (tm_store w)\<lparr>tl_events := all_events w\<rparr>, tm_buffer := []\<rparr>)"
proof (cases "tm_buffer w = []")
  case True
  then show ?thesis by (cases w; cases "tm_store w") (simp add: flush_def py_simps all_events_def)
next
  case False
  have "fold (insert_or_replace te_id) (tm_buffer w) (tl_events (tm_store w)) = all_events w"
    using assms(2) fold_insert_fresh unfolding all_events_def by blast
  moreover have "\<not> (\<exists>e \<in> set (tm_buffer w). te_expires_at e = None)" using assms(1) by blast
  ultimately show ?thesis
    using False by (simp add: flush_def py_simps py_bind_def run_in_def save_batch_def)
qed

lemma event_of_Inr: "event_of stamp sid x = Inr e \<Longrightarrow> te_id e = fst stamp \<and> te_expires_at e \<noteq> None"
  by (auto simp: event_of_def create_event_def res_bind_Inr_iff Let_def)

text \<open>The table of sessions after the counters were updated.\<close>

definition count_in :: "string \<Rightarrow> telemetry_event \<Rightarrow> telemetry_store \<Rightarrow> telemetry_store" where
  "count_in i e t =
     (case get_session_summary i t of
        None \<Rightarrow> t
      | Some s \<Rightarrow> (case counted e s of
                     None \<Rightarrow> t
                   | Some s' \<Rightarrow> t\<lparr>tl_sessions := insert_or_replace ts_session_id s' (tl_sessions t)\<rparr>))"

lemma get_session_summary_Some:
  "get_session_summary i t = Some s \<Longrightarrow>
     ts_session_id s = i \<and> (\<exists>r \<in> set (tl_sessions t). s = row_to_session r)"
  by (auto simp: get_session_summary_def row_to_session_def dest!: lookup_row_Some)

lemma counted_keeps:
  "counted e s = Some s' \<Longrightarrow> ts_session_id s' = ts_session_id s \<and> ts_started_at s' = ts_started_at s"
  by (auto simp: counted_def split: if_splits)

lemma update_session_summary_run:
  assumes "\<forall>s \<in> set (tl_sessions (tm_store w)). ts_started_at s \<noteq> None"
  shows "update_session_summary i e w = (Inr (), w\<lparr>tm_store := count_in i e (tm_store w)\<rparr>)"
proof (cases "get_session_summary i (tm_store w)")
  case None
  then show ?thesis by (cases w) (simp add: update_session_summary_def py_simps count_in_def)
next
  case (Some s)
  then have "ts_started_at s \<noteq> None"
    using assms get_session_summary_Some by (fastforce simp: row_to_session_def)
  with Some counted_keeps show ?thesis
    by (cases w) (auto simp: update_session_summary_def py_simps count_in_def run_in_def save_session_summary_def
        split: option.splits)
qed

lemma count_in_frame:
  "tl_events (count_in i e t) = tl_events t"
  "\<forall>s \<in> set (tl_sessions t). ts_started_at s \<noteq> None \<Longrightarrow> \<forall>s \<in> set (tl_sessions (count_in i e t)). ts_started_at s \<noteq> None"
proof -
  show "tl_events (count_in i e t) = tl_events t" by (simp add: count_in_def split: option.splits)
  assume ok: "\<forall>s \<in> set (tl_sessions t). ts_started_at s \<noteq> None"
  show "\<forall>s \<in> set (tl_sessions (count_in i e t)). ts_started_at s \<noteq> None"
  proof (cases "get_session_summary i t")
    case (Some s)
    then have "ts_started_at s \<noteq> None"
      using ok get_session_summary_Some by (fastforce simp: row_to_session_def)
    with Some ok counted_keeps show ?thesis
      by (fastforce simp: count_in_def insert_or_replace_def split: option.splits)
  qed (use ok in \<open>simp add: count_in_def\<close>)
qed

text \<open>One call of \<open>track\<close>.\<close>

lemma track_run:
  assumes "telemetry_ok w" "event_of stamp (tm_session_id w) x = Inr e" "distinct (map te_id (all_events w @ [e]))"
  shows "\<exists>w'. track stamp x w = (Inr (te_id e), w') \<and> same_setup w w' \<and> telemetry_ok w'
    \<and> all_events w' = all_events w @ [e]
    \<and> tl_sessions (tm_store w') = tl_sessions (if id_or_empty (tm_session_id w) = [] then tm_store w
          else count_in (id_or_empty (tm_session_id w)) e (tm_store w))"
proof -
  let ?w = "w\<lparr>tm_buffer := tm_buffer w @ [e]\<rparr>"
  let ?full = "tm_buffer_size w \<le> int (length (tm_buffer w) + 1)"
  let ?w2 = "if ?full then ?w\<lparr>tm_store := (tm_store w)\<lparr>tl_events := all_events w @ [e]\<rparr>, tm_buffer := []\<rparr> else ?w"
  let ?i = "id_or_empty (tm_session_id w)"
  let ?w3 = "if ?i = [] then ?w2 else ?w2\<lparr>tm_store := count_in ?i e (tm_store ?w2)\<rparr>"
  have all: "all_events ?w = all_events w @ [e]" by (simp add: all_events_def)
  have "\<forall>e \<in> set (tm_buffer ?w). te_expires_at e \<noteq> None"
    using assms(1) event_of_Inr [OF assms(2)] by (auto simp: telemetry_ok_def)
  then have "flush ?w = (Inr (), ?w\<lparr>tm_store := (tm_store w)\<lparr>tl_events := all_events w @ [e]\<rparr>, tm_buffer := []\<rparr>)"
    using flush_run [of ?w] assms(3) unfolding all by simp
  then have flushed: "(if ?full then flush else py_return ()) ?w = (Inr (), ?w2)" by (simp add: py_return_def)
  have ok: "\<forall>s \<in> set (tl_sessions (tm_store ?w2)). ts_started_at s \<noteq> None"
    using assms(1) by (simp add: telemetry_ok_def)
  have "(if ?i \<noteq> [] then update_session_summary ?i e else py_return ()) ?w2 = (Inr (), ?w3)"
    using update_session_summary_run [OF ok] by (simp add: py_return_def)
  with flushed assms(1,2) have "track stamp x w = (Inr (te_id e), ?w3)"
    by (simp add: track_def py_simps py_bind_def buffer_event_def telemetry_ok_def py_return_def)
  moreover have "all_events ?w3 = all_events w @ [e]"
    by (simp add: all_events_def count_in_frame(1))
  moreover have "\<forall>s \<in> set (tl_sessions (tm_store ?w3)). ts_started_at s \<noteq> None"
    using ok count_in_frame(2) [OF ok, of ?i e] by simp
  then have "telemetry_ok ?w3"
    using assms(1) event_of_Inr [OF assms(2)] by (auto simp: telemetry_ok_def)
  moreover have "tl_sessions (count_in i e (t\<lparr>tl_events := es\<rparr>)) = tl_sessions (count_in i e t)" for i t es
    by (simp add: count_in_def get_session_summary_def split: option.splits)
  then have "tl_sessions (tm_store ?w3) = tl_sessions (if ?i = [] then tm_store w else count_in ?i e (tm_store w))"
    by simp
  ultimately show ?thesis by (intro exI [of _ ?w3]) (simp add: same_setup_def)
qed

lemma track_refused:
  assumes "event_of stamp (tm_session_id w) x = Inl e"
  shows "snd (track stamp x w) = w"
  using assms by (simp add: track_def py_simps py_bind_def)

lemma flush_call:
  assumes "telemetry_ok w" "distinct (map te_id (all_events w))"
  shows "same_setup w (snd (flush w)) \<and> telemetry_ok (snd (flush w)) \<and> all_events (snd (flush w)) = all_events w
    \<and> tl_sessions (tm_store (snd (flush w))) = tl_sessions (tm_store w)"
  using flush_run [of w] assms by (simp add: telemetry_ok_def same_setup_def all_events_def)

section \<open>No event is lost\<close>

lemma calls_keep_events:
  assumes "telemetry_ok w" "distinct (map te_id (all_events w @ created (tm_session_id w) cs))"
  shows "same_setup w (run_telemetry_calls cs w) \<and> telemetry_ok (run_telemetry_calls cs w)
    \<and> all_events (run_telemetry_calls cs w) = all_events w @ created (tm_session_id w) cs"
  using assms
proof (induction cs arbitrary: w)
  case (Cons c cs)
  show ?case
  proof (cases c)
    case (Track stamp x)
    show ?thesis
    proof (cases "event_of stamp (tm_session_id w) x")
      case (Inl e)
      with Cons Track track_refused [OF Inl] show ?thesis by simp
    next
      case (Inr e)
      have "distinct (map te_id (all_events w @ [e]))" using Cons.prems(2) Track Inr by simp
      from track_run [OF Cons.prems(1) Inr this] obtain w' where
        w': "snd (track stamp x w) = w'" "same_setup w w'" "telemetry_ok w'" "all_events w' = all_events w @ [e]" by auto
      then have "tm_session_id w' = tm_session_id w" by (simp add: same_setup_def)
      with Cons.IH [OF w'(3)] Cons.prems(2) Track Inr w' show ?thesis by (simp add: same_setup_def)
    qed
  next
    case Flush
    have "distinct (map te_id (all_events w))" using Cons.prems(2) by simp
    from flush_call [OF Cons.prems(1) this] Cons Flush show ?thesis by (simp add: same_setup_def)
  qed
qed (simp add: same_setup_def)

text \<open>
  C37: whatever is tracked and flushed: table and buffer together hold the events that were there before
  and then the tracked ones, in their order and each once, and the buffer stays below its size.
\<close>

theorem events_never_lost:
  assumes "telemetry_ok w" "distinct (map te_id (all_events w @ created (tm_session_id w) cs))"
  shows "tl_events (tm_store (run_telemetry_calls cs w)) @ tm_buffer (run_telemetry_calls cs w)
       = tl_events (tm_store w) @ tm_buffer w @ created (tm_session_id w) cs
     \<and> int (length (tm_buffer (run_telemetry_calls cs w))) < max 1 (tm_buffer_size w)"
  using calls_keep_events [OF assms] by (auto simp: all_events_def telemetry_ok_def same_setup_def)

definition sample_telemetry :: telemetry where
  "sample_telemetry =
     new_telemetry \<lparr>tl_events = [], tl_metrics = [], tl_sessions = []\<rparr> 2 True None ''Linux'' ''3.11'' ''0.1''"

definition sample_tracked :: "event_type \<Rightarrow> event_category \<Rightarrow> tracked" where
  "sample_tracked t c =
     \<lparr>tk_type = type_value t, tk_category = category_value c, tk_attributes = [], tk_metrics = None,
      tk_correlation_id = None, tk_parent_event_id = None, tk_timestamp = None\<rparr>"

definition sample_telemetry_calls :: "telemetry_call list" where
  "sample_telemetry_calls =
     [Track (''a'', 1) (sample_tracked HOOK_FIRE HOOK), Track (''b'', 2) (sample_tracked AGENT_STOP AGENT),
      Track (''c'', 3) (sample_tracked HOOK_FIRE HOOK)]"

lemma sample_telemetry_ok: "telemetry_ok sample_telemetry"
proof -
  have "tm_enabled sample_telemetry" by code_simp
  then show ?thesis by (simp add: telemetry_ok_def sample_telemetry_def new_telemetry_def)
qed

theorem events_never_lost_witness:
  "map te_id (tl_events (tm_store (run_telemetry_calls sample_telemetry_calls sample_telemetry))
     @ tm_buffer (run_telemetry_calls sample_telemetry_calls sample_telemetry)) = [''a'', ''b'', ''c'']"
proof -
  have ids: "map te_id (all_events sample_telemetry @ created (tm_session_id sample_telemetry) sample_telemetry_calls)
      = [''a'', ''b'', ''c'']"
    by (simp add: all_events_def sample_telemetry_def new_telemetry_def sample_telemetry_calls_def event_of_def
        create_event_def sample_tracked_def category_of_def)
  then have "distinct (map te_id (all_events sample_telemetry
      @ created (tm_session_id sample_telemetry) sample_telemetry_calls))" by simp
  from events_never_lost [OF sample_telemetry_ok this] ids show ?thesis
    by (simp add: all_events_def)
qed

section \<open>The counters of a session\<close>

text \<open>Every counter that has a column, and the events it is to count.\<close>

definition counter_kinds :: "((session_summary \<Rightarrow> int) \<times> (telemetry_event \<Rightarrow> bool)) list" where
  "counter_kinds =
     [(ts_hooks_fired, \<lambda>e. te_type e = ''hook.fire''), (ts_hooks_succeeded, \<lambda>e. te_type e = ''hook.success''),
      (ts_hooks_failed, \<lambda>e. te_type e = ''hook.fail''), (ts_agents_spawned, \<lambda>e. te_type e = ''agent.spawn''),
      (ts_agents_completed, \<lambda>e. te_type e = ''agent.stop'' \<and> stopped_well e),
      (ts_agents_failed, \<lambda>e. te_type e = ''agent.stop'' \<and> \<not> stopped_well e),
      (ts_tmux_sessions_created, \<lambda>e. te_type e = ''tmux.session.create''),
      (ts_tmux_sessions_killed, \<lambda>e. te_type e = ''tmux.session.kill''),
      (ts_memory_saves, \<lambda>e. te_type e = ''memory.save''), (ts_memory_searches, \<lambda>e. te_type e = ''memory.search''),
      (ts_memory_deletes, \<lambda>e. te_type e = ''memory.delete''),
      (ts_workflow_started, \<lambda>e. te_type e = ''workflow.outline'' \<or> te_type e = ''workflow.execute''),
      (ts_workflow_completed, \<lambda>e. te_type e = ''workflow.ship''),
      (ts_workflow_aborted, \<lambda>e. te_type e = ''workflow.abort''),
      (ts_cli_commands, \<lambda>e. te_type e = ''cli.command''), (ts_cli_errors, \<lambda>e. te_type e = ''cli.error'')]"

definition counted_once :: "telemetry_event \<Rightarrow> session_summary \<Rightarrow> session_summary" where
  "counted_once e s = (case counted e s of None \<Rightarrow> s | Some s' \<Rightarrow> s')"

lemma counted_once_kinds:
  "(f, k) \<in> set counter_kinds \<Longrightarrow> f (counted_once e s) = f s + (if k e then 1 else 0)"
  unfolding counter_kinds_def counted_once_def counted_def
  by (simp, elim disjE; simp)

lemma counter_row: "(f, k) \<in> set counter_kinds \<Longrightarrow> f (row_to_session s) = f s"
  unfolding counter_kinds_def row_to_session_def by (simp, elim disjE; simp)

lemma get_count_in:
  assumes "get_session_summary i t = Some s"
  shows "get_session_summary i (count_in i e t) = Some (row_to_session (counted_once e s))"
proof (cases "counted e s")
  case None
  with assms show ?thesis
    by (auto simp: count_in_def counted_once_def get_session_summary_def row_to_session_def)
next
  case (Some s')
  have "ts_session_id s' = i" using counted_keeps [OF Some] get_session_summary_Some [OF assms] by simp
  then have "get_session_summary i (t\<lparr>tl_sessions := insert_or_replace ts_session_id s' (tl_sessions t)\<rparr>)
      = Some (row_to_session s')"
    by (simp add: get_session_summary_def lookup_insert_or_replace)
  with assms Some show ?thesis by (simp add: count_in_def counted_once_def)
qed

lemma get_summary_sessions: "tl_sessions t = tl_sessions t' \<Longrightarrow> get_session_summary i t = get_session_summary i t'"
  by (simp add: get_session_summary_def)

lemma counters_run:
  assumes "telemetry_ok w" "distinct (map te_id (all_events w @ created (tm_session_id w) cs))"
    and "tm_session_id w = Some i" "i \<noteq> []" "get_session_summary i (tm_store w) = Some s"
  shows "\<exists>s'. get_session_summary i (tm_store (run_telemetry_calls cs w)) = Some s'
    \<and> (\<forall>(f, k) \<in> set counter_kinds. f s' = f s + int (length (filter k (created (Some i) cs))))"
  using assms
proof (induction cs arbitrary: w s)
  case (Cons c cs)
  show ?case
  proof (cases c)
    case (Track stamp x)
    show ?thesis
    proof (cases "event_of stamp (tm_session_id w) x")
      case (Inl e)
      with Cons Track track_refused [OF Inl] show ?thesis by simp
    next
      case (Inr e)
      have "distinct (map te_id (all_events w @ [e]))" using Cons.prems(2) Track Inr by simp
      from track_run [OF Cons.prems(1) Inr this] Cons.prems(3,4) obtain w' where
        w': "snd (track stamp x w) = w'" "same_setup w w'" "telemetry_ok w'" "all_events w' = all_events w @ [e]"
          "tl_sessions (tm_store w') = tl_sessions (count_in i e (tm_store w))"
        by (auto simp: id_or_empty_def)
      have "get_session_summary i (tm_store w') = Some (row_to_session (counted_once e s))"
        using get_summary_sessions [OF w'(5)] get_count_in [OF Cons.prems(5)] by simp
      moreover have "tm_session_id w' = Some i" using w'(2) Cons.prems(3) by (simp add: same_setup_def)
      ultimately obtain s' where
        s': "get_session_summary i (tm_store (run_telemetry_calls cs w')) = Some s'"
        "\<forall>(f, k) \<in> set counter_kinds. f s' = f (row_to_session (counted_once e s)) + int (length (filter k (created (Some i) cs)))"
        using Cons.IH [OF w'(3)] Cons.prems(2-4) Track Inr w'(4) by auto
      have "f s' = f s + int (length (filter k (created (Some i) (c # cs))))" if "(f, k) \<in> set counter_kinds" for f k
        using s'(2) that counter_row [OF that] counted_once_kinds [OF that, of e s] Track Inr Cons.prems(3)
        by (auto split: if_splits)
      with s'(1) w'(1) Track show ?thesis by auto
    qed
  next
    case Flush
    have "distinct (map te_id (all_events w))" using Cons.prems(2) by simp
    from flush_call [OF Cons.prems(1) this] have f: "same_setup w (snd (flush w))" "telemetry_ok (snd (flush w))"
      "all_events (snd (flush w)) = all_events w" "tl_sessions (tm_store (snd (flush w))) = tl_sessions (tm_store w)"
      by blast+
    with Cons.IH [OF f(2)] Cons.prems Flush get_summary_sessions [OF f(4)] show ?thesis by (simp add: same_setup_def)
  qed
qed auto

text \<open>Starting a session.\<close>

definition fresh_summary :: "rat \<Rightarrow> string \<Rightarrow> string option \<Rightarrow> telemetry \<Rightarrow> session_summary" where
  "fresh_summary now i ws w =
     (blank_summary i)\<lparr>ts_workspace_id := ws, ts_started_at := Some \<lfloor>now * 1000\<rfloor>, ts_platform := Some (tm_platform w),
       ts_python_version := Some (tm_python_version w), ts_fork_agent_version := Some (tm_fork_agent_version w)\<rparr>"

lemma counter_fresh: "(f, k) \<in> set counter_kinds \<Longrightarrow> f (fresh_summary now i ws w) = 0"
  unfolding counter_kinds_def fresh_summary_def blank_summary_def by (simp, elim disjE; simp)

lemma start_session_run:
  assumes "telemetry_ok w" "i \<noteq> []" "distinct (map te_id (all_events w) @ [fst stamp])"
  shows "\<exists>w' e. start_telemetry_session stamp now i ws w = (Inr (), w') \<and> telemetry_ok w' \<and> tm_session_id w' = Some i
    \<and> all_events w' = all_events w @ [e] \<and> te_id e = fst stamp
    \<and> (\<exists>s. get_session_summary i (tm_store w') = Some s \<and> (\<forall>(f, k) \<in> set counter_kinds. f s = 0))"
proof -
  let ?s = "fresh_summary now i ws w"
  let ?w1 = "w\<lparr>tm_session_id := Some i, tm_session_start := Some \<lfloor>now * 1000\<rfloor>,
      tm_store := (tm_store w)\<lparr>tl_sessions := insert_or_replace ts_session_id ?s (tl_sessions (tm_store w))\<rparr>\<rparr>"
  let ?x = "\<lparr>tk_type = type_value SESSION_START, tk_category = category_value SESSION,
      tk_attributes = [(''workspace_id'', text_attr ws), (''platform'', Attr (JString (tm_platform w))),
         (''python_version'', Attr (JString (tm_python_version w))),
         (''fork_agent_version'', Attr (JString (tm_fork_agent_version w)))],
      tk_metrics = None, tk_correlation_id = None, tk_parent_event_id = None, tk_timestamp = None\<rparr>"
  have s: "ts_session_id ?s = i" "ts_started_at ?s = Some \<lfloor>now * 1000\<rfloor>"
    by (simp_all add: fresh_summary_def blank_summary_def)
  have ok: "telemetry_ok ?w1" using assms(1) s by (auto simp: telemetry_ok_def insert_or_replace_def)
  obtain e where e: "event_of stamp (tm_session_id ?w1) ?x = Inr e" "te_id e = fst stamp" "te_type e = ''session.start''"
    by (simp add: event_of_def create_event_def category_of_def Let_def)
  have found: "get_session_summary i (tm_store ?w1) = Some (row_to_session ?s)"
    using s(1) by (simp add: get_session_summary_def lookup_insert_or_replace)
  have "distinct (map te_id (all_events ?w1 @ [e]))" using assms(3) e(2) by (simp add: all_events_def)
  from track_run [OF ok e(1) this] assms(2) obtain w' where
    w': "track stamp ?x ?w1 = (Inr (te_id e), w')" "same_setup ?w1 w'" "telemetry_ok w'" "all_events w' = all_events ?w1 @ [e]"
      "tl_sessions (tm_store w') = tl_sessions (count_in i e (tm_store ?w1))"
    by (auto simp: id_or_empty_def)
  have "start_telemetry_session stamp now i ws w = (Inr (), w')"
    using w'(1) assms(1) s(2)
    by (simp add: start_telemetry_session_def py_simps py_bind_def run_in_def save_session_summary_def
        track_typed_def telemetry_ok_def py_return_def fresh_summary_def Let_def)
  moreover have "get_session_summary i (tm_store w') = Some (row_to_session (counted_once e (row_to_session ?s)))"
    using get_summary_sessions [OF w'(5)] get_count_in [OF found] by simp
  moreover have "f (row_to_session (counted_once e (row_to_session ?s))) = 0" if "(f, k) \<in> set counter_kinds" for f k
  proof -
    have "counted e (row_to_session ?s) = None" using e(3) by (simp add: counted_def)
    then show ?thesis using counter_row [OF that] counter_fresh [OF that] by (simp add: counted_once_def)
  qed
  ultimately show ?thesis
    using w'(2-4) e(2) by (intro exI [of _ w'] exI [of _ e]) (auto simp: same_setup_def all_events_def)
qed

text \<open>
  C36: after a session was started, whatever is tracked and flushed, each of the sixteen counters of its
  summary is the number of the events tracked since that it is to count. Only the counter of hybrid dispatches,
  which has no column, is read back as zero.
\<close>

theorem session_counts_its_events:
  assumes "telemetry_ok w" "i \<noteq> []" "distinct (map te_id (all_events w) @ fst stamp # map te_id (created (Some i) cs))"
  shows "\<exists>s. get_session_summary i (tm_store (run_telemetry_calls cs (snd (start_telemetry_session stamp now i ws w))))
        = Some s
     \<and> (\<forall>(f, k) \<in> set counter_kinds. f s = int (length (filter k (created (Some i) cs))))
     \<and> ts_hybrid_dispatches s = 0"
proof -
  have "distinct (map te_id (all_events w) @ [fst stamp])" using assms(3) by simp
  from start_session_run [OF assms(1,2) this] obtain w' e where
    run: "start_telemetry_session stamp now i ws w = (Inr (), w')" and
    ok: "telemetry_ok w'" "tm_session_id w' = Some i" "all_events w' = all_events w @ [e]" "te_id e = fst stamp" and
    found: "\<exists>s. get_session_summary i (tm_store w') = Some s \<and> (\<forall>(f, k) \<in> set counter_kinds. f s = 0)"
    by blast
  from found obtain s where s: "get_session_summary i (tm_store w') = Some s" "\<forall>(f, k) \<in> set counter_kinds. f s = 0"
    by blast
  have "distinct (map te_id (all_events w' @ created (tm_session_id w') cs))"
    using assms(3) ok(2-4) by simp
  from counters_run [OF ok(1) this ok(2) assms(2) s(1)] obtain s' where
    s': "get_session_summary i (tm_store (run_telemetry_calls cs w')) = Some s'"
    "\<forall>(f, k) \<in> set counter_kinds. f s' = f s + int (length (filter k (created (Some i) cs)))" by blast
  have "f s' = int (length (filter k (created (Some i) cs)))" if "(f, k) \<in> set counter_kinds" for f k
    using bspec [OF s'(2) that] bspec [OF s(2) that] by simp
  moreover have "ts_hybrid_dispatches s' = 0"
    using s'(1) by (auto simp: get_session_summary_def row_to_session_def)
  ultimately show ?thesis using run s'(1) by auto
qed

theorem session_counts_its_events_witness:
  "\<exists>s. get_session_summary ''s'' (tm_store (run_telemetry_calls sample_telemetry_calls
       (snd (start_telemetry_session (''z'', 0) 0 ''s'' None sample_telemetry)))) = Some s
     \<and> ts_hooks_fired s = 2 \<and> ts_agents_completed s = 1 \<and> ts_agents_failed s = 0"
proof -
  have ev: "map te_id (created (Some ''s'') sample_telemetry_calls) = [''a'', ''b'', ''c'']"
    "map te_type (created (Some ''s'') sample_telemetry_calls) = [''hook.fire'', ''agent.stop'', ''hook.fire'']"
    "\<forall>e \<in> set (created (Some ''s'') sample_telemetry_calls). te_attributes e = []"
    by (simp_all add: sample_telemetry_calls_def event_of_def create_event_def sample_tracked_def category_of_def)
  have none: "all_events sample_telemetry = []" by (simp add: all_events_def sample_telemetry_def new_telemetry_def)
  have "distinct (map te_id (all_events sample_telemetry) @ fst (''z'', 0 :: rat)
      # map te_id (created (Some ''s'') sample_telemetry_calls))"
    unfolding ev none by simp
  from session_counts_its_events [OF sample_telemetry_ok _ this, of 0 None] obtain s where
    s: "get_session_summary ''s'' (tm_store (run_telemetry_calls sample_telemetry_calls
         (snd (start_telemetry_session (''z'', 0) 0 ''s'' None sample_telemetry)))) = Some s"
    "\<forall>(f, k) \<in> set counter_kinds. f s = int (length (filter k (created (Some ''s'') sample_telemetry_calls)))" by auto
  let ?es = "created (Some ''s'') sample_telemetry_calls"
  have "length (filter (\<lambda>e. te_type e = ''hook.fire'') ?es) = 2"
    "length (filter (\<lambda>e. te_type e = ''agent.stop'' \<and> stopped_well e) ?es) = 1"
    "length (filter (\<lambda>e. te_type e = ''agent.stop'' \<and> \<not> stopped_well e) ?es) = 0"
    using ev by (auto simp: map_eq_Cons_conv stopped_well_def)
  with s show ?thesis by (intro exI [of _ s]) (simp add: counter_kinds_def)
qed

end
