(* ===== verification/Hooks.thy ===== *)
theory Hooks
  imports Json Py_Strings
begin

text \<open>
  The event hooks of src/application/services/orchestration and src/infrastructure/orchestration: the
  events and their specifications, the actions and rules, the loading of hooks.json, the shell runner with
  its checks, the dispatcher with the failure policies, and the service that holds the dispatcher.

  The shell is a parameter. It is asked with the command, the environment and the timeout, and may answer
  differently each time: it sees the runs before. \<open>regex\<close> stands for Python's regular expressions:
  \<open>regex p s\<close> is \<open>None\<close> when \<open>p\<close> does not compile, and else whether \<open>re.search\<close> finds it in \<open>s\<close>.
  The state is the list of runs the shell was asked for, the oldest first.
\<close>

section \<open>Events\<close>

text \<open>An event is its class name with the fields of the dataclass.\<close>

record hook_message =
  hm_class :: string
  hm_fields :: "(string \<times> json) list"

text \<open>\<open>str(v)\<close> and \<open>repr(v)\<close> on JSON values.\<close>

definition hex_char :: "nat \<Rightarrow> char" where
  "hex_char d = (if d < 10 then char_of (48 + d) else char_of (87 + d))"

definition repr_char :: "char \<Rightarrow> char \<Rightarrow> string" where
  "repr_char q c =
     (let n = of_char c :: nat in
      if c = q \<or> n = 92 then [CHR 0x5C, c]
      else if n = 9 then [CHR 0x5C, CHR ''t'']
      else if n = 10 then [CHR 0x5C, CHR ''n'']
      else if n = 13 then [CHR 0x5C, CHR ''r'']
      else if n < 32 \<or> 127 \<le> n \<and> n < 161 \<or> n = 173
        then [CHR 0x5C, CHR ''x'', hex_char (n div 16), hex_char (n mod 16)]
      else [c])"

definition repr_string :: "string \<Rightarrow> string" where
  "repr_string s =
     (let q = (if CHR 0x27 \<in> set s \<and> CHR 0x22 \<notin> set s then CHR 0x22 else CHR 0x27)
      in q # concat (map (repr_char q) s) @ [q])"

fun json_repr :: "json \<Rightarrow> string" where
  "json_repr JNull = ''None''"
| "json_repr (JBool b) = (if b then ''True'' else ''False'')"
| "json_repr (JNumber n) = show_int n"
| "json_repr (JString s) = repr_string s"
| "json_repr (JArray xs) = ''['' @ join '', '' (map json_repr xs) @ '']''"
| "json_repr (JObject kvs) =
     ''{'' @ join '', '' (map (\<lambda>(k, v). repr_string k @ '': '' @ json_repr v) kvs) @ ''}''"

fun py_str :: "json \<Rightarrow> string" where
  "py_str (JString s) = s"
| "py_str v = json_repr v"

section \<open>Specifications\<close>

text \<open>The class name without \<open>Event\<close>, and the field a matcher looks at.\<close>

definition event_type_name :: "hook_message \<Rightarrow> string" where
  "event_type_name ev = py_replace ''Event'' [] (hm_class ev)"

definition event_field_extractors :: "(string \<times> string) list" where
  "event_field_extractors =
     [(''UserCommand'', ''command_name''), (''FileWritten'', ''path''), (''ToolPreExecution'', ''tool_name''),
      (''SessionStart'', ''session_id''), (''SubagentStart'', ''agent_name''), (''SubagentStop'', ''agent_name''),
      (''WorkflowPhaseChange'', ''plan_id''), (''WorkflowOutlineStart'', ''plan_id''),
      (''WorkflowOutlineComplete'', ''plan_id''), (''WorkflowExecuteStart'', ''plan_id''),
      (''WorkflowExecuteComplete'', ''plan_id''), (''WorkflowVerifyStart'', ''plan_id''),
      (''WorkflowVerifyComplete'', ''plan_id''), (''WorkflowShipStart'', ''plan_id''),
      (''WorkflowShipComplete'', ''plan_id'')]"

text \<open>The protocols a class outside that table is tried against, in the order of the code.\<close>

definition fallback_fields :: "string list" where
  "fallback_fields = [''plan_id'', ''session_id'', ''agent_name'', ''command_name'', ''path'', ''tool_name'']"

datatype hook_spec =
    EventTypeSpec string
  | CommandNameSpec string
  | FilePathSpec string
  | RegexMatcherSpec string json

text \<open>Searching with the compiled pattern of a matcher: a pattern that does not compile finds nothing.\<close>

definition matcher_search :: "(string \<Rightarrow> string \<Rightarrow> bool option) \<Rightarrow> json \<Rightarrow> string \<Rightarrow> bool result" where
  "matcher_search regex matcher s =
     (case matcher of
        JString p \<Rightarrow> Inr (regex p s = Some True)
      | _ \<Rightarrow> Inl (TypeError (if json_hashable matcher then ''first argument must be string or compiled pattern''
                            else ''unhashable type: '' @ quoted (json_type_name matcher))))"

text \<open>Searching in a field without \<open>str\<close>: the pattern is compiled first.\<close>

definition search_field :: "(string \<Rightarrow> string \<Rightarrow> bool option) \<Rightarrow> json \<Rightarrow> json \<Rightarrow> bool result" where
  "search_field regex matcher v =
     (case v of
        JString s \<Rightarrow> matcher_search regex matcher s
      | _ \<Rightarrow> res_bind (matcher_search regex matcher [])
              (\<lambda>_. Inl (TypeError (''expected string or bytes-like object, got '' @ quoted (json_type_name v)))))"

definition plain_search :: "(string \<Rightarrow> string \<Rightarrow> bool option) \<Rightarrow> string \<Rightarrow> json \<Rightarrow> bool result" where
  "plain_search regex p v =
     (case regex p [] of
        None \<Rightarrow> Inl (PatternError p)
      | Some _ \<Rightarrow> search_field regex (JString p) v)"

definition regex_matcher_satisfied ::
  "(string \<Rightarrow> string \<Rightarrow> bool option) \<Rightarrow> string \<Rightarrow> json \<Rightarrow> hook_message \<Rightarrow> bool result" where
  "regex_matcher_satisfied regex event_type matcher ev =
     (if event_type_name ev \<noteq> event_type then Inr False
      else case map_of event_field_extractors (event_type_name ev) of
        Some field \<Rightarrow>
          (case map_of (hm_fields ev) field of
             None \<Rightarrow> Inr False
           | Some JNull \<Rightarrow> Inr False
           | Some v \<Rightarrow> matcher_search regex matcher (py_str v))
      | None \<Rightarrow>
          (case find (\<lambda>f. map_of (hm_fields ev) f \<noteq> None) fallback_fields of
             None \<Rightarrow> Inr False
           | Some f \<Rightarrow> search_field regex matcher (the (map_of (hm_fields ev) f))))"

fun is_satisfied_by :: "(string \<Rightarrow> string \<Rightarrow> bool option) \<Rightarrow> hook_spec \<Rightarrow> hook_message \<Rightarrow> bool result" where
  "is_satisfied_by regex (EventTypeSpec c) ev = Inr (hm_class ev = c)"
| "is_satisfied_by regex (CommandNameSpec p) ev =
     (case map_of (hm_fields ev) ''command_name'' of
        None \<Rightarrow> Inr False | Some v \<Rightarrow> plain_search regex p v)"
| "is_satisfied_by regex (FilePathSpec p) ev =
     (case map_of (hm_fields ev) ''path'' of
        None \<Rightarrow> Inr False | Some v \<Rightarrow> plain_search regex p v)"
| "is_satisfied_by regex (RegexMatcherSpec t m) ev = regex_matcher_satisfied regex t m ev"

section \<open>Actions and rules\<close>

datatype on_failure_policy = POLICY_ABORT | POLICY_CONTINUE | POLICY_RETRY

fun on_failure_policy_of :: "json \<Rightarrow> on_failure_policy option" where
  "on_failure_policy_of (JString s) =
     (if s = ''abort'' then Some POLICY_ABORT
      else if s = ''continue'' then Some POLICY_CONTINUE
      else if s = ''retry'' then Some POLICY_RETRY else None)"
| "on_failure_policy_of v = None"

text \<open>A \<open>ShellCommandAction\<close>: nothing but the timeout is checked, so the other fields are what the file has.\<close>

record shell_action =
  sa_command :: json
  sa_timeout :: json
  sa_critical :: json
  sa_on_failure :: on_failure_policy

definition make_shell_action :: "json \<Rightarrow> json \<Rightarrow> json \<Rightarrow> on_failure_policy \<Rightarrow> shell_action result" where
  "make_shell_action command timeout critical policy =
     (let action = \<lparr>sa_command = command, sa_timeout = timeout, sa_critical = critical, sa_on_failure = policy\<rparr>
      in case timeout of
        JNumber n \<Rightarrow> if n \<le> 0 then Inl (ValueError ''timeout must be positive'') else Inr action
      | JBool b \<Rightarrow> if b then Inr action else Inl (ValueError ''timeout must be positive'')
      | _ \<Rightarrow> Inl (TypeError (quoted ''<='' @ '' not supported between instances of ''
                   @ quoted (json_type_name timeout) @ '' and '' @ quoted ''int'')))"

definition continue_on_failure :: "shell_action \<Rightarrow> bool" where
  "continue_on_failure action \<longleftrightarrow> \<not> json_truthy (sa_critical action) \<or> sa_on_failure action = POLICY_CONTINUE"

record hook_rule =
  hr_spec :: hook_spec
  hr_action :: shell_action

section \<open>Loading hooks.json\<close>

definition load_hook :: "string \<Rightarrow> json \<Rightarrow> json \<Rightarrow> hook_rule list result" where
  "load_hook event_type pattern hook =
     res_bind (json_get hook ''type'' JNull) (\<lambda>kind.
     if kind \<noteq> JString ''command'' then Inr []
     else
       res_bind (json_get hook ''on_failure'' (JString ''abort'')) (\<lambda>policy.
       res_bind (json_item hook ''command'') (\<lambda>command.
       res_bind (json_get hook ''timeout'' (JNumber 30)) (\<lambda>timeout.
       res_bind (json_get hook ''critical'' (JBool True)) (\<lambda>critical.
       res_bind (make_shell_action command timeout critical
                   (case on_failure_policy_of policy of None \<Rightarrow> POLICY_ABORT | Some p \<Rightarrow> p)) (\<lambda>action.
       Inr [\<lparr>hr_spec = RegexMatcherSpec event_type pattern, hr_action = action\<rparr>]))))))"

definition load_matcher :: "string \<Rightarrow> json \<Rightarrow> hook_rule list result" where
  "load_matcher event_type config =
     res_bind (json_get config ''matcher'' (JString ''.*'')) (\<lambda>matcher.
     res_bind (json_get config ''hooks'' (JArray [])) (\<lambda>hooks.
     res_bind (json_iter hooks) (\<lambda>hooks.
     map_sum id concat
       (traverse (load_hook event_type (if matcher = JString ''*'' then JString ''.*'' else matcher)) hooks))))"

definition load_event_type :: "string \<times> json \<Rightarrow> hook_rule list result" where
  "load_event_type entry =
     res_bind (json_iter (snd entry)) (\<lambda>matchers.
     map_sum id concat (traverse (load_matcher (fst entry)) matchers))"

definition load_rules :: "state_file \<Rightarrow> hook_rule list result" where
  "load_rules config_file =
     (case config_file of
        Absent \<Rightarrow> Inr []
      | Malformed \<Rightarrow> Inl (JSONDecodeError ''hooks.json'')
      | Holds data \<Rightarrow>
          res_bind (json_get data ''hooks'' (JObject [])) (\<lambda>config.
          res_bind (json_items config) (\<lambda>entries.
          map_sum id concat (traverse load_event_type entries))))"

section \<open>The shell runner\<close>

datatype shell_answer = ShellTimedOut | ShellExited int string | ShellRaises exc

record shell_run =
  sr_command :: string
  sr_env :: "(string \<times> string) list"
  sr_timeout :: json

definition dangerous_env_vars :: "string list" where
  "dangerous_env_vars =
     [''LD_PRELOAD'', ''LD_LIBRARY_PATH'', ''LD_AUDIT'', ''LD_DEBUG'', ''BASH_ENV'', ''ENV'', ''CDPATH'',
      ''GLOBIGNORE'', ''BASH_FUNC_*'', ''IFS'', ''MAIL'', ''MAILPATH'', ''OPTIND'', ''PS1'', ''PS2'', ''FIGNORE'']"

definition safe_default_env_vars :: "string list" where
  "safe_default_env_vars =
     [''HOME'', ''USER'', ''LOGNAME'', ''PATH'', ''SHELL'', ''TERM'', ''LANG'', ''LC_ALL'', ''PWD'', ''SHLVL'']"

definition dangerous_patterns :: "string list" where
  "dangerous_patterns =
     [''curl '', ''wget '', ''nc '', ''ncat '', ''bash -i'', ''sh -i'', ''/dev/tcp/'', ''/dev/udp/'',
      ''base64 -d'', ''xxd -r'', ''chmod 777'', ''chmod 666'', ''> /etc/'', ''>> /etc/'', ''mkfifo '', ''nohup '']"

definition passes_env :: "string list \<Rightarrow> string \<Rightarrow> bool" where
  "passes_env allowed key \<longleftrightarrow>
     key \<notin> set dangerous_env_vars
     \<and> \<not> list_ex (\<lambda>p. CHR ''*'' \<in> set p \<and> starts_with (rstrip_char CHR ''*'' p) key) dangerous_env_vars
     \<and> key \<in> set allowed"

definition get_safe_env :: "string \<Rightarrow> (string \<times> string) list \<Rightarrow> (string \<times> string) list" where
  "get_safe_env hooks_dir environ =
     dict_set ''HOOKS_DIR'' hooks_dir (filter (\<lambda>(k, v). passes_env safe_default_env_vars k) environ)"

text \<open>
  The patterns are a set in the code, whose order decides only which of several patterns the message
  names; here it is the order of the source.
\<close>

definition validate_command :: "json \<Rightarrow> string result" where
  "validate_command command =
     (case command of
        JString s \<Rightarrow>
          (case find (\<lambda>p. contains_text p (py_strip s)) dangerous_patterns of
             None \<Rightarrow> Inr s
           | Some p \<Rightarrow> Inl (HookExecutionError (''Blocked dangerous command pattern: '' @ py_strip p)))
      | _ \<Rightarrow> Inl (AttributeError (quoted (json_type_name command) @ '' object has no attribute 'strip'')))"

type_synonym shell = "shell_run list \<Rightarrow> shell_run \<Rightarrow> shell_answer"

definition ask_shell :: "shell \<Rightarrow> shell_run \<Rightarrow> (shell_run list, shell_answer) py" where
  "ask_shell shell r runs = (Inr (shell runs r), runs @ [r])"

definition run_failed :: "shell_action \<Rightarrow> string \<Rightarrow> (shell_run list, unit) py" where
  "run_failed action msg = (if continue_on_failure action then py_return () else py_raise (HookExecutionError msg))"

definition run_action ::
  "shell \<Rightarrow> string \<Rightarrow> (string \<times> string) list \<Rightarrow> shell_action \<Rightarrow> (shell_run list, unit) py" where
  "run_action shell hooks_dir environ action =
     py_bind (py_lift (validate_command (sa_command action))) (\<lambda>command.
     let timeout = (if json_truthy (sa_timeout action) then sa_timeout action else JNumber 30) in
     py_bind (ask_shell shell \<lparr>sr_command = command, sr_env = get_safe_env hooks_dir environ, sr_timeout = timeout\<rparr>)
       (\<lambda>answer. case answer of
          ShellRaises e \<Rightarrow> py_raise e
        | ShellTimedOut \<Rightarrow>
            run_failed action (''Action timed out after '' @ py_str timeout @ '' seconds: '' @ command)
        | ShellExited code stderr \<Rightarrow>
            if code = 0 then py_return ()
            else run_failed action (''Action failed (exit '' @ show_int code @ ''): ''
                   @ (if stderr = [] then ''Unknown error'' else take 200 stderr))))"

section \<open>Dispatching\<close>

text \<open>\<open>RETRY\<close>: \<open>n\<close> attempts are left; the exception of the last one is raised.\<close>

fun run_attempts :: "('s, unit) py \<Rightarrow> nat \<Rightarrow> ('s, unit) py" where
  "run_attempts m 0 = py_return ()"
| "run_attempts m (Suc n) = py_catch (\<lambda>e. n \<noteq> 0) m (\<lambda>e. run_attempts m n)"

definition run_with_policy :: "nat \<Rightarrow> (shell_action \<Rightarrow> ('s, unit) py) \<Rightarrow> hook_rule \<Rightarrow> ('s, unit) py" where
  "run_with_policy attempts runner rule =
     (case sa_on_failure (hr_action rule) of
        POLICY_CONTINUE \<Rightarrow> py_suppress (\<lambda>e. True) (runner (hr_action rule))
      | POLICY_RETRY \<Rightarrow> run_attempts (runner (hr_action rule)) attempts
      | POLICY_ABORT \<Rightarrow> runner (hr_action rule))"

fun dispatch_rules ::
  "(string \<Rightarrow> string \<Rightarrow> bool option) \<Rightarrow> nat \<Rightarrow> (shell_action \<Rightarrow> ('s, unit) py) \<Rightarrow> hook_rule list
     \<Rightarrow> hook_message \<Rightarrow> ('s, unit) py" where
  "dispatch_rules regex attempts runner [] ev = py_return ()"
| "dispatch_rules regex attempts runner (rule # rules) ev =
     py_bind (py_lift (is_satisfied_by regex (hr_spec rule) ev)) (\<lambda>hit.
     py_bind (if hit then run_with_policy attempts runner rule else py_return ()) (\<lambda>_.
     dispatch_rules regex attempts runner rules ev))"

section \<open>The service\<close>

record hook_service =
  hs_hooks_dir :: string
  hs_rules :: "hook_rule list option"
  hs_runs :: "shell_run list"

definition load_dispatcher :: "state_file \<Rightarrow> (hook_service, hook_rule list) py" where
  "load_dispatcher config_file s =
     (case hs_rules s of
        Some rules \<Rightarrow> (Inr rules, s)
      | None \<Rightarrow>
          (case load_rules config_file of
             Inl e \<Rightarrow> (Inl e, s)
           | Inr rules \<Rightarrow> (Inr rules, s\<lparr>hs_rules := Some rules\<rparr>)))"

definition service_dispatch ::
  "(string \<Rightarrow> string \<Rightarrow> bool option) \<Rightarrow> shell \<Rightarrow> state_file \<Rightarrow> (string \<times> string) list \<Rightarrow> hook_message
     \<Rightarrow> (hook_service, unit) py" where
  "service_dispatch regex shell config_file environ ev =
     py_bind (load_dispatcher config_file) (\<lambda>rules s.
       let (r, runs) = dispatch_rules regex 2 (run_action shell (hs_hooks_dir s) environ) rules ev (hs_runs s)
       in (r, s\<lparr>hs_runs := runs\<rparr>))"

definition service_reload :: "(hook_service, unit) py" where
  "service_reload s = (Inr (), s\<lparr>hs_rules := None\<rparr>)"

end
