(* ===== verification/Hook_Properties.thy ===== *)
theory Hook_Properties
  imports Hooks Workflow_Executor
begin

text \<open>
  What the event hooks guarantee: which commands reach the shell and with what, that rules whose policy is
  to continue never stop the caller, how often a rule is tried, and which events no rule can match.
\<close>

section \<open>The events of the system\<close>

datatype system_event =
    UserCommandEvent string "string list"
  | FileWrittenEvent string
  | ToolPreExecutionEvent string
  | SessionStartEvent string
  | SubagentStartEvent string
  | SubagentStopEvent string int string
  | WorkflowPhaseChangeEvent json string int
  | TrifectaIndexEvent string int int int
  | WorkflowEvent hook_event

fun workflow_message :: "hook_event \<Rightarrow> hook_message" where
  "workflow_message (OutlineStart p d) =
     \<lparr>hm_class = ''WorkflowOutlineStartEvent'', hm_fields = [(''plan_id'', JString p), (''task_description'', JString d)]\<rparr>"
| "workflow_message (OutlineComplete p f) =
     \<lparr>hm_class = ''WorkflowOutlineCompleteEvent'', hm_fields = [(''plan_id'', JString p), (''plan_file'', JString f)]\<rparr>"
| "workflow_message (ExecuteStart p n) =
     \<lparr>hm_class = ''WorkflowExecuteStartEvent'', hm_fields = [(''plan_id'', p), (''task_count'', JNumber (int n))]\<rparr>"
| "workflow_message (ExecuteComplete p n) =
     \<lparr>hm_class = ''WorkflowExecuteCompleteEvent'', hm_fields = [(''plan_id'', p), (''tasks_completed'', JNumber (int n))]\<rparr>"
| "workflow_message (VerifyStart p b) =
     \<lparr>hm_class = ''WorkflowVerifyStartEvent'', hm_fields = [(''plan_id'', p), (''run_tests'', JBool b)]\<rparr>"
| "workflow_message (VerifyComplete p) =
     \<lparr>hm_class = ''WorkflowVerifyCompleteEvent'', hm_fields = [(''plan_id'', JString p), (''test_results'', JObject [])]\<rparr>"
| "workflow_message (ShipStart p b) =
     \<lparr>hm_class = ''WorkflowShipStartEvent'', hm_fields = [(''plan_id'', p), (''target_branch'', JString b)]\<rparr>"
| "workflow_message (ShipComplete p b) =
     \<lparr>hm_class = ''WorkflowShipCompleteEvent'', hm_fields = [(''plan_id'', p), (''target_branch'', JString b)]\<rparr>"
| "workflow_message (WorktreeCreated n p) =
     \<lparr>hm_class = ''WorktreeCreatedEvent'', hm_fields = [(''workspace_name'', JString n), (''worktree_path'', JString p)]\<rparr>"
| "workflow_message (WorktreeMerged n b) =
     \<lparr>hm_class = ''WorktreeMergedEvent'', hm_fields = [(''workspace_name'', JString n), (''target_branch'', JString b)]\<rparr>"
| "workflow_message (WorktreeRemoved n) =
     \<lparr>hm_class = ''WorktreeRemovedEvent'', hm_fields = [(''workspace_name'', JString n)]\<rparr>"

fun message_of :: "system_event \<Rightarrow> hook_message" where
  "message_of (UserCommandEvent c args) =
     \<lparr>hm_class = ''UserCommandEvent'', hm_fields = [(''command_name'', JString c), (''args'', JArray (map JString args))]\<rparr>"
| "message_of (FileWrittenEvent p) = \<lparr>hm_class = ''FileWrittenEvent'', hm_fields = [(''path'', JString p)]\<rparr>"
| "message_of (ToolPreExecutionEvent t) =
     \<lparr>hm_class = ''ToolPreExecutionEvent'', hm_fields = [(''tool_name'', JString t)]\<rparr>"
| "message_of (SessionStartEvent s) = \<lparr>hm_class = ''SessionStartEvent'', hm_fields = [(''session_id'', JString s)]\<rparr>"
| "message_of (SubagentStartEvent a) = \<lparr>hm_class = ''SubagentStartEvent'', hm_fields = [(''agent_name'', JString a)]\<rparr>"
| "message_of (SubagentStopEvent a d s) =
     \<lparr>hm_class = ''SubagentStopEvent'',
      hm_fields = [(''agent_name'', JString a), (''duration_ms'', JNumber d), (''status'', JString s)]\<rparr>"
| "message_of (WorkflowPhaseChangeEvent p phase t) =
     \<lparr>hm_class = ''WorkflowPhaseChangeEvent'',
      hm_fields = [(''plan_id'', p), (''phase'', JString phase), (''timestamp'', JNumber t)]\<rparr>"
| "message_of (TrifectaIndexEvent r d n e) =
     \<lparr>hm_class = ''TrifectaIndexEvent'',
      hm_fields = [(''repo_path'', JString r), (''duration_ms'', JNumber d), (''node_count'', JNumber n),
                   (''edge_count'', JNumber e)]\<rparr>"
| "message_of (WorkflowEvent ev) = workflow_message ev"

section \<open>What a load gives\<close>

definition positive_timeout :: "json \<Rightarrow> bool" where
  "positive_timeout t \<longleftrightarrow> t = JBool True \<or> (\<exists>n > 0. t = JNumber n)"

definition loaded_rule_ok :: "hook_rule \<Rightarrow> bool" where
  "loaded_rule_ok rule \<longleftrightarrow>
     (\<exists>t m. hr_spec rule = RegexMatcherSpec t m) \<and> positive_timeout (sa_timeout (hr_action rule))"

lemma traverse_concat_all:
  "map_sum id concat (traverse f xs) = Inr ys \<Longrightarrow> y \<in> set ys \<Longrightarrow> \<exists>x zs. f x = Inr zs \<and> y \<in> set zs"
proof (induction xs arbitrary: ys)
  case (Cons x xs)
  then show ?case by (cases "f x"; cases "traverse f xs") fastforce+
qed simp

lemma make_shell_action_Inr:
  "make_shell_action c t k p = Inr a \<Longrightarrow>
     a = \<lparr>sa_command = c, sa_timeout = t, sa_critical = k, sa_on_failure = p\<rparr> \<and> positive_timeout t"
  by (cases t) (auto simp: make_shell_action_def Let_def positive_timeout_def split: if_splits)

lemma load_hook_ok: "load_hook t p h = Inr rules \<Longrightarrow> rule \<in> set rules \<Longrightarrow> loaded_rule_ok rule"
  by (auto simp: load_hook_def res_bind_Inr_iff loaded_rule_ok_def dest!: make_shell_action_Inr split: if_splits)

lemma load_matcher_ok: "load_matcher t c = Inr rules \<Longrightarrow> rule \<in> set rules \<Longrightarrow> loaded_rule_ok rule"
  by (auto simp only: load_matcher_def res_bind_Inr_iff dest!: traverse_concat_all intro: load_hook_ok)

lemma load_event_type_ok: "load_event_type c = Inr rules \<Longrightarrow> rule \<in> set rules \<Longrightarrow> loaded_rule_ok rule"
  by (auto simp only: load_event_type_def res_bind_Inr_iff dest!: traverse_concat_all intro: load_matcher_ok)

lemma load_rules_ok:
  assumes "load_rules f = Inr rules" and "rule \<in> set rules"
  shows "loaded_rule_ok rule"
proof (cases f)
  case (Holds data)
  with assms show ?thesis
    by (auto simp: load_rules_def res_bind_Inr_iff dest!: traverse_concat_all intro: load_event_type_ok)
qed (use assms in \<open>simp_all add: load_rules_def\<close>)

section \<open>What reaches the shell\<close>

definition run_of :: "string \<Rightarrow> (string \<times> string) list \<Rightarrow> shell_action \<Rightarrow> shell_run \<Rightarrow> bool" where
  "run_of dir environ action r \<longleftrightarrow>
     validate_command (sa_command action) = Inr (sr_command r)
     \<and> sr_env r = get_safe_env dir environ
     \<and> sr_timeout r = (if json_truthy (sa_timeout action) then sa_timeout action else JNumber 30)"

lemma preserves_run_failed [preserves_rules]: "preserves P (run_failed action m)"
  by (simp add: run_failed_def preserves_rules)

lemma preserves_run_action:
  assumes "\<And>runs r. P runs \<Longrightarrow> run_of dir environ action r \<Longrightarrow> P (runs @ [r])"
  shows "preserves P (run_action shell dir environ action)"
proof
  fix runs assume runs: "P runs"
  show "P (snd (run_action shell dir environ action runs))"
  proof (cases "validate_command (sa_command action)")
    case (Inr c)
    let ?r = "\<lparr>sr_command = c, sr_env = get_safe_env dir environ,
      sr_timeout = (if json_truthy (sa_timeout action) then sa_timeout action else JNumber 30)\<rparr>"
    have "P (runs @ [?r])" using assms runs Inr by (simp add: run_of_def)
    with Inr show ?thesis
      by (auto simp: run_action_def py_simps ask_shell_def py_bind_def run_failed_def Let_def split: shell_answer.splits)
  qed (use runs in \<open>simp add: run_action_def py_simps\<close>)
qed

lemma preserves_run_attempts: "preserves P m \<Longrightarrow> preserves P (run_attempts m n)"
  by (induction n) (auto intro: preserves_rules)

lemma preserves_run_with_policy:
  assumes "preserves P (runner (hr_action rule))"
  shows "preserves P (run_with_policy n runner rule)"
  using assms
  by (cases "sa_on_failure (hr_action rule)")
     (simp_all add: run_with_policy_def preserves_suppress preserves_run_attempts)

lemma preserves_dispatch_rules:
  assumes "\<And>rule. rule \<in> set rules \<Longrightarrow> is_satisfied_by regex (hr_spec rule) ev = Inr True \<Longrightarrow>
             preserves P (runner (hr_action rule))"
  shows "preserves P (dispatch_rules regex n runner rules ev)"
  using assms
proof (induction rules)
  case (Cons rule rules)
  show ?case
  proof (cases "is_satisfied_by regex (hr_spec rule) ev")
    case (Inl e)
    then show ?thesis by (simp add: preserves_def py_simps)
  next
    case (Inr hit)
    with Cons have "preserves P (if hit then run_with_policy n runner rule else py_return ())"
      by (auto intro: preserves_run_with_policy preserves_rules)
    moreover have "preserves P (dispatch_rules regex n runner rules ev)" using Cons by simp
    ultimately have "preserves P (py_bind (if hit then run_with_policy n runner rule else py_return ())
        (\<lambda>_. dispatch_rules regex n runner rules ev))" by (rule preserves_bind)
    with Inr show ?thesis by (simp add: preserves_def py_simps)
  qed
qed (simp add: preserves_rules)

section \<open>The service over time\<close>

datatype hook_call =
    Dispatch state_file "(string \<times> string) list" hook_message
  | Reload

fun run_hook_call ::
  "(string \<Rightarrow> string \<Rightarrow> bool option) \<Rightarrow> shell \<Rightarrow> hook_call \<Rightarrow> hook_service \<Rightarrow> hook_service" where
  "run_hook_call regex shell (Dispatch f environ ev) s = snd (service_dispatch regex shell f environ ev s)"
| "run_hook_call regex shell Reload s = snd (service_reload s)"

definition new_hook_service :: "string \<Rightarrow> hook_service" where
  "new_hook_service dir = \<lparr>hs_hooks_dir = dir, hs_rules = None, hs_runs = []\<rparr>"

definition run_hook_calls ::
  "(string \<Rightarrow> string \<Rightarrow> bool option) \<Rightarrow> shell \<Rightarrow> hook_call list \<Rightarrow> hook_service \<Rightarrow> hook_service" where
  "run_hook_calls regex shell cs s = fold (run_hook_call regex shell) cs s"

text \<open>The rules come from a file some call found, and a run from a call, a rule it matches and its action.\<close>

definition rules_from :: "hook_call set \<Rightarrow> hook_rule list \<Rightarrow> bool" where
  "rules_from C rules \<longleftrightarrow> (\<exists>f environ ev. Dispatch f environ ev \<in> C \<and> load_rules f = Inr rules)"

definition run_from ::
  "(string \<Rightarrow> string \<Rightarrow> bool option) \<Rightarrow> string \<Rightarrow> hook_call set \<Rightarrow> shell_run \<Rightarrow> bool" where
  "run_from regex dir C r \<longleftrightarrow>
     (\<exists>f environ ev rules rule. Dispatch f environ ev \<in> C \<and> rules_from C rules \<and> rule \<in> set rules
        \<and> is_satisfied_by regex (hr_spec rule) ev = Inr True \<and> run_of dir environ (hr_action rule) r)"

definition service_ok :: "(string \<Rightarrow> string \<Rightarrow> bool option) \<Rightarrow> string \<Rightarrow> hook_call set \<Rightarrow> hook_service \<Rightarrow> bool" where
  "service_ok regex dir C s \<longleftrightarrow>
     hs_hooks_dir s = dir \<and> (\<forall>rules. hs_rules s = Some rules \<longrightarrow> rules_from C rules)
     \<and> (\<forall>r \<in> set (hs_runs s). run_from regex dir C r)"

lemma run_fromI:
  "Dispatch f environ ev \<in> C \<Longrightarrow> rules_from C rules \<Longrightarrow> rule \<in> set rules \<Longrightarrow>
     is_satisfied_by regex (hr_spec rule) ev = Inr True \<Longrightarrow> run_of dir environ (hr_action rule) r \<Longrightarrow>
     run_from regex dir C r"
  unfolding run_from_def by blast

lemma preserves_on_runs:
  assumes "preserves (\<lambda>runs. \<forall>r \<in> set runs. Q r) m" "\<forall>r \<in> set (hs_runs s). Q r"
  shows "\<forall>r \<in> set (snd (m (hs_runs s))). Q r"
  using preservesD [OF assms] by simp

lemma service_ok_dispatch:
  assumes "service_ok regex dir C s" and "Dispatch f environ ev \<in> C"
  shows "service_ok regex dir C (snd (service_dispatch regex shell f environ ev s))"
proof (cases "load_dispatcher f s")
  case (Pair r s1)
  show ?thesis
  proof (cases r)
    case (Inl e)
    with Pair have "s1 = s" by (auto simp: load_dispatcher_def split: option.splits sum.splits)
    with Pair Inl assms show ?thesis by (simp add: service_dispatch_def py_simps)
  next
    case (Inr rules)
    with Pair assms have rules: "rules_from C rules" and s1: "hs_hooks_dir s1 = dir" "hs_rules s1 = Some rules"
      "hs_runs s1 = hs_runs s"
      by (auto simp: load_dispatcher_def service_ok_def rules_from_def split: option.splits sum.splits)
    let ?m = "dispatch_rules regex 2 (run_action shell dir environ) rules ev"
    have "preserves (\<lambda>runs. \<forall>r \<in> set runs. run_from regex dir C r) ?m"
      using run_fromI [OF assms(2) rules] by (intro preserves_dispatch_rules preserves_run_action) auto
    moreover have "\<forall>r \<in> set (hs_runs s). run_from regex dir C r" using assms(1) by (simp add: service_ok_def)
    ultimately have "\<forall>r \<in> set (snd (?m (hs_runs s))). run_from regex dir C r" by (rule preserves_on_runs)
    with Pair Inr rules s1 show ?thesis
      by (simp add: service_dispatch_def py_simps service_ok_def case_prod_beta Let_def)
  qed
qed

lemma service_ok_calls:
  "service_ok regex dir C s \<Longrightarrow> set cs \<subseteq> C \<Longrightarrow> service_ok regex dir C (run_hook_calls regex shell cs s)"
proof (induction cs arbitrary: s)
  case (Cons c cs)
  have "service_ok regex dir C (run_hook_call regex shell c s)"
  proof (cases c)
    case Reload
    with Cons.prems(1) show ?thesis by (simp add: service_reload_def service_ok_def)
  qed (use Cons.prems service_ok_dispatch in auto)
  with Cons show ?case by (simp add: run_hook_calls_def)
qed (simp add: run_hook_calls_def)

lemma service_ok_new: "service_ok regex dir C (new_hook_service dir)"
  by (simp add: service_ok_def new_hook_service_def)

lemma validated_command:
  assumes "validate_command c = Inr s"
  shows "c = JString s \<and> (\<forall>p \<in> set dangerous_patterns. \<not> contains_text p (py_strip s))"
  using assms by (cases c) (auto simp: validate_command_def find_None_iff split: option.splits)

lemma in_dict_set: "(x, y) \<in> set (dict_set a b kvs) \<Longrightarrow> (x, y) = (a, b) \<or> (x, y) \<in> set kvs"
  by (induction a b kvs rule: dict_set.induct) (auto split: if_splits)

lemma safe_env_entries:
  assumes "(k, v) \<in> set (get_safe_env dir environ)"
  shows "(k, v) = (''HOOKS_DIR'', dir) \<or> (k, v) \<in> set environ \<and> k \<in> set safe_default_env_vars"
  using in_dict_set [OF assms [unfolded get_safe_env_def]] by (auto simp: passes_env_def)

lemma safe_env_safe:
  "\<forall>(k, v) \<in> set (get_safe_env dir environ). (k, v) = (''HOOKS_DIR'', dir)
     \<or> (k, v) \<in> set environ \<and> k \<in> set safe_default_env_vars"
proof
  fix x assume x: "x \<in> set (get_safe_env dir environ)"
  obtain k v where kv: "x = (k, v)" by (cases x)
  from safe_env_entries [OF x [unfolded kv]]
  show "case x of (k, v) \<Rightarrow> (k, v) = (''HOOKS_DIR'', dir) \<or> (k, v) \<in> set environ \<and> k \<in> set safe_default_env_vars"
    unfolding kv prod.case .
qed

lemma positive_truthy: "positive_timeout t \<Longrightarrow> json_truthy t"
  by (auto simp: positive_timeout_def)

text \<open>
  C38: whatever calls the hook service gets, each command it handed to the shell is the command of a rule
  that was loaded from hooks.json and matched the event; it has none of the dangerous patterns, it runs with
  the rule's positive timeout, and its environment holds only \<open>HOOKS_DIR\<close> and safe variables of the caller.
\<close>

theorem hooks_run_vetted:
  assumes "r \<in> set (hs_runs (run_hook_calls regex shell cs (new_hook_service dir)))"
  shows "\<exists>f environ ev rules rule.
     Dispatch f environ ev \<in> set cs \<and> rules_from (set cs) rules \<and> rule \<in> set rules
     \<and> is_satisfied_by regex (hr_spec rule) ev = Inr True
     \<and> sa_command (hr_action rule) = JString (sr_command r)
     \<and> (\<forall>p \<in> set dangerous_patterns. \<not> contains_text p (py_strip (sr_command r)))
     \<and> sr_timeout r = sa_timeout (hr_action rule) \<and> positive_timeout (sr_timeout r)
     \<and> (\<forall>(k, v) \<in> set (sr_env r). (k, v) = (''HOOKS_DIR'', dir)
           \<or> (k, v) \<in> set environ \<and> k \<in> set safe_default_env_vars)"
proof -
  have "service_ok regex dir (set cs) (run_hook_calls regex shell cs (new_hook_service dir))"
    by (rule service_ok_calls [OF service_ok_new subset_refl])
  with assms obtain f environ ev rules rule where
    *: "Dispatch f environ ev \<in> set cs" "rules_from (set cs) rules" "rule \<in> set rules"
      "is_satisfied_by regex (hr_spec rule) ev = Inr True"
    and r: "run_of dir environ (hr_action rule) r"
    unfolding service_ok_def run_from_def by blast
  have t: "positive_timeout (sa_timeout (hr_action rule))"
    using *(2,3) load_rules_ok by (auto simp: rules_from_def loaded_rule_ok_def)
  have env: "\<forall>(k, v) \<in> set (sr_env r). (k, v) = (''HOOKS_DIR'', dir)
      \<or> (k, v) \<in> set environ \<and> k \<in> set safe_default_env_vars"
    using r safe_env_safe [of dir environ] by (simp only: run_of_def)
  have time: "sr_timeout r = sa_timeout (hr_action rule)"
    using r positive_truthy [OF t] by (simp add: run_of_def)
  have cmd: "validate_command (sa_command (hr_action rule)) = Inr (sr_command r)"
    using r by (simp only: run_of_def)
  show ?thesis
    by (intro exI conjI) (rule * validated_command [OF cmd, THEN conjunct1] time t [folded time]
      validated_command [OF cmd, THEN conjunct2] env)+
qed

definition session_hooks :: state_file where
  "session_hooks = Holds (JObject [(''hooks'', JObject [(''SessionStart'', JArray [JObject
     [(''matcher'', JString ''.*''), (''hooks'', JArray
        [JObject [(''type'', JString ''command''), (''command'', JString ''.hooks/init.sh''), (''timeout'', JNumber 5)],
         JObject [(''type'', JString ''command''), (''command'', JString ''curl x'')]])]])])])"

definition session_calls :: "hook_call list" where
  "session_calls = [Dispatch session_hooks [(''PATH'', ''/bin''), (''LD_PRELOAD'', ''x'')] (message_of (SessionStartEvent ''s''))]"

theorem hooks_run_vetted_witness:
  "\<exists>r. hs_runs (run_hook_calls (\<lambda>p s. Some True) (\<lambda>runs r. ShellExited 0 []) session_calls (new_hook_service ''.hooks'')) = [r]
     \<and> sr_command r = ''.hooks/init.sh'' \<and> positive_timeout (sr_timeout r)"
proof -
  let ?runs = "hs_runs (run_hook_calls (\<lambda>p s. Some True) (\<lambda>runs r. ShellExited 0 []) session_calls (new_hook_service ''.hooks''))"
  have "map sr_command ?runs = [''.hooks/init.sh'']" by code_simp
  then obtain r where r: "?runs = [r]" "sr_command r = ''.hooks/init.sh''" by auto
  then have "r \<in> set ?runs" by simp
  from hooks_run_vetted [OF this] r show ?thesis by blast
qed

section \<open>Who is stopped\<close>

lemma event_type_names:
  "py_replace ''Event'' [] ''UserCommandEvent'' = ''UserCommand''"
  "py_replace ''Event'' [] ''FileWrittenEvent'' = ''FileWritten''"
  "py_replace ''Event'' [] ''ToolPreExecutionEvent'' = ''ToolPreExecution''"
  "py_replace ''Event'' [] ''SessionStartEvent'' = ''SessionStart''"
  "py_replace ''Event'' [] ''SubagentStartEvent'' = ''SubagentStart''"
  "py_replace ''Event'' [] ''SubagentStopEvent'' = ''SubagentStop''"
  "py_replace ''Event'' [] ''WorkflowPhaseChangeEvent'' = ''WorkflowPhaseChange''"
  "py_replace ''Event'' [] ''TrifectaIndexEvent'' = ''TrifectaIndex''"
  "py_replace ''Event'' [] ''WorkflowOutlineStartEvent'' = ''WorkflowOutlineStart''"
  "py_replace ''Event'' [] ''WorkflowOutlineCompleteEvent'' = ''WorkflowOutlineComplete''"
  "py_replace ''Event'' [] ''WorkflowExecuteStartEvent'' = ''WorkflowExecuteStart''"
  "py_replace ''Event'' [] ''WorkflowExecuteCompleteEvent'' = ''WorkflowExecuteComplete''"
  "py_replace ''Event'' [] ''WorkflowVerifyStartEvent'' = ''WorkflowVerifyStart''"
  "py_replace ''Event'' [] ''WorkflowVerifyCompleteEvent'' = ''WorkflowVerifyComplete''"
  "py_replace ''Event'' [] ''WorkflowShipStartEvent'' = ''WorkflowShipStart''"
  "py_replace ''Event'' [] ''WorkflowShipCompleteEvent'' = ''WorkflowShipComplete''"
  "py_replace ''Event'' [] ''WorktreeCreatedEvent'' = ''WorktreeCreated''"
  "py_replace ''Event'' [] ''WorktreeMergedEvent'' = ''WorktreeMerged''"
  "py_replace ''Event'' [] ''WorktreeRemovedEvent'' = ''WorktreeRemoved''"
  by code_simp+

lemma event_fields:
  "map_of event_field_extractors ''UserCommand'' = Some ''command_name''"
  "map_of event_field_extractors ''FileWritten'' = Some ''path''"
  "map_of event_field_extractors ''ToolPreExecution'' = Some ''tool_name''"
  "map_of event_field_extractors ''SessionStart'' = Some ''session_id''"
  "map_of event_field_extractors ''SubagentStart'' = Some ''agent_name''"
  "map_of event_field_extractors ''SubagentStop'' = Some ''agent_name''"
  "map_of event_field_extractors ''WorkflowPhaseChange'' = Some ''plan_id''"
  "map_of event_field_extractors ''WorkflowOutlineStart'' = Some ''plan_id''"
  "map_of event_field_extractors ''WorkflowOutlineComplete'' = Some ''plan_id''"
  "map_of event_field_extractors ''WorkflowExecuteStart'' = Some ''plan_id''"
  "map_of event_field_extractors ''WorkflowExecuteComplete'' = Some ''plan_id''"
  "map_of event_field_extractors ''WorkflowVerifyStart'' = Some ''plan_id''"
  "map_of event_field_extractors ''WorkflowVerifyComplete'' = Some ''plan_id''"
  "map_of event_field_extractors ''WorkflowShipStart'' = Some ''plan_id''"
  "map_of event_field_extractors ''WorkflowShipComplete'' = Some ''plan_id''"
  "map_of event_field_extractors ''WorktreeCreated'' = None"
  "map_of event_field_extractors ''WorktreeMerged'' = None"
  "map_of event_field_extractors ''WorktreeRemoved'' = None"
  "map_of event_field_extractors ''TrifectaIndex'' = None"
  by code_simp+

lemma text_matcher_decides:
  "\<exists>hit. is_satisfied_by regex (RegexMatcherSpec t (JString p)) (message_of e) = Inr hit"
proof -
  have "map_of event_field_extractors (event_type_name (message_of (WorkflowEvent h))) = None \<Longrightarrow>
      \<forall>f \<in> set fallback_fields. map_of (hm_fields (message_of (WorkflowEvent h))) f = None" for h
    by (cases h) (simp_all add: event_type_name_def event_type_names event_fields fallback_fields_def del: py_replace.simps)
  then have "map_of event_field_extractors (event_type_name (message_of e)) = None \<Longrightarrow>
      \<forall>f \<in> set fallback_fields. map_of (hm_fields (message_of e)) f = None"
    by (cases e) (simp_all add: event_type_name_def event_type_names event_fields fallback_fields_def del: py_replace.simps)
  then show ?thesis
    by (auto simp: regex_matcher_satisfied_def matcher_search_def search_field_def find_None_iff
      split: option.splits json.splits dest: find_Some_set)
qed

text \<open>The commands a dispatch gives to the shell when no rule stops it.\<close>

definition due_commands ::
  "(string \<Rightarrow> string \<Rightarrow> bool option) \<Rightarrow> hook_rule list \<Rightarrow> hook_message \<Rightarrow> string list" where
  "due_commands regex rules ev =
     concat (map (\<lambda>rule.
       if is_satisfied_by regex (hr_spec rule) ev = Inr True
       then (case validate_command (sa_command (hr_action rule)) of Inr c \<Rightarrow> [c] | Inl e \<Rightarrow> [])
       else []) rules)"

lemma snd_suppress: "snd (py_suppress p m s) = snd (m s)"
  by (auto simp: py_suppress_def split: prod.splits sum.splits)

lemma fst_suppress_all: "fst (py_suppress (\<lambda>e. True) m s) = Inr ()"
  by (auto simp: py_suppress_def split: prod.splits sum.splits)

lemma run_action_commands:
  "map sr_command (snd (run_action shell dir environ action runs)) = map sr_command runs
     @ (case validate_command (sa_command action) of Inr c \<Rightarrow> [c] | Inl e \<Rightarrow> [])"
  by (cases "validate_command (sa_command action)")
     (auto simp: run_action_def py_simps ask_shell_def py_bind_def run_failed_def Let_def split: shell_answer.splits)

lemma dispatch_rules_Cons:
  "is_satisfied_by regex (hr_spec rule) ev = Inr False \<Longrightarrow>
     dispatch_rules regex n runner (rule # rules) ev s = dispatch_rules regex n runner rules ev s"
  "is_satisfied_by regex (hr_spec rule) ev = Inr True \<Longrightarrow>
     dispatch_rules regex n runner (rule # rules) ev s =
       py_bind (run_with_policy n runner rule) (\<lambda>_. dispatch_rules regex n runner rules ev) s"
  by (simp_all add: py_simps)

lemma dispatch_continuing:
  assumes "\<forall>rule \<in> set rules. \<exists>hit. is_satisfied_by regex (hr_spec rule) ev = Inr hit
             \<and> (hit \<longrightarrow> sa_on_failure (hr_action rule) = POLICY_CONTINUE)"
  shows "\<exists>runs'. dispatch_rules regex n (run_action shell dir environ) rules ev runs = (Inr (), runs')
           \<and> map sr_command runs' = map sr_command runs @ due_commands regex rules ev"
  using assms
proof (induction rules arbitrary: runs)
  case (Cons rule rules)
  then obtain hit where hit: "is_satisfied_by regex (hr_spec rule) ev = Inr hit"
    "hit \<longrightarrow> sa_on_failure (hr_action rule) = POLICY_CONTINUE" by auto
  show ?case
  proof (cases hit)
    case True
    let ?m = "run_with_policy n (run_action shell dir environ) rule"
    have "?m = py_suppress (\<lambda>e. True) (run_action shell dir environ (hr_action rule))"
      using hit True by (simp add: run_with_policy_def)
    then have "?m runs = (Inr (), snd (run_action shell dir environ (hr_action rule) runs))"
      using snd_suppress fst_suppress_all by (metis prod.collapse)
    moreover obtain runs' where
      "dispatch_rules regex n (run_action shell dir environ) rules ev
         (snd (run_action shell dir environ (hr_action rule) runs)) = (Inr (), runs')"
      "map sr_command runs' = map sr_command (snd (run_action shell dir environ (hr_action rule) runs))
         @ due_commands regex rules ev"
      using Cons.IH Cons.prems by fastforce
    ultimately show ?thesis
      using hit True by (simp add: dispatch_rules_Cons(2) py_simps due_commands_def run_action_commands
          del: dispatch_rules.simps)
  next
    case False
    with hit Cons show ?thesis by (simp add: dispatch_rules_Cons(1) due_commands_def del: dispatch_rules.simps)
  qed
qed (simp add: py_simps due_commands_def)

text \<open>
  C39: a service that loads the file hands an event of the system to the shell without stopping the caller
  when every matching rule has the policy to continue, whatever the shell answers: it asks for the commands
  of all matching rules that have no dangerous pattern, in the order of the file and each once.
\<close>

theorem continuing_hooks_never_block:
  assumes "load_rules f = Inr rules" and "hs_rules s = None"
    and "\<forall>rule \<in> set rules. \<exists>t p. hr_spec rule = RegexMatcherSpec t (JString p)"
    and "\<forall>rule \<in> set rules. is_satisfied_by regex (hr_spec rule) (message_of e) = Inr True \<longrightarrow>
           sa_on_failure (hr_action rule) = POLICY_CONTINUE"
  shows "\<exists>s'. service_dispatch regex shell f environ (message_of e) s = (Inr (), s')
           \<and> hs_rules s' = Some rules
           \<and> map sr_command (hs_runs s') = map sr_command (hs_runs s) @ due_commands regex rules (message_of e)"
proof -
  have "\<forall>rule \<in> set rules. \<exists>hit. is_satisfied_by regex (hr_spec rule) (message_of e) = Inr hit
      \<and> (hit \<longrightarrow> sa_on_failure (hr_action rule) = POLICY_CONTINUE)"
    using assms(3,4) text_matcher_decides by metis
  from dispatch_continuing [OF this, of 2 shell "hs_hooks_dir s" environ "hs_runs s"] assms(1,2)
  show ?thesis by (auto simp: service_dispatch_def load_dispatcher_def py_simps py_bind_def)
qed

definition ship_hooks :: state_file where
  "ship_hooks = Holds (JObject [(''hooks'', JObject [(''WorkflowShipStart'', JArray [JObject
     [(''hooks'', JArray
        [JObject [(''type'', JString ''command''), (''command'', JString ''make log''), (''on_failure'', JString ''continue'')],
         JObject [(''type'', JString ''command''), (''command'', JString ''nc -l''), (''on_failure'', JString ''continue'')],
         JObject [(''type'', JString ''command''), (''command'', JString ''make note''), (''on_failure'', JString ''continue'')]])]])])])"

theorem continuing_hooks_never_block_witness:
  "\<exists>s'. service_dispatch (\<lambda>p s. Some True) (\<lambda>runs r. ShellTimedOut) ship_hooks [] (message_of (WorkflowEvent (ShipStart (JString ''p'') ''main'')))
          (new_hook_service ''h'') = (Inr (), s')
     \<and> map sr_command (hs_runs s') = [''make log'', ''make note'']"
proof -
  let ?e = "WorkflowEvent (ShipStart (JString ''p'') ''main'')"
  have "case load_rules ship_hooks of Inl e \<Rightarrow> False | Inr rules \<Rightarrow>
      list_all (\<lambda>rule. hr_spec rule = RegexMatcherSpec ''WorkflowShipStart'' (JString ''.*'')
        \<and> sa_on_failure (hr_action rule) = POLICY_CONTINUE) rules
      \<and> due_commands (\<lambda>p s. Some True) rules (message_of ?e) = [''make log'', ''make note'']"
    by code_simp
  then obtain rules where rules: "load_rules ship_hooks = Inr rules"
    and ok: "\<forall>rule \<in> set rules. hr_spec rule = RegexMatcherSpec ''WorkflowShipStart'' (JString ''.*'')
        \<and> sa_on_failure (hr_action rule) = POLICY_CONTINUE"
    and due: "due_commands (\<lambda>p s. Some True) rules (message_of ?e) = [''make log'', ''make note'']"
    by (auto simp: list_all_iff split: sum.splits)
  have "\<exists>s'. service_dispatch (\<lambda>p s. Some True) (\<lambda>runs r. ShellTimedOut) ship_hooks [] (message_of ?e)
        (new_hook_service ''h'') = (Inr (), s') \<and> hs_rules s' = Some rules
      \<and> map sr_command (hs_runs s') = map sr_command (hs_runs (new_hook_service ''h''))
          @ due_commands (\<lambda>p s. Some True) rules (message_of ?e)"
    by (rule continuing_hooks_never_block [OF rules]) (use ok in \<open>auto simp: new_hook_service_def\<close>)
  with due show ?thesis by (auto simp: new_hook_service_def)
qed

section \<open>Who stops the caller\<close>

text \<open>The last command of a history is the one of an action, and what the shell answered.\<close>

definition answered ::
  "shell \<Rightarrow> string \<Rightarrow> (string \<times> string) list \<Rightarrow> shell_action \<Rightarrow> shell_run list \<Rightarrow> shell_answer \<Rightarrow> bool" where
  "answered shell dir environ action runs answer \<longleftrightarrow>
     (\<exists>before r. runs = before @ [r] \<and> run_of dir environ action r \<and> shell before r = answer)"

text \<open>
  An answer that stops the caller with an exception, when the policy of the rule is not to continue: the shell's
  own exception, or, for a critical action, a timeout or an exit code other than 0.
\<close>

definition blocks :: "shell_action \<Rightarrow> shell_answer \<Rightarrow> exc \<Rightarrow> bool" where
  "blocks action answer x \<longleftrightarrow>
     (case answer of
        ShellRaises e \<Rightarrow> x = e
      | ShellTimedOut \<Rightarrow> json_truthy (sa_critical action) \<and> (\<exists>m. x = HookExecutionError m)
      | ShellExited code stderr \<Rightarrow>
          code \<noteq> 0 \<and> json_truthy (sa_critical action)
          \<and> x = HookExecutionError (''Action failed (exit '' @ show_int code @ ''): ''
                  @ (if stderr = [] then ''Unknown error'' else take 200 stderr)))"

lemma run_action_outcome:
  assumes "sa_on_failure action \<noteq> POLICY_CONTINUE" and "run_action shell dir environ action runs = (res, runs')"
  shows "case res of
      Inl x \<Rightarrow> validate_command (sa_command action) = Inl x
        \<or> (\<exists>answer. answered shell dir environ action runs' answer \<and> blocks action answer x)
    | Inr u \<Rightarrow> \<exists>answer. answered shell dir environ action runs' answer \<and> (\<forall>x. \<not> blocks action answer x)"
proof (cases "validate_command (sa_command action)")
  case (Inr c)
  let ?r = "\<lparr>sr_command = c, sr_env = get_safe_env dir environ,
    sr_timeout = (if json_truthy (sa_timeout action) then sa_timeout action else JNumber 30)\<rparr>"
  have r: "run_of dir environ action ?r" using Inr by (simp add: run_of_def)
  have runs': "runs' = runs @ [?r]"
    using assms(2) Inr
    by (auto simp: run_action_def py_simps ask_shell_def py_bind_def run_failed_def Let_def split: shell_answer.splits if_splits)
  have "answered shell dir environ action runs' (shell runs ?r)"
    unfolding answered_def runs' using r by blast
  moreover have "case res of Inl x \<Rightarrow> blocks action (shell runs ?r) x | Inr u \<Rightarrow> \<forall>x. \<not> blocks action (shell runs ?r) x"
    using assms Inr
    by (auto simp: run_action_def py_simps ask_shell_def py_bind_def run_failed_def Let_def blocks_def
      continue_on_failure_def split: shell_answer.splits if_splits)
  ultimately show ?thesis by (cases res) auto
qed (use assms in \<open>auto simp: run_action_def py_simps\<close>)

text \<open>The last attempt decides, and its state is the state left.\<close>

lemma run_attempts_last:
  "run_attempts m (Suc n) s = (res, s') \<Longrightarrow> \<exists>a. m a = (res, s')"
proof (induction n arbitrary: s)
  case (Suc n)
  then show ?case by (cases "m s") (auto simp: py_catch_def split: sum.splits simp del: run_attempts.simps(2)
      simp: run_attempts.simps(2) [of m "Suc n"])
next
  case 0
  then show ?case by (cases "m s") (auto simp: py_catch_def split: sum.splits)
qed

lemma run_with_policy_last:
  assumes "run_with_policy (Suc n) runner rule s = (res, s')" and "sa_on_failure (hr_action rule) \<noteq> POLICY_CONTINUE"
  shows "\<exists>a. runner (hr_action rule) a = (res, s')"
  using assms run_attempts_last
  by (cases "sa_on_failure (hr_action rule)") (auto simp: run_with_policy_def simp del: run_attempts.simps)

lemma run_with_policy_continue:
  "sa_on_failure (hr_action rule) = POLICY_CONTINUE \<Longrightarrow> fst (run_with_policy n runner rule s) = Inr ()"
  by (simp add: run_with_policy_def fst_suppress_all)

lemma dispatch_raises:
  assumes "dispatch_rules regex (Suc n) runner rules ev s = (Inl x, s')"
  shows "\<exists>rule \<in> set rules. is_satisfied_by regex (hr_spec rule) ev = Inl x
    \<or> is_satisfied_by regex (hr_spec rule) ev = Inr True \<and> sa_on_failure (hr_action rule) \<noteq> POLICY_CONTINUE
        \<and> (\<exists>a. runner (hr_action rule) a = (Inl x, s'))"
  using assms
proof (induction rules arbitrary: s)
  case (Cons rule rules)
  show ?case
  proof (cases "is_satisfied_by regex (hr_spec rule) ev")
    case (Inr hit)
    show ?thesis
    proof (cases hit)
      case True
      obtain q s1 where q: "run_with_policy (Suc n) runner rule s = (q, s1)"
        by (cases "run_with_policy (Suc n) runner rule s")
      show ?thesis
      proof (cases q)
        case (Inl y)
        with Cons.prems Inr True q have y: "y = x" "s1 = s'"
          by (simp_all add: dispatch_rules_Cons(2) py_simps del: dispatch_rules.simps)
        have "sa_on_failure (hr_action rule) \<noteq> POLICY_CONTINUE"
          using run_with_policy_continue [of rule "Suc n" runner s] q Inl by auto
        with run_with_policy_last [OF q] Inr True Inl y show ?thesis by auto
      next
        case (Inr u)
        with Cons.prems \<open>is_satisfied_by regex (hr_spec rule) ev = Inr hit\<close> True q
        have "dispatch_rules regex (Suc n) runner rules ev s1 = (Inl x, s')"
          by (simp add: dispatch_rules_Cons(2) py_simps del: dispatch_rules.simps)
        with Cons.IH show ?thesis by fastforce
      qed
    next
      case False
      with Inr Cons.prems have "dispatch_rules regex (Suc n) runner rules ev s = (Inl x, s')"
        by (simp add: dispatch_rules_Cons(1) del: dispatch_rules.simps)
      with Cons.IH show ?thesis by fastforce
    qed
  qed (use Cons.prems in \<open>simp add: py_simps\<close>)
qed (simp add: py_simps)

lemma dispatch_grows: "\<exists>rest. snd (dispatch_rules regex n (run_action shell dir environ) rules ev runs) = runs @ rest"
proof -
  have "preserves (\<lambda>s. \<exists>rest. s = runs @ rest) (dispatch_rules regex n (run_action shell dir environ) rules ev)"
    by (intro preserves_dispatch_rules preserves_run_action) auto
  from preservesD [OF this, of runs] show ?thesis by simp
qed

lemma dispatch_returns:
  assumes "dispatch_rules regex (Suc n) (run_action shell dir environ) rules ev s = (Inr (), s')" and "rule \<in> set rules"
  shows "\<exists>hit. is_satisfied_by regex (hr_spec rule) ev = Inr hit
    \<and> (hit \<and> sa_on_failure (hr_action rule) \<noteq> POLICY_CONTINUE \<longrightarrow>
         (\<exists>a b rest. run_action shell dir environ (hr_action rule) a = (Inr (), b) \<and> s' = b @ rest))"
  using assms
proof (induction rules arbitrary: s)
  case (Cons r rules)
  obtain hit where hit: "is_satisfied_by regex (hr_spec r) ev = Inr hit"
    using Cons.prems(1) by (cases "is_satisfied_by regex (hr_spec r) ev") (simp_all add: py_simps)
  let ?first = "if hit then run_with_policy (Suc n) (run_action shell dir environ) r else py_return ()"
  obtain q s1 where q: "?first s = (q, s1)" by (cases "?first s")
  have "q = Inr () \<and> dispatch_rules regex (Suc n) (run_action shell dir environ) rules ev s1 = (Inr (), s')"
    using Cons.prems(1) hit q
    by (cases q; cases hit) (simp_all add: dispatch_rules_Cons py_simps del: dispatch_rules.simps)
  then have q': "q = Inr ()" and rest: "dispatch_rules regex (Suc n) (run_action shell dir environ) rules ev s1 = (Inr (), s')"
    by simp_all
  show ?case
  proof (cases "rule = r")
    case True
    obtain more where "s' = s1 @ more"
      using dispatch_grows [of regex "Suc n" shell dir environ rules ev s1] rest by auto
    moreover from run_with_policy_last [of n "run_action shell dir environ" r s "Inr ()" s1] q q'
    have "\<exists>a. run_action shell dir environ (hr_action r) a = (Inr (), s1)"
      if "hit" "sa_on_failure (hr_action r) \<noteq> POLICY_CONTINUE" using that by simp
    ultimately show ?thesis using hit unfolding True by blast
  next
    case False
    with Cons.prems(2) Cons.IH [OF rest] show ?thesis by simp
  qed
qed simp

text \<open>
  C40: when a dispatch raises, the file could not be loaded, or some loaded rule is to blame: its matcher is
  not a text, or it matches the event, its policy is not to continue, and its command was refused or was the
  last one asked for and the shell raised, or the rule is critical and the command timed out or left with
  another code than 0. When a dispatch returns, the command of every matching rule whose policy is not to continue
  was asked for, the shell did not raise, and where the rule is critical the command left with code 0.
\<close>

theorem only_critical_hooks_block:
  assumes "service_dispatch regex shell f environ ev (run_hook_calls regex shell cs (new_hook_service dir)) = (res, s')"
  shows "case res of
      Inl x \<Rightarrow>
        load_rules f = Inl x \<or> (\<exists>rules rule.
          rules_from (insert (Dispatch f environ ev) (set cs)) rules \<and> rule \<in> set rules
          \<and> (is_satisfied_by regex (hr_spec rule) ev = Inl x
             \<or> is_satisfied_by regex (hr_spec rule) ev = Inr True
               \<and> sa_on_failure (hr_action rule) \<noteq> POLICY_CONTINUE
               \<and> (validate_command (sa_command (hr_action rule)) = Inl x
                  \<or> (\<exists>answer. answered shell dir environ (hr_action rule) (hs_runs s') answer
                       \<and> blocks (hr_action rule) answer x))))
    | Inr u \<Rightarrow>
        \<exists>rules. hs_rules s' = Some rules \<and> (\<forall>rule \<in> set rules. \<exists>hit.
          is_satisfied_by regex (hr_spec rule) ev = Inr hit
          \<and> (hit \<and> sa_on_failure (hr_action rule) \<noteq> POLICY_CONTINUE \<longrightarrow>
               (\<exists>runs rest answer. hs_runs s' = runs @ rest
                  \<and> answered shell dir environ (hr_action rule) runs answer
                  \<and> (\<forall>x. \<not> blocks (hr_action rule) answer x))))"
proof -
  let ?s = "run_hook_calls regex shell cs (new_hook_service dir)"
  let ?C = "insert (Dispatch f environ ev) (set cs)"
  have ok: "service_ok regex dir ?C ?s" by (rule service_ok_calls [OF service_ok_new]) auto
  show ?thesis
  proof (cases "hs_rules ?s = None \<and> (\<exists>e. load_rules f = Inl e)")
    case True
    with assms show ?thesis by (auto simp: service_dispatch_def load_dispatcher_def py_bind_def)
  next
    case False
    then obtain rules s1 where l: "load_dispatcher f ?s = (Inr rules, s1)"
      by (cases "hs_rules ?s"; cases "load_rules f") (auto simp: load_dispatcher_def)
    with ok have rules: "rules_from ?C rules" and s1: "hs_hooks_dir s1 = dir" "hs_rules s1 = Some rules"
      by (auto simp: load_dispatcher_def service_ok_def rules_from_def split: option.splits sum.splits)
    from l assms s1 have d: "dispatch_rules regex 2 (run_action shell dir environ) rules ev (hs_runs s1) = (res, hs_runs s')"
      and s': "hs_rules s' = Some rules"
      by (auto simp: service_dispatch_def py_simps case_prod_beta Let_def)
    show ?thesis
    proof (cases res)
      case (Inl x)
      have out: "validate_command (sa_command action) = Inl x
          \<or> (\<exists>answer. answered shell dir environ action (hs_runs s') answer \<and> blocks action answer x)"
        if "run_action shell dir environ action a = (Inl x, hs_runs s')" "sa_on_failure action \<noteq> POLICY_CONTINUE"
        for action a
        using run_action_outcome [OF that(2,1)] by simp
      from dispatch_raises [OF d [unfolded Inl numeral_2_eq_2]] rules out
      show ?thesis unfolding Inl sum.case by blast
    next
      case (Inr u)
      then have res: "res = Inr ()" by simp
      have out: "\<exists>answer. answered shell dir environ action b answer \<and> (\<forall>x. \<not> blocks action answer x)"
        if "run_action shell dir environ action a = (Inr (), b)" "sa_on_failure action \<noteq> POLICY_CONTINUE"
        for action a b
        using run_action_outcome [OF that(2,1)] by simp
      from dispatch_returns [OF d [unfolded res numeral_2_eq_2]] s' out
      show ?thesis unfolding res sum.case by blast
    qed
  qed
qed

theorem only_critical_hooks_block_witness:
  "\<exists>s'. service_dispatch (\<lambda>p s. Some True) (\<lambda>runs r. ShellExited 1 ''no'') session_hooks [] (message_of (SessionStartEvent ''s''))
          (run_hook_calls (\<lambda>p s. Some True) (\<lambda>runs r. ShellExited 1 ''no'') [] (new_hook_service ''h''))
        = (Inl (HookExecutionError ''Action failed (exit 1): no''), s')
     \<and> (\<exists>rules rule. rules_from {Dispatch session_hooks [] (message_of (SessionStartEvent ''s''))} rules
          \<and> rule \<in> set rules \<and> sa_on_failure (hr_action rule) \<noteq> POLICY_CONTINUE)"
proof -
  let ?ev = "message_of (SessionStartEvent ''s'')" and ?x = "HookExecutionError ''Action failed (exit 1): no''"
  let ?d = "service_dispatch (\<lambda>p s. Some True) (\<lambda>runs r. ShellExited 1 ''no'') session_hooks [] ?ev
    (run_hook_calls (\<lambda>p s. Some True) (\<lambda>runs r. ShellExited 1 ''no'') [] (new_hook_service ''h''))"
  have "fst ?d = Inl ?x" by code_simp
  then obtain s' where s': "?d = (Inl ?x, s')" by (metis prod.collapse)
  have "case load_rules session_hooks of Inl e \<Rightarrow> False | Inr rules \<Rightarrow>
      list_all (\<lambda>rule. is_satisfied_by (\<lambda>p s. Some True) (hr_spec rule) ?ev = Inr True) rules" by code_simp
  then obtain rules where l: "load_rules session_hooks = Inr rules"
    and m: "\<forall>rule \<in> set rules. is_satisfied_by (\<lambda>p s. Some True) (hr_spec rule) ?ev = Inr True"
    by (auto simp: list_all_iff split: sum.splits)
  have "rules_from {Dispatch session_hooks [] ?ev} rules' \<Longrightarrow> rules' = rules" for rules'
    using l by (auto simp: rules_from_def)
  with only_critical_hooks_block [OF s'] s' l m show ?thesis by fastforce
qed

section \<open>Events that no rule can match\<close>

lemma worktree_events_unmatched:
  "is_satisfied_by regex (RegexMatcherSpec t m) (message_of (WorkflowEvent (WorktreeCreated n p))) = Inr False"
  "is_satisfied_by regex (RegexMatcherSpec t m) (message_of (WorkflowEvent (WorktreeMerged n p))) = Inr False"
  "is_satisfied_by regex (RegexMatcherSpec t m) (message_of (WorkflowEvent (WorktreeRemoved n))) = Inr False"
  by (auto simp add: regex_matcher_satisfied_def event_type_name_def event_type_names event_fields fallback_fields_def
    simp del: py_replace.simps)

lemma dispatch_unmatched:
  "\<forall>rule \<in> set rules. is_satisfied_by regex (hr_spec rule) ev = Inr False \<Longrightarrow>
     dispatch_rules regex n runner rules ev s = (Inr (), s)"
  by (induction rules) (simp_all add: py_simps)

text \<open>
  The events of worktrees fire no hook, whatever hooks.json says: their class names have no entry in
  \<open>event_field_extractors\<close> and none of the fields the fallback looks for. The three entries
  of the shipped hooks.json for them are dead.
\<close>

theorem worktree_events_fire_nothing:
  assumes "load_rules f = Inr rules" and "ev \<in> {WorktreeCreated n p, WorktreeMerged n p, WorktreeRemoved n}"
  shows "dispatch_rules regex 2 runner rules (message_of (WorkflowEvent ev)) s = (Inr (), s)"
proof (rule dispatch_unmatched)
  show "\<forall>rule \<in> set rules. is_satisfied_by regex (hr_spec rule) (message_of (WorkflowEvent ev)) = Inr False"
  proof
    fix rule assume "rule \<in> set rules"
    then obtain t m where "hr_spec rule = RegexMatcherSpec t m"
      using load_rules_ok [OF assms(1)] unfolding loaded_rule_ok_def by blast
    with assms(2) show "is_satisfied_by regex (hr_spec rule) (message_of (WorkflowEvent ev)) = Inr False"
      using worktree_events_unmatched by fastforce
  qed
qed

end
