(* ===== verification/Spec2Isabelle.thy ===== *)
theory Spec2Isabelle
  imports Task_Board_Properties Launch_Properties Polling_Properties Fpel_Properties
    Workflow_Properties Execution_Properties Text_Properties Resilience_Properties
    Memory_Properties Session_Properties Sync_Properties Replica_Properties
    Messaging_Properties Scheduler Telemetry_Properties Hook_Properties
begin

text \<open>
  Verification of the orchestration core of fork_agent (the Python package under src/src).

  The program coordinates coding agents. A task moves on a board from a plan to its completion; an
  approved task is started by a poll cycle that asks a registry for the exclusive right to launch an
  agent, opens a run, starts the task and spawns the agent; a gate can demand that the content of the
  task was frozen and sealed before. Beside the board there is a workflow of commands (outline, execute,
  verify, ship) over three state files: execute gives every task of a plan a launch, a tmux session with
  an agent and a git worktree, ship merges the worktrees behind a gate on the verification. An agent
  manager keeps named agents in sessions of their own. What the agents learn is kept by a memory service,
  with work sessions beside it; every write of a memory entry is journalled, and a sync service exports
  entries or journal to files and imports the files of other machines. Agents send each other messages
  through a store, with a reference left at the receiver's pane; a telemetry service counts what happens.
  Events of the workflow run the shell commands that hooks.json names for them.
  The services, each on its own store:

    agent_polling_service  \<rightarrow>  task_board_service  \<rightarrow>  fpel_authorization_service (through its port)
    agent_polling_service  \<rightarrow>  agent_launch_lifecycle_service
    workflow commands  \<rightarrow>  fpel_authorization_service (the same port), workflow executor
    workflow executor  \<rightarrow>  agent_launch_lifecycle_service, workspace manager, tmux orchestrator
    agent manager  \<rightarrow>  agent_launch_lifecycle_service, circuit breaker
    memory_service  \<rightarrow>  observation repository  \<rightarrow>  sync repository (the journal)
    session_service  \<rightarrow>  session repository
    agent_messenger  \<rightarrow>  message store, message_protocol (files), tmux
    telemetry_service  \<rightarrow>  telemetry repository
    workflow executor, commands  \<rightarrow>  hook_service  \<rightarrow>  dispatcher  \<rightarrow>  shell_action_runner
    sync_service  \<rightarrow>  observation repository, sync repository, files

  Theories and sources (paths under src/src):

    Prelude                 exceptions (application/exceptions.py and Python's own) as a datatype, results
                            as sums, methods as functions from a state to a result and a state, and the
                            text and list functions of Python the code uses
    Sql_Table               a table as its list of rows: lookup, ordering, guarded UPDATE and its row
                            count; the locale cas_store is the contract of compare-and-set writes
    Lifecycle               locales for status machines: transition table, terminal states, rank
    Orchestration_Task      domain/entities/orchestration_task.py
    Task_Repository         infrastructure/persistence/repositories/orchestration_task_repository.py
    Fpel                    domain/entities/fpel.py, domain/services/fpel_content_hash.py
    Task_Board              application/services/task_board_service.py
    Authorization_Gate      domain/ports/fpel_authorization_port.py: the gate's contract as a locale and
                            the start of a task behind any gate that keeps it
    Agent_Launch            domain/entities/agent_launch.py, domain/services/canonical_key.py
    Launch_Repository       infrastructure/persistence/repositories/agent_launch_repository.py
    Launch_Lifecycle        application/services/agent_launch_lifecycle_service.py
    Launch_Runs             sequences of calls of that service and what each of them keeps
    Poll_Run                domain/entities/poll_run.py
    Poll_Repository         infrastructure/persistence/repositories/poll_run_repository.py
    Agent_Polling           application/services/agent_polling_service.py, with the part of
                            infrastructure/polling/poll_run_directory.py it uses
    Polling_Runs            how many runs an operation may add, and the moves of runs and launches
    Fpel_Repository         infrastructure/persistence/repositories/fpel_repository.py
    Fpel_Authorization      application/services/fpel_authorization_service.py
    Fpel_Gate               the FPEL store as a provider of the gate (interpretation of its locale), and
                            the outcome of each operation on a store that is in order
    Fpel_Runs               sequences of calls of the FPEL service and what each of them keeps
    Json                    JSON values, Python's truth of them, items and dictionaries; state files
    Workflow_State          application/services/workflow/state.py, domain/entities/goal.py,
                            derived_requirement.py, user_decision.py: the three states, their JSON forms,
                            migrations and files, with the round trips
    Py_Strings              the methods of str the code below uses
    Workspace               infrastructure/platform/git/git_command_executor.py,
                            application/services/workspace/workspace_manager.py; git is a function from
                            arguments and a repository to an answer and a repository
    Tmux_Orchestrator       infrastructure/tmux_orchestrator/__init__.py and
                            infrastructure/agent_backends: sanitising, windows, launch commands, and a
                            reader of shell words to say what a command means
    Store_Part              a store as a part of a caller's world: the locale store_part with its laws
    Launch_Client           the registry as such a part: the locale launch_client, with the moves of one
                            launch as the caller sees them
    Workflow_Executor       application/services/workflow/executor.py (interprets launch_client)
    Workflow_Commands       interfaces/cli/commands/workflow.py and
                            application/services/workflow/verify_runner.py
    Agent_Manager           application/services/agent/agent_manager.py (interprets launch_client)
    Circuit_Breaker         infrastructure/tmux_orchestrator/circuit_breaker.py, resilience_policy.py
    Retry                   infrastructure/tmux_orchestrator/retry.py
    Dead_Letters            infrastructure/tmux_orchestrator/dead_letter_queue.py
    Rate_Limiter            application/services/messaging/rate_limiter.py,
                            interfaces/api/middleware/rate_limit.py
    Promise_Contract        domain/entities/promise_contract.py,
                            infrastructure/persistence/repositories/promise_repository.py
    Observation             domain/entities/observation.py, and the normal forms of project and topic key
    Session                 domain/entities/session.py, application/services/session_service.py,
                            infrastructure/persistence/repositories/session_repository.py
    Sync_Journal            domain/entities/sync.py,
                            infrastructure/persistence/repositories/sync_repository.py
    Observation_Repository  infrastructure/persistence/repositories/observation_repository.py, with the
                            log of mutations
    Redaction               application/services/redaction/__init__.py
    Memory_Service          application/services/memory_service.py, diff_result.py
    Memory_Store            calls of the memory service and what each of them keeps
    Memory_Queries          lemmas on reading rows back, lists, the row of a topic key, redaction
    Sync_Service            application/services/sync/sync_service.py
    Sync_Lemmas             the files an export writes, the watermark, and what imports keep
    Sync_Transfer           what an import makes of the files an export wrote
    Message_Store           domain/entities/message.py, infrastructure/persistence/message_store.py
    Messenger               application/services/messaging/message_protocol.py, agent_messenger.py
    Scheduler               domain/entities/scheduled_task.py, application/services/scheduler_service.py,
                            infrastructure/persistence/repositories/scheduled_task_repository.py, with
                            the listing of the overdue tasks
    Telemetry_Store         domain/entities/telemetry_event.py,
                            infrastructure/persistence/repositories/telemetry_repository.py
    Telemetry               application/services/telemetry/telemetry_service.py
    Hooks                   application/services/orchestration (specs, actions, dispatcher, hook_service),
                            infrastructure/orchestration (rule_loader, shell_action_runner),
                            domain/entities/rule.py
    Task_Board_Properties, Launch_Properties, Polling_Properties, Fpel_Properties,
    Workflow_Properties, Execution_Properties, Text_Properties, Resilience_Properties,
    Memory_Properties, Session_Properties, Sync_Properties, Replica_Properties,
    Messaging_Properties, Telemetry_Properties, Hook_Properties
                            the properties, numbered C1, C2, ..., and concrete cases of them

  How the model corresponds to the code. An entity is a record of the fields of its dataclass; its
  constructor is a function make_... that returns the entity or the error of its checks, and valid_...
  says that the checks pass. A repository is a set of functions on its table: a row is kept as it was
  written, so a row that the entity refuses is a possible content, and reading it raises. A write that
  violates a primary key, a partial unique index or a foreign key raises IntegrityError and leaves the
  table as it was. A service method is a function from its arguments and the state to a result (Inl an
  exception, Inr a value) and the state after it, with the reads, guards and writes in the order of the
  code: what was written before an exception stays written. The polling service works on a record of the
  three tables, the run directories and the list of signals and pane kills it has sent. The workflow executor
  works on the registry, the repository with the log of git commands, the sessions, what was typed into
  them, and the events and hooks it handed over; the commands work on that world and the three state
  files; the manager on its agents, the registry and the sessions it killed. The memory service works on
  a record of the rows, prompts, sessions and the journal; the sync service on that record, the files it
  has written or been given and the two attributes of a deferred export; the messenger on the store, the
  temporary files, the time of the last sweep and the list of its tmux calls; the telemetry service on its
  three tables and the buffer; the hook service on the rules it has loaded and the list of runs it asked
  the shell for. A caller of several stores runs an operation of one of them with run_in, whose laws are the locale store_part.

  Arguments that stand for what is outside the code: the clock and the fresh ids; the hash function and
  the JSON printer (record hasher; nothing is assumed of them); the authorization port of the board; the
  answers of tmux and of the spawned processes; git, as a function over an arbitrary type of repositories;
  the file system; what a hook script did; how a write of a state file ended; the full text search of
  SQLite, the bytes gzip makes of lines and SHA-256 of the sync service; Python's regular expressions and
  the shell, which may answer differently at every run, for the event hooks. A file of lines is kept as what
  reading it yields: the JSON values of its lines, and where it breaks off, if it does.

  What the lemmas show. For the board: each operation refines a step of an abstract board, a map from ids
  to tasks, which fixes every field of the task it writes, and raises only without such a step; lives of tasks are paths of the transition table; the cycle search decides cyclicity; what
  resolve_blockers answers. For the registry: at most one launch of a key in flight, no call writes a row
  it does not name, exclusive grants,
  lives of launches, both reconciliations, and the lineage check against chains of ancestors. For the
  polling service: the concurrency cap, one open run per task, the completion of a run over the three
  stores. For FPEL: the gate allows exactly sealed, unfailed content with an equal hash, what freezing,
  failing, sealing and snapshots do to the authorization of the target and of the others, and the order
  of the store over any sequence of calls. For the workflow: a task's launch ends ACTIVE or FAILED and a
  started task is not started again, execute runs only what the gate authorises, ship does nothing behind a closed
  gate and what opens it, and what is read back of the state files: all but the mark of a migration. For the texts: the typed command has
  exactly the intended words, git's listing is read back. For the rest: the agent manager's launches keep
  step with its agents, the limiters bound every window, the breaker its half-open calls, what a retried
  call returns or raises, and the promise contracts refine a map. For the memory: any calls keep ids, event keys and
  topic keys unique, a row can be read exactly when its project is one the entity accepts, and everything handed out
  passes the checks of the entity, what a save does to the rows, what a
  comparison of two windows lists, and that redaction leaves no private block. For sessions: at most one
  active session of a project. For sync: no mutation is skipped however exports of mutations, deferred
  commits and imports interleave, unless an export of observations moved the watermark over it, a full export arrives elsewhere entry by entry, a second import changes nothing,
  manifests are accepted, and what a replay of the journal yields. For messaging: what the store keeps and
  lists, what a send answers and does, and that a sent message is read back from its reference. For
  telemetry: no event is lost between buffer and table, and the counters of a session. For the hooks: what
  reaches the shell, that rules with the policy to continue never stop the caller, and that what does is a
  refused command or an answer of the shell to a command that was asked for. Some
  theorems state what the code does where that is not what
  its comments promise, or what a caller would want; the texts before them say so.

  Bounds. The recursion of the cycle search is bounded by the number of tasks and is shown never to
  reach that bound; the walk along the ancestors of a launch stops after sixteen steps as in the code; all
  other recursions are structural. Python's integers are unbounded and so are the model's.

  Simplifications. Within one call of the polling service the clock is read once. Python's recursion limit,
  which a chain of about a thousand tasks reaches in the cycle search, is left out. A signal goes to a
  process of the same user: the PermissionError of os.kill is left out. SQLite can also fail
  with a lock or a disk error; only violated constraints are modelled. Checks of argument types hold by
  typing. Log calls, the waiting loops between two signals and the foreign key from runs to launches are
  left out. Rows with equal created_at are kept in the order of their insertion.

  In the workflow a task field that is a list or dictionary where a text is expected counts as any other
  non-text. JSON numbers are integers. The text of a JSON column is represented by the value it parses to,
  integers written to a column are taken to fit 64 bits, and rows with equal sort keys come in the order of
  their insertion. The memory service runs without a telemetry service, whose failures it swallows.
  Floating point numbers of telemetry, of the delays between retries and of clocks in seconds are exact
  rationals; the overflow of the backoff's power and the range of time.sleep are kept. The messages the workflow
  commands send, and their memory entries other than ship's log, are left out, as their failures are
  swallowed.

  Not modelled: retrieval, agent templates, the bug-hunt command, the hook scripts, the HTTP, MCP and TUI front ends and the other commands, and the process
  and tmux backends, whose answers are inputs here.
\<close>

end
